(* ===== verification/Svpn_Prelude.thy ===== *)
theory Svpn_Prelude
  imports Main "HOL-Library.Sublist"
begin

text \<open>
  The prelude of the development: what every component shares and no component owns.

  A Go function that changes the state of the machine and returns an \<^verbatim>\<open>error\<close> is a
  \<open>proc\<close>: it maps the state of the world to the error it returns (\<open>None\<close> is Go's
  \<^verbatim>\<open>nil\<close>) and the new state. The combinators below are the control flow the sources use:
  early return on error, an error that is dropped with \<^verbatim>\<open>_ =\<close>, a loop that stops at the
  first error, and a bounded loop that breaks at the first error. The section on \<open>preserves\<close>
  is the small program logic with which the components prove what a sequence of such calls
  keeps; its rules are collected in \<open>proc_rules\<close>.

  The second part holds generic facts on first-occurrence de-duplication (the
  \<^verbatim>\<open>seen\<close> map loops of the sources) and on sorting.
\<close>

named_theorems proc_rules \<open>introduction rules for preserves\<close>
named_theorems proc_simps \<open>how the combinators of proc compute\<close>


section \<open>Procedures: state, errors, loops\<close>

type_synonym ('e, 'w) proc = "'w \<Rightarrow> 'e option \<times> 'w"

definition skip_ok :: "('e, 'w) proc" where
  "skip_ok w = (None, w)"

definition fail_with :: "'e \<Rightarrow> ('e, 'w) proc" where
  "fail_with e w = (Some e, w)"

definition and_then :: "('e, 'w) proc \<Rightarrow> ('e, 'w) proc \<Rightarrow> ('e, 'w) proc" where
  "and_then p q w = (case p w of (None, w') \<Rightarrow> q w' | (Some e, w') \<Rightarrow> (Some e, w'))"

definition on_err :: "('e, 'w) proc \<Rightarrow> ('e \<Rightarrow> ('f, 'w) proc) \<Rightarrow> ('f, 'w) proc" where
  "on_err p h w = (case p w of (None, w') \<Rightarrow> (None, w') | (Some e, w') \<Rightarrow> h e w')"

definition ignore_err :: "('e, 'w) proc \<Rightarrow> ('f, 'w) proc" where
  "ignore_err p w = (None, snd (p w))"

definition map_err :: "('e \<Rightarrow> 'f) \<Rightarrow> ('e, 'w) proc \<Rightarrow> ('f, 'w) proc" where
  "map_err f p w = (case p w of (r, w') \<Rightarrow> (map_option f r, w'))"

definition when_ok :: "bool \<Rightarrow> ('e, 'w) proc \<Rightarrow> ('e, 'w) proc" where
  "when_ok b p = (if b then p else skip_ok)"

text \<open>A call that returns a value or an error, and what happens with the value.\<close>

definition fetch :: "('w \<Rightarrow> ('e + 'a) \<times> 'w) \<Rightarrow> ('e \<Rightarrow> 'f) \<Rightarrow> ('a \<Rightarrow> ('f, 'w) proc) \<Rightarrow> ('f, 'w) proc" where
  "fetch q wrap k w = (case q w of (Inl e, w') \<Rightarrow> (Some (wrap e), w') | (Inr a, w') \<Rightarrow> k a w')"

text \<open>Calls that return a value or an error, one after the other.\<close>

type_synonym ('e, 'a, 'w) call = "'w \<Rightarrow> ('e + 'a) \<times> 'w"

definition returns :: "'a \<Rightarrow> ('e, 'a, 'w) call" where
  "returns a w = (Inr a, w)"

definition raises :: "'e \<Rightarrow> ('e, 'a, 'w) call" where
  "raises e w = (Inl e, w)"

definition call_then :: "('e, 'a, 'w) call \<Rightarrow> ('a \<Rightarrow> ('e, 'b, 'w) call) \<Rightarrow> ('e, 'b, 'w) call" where
  "call_then f k w = (case f w of (Inl e, w') \<Rightarrow> (Inl e, w') | (Inr a, w') \<Rightarrow> k a w')"

definition lift_sum :: "'e + 'a \<Rightarrow> ('e, 'a, 'w) call" where
  "lift_sum r w = (r, w)"

definition lift_proc :: "('e, 'w) proc \<Rightarrow> ('e, unit, 'w) call" where
  "lift_proc p w = (case p w of (None, w') \<Rightarrow> (Inr (), w') | (Some e, w') \<Rightarrow> (Inl e, w'))"

fun call_each :: "('a \<Rightarrow> ('e, 'b, 'w) call) \<Rightarrow> 'a list \<Rightarrow> ('e, 'b list, 'w) call" where
  "call_each f [] = returns []"
| "call_each f (x # xs) = call_then (f x) (\<lambda>y. call_then (call_each f xs) (\<lambda>ys. returns (y # ys)))"

fun for_each :: "('a \<Rightarrow> ('e, 'w) proc) \<Rightarrow> 'a list \<Rightarrow> ('e, 'w) proc" where
  "for_each f [] = skip_ok"
| "for_each f (x # xs) = and_then (f x) (for_each f xs)"

fun repeat_until_err :: "nat \<Rightarrow> ('e, 'w) proc \<Rightarrow> ('f, 'w) proc" where
  "repeat_until_err 0 p w = (None, w)"
| "repeat_until_err (Suc n) p w =
     (case p w of (None, w') \<Rightarrow> repeat_until_err n p w' | (Some e, w') \<Rightarrow> (None, w'))"

lemma skip_ok_eq [simp, proc_simps]: "skip_ok w = (None, w)"
  by (simp add: skip_ok_def)

lemma fail_with_eq [simp, proc_simps]: "fail_with e w = (Some e, w)"
  by (simp add: fail_with_def)

lemma and_then_None [proc_simps]:
  "and_then p q w = (None, w') \<longleftrightarrow> (\<exists>v. p w = (None, v) \<and> q v = (None, w'))"
  by (auto simp: and_then_def split: prod.splits option.splits)

lemma and_then_Some [proc_simps]:
  "and_then p q w = (Some e, w') \<longleftrightarrow>
     p w = (Some e, w') \<or> (\<exists>v. p w = (None, v) \<and> q v = (Some e, w'))"
  by (auto simp: and_then_def split: prod.splits option.splits)

lemma and_then_cases:
  assumes "and_then p q w = (r, w')"
  obtains (first) e where "p w = (Some e, w')" "r = Some e" | (both) v where "p w = (None, v)" "q v = (r, w')"
  using assms by (auto simp: and_then_def split: prod.splits option.splits)

lemma map_err_cases:
  assumes "map_err g p w = (r, w')"
  obtains q where "p w = (q, w')" "r = None \<longleftrightarrow> q = None"
  using assms by (auto simp: map_err_def split: prod.splits)

lemma and_then_assoc: "and_then (and_then p q) r = and_then p (and_then q r)"
  by (auto simp: and_then_def fun_eq_iff split: prod.splits option.splits)

lemma fetch_cases:
  assumes "fetch q wrap k w = (r, w')"
  obtains (failed) e where "q w = (Inl e, w')" "r = Some (wrap e)" | (got) a v where "q w = (Inr a, v)" "k a v = (r, w')"
  using assms by (auto simp: fetch_def split: prod.splits sum.splits)

lemma fetch_None [proc_simps]:
  "fetch q wrap k w = (None, w') \<longleftrightarrow> (\<exists>a v. q w = (Inr a, v) \<and> k a v = (None, w'))"
  by (auto simp: fetch_def split: prod.splits sum.splits)

lemma when_ok_simps [simp, proc_simps]: "when_ok True p = p" "when_ok False p = skip_ok"
  by (simp_all add: when_ok_def)

lemma map_err_None [proc_simps]: "map_err f p w = (None, w') \<longleftrightarrow> p w = (None, w')"
  by (auto simp: map_err_def split: prod.splits)

lemma fst_repeat_until_err [simp]: "fst (repeat_until_err n p w) = None"
  by (induction n p w rule: repeat_until_err.induct) (auto split: prod.splits option.splits)

lemma for_each_append:
  "for_each f (xs @ ys) = and_then (for_each f xs) (for_each f ys)"
  by (induction xs) (auto simp: and_then_def fun_eq_iff split: prod.splits option.splits)


lemma call_Inr [proc_simps]:
  "call_then f k w = (Inr b, w'') \<longleftrightarrow> (\<exists>a w'. f w = (Inr a, w') \<and> k a w' = (Inr b, w''))"
  "returns a w = (Inr b, w'') \<longleftrightarrow> a = b \<and> w = w''"
  "raises e w = (Inr b, w'') \<longleftrightarrow> False"
  "lift_sum r w = (Inr b, w'') \<longleftrightarrow> r = Inr b \<and> w = w''"
  "lift_proc p w = (Inr u, w'') \<longleftrightarrow> p w = (None, w'')"
  by (auto simp: call_then_def returns_def raises_def lift_sum_def lift_proc_def split: prod.splits sum.splits option.splits)

lemma call_Inl [proc_simps]:
  "call_then f k w = (Inl e, w'') \<longleftrightarrow> f w = (Inl e, w'') \<or> (\<exists>a w'. f w = (Inr a, w') \<and> k a w' = (Inl e, w''))"
  "returns a w = (Inl e, w'') \<longleftrightarrow> False"
  "raises f' w = (Inl e, w'') \<longleftrightarrow> f' = e \<and> w = w''"
  "lift_sum r w = (Inl e, w'') \<longleftrightarrow> r = Inl e \<and> w = w''"
  "lift_proc p w = (Inl e, w'') \<longleftrightarrow> p w = (Some e, w'')"
  by (auto simp: call_then_def returns_def raises_def lift_sum_def lift_proc_def split: prod.splits sum.splits option.splits)


section \<open>What a procedure keeps\<close>

definition preserves :: "('w \<Rightarrow> bool) \<Rightarrow> ('e, 'w) proc \<Rightarrow> bool" where
  "preserves P p \<longleftrightarrow> (\<forall>w. P w \<longrightarrow> P (snd (p w)))"

lemma preservesI: "(\<And>w. P w \<Longrightarrow> P (snd (p w))) \<Longrightarrow> preserves P p"
  by (simp add: preserves_def)

lemma preservesD: "preserves P p \<Longrightarrow> P w \<Longrightarrow> p w = (r, w') \<Longrightarrow> P w'"
  by (auto simp: preserves_def dest!: spec [of _ w])

lemma preserves_skip [proc_rules, intro!]: "preserves P skip_ok"
  by (simp add: preserves_def)

lemma preserves_fail [proc_rules, intro!]: "preserves P (fail_with e)"
  by (simp add: preserves_def)

lemma preserves_and_then [proc_rules]:
  "preserves P p \<Longrightarrow> preserves P q \<Longrightarrow> preserves P (and_then p q)"
  by (auto simp: preserves_def and_then_def split: prod.splits option.splits)

lemma preserves_on_err [proc_rules]:
  "preserves P p \<Longrightarrow> (\<And>e. preserves P (h e)) \<Longrightarrow> preserves P (on_err p h)"
  by (auto simp: preserves_def on_err_def split: prod.splits option.splits)

lemma preserves_ignore_err [proc_rules]: "preserves P p \<Longrightarrow> preserves P (ignore_err p)"
  by (simp add: preserves_def ignore_err_def)

lemma preserves_map_err [proc_rules]: "preserves P p \<Longrightarrow> preserves P (map_err f p)"
  by (auto simp: preserves_def map_err_def split: prod.splits)

lemma preserves_fetch [proc_rules]:
  "(\<And>w. P w \<Longrightarrow> P (snd (q w))) \<Longrightarrow> (\<And>a. preserves P (k a)) \<Longrightarrow> preserves P (fetch q wrap k)"
  by (fastforce simp: preserves_def fetch_def split: prod.splits sum.splits)

lemma preserves_when [proc_rules]:
  "(b \<Longrightarrow> preserves P p) \<Longrightarrow> preserves P (when_ok b p)"
  by (cases b) auto

lemma preserves_if [proc_rules]:
  "(b \<Longrightarrow> preserves P p) \<Longrightarrow> (\<not> b \<Longrightarrow> preserves P q) \<Longrightarrow> preserves P (if b then p else q)"
  by simp

lemma preserves_for_each [proc_rules]:
  "(\<And>x. x \<in> set xs \<Longrightarrow> preserves P (f x)) \<Longrightarrow> preserves P (for_each f xs)"
  by (induction xs) (auto intro: preserves_and_then)

lemma preserves_repeat [proc_rules]:
  assumes "preserves P p"
  shows "preserves P (repeat_until_err n p)"
proof (rule preservesI)
  fix w assume "P w"
  then show "P (snd (repeat_until_err n p w))"
    using assms
    by (induction n p w rule: repeat_until_err.induct)
      (auto split: prod.splits option.splits dest: preservesD)
qed

text \<open>A loop whose body establishes a relation between item and state, kept by the later items.\<close>

lemma for_each_establishes:
  assumes run: "for_each f xs w = (None, w')" and inv: "I w"
    and step: "\<And>x v v'. x \<in> set xs \<Longrightarrow> I v \<Longrightarrow> f x v = (None, v') \<Longrightarrow> I v' \<and> Q x v'"
    and keep: "\<And>x y v v'. x \<in> set xs \<Longrightarrow> y \<in> set xs \<Longrightarrow> x \<noteq> y \<Longrightarrow> I v \<Longrightarrow> Q x v \<Longrightarrow>
      f y v = (None, v') \<Longrightarrow> Q x v'"
  shows "I w' \<and> (\<forall>x \<in> set xs. Q x w')"
proof -
  have gen: "\<And>w. for_each f ys w = (None, w') \<Longrightarrow> I w \<Longrightarrow> set ys \<subseteq> set xs \<Longrightarrow>
      (\<forall>x \<in> S. Q x w) \<Longrightarrow> S \<subseteq> set xs \<Longrightarrow> I w' \<and> (\<forall>x \<in> S \<union> set ys. Q x w')" for ys S
  proof (induction ys arbitrary: S)
    case Nil
    then show ?case by simp
  next
    case (Cons y ys)
    from Cons.prems(1) obtain v where v: "f y w = (None, v)" "for_each f ys v = (None, w')"
      by (auto simp: and_then_None)
    from Cons.prems step v have "I v" "Q y v" by auto
    moreover have "\<forall>x \<in> insert y S. Q x v"
      using Cons.prems keep [of _ y w v] v \<open>Q y v\<close> by auto
    ultimately have "I w' \<and> (\<forall>x \<in> insert y S \<union> set ys. Q x w')"
      using Cons.IH [of v "insert y S"] v Cons.prems by auto
    then show ?case by auto
  qed
  from gen [of xs w "{}"] run inv show ?thesis by simp
qed


section \<open>First-occurrence de-duplication\<close>

text \<open>
  The sources de-duplicate with a \<^verbatim>\<open>seen\<close> map and an output slice: an item is appended the
  first time it occurs. The accumulator-free form is the specification, \<open>dedup_loop\<close> the loop.
\<close>

fun dedup_loop :: "'a list \<Rightarrow> 'a list \<Rightarrow> 'a list" where
  "dedup_loop out [] = out"
| "dedup_loop out (x # xs) = (if x \<in> set out then dedup_loop out xs else dedup_loop (out @ [x]) xs)"

abbreviation dedup :: "'a list \<Rightarrow> 'a list" where
  "dedup \<equiv> dedup_loop []"

lemma set_dedup_loop: "set (dedup_loop out xs) = set out \<union> set xs"
  by (induction out xs rule: dedup_loop.induct) auto

lemma distinct_dedup_loop: "distinct out \<Longrightarrow> distinct (dedup_loop out xs)"
  by (induction out xs rule: dedup_loop.induct) auto

lemma set_dedup [simp]: "set (dedup xs) = set xs"
  by (simp add: set_dedup_loop)

lemma distinct_dedup [simp]: "distinct (dedup xs)"
  by (simp add: distinct_dedup_loop)

lemma dedup_loop_distinct:
  "distinct xs \<Longrightarrow> set out \<inter> set xs = {} \<Longrightarrow> dedup_loop out xs = out @ xs"
  by (induction out xs rule: dedup_loop.induct) auto

lemma dedup_of_distinct: "distinct xs \<Longrightarrow> dedup xs = xs"
  by (simp add: dedup_loop_distinct)

lemma dedup_idem [simp]: "dedup (dedup xs) = dedup xs"
  by (simp add: dedup_of_distinct)

lemma dedup_Nil_iff [simp]: "dedup xs = [] \<longleftrightarrow> xs = []"
  using set_dedup [of xs] by (metis set_empty)


section \<open>Traversing a list with a fallible function\<close>

fun traverse :: "('a \<Rightarrow> 'e + 'b) \<Rightarrow> 'a list \<Rightarrow> 'e + 'b list" where
  "traverse f [] = Inr []"
| "traverse f (x # xs) =
     (case f x of Inl e \<Rightarrow> Inl e
      | Inr y \<Rightarrow> (case traverse f xs of Inl e \<Rightarrow> Inl e | Inr ys \<Rightarrow> Inr (y # ys)))"

lemma traverse_Inr:
  "traverse f xs = Inr ys \<longleftrightarrow> list_all2 (\<lambda>x y. f x = Inr y) xs ys"
proof (induction xs arbitrary: ys)
  case Nil
  then show ?case by auto
next
  case (Cons x xs)
  then show ?case
    by (cases ys) (auto split: sum.splits, metis Inr_inject)
qed

lemma traverse_Inl: "traverse f xs = Inl e \<Longrightarrow> \<exists>x \<in> set xs. f x = Inl e"
  by (induction xs) (auto split: sum.splits)

lemma traverse_all: "(\<And>x. x \<in> set xs \<Longrightarrow> f x = Inr (g x)) \<Longrightarrow> traverse f xs = Inr (map g xs)"
  by (induction xs) auto

lemma traverse_Inr_set:
  "traverse f xs = Inr ys \<Longrightarrow> set ys = {y. \<exists>x \<in> set xs. f x = Inr y}"
  by (auto simp: traverse_Inr list_all2_conv_all_nth set_conv_nth)


section \<open>Fallible values\<close>

definition bindE :: "'e + 'a \<Rightarrow> ('a \<Rightarrow> 'e + 'b) \<Rightarrow> 'e + 'b" where
  "bindE x f = (case x of Inl e \<Rightarrow> Inl e | Inr a \<Rightarrow> f a)"

lemma bindE_simps [simp]: "bindE (Inl e) f = Inl e" "bindE (Inr a) f = f a"
  by (simp_all add: bindE_def)

lemma bindE_Inr: "bindE x f = Inr b \<longleftrightarrow> (\<exists>a. x = Inr a \<and> f a = Inr b)"
  by (cases x) simp_all

text \<open>
  The loop of the normalisation functions: an item is skipped, rejected with an error, or turned
  into a canonical value that is appended unless it is already there.
\<close>

fun norm_loop :: "('a \<Rightarrow> 'e + 'b option) \<Rightarrow> 'b list \<Rightarrow> 'a list \<Rightarrow> 'e + 'b list" where
  "norm_loop f out [] = Inr out"
| "norm_loop f out (x # xs) =
     (case f x of
        Inl e \<Rightarrow> Inl e
      | Inr None \<Rightarrow> norm_loop f out xs
      | Inr (Some y) \<Rightarrow> norm_loop f (if y \<in> set out then out else out @ [y]) xs)"

lemma norm_loop_props:
  assumes "norm_loop f out xs = Inr ys"
  shows "set ys = set out \<union> {y. \<exists>x \<in> set xs. f x = Inr (Some y)}"
    and "distinct out \<Longrightarrow> distinct ys"
    and "\<forall>x \<in> set xs. \<exists>r. f x = Inr r"
  using assms
  by (induction f out xs rule: norm_loop.induct; fastforce split: sum.splits option.splits if_splits)+

lemma norm_loop_fixed:
  "(\<And>y. y \<in> set ys \<Longrightarrow> f y = Inr (Some y)) \<Longrightarrow> distinct (out @ ys) \<Longrightarrow> norm_loop f out ys = Inr (out @ ys)"
  by (induction ys arbitrary: out) auto

lemma norm_loop_nonempty:
  assumes "norm_loop f out xs = Inr ys" "xs \<noteq> []" "\<forall>x \<in> set xs. f x \<noteq> Inr None"
  shows "ys \<noteq> []"
proof -
  obtain x xs' where x: "xs = x # xs'" using assms(2) by (cases xs) auto
  then obtain y where "f x = Inr (Some y)"
    using norm_loop_props(3) [OF assms(1)] assms(3) by (metis list.set_intros(1) option.exhaust)
  then have "y \<in> set ys" using norm_loop_props(1) [OF assms(1)] x by auto
  then show ?thesis by auto
qed

end
