(* ===== verification/Go_Strings.thy ===== *)
theory Go_Strings
  imports Svpn_Prelude "HOL-Library.Char_ord" "HOL-Library.List_Lexorder" "HOL-Library.Word" "HOL-Library.Code_Target_Nat"
begin

unbundle bit_operations_syntax

text \<open>
  What the sources use of Go's \<^verbatim>\<open>strings\<close>, \<^verbatim>\<open>strconv\<close>, \<^verbatim>\<open>sort\<close>, \<^verbatim>\<open>fmt\<close> and
  \<^verbatim>\<open>hash/fnv\<close> packages. A Go string is a sequence of bytes and is modelled as a \<open>string\<close>
  (a list of 8-bit characters). White space and letter case are Unicode notions in Go; the
  definitions follow Go's ASCII tables, so they are exact for ASCII text (every name, number,
  address and domain the program accepts is ASCII) and leave bytes of 128 and above unchanged.

  \<^verbatim>\<open>int\<close> is a 64-bit integer on the platforms the program is built for (amd64, arm64);
  \<open>Atoi\<close> rejects what does not fit, as \<^verbatim>\<open>strconv.Atoi\<close> does. Strings are compared
  bytewise, which is the order of \<open>Char_ord\<close> and \<open>List_Lexorder\<close>.
\<close>


section \<open>Characters\<close>

abbreviation code :: "char \<Rightarrow> nat" where
  "code c \<equiv> of_char c"

definition is_space :: "char \<Rightarrow> bool" where
  "is_space c \<longleftrightarrow> 9 \<le> code c \<and> code c \<le> 13 \<or> code c = 32"

definition is_digit :: "char \<Rightarrow> bool" where
  "is_digit c \<longleftrightarrow> 48 \<le> code c \<and> code c \<le> 57"

definition is_lower :: "char \<Rightarrow> bool" where
  "is_lower c \<longleftrightarrow> 97 \<le> code c \<and> code c \<le> 122"

definition is_upper :: "char \<Rightarrow> bool" where
  "is_upper c \<longleftrightarrow> 65 \<le> code c \<and> code c \<le> 90"

definition is_alnum :: "char \<Rightarrow> bool" where
  "is_alnum c \<longleftrightarrow> is_digit c \<or> is_lower c \<or> is_upper c"

definition lower_char :: "char \<Rightarrow> char" where
  "lower_char c = (if is_upper c then char_of (code c + 32) else c)"

definition upper_char :: "char \<Rightarrow> char" where
  "upper_char c = (if is_lower c then char_of (code c - 32) else c)"

lemmas char_class_defs = is_space_def is_digit_def is_lower_def is_upper_def is_alnum_def

lemma code_less_256: "code c < 256"
  by (metis char_of_eq_iff mod_less_divisor of_char_mod_256 zero_less_numeral)

lemma code_lower_char: "code (lower_char c) = (if is_upper c then code c + 32 else code c)"
  by (simp add: lower_char_def is_upper_def)

lemma lower_char_idem [simp]: "lower_char (lower_char c) = lower_char c"
proof (cases "is_upper c")
  case True
  then have "\<not> is_upper (lower_char c)"
    by (simp add: is_upper_def code_lower_char)
  then show ?thesis by (simp add: lower_char_def)
qed (simp add: lower_char_def)

lemma is_space_lower_char [simp]: "is_space (lower_char c) = is_space c"
  by (auto simp: is_space_def code_lower_char is_upper_def)

lemma not_upper_lower_char [simp]: "\<not> is_upper (lower_char c)"
  by (auto simp: is_upper_def code_lower_char)

lemma lower_char_id: "\<not> is_upper c \<Longrightarrow> lower_char c = c"
  by (simp add: lower_char_def)


section \<open>Package strings\<close>

definition TrimLeftSpace :: "string \<Rightarrow> string" where
  "TrimLeftSpace s = dropWhile is_space s"

definition TrimSpace :: "string \<Rightarrow> string" where
  "TrimSpace s = rev (dropWhile is_space (rev (dropWhile is_space s)))"

definition ToLower :: "string \<Rightarrow> string" where
  "ToLower s = map lower_char s"

definition ToUpper :: "string \<Rightarrow> string" where
  "ToUpper s = map upper_char s"

definition EqualFold :: "string \<Rightarrow> string \<Rightarrow> bool" where
  "EqualFold s t \<longleftrightarrow> ToLower s = ToLower t"

definition HasPrefix :: "string \<Rightarrow> string \<Rightarrow> bool" where
  "HasPrefix s p \<longleftrightarrow> take (length p) s = p"

definition HasSuffix :: "string \<Rightarrow> string \<Rightarrow> bool" where
  "HasSuffix s p \<longleftrightarrow> take (length p) (rev s) = rev p"

definition TrimPrefix :: "string \<Rightarrow> string \<Rightarrow> string" where
  "TrimPrefix s p = (if HasPrefix s p then drop (length p) s else s)"

definition TrimChar :: "char \<Rightarrow> string \<Rightarrow> string" where
  "TrimChar c s = rev (dropWhile (\<lambda>x. x = c) (rev (dropWhile (\<lambda>x. x = c) s)))"

fun Contains :: "string \<Rightarrow> string \<Rightarrow> bool" where
  "Contains [] sub \<longleftrightarrow> sub = []"
| "Contains (c # s) sub \<longleftrightarrow> HasPrefix (c # s) sub \<or> Contains s sub"

definition CountChar :: "string \<Rightarrow> char \<Rightarrow> nat" where
  "CountChar s c = length (filter (\<lambda>x. x = c) s)"

definition RemoveChar :: "char \<Rightarrow> string \<Rightarrow> string" where
  "RemoveChar c s = filter (\<lambda>x. x \<noteq> c) s"

text \<open>The text before the first occurrence of a byte (\<^verbatim>\<open>s[:strings.Index(s, sep)]\<close>).\<close>

definition before_char :: "char \<Rightarrow> string \<Rightarrow> string" where
  "before_char c s = takeWhile (\<lambda>x. x \<noteq> c) s"

definition after_char :: "char \<Rightarrow> string \<Rightarrow> string" where
  "after_char c s = tl (dropWhile (\<lambda>x. x \<noteq> c) s)"

fun split_by :: "(char \<Rightarrow> bool) \<Rightarrow> string \<Rightarrow> string list" where
  "split_by p [] = [[]]"
| "split_by p (c # s) =
     (if p c then [] # split_by p s
      else (case split_by p s of [] \<Rightarrow> [[c]] | w # ws \<Rightarrow> (c # w) # ws))"

definition Split :: "string \<Rightarrow> char \<Rightarrow> string list" where
  "Split s sep = split_by (\<lambda>c. c = sep) s"

definition FieldsFunc :: "(char \<Rightarrow> bool) \<Rightarrow> string \<Rightarrow> string list" where
  "FieldsFunc p s = filter (\<lambda>w. w \<noteq> []) (split_by p s)"

definition Fields :: "string \<Rightarrow> string list" where
  "Fields s = FieldsFunc is_space s"

fun Join :: "string list \<Rightarrow> string \<Rightarrow> string" where
  "Join [] sep = []"
| "Join [w] sep = w"
| "Join (w # v # ws) sep = w @ sep @ Join (v # ws) sep"

definition sort_strings :: "string list \<Rightarrow> string list" where
  "sort_strings xs = sort xs"

lemma set_sort_strings [simp]: "set (sort_strings xs) = set xs"
  by (simp add: sort_strings_def)

lemma distinct_sort_strings [simp]: "distinct (sort_strings xs) = distinct xs"
  by (simp add: sort_strings_def)

lemma sort_strings_Nil_iff [simp]: "sort_strings xs = [] \<longleftrightarrow> xs = []"
  by (metis set_empty set_sort_strings)

lemma TrimSpace_Nil [simp]: "TrimSpace [] = []"
  by (simp add: TrimSpace_def)

lemma TrimSpace_split: "\<exists>a b. s = a @ TrimSpace s @ b \<and> list_all is_space a \<and> list_all is_space b"
proof -
  let ?l = "dropWhile is_space s"
  have "s = takeWhile is_space s @ ?l" by simp
  moreover have "?l = rev (dropWhile is_space (rev ?l)) @ rev (takeWhile is_space (rev ?l))"
    by (metis rev_append rev_rev_ident takeWhile_dropWhile_id)
  moreover have "list_all is_space (takeWhile is_space s)"
    "list_all is_space (rev (takeWhile is_space (rev ?l)))"
    by (auto simp: list_all_iff dest: set_takeWhileD)
  ultimately show ?thesis
    unfolding TrimSpace_def by metis
qed

lemma set_TrimSpace: "set (TrimSpace s) \<subseteq> set s"
  using TrimSpace_split [of s] by (metis Un_subset_iff set_append sup_ge1 sup_ge2 order_refl)

lemma length_TrimSpace: "length (TrimSpace s) \<le> length s"
  using TrimSpace_split [of s] by (metis le_add1 le_add2 length_append order_trans)

text \<open>A trimmed text starts and ends with a byte that is no white space; such a text is kept.\<close>

definition trimmed :: "string \<Rightarrow> bool" where
  "trimmed s \<longleftrightarrow> s \<noteq> [] \<longrightarrow> \<not> is_space (hd s) \<and> \<not> is_space (last s)"

lemma TrimSpace_id: "trimmed s \<Longrightarrow> TrimSpace s = s"
proof (cases s)
  case (Cons c cs)
  assume t: "trimmed s"
  with Cons have "dropWhile is_space s = s" by (simp add: trimmed_def)
  moreover have "dropWhile is_space (rev s) = rev s"
    using t Cons by (simp add: trimmed_def dropWhile_eq_self_iff hd_rev del: rev.simps)
  ultimately show ?thesis by (simp add: TrimSpace_def)
qed simp

lemma trimmed_TrimSpace [simp]: "trimmed (TrimSpace s)"
proof (cases "TrimSpace s")
  case (Cons c cs)
  let ?l = "dropWhile is_space s"
  let ?r = "dropWhile is_space (rev ?l)"
  have ne: "?r \<noteq> []" using Cons by (simp add: TrimSpace_def)
  then have "\<not> is_space (hd ?r)" by (rule hd_dropWhile)
  then have l: "\<not> is_space (last (TrimSpace s))" by (simp add: TrimSpace_def last_rev)
  have "?l \<noteq> []" using ne by (metis dropWhile.simps(1) rev.simps(1))
  then have "\<not> is_space (hd ?l)" by (rule hd_dropWhile)
  moreover have "\<exists>b. ?l = TrimSpace s @ b"
    unfolding TrimSpace_def by (metis rev_append rev_rev_ident takeWhile_dropWhile_id)
  then have "hd ?l = hd (TrimSpace s)" using Cons by auto
  ultimately show ?thesis using l by (simp add: trimmed_def)
qed (simp add: trimmed_def)

lemma TrimSpace_idem [simp]: "TrimSpace (TrimSpace s) = TrimSpace s"
  by (simp add: TrimSpace_id)

lemma no_space_trimmed: "list_all (\<lambda>c. \<not> is_space c) s \<Longrightarrow> trimmed s"
  by (cases s) (auto simp: trimmed_def list_all_iff)

lemma TrimSpace_Nil_iff: "TrimSpace s = [] \<longleftrightarrow> list_all is_space s"
proof
  assume "TrimSpace s = []"
  then show "list_all is_space s" using TrimSpace_split [of s] by auto
next
  assume "list_all is_space s"
  then have nil: "dropWhile is_space s = []" by (simp add: list_all_iff)
  show "TrimSpace s = []" unfolding TrimSpace_def nil by simp
qed

lemma ToLower_idem [simp]: "ToLower (ToLower s) = ToLower s"
  by (simp add: ToLower_def)

lemma length_ToLower [simp]: "length (ToLower s) = length s"
  by (simp add: ToLower_def)

lemma ToLower_append [simp]: "ToLower (s @ t) = ToLower s @ ToLower t"
  by (simp add: ToLower_def)

lemma ToLower_Nil_iff [simp]: "ToLower s = [] \<longleftrightarrow> s = []"
  by (simp add: ToLower_def)

lemma ToLower_TrimSpace: "ToLower (TrimSpace s) = TrimSpace (ToLower s)"
proof -
  have drop: "dropWhile is_space (map lower_char t) = map lower_char (dropWhile is_space t)" for t
    by (simp add: dropWhile_map comp_def)
  show ?thesis
    unfolding ToLower_def TrimSpace_def drop rev_map drop by simp
qed

lemma HasPrefix_iff: "HasPrefix s p \<longleftrightarrow> (\<exists>t. s = p @ t)"
  unfolding HasPrefix_def by (metis append_eq_conv_conj append_take_drop_id)

lemma HasPrefix_append [simp]: "HasPrefix (p @ t) p"
  by (simp add: HasPrefix_iff)

lemma TrimPrefix_append [simp]: "TrimPrefix (p @ t) p = t"
  by (simp add: TrimPrefix_def)

lemma TrimPrefix_no: "\<not> HasPrefix s p \<Longrightarrow> TrimPrefix s p = s"
  by (simp add: TrimPrefix_def)

lemma HasPrefix_TrimPrefix: "HasPrefix s p \<Longrightarrow> p @ TrimPrefix s p = s"
  by (auto simp: HasPrefix_iff)

lemma split_by_nonempty [simp]: "split_by p s \<noteq> []"
  by (induction s) (auto split: list.splits)

lemma split_by_words: "w \<in> set (split_by p s) \<Longrightarrow> c \<in> set w \<Longrightarrow> c \<in> set s \<and> \<not> p c"
proof (induction s arbitrary: w)
  case (Cons x s)
  then show ?case by (fastforce split: if_splits list.splits)
qed simp

lemma split_by_none: "list_all (\<lambda>c. \<not> p c) s \<Longrightarrow> split_by p s = [s]"
  by (induction s) auto

lemma split_by_sep:
  "list_all (\<lambda>c. \<not> p c) w \<Longrightarrow> p c \<Longrightarrow> split_by p (w @ c # s) = w # split_by p s"
  by (induction w) auto

lemma FieldsFunc_words: "w \<in> set (FieldsFunc p s) \<Longrightarrow> w \<noteq> [] \<and> list_all (\<lambda>c. \<not> p c) w"
  by (auto simp: FieldsFunc_def list_all_iff dest: split_by_words)

lemma Join_Split: "Join (Split s c) [c] = s"
proof (induction s)
  case (Cons x s)
  obtain w ws where ws: "split_by (\<lambda>y. y = c) s = w # ws"
    by (meson neq_Nil_conv split_by_nonempty)
  with Cons show ?case by (cases ws) (auto simp: Split_def)
qed (simp add: Split_def)


lemma Split_Join: "list_all (\<lambda>l. c \<notin> set l) ls \<Longrightarrow> ls \<noteq> [] \<Longrightarrow> Split (Join ls [c]) c = ls"
proof (induction ls rule: induct_list012)
  case (2 l)
  then have "list_all (\<lambda>y. \<not> y = c) l" by (auto simp: list_all_iff)
  then show ?case by (simp add: Split_def split_by_none)
next
  case (3 l m ls)
  then have "list_all (\<lambda>y. \<not> y = c) l" by (auto simp: list_all_iff)
  with 3 show ?case by (simp add: Split_def split_by_sep)
qed simp


section \<open>Package strconv\<close>

definition digit_char :: "nat \<Rightarrow> char" where
  "digit_char d = char_of (if d < 10 then 48 + d else 87 + d)"

fun show_base :: "nat \<Rightarrow> nat \<Rightarrow> string" where
  "show_base b n =
     (if b < 2 \<or> n < b then [digit_char n] else show_base b (n div b) @ [digit_char (n mod b)])"

declare show_base.simps [simp del]

definition Itoa :: "int \<Rightarrow> string" where
  "Itoa i = (if i < 0 then ''-'' @ show_base 10 (nat (- i)) else show_base 10 (nat i))"

definition show_hex :: "nat \<Rightarrow> string" where
  "show_hex n = show_base 16 n"

definition pad_zero :: "nat \<Rightarrow> string \<Rightarrow> string" where
  "pad_zero k s = replicate (k - length s) (CHR ''0'') @ s"

definition read_digits :: "string \<Rightarrow> nat" where
  "read_digits s = foldl (\<lambda>n c. 10 * n + (code c - 48)) 0 s"

definition all_digits :: "string \<Rightarrow> bool" where
  "all_digits s \<longleftrightarrow> s \<noteq> [] \<and> list_all is_digit s"

definition int64_range :: "int \<Rightarrow> bool" where
  "int64_range i \<longleftrightarrow> - (2 ^ 63) \<le> i \<and> i < 2 ^ 63"

text \<open>\<open>Atoi\<close>: an optional sign, decimal digits, and the value must fit 64 bits.\<close>

definition Atoi :: "string \<Rightarrow> int option" where
  "Atoi s =
     (let neg = HasPrefix s ''-'';
          body = (if HasPrefix s ''-'' \<or> HasPrefix s ''+'' then tl s else s)
      in if all_digits body
         then (let v = (if neg then - int (read_digits body) else int (read_digits body))
               in if int64_range v then Some v else None)
         else None)"

lemma digit_char_code: "d < 10 \<Longrightarrow> code (digit_char d) = 48 + d"
  by (simp add: digit_char_def)

lemma is_digit_digit_char: "d < 10 \<Longrightarrow> is_digit (digit_char d)"
  by (simp add: is_digit_def digit_char_code)

lemma show_base_all_digits: "all_digits (show_base 10 n)"
proof (induction n rule: less_induct)
  case (less n)
  show ?case
  proof (cases "n < 10")
    case True
    then show ?thesis
      by (simp add: show_base.simps [of 10 n] all_digits_def is_digit_digit_char)
  next
    case False
    then have "all_digits (show_base 10 (n div 10))" by (intro less) simp
    with False show ?thesis
      by (simp add: show_base.simps [of 10 n] all_digits_def is_digit_digit_char)
  qed
qed

lemma read_digits_show_base: "read_digits (show_base 10 n) = n"
proof (induction n rule: less_induct)
  case (less n)
  show ?case
  proof (cases "n < 10")
    case True
    then show ?thesis
      by (simp add: show_base.simps [of 10 n] read_digits_def digit_char_code)
  next
    case False
    then have "read_digits (show_base 10 (n div 10)) = n div 10" by (intro less) simp
    with False show ?thesis
      by (simp add: show_base.simps [of 10 n] read_digits_def digit_char_code)
  qed
qed

lemma all_digits_no_sign:
  assumes "all_digits s"
  shows "\<not> HasPrefix s ''-''" and "\<not> HasPrefix s ''+''"
  using assms by (auto simp: HasPrefix_iff all_digits_def is_digit_def)

lemma digit_char_inj: "digit_char d = digit_char e \<Longrightarrow> d < 16 \<Longrightarrow> e < 16 \<Longrightarrow> d = e"
proof -
  assume "digit_char d = digit_char e" "d < 16" "e < 16"
  then have "code (digit_char d) = code (digit_char e)" by simp
  with \<open>d < 16\<close> \<open>e < 16\<close> show "d = e" by (auto simp: digit_char_def split: if_splits)
qed

lemma show_base_inj: "show_base b m = show_base b n \<Longrightarrow> 2 \<le> b \<Longrightarrow> b \<le> 16 \<Longrightarrow> m = n"
proof (induction m arbitrary: n rule: less_induct)
  case (less m)
  have ne: "show_base b k \<noteq> []" for k by (simp add: show_base.simps [of b k])
  have lt: "k mod b < 16" for k using less.prems(2,3) by (meson less_le_trans mod_less_divisor zero_less_numeral)
  consider "m < b" "n < b" | "m < b" "\<not> n < b" | "\<not> m < b" "n < b" | "\<not> m < b" "\<not> n < b" by blast
  then show ?case
  proof cases
    case 1
    then show ?thesis using less.prems by (auto simp: show_base.simps [of b m] show_base.simps [of b n] intro: digit_char_inj)
  next
    case 4
    then have "show_base b (m div b) = show_base b (n div b)" "digit_char (m mod b) = digit_char (n mod b)"
      using less.prems by (simp_all add: show_base.simps [of b m] show_base.simps [of b n])
    moreover have "m div b < m" using 4 less.prems by (intro div_less_dividend) auto
    ultimately have "m div b = n div b" "m mod b = n mod b"
      using less.IH less.prems lt digit_char_inj by blast+
    then show ?thesis by (metis div_mult_mod_eq)
  qed (use less.prems ne ne [symmetric] in \<open>auto simp: show_base.simps [of b m] show_base.simps [of b n]\<close>)
qed

text \<open>Printing and reading back a 64-bit integer gives the same integer.\<close>

lemma Atoi_Itoa: "int64_range i \<Longrightarrow> Atoi (Itoa i) = Some i"
  using show_base_all_digits [of "nat (- i)"] show_base_all_digits [of "nat i"]
    all_digits_no_sign [OF show_base_all_digits [of "nat i"]]
  by (auto simp: Atoi_def Itoa_def read_digits_show_base HasPrefix_def [of "CHR ''-'' # _"])

lemma Itoa_inj: "Itoa i = Itoa j \<Longrightarrow> i = j"
proof -
  have ns: "show_base 10 m \<noteq> CHR ''-'' # s" for m s
    using show_base_all_digits [of m] by (auto simp: all_digits_def is_digit_def)
  have inj: "show_base 10 m = show_base 10 n \<Longrightarrow> m = n" for m n
    by (metis read_digits_show_base)
  assume "Itoa i = Itoa j"
  then consider "i < 0" "j < 0" "nat (- i) = nat (- j)" | "0 \<le> i" "0 \<le> j" "nat i = nat j"
    using ns ns [symmetric] inj unfolding Itoa_def by (auto split: if_splits)
  then show ?thesis by cases simp_all
qed

lemma Itoa_nonneg_digits: "0 \<le> i \<Longrightarrow> all_digits (Itoa i)"
  by (simp add: Itoa_def show_base_all_digits)


text \<open>
  \<^verbatim>\<open>strconv.ParseUint(s, 0, 32)\<close>: the base follows from the prefix (\<^verbatim>\<open>0x\<close>, \<^verbatim>\<open>0b\<close>,
  \<^verbatim>\<open>0o\<close>, a leading \<^verbatim>\<open>0\<close>), underscores may separate digits, and the value must fit
  32 bits. Syntax and range errors are both \<open>None\<close>: no caller tells them apart.
\<close>

definition digit_val :: "char \<Rightarrow> nat option" where
  "digit_val c =
     (if is_digit c then Some (code c - 48)
      else if is_lower (lower_char c) then Some (code (lower_char c) - 97 + 10)
      else None)"

definition uint_base :: "string \<Rightarrow> nat \<times> string" where
  "uint_base s =
     (if HasPrefix s ''0'' then
        (if length s \<ge> 3 \<and> lower_char (s ! 1) = CHR ''b'' then (2, drop 2 s)
         else if length s \<ge> 3 \<and> lower_char (s ! 1) = CHR ''o'' then (8, drop 2 s)
         else if length s \<ge> 3 \<and> lower_char (s ! 1) = CHR ''x'' then (16, drop 2 s)
         else (8, drop 1 s))
      else (10, s))"

fun underscore_scan :: "bool \<Rightarrow> char \<Rightarrow> string \<Rightarrow> bool" where
  "underscore_scan hex seen [] = (seen \<noteq> CHR ''_'')"
| "underscore_scan hex seen (c # s) =
     (if is_digit c \<or> hex \<and> lower_char c \<in> set ''abcdef'' then underscore_scan hex (CHR ''0'') s
      else if c = CHR ''_'' then (if seen = CHR ''0'' then underscore_scan hex (CHR ''_'') s else False)
      else if seen = CHR ''_'' then False
      else underscore_scan hex (CHR ''!'') s)"

definition underscoreOK :: "string \<Rightarrow> bool" where
  "underscoreOK s0 =
     (let s = (if HasPrefix s0 ''-'' \<or> HasPrefix s0 ''+'' then tl s0 else s0) in
      if length s \<ge> 2 \<and> s ! 0 = CHR ''0'' \<and> lower_char (s ! 1) \<in> set ''box''
      then underscore_scan (lower_char (s ! 1) = CHR ''x'') (CHR ''0'') (drop 2 s)
      else underscore_scan False (CHR ''^'') s)"

definition read_base :: "nat \<Rightarrow> string \<Rightarrow> nat option" where
  "read_base b s =
     foldl (\<lambda>acc c. case (acc, digit_val c) of
              (Some n, Some d) \<Rightarrow> if d < b then Some (b * n + d) else None
            | _ \<Rightarrow> None) (Some 0) s"

definition ParseUint32 :: "string \<Rightarrow> nat option" where
  "ParseUint32 s =
     (if s = [] then None
      else (case uint_base s of (b, body) \<Rightarrow>
        (case read_base b (RemoveChar (CHR ''_'') body) of
           None \<Rightarrow> None
         | Some n \<Rightarrow>
             if int n < 2 ^ 32 \<and> (CHR ''_'' \<in> set body \<longrightarrow> underscoreOK s) then Some n else None)))"

lemma ParseUint32_bound: "ParseUint32 s = Some n \<Longrightarrow> n < 2 ^ 32"
  by (auto simp: ParseUint32_def split: if_splits prod.splits option.splits)


section \<open>Package bufio: the line scanner\<close>

text \<open>
  \<^verbatim>\<open>bufio.Scanner\<close> with its default buffer: lines without their end of line (\<^verbatim>\<open>\n\<close> or
  \<^verbatim>\<open>\r\n\<close>), no empty line after a final end of line, and an error that ends the scan at the first
  line of 64 KiB or more. The flag is \<^verbatim>\<open>scanner.Err() != nil\<close>.
\<close>

definition drop_cr :: "string \<Rightarrow> string" where
  "drop_cr l = (if l \<noteq> [] \<and> last l = CHR 0x0D then butlast l else l)"

definition content_lines :: "string \<Rightarrow> string list" where
  "content_lines s =
     (let ls = Split s (CHR 0x0A) in if last ls = [] then butlast ls else ls)"

definition scan_lines :: "string \<Rightarrow> string list \<times> bool" where
  "scan_lines s =
     (let ls = content_lines s; ok = takeWhile (\<lambda>l. int (length l) < 65536) ls
      in (map drop_cr ok, length ok < length ls))"

text \<open>The outcome of opening and reading a file: \<^verbatim>\<open>os.ErrNotExist\<close> is told apart.\<close>

datatype 'a file_read = FileMissing | FileError | FileData 'a

section \<open>Printed and parsed numbers\<close>

lemma length_show_base: "2 \<le> b \<Longrightarrow> n < b ^ Suc k \<Longrightarrow> length (show_base b n) \<le> Suc k"
proof (induction k arbitrary: n)
  case 0
  then show ?case by (simp add: show_base.simps [of b n])
next
  case (Suc k)
  have "n div b < b ^ Suc k"
    using Suc.prems by (simp add: less_mult_imp_div_less mult.commute)
  with Suc show ?case by (simp add: show_base.simps [of b n])
qed

lemma Atoi_range: "Atoi s = Some i \<Longrightarrow> int64_range i"
  by (auto simp: Atoi_def Let_def split: if_splits)

end
