(* ===== verification/Vpn_Validate.thy ===== *)
theory Vpn_Validate
  imports Go_Strings
begin

text \<open>
  The input validation of \<^verbatim>\<open>internal/vpn/validate.go\<close>: profile names, MSS clamp settings and
  domains. Each check returns the first error the code returns, in the code's order. The lemmas
  characterise the accepted inputs completely; \<open>name_ok\<close> and \<open>domain_ok\<close> are the
  specifications, stated on the characters without the code's sequence of checks.
\<close>


section \<open>Profile names\<close>

datatype name_error =
    NameRequired | NameOuterSpace | NameTooLong | NameDotDot | NameSeparator | NameAt
  | NameSpaceOrControl | NamePattern

definition name_char :: "char \<Rightarrow> bool" where
  "name_char c \<longleftrightarrow> is_alnum c \<or> c = CHR ''.'' \<or> c = CHR ''_'' \<or> c = CHR ''-''"

text \<open>The regular expression \<^verbatim>\<open>^[a-zA-Z0-9][a-zA-Z0-9._-]{0,63}$\<close>.\<close>

definition namePattern :: "string \<Rightarrow> bool" where
  "namePattern s = (case s of [] \<Rightarrow> False | c # cs \<Rightarrow> is_alnum c \<and> length cs \<le> 63 \<and> list_all name_char cs)"

definition is_control :: "char \<Rightarrow> bool" where
  "is_control c \<longleftrightarrow> code c < 32 \<or> code c = 127"

definition ValidateName :: "string \<Rightarrow> name_error option" where
  "ValidateName name =
     (let trimmed_name = TrimSpace name in
      if trimmed_name = [] then Some NameRequired
      else if trimmed_name \<noteq> name then Some NameOuterSpace
      else if length trimmed_name > 64 then Some NameTooLong
      else if Contains trimmed_name ''..'' then Some NameDotDot
      else if list_ex (\<lambda>c. c = CHR ''/'' \<or> c = CHR 0x5C) trimmed_name then Some NameSeparator
      else if list_ex (\<lambda>c. c = CHR ''@'') trimmed_name then Some NameAt
      else if list_ex (\<lambda>c. is_space c \<or> is_control c) trimmed_name then Some NameSpaceOrControl
      else if \<not> namePattern trimmed_name then Some NamePattern
      else None)"

definition name_ok :: "string \<Rightarrow> bool" where
  "name_ok s \<longleftrightarrow> s \<noteq> [] \<and> length s \<le> 64 \<and> is_alnum (hd s) \<and> list_all name_char s \<and> \<not> Contains s ''..''"

lemma is_alnum_name_char [simp]: "is_alnum c \<Longrightarrow> name_char c"
  by (simp add: name_char_def)

lemma name_char_not_space: "name_char c \<Longrightarrow> \<not> is_space c \<and> \<not> is_control c"
  by (auto simp: name_char_def char_class_defs is_control_def)

lemma name_char_not_separator:
  "name_char c \<Longrightarrow> c \<noteq> CHR ''/'' \<and> c \<noteq> CHR 0x5C \<and> c \<noteq> CHR ''@'' \<and> c \<noteq> CHR '' ''"
  by (auto simp: name_char_def char_class_defs)

lemma namePattern_iff:
  "namePattern s \<longleftrightarrow> s \<noteq> [] \<and> length s \<le> 64 \<and> is_alnum (hd s) \<and> list_all name_char s"
  by (cases s) (auto simp: namePattern_def)

lemma namePattern_trimmed: "namePattern s \<Longrightarrow> TrimSpace s = s"
  by (rule TrimSpace_id, rule no_space_trimmed)
    (auto simp: namePattern_iff list_all_iff dest: name_char_not_space)

lemma ValidateName_None: "ValidateName s = None \<longleftrightarrow> name_ok s"
proof
  assume "ValidateName s = None"
  then show "name_ok s"
    by (auto simp: ValidateName_def Let_def name_ok_def namePattern_iff split: if_splits)
next
  assume ok: "name_ok s"
  then have pat: "namePattern s" by (simp add: name_ok_def namePattern_iff)
  then have trim: "TrimSpace s = s" by (rule namePattern_trimmed)
  have chars: "list_all name_char s" using ok by (simp add: name_ok_def)
  then have "\<not> list_ex (\<lambda>c. c = CHR ''/'' \<or> c = CHR 0x5C) s" "\<not> list_ex (\<lambda>c. c = CHR ''@'') s"
    "\<not> list_ex (\<lambda>c. is_space c \<or> is_control c) s"
    by (auto simp: list_all_iff list_ex_iff dest: name_char_not_separator name_char_not_space)
  with ok pat trim show "ValidateName s = None"
    by (simp add: ValidateName_def name_ok_def)
qed


section \<open>MSS clamp values\<close>

datatype mss_error = MSSNotNumber string | MSSOutOfRange int

definition minMSSClamp :: int where "minMSSClamp = 400"
definition maxMSSClamp :: int where "maxMSSClamp = 1440"

definition ValidateMSSClamp :: "string \<Rightarrow> mss_error + string" where
  "ValidateMSSClamp value =
     (let t = TrimSpace value in
      if t = [] then Inr []
      else if EqualFold t ''pmtu'' then Inr ''pmtu''
      else (case Atoi t of
              None \<Rightarrow> Inl (MSSNotNumber value)
            | Some mss \<Rightarrow>
                if mss < minMSSClamp \<or> mss > maxMSSClamp then Inl (MSSOutOfRange mss)
                else Inr (Itoa mss)))"

lemma all_digits_trimmed: "all_digits s \<Longrightarrow> TrimSpace s = s"
  by (rule TrimSpace_id, rule no_space_trimmed)
    (auto simp: all_digits_def list_all_iff is_digit_def is_space_def)

lemma all_digits_not_pmtu:
  assumes "all_digits s"
  shows "\<not> EqualFold s ''pmtu''"
proof
  assume eq: "EqualFold s ''pmtu''"
  obtain c cs where s: "s = c # cs" using assms by (cases s) (auto simp: all_digits_def)
  have d: "is_digit c" using assms s by (simp add: all_digits_def)
  then have "lower_char c = c" by (simp add: lower_char_def is_upper_def is_digit_def)
  then have "c = lower_char (CHR ''p'')" using eq s by (simp add: EqualFold_def ToLower_def)
  then have "c = CHR ''p''" by (simp add: lower_char_id is_upper_def)
  with d show False by (simp add: is_digit_def)
qed

lemma ValidateMSSClamp_Itoa:
  assumes "minMSSClamp \<le> n" "n \<le> maxMSSClamp"
  shows "ValidateMSSClamp (Itoa n) = Inr (Itoa n)"
proof -
  have r: "int64_range n" "0 \<le> n"
    using assms by (auto simp: int64_range_def minMSSClamp_def maxMSSClamp_def)
  then have d: "all_digits (Itoa n)" by (simp add: Itoa_nonneg_digits)
  then have "Itoa n \<noteq> []" by (simp add: all_digits_def)
  with assms r d all_digits_trimmed [OF d] all_digits_not_pmtu [OF d] Atoi_Itoa [OF r(1)]
  show ?thesis by (simp add: ValidateMSSClamp_def)
qed

lemma ValidateMSSClamp_cases:
  assumes "ValidateMSSClamp v = Inr r"
  shows "r = [] \<or> r = ''pmtu'' \<or> (\<exists>n. minMSSClamp \<le> n \<and> n \<le> maxMSSClamp \<and> r = Itoa n)"
  using assms by (auto simp: ValidateMSSClamp_def Let_def split: if_splits option.splits) (metis not_le)


section \<open>Domains\<close>

datatype domain_error =
    DomainRequired | DomainWhitespace | DomainWildcardForm | DomainTooLong | DomainOuterDot
  | DomainNoDot | DomainLabelLength | DomainLabelChars | DomainLabelHyphen

definition label_char :: "char \<Rightarrow> bool" where
  "label_char c \<longleftrightarrow> is_alnum c \<or> c = CHR ''-''"

definition validate_label :: "string \<Rightarrow> domain_error option" where
  "validate_label l =
     (if length l = 0 \<or> length l > 63 then Some DomainLabelLength
      else if \<not> list_all label_char l then Some DomainLabelChars
      else if HasPrefix l ''-'' \<or> HasSuffix l ''-'' then Some DomainLabelHyphen
      else None)"

fun validate_labels :: "string list \<Rightarrow> domain_error option" where
  "validate_labels [] = None"
| "validate_labels (l # ls) =
     (case validate_label l of Some e \<Rightarrow> Some e | None \<Rightarrow> validate_labels ls)"

definition ValidateDomain :: "string \<Rightarrow> domain_error option" where
  "ValidateDomain domain =
     (let t = TrimSpace (ToLower domain); base = TrimPrefix t ''*.'' in
      if t = [] then Some DomainRequired
      else if list_ex (\<lambda>c. c \<in> {CHR '' '', CHR 0x09, CHR 0x0D, CHR 0x0A}) t then Some DomainWhitespace
      else if CountChar t (CHR ''*'') > 0 \<and> (\<not> HasPrefix t ''*.'' \<or> CountChar t (CHR ''*'') \<noteq> 1)
        then Some DomainWildcardForm
      else if base = [] then Some DomainRequired
      else if length base > 253 then Some DomainTooLong
      else if HasPrefix base ''.'' \<or> HasSuffix base ''.'' then Some DomainOuterDot
      else if length (Split base (CHR ''.'')) < 2 then Some DomainNoDot
      else validate_labels (Split base (CHR ''.'')))"

definition label_ok :: "string \<Rightarrow> bool" where
  "label_ok l \<longleftrightarrow> l \<noteq> [] \<and> length l \<le> 63 \<and> list_all label_char l \<and> hd l \<noteq> CHR ''-'' \<and> last l \<noteq> CHR ''-''"

text \<open>The base of a domain: dot-separated labels, at least two, at most 253 bytes in all.\<close>

definition domain_base_ok :: "string \<Rightarrow> bool" where
  "domain_base_ok b \<longleftrightarrow> length b \<le> 253 \<and>
     (let ls = Split b (CHR ''.'') in 2 \<le> length ls \<and> list_all label_ok ls)"

lemma HasPrefix_single: "HasPrefix s [c] \<longleftrightarrow> s \<noteq> [] \<and> hd s = c"
  by (cases s) (auto simp: HasPrefix_def)

lemma HasSuffix_single: "HasSuffix s [c] \<longleftrightarrow> s \<noteq> [] \<and> last s = c"
  by (cases s rule: rev_cases) (auto simp: HasSuffix_def)

lemma validate_label_None: "validate_label l = None \<longleftrightarrow> label_ok l"
  by (auto simp: validate_label_def label_ok_def HasPrefix_single HasSuffix_single)

lemma validate_labels_None: "validate_labels ls = None \<longleftrightarrow> list_all label_ok ls"
  by (induction ls) (auto simp flip: validate_label_None split: option.splits)

lemma label_char_not: "label_char c \<Longrightarrow> c \<noteq> CHR ''.'' \<and> c \<noteq> CHR ''*'' \<and> \<not> is_space c"
  by (auto simp: label_char_def char_class_defs)

lemma set_Join: "c \<in> set (Join ws sep) \<Longrightarrow> c \<in> set sep \<or> (\<exists>w \<in> set ws. c \<in> set w)"
  by (induction ws sep rule: Join.induct) auto

lemma domain_base_chars:
  assumes "domain_base_ok b" "c \<in> set b"
  shows "c = CHR ''.'' \<or> label_char c"
proof -
  have "c \<in> set (Join (Split b (CHR ''.'')) ''.'')" using assms by (simp add: Join_Split)
  then show ?thesis using assms
    by (auto dest!: set_Join simp: domain_base_ok_def Let_def list_all_iff label_ok_def)
qed

lemma hd_split_by: "hd (split_by p s) = takeWhile (\<lambda>c. \<not> p c) s"
  by (induction s) (auto split: list.splits)

lemma last_split_by:
  "s \<noteq> [] \<Longrightarrow> p (last s) \<Longrightarrow> last (split_by p s) = [] \<and> tl (split_by p s) \<noteq> []"
proof (induction s)
  case (Cons c s)
  show ?case
  proof (cases "s = []")
    case True
    with Cons show ?thesis by simp
  next
    case False
    with Cons have "last (split_by p s) = [] \<and> tl (split_by p s) \<noteq> []" by simp
    then show ?thesis by (cases "split_by p s") auto
  qed
qed simp

lemma label_ok_Nil [simp]: "\<not> label_ok []"
  by (simp add: label_ok_def)

lemma domain_base_not_outer_dot:
  assumes "domain_base_ok b"
  shows "b \<noteq> []" "hd b \<noteq> CHR ''.''" "last b \<noteq> CHR ''.''"
proof -
  let ?ls = "Split b (CHR ''.'')"
  have ok: "list_all label_ok ?ls" using assms by (simp add: domain_base_ok_def Let_def)
  have ne: "?ls \<noteq> []" by (simp add: Split_def)
  then have "label_ok (hd ?ls)" "label_ok (last ?ls)"
    using ok by (auto simp: list_all_iff)
  moreover have "hd ?ls = takeWhile (\<lambda>c. c \<noteq> CHR ''.'') b" by (simp add: Split_def hd_split_by)
  ultimately show b: "b \<noteq> []" and "hd b \<noteq> CHR ''.''"
    by (auto simp: takeWhile_eq_Nil_iff label_ok_def)
  show "last b \<noteq> CHR ''.''"
    using last_split_by [of b "\<lambda>c. c = CHR ''.''"] b \<open>label_ok (last ?ls)\<close>
    by (auto simp: Split_def)
qed

text \<open>
  What \<open>ValidateDomain\<close> accepts, completely: after trimming and lower-casing, an optional
  leading \<^verbatim>\<open>*.\<close> and a well-formed base.
\<close>

lemma ValidateDomain_None:
  "ValidateDomain d = None \<longleftrightarrow> domain_base_ok (TrimPrefix (TrimSpace (ToLower d)) ''*.'')"
proof
  assume "ValidateDomain d = None"
  then show "domain_base_ok (TrimPrefix (TrimSpace (ToLower d)) ''*.'')"
    by (auto simp: ValidateDomain_def Let_def domain_base_ok_def validate_labels_None
      split: if_splits)
next
  let ?t = "TrimSpace (ToLower d)"
  let ?b = "TrimPrefix ?t ''*.''"
  assume ok: "domain_base_ok ?b"
  have chars: "c = CHR ''.'' \<or> label_char c" if "c \<in> set ?b" for c
    using domain_base_chars [OF ok that] .
  have nostar: "CHR ''*'' \<notin> set ?b" using chars label_char_not by auto
  have nospace: "\<not> is_space c" if "c \<in> set ?b" for c
    using chars [OF that] label_char_not by (auto simp: is_space_def)
  have count0: "CountChar ?b (CHR ''*'') = 0"
    using nostar by (auto simp: CountChar_def filter_empty_conv)
  have shape: "?t = ?b \<or> ?t = ''*.'' @ ?b"
    by (metis HasPrefix_TrimPrefix TrimPrefix_def)
  have star: "\<not> (CountChar ?t (CHR ''*'') > 0 \<and> (\<not> HasPrefix ?t ''*.'' \<or> CountChar ?t (CHR ''*'') \<noteq> 1))"
  proof (cases "HasPrefix ?t ''*.''")
    case True
    then have "?t = ''*.'' @ ?b" by (rule HasPrefix_TrimPrefix [symmetric])
    then have "CountChar ?t (CHR ''*'') = CountChar (''*.'' @ ?b) (CHR ''*'')"
      by (rule arg_cong)
    also have "\<dots> = Suc (CountChar ?b (CHR ''*''))" by (simp add: CountChar_def)
    finally have "CountChar ?t (CHR ''*'') = Suc (CountChar ?b (CHR ''*''))" .
    with True count0 show ?thesis by simp
  next
    case False
    then have "?t = ?b" by (simp add: TrimPrefix_no)
    with count0 show ?thesis by simp
  qed
  have space: "\<not> list_ex (\<lambda>c. c \<in> {CHR '' '', CHR 0x09, CHR 0x0D, CHR 0x0A}) ?t"
  proof
    assume "list_ex (\<lambda>c. c \<in> {CHR '' '', CHR 0x09, CHR 0x0D, CHR 0x0A}) ?t"
    then obtain c where c: "c \<in> set ?t" "is_space c"
      by (auto simp: list_ex_iff is_space_def)
    with shape have "c \<in> set ?b \<or> c = CHR ''*'' \<or> c = CHR ''.''" by (metis Un_iff set_append
      empty_iff list.set(1) list.set(2) insert_iff)
    with nospace c(2) show False by (auto simp: is_space_def)
  qed
  note ob = domain_base_not_outer_dot [OF ok]
  have "?t \<noteq> []" using shape ob(1) by auto
  with ok ob star space show "ValidateDomain d = None"
    by (simp add: ValidateDomain_def Let_def domain_base_ok_def validate_labels_None
      HasPrefix_single HasSuffix_single)
qed

section \<open>Properties\<close>

text \<open>\<open>ValidateName\<close> returns no error exactly for the names of 1 to 64 characters that start
  with a letter or digit, use only letters, digits, dot, underscore and hyphen, and do not contain
  two dots in a row. So an accepted name is one path component and one systemd unit name.\<close>

theorem ValidateName_accepts:
  "ValidateName s = None \<longleftrightarrow>
     s \<noteq> [] \<and> length s \<le> 64 \<and> is_alnum (hd s) \<and> list_all name_char s \<and> \<not> Contains s ''..''"
  by (simp add: ValidateName_None name_ok_def)

text \<open>What \<open>ValidateMSSClamp\<close> returns is empty, \<^verbatim>\<open>pmtu\<close>, or the decimal form of a number
  from 400 to 1440, and validating the result again returns it unchanged.\<close>

theorem ValidateMSSClamp_canonical:
  assumes "ValidateMSSClamp v = Inr r"
  shows "(r = [] \<or> r = ''pmtu'' \<or> (\<exists>n. 400 \<le> n \<and> n \<le> 1440 \<and> r = Itoa n)) \<and> ValidateMSSClamp r = Inr r"
proof -
  have "ValidateMSSClamp [] = Inr []" "ValidateMSSClamp ''pmtu'' = Inr ''pmtu''"
    by code_simp+
  then show ?thesis
    using ValidateMSSClamp_cases [OF assms] ValidateMSSClamp_Itoa
    by (auto simp: minMSSClamp_def maxMSSClamp_def)
qed

theorem ValidateMSSClamp_canonical_witness:
  "ValidateMSSClamp '' 1400 '' = Inr ''1400'' \<and> ValidateMSSClamp ''1400'' = Inr ''1400''"
proof -
  have h: "ValidateMSSClamp '' 1400 '' = Inr ''1400''" by code_simp
  show ?thesis using h ValidateMSSClamp_canonical [OF h] by simp
qed

text \<open>\<open>ValidateDomain\<close> returns no error exactly when, after trimming, lower-casing and removing
  one leading \<^verbatim>\<open>*.\<close>, the domain has at most 253 bytes and at least two labels, each of 1 to 63
  letters, digits and hyphens, with no hyphen at either end.\<close>

theorem ValidateDomain_accepts:
  "ValidateDomain d = None \<longleftrightarrow>
     (let b = TrimPrefix (TrimSpace (ToLower d)) ''*.''; ls = Split b (CHR ''.'')
      in length b \<le> 253 \<and> 2 \<le> length ls \<and> list_all label_ok ls)"
  by (simp add: ValidateDomain_None domain_base_ok_def Let_def)

end
