(* ===== verification/Vpn_Conf.thy ===== *)
theory Vpn_Conf
  imports Go_Strings "HOL-Library.AList"
begin

text \<open>
  The key-value file \<^verbatim>\<open>vpn.conf\<close> of a profile: \<open>parseVPNConf\<close> and \<open>renderVPNConf\<close> of
  \<^verbatim>\<open>internal/vpn/manager_storage.go\<close>. The Go map of type \<^verbatim>\<open>VPNMeta\<close> is an association list
  whose lookup is \<open>map_of\<close> and whose writes are \<open>AList.update\<close>. Rendering prints a fixed list
  of keys first and the others in byte order; every value but the table and the mark is printed
  with \<^verbatim>\<open>%q\<close>. The round-trip lemma says for which values reading back gives the same map:
  \<^verbatim>\<open>parseVPNConf\<close> strips quotes but does not undo the escapes of \<^verbatim>\<open>%q\<close>.
\<close>

type_synonym vpn_meta = "(string \<times> string) list"

definition meta_get :: "vpn_meta \<Rightarrow> string \<Rightarrow> string" where
  "meta_get m k = (case map_of m k of None \<Rightarrow> [] | Some v \<Rightarrow> v)"


section \<open>Reading\<close>

definition is_quote :: "char \<Rightarrow> bool" where
  "is_quote c \<longleftrightarrow> c = CHR 0x22 \<or> c = CHR 0x27"

definition trim_quotes :: "string \<Rightarrow> string" where
  "trim_quotes s = rev (dropWhile is_quote (rev (dropWhile is_quote s)))"

definition parse_conf_line :: "string \<Rightarrow> (string \<times> string) option" where
  "parse_conf_line text =
     (let line = TrimSpace text in
      if line = [] \<or> HasPrefix line ''#'' then None
      else if CHR ''='' \<notin> set line \<or> HasPrefix line ''='' then None
      else Some (TrimSpace (before_char (CHR ''='') line),
                 trim_quotes (TrimSpace (after_char (CHR ''='') line))))"

fun parse_conf_lines :: "vpn_meta \<Rightarrow> string list \<Rightarrow> vpn_meta" where
  "parse_conf_lines m [] = m"
| "parse_conf_lines m (l # ls) =
     (case parse_conf_line l of
        None \<Rightarrow> parse_conf_lines m ls
      | Some (k, v) \<Rightarrow> parse_conf_lines (AList.update k v m) ls)"

datatype conf_error = ConfNotExist | ConfReadError | ConfScanError

definition parseVPNConf :: "string file_read \<Rightarrow> conf_error + vpn_meta" where
  "parseVPNConf f =
     (case f of
        FileMissing \<Rightarrow> Inl ConfNotExist
      | FileError \<Rightarrow> Inl ConfReadError
      | FileData content \<Rightarrow>
          (case scan_lines content of (ls, err) \<Rightarrow>
             if err then Inl ConfScanError else Inr (parse_conf_lines [] ls)))"


section \<open>Writing\<close>

definition hex2 :: "nat \<Rightarrow> string" where
  "hex2 n = pad_zero 2 (show_hex n)"

definition quote_char :: "char \<Rightarrow> string" where
  "quote_char c =
     (if c = CHR 0x22 then [CHR 0x5C, CHR 0x22]
      else if c = CHR 0x5C then [CHR 0x5C, CHR 0x5C]
      else if code c = 7 then CHR 0x5C # ''a''
      else if code c = 8 then CHR 0x5C # ''b''
      else if code c = 12 then CHR 0x5C # ''f''
      else if code c = 10 then CHR 0x5C # ''n''
      else if code c = 13 then CHR 0x5C # ''r''
      else if code c = 9 then CHR 0x5C # ''t''
      else if code c = 11 then CHR 0x5C # ''v''
      else if code c < 32 \<or> code c = 127 then CHR 0x5C # ''x'' @ hex2 (code c)
      else [c])"

definition quote :: "string \<Rightarrow> string" where
  "quote s = CHR 0x22 # concat (map quote_char s) @ [CHR 0x22]"

definition conf_order :: "string list" where
  "conf_order =
     [''VPN_PROVIDER'', ''DEV'', ''ROUTE_TABLE'', ''MARK'', ''FORCED_IPSETS'', ''VPN_ENDPOINT_IPV4'',
      ''VPN_ENDPOINT_IPV6'', ''VPN_BOUND_IFACE'', ''MSS_CLAMPING_IPV4'', ''MSS_CLAMPING_IPV6'',
      ''CONFIG_FILE'']"

definition raw_key :: "string \<Rightarrow> bool" where
  "raw_key k \<longleftrightarrow> k = ''ROUTE_TABLE'' \<or> k = ''MARK''"

definition render_line :: "string \<Rightarrow> string \<Rightarrow> string" where
  "render_line k v = (if raw_key k then k @ ''='' @ TrimSpace v else k @ ''='' @ quote v)"

definition render_keys :: "vpn_meta \<Rightarrow> string list" where
  "render_keys m =
     filter (\<lambda>k. k \<in> fst ` set m) conf_order @
     sort_strings (filter (\<lambda>k. k \<notin> set conf_order) (map fst m))"

definition render_lines :: "vpn_meta \<Rightarrow> string list" where
  "render_lines m = map (\<lambda>k. render_line k (meta_get m k)) (render_keys m)"

definition renderVPNConf :: "vpn_meta \<Rightarrow> string" where
  "renderVPNConf m = Join (render_lines m) [CHR 0x0A] @ [CHR 0x0A]"


section \<open>What is read back\<close>

text \<open>
  A value that survives: printable characters only, no quote, no backslash; the two keys that are
  printed bare also need a value without white space around it.
\<close>

definition plain_char :: "char \<Rightarrow> bool" where
  "plain_char c \<longleftrightarrow> 32 \<le> code c \<and> code c \<noteq> 127 \<and> \<not> is_quote c \<and> c \<noteq> CHR 0x5C"

definition key_ok :: "string \<Rightarrow> bool" where
  "key_ok k \<longleftrightarrow> k \<noteq> [] \<and> list_all (\<lambda>c. plain_char c \<and> \<not> is_space c \<and> c \<noteq> CHR ''='') k \<and> hd k \<noteq> CHR ''#''"

definition entry_ok :: "string \<times> string \<Rightarrow> bool" where
  "entry_ok e \<longleftrightarrow> (case e of (k, v) \<Rightarrow> key_ok k \<and> list_all plain_char v \<and>
     (raw_key k \<longrightarrow> trimmed v) \<and> int (length k) + int (length v) < 65533)"

lemma quote_plain: "list_all plain_char v \<Longrightarrow> quote v = CHR 0x22 # v @ [CHR 0x22]"
proof -
  assume "list_all plain_char v"
  then have "concat (map quote_char v) = v"
    by (induction v) (auto simp: quote_char_def plain_char_def is_quote_def)
  then show ?thesis by (simp add: quote_def)
qed

lemma trim_quotes_plain:
  assumes "list_all plain_char v"
  shows "trim_quotes v = v" and "trim_quotes (CHR 0x22 # v @ [CHR 0x22]) = v"
proof -
  have nq: "\<not> is_quote c" if "c \<in> set v" for c
    using assms that by (auto simp: list_all_iff plain_char_def)
  have 1: "dropWhile is_quote v = v" "dropWhile is_quote (rev v) = rev v"
    using nq by (auto simp: dropWhile_eq_self_iff hd_rev)
  then show "trim_quotes v = v" by (simp add: trim_quotes_def)
  have 2: "is_quote (CHR 0x22)" by (simp add: is_quote_def)
  show "trim_quotes (CHR 0x22 # v @ [CHR 0x22]) = v"
  proof (cases v)
    case Nil
    then show ?thesis using 2 by (simp add: trim_quotes_def)
  next
    case (Cons c cs)
    with nq have "dropWhile is_quote (v @ [CHR 0x22]) = v @ [CHR 0x22]" by simp
    with 1 2 show ?thesis by (simp add: trim_quotes_def)
  qed
qed

lemma key_ok_trimmed: "key_ok k \<Longrightarrow> TrimSpace k = k"
  by (rule TrimSpace_id, rule no_space_trimmed) (auto simp: key_ok_def list_all_iff)

lemma trimmed_key_append:
  assumes "key_ok k" "t \<noteq> []" "\<not> is_space (last t)"
  shows "TrimSpace (k @ t) = k @ t"
  using assms by (intro TrimSpace_id) (auto simp: trimmed_def key_ok_def list_all_iff)

lemma parse_key_value:
  assumes k: "key_ok k" and t: "CHR ''='' # t = s" "\<not> is_space (last s)"
  shows "parse_conf_line (k @ s) = Some (k, trim_quotes (TrimSpace t))"
proof -
  have trim: "TrimSpace (k @ s) = k @ s" using k t by (intro trimmed_key_append) auto
  have noeq: "\<forall>c \<in> set k. c \<noteq> CHR ''=''" using k by (auto simp: key_ok_def list_all_iff)
  have split: "before_char (CHR ''='') (k @ s) = k" "after_char (CHR ''='') (k @ s) = t"
    using noeq t(1) [symmetric]
    by (auto simp: before_char_def after_char_def takeWhile_append2 dropWhile_append3)
  have start: "\<not> HasPrefix (k @ s) ''#''" "\<not> HasPrefix (k @ s) ''=''" "k @ s \<noteq> []"
    using k noeq by (cases k; auto simp: key_ok_def HasPrefix_def)+
  have eq: "CHR ''='' \<in> set (k @ s)" using t(1) by auto
  show ?thesis
    using start eq split trim key_ok_trimmed [OF k] by (simp add: parse_conf_line_def Let_def)
qed

lemma parse_render_line:
  assumes "entry_ok (k, v)"
  shows "parse_conf_line (render_line k v) = Some (k, v)"
proof (cases "raw_key k")
  case False
  have q: "quote v = CHR 0x22 # v @ [CHR 0x22]" using assms by (simp add: entry_ok_def quote_plain)
  have ns: "\<not> is_space (CHR 0x22)" by (simp add: is_space_def)
  have "TrimSpace (quote v) = quote v"
    unfolding q by (rule TrimSpace_id) (simp add: trimmed_def ns)
  moreover have "\<not> is_space (last (CHR ''='' # quote v))" using ns by (simp add: q)
  ultimately show ?thesis
    using False assms parse_key_value [of k "quote v" "CHR ''='' # quote v"]
    by (simp add: render_line_def entry_ok_def q trim_quotes_plain)
next
  case True
  then have v: "trimmed v" "TrimSpace v = v" "list_all plain_char v"
    using assms by (auto simp: entry_ok_def TrimSpace_id)
  have "\<not> is_space (last (CHR ''='' # v))" using v(1) by (auto simp: trimmed_def is_space_def)
  then show ?thesis
    using True v assms parse_key_value [of k v "CHR ''='' # v"]
    by (simp add: render_line_def entry_ok_def trim_quotes_plain)
qed

lemma parse_conf_lines_map:
  assumes "\<And>k. k \<in> set ks \<Longrightarrow> parse_conf_line (f k) = Some (k, g k)"
  shows "map_of (parse_conf_lines m (map f ks)) x = (if x \<in> set ks then Some (g x) else map_of m x)"
  using assms by (induction ks arbitrary: m) (auto simp: update_conv')

lemma set_render_keys: "set (render_keys m) = fst ` set m"
  by (auto simp: render_keys_def)

lemma Split_lines:
  "list_all (\<lambda>l. CHR 0x0A \<notin> set l) ls \<Longrightarrow> ls \<noteq> [] \<Longrightarrow>
   Split (Join ls [CHR 0x0A] @ [CHR 0x0A]) (CHR 0x0A) = ls @ [[]]"
proof (induction ls "[CHR 0x0A]" rule: Join.induct)
  case (2 w)
  then have "list_all (\<lambda>c. c \<noteq> CHR 0x0A) w" by (auto simp: list_all_iff)
  then show ?case
    using split_by_sep [of "\<lambda>c. c = CHR 0x0A" w "CHR 0x0A" "[]"] by (simp add: Split_def)
next
  case (3 w v ws)
  then have "Split (w @ CHR 0x0A # (Join (v # ws) [CHR 0x0A] @ [CHR 0x0A])) (CHR 0x0A) = w # (v # ws) @ [[]]"
    by (subst Split_def, subst split_by_sep) (auto simp: list_all_iff Split_def)
  then show ?case by simp
qed simp

lemma render_line_chars:
  assumes "entry_ok (k, v)"
  shows "list_all (\<lambda>c. 32 \<le> code c) (render_line k v)" and "length (render_line k v) < 65536"
    and "render_line k v \<noteq> []"
proof -
  have q: "quote v = CHR 0x22 # v @ [CHR 0x22]" using assms by (simp add: entry_ok_def quote_plain)
  show "list_all (\<lambda>c. 32 \<le> code c) (render_line k v)"
    using assms set_TrimSpace [of v]
    by (auto simp: render_line_def q entry_ok_def key_ok_def plain_char_def list_all_iff)
  show "length (render_line k v) < 65536"
    using assms length_TrimSpace [of v] by (auto simp: render_line_def q entry_ok_def)
  show "render_line k v \<noteq> []" by (simp add: render_line_def)
qed

lemma scan_rendered:
  assumes ok: "list_all entry_ok m" and ne: "m \<noteq> []" and d: "distinct (map fst m)"
  shows "scan_lines (renderVPNConf m) = (render_lines m, False)"
proof -
  have e: "entry_ok (k, meta_get m k)" if "k \<in> set (render_keys m)" for k
    using that ok d by (auto simp: set_render_keys meta_get_def list_all_iff)
  have ls: "list_all (\<lambda>l. CHR 0x0A \<notin> set l \<and> l \<noteq> [] \<and> last l \<noteq> CHR 0x0D \<and> length l < 65536) (render_lines m)"
  proof (clarsimp simp: list_all_iff render_lines_def)
    fix k assume "k \<in> set (render_keys m)"
    note r = render_line_chars [OF e [OF this]]
    have "\<forall>c \<in> set (render_line k (meta_get m k)). c \<noteq> CHR 0x0A \<and> c \<noteq> CHR 0x0D"
      using r(1) by (auto simp: list_all_iff)
    with r show "CHR 0x0A \<notin> set (render_line k (meta_get m k)) \<and> render_line k (meta_get m k) \<noteq> [] \<and>
        last (render_line k (meta_get m k)) \<noteq> CHR 0x0D \<and> length (render_line k (meta_get m k)) < 65536"
      using last_in_set by blast
  qed
  have "render_lines m \<noteq> []"
    using ne set_render_keys [of m] by (auto simp: render_lines_def)
  then have "content_lines (renderVPNConf m) = render_lines m"
    using ls Split_lines [of "render_lines m"]
    by (simp add: content_lines_def renderVPNConf_def list_all_iff)
  moreover have "takeWhile (\<lambda>l. int (length l) < 65536) (render_lines m) = render_lines m"
    using ls by (simp add: takeWhile_eq_all_conv list_all_iff)
  moreover have "map drop_cr (render_lines m) = render_lines m"
    using ls by (intro map_idI) (auto simp: drop_cr_def list_all_iff)
  ultimately show ?thesis by (simp add: scan_lines_def Let_def del: takeWhile_eq_all_conv)
qed

lemma parse_render:
  assumes "list_all entry_ok m" "m \<noteq> []" "distinct (map fst m)"
  shows "\<exists>m'. parseVPNConf (FileData (renderVPNConf m)) = Inr m' \<and> map_of m' = map_of m"
proof -
  have e: "entry_ok (k, meta_get m k)" if "k \<in> set (render_keys m)" for k
    using that assms by (auto simp: set_render_keys meta_get_def list_all_iff)
  have "map_of (parse_conf_lines [] (render_lines m)) = map_of m"
  proof
    fix x
    have "map_of (parse_conf_lines [] (render_lines m)) x =
        (if x \<in> fst ` set m then Some (meta_get m x) else None)"
      unfolding render_lines_def
      by (subst parse_conf_lines_map) (auto simp: parse_render_line e set_render_keys)
    also have "\<dots> = map_of m x"
      using map_of_eq_None_iff [of m x] by (cases "map_of m x") (auto simp: meta_get_def)
    finally show "map_of (parse_conf_lines [] (render_lines m)) x = map_of m x" .
  qed
  then show ?thesis using scan_rendered [OF assms] by (simp add: parseVPNConf_def)
qed

section \<open>Properties\<close>

text \<open>Reading a rendered \<^verbatim>\<open>vpn.conf\<close> back gives the same map of keys to values, for every
  non-empty map whose keys are plain words and whose values are printable and free of quotes and
  backslashes (and, for the table and the mark, of white space around them).\<close>

theorem vpn_conf_roundtrip:
  assumes "list_all entry_ok m" and "m \<noteq> []" and "distinct (map fst m)"
  shows "\<exists>m'. parseVPNConf (FileData (renderVPNConf m)) = Inr m' \<and> map_of m' = map_of m"
  using assms by (rule parse_render)

theorem vpn_conf_roundtrip_witness:
  "list_all entry_ok [(''MARK'', ''0xc8''), (''X'', ''a b'')] \<and>
   (\<exists>m'. parseVPNConf (FileData (renderVPNConf [(''MARK'', ''0xc8''), (''X'', ''a b'')])) = Inr m' \<and>
     map_of m' = map_of [(''MARK'', ''0xc8''), (''X'', ''a b'')])"
proof -
  have h: "list_all entry_ok [(''MARK'', ''0xc8''), (''X'', ''a b'')]" by code_simp
  show ?thesis using h vpn_conf_roundtrip [OF h] by simp
qed

end
