(* ===== verification/Vpn_Allocator.thy ===== *)
theory Vpn_Allocator
  imports Vpn_Conf
begin

text \<open>
  The allocator of routing tables and firewall marks (\<^verbatim>\<open>internal/vpn/allocator.go\<close>). Its state is
  the four Go sets of used and sticky values. What the machine knows (the file of named tables, the
  output of \<^verbatim>\<open>ip rule\<close> and \<^verbatim>\<open>ip route\<close>, the \<^verbatim>\<open>vpn.conf\<close> files) is the record
  \<open>live\<close>, an argument of every operation, because each operation reads it again. A map
  \<^verbatim>\<open>map[int]struct{}\<close> is a set; marks are 32-bit words; the two searches are the loops of
  the code. The mutex makes every operation one step.

  The invariant: sticky values are used, and no used value is below 200. The second part runs
  arbitrary sequences of operations against an arbitrarily changing machine and shows that no table
  and no mark is ever held twice.
\<close>

definition minRouteTableID :: int where "minRouteTableID = 200"
definition maxRouteTableID :: int where "maxRouteTableID = 65535"
definition minFWMark :: "32 word" where "minFWMark = 200"
definition maxFWMark :: "32 word" where "maxFWMark = 0x7fffffff"

datatype alloc_error =
    ErrAllocationExhausted
  | TableBelowMinimum int | TableInUse int | MarkBelowMinimum "32 word" | MarkInUse "32 word"
  | SeedRouteTables | SeedReadDir | SeedConf conf_error | VpnsDirRequired

record allocator =
  vpnsDir :: string
  configRoots :: "string list"
  usedTables :: "int set"
  usedMarks :: "32 word set"
  stickyTables :: "int set"
  stickyMarks :: "32 word set"

record conf_entry =
  entry_is_dir :: bool
  entry_conf :: "string file_read"

record live =
  rt_tables :: "string file_read"
  ip_output :: "string list \<Rightarrow> string option"
  conf_root :: "string \<Rightarrow> conf_entry list file_read"


section \<open>Tokens\<close>

definition parseMarkToken :: "string \<Rightarrow> (32 word) option" where
  "parseMarkToken raw =
     (let t = TrimSpace raw in
      if t = [] then None
      else (let u = (if CHR ''/'' \<in> set t then TrimSpace (before_char (CHR ''/'') t) else t)
            in map_option word_of_nat (ParseUint32 u)))"

definition parseTableToken :: "string \<Rightarrow> int option" where
  "parseTableToken raw =
     (let t = TrimSpace raw; ds = takeWhile is_digit t in
      if t = [] then None else if ds = [] then None else Atoi ds)"


section \<open>Recording values in use\<close>

definition markTableUsed :: "int \<Rightarrow> bool \<Rightarrow> allocator \<Rightarrow> allocator" where
  "markTableUsed table sticky a =
     (if table \<le> 0 then a
      else if sticky
      then a\<lparr>usedTables := insert table (usedTables a), stickyTables := insert table (stickyTables a)\<rparr>
      else a\<lparr>usedTables := insert table (usedTables a)\<rparr>)"

definition markMarkUsed :: "32 word \<Rightarrow> bool \<Rightarrow> allocator \<Rightarrow> allocator" where
  "markMarkUsed mark sticky a =
     (if mark = 0 then a
      else if sticky
      then a\<lparr>usedMarks := insert mark (usedMarks a), stickyMarks := insert mark (stickyMarks a)\<rparr>
      else a\<lparr>usedMarks := insert mark (usedMarks a)\<rparr>)"

definition seed_rt_line :: "allocator \<Rightarrow> string \<Rightarrow> allocator" where
  "seed_rt_line a text =
     (let line = TrimSpace text; fields = Fields line in
      if line = [] \<or> HasPrefix line ''#'' then a
      else if length fields < 2 then a
      else (case Atoi (fields ! 0) of
              None \<Rightarrow> a
            | Some tableID \<Rightarrow> if tableID < minRouteTableID then a else markTableUsed tableID True a))"

definition seedFromRouteTables :: "live \<Rightarrow> allocator \<Rightarrow> alloc_error option \<times> allocator" where
  "seedFromRouteTables env a =
     (case rt_tables env of
        FileMissing \<Rightarrow> (None, a)
      | FileError \<Rightarrow> (Some SeedRouteTables, a)
      | FileData content \<Rightarrow>
          (case scan_lines content of (ls, err) \<Rightarrow>
             ((if err then Some SeedRouteTables else None), foldl seed_rt_line a ls)))"

definition rule_pair :: "allocator \<Rightarrow> string \<times> string \<Rightarrow> allocator" where
  "rule_pair a p =
     (if fst p = ''fwmark'' then
        (case parseMarkToken (snd p) of
           None \<Rightarrow> a | Some mark \<Rightarrow> if mark \<ge> minFWMark then markMarkUsed mark True a else a)
      else if fst p = ''lookup'' \<or> fst p = ''table'' then
        (case parseTableToken (snd p) of
           None \<Rightarrow> a | Some tableID \<Rightarrow> if tableID < minRouteTableID then a else markTableUsed tableID True a)
      else a)"

definition adjacent :: "'a list \<Rightarrow> ('a \<times> 'a) list" where
  "adjacent xs = zip xs (tl xs)"

definition parseIPRulesOutput :: "string \<Rightarrow> allocator \<Rightarrow> allocator" where
  "parseIPRulesOutput out a =
     foldl (\<lambda>a line. foldl rule_pair a (adjacent (Fields line))) a (fst (scan_lines out))"

definition seedFromIPRules :: "live \<Rightarrow> allocator \<Rightarrow> allocator" where
  "seedFromIPRules env a =
     foldl (\<lambda>a args. case ip_output env args of None \<Rightarrow> a | Some out \<Rightarrow> parseIPRulesOutput out a) a
       [[''rule'', ''show''], [''-6'', ''rule'', ''show'']]"

definition route_pair :: "allocator \<Rightarrow> string \<times> string \<Rightarrow> allocator" where
  "route_pair a p =
     (if fst p \<noteq> ''table'' then a
      else (case parseTableToken (snd p) of
              None \<Rightarrow> a
            | Some tableID \<Rightarrow> if tableID < minRouteTableID then a else markTableUsed tableID True a))"

definition parseIPRoutesOutput :: "string \<Rightarrow> allocator \<Rightarrow> allocator" where
  "parseIPRoutesOutput out a =
     foldl (\<lambda>a line. foldl route_pair a (adjacent (Fields line))) a (fst (scan_lines out))"

definition seedFromIPRoutes :: "live \<Rightarrow> allocator \<Rightarrow> allocator" where
  "seedFromIPRoutes env a =
     foldl (\<lambda>a args. case ip_output env args of None \<Rightarrow> a | Some out \<Rightarrow> parseIPRoutesOutput out a) a
       [[''route'', ''show'', ''table'', ''all''], [''-6'', ''route'', ''show'', ''table'', ''all'']]"

definition seed_conf_values :: "bool \<Rightarrow> vpn_meta \<Rightarrow> allocator \<Rightarrow> allocator" where
  "seed_conf_values sticky vals a =
     (let a1 = (case Atoi (TrimSpace (meta_get vals ''ROUTE_TABLE'')) of
                  None \<Rightarrow> a
                | Some table \<Rightarrow> if table \<ge> minRouteTableID then markTableUsed table sticky a else a)
      in (case parseMarkToken (meta_get vals ''MARK'') of
            None \<Rightarrow> a1
          | Some mark \<Rightarrow> if mark \<ge> minFWMark then markMarkUsed mark sticky a1 else a1))"

fun seed_entries :: "bool \<Rightarrow> conf_entry list \<Rightarrow> (alloc_error, allocator) proc" where
  "seed_entries sticky [] a = (None, a)"
| "seed_entries sticky (e # es) a =
     (if \<not> entry_is_dir e then seed_entries sticky es a
      else (case parseVPNConf (entry_conf e) of
              Inl ConfNotExist \<Rightarrow> seed_entries sticky es a
            | Inl err \<Rightarrow> (Some (SeedConf err), a)
            | Inr vals \<Rightarrow> seed_entries sticky es (seed_conf_values sticky vals a)))"

fun seed_roots :: "live \<Rightarrow> string list \<Rightarrow> (alloc_error, allocator) proc" where
  "seed_roots env [] a = (None, a)"
| "seed_roots env (root # roots) a =
     (case conf_root env root of
        FileMissing \<Rightarrow> seed_roots env roots a
      | FileError \<Rightarrow> (Some SeedReadDir, a)
      | FileData es \<Rightarrow> and_then (seed_entries (root \<noteq> vpnsDir a) es) (seed_roots env roots) a)"

definition seedFromPersistedConfigs :: "live \<Rightarrow> (alloc_error, allocator) proc" where
  "seedFromPersistedConfigs env a = seed_roots env (configRoots a) a"

definition seedUsedValues :: "live \<Rightarrow> (alloc_error, allocator) proc" where
  "seedUsedValues env =
     and_then (seedFromRouteTables env)
       (\<lambda>a. seedFromPersistedConfigs env (seedFromIPRoutes env (seedFromIPRules env a)))"

definition refreshLiveReservationsLocked :: "live \<Rightarrow> allocator \<Rightarrow> allocator" where
  "refreshLiveReservationsLocked env a =
     seedFromIPRoutes env (seedFromIPRules env (snd (seedFromRouteTables env a)))"

definition normalizeConfigRoots :: "string \<Rightarrow> string list \<Rightarrow> string list" where
  "normalizeConfigRoots primary extras =
     dedup (filter (\<lambda>r. r \<noteq> []) (map TrimSpace (primary # extras)))"

definition newAllocator :: "string \<Rightarrow> string list \<Rightarrow> live \<Rightarrow> alloc_error + allocator" where
  "newAllocator dir roots env =
     (let d = TrimSpace dir in
      if d = [] then Inl VpnsDirRequired
      else (case seedUsedValues env
              \<lparr>vpnsDir = d, configRoots = normalizeConfigRoots d roots, usedTables = {},
               usedMarks = {}, stickyTables = {}, stickyMarks = {}\<rparr> of
              (Some e, _) \<Rightarrow> Inl e
            | (None, a) \<Rightarrow> Inr a))"


section \<open>Operations\<close>

function next_table :: "int set \<Rightarrow> int \<Rightarrow> int option" where
  "next_table used c =
     (if c \<le> maxRouteTableID then (if c \<in> used then next_table used (c + 1) else Some c) else None)"
  by pat_completeness auto
termination
  by (relation "measure (\<lambda>(u, c). nat (maxRouteTableID + 1 - c))") (auto simp: maxRouteTableID_def)

function next_mark :: "32 word set \<Rightarrow> 32 word \<Rightarrow> (32 word) option" where
  "next_mark used c =
     (if c \<le> maxFWMark then (if c \<in> used then next_mark used (c + 1) else Some c) else None)"
  by pat_completeness auto
termination
proof (relation "measure (\<lambda>(u, c). 2 ^ 32 - unat c)", simp_all)
  fix c :: "32 word"
  assume "c \<le> maxFWMark"
  then have "unat c < 2 ^ 31" by (simp add: maxFWMark_def word_le_nat_alt)
  moreover from this have "unat (c + 1) = unat c + 1" by (simp add: unat_word_ariths)
  ultimately show "4294967296 - unat (c + 1) < 4294967296 - unat c" by simp
qed

declare next_table.simps [simp del] next_mark.simps [simp del]

definition AllocateTable :: "live \<Rightarrow> allocator \<Rightarrow> (alloc_error + int) \<times> allocator" where
  "AllocateTable env a0 =
     (let a = refreshLiveReservationsLocked env a0 in
      (case next_table (usedTables a) minRouteTableID of
         None \<Rightarrow> (Inl ErrAllocationExhausted, a)
       | Some c \<Rightarrow> (Inr c, a\<lparr>usedTables := insert c (usedTables a)\<rparr>)))"

definition AllocateMark :: "live \<Rightarrow> allocator \<Rightarrow> (alloc_error + 32 word) \<times> allocator" where
  "AllocateMark env a0 =
     (let a = refreshLiveReservationsLocked env a0 in
      (case next_mark (usedMarks a) minFWMark of
         None \<Rightarrow> (Inl ErrAllocationExhausted, a)
       | Some c \<Rightarrow> (Inr c, a\<lparr>usedMarks := insert c (usedMarks a)\<rparr>)))"

definition reserve_table :: "int \<Rightarrow> (alloc_error, allocator) proc" where
  "reserve_table table a =
     (if table > 0 then
        (if table < minRouteTableID then (Some (TableBelowMinimum table), a)
         else if table \<in> usedTables a then (Some (TableInUse table), a)
         else (None, a\<lparr>usedTables := insert table (usedTables a)\<rparr>))
      else (None, a))"

definition unreserve_table :: "int \<Rightarrow> allocator \<Rightarrow> allocator" where
  "unreserve_table table a = (if table > 0 then a\<lparr>usedTables := usedTables a - {table}\<rparr> else a)"

definition reserve_mark :: "int \<Rightarrow> 32 word \<Rightarrow> (alloc_error, allocator) proc" where
  "reserve_mark table mark a =
     (if mark > 0 then
        (if mark < minFWMark then (Some (MarkBelowMinimum mark), unreserve_table table a)
         else if mark \<in> usedMarks a then (Some (MarkInUse mark), unreserve_table table a)
         else (None, a\<lparr>usedMarks := insert mark (usedMarks a)\<rparr>))
      else (None, a))"

definition Reserve :: "live \<Rightarrow> int \<Rightarrow> 32 word \<Rightarrow> (alloc_error, allocator) proc" where
  "Reserve env table mark a =
     and_then (reserve_table table) (reserve_mark table mark) (refreshLiveReservationsLocked env a)"

definition Release :: "int \<Rightarrow> 32 word \<Rightarrow> allocator \<Rightarrow> allocator" where
  "Release table mark a =
     (let a1 = (if table > 0 \<and> table \<notin> stickyTables a then a\<lparr>usedTables := usedTables a - {table}\<rparr> else a)
      in if mark > 0 \<and> mark \<notin> stickyMarks a1 then a1\<lparr>usedMarks := usedMarks a1 - {mark}\<rparr> else a1)"


section \<open>The invariant\<close>

definition alloc_inv :: "allocator \<Rightarrow> bool" where
  "alloc_inv a \<longleftrightarrow> stickyTables a \<subseteq> usedTables a \<and> stickyMarks a \<subseteq> usedMarks a \<and>
     (\<forall>t \<in> usedTables a. minRouteTableID \<le> t) \<and> (\<forall>m \<in> usedMarks a. minFWMark \<le> m)"

text \<open>Reading the machine only adds values: \<open>grows\<close> is the order every seeding step respects.\<close>

definition grows :: "allocator \<Rightarrow> allocator \<Rightarrow> bool" where
  "grows a b \<longleftrightarrow> vpnsDir b = vpnsDir a \<and> configRoots b = configRoots a \<and>
     usedTables a \<subseteq> usedTables b \<and> usedMarks a \<subseteq> usedMarks b \<and>
     stickyTables a \<subseteq> stickyTables b \<and> stickyMarks a \<subseteq> stickyMarks b \<and> (alloc_inv a \<longrightarrow> alloc_inv b)"

lemma grows_refl [simp, intro!]: "grows a a"
  by (simp add: grows_def)

lemma grows_trans [trans]: "grows a b \<Longrightarrow> grows b c \<Longrightarrow> grows a c"
  by (auto simp: grows_def)

lemma grows_foldl: "(\<And>a x. grows a (f a x)) \<Longrightarrow> grows a (foldl f a xs)"
  by (induction xs arbitrary: a) (auto intro: grows_trans)

lemma grows_markTableUsed: "minRouteTableID \<le> t \<Longrightarrow> grows a (markTableUsed t s a)"
  by (auto simp: grows_def markTableUsed_def alloc_inv_def)

lemma grows_markMarkUsed: "minFWMark \<le> m \<Longrightarrow> grows a (markMarkUsed m s a)"
  by (auto simp: grows_def markMarkUsed_def alloc_inv_def)

lemmas grows_marks = grows_markTableUsed grows_markMarkUsed

lemma grows_seed_rt_line: "grows a (seed_rt_line a l)"
  by (auto simp: seed_rt_line_def Let_def intro: grows_marks split: option.splits)

lemma grows_rule_pair: "grows a (rule_pair a p)"
  by (auto simp: rule_pair_def intro: grows_marks split: option.splits)

lemma grows_route_pair: "grows a (route_pair a p)"
  by (auto simp: route_pair_def intro: grows_marks split: option.splits)

lemma grows_seedFromRouteTables: "grows a (snd (seedFromRouteTables env a))"
  by (auto simp: seedFromRouteTables_def intro: grows_foldl grows_seed_rt_line
    split: file_read.splits prod.splits)

lemma grows_seedFromIPRules: "grows a (seedFromIPRules env a)"
  unfolding seedFromIPRules_def parseIPRulesOutput_def
  by (rule grows_foldl) (auto intro!: grows_foldl grows_rule_pair split: option.splits)

lemma grows_seedFromIPRoutes: "grows a (seedFromIPRoutes env a)"
  unfolding seedFromIPRoutes_def parseIPRoutesOutput_def
  by (rule grows_foldl) (auto intro!: grows_foldl grows_route_pair split: option.splits)

lemma grows_refresh: "grows a (refreshLiveReservationsLocked env a)"
  unfolding refreshLiveReservationsLocked_def
  by (meson grows_seedFromIPRoutes grows_seedFromIPRules grows_seedFromRouteTables grows_trans)

lemma grows_seed_conf_values: "grows a (seed_conf_values s v a)"
  unfolding seed_conf_values_def Let_def
  by (auto intro: grows_marks grows_trans split: option.splits)

lemma grows_seed_entries: "grows a (snd (seed_entries s es a))"
proof (induction s es a rule: seed_entries.induct)
  case (2 s e es a)
  show ?case
  proof (cases "parseVPNConf (entry_conf e)")
    case (Inl err)
    with 2 show ?thesis by (cases err) auto
  next
    case (Inr vals)
    with 2 show ?thesis by (auto intro: grows_trans grows_seed_conf_values)
  qed
qed simp

lemma grows_seed_roots: "grows a (snd (seed_roots env rs a))"
proof (induction env rs a rule: seed_roots.induct)
  case (2 env root roots a)
  show ?case
  proof (cases "conf_root env root")
    case (FileData es)
    have g: "grows a (snd (seed_entries (root \<noteq> vpnsDir a) es a))" by (rule grows_seed_entries)
    obtain r b where b: "seed_entries (root \<noteq> vpnsDir a) es a = (r, b)" by fastforce
    with FileData g 2 show ?thesis
      by (cases r) (auto simp: and_then_def intro: grows_trans)
  next
    case FileMissing
    with 2 show ?thesis by simp
  next
    case FileError
    then show ?thesis by simp
  qed
qed simp

lemma grows_seedUsedValues: "grows a (snd (seedUsedValues env a))"
proof -
  obtain r b where b: "seedFromRouteTables env a = (r, b)" by fastforce
  have "grows a b" using grows_seedFromRouteTables [of a env] b by simp
  moreover have "grows b (snd (seedFromPersistedConfigs env (seedFromIPRoutes env (seedFromIPRules env b))))"
    unfolding seedFromPersistedConfigs_def
    by (meson grows_seed_roots grows_seedFromIPRoutes grows_seedFromIPRules grows_trans)
  ultimately show ?thesis
    unfolding seedUsedValues_def and_then_def b by (cases r) (auto intro: grows_trans)
qed

lemma alloc_inv_refresh: "alloc_inv a \<Longrightarrow> alloc_inv (refreshLiveReservationsLocked env a)"
  using grows_refresh [of a env] by (simp add: grows_def)

lemma alloc_inv_newAllocator: "newAllocator dir roots env = Inr a \<Longrightarrow> alloc_inv a"
  using grows_seedUsedValues [of "\<lparr>vpnsDir = TrimSpace dir, configRoots = normalizeConfigRoots (TrimSpace dir) roots,
      usedTables = {}, usedMarks = {}, stickyTables = {}, stickyMarks = {}\<rparr>" env]
  by (auto simp: newAllocator_def Let_def grows_def alloc_inv_def
    split: if_splits prod.splits option.splits)


section \<open>The searches\<close>

lemma next_table_Some:
  "next_table used c = Some t \<Longrightarrow>
     c \<le> t \<and> t \<le> maxRouteTableID \<and> t \<notin> used \<and> (\<forall>i. c \<le> i \<and> i < t \<longrightarrow> i \<in> used)"
proof (induction used c rule: next_table.induct)
  case (1 used c)
  show ?case
  proof (cases "c \<le> maxRouteTableID \<and> c \<in> used")
    case True
    then have "next_table used (c + 1) = Some t" using "1.prems" by (simp add: next_table.simps [of used c])
    with True "1.IH" have "c + 1 \<le> t \<and> t \<le> maxRouteTableID \<and> t \<notin> used \<and> (\<forall>i. c + 1 \<le> i \<and> i < t \<longrightarrow> i \<in> used)"
      by blast
    with True show ?thesis by (metis add1_zle_eq order.strict_trans1 order_le_less zle_add1_eq_le not_less)
  next
    case False
    with "1.prems" show ?thesis by (auto simp: next_table.simps [of used c] split: if_splits)
  qed
qed

lemma next_table_None:
  "next_table used c = None \<longleftrightarrow> (\<forall>t. c \<le> t \<and> t \<le> maxRouteTableID \<longrightarrow> t \<in> used)"
proof (induction used c rule: next_table.induct)
  case (1 used c)
  show ?case
  proof (cases "c \<le> maxRouteTableID \<and> c \<in> used")
    case True
    then have "next_table used c = next_table used (c + 1)" by (simp add: next_table.simps [of used c])
    with True 1 show ?thesis by (metis add1_zle_eq order_le_less)
  next
    case False
    then show ?thesis by (auto simp: next_table.simps [of used c])
  qed
qed

lemma next_mark_Some:
  "next_mark used c = Some t \<Longrightarrow>
     c \<le> t \<and> t \<le> maxFWMark \<and> t \<notin> used \<and> (\<forall>i. c \<le> i \<and> i < t \<longrightarrow> i \<in> used)"
proof (induction used c rule: next_mark.induct)
  case (1 used c)
  show ?case
  proof (cases "c \<le> maxFWMark \<and> c \<in> used")
    case True
    then have "next_mark used (c + 1) = Some t" using "1.prems" by (simp add: next_mark.simps [of used c])
    with True "1.IH" have IH: "c + 1 \<le> t" "t \<le> maxFWMark" "t \<notin> used" "\<forall>i. c + 1 \<le> i \<and> i < t \<longrightarrow> i \<in> used"
      by blast+
    have "unat c < 2 ^ 31" using True by (simp add: maxFWMark_def word_le_nat_alt)
    then have lt: "c < c + 1" by (simp add: word_less_nat_alt unat_word_ariths)
    then have suc: "c < i \<Longrightarrow> c + 1 \<le> i" for i by (simp add: inc_le)
    have "\<forall>i. c \<le> i \<and> i < t \<longrightarrow> i \<in> used"
      using True IH(4) suc by (metis order_le_less)
    with IH lt show ?thesis by (meson less_imp_le order_trans)
  next
    case False
    with "1.prems" show ?thesis by (auto simp: next_mark.simps [of used c] split: if_splits)
  qed
qed


lemma next_mark_None:
  "next_mark used c = None \<longleftrightarrow> (\<forall>t. c \<le> t \<and> t \<le> maxFWMark \<longrightarrow> t \<in> used)"
proof (induction used c rule: next_mark.induct)
  case (1 used c)
  show ?case
  proof (cases "c \<le> maxFWMark \<and> c \<in> used")
    case True
    then have "unat c < 2 ^ 31" by (simp add: maxFWMark_def word_le_nat_alt)
    then have "c < c + 1" by (simp add: word_less_nat_alt unat_word_ariths)
    then have suc: "c + 1 \<le> i \<longleftrightarrow> c < i" for i by (meson inc_le less_le_trans)
    have "next_mark used c = next_mark used (c + 1)"
      using True by (simp add: next_mark.simps [of used c])
    moreover have "next_mark used (c + 1) = None \<longleftrightarrow> (\<forall>t. c < t \<and> t \<le> maxFWMark \<longrightarrow> t \<in> used)"
      using 1 True by (simp add: suc)
    ultimately show ?thesis using True by (metis order_le_less)
  next
    case False
    then show ?thesis by (auto simp: next_mark.simps [of used c])
  qed
qed


section \<open>The operations against their contracts\<close>

lemma AllocateTable_Inr:
  assumes "AllocateTable env a = (Inr t, b)"
  shows "minRouteTableID \<le> t \<and> t \<le> maxRouteTableID \<and>
    t \<notin> usedTables (refreshLiveReservationsLocked env a) \<and>
    (\<forall>i. minRouteTableID \<le> i \<and> i < t \<longrightarrow> i \<in> usedTables (refreshLiveReservationsLocked env a)) \<and>
    b = (refreshLiveReservationsLocked env a)
      \<lparr>usedTables := insert t (usedTables (refreshLiveReservationsLocked env a))\<rparr>"
  using assms next_table_Some
  by (auto simp: AllocateTable_def Let_def split: option.splits)

lemma AllocateMark_Inr:
  assumes "AllocateMark env a = (Inr m, b)"
  shows "minFWMark \<le> m \<and> m \<le> maxFWMark \<and>
    m \<notin> usedMarks (refreshLiveReservationsLocked env a) \<and>
    (\<forall>i. minFWMark \<le> i \<and> i < m \<longrightarrow> i \<in> usedMarks (refreshLiveReservationsLocked env a)) \<and>
    b = (refreshLiveReservationsLocked env a)
      \<lparr>usedMarks := insert m (usedMarks (refreshLiveReservationsLocked env a))\<rparr>"
  using assms next_mark_Some
  by (auto simp: AllocateMark_def Let_def split: option.splits)

lemma AllocateTable_Inl:
  "fst (AllocateTable env a) = Inl e \<longleftrightarrow> e = ErrAllocationExhausted \<and>
     (\<forall>t. minRouteTableID \<le> t \<and> t \<le> maxRouteTableID \<longrightarrow> t \<in> usedTables (refreshLiveReservationsLocked env a))"
  using next_table_None [of "usedTables (refreshLiveReservationsLocked env a)" minRouteTableID]
  by (auto simp: AllocateTable_def Let_def split: option.splits)

lemma AllocateMark_Inl:
  "fst (AllocateMark env a) = Inl e \<longleftrightarrow> e = ErrAllocationExhausted \<and>
     (\<forall>m. minFWMark \<le> m \<and> m \<le> maxFWMark \<longrightarrow> m \<in> usedMarks (refreshLiveReservationsLocked env a))"
  using next_mark_None [of "usedMarks (refreshLiveReservationsLocked env a)" minFWMark]
  by (auto simp: AllocateMark_def Let_def split: option.splits)

text \<open>A failed \<open>Reserve\<close> leaves the refreshed state: the table taken first is given back.\<close>

lemma Reserve_failed:
  "Reserve env t m a = (Some e, b) \<Longrightarrow> b = refreshLiveReservationsLocked env a"
  by (auto simp: Reserve_def and_then_def reserve_table_def reserve_mark_def unreserve_table_def
    split: if_splits prod.splits option.splits)

lemma Reserve_ok:
  assumes "Reserve env t m a = (None, b)"
  defines "r \<equiv> refreshLiveReservationsLocked env a"
  shows "(t > 0 \<longrightarrow> minRouteTableID \<le> t \<and> t \<notin> usedTables r) \<and> (m > 0 \<longrightarrow> minFWMark \<le> m \<and> m \<notin> usedMarks r) \<and>
    b = r\<lparr>usedTables := (if t > 0 then insert t (usedTables r) else usedTables r),
          usedMarks := (if m > 0 then insert m (usedMarks r) else usedMarks r)\<rparr>"
  using assms(1) unfolding r_def
  by (auto simp: Reserve_def and_then_def reserve_table_def reserve_mark_def
    split: if_splits prod.splits option.splits)

lemma alloc_inv_AllocateTable: "alloc_inv a \<Longrightarrow> alloc_inv (snd (AllocateTable env a))"
proof (cases "AllocateTable env a")
  case (Pair r b)
  assume "alloc_inv a"
  then have "alloc_inv (refreshLiveReservationsLocked env a)" by (rule alloc_inv_refresh)
  with Pair AllocateTable_Inr [of env a _ b] show ?thesis
    by (cases r) (auto simp: alloc_inv_def AllocateTable_def Let_def split: option.splits)
qed

lemma alloc_inv_AllocateMark: "alloc_inv a \<Longrightarrow> alloc_inv (snd (AllocateMark env a))"
proof (cases "AllocateMark env a")
  case (Pair r b)
  assume "alloc_inv a"
  then have "alloc_inv (refreshLiveReservationsLocked env a)" by (rule alloc_inv_refresh)
  with Pair AllocateMark_Inr [of env a _ b] show ?thesis
    by (cases r) (auto simp: alloc_inv_def AllocateMark_def Let_def split: option.splits)
qed

lemma alloc_inv_Reserve: "alloc_inv a \<Longrightarrow> alloc_inv (snd (Reserve env t m a))"
proof (cases "Reserve env t m a")
  case (Pair r b)
  assume "alloc_inv a"
  then have i: "alloc_inv (refreshLiveReservationsLocked env a)" by (rule alloc_inv_refresh)
  show ?thesis
  proof (cases r)
    case None
    with Pair Reserve_ok [of env t m a b] i show ?thesis by (auto simp: alloc_inv_def)
  next
    case (Some e)
    with Pair Reserve_failed [of env t m a e b] i show ?thesis by simp
  qed
qed

lemma alloc_inv_Release: "alloc_inv a \<Longrightarrow> alloc_inv (Release t m a)"
  by (auto simp: Release_def Let_def alloc_inv_def)


section \<open>Pools: no value is held twice\<close>

text \<open>
  The contract the two kinds of values share. An operation acquires a value, drops one, or does
  neither (\<open>Quiet\<close>) as far as the pool is concerned; \<open>run_pool\<close> runs a sequence of operations
  and records which values are held.
\<close>

datatype 'v pool_event = Acquired 'v | Dropped 'v | Quiet

fun hold :: "'v pool_event \<Rightarrow> 'v list \<Rightarrow> 'v list" where
  "hold (Acquired v) h = v # h"
| "hold (Dropped v) h = removeAll v h"
| "hold Quiet h = h"

fun run_pool ::
  "('op \<Rightarrow> 's \<Rightarrow> 's) \<Rightarrow> ('op \<Rightarrow> 's \<Rightarrow> 'v pool_event) \<Rightarrow> 'op list \<Rightarrow> 's \<Rightarrow> 'v list \<Rightarrow> 's \<times> 'v list"
where
  "run_pool exec event [] s h = (s, h)"
| "run_pool exec event (p # ps) s h = run_pool exec event ps (exec p s) (hold (event p s) h)"

locale id_pool =
  fixes inv :: "'s \<Rightarrow> bool" and used :: "'s \<Rightarrow> 'v set"
    and exec :: "'op \<Rightarrow> 's \<Rightarrow> 's" and event :: "'op \<Rightarrow> 's \<Rightarrow> 'v pool_event"
  assumes inv_exec: "inv s \<Longrightarrow> inv (exec p s)"
    and acquired: "inv s \<Longrightarrow> event p s = Acquired v \<Longrightarrow> v \<notin> used s \<and> insert v (used s) \<subseteq> used (exec p s)"
    and dropped: "inv s \<Longrightarrow> event p s = Dropped v \<Longrightarrow> used s - {v} \<subseteq> used (exec p s)"
    and quiet: "inv s \<Longrightarrow> event p s = Quiet \<Longrightarrow> used s \<subseteq> used (exec p s)"
begin

lemma hold_step:
  assumes "inv s" "distinct h" "set h \<subseteq> used s"
  shows "distinct (hold (event p s) h)" and "set (hold (event p s) h) \<subseteq> used (exec p s)"
  using assms acquired [of s p] dropped [of s p] quiet [of s p]
  by (cases "event p s"; auto simp: distinct_removeAll)+

lemma held_distinct:
  assumes "inv s" "distinct h" "set h \<subseteq> used s" "run_pool exec event ps s h = (t, h')"
  shows "inv t \<and> distinct h' \<and> set h' \<subseteq> used t"
  using assms
proof (induction ps arbitrary: s h)
  case (Cons p ps)
  show ?case
    by (rule Cons.IH [of "exec p s" "hold (event p s) h"])
      (use Cons.prems inv_exec hold_step in auto)
qed auto

end

datatype alloc_op =
    OpAllocateTable live | OpAllocateMark live | OpReserve live int "32 word" | OpRelease int "32 word"

fun alloc_exec :: "alloc_op \<Rightarrow> allocator \<Rightarrow> allocator" where
  "alloc_exec (OpAllocateTable env) a = snd (AllocateTable env a)"
| "alloc_exec (OpAllocateMark env) a = snd (AllocateMark env a)"
| "alloc_exec (OpReserve env t m) a = snd (Reserve env t m a)"
| "alloc_exec (OpRelease t m) a = Release t m a"

fun table_event :: "alloc_op \<Rightarrow> allocator \<Rightarrow> int pool_event" where
  "table_event (OpAllocateTable env) a =
     (case fst (AllocateTable env a) of Inr t \<Rightarrow> Acquired t | Inl _ \<Rightarrow> Quiet)"
| "table_event (OpAllocateMark env) a = Quiet"
| "table_event (OpReserve env t m) a =
     (if t > 0 \<and> fst (Reserve env t m a) = None then Acquired t else Quiet)"
| "table_event (OpRelease t m) a = Dropped t"

fun mark_event :: "alloc_op \<Rightarrow> allocator \<Rightarrow> (32 word) pool_event" where
  "mark_event (OpAllocateTable env) a = Quiet"
| "mark_event (OpAllocateMark env) a =
     (case fst (AllocateMark env a) of Inr t \<Rightarrow> Acquired t | Inl _ \<Rightarrow> Quiet)"
| "mark_event (OpReserve env t m) a =
     (if m > 0 \<and> fst (Reserve env t m a) = None then Acquired m else Quiet)"
| "mark_event (OpRelease t m) a = Dropped m"

lemma alloc_inv_exec: "alloc_inv a \<Longrightarrow> alloc_inv (alloc_exec p a)"
  by (cases p) (auto intro: alloc_inv_AllocateTable alloc_inv_AllocateMark alloc_inv_Reserve alloc_inv_Release)

lemma refresh_used:
  "usedTables a \<subseteq> usedTables (refreshLiveReservationsLocked env a)"
  "usedMarks a \<subseteq> usedMarks (refreshLiveReservationsLocked env a)"
  using grows_refresh [of a env] by (auto simp: grows_def)

lemma Reserve_used:
  "usedTables (refreshLiveReservationsLocked env a) \<subseteq> usedTables (snd (Reserve env t m a))"
  "usedMarks (refreshLiveReservationsLocked env a) \<subseteq> usedMarks (snd (Reserve env t m a))"
  using Reserve_failed [of env t m a] Reserve_ok [of env t m a]
  by (cases "Reserve env t m a"; cases "fst (Reserve env t m a)"; fastforce)+

lemma Allocate_used:
  "usedTables (refreshLiveReservationsLocked env a) \<subseteq> usedTables (snd (AllocateTable env a))"
  "usedMarks (snd (AllocateTable env a)) = usedMarks (refreshLiveReservationsLocked env a)"
  "usedMarks (refreshLiveReservationsLocked env a) \<subseteq> usedMarks (snd (AllocateMark env a))"
  "usedTables (snd (AllocateMark env a)) = usedTables (refreshLiveReservationsLocked env a)"
  by (auto simp: AllocateTable_def AllocateMark_def Let_def split: option.splits)

lemmas alloc_used = refresh_used Reserve_used Allocate_used

interpretation tables: id_pool alloc_inv usedTables alloc_exec table_event
proof (unfold_locales, goal_cases)
  case (1 s p)
  then show ?case by (rule alloc_inv_exec)
next
  case (2 s p v)
  show ?case
  proof (cases p)
    case (OpAllocateTable env)
    with 2 have "AllocateTable env s = (Inr v, snd (AllocateTable env s))"
      by (cases "AllocateTable env s") (auto split: sum.splits)
    from AllocateTable_Inr [OF this] show ?thesis
      using OpAllocateTable refresh_used(1) [of s env] by (metis alloc_exec.simps(1) insert_mono
        allocator.select_convs(3) allocator.surjective allocator.update_convs(3) subsetD)
  next
    case (OpReserve env t m)
    with 2 have "Reserve env t m s = (None, snd (Reserve env t m s))" "t > 0" "v = t"
      by (cases "Reserve env t m s"; auto split: if_splits)+
    with Reserve_ok [OF this(1)] show ?thesis
      using OpReserve refresh_used(1) [of s env] by (auto simp: subset_iff)
  qed (use 2 in auto)
next
  case (3 s p v)
  then show ?case by (cases p) (auto simp: Release_def Let_def split: sum.splits if_splits)
next
  case (4 s p)
  show ?case
    by (cases p) (use 4 alloc_used in \<open>auto simp: subset_iff\<close>)
qed

interpretation marks: id_pool alloc_inv usedMarks alloc_exec mark_event
proof (unfold_locales, goal_cases)
  case (1 s p)
  then show ?case by (rule alloc_inv_exec)
next
  case (2 s p v)
  show ?case
  proof (cases p)
    case (OpAllocateMark env)
    with 2 have "AllocateMark env s = (Inr v, snd (AllocateMark env s))"
      by (cases "AllocateMark env s") (auto split: sum.splits)
    from AllocateMark_Inr [OF this] show ?thesis
      using OpAllocateMark refresh_used(2) [of s env] by (metis alloc_exec.simps(2) insert_mono
        allocator.select_convs(4) allocator.surjective allocator.update_convs(4) subsetD)
  next
    case (OpReserve env t m)
    with 2 have "Reserve env t m s = (None, snd (Reserve env t m s))" "m > 0" "v = m"
      by (cases "Reserve env t m s"; auto split: if_splits)+
    with Reserve_ok [OF this(1)] show ?thesis
      using OpReserve refresh_used(2) [of s env] by (auto simp: subset_iff)
  qed (use 2 in auto)
next
  case (3 s p v)
  then show ?case by (cases p) (auto simp: Release_def Let_def split: sum.splits if_splits)
next
  case (4 s p)
  show ?case
    by (cases p) (use 4 alloc_used in \<open>auto simp: subset_iff\<close>)
qed

section \<open>Properties\<close>

text \<open>In every run of allocations, reservations and releases, from a freshly created allocator
  and whatever the machine reports before each operation, no routing table is held twice: the tables
  acquired and not yet released are pairwise different, all recorded as used, and at least 200.\<close>

theorem tables_never_shared:
  assumes "newAllocator dir roots env = Inr a" and "run_pool alloc_exec table_event ops a [] = (b, h)"
  shows "distinct h \<and> set h \<subseteq> usedTables b \<and> (\<forall>t \<in> set h. 200 \<le> t)"
  using tables.held_distinct [OF alloc_inv_newAllocator [OF assms(1)] _ _ assms(2)]
  by (auto simp: alloc_inv_def minRouteTableID_def)

definition quiet_live :: live where
  "quiet_live = \<lparr>rt_tables = FileData ''200 wan'', ip_output = (\<lambda>_. None), conf_root = (\<lambda>_. FileMissing)\<rparr>"

theorem tables_never_shared_witness:
  "\<exists>a b. newAllocator ''v'' [] quiet_live = Inr a \<and>
     run_pool alloc_exec table_event [OpAllocateTable quiet_live, OpAllocateTable quiet_live] a [] = (b, [202, 201]) \<and>
     distinct [202, 201 :: int]"
proof -
  let ?ops = "[OpAllocateTable quiet_live, OpAllocateTable quiet_live]"
  let ?a = "\<lparr>vpnsDir = ''v'', configRoots = [''v''], usedTables = {200}, usedMarks = {},
      stickyTables = {200}, stickyMarks = {}\<rparr>"
  have a: "newAllocator ''v'' [] quiet_live = Inr ?a" by code_simp
  have h: "snd (run_pool alloc_exec table_event ?ops ?a []) = [202, 201]" by code_simp
  then obtain b where b: "run_pool alloc_exec table_event ?ops ?a [] = (b, [202, 201])"
    by (metis prod.collapse)
  show ?thesis using a b tables_never_shared [OF a b] by blast
qed

text \<open>The same for firewall marks.\<close>

theorem marks_never_shared:
  assumes "newAllocator dir roots env = Inr a" and "run_pool alloc_exec mark_event ops a [] = (b, h)"
  shows "distinct h \<and> set h \<subseteq> usedMarks b \<and> (\<forall>m \<in> set h. 200 \<le> m)"
  using marks.held_distinct [OF alloc_inv_newAllocator [OF assms(1)] _ _ assms(2)]
  by (auto simp: alloc_inv_def minFWMark_def)

theorem marks_never_shared_witness:
  "\<exists>a b. newAllocator ''v'' [] quiet_live = Inr a \<and>
     run_pool alloc_exec mark_event [OpAllocateMark quiet_live, OpReserve quiet_live 0 300] a [] = (b, [300, 200]) \<and>
     distinct [300, 200 :: 32 word]"
proof -
  let ?ops = "[OpAllocateMark quiet_live, OpReserve quiet_live 0 300]"
  let ?a = "\<lparr>vpnsDir = ''v'', configRoots = [''v''], usedTables = {200}, usedMarks = {},
      stickyTables = {200}, stickyMarks = {}\<rparr>"
  have a: "newAllocator ''v'' [] quiet_live = Inr ?a" by code_simp
  have h: "snd (run_pool alloc_exec mark_event ?ops ?a []) = [300, 200]" by code_simp
  then obtain b where b: "run_pool alloc_exec mark_event ?ops ?a [] = (b, [300, 200])"
    by (metis prod.collapse)
  show ?thesis using a b marks_never_shared [OF a b] by blast
qed

text \<open>\<open>AllocateTable\<close> returns the least table from 200 to 65535 that is not in use after the
  machine has been read again, records it and nothing else; it fails only when none is free, and
  then changes nothing more.\<close>

theorem AllocateTable_least:
  "(case AllocateTable env a of
      (Inr t, b) \<Rightarrow> 200 \<le> t \<and> t \<le> 65535 \<and> t \<notin> usedTables (refreshLiveReservationsLocked env a) \<and>
        {200..<t} \<subseteq> usedTables (refreshLiveReservationsLocked env a) \<and>
        b = (refreshLiveReservationsLocked env a)
          \<lparr>usedTables := insert t (usedTables (refreshLiveReservationsLocked env a))\<rparr>
    | (Inl e, b) \<Rightarrow> e = ErrAllocationExhausted \<and>
        {200..65535} \<subseteq> usedTables (refreshLiveReservationsLocked env a) \<and>
        b = refreshLiveReservationsLocked env a)"
proof (cases "AllocateTable env a")
  case (Pair r b)
  show ?thesis
  proof (cases r)
    case (Inr t)
    with Pair AllocateTable_Inr [of env a t b] show ?thesis
      by (auto simp: minRouteTableID_def maxRouteTableID_def)
  next
    case (Inl e)
    with Pair AllocateTable_Inl [of env a e] show ?thesis
      by (auto simp: minRouteTableID_def maxRouteTableID_def AllocateTable_def Let_def split: option.splits)
  qed
qed

text \<open>\<open>Reserve\<close> is all or nothing: it either records both requested values, each of which was
  free and at least 200, or returns an error and leaves the state exactly as the machine's refresh
  left it, with the table it had taken first given back.\<close>

theorem Reserve_all_or_nothing:
  "(case Reserve env t m a of
      (None, b) \<Rightarrow> (t > 0 \<longrightarrow> 200 \<le> t \<and> t \<notin> usedTables (refreshLiveReservationsLocked env a)) \<and>
        (m > 0 \<longrightarrow> 200 \<le> m \<and> m \<notin> usedMarks (refreshLiveReservationsLocked env a)) \<and>
        usedTables b = usedTables (refreshLiveReservationsLocked env a) \<union> (if t > 0 then {t} else {}) \<and>
        usedMarks b = usedMarks (refreshLiveReservationsLocked env a) \<union> (if m > 0 then {m} else {})
    | (Some e, b) \<Rightarrow> b = refreshLiveReservationsLocked env a)"
proof (cases "Reserve env t m a")
  case (Pair r b)
  show ?thesis
  proof (cases r)
    case None
    with Pair Reserve_ok [of env t m a b] show ?thesis
      by (auto simp: minRouteTableID_def minFWMark_def)
  next
    case (Some e)
    with Pair Reserve_failed [of env t m a e b] show ?thesis by simp
  qed
qed

theorem Reserve_all_or_nothing_witness:
  "(case Reserve quiet_live 201 300 \<lparr>vpnsDir = ''v'', configRoots = [], usedTables = {}, usedMarks = {},
        stickyTables = {}, stickyMarks = {}\<rparr> of
      (None, b) \<Rightarrow> usedTables b = {200, 201} \<and> usedMarks b = {300} | (Some e, b) \<Rightarrow> False)"
proof -
  let ?a = "\<lparr>vpnsDir = ''v'', configRoots = [], usedTables = {}, usedMarks = {},
        stickyTables = {}, stickyMarks = {}\<rparr>"
  have r: "refreshLiveReservationsLocked quiet_live ?a = ?a\<lparr>usedTables := {200}, stickyTables := {200}\<rparr>"
    by code_simp
  have "fst (Reserve quiet_live 201 300 ?a) = None" by code_simp
  then obtain b where b: "Reserve quiet_live 201 300 ?a = (None, b)" by (metis prod.collapse)
  show ?thesis using Reserve_all_or_nothing [where env = quiet_live and t = 201 and m = 300 and a = ?a]
    by (auto simp: b r)
qed

text \<open>\<open>Release\<close> never frees a value the machine itself uses: sticky tables and marks stay in
  use, every other released value becomes free, and no other value changes.\<close>

theorem Release_keeps_sticky:
  assumes "alloc_inv a" and "t > 0" and "m > 0"
  shows "usedTables (Release t m a) = (if t \<in> stickyTables a then usedTables a else usedTables a - {t})
    \<and> usedMarks (Release t m a) = (if m \<in> stickyMarks a then usedMarks a else usedMarks a - {m})
    \<and> stickyTables a \<subseteq> usedTables (Release t m a) \<and> stickyMarks a \<subseteq> usedMarks (Release t m a)"
  using assms by (auto simp: Release_def Let_def alloc_inv_def)

theorem Release_keeps_sticky_witness:
  "usedTables (Release 200 300 \<lparr>vpnsDir = [], configRoots = [], usedTables = {200, 201}, usedMarks = {300},
      stickyTables = {200}, stickyMarks = {}\<rparr>) = {200, 201}"
proof -
  let ?a = "\<lparr>vpnsDir = [], configRoots = [], usedTables = {200, 201}, usedMarks = {300 :: 32 word},
      stickyTables = {200 :: int}, stickyMarks = {}\<rparr>"
  have "alloc_inv ?a" by (simp add: alloc_inv_def minRouteTableID_def minFWMark_def)
  from Release_keeps_sticky [OF this, of 200 300] show ?thesis by simp
qed

end
