(* ===== verification/Net_Addr.thy ===== *)
theory Net_Addr
  imports Go_Strings
begin

text \<open>
  What the sources use of Go's \<^verbatim>\<open>net\<close> package: textual IPv4 and IPv6 addresses, CIDR blocks and
  hardware addresses. An address is the 16 bytes of a \<^verbatim>\<open>net.IP\<close> (an IPv4 address is stored in
  its IPv4-mapped form, as \<^verbatim>\<open>net.ParseIP\<close> does) or the 4 bytes that \<^verbatim>\<open>To4\<close> and
  \<^verbatim>\<open>Mask\<close> produce; bytes are natural numbers below 256. The parsers follow the standard
  library: no leading zeros in IPv4 fields, one optional \<^verbatim>\<open>::\<close>, an IPv4 tail in IPv6, no zone.
\<close>

type_synonym ip = "nat list"


section \<open>IPv4 text\<close>

definition parse_octet :: "string \<Rightarrow> nat option" where
  "parse_octet s =
     (if all_digits s \<and> (length s = 1 \<or> hd s \<noteq> CHR ''0'') \<and> length s \<le> 3 \<and> read_digits s \<le> 255
      then Some (read_digits s) else None)"

definition parseIPv4Fields :: "string \<Rightarrow> nat list option" where
  "parseIPv4Fields s =
     (case map parse_octet (Split s (CHR ''.'')) of
        [Some a, Some b, Some c, Some d] \<Rightarrow> Some [a, b, c, d]
      | _ \<Rightarrow> None)"

definition show_ip4 :: "nat list \<Rightarrow> string" where
  "show_ip4 bs = Join (map (\<lambda>b. show_base 10 b) bs) ''.''"


section \<open>IPv6 text\<close>

definition hex_digit :: "char \<Rightarrow> bool" where
  "hex_digit c \<longleftrightarrow> is_digit c \<or> lower_char c \<in> set ''abcdef''"

definition read_hex :: "string \<Rightarrow> nat" where
  "read_hex s = foldl (\<lambda>n c. 16 * n + the (digit_val c)) 0 s"

text \<open>
  The loop of \<^verbatim>\<open>netip.parseIPv6\<close>: \<open>bytes\<close> are the bytes parsed so far, \<open>ell\<close> the position
  of the ellipsis. Each round reads one group of one to four hexadecimal digits, so the rest of
  the text gets shorter; the result is the bytes, the ellipsis and the unread rest.
\<close>

function parse_groups :: "nat list \<Rightarrow> nat option \<Rightarrow> string \<Rightarrow> (nat list \<times> nat option \<times> string) option" where
  "parse_groups bytes ell s =
     (if length bytes \<ge> 16 then Some (bytes, ell, s)
      else
        (let ds = takeWhile hex_digit s; rest = dropWhile hex_digit s in
         if ds = [] \<or> length ds > 4 then None
         else if HasPrefix rest ''.'' then
           (if ell = None \<and> length bytes \<noteq> 12 then None
            else if length bytes + 4 > 16 then None
            else map_option (\<lambda>v4. (bytes @ v4, ell, [])) (parseIPv4Fields s))
         else
           (let bytes' = bytes @ [read_hex ds div 256, read_hex ds mod 256] in
            if rest = [] then Some (bytes', ell, [])
            else if \<not> HasPrefix rest '':'' \<or> length rest = 1 then None
            else if HasPrefix (tl rest) '':'' then
              (if ell \<noteq> None then None
               else if tl (tl rest) = [] then Some (bytes', Some (length bytes'), [])
               else parse_groups bytes' (Some (length bytes')) (tl (tl rest)))
            else parse_groups bytes' ell (tl rest))))"
  by pat_completeness auto
termination
proof (relation "measure (\<lambda>(bytes, ell, s). length s)", goal_cases)
  case (2 bytes ell s)
  then show ?case
    using length_dropWhile_le [of hex_digit s] by (cases "dropWhile hex_digit s") auto
next
  case (3 bytes ell s)
  then show ?case
    using length_dropWhile_le [of hex_digit s] by (cases "dropWhile hex_digit s") auto
qed simp

declare parse_groups.simps [simp del]

definition parseIPv6 :: "string \<Rightarrow> ip option" where
  "parseIPv6 s =
     (let lead = HasPrefix s ''::''; body = (if lead then drop 2 s else s) in
      if lead \<and> body = [] then Some (replicate 16 0)
      else (case parse_groups [] (if lead then Some 0 else None) body of
              None \<Rightarrow> None
            | Some (bytes, ell, rest) \<Rightarrow>
                if rest \<noteq> [] then None
                else if length bytes < 16 then
                  (case ell of
                     None \<Rightarrow> None
                   | Some e \<Rightarrow> Some (take e bytes @ replicate (16 - length bytes) 0 @ drop e bytes))
                else if ell \<noteq> None then None
                else Some bytes))"

text \<open>\<^verbatim>\<open>netip.ParseAddr\<close> without zones: the first dot or colon decides the family.\<close>

datatype addr = Addr4 "nat list" | Addr6 "nat list"

definition ParseAddr :: "string \<Rightarrow> addr option" where
  "ParseAddr s =
     (case dropWhile (\<lambda>c. c \<noteq> CHR ''.'' \<and> c \<noteq> CHR '':'' \<and> c \<noteq> CHR ''%'') s of
        [] \<Rightarrow> None
      | c # _ \<Rightarrow>
          if c = CHR ''.'' then map_option Addr4 (parseIPv4Fields s)
          else if c = CHR '':'' then map_option Addr6 (parseIPv6 s)
          else None)"

definition v4InV6Prefix :: "nat list" where
  "v4InV6Prefix = [0, 0, 0, 0, 0, 0, 0, 0, 0, 0, 255, 255]"

definition As16 :: "addr \<Rightarrow> ip" where
  "As16 a = (case a of Addr4 bs \<Rightarrow> v4InV6Prefix @ bs | Addr6 bs \<Rightarrow> bs)"

definition BitLen :: "addr \<Rightarrow> nat" where
  "BitLen a = (case a of Addr4 _ \<Rightarrow> 32 | Addr6 _ \<Rightarrow> 128)"

definition To4 :: "ip \<Rightarrow> ip option" where
  "To4 i = (if length i = 4 then Some i
            else if length i = 16 \<and> take 12 i = v4InV6Prefix then Some (drop 12 i) else None)"

definition ParseIP :: "string \<Rightarrow> ip option" where
  "ParseIP s = map_option As16 (ParseAddr s)"


section \<open>CIDR blocks\<close>

definition mask_byte :: "nat \<Rightarrow> nat \<Rightarrow> nat" where
  "mask_byte k b = b div 2 ^ (8 - min 8 k) * 2 ^ (8 - min 8 k)"

fun mask_bytes :: "nat \<Rightarrow> nat list \<Rightarrow> nat list" where
  "mask_bytes k [] = []"
| "mask_bytes k (b # bs) = mask_byte k b # mask_bytes (k - 8) bs"

text \<open>\<^verbatim>\<open>ParseCIDR\<close>: the address, the network address, the prefix length and the mask width.\<close>

record cidr =
  cidr_ip :: ip
  cidr_net :: ip
  cidr_prefix :: nat
  cidr_bits :: nat

definition ParseCIDR :: "string \<Rightarrow> cidr option" where
  "ParseCIDR s =
     (if CHR ''/'' \<notin> set s then None
      else (case ParseAddr (before_char (CHR ''/'') s) of
              None \<Rightarrow> None
            | Some a \<Rightarrow>
                (let mask = after_char (CHR ''/'') s; n = read_digits mask in
                 if \<not> all_digits mask \<or> n > BitLen a then None
                 else Some \<lparr>cidr_ip = As16 a,
                            cidr_net = mask_bytes n (case a of Addr4 bs \<Rightarrow> bs | Addr6 bs \<Rightarrow> bs),
                            cidr_prefix = n, cidr_bits = BitLen a\<rparr>)))"


section \<open>Printing\<close>

fun groups16 :: "nat list \<Rightarrow> nat list" where
  "groups16 (a # b # bs) = (256 * a + b) # groups16 bs"
| "groups16 _ = []"

text \<open>The longest run of at least two zero groups, the first one of that length.\<close>

fun best_run :: "nat \<Rightarrow> nat list \<Rightarrow> nat \<times> nat \<Rightarrow> nat \<times> nat" where
  "best_run i [] best = best"
| "best_run i (g # gs) best =
     (let n = length (takeWhile (\<lambda>x. x = 0) (g # gs)) in
      best_run (Suc i) gs (if 2 \<le> n \<and> n > snd best then (i, n) else best))"

definition show_ip6 :: "ip \<Rightarrow> string" where
  "show_ip6 bs =
     (let gs = groups16 bs; (z, n) = best_run 0 gs (0, 0) in
      if n = 0 then Join (map show_hex gs) '':''
      else Join (map show_hex (take z gs)) '':'' @ ''::'' @ Join (map show_hex (drop (z + n) gs)) '':'')"

definition IP_String :: "ip \<Rightarrow> string" where
  "IP_String i = (case To4 i of Some bs \<Rightarrow> show_ip4 bs | None \<Rightarrow> show_ip6 i)"


section \<open>Hardware addresses\<close>

definition parse_mac_groups :: "nat \<Rightarrow> char \<Rightarrow> string \<Rightarrow> string list option" where
  "parse_mac_groups w sep s =
     (let gs = Split s sep in
      if list_all (\<lambda>g. length g = w \<and> list_all hex_digit g) gs then Some gs else None)"

definition mac_bytes :: "string \<Rightarrow> nat list" where
  "mac_bytes s = (let hs = filter hex_digit s in map (\<lambda>i. read_hex (take 2 (drop (2 * i) hs))) [0..<length hs div 2])"

definition ParseMAC :: "string \<Rightarrow> nat list option" where
  "ParseMAC s =
     (if length s < 14 then None
      else
        (let groups = (if s ! 2 = CHR '':'' \<or> s ! 2 = CHR ''-'' then parse_mac_groups 2 (s ! 2) s
                       else if s ! 4 = CHR ''.'' then parse_mac_groups 4 (CHR ''.'') s
                       else None)
         in case groups of
              None \<Rightarrow> None
            | Some gs \<Rightarrow>
                (let bytes = mac_bytes (concat gs) in
                 if length bytes \<in> {6, 8, 20} then Some bytes else None)))"

definition mac_String :: "nat list \<Rightarrow> string" where
  "mac_String bs = Join (map (\<lambda>b. pad_zero 2 (show_hex b)) bs) '':''"

end
