(* ===== verification/Routing_Model.thy ===== *)
theory Routing_Model
  imports Vpn_Validate Net_Addr
begin

text \<open>
  Routing groups and rules, and their normalisation (\<^verbatim>\<open>internal/routing/model.go\<close>,
  \<^verbatim>\<open>model_normalize.go\<close>, \<^verbatim>\<open>model_raw_selectors.go\<close>). The records are the Go structs; an
  optional pointer field is an \<open>option\<close>. The user's selector lines (\<open>raw_\<close> fields, with
  comments) are what the selectors are computed from. The error type has one constructor per
  error the code returns; all of them wrap \<^verbatim>\<open>ErrGroupValidation\<close>.
\<close>


section \<open>Data\<close>

record port_range =
  Protocol :: string
  Start :: int
  End :: int

record rule_raw_selectors =
  raw_SourceInterfaces :: "string list"
  raw_SourceCIDRs :: "string list"
  raw_ExcludedSourceCIDRs :: "string list"
  raw_SourceMACs :: "string list"
  raw_DestinationCIDRs :: "string list"
  raw_ExcludedDestinationCIDRs :: "string list"
  raw_DestinationPorts :: "string list"
  raw_ExcludedDestinationPorts :: "string list"
  raw_DestinationASNs :: "string list"
  raw_ExcludedDestinationASNs :: "string list"
  raw_Domains :: "string list"
  raw_WildcardDomains :: "string list"

record routing_rule =
  rule_ID :: int
  rule_Name :: string
  SourceInterfaces :: "string list"
  SourceCIDRs :: "string list"
  ExcludedSourceCIDRs :: "string list"
  SourceMACs :: "string list"
  DestinationCIDRs :: "string list"
  ExcludedDestinationCIDRs :: "string list"
  DestinationPorts :: "port_range list"
  ExcludedDestinationPorts :: "port_range list"
  DestinationASNs :: "string list"
  ExcludedDestinationASNs :: "string list"
  ExcludeMulticast :: "bool option"
  Domains :: "string list"
  WildcardDomains :: "string list"
  RawSelectors :: "rule_raw_selectors option"

record domain_group =
  group_ID :: int
  group_Name :: string
  EgressVPN :: string
  Rules :: "routing_rule list"
  group_Domains :: "string list"
  CreatedAt :: int
  UpdatedAt :: int

datatype group_error =
    GroupNameRequired | GroupNameInvalid string | EgressInvalid name_error | NoRules
  | BadSelector string string | BadInterface string | BadMAC string
  | BadProtocol | BadPortStart int | BadPortRange int int | BadPortSelector string
  | BadASN string | BadDomain string domain_error | RuleEmpty nat

definition empty_raw :: rule_raw_selectors where
  "empty_raw = \<lparr>raw_SourceInterfaces = [], raw_SourceCIDRs = [], raw_ExcludedSourceCIDRs = [],
     raw_SourceMACs = [], raw_DestinationCIDRs = [], raw_ExcludedDestinationCIDRs = [],
     raw_DestinationPorts = [], raw_ExcludedDestinationPorts = [], raw_DestinationASNs = [],
     raw_ExcludedDestinationASNs = [], raw_Domains = [], raw_WildcardDomains = []\<rparr>"

definition empty_rule :: routing_rule where
  "empty_rule = \<lparr>rule_ID = 0, rule_Name = [], SourceInterfaces = [], SourceCIDRs = [],
     ExcludedSourceCIDRs = [], SourceMACs = [], DestinationCIDRs = [], ExcludedDestinationCIDRs = [],
     DestinationPorts = [], ExcludedDestinationPorts = [], DestinationASNs = [],
     ExcludedDestinationASNs = [], ExcludeMulticast = None, Domains = [], WildcardDomains = [],
     RawSelectors = None\<rparr>"


section \<open>Normalising the selectors of one kind\<close>

text \<open>The regular expressions for group names and interface names.\<close>

definition groupNamePattern :: "string \<Rightarrow> bool" where
  "groupNamePattern s = (case s of [] \<Rightarrow> False | c # cs \<Rightarrow> is_alnum c \<and> length cs \<le> 63 \<and> list_all name_char cs)"

definition iface_char :: "char \<Rightarrow> bool" where
  "iface_char c \<longleftrightarrow> is_digit c \<or> is_lower c \<or> c = CHR ''.'' \<or> c = CHR ''_'' \<or> c = CHR ''-''"

definition ifaceNamePattern :: "string \<Rightarrow> bool" where
  "ifaceNamePattern s =
     (case s of [] \<Rightarrow> False | c # cs \<Rightarrow> (is_digit c \<or> is_lower c) \<and> length cs \<le> 14 \<and> list_all iface_char cs)"

definition canonicalCIDROrIP :: "string \<Rightarrow> string option" where
  "canonicalCIDROrIP value =
     (case ParseIP value of
        Some i \<Rightarrow> (if To4 i \<noteq> None then Some (IP_String i @ ''/32'') else Some (IP_String i @ ''/128''))
      | None \<Rightarrow>
          (case ParseCIDR value of
             None \<Rightarrow> None
           | Some c \<Rightarrow>
               if To4 (cidr_ip c) \<noteq> None \<and> cidr_bits c = 32
               then Some (IP_String (the (To4 (cidr_net c))) @ ''/'' @ Itoa (int (cidr_prefix c)))
               else Some (IP_String (cidr_net c) @ ''/'' @ Itoa (int (cidr_prefix c)))))"

definition canon_cidr :: "string \<Rightarrow> string \<Rightarrow> group_error + string option" where
  "canon_cidr label entry =
     (let t = TrimSpace entry in
      if t = [] then Inr None
      else (case canonicalCIDROrIP t of None \<Rightarrow> Inl (BadSelector label entry) | Some c \<Rightarrow> Inr (Some c)))"

definition normalizeCIDRs :: "string list \<Rightarrow> string \<Rightarrow> group_error + string list" where
  "normalizeCIDRs raw label = norm_loop (canon_cidr label) [] raw"

definition canon_iface :: "string \<Rightarrow> group_error + string option" where
  "canon_iface entry =
     (let t = ToLower (TrimSpace entry) in
      if t = [] then Inr None
      else if \<not> ifaceNamePattern t then Inl (BadInterface entry)
      else Inr (Some t))"

definition normalizeInterfaces :: "string list \<Rightarrow> group_error + string list" where
  "normalizeInterfaces raw = norm_loop canon_iface [] raw"

definition canon_mac :: "string \<Rightarrow> group_error + string option" where
  "canon_mac entry =
     (let t = TrimSpace entry in
      if t = [] then Inr None
      else (case ParseMAC t of
              None \<Rightarrow> Inl (BadMAC entry)
            | Some hw \<Rightarrow> if length hw \<noteq> 6 then Inl (BadMAC entry) else Inr (Some (ToLower (mac_String hw)))))"

definition normalizeMACs :: "string list \<Rightarrow> group_error + string list" where
  "normalizeMACs raw = norm_loop canon_mac [] raw"

text \<open>
  Ports: the code de-duplicates on the text \<^verbatim>\<open>protocol:start:end\<close>; the protocol is one of three
  words without a colon, so two entries have the same text exactly when they are equal.
\<close>

definition port_protocol :: "string \<Rightarrow> bool" where
  "port_protocol p \<longleftrightarrow> p = ''tcp'' \<or> p = ''udp'' \<or> p = ''both''"

definition canon_port :: "port_range \<Rightarrow> group_error + port_range option" where
  "canon_port entry =
     (let protocol = ToLower (TrimSpace (Protocol entry)); start = Start entry;
          e = (if End entry \<le> 0 then start else End entry) in
      if \<not> port_protocol protocol then Inl BadProtocol
      else if start \<le> 0 \<or> start > 65535 then Inl (BadPortStart start)
      else if e < start \<or> e > 65535 then Inl (BadPortRange start e)
      else Inr (Some \<lparr>Protocol = protocol, Start = start, End = e\<rparr>))"

definition normalizePorts :: "port_range list \<Rightarrow> group_error + port_range list" where
  "normalizePorts raw = norm_loop canon_port [] raw"

definition canon_asn :: "string \<Rightarrow> group_error + string option" where
  "canon_asn entry =
     (let t = TrimPrefix (ToUpper (TrimSpace entry)) ''AS'' in
      if t = [] then Inr None
      else (case Atoi t of
              None \<Rightarrow> Inl (BadASN entry)
            | Some v \<Rightarrow> if v \<le> 0 then Inl (BadASN entry) else Inr (Some (''AS'' @ Itoa v))))"

definition normalizeASNs :: "string list \<Rightarrow> group_error + string list" where
  "normalizeASNs raw = norm_loop canon_asn [] raw"

definition canon_domain :: "bool \<Rightarrow> string \<Rightarrow> group_error + string option" where
  "canon_domain wildcard domain =
     (let t = ToLower (TrimSpace domain) in
      if t = [] then Inr None
      else (case ValidateDomain t of
              Some e \<Rightarrow> Inl (BadDomain domain e)
            | None \<Rightarrow>
                (let t1 = (if wildcard \<and> \<not> HasPrefix t ''*.'' then ''*.'' @ TrimPrefix t ''*.'' else t);
                     t2 = (if \<not> wildcard then TrimPrefix t1 ''*.'' else t1)
                 in Inr (Some t2))))"

definition normalizeDomains :: "string list \<Rightarrow> bool \<Rightarrow> group_error + string list" where
  "normalizeDomains raw wildcard = norm_loop (canon_domain wildcard) [] raw"

definition ruleHasSelectors :: "routing_rule \<Rightarrow> bool" where
  "ruleHasSelectors rule \<longleftrightarrow>
     SourceInterfaces rule \<noteq> [] \<or> SourceCIDRs rule \<noteq> [] \<or> ExcludedSourceCIDRs rule \<noteq> [] \<or>
     SourceMACs rule \<noteq> [] \<or> DestinationCIDRs rule \<noteq> [] \<or> ExcludedDestinationCIDRs rule \<noteq> [] \<or>
     DestinationPorts rule \<noteq> [] \<or> ExcludedDestinationPorts rule \<noteq> [] \<or> DestinationASNs rule \<noteq> [] \<or>
     ExcludedDestinationASNs rule \<noteq> [] \<or> Domains rule \<noteq> [] \<or> WildcardDomains rule \<noteq> []"

definition RuleExcludeMulticastEnabled :: "routing_rule \<Rightarrow> bool" where
  "RuleExcludeMulticastEnabled rule = (case ExcludeMulticast rule of None \<Rightarrow> True | Some b \<Rightarrow> b)"


section \<open>The user's selector lines\<close>

definition activeSelectorValue :: "string \<Rightarrow> string option" where
  "activeSelectorValue line =
     (let t = TrimSpace (RemoveChar (CHR 0x0D) line) in
      if t = [] \<or> HasPrefix t ''#'' then None
      else (let u = (if CHR ''#'' \<in> set t then TrimSpace (before_char (CHR ''#'') t) else t)
            in if u = [] then None else Some u))"

definition selectorValuesFromRaw :: "string list \<Rightarrow> string list" where
  "selectorValuesFromRaw ls = List.map_filter activeSelectorValue ls"

definition normalizeRawLines :: "string list \<Rightarrow> string list" where
  "normalizeRawLines ls = map (RemoveChar (CHR 0x0D)) ls"

definition cloneSelectorLines :: "string list \<Rightarrow> string list" where
  "cloneSelectorLines vs = map TrimSpace vs"

definition format_port :: "port_range \<Rightarrow> string option" where
  "format_port port =
     (let proto = ToLower (TrimSpace (Protocol port)) in
      if proto = [] \<or> Start port \<le> 0 then None
      else if End port > Start port
      then Some (proto @ '':'' @ Itoa (Start port) @ ''-'' @ Itoa (End port))
      else Some (proto @ '':'' @ Itoa (Start port)))"

definition formatPortSelectorLines :: "port_range list \<Rightarrow> string list" where
  "formatPortSelectorLines ports = List.map_filter format_port ports"

definition parse_port_selector :: "string \<Rightarrow> group_error + port_range option" where
  "parse_port_selector raw =
     (let t = ToLower (TrimSpace raw) in
      if t = [] then Inr None
      else
        (case FieldsFunc (\<lambda>c. c = CHR '':'' \<or> c = CHR ''/'') t of
           [p0, p1] \<Rightarrow>
             (let protocol = TrimSpace p0; rangeRaw = TrimSpace p1 in
              if \<not> port_protocol protocol then Inl (BadPortSelector raw)
              else if CHR ''-'' \<in> set rangeRaw then
                (case (Atoi (TrimSpace (before_char (CHR ''-'') rangeRaw)),
                       Atoi (TrimSpace (after_char (CHR ''-'') rangeRaw))) of
                   (Some s, Some e) \<Rightarrow> Inr (Some \<lparr>Protocol = protocol, Start = s, End = e\<rparr>)
                 | _ \<Rightarrow> Inl (BadPortSelector raw))
              else
                (case Atoi rangeRaw of
                   Some v \<Rightarrow> Inr (Some \<lparr>Protocol = protocol, Start = v, End = v\<rparr>)
                 | None \<Rightarrow> Inl (BadPortSelector raw)))
         | _ \<Rightarrow> Inl (BadPortSelector raw)))"

fun parsePortSelectorStrings :: "string list \<Rightarrow> group_error + port_range list" where
  "parsePortSelectorStrings [] = Inr []"
| "parsePortSelectorStrings (raw # raws) =
     bindE (parse_port_selector raw) (\<lambda>p.
       bindE (parsePortSelectorStrings raws) (\<lambda>ps.
         Inr (case p of None \<Rightarrow> ps | Some q \<Rightarrow> q # ps)))"

definition raw_lists :: "rule_raw_selectors \<Rightarrow> string list list" where
  "raw_lists raw =
     [raw_SourceInterfaces raw, raw_SourceCIDRs raw, raw_ExcludedSourceCIDRs raw, raw_SourceMACs raw,
      raw_DestinationCIDRs raw, raw_ExcludedDestinationCIDRs raw, raw_DestinationPorts raw,
      raw_ExcludedDestinationPorts raw, raw_DestinationASNs raw, raw_ExcludedDestinationASNs raw,
      raw_Domains raw, raw_WildcardDomains raw]"

definition hasAnyLine :: "rule_raw_selectors \<Rightarrow> bool" where
  "hasAnyLine raw \<longleftrightarrow> list_ex (list_ex (\<lambda>line. TrimSpace line \<noteq> [])) (raw_lists raw)"

definition map_raw :: "(string list \<Rightarrow> string list) \<Rightarrow> rule_raw_selectors \<Rightarrow> rule_raw_selectors" where
  "map_raw f raw =
     \<lparr>raw_SourceInterfaces = f (raw_SourceInterfaces raw),
      raw_SourceCIDRs = f (raw_SourceCIDRs raw),
      raw_ExcludedSourceCIDRs = f (raw_ExcludedSourceCIDRs raw),
      raw_SourceMACs = f (raw_SourceMACs raw),
      raw_DestinationCIDRs = f (raw_DestinationCIDRs raw),
      raw_ExcludedDestinationCIDRs = f (raw_ExcludedDestinationCIDRs raw),
      raw_DestinationPorts = f (raw_DestinationPorts raw),
      raw_ExcludedDestinationPorts = f (raw_ExcludedDestinationPorts raw),
      raw_DestinationASNs = f (raw_DestinationASNs raw),
      raw_ExcludedDestinationASNs = f (raw_ExcludedDestinationASNs raw),
      raw_Domains = f (raw_Domains raw),
      raw_WildcardDomains = f (raw_WildcardDomains raw)\<rparr>"

definition normalizeRuleRawSelectors :: "rule_raw_selectors option \<Rightarrow> rule_raw_selectors" where
  "normalizeRuleRawSelectors r = (case r of None \<Rightarrow> empty_raw | Some raw \<Rightarrow> map_raw normalizeRawLines raw)"

definition or_lines :: "string list \<Rightarrow> string list \<Rightarrow> string list" where
  "or_lines ls alt = (if ls = [] then alt else ls)"

definition hydrateRuleRawSelectorsFromRule :: "rule_raw_selectors \<Rightarrow> routing_rule \<Rightarrow> rule_raw_selectors" where
  "hydrateRuleRawSelectorsFromRule raw rule =
     \<lparr>raw_SourceInterfaces = or_lines (raw_SourceInterfaces raw) (cloneSelectorLines (SourceInterfaces rule)),
      raw_SourceCIDRs = or_lines (raw_SourceCIDRs raw) (cloneSelectorLines (SourceCIDRs rule)),
      raw_ExcludedSourceCIDRs = or_lines (raw_ExcludedSourceCIDRs raw) (cloneSelectorLines (ExcludedSourceCIDRs rule)),
      raw_SourceMACs = or_lines (raw_SourceMACs raw) (cloneSelectorLines (SourceMACs rule)),
      raw_DestinationCIDRs = or_lines (raw_DestinationCIDRs raw) (cloneSelectorLines (DestinationCIDRs rule)),
      raw_ExcludedDestinationCIDRs =
        or_lines (raw_ExcludedDestinationCIDRs raw) (cloneSelectorLines (ExcludedDestinationCIDRs rule)),
      raw_DestinationPorts = or_lines (raw_DestinationPorts raw) (formatPortSelectorLines (DestinationPorts rule)),
      raw_ExcludedDestinationPorts =
        or_lines (raw_ExcludedDestinationPorts raw) (formatPortSelectorLines (ExcludedDestinationPorts rule)),
      raw_DestinationASNs = or_lines (raw_DestinationASNs raw) (cloneSelectorLines (DestinationASNs rule)),
      raw_ExcludedDestinationASNs =
        or_lines (raw_ExcludedDestinationASNs raw) (cloneSelectorLines (ExcludedDestinationASNs rule)),
      raw_Domains = or_lines (raw_Domains raw) (cloneSelectorLines (Domains rule)),
      raw_WildcardDomains = or_lines (raw_WildcardDomains raw) (cloneSelectorLines (WildcardDomains rule))\<rparr>"

text \<open>\<^verbatim>\<open>finalizeRuleRawSelectors\<close> has the same body as the hydration.\<close>

definition finalizeRuleRawSelectors :: "rule_raw_selectors \<Rightarrow> routing_rule \<Rightarrow> rule_raw_selectors" where
  "finalizeRuleRawSelectors raw rule = hydrateRuleRawSelectorsFromRule raw rule"


section \<open>Rules and groups\<close>

definition rule_ports :: "port_range list \<Rightarrow> string list \<Rightarrow> group_error + port_range list" where
  "rule_ports ports ls =
     bindE (if ports = [] then parsePortSelectorStrings (selectorValuesFromRaw ls) else Inr ports) normalizePorts"

definition normalizeRule :: "routing_rule \<Rightarrow> nat \<Rightarrow> group_error + routing_rule" where
  "normalizeRule raw idx =
     (let rs = hydrateRuleRawSelectorsFromRule (normalizeRuleRawSelectors (RawSelectors raw)) raw;
          name = (if TrimSpace (rule_Name raw) = [] then ''Rule '' @ Itoa (int idx + 1) else TrimSpace (rule_Name raw))
      in
      bindE (normalizeInterfaces (selectorValuesFromRaw (raw_SourceInterfaces rs))) (\<lambda>ifaces.
      bindE (normalizeCIDRs (selectorValuesFromRaw (raw_SourceCIDRs rs)) ''source'') (\<lambda>src.
      bindE (normalizeCIDRs (selectorValuesFromRaw (raw_ExcludedSourceCIDRs rs)) ''excluded source'') (\<lambda>xsrc.
      bindE (normalizeMACs (selectorValuesFromRaw (raw_SourceMACs rs))) (\<lambda>macs.
      bindE (normalizeCIDRs (selectorValuesFromRaw (raw_DestinationCIDRs rs)) ''destination'') (\<lambda>dst.
      bindE (normalizeCIDRs (selectorValuesFromRaw (raw_ExcludedDestinationCIDRs rs)) ''excluded destination'') (\<lambda>xdst.
      bindE (rule_ports (DestinationPorts raw) (raw_DestinationPorts rs)) (\<lambda>ports.
      bindE (rule_ports (ExcludedDestinationPorts raw) (raw_ExcludedDestinationPorts rs)) (\<lambda>xports.
      bindE (normalizeASNs (selectorValuesFromRaw (raw_DestinationASNs rs))) (\<lambda>asns.
      bindE (normalizeASNs (selectorValuesFromRaw (raw_ExcludedDestinationASNs rs))) (\<lambda>xasns.
      bindE (normalizeDomains (selectorValuesFromRaw (raw_Domains rs)) False) (\<lambda>doms.
      bindE (normalizeDomains (selectorValuesFromRaw (raw_WildcardDomains rs)) True) (\<lambda>wilds.
        (let rule = \<lparr>rule_ID = rule_ID raw, rule_Name = name, SourceInterfaces = ifaces, SourceCIDRs = src,
               ExcludedSourceCIDRs = xsrc, SourceMACs = macs, DestinationCIDRs = dst,
               ExcludedDestinationCIDRs = xdst, DestinationPorts = ports, ExcludedDestinationPorts = xports,
               DestinationASNs = asns, ExcludedDestinationASNs = xasns,
               ExcludeMulticast = Some (case ExcludeMulticast raw of None \<Rightarrow> True | Some b \<Rightarrow> b),
               Domains = doms, WildcardDomains = wilds, RawSelectors = None\<rparr>;
             fin = finalizeRuleRawSelectors rs rule
         in if \<not> ruleHasSelectors rule \<and> \<not> hasAnyLine fin then Inl (RuleEmpty (idx + 1))
            else Inr (rule\<lparr>RawSelectors := Some fin\<rparr>)))))))))))))))"

fun normalize_from :: "nat \<Rightarrow> routing_rule list \<Rightarrow> group_error + routing_rule list" where
  "normalize_from idx [] = Inr []"
| "normalize_from idx (r # rs) =
     bindE (normalizeRule r idx) (\<lambda>r'. bindE (normalize_from (Suc idx) rs) (\<lambda>rs'. Inr (r' # rs')))"

definition normalizeRules :: "routing_rule list \<Rightarrow> group_error + routing_rule list" where
  "normalizeRules raw = normalize_from 0 raw"

definition legacyDomainsFromRules :: "routing_rule list \<Rightarrow> string list" where
  "legacyDomainsFromRules rules = dedup (concat (map (\<lambda>r. Domains r @ WildcardDomains r) rules))"

definition NormalizeAndValidate :: "domain_group \<Rightarrow> group_error + domain_group" where
  "NormalizeAndValidate grp =
     (let name = TrimSpace (group_Name grp); egress = TrimSpace (EgressVPN grp);
          rules = (if Rules grp = [] \<and> group_Domains grp \<noteq> []
                   then [empty_rule\<lparr>Domains := group_Domains grp\<rparr>] else Rules grp)
      in
      if name = [] then Inl GroupNameRequired
      else if \<not> groupNamePattern name then Inl (GroupNameInvalid (group_Name grp))
      else (case ValidateName egress of
              Some e \<Rightarrow> Inl (EgressInvalid e)
            | None \<Rightarrow>
                if rules = [] then Inl NoRules
                else bindE (normalizeRules rules) (\<lambda>norm.
                       Inr (grp\<lparr>group_Name := name, EgressVPN := egress, Rules := norm,
                                  group_Domains := legacyDomainsFromRules norm\<rparr>))))"

text \<open>Exact and wildcard domains of a group, for the resolvers.\<close>

definition RuleDomains :: "domain_group \<Rightarrow> string list" where
  "RuleDomains grp =
     (let main = dedup (concat (map (\<lambda>r. Domains r @
            filter (\<lambda>t. t \<noteq> []) (map (\<lambda>w. TrimPrefix w ''*.'') (WildcardDomains r))) (Rules grp)));
          out = (if main = []
                 then dedup (filter (\<lambda>t. t \<noteq> [])
                        (map (\<lambda>l. TrimSpace (TrimPrefix (ToLower l) ''*.'')) (group_Domains grp)))
                 else main)
      in sort_strings out)"

end
