(* ===== verification/Routing_Normalize.thy ===== *)
theory Routing_Normalize
  imports Routing_Model
begin

text \<open>
  What normalisation guarantees: the shape of every normalised selector, and that normalising a
  normalised group changes nothing but the text of the stored lines. The lemmas on one kind of
  selector come first; \<open>normalizeRule_iff\<close> says what the whole rule function computes, field
  by field.
\<close>


section \<open>Lines\<close>

lemma RemoveChar_idem [simp]: "RemoveChar c (RemoveChar c s) = RemoveChar c s"
  by (simp add: RemoveChar_def)

lemma activeSelectorValue_RemoveChar [simp]:
  "activeSelectorValue (RemoveChar (CHR 0x0D) l) = activeSelectorValue l"
  by (simp add: activeSelectorValue_def)

lemma selectorValuesFromRaw_normalizeRawLines [simp]:
  "selectorValuesFromRaw (normalizeRawLines ls) = selectorValuesFromRaw ls"
  by (induction ls) (auto simp: selectorValuesFromRaw_def normalizeRawLines_def List.map_filter_def)

lemma selectorValuesFromRaw_Nil [simp]: "selectorValuesFromRaw [] = []"
  by (simp add: selectorValuesFromRaw_def List.map_filter_def)

lemma normalizeRawLines_Nil_iff [simp]: "normalizeRawLines ls = [] \<longleftrightarrow> ls = []"
  by (simp add: normalizeRawLines_def)

lemma TrimSpace_RemoveChar_Nil: "TrimSpace (RemoveChar (CHR 0x0D) l) = [] \<longleftrightarrow> TrimSpace l = []"
proof -
  have "is_space (CHR 0x0D)" by code_simp
  then show ?thesis by (auto simp: TrimSpace_Nil_iff RemoveChar_def list_all_iff)
qed

lemma or_lines_simps [simp]: "or_lines [] alt = alt" "ls \<noteq> [] \<Longrightarrow> or_lines ls alt = ls" "or_lines ls [] = ls"
  by (simp_all add: or_lines_def)

lemma cloneSelectorLines_Nil [simp]: "cloneSelectorLines [] = []"
  by (simp add: cloneSelectorLines_def)

lemma formatPortSelectorLines_Nil [simp]: "formatPortSelectorLines [] = []"
  by (simp add: formatPortSelectorLines_def List.map_filter_def)


section \<open>One kind of selector\<close>

lemmas normalize_defs =
  normalizeCIDRs_def normalizeInterfaces_def normalizeMACs_def normalizePorts_def normalizeASNs_def
  normalizeDomains_def

lemma normalize_Nil [simp]:
  "normalizeInterfaces [] = Inr []" "normalizeCIDRs [] l = Inr []" "normalizeMACs [] = Inr []"
  "normalizePorts [] = Inr []" "normalizeASNs [] = Inr []" "normalizeDomains [] w = Inr []"
  by (simp_all add: normalize_defs)

lemma port_protocol_canonical: "port_protocol p \<Longrightarrow> ToLower (TrimSpace p) = p \<and> p \<noteq> []"
proof -
  assume "port_protocol p"
  then have "p \<in> set [''tcp'', ''udp'', ''both'']" by (auto simp: port_protocol_def)
  moreover have "list_all (\<lambda>p. ToLower (TrimSpace p) = p \<and> p \<noteq> []) [''tcp'', ''udp'', ''both'']"
    by code_simp
  ultimately show ?thesis by (auto simp: list_all_iff)
qed

definition port_ok :: "port_range \<Rightarrow> bool" where
  "port_ok p \<longleftrightarrow> port_protocol (Protocol p) \<and> 1 \<le> Start p \<and> Start p \<le> End p \<and> End p \<le> 65535"

lemma canon_port_Some: "canon_port e = Inr (Some p) \<Longrightarrow> port_ok p"
  by (auto simp: canon_port_def port_ok_def Let_def split: if_splits)

lemma canon_port_fixed: "port_ok p \<Longrightarrow> canon_port p = Inr (Some p)"
  using port_protocol_canonical [of "Protocol p"]
  by (auto simp: canon_port_def port_ok_def Let_def)

lemma canon_port_not_None: "canon_port e \<noteq> Inr None"
  by (simp add: canon_port_def Let_def)

lemma normalizePorts_ok:
  assumes "normalizePorts xs = Inr ys"
  shows "list_all port_ok ys" and "distinct ys" and "xs \<noteq> [] \<Longrightarrow> ys \<noteq> []"
  using norm_loop_props [OF assms [unfolded normalizePorts_def]]
    norm_loop_nonempty [OF assms [unfolded normalizePorts_def]] canon_port_not_None
  by (auto simp: list_all_iff dest: canon_port_Some)

lemma normalizePorts_idem: "normalizePorts xs = Inr ys \<Longrightarrow> normalizePorts ys = Inr ys"
  using normalizePorts_ok [of xs ys] norm_loop_fixed [of ys canon_port "[]"]
  by (simp add: normalizePorts_def list_all_iff canon_port_fixed)

definition asn_ok :: "string \<Rightarrow> bool" where
  "asn_ok s \<longleftrightarrow> (\<exists>v > 0. s = ''AS'' @ Itoa v)"

definition domain_ok :: "bool \<Rightarrow> string \<Rightarrow> bool" where
  "domain_ok wildcard d \<longleftrightarrow> (\<exists>b. domain_base_ok b \<and> d = (if wildcard then ''*.'' @ b else b))"

lemma canon_domain_ok: "canon_domain w d = Inr (Some t) \<Longrightarrow> domain_ok w t"
proof -
  let ?u = "ToLower (TrimSpace d)"
  assume t: "canon_domain w d = Inr (Some t)"
  then have v: "ValidateDomain ?u = None" by (auto simp: canon_domain_def Let_def split: if_splits option.splits)
  have "TrimSpace (ToLower ?u) = ?u" by (simp add: ToLower_TrimSpace)
  with v have ok: "domain_base_ok (TrimPrefix ?u ''*.'')" by (simp add: ValidateDomain_None)
  from t have t': "t = (if w then (if HasPrefix ?u ''*.'' then ?u else ''*.'' @ ?u)
      else TrimPrefix ?u ''*.'')"
    using v by (auto simp: canon_domain_def Let_def TrimPrefix_no split: if_splits option.splits)
  show ?thesis
  proof (cases "HasPrefix ?u ''*.''")
    case True
    then show ?thesis using ok t' HasPrefix_TrimPrefix [OF True]
      by (auto simp: domain_ok_def)
  next
    case False
    then show ?thesis using ok t' by (auto simp: domain_ok_def TrimPrefix_no)
  qed
qed

lemma canon_iface_ok: "canon_iface e = Inr (Some t) \<Longrightarrow> ifaceNamePattern t"
  by (auto simp: canon_iface_def Let_def split: if_splits)

lemma canon_asn_ok: "canon_asn e = Inr (Some t) \<Longrightarrow> asn_ok t"
  by (force simp: canon_asn_def asn_ok_def Let_def split: if_splits option.splits)

lemma norm_loop_all:
  assumes "norm_loop f [] xs = Inr ys" "\<And>e t. f e = Inr (Some t) \<Longrightarrow> P t"
  shows "distinct ys \<and> list_all P ys"
  using norm_loop_props(1,2) [OF assms(1)] assms(2) by (auto simp: list_all_iff)

lemma normalize_string_ok:
  "normalizeInterfaces xs = Inr ys \<Longrightarrow> distinct ys \<and> list_all ifaceNamePattern ys"
  "normalizeASNs xs = Inr ys \<Longrightarrow> distinct ys \<and> list_all asn_ok ys"
  "normalizeDomains xs w = Inr ys \<Longrightarrow> distinct ys \<and> list_all (domain_ok w) ys"
  unfolding normalize_defs
  by (erule norm_loop_all, erule canon_iface_ok canon_asn_ok canon_domain_ok)+


section \<open>A whole rule\<close>

definition rule_raw :: "routing_rule \<Rightarrow> rule_raw_selectors" where
  "rule_raw raw = hydrateRuleRawSelectorsFromRule (normalizeRuleRawSelectors (RawSelectors raw)) raw"

definition selectors_from :: "rule_raw_selectors \<Rightarrow> routing_rule \<Rightarrow> routing_rule \<Rightarrow> bool" where
  "selectors_from rs raw r \<longleftrightarrow>
     normalizeInterfaces (selectorValuesFromRaw (raw_SourceInterfaces rs)) = Inr (SourceInterfaces r) \<and>
     normalizeCIDRs (selectorValuesFromRaw (raw_SourceCIDRs rs)) ''source'' = Inr (SourceCIDRs r) \<and>
     normalizeCIDRs (selectorValuesFromRaw (raw_ExcludedSourceCIDRs rs)) ''excluded source'' = Inr (ExcludedSourceCIDRs r) \<and>
     normalizeMACs (selectorValuesFromRaw (raw_SourceMACs rs)) = Inr (SourceMACs r) \<and>
     normalizeCIDRs (selectorValuesFromRaw (raw_DestinationCIDRs rs)) ''destination'' = Inr (DestinationCIDRs r) \<and>
     normalizeCIDRs (selectorValuesFromRaw (raw_ExcludedDestinationCIDRs rs)) ''excluded destination''
       = Inr (ExcludedDestinationCIDRs r) \<and>
     rule_ports (DestinationPorts raw) (raw_DestinationPorts rs) = Inr (DestinationPorts r) \<and>
     rule_ports (ExcludedDestinationPorts raw) (raw_ExcludedDestinationPorts rs) = Inr (ExcludedDestinationPorts r) \<and>
     normalizeASNs (selectorValuesFromRaw (raw_DestinationASNs rs)) = Inr (DestinationASNs r) \<and>
     normalizeASNs (selectorValuesFromRaw (raw_ExcludedDestinationASNs rs)) = Inr (ExcludedDestinationASNs r) \<and>
     normalizeDomains (selectorValuesFromRaw (raw_Domains rs)) False = Inr (Domains r) \<and>
     normalizeDomains (selectorValuesFromRaw (raw_WildcardDomains rs)) True = Inr (WildcardDomains r)"

definition rule_name_of :: "routing_rule \<Rightarrow> nat \<Rightarrow> string" where
  "rule_name_of raw idx =
     (if TrimSpace (rule_Name raw) = [] then ''Rule '' @ Itoa (int idx + 1) else TrimSpace (rule_Name raw))"

lemma finalize_RawSelectors [simp]:
  "finalizeRuleRawSelectors rs (r\<lparr>RawSelectors := x\<rparr>) = finalizeRuleRawSelectors rs r"
  "ruleHasSelectors (r\<lparr>RawSelectors := x\<rparr>) = ruleHasSelectors r"
  by (simp_all add: finalizeRuleRawSelectors_def hydrateRuleRawSelectorsFromRule_def ruleHasSelectors_def)

lemma finalize_step:
  "(if \<not> ruleHasSelectors R \<and> \<not> hasAnyLine (finalizeRuleRawSelectors rs R) then Inl e
    else Inr (R\<lparr>RawSelectors := Some (finalizeRuleRawSelectors rs R)\<rparr>)) = Inr r \<longleftrightarrow>
   r\<lparr>RawSelectors := RawSelectors R\<rparr> = R \<and> RawSelectors r = Some (finalizeRuleRawSelectors rs r) \<and>
   (ruleHasSelectors r \<or> hasAnyLine (finalizeRuleRawSelectors rs r))"
  (is "?L \<longleftrightarrow> ?R")
proof
  assume ?L
  then have "r = R\<lparr>RawSelectors := Some (finalizeRuleRawSelectors rs R)\<rparr>"
    "ruleHasSelectors R \<or> hasAnyLine (finalizeRuleRawSelectors rs R)"
    by (auto split: if_splits)
  then show ?R by simp
next
  assume r: ?R
  then have "finalizeRuleRawSelectors rs r = finalizeRuleRawSelectors rs R" "ruleHasSelectors r = ruleHasSelectors R"
    by (metis finalize_RawSelectors)+
  moreover have "R\<lparr>RawSelectors := RawSelectors r\<rparr> = r"
    using r by (metis (no_types, lifting) routing_rule.surjective routing_rule.update_convs(16)
      routing_rule.select_convs)
  ultimately show ?L using r by auto
qed

lemma normalizeRule_iff:
  "normalizeRule raw idx = Inr r \<longleftrightarrow>
     selectors_from (rule_raw raw) raw r \<and> rule_ID r = rule_ID raw \<and> rule_Name r = rule_name_of raw idx \<and>
     ExcludeMulticast r = Some (RuleExcludeMulticastEnabled raw) \<and>
     RawSelectors r = Some (finalizeRuleRawSelectors (rule_raw raw) r) \<and>
     (ruleHasSelectors r \<or> hasAnyLine (finalizeRuleRawSelectors (rule_raw raw) r))"
  (is "?L \<longleftrightarrow> ?R")
proof
  assume ?L
  then show ?R
    unfolding normalizeRule_def Let_def bindE_Inr rule_raw_def [symmetric] finalize_step
    by (elim exE conjE) (cases r, simp add: selectors_from_def rule_name_of_def RuleExcludeMulticastEnabled_def)
next
  assume r: ?R
  have eq: "\<lparr>rule_ID = rule_ID raw,
      rule_Name = (if TrimSpace (rule_Name raw) = [] then ''Rule '' @ Itoa (int idx + 1) else TrimSpace (rule_Name raw)),
      SourceInterfaces = SourceInterfaces r, SourceCIDRs = SourceCIDRs r,
      ExcludedSourceCIDRs = ExcludedSourceCIDRs r, SourceMACs = SourceMACs r, DestinationCIDRs = DestinationCIDRs r,
      ExcludedDestinationCIDRs = ExcludedDestinationCIDRs r, DestinationPorts = DestinationPorts r,
      ExcludedDestinationPorts = ExcludedDestinationPorts r, DestinationASNs = DestinationASNs r,
      ExcludedDestinationASNs = ExcludedDestinationASNs r,
      ExcludeMulticast = Some (case ExcludeMulticast raw of None \<Rightarrow> True | Some b \<Rightarrow> b),
      Domains = Domains r, WildcardDomains = WildcardDomains r, RawSelectors = None\<rparr> = r\<lparr>RawSelectors := None\<rparr>"
    using r by (cases r) (simp add: rule_name_of_def RuleExcludeMulticastEnabled_def)
  have "r\<lparr>RawSelectors := Some (finalizeRuleRawSelectors (rule_raw raw) r)\<rparr> = r"
    using r by (cases r) simp
  with r show ?L
    unfolding normalizeRule_def Let_def rule_raw_def [symmetric] selectors_from_def
    by (simp only: bindE_simps eq finalize_RawSelectors) simp
qed


section \<open>Normalising again\<close>

text \<open>A list of lines that is empty gives no selectors, so there is nothing to fill it with.\<close>

definition raw_covers :: "rule_raw_selectors \<Rightarrow> routing_rule \<Rightarrow> bool" where
  "raw_covers rs r \<longleftrightarrow>
     (raw_SourceInterfaces rs = [] \<longrightarrow> SourceInterfaces r = []) \<and> (raw_SourceCIDRs rs = [] \<longrightarrow> SourceCIDRs r = []) \<and>
     (raw_ExcludedSourceCIDRs rs = [] \<longrightarrow> ExcludedSourceCIDRs r = []) \<and> (raw_SourceMACs rs = [] \<longrightarrow> SourceMACs r = []) \<and>
     (raw_DestinationCIDRs rs = [] \<longrightarrow> DestinationCIDRs r = []) \<and>
     (raw_ExcludedDestinationCIDRs rs = [] \<longrightarrow> ExcludedDestinationCIDRs r = []) \<and>
     (raw_DestinationPorts rs = [] \<longrightarrow> DestinationPorts r = []) \<and>
     (raw_ExcludedDestinationPorts rs = [] \<longrightarrow> ExcludedDestinationPorts r = []) \<and>
     (raw_DestinationASNs rs = [] \<longrightarrow> DestinationASNs r = []) \<and>
     (raw_ExcludedDestinationASNs rs = [] \<longrightarrow> ExcludedDestinationASNs r = []) \<and>
     (raw_Domains rs = [] \<longrightarrow> Domains r = []) \<and> (raw_WildcardDomains rs = [] \<longrightarrow> WildcardDomains r = [])"

lemma or_lines_cover:
  "(ls = [] \<longrightarrow> xs = []) \<Longrightarrow> or_lines ls (cloneSelectorLines xs) = ls"
  "(ls = [] \<longrightarrow> ps = []) \<Longrightarrow> or_lines ls (formatPortSelectorLines ps) = ls"
  by (cases "ls = []"; simp)+

lemma hydrate_covered: "raw_covers rs r \<Longrightarrow> hydrateRuleRawSelectorsFromRule rs r = rs"
  by (simp add: raw_covers_def hydrateRuleRawSelectorsFromRule_def or_lines_cover)

lemma format_port_canon: "canon_port p = Inr (Some q) \<Longrightarrow> format_port p \<noteq> None"
  by (auto simp: canon_port_def format_port_def port_protocol_def Let_def ToLower_def split: if_splits)

lemma rule_ports_Nil:
  assumes "rule_ports ps (or_lines ls (formatPortSelectorLines ps)) = Inr qs"
    and "or_lines ls (formatPortSelectorLines ps) = []"
  shows "qs = []"
proof (cases "ps = []")
  case True
  with assms show ?thesis by (simp add: rule_ports_def)
next
  case False
  with assms have n: "normalizePorts ps = Inr qs" by (simp add: rule_ports_def)
  have f: "formatPortSelectorLines ps = []" using assms(2) by (simp add: or_lines_def split: if_splits)
  obtain p ps' where p: "ps = p # ps'" using False by (cases ps) auto
  have "\<exists>r. canon_port p = Inr r"
    using norm_loop_props(3) [OF n [unfolded normalizePorts_def]] p by simp
  then obtain q where "canon_port p = Inr (Some q)" using canon_port_not_None [of p] by (metis not_None_eq)
  then have "format_port p \<noteq> None" by (rule format_port_canon)
  with f p show ?thesis by (auto simp: formatPortSelectorLines_def List.map_filter_def)
qed

lemma selectors_covered: "selectors_from (rule_raw raw) raw r \<Longrightarrow> raw_covers (rule_raw raw) r"
  unfolding raw_covers_def
  by (intro conjI impI; simp add: selectors_from_def rule_raw_def hydrateRuleRawSelectorsFromRule_def)
    (metis rule_ports_Nil)+

lemma rule_ports_again:
  assumes "rule_ports ps ls = Inr qs"
  shows "rule_ports qs (normalizeRawLines ls) = Inr qs"
proof (cases "qs = []")
  case True
  with assms normalizePorts_ok(3) [of ps qs] have "ps = []"
    by (cases "ps = []") (auto simp: rule_ports_def)
  with assms True show ?thesis by (simp add: rule_ports_def)
next
  case False
  from assms obtain xs where "normalizePorts xs = Inr qs" by (auto simp: rule_ports_def bindE_Inr)
  then show ?thesis using False by (simp add: rule_ports_def normalizePorts_idem)
qed

lemma raw_covers_map: "raw_covers rs r \<Longrightarrow> raw_covers (map_raw normalizeRawLines rs) r"
  by (simp add: raw_covers_def map_raw_def)

lemma hasAnyLine_map_raw [simp]: "hasAnyLine (map_raw normalizeRawLines rs) = hasAnyLine rs"
  by (simp add: hasAnyLine_def raw_lists_def map_raw_def normalizeRawLines_def list_ex_iff
    TrimSpace_RemoveChar_Nil)

lemma selectors_again:
  "selectors_from rs raw r \<Longrightarrow> selectors_from (map_raw normalizeRawLines rs) r r"
  by (auto simp: selectors_from_def map_raw_def intro: rule_ports_again)

lemma all_digits_last: "all_digits s \<Longrightarrow> \<not> is_space (last s)"
proof -
  assume "all_digits s"
  then have "is_digit (last s)" by (simp add: all_digits_def list_all_iff)
  then show ?thesis by (auto simp: is_digit_def is_space_def)
qed

lemma Itoa_not_space: "\<not> is_space (last (Itoa i)) \<and> Itoa i \<noteq> []"
  using show_base_all_digits [of "nat (- i)"] show_base_all_digits [of "nat i"]
  by (auto simp: Itoa_def all_digits_last) (auto simp: all_digits_def)

lemma rule_name_fixed: "TrimSpace (rule_name_of raw idx) = rule_name_of raw idx \<and> rule_name_of raw idx \<noteq> []"
proof (cases "TrimSpace (rule_Name raw) = []")
  case True
  have "\<not> is_space (CHR ''R'')" by code_simp
  then have "trimmed (''Rule '' @ Itoa (int idx + 1))"
    using Itoa_not_space [of "int idx + 1"] by (simp add: trimmed_def)
  with True show ?thesis unfolding rule_name_of_def by (simp del: append_Cons add: TrimSpace_id)
qed (simp add: rule_name_of_def)

lemma normalizeRule_again:
  assumes "normalizeRule raw idx = Inr r"
  shows "\<exists>rn. normalizeRule r idx' = Inr (r\<lparr>RawSelectors := Some rn\<rparr>)"
proof -
  note n = assms [unfolded normalizeRule_iff]
  let ?rs = "rule_raw raw"
  let ?rn = "map_raw normalizeRawLines ?rs"
  have cov: "raw_covers ?rs r" using n selectors_covered by blast
  then have raw: "RawSelectors r = Some ?rs" using n
    by (simp add: finalizeRuleRawSelectors_def hydrate_covered)
  have again: "rule_raw r = ?rn"
    by (simp add: rule_raw_def [of r] raw normalizeRuleRawSelectors_def hydrate_covered raw_covers_map cov)
  have fin: "finalizeRuleRawSelectors ?rn r = ?rn"
    by (simp add: finalizeRuleRawSelectors_def hydrate_covered raw_covers_map cov)
  have sel: "selectors_from ?rn r (r\<lparr>RawSelectors := Some ?rn\<rparr>)"
    using selectors_again [of ?rs raw r] n by (simp add: selectors_from_def)
  have "rule_name_of r idx' = rule_Name r"
    using n rule_name_fixed [of raw idx] by (simp add: rule_name_of_def [of r])
  moreover have "ruleHasSelectors r \<or> hasAnyLine ?rn"
    using n cov by (simp add: finalizeRuleRawSelectors_def hydrate_covered)
  ultimately have "normalizeRule r idx' = Inr (r\<lparr>RawSelectors := Some ?rn\<rparr>)"
    unfolding normalizeRule_iff again using sel fin n by (simp add: RuleExcludeMulticastEnabled_def)
  then show ?thesis ..
qed

definition forget_raw :: "routing_rule \<Rightarrow> routing_rule" where
  "forget_raw r = r\<lparr>RawSelectors := None\<rparr>"

lemma normalize_from_Inr:
  "normalize_from k rs = Inr rs' \<longleftrightarrow>
     length rs' = length rs \<and> (\<forall>i < length rs. normalizeRule (rs ! i) (k + i) = Inr (rs' ! i))"
proof (induction rs arbitrary: k rs')
  case (Cons r rs)
  note IH = Cons.IH
  show ?case
  proof (cases rs')
    case (Cons a as)
    have "normalize_from k (r # rs) = Inr rs' \<longleftrightarrow> normalizeRule r k = Inr a \<and> normalize_from (Suc k) rs = Inr as"
      by (auto simp: Cons bindE_Inr)
    also have "\<dots> \<longleftrightarrow> length rs' = length (r # rs) \<and>
        (\<forall>i < length (r # rs). normalizeRule ((r # rs) ! i) (k + i) = Inr (rs' ! i))"
      using IH [of "Suc k" as] by (auto simp: Cons All_less_Suc2)
    finally show ?thesis .
  qed (auto simp: bindE_Inr)
qed auto

lemma normalize_from_again:
  assumes "normalize_from k rs = Inr rs'"
  shows "\<exists>rs''. normalize_from k' rs' = Inr rs'' \<and> map forget_raw rs'' = map forget_raw rs'"
proof -
  have "\<exists>r''. normalizeRule (rs' ! i) (k' + i) = Inr r'' \<and> forget_raw r'' = forget_raw (rs' ! i)"
    if "i < length rs'" for i
  proof -
    have "normalizeRule (rs ! i) (k + i) = Inr (rs' ! i)" using assms that by (simp add: normalize_from_Inr)
    from normalizeRule_again [OF this, of "k' + i"] show ?thesis by (auto simp: forget_raw_def)
  qed
  then obtain f where f: "\<And>i. i < length rs' \<Longrightarrow> normalizeRule (rs' ! i) (k' + i) = Inr (f i) \<and>
      forget_raw (f i) = forget_raw (rs' ! i)"
    by metis
  then have "normalize_from k' rs' = Inr (map f [0..<length rs'])"
    "map forget_raw (map f [0..<length rs']) = map forget_raw rs'"
    by (auto simp: normalize_from_Inr intro: nth_equalityI)
  then show ?thesis by blast
qed


section \<open>Ports as lines\<close>

lemma ToLower_digits: "all_digits s \<Longrightarrow> ToLower s = s"
  by (auto simp: ToLower_def all_digits_def list_all_iff is_digit_def is_upper_def
    intro!: map_idI lower_char_id)

lemma FieldsFunc_two:
  assumes "p c" "w \<noteq> []" "v \<noteq> []" "list_all (\<lambda>x. \<not> p x) w" "list_all (\<lambda>x. \<not> p x) v"
  shows "FieldsFunc p (w @ c # v) = [w, v]"
  using assms by (simp add: FieldsFunc_def split_by_sep split_by_none)

lemma format_port_line:
  assumes "port_ok p"
  shows "format_port p =
    Some (Protocol p @ '':'' @ (if End p > Start p then Itoa (Start p) @ ''-'' @ Itoa (End p) else Itoa (Start p)))"
  using assms port_protocol_canonical [of "Protocol p"] by (auto simp: format_port_def port_ok_def)

lemma digits_no: "all_digits s \<Longrightarrow> c \<in> set s \<Longrightarrow> c \<noteq> CHR '':'' \<and> c \<noteq> CHR ''/'' \<and> c \<noteq> CHR ''-''"
  by (auto simp: all_digits_def list_all_iff is_digit_def)

lemma protocol_no: "port_protocol p \<Longrightarrow> list_all (\<lambda>c. c \<noteq> CHR '':'' \<and> c \<noteq> CHR ''/'') p"
  by (auto simp: port_protocol_def)

lemma parse_port_line:
  assumes ok: "port_ok p"
  defines "rng \<equiv> (if End p > Start p then Itoa (Start p) @ ''-'' @ Itoa (End p) else Itoa (Start p))"
  shows "parse_port_selector (Protocol p @ '':'' @ rng) = Inr (Some p)"
proof -
  have proto: "port_protocol (Protocol p)" "ToLower (Protocol p) = Protocol p" "TrimSpace (Protocol p) = Protocol p"
    "Protocol p \<noteq> []" "\<not> is_space (hd (Protocol p))"
  proof -
    show pp: "port_protocol (Protocol p)" using ok by (simp add: port_ok_def)
    have "list_all (\<lambda>p. ToLower p = p \<and> TrimSpace p = p \<and> p \<noteq> [] \<and> \<not> is_space (hd p)) [''tcp'', ''udp'', ''both'']"
      by code_simp
    then show "ToLower (Protocol p) = Protocol p" "TrimSpace (Protocol p) = Protocol p"
      "Protocol p \<noteq> []" "\<not> is_space (hd (Protocol p))"
      using pp unfolding port_protocol_def list_all_iff by (metis list.set_intros)+
  qed
  have d: "all_digits (Itoa (Start p))" "all_digits (Itoa (End p))"
    using ok by (auto simp: port_ok_def intro: Itoa_nonneg_digits)
  have dn: "Itoa (Start p) \<noteq> []" "Itoa (End p) \<noteq> []" using d by (auto simp: all_digits_def)
  have at: "Atoi (Itoa (Start p)) = Some (Start p)" "Atoi (Itoa (End p)) = Some (End p)"
    using ok by (auto simp: port_ok_def int64_range_def intro!: Atoi_Itoa)
  have rng: "rng \<noteq> []" "\<not> is_space (last rng)" "\<not> is_space (hd rng)" "ToLower rng = rng"
    "list_all (\<lambda>c. c \<noteq> CHR '':'' \<and> c \<noteq> CHR ''/'') rng"
  proof -
    have hyphen: "ToLower (CHR ''-'' # s) = CHR ''-'' # ToLower s" for s
    proof -
      have "lower_char (CHR ''-'') = CHR ''-''" by code_simp
      then show ?thesis by (simp add: ToLower_def)
    qed
    have h: "\<not> is_space (hd (Itoa (Start p)))"
      using d(1) by (cases "Itoa (Start p)") (auto simp: all_digits_def is_digit_def is_space_def)
    show "rng \<noteq> []" "\<not> is_space (last rng)" "\<not> is_space (hd rng)" "ToLower rng = rng"
      "list_all (\<lambda>c. c \<noteq> CHR '':'' \<and> c \<noteq> CHR ''/'') rng"
      using dn h hyphen all_digits_last [OF d(1)] all_digits_last [OF d(2)] ToLower_digits [OF d(1)]
        ToLower_digits [OF d(2)] digits_no [OF d(1)] digits_no [OF d(2)]
      unfolding rng_def ToLower_append by (auto simp: list_all_iff)
  qed
  have trim: "TrimSpace rng = rng" using rng by (intro TrimSpace_id) (simp add: trimmed_def)
  let ?s = "Protocol p @ '':'' @ rng"
  have colon: "ToLower '':'' = '':''" by code_simp
  have "TrimSpace ?s = ?s" using proto rng by (intro TrimSpace_id) (simp add: trimmed_def)
  moreover have "ToLower ?s = ?s" using proto(2) rng(4) colon by (simp add: ToLower_def)
  moreover have "FieldsFunc (\<lambda>c. c = CHR '':'' \<or> c = CHR ''/'') ?s = [Protocol p, rng]"
    using proto rng protocol_no [OF proto(1)]
    by (simp add: FieldsFunc_two [where c = "CHR '':''", simplified])
  moreover have split: "End p > Start p \<Longrightarrow> before_char (CHR ''-'') rng = Itoa (Start p) \<and>
      after_char (CHR ''-'') rng = Itoa (End p) \<and> CHR ''-'' \<in> set rng"
    using digits_no [OF d(1)] unfolding rng_def
    by (auto simp: before_char_def after_char_def takeWhile_append2 dropWhile_append3)
  moreover have "\<not> End p > Start p \<Longrightarrow> CHR ''-'' \<notin> set (Itoa (Start p)) \<and> End p = Start p \<and> rng = Itoa (Start p)"
    using digits_no [OF d(1)] ok unfolding rng_def by (auto simp: port_ok_def)
  ultimately show ?thesis
    using proto trim at all_digits_trimmed [OF d(1)] all_digits_trimmed [OF d(2)]
    by (cases "End p > Start p") (simp_all add: parse_port_selector_def Let_def)
qed

lemma ports_lines_roundtrip:
  "list_all port_ok ps \<Longrightarrow> parsePortSelectorStrings (formatPortSelectorLines ps) = Inr ps"
  by (induction ps)
    (simp_all add: formatPortSelectorLines_def List.map_filter_def format_port_line parse_port_line
      del: append_Cons)


section \<open>Properties\<close>

text \<open>C10: what \<open>NormalizeAndValidate\<close> returns is well formed: a trimmed group name of the allowed
  shape, an egress name the VPN layer accepts, at least one rule; in every rule the interface names
  match the interface pattern, the ports are in range with a known protocol, the AS numbers are
  positive, exact domains are bare and wildcard domains start with \<^verbatim>\<open>*.\<close>, no selector occurs
  twice, and every rule has a selector or a stored line.\<close>

definition rule_ok :: "routing_rule \<Rightarrow> bool" where
  "rule_ok r \<longleftrightarrow> rule_Name r \<noteq> [] \<and> list_all ifaceNamePattern (SourceInterfaces r) \<and>
     list_all port_ok (DestinationPorts r) \<and> list_all port_ok (ExcludedDestinationPorts r) \<and>
     list_all asn_ok (DestinationASNs r) \<and> list_all asn_ok (ExcludedDestinationASNs r) \<and>
     list_all (domain_ok False) (Domains r) \<and> list_all (domain_ok True) (WildcardDomains r) \<and>
     distinct (SourceInterfaces r) \<and> distinct (DestinationPorts r) \<and> distinct (ExcludedDestinationPorts r) \<and>
     distinct (DestinationASNs r) \<and> distinct (ExcludedDestinationASNs r) \<and> distinct (Domains r) \<and>
     distinct (WildcardDomains r) \<and> ExcludeMulticast r \<noteq> None \<and>
     (ruleHasSelectors r \<or> (\<exists>raw. RawSelectors r = Some raw \<and> hasAnyLine raw))"

lemma rule_ports_ok: "rule_ports ps ls = Inr qs \<Longrightarrow> list_all port_ok qs \<and> distinct qs"
  by (auto simp: rule_ports_def bindE_Inr dest: normalizePorts_ok)

lemma normalizeRule_ok: "normalizeRule raw idx = Inr r \<Longrightarrow> rule_ok r"
proof -
  assume "normalizeRule raw idx = Inr r"
  note n = this [unfolded normalizeRule_iff selectors_from_def]
  have "rule_Name r \<noteq> []" using n rule_name_fixed by simp
  moreover have "ruleHasSelectors r \<or> (\<exists>raw. RawSelectors r = Some raw \<and> hasAnyLine raw)" using n by auto
  ultimately show ?thesis
    unfolding rule_ok_def using n by (auto dest: normalize_string_ok rule_ports_ok)
qed


definition sample_group :: domain_group where
  "sample_group = \<lparr>group_ID = 7, group_Name = '' tv '', EgressVPN = ''nl'',
     Rules = [empty_rule\<lparr>SourceInterfaces := [''BR0'', ''br0 ''],
       DestinationPorts := [\<lparr>Protocol = ''TCP'', Start = 443, End = 0\<rparr>],
       Domains := [''*.Example.com # main'']\<rparr>],
     group_Domains = [], CreatedAt = 0, UpdatedAt = 0\<rparr>"

lemma sample_group_normalized:
  "\<exists>g'. NormalizeAndValidate sample_group = Inr g' \<and> group_Name g' = ''tv'' \<and>
     map Domains (Rules g') = [[''example.com'']] \<and> map SourceInterfaces (Rules g') = [[''br0'']] \<and>
     map DestinationPorts (Rules g') = [[\<lparr>Protocol = ''tcp'', Start = 443, End = 443\<rparr>]]"
proof -
  have "(case NormalizeAndValidate sample_group of
      Inl e \<Rightarrow> False
    | Inr g' \<Rightarrow> group_Name g' = ''tv'' \<and>
        map Domains (Rules g') = [[''example.com'']] \<and> map SourceInterfaces (Rules g') = [[''br0'']] \<and>
        map DestinationPorts (Rules g') = [[\<lparr>Protocol = ''tcp'', Start = 443, End = 443\<rparr>]])"
    by code_simp
  then show ?thesis by (cases "NormalizeAndValidate sample_group") simp_all
qed


text \<open>Normalising a normalised group succeeds and changes none of its fields, apart from the text
  of the stored selector lines: names, selectors, their order, ports and flags stay the same. Groups
  are normalised again whenever they are read, edited and written back, or restored from a backup.\<close>

theorem NormalizeAndValidate_stable:
  assumes "NormalizeAndValidate g = Inr g'"
  shows "\<exists>g''. NormalizeAndValidate g' = Inr g'' \<and>
    g''\<lparr>Rules := map forget_raw (Rules g'')\<rparr> = g'\<lparr>Rules := map forget_raw (Rules g')\<rparr>"
proof -
  define rules where "rules = (if Rules g = [] \<and> group_Domains g \<noteq> []
    then [empty_rule\<lparr>Domains := group_Domains g\<rparr>] else Rules g)"
  from assms [unfolded NormalizeAndValidate_def Let_def, folded rules_def]
  have g': "groupNamePattern (group_Name g')" "TrimSpace (group_Name g') = group_Name g'"
    "ValidateName (EgressVPN g') = None" "TrimSpace (EgressVPN g') = EgressVPN g'"
    "rules \<noteq> []" "normalizeRules rules = Inr (Rules g')" "group_Domains g' = legacyDomainsFromRules (Rules g')"
    "group_Name g' \<noteq> []"
    by (auto simp: bindE_Inr split: if_splits option.splits)
  from g'(6) obtain rs where rs: "normalizeRules (Rules g') = Inr rs" "map forget_raw rs = map forget_raw (Rules g')"
    unfolding normalizeRules_def by (blast dest: normalize_from_again [where k' = 0])
  have ne: "Rules g' \<noteq> []"
    using g'(5,6) by (auto simp: normalizeRules_def normalize_from_Inr)
  have "map (\<lambda>r. Domains r @ WildcardDomains r) rs = map (\<lambda>r. Domains r @ WildcardDomains r) (Rules g')"
    using arg_cong [OF rs(2), of "map (\<lambda>r. Domains r @ WildcardDomains r)"]
    by (simp add: forget_raw_def comp_def)
  then have "legacyDomainsFromRules rs = group_Domains g'"
    by (simp add: legacyDomainsFromRules_def g'(7))
  then have "NormalizeAndValidate g' = Inr (g'\<lparr>Rules := rs\<rparr>)"
    using g' rs(1) ne by (simp add: NormalizeAndValidate_def Let_def)
  then show ?thesis using rs(2) by auto
qed

theorem NormalizeAndValidate_stable_witness:
  "\<exists>g' g''. NormalizeAndValidate sample_group = Inr g' \<and> NormalizeAndValidate g' = Inr g'' \<and>
     map Domains (Rules g') = [[''example.com'']]"
proof -
  obtain g' where g': "NormalizeAndValidate sample_group = Inr g'" "map Domains (Rules g') = [[''example.com'']]"
    using sample_group_normalized by (elim exE conjE)
  from NormalizeAndValidate_stable [OF g'(1)] obtain g'' where "NormalizeAndValidate g' = Inr g''" by (elim exE conjE)
  with g' show ?thesis by (intro exI [of _ g'] exI [of _ g''] conjI)
qed

text \<open>The lines that \<open>formatPortSelectorLines\<close> writes for normalised ports parse back to exactly
  these ports, in order.\<close>

theorem port_lines_roundtrip:
  assumes "normalizePorts raw = Inr ps"
  shows "parsePortSelectorStrings (formatPortSelectorLines ps) = Inr ps"
  using normalizePorts_ok(1) [OF assms] by (rule ports_lines_roundtrip)

theorem port_lines_roundtrip_witness:
  "parsePortSelectorStrings (formatPortSelectorLines [\<lparr>Protocol = ''tcp'', Start = 80, End = 90\<rparr>])
     = Inr [\<lparr>Protocol = ''tcp'', Start = 80, End = 90\<rparr>]"
proof -
  have "normalizePorts [\<lparr>Protocol = '' TCP'', Start = 80, End = 90\<rparr>] = Inr [\<lparr>Protocol = ''tcp'', Start = 80, End = 90\<rparr>]"
    by code_simp
  then show ?thesis by (rule port_lines_roundtrip)
qed

text \<open>An IPv4-mapped IPv6 block is turned into an IPv4 address with a prefix length above 32: the
  canonical form of \<^verbatim>\<open>::ffff:1.2.3.4/120\<close> is \<^verbatim>\<open>1.2.3.0/120\<close>, which the same function then
  rejects. So the canonical form is not always a valid selector.\<close>

theorem canonicalCIDROrIP_mapped:
  "canonicalCIDROrIP ''::ffff:1.2.3.4/120'' = Some ''1.2.3.0/120'' \<and> canonicalCIDROrIP ''1.2.3.0/120'' = None"
  by code_simp

end
