(* ===== verification/Set_Names.thy ===== *)
theory Set_Names
  imports Routing_Model
begin

text \<open>
  The names of the ipsets (\<^verbatim>\<open>internal/routing/model.go\<close>: \<^verbatim>\<open>RuleSetNames\<close>,
  \<^verbatim>\<open>compactSetName\<close>, \<^verbatim>\<open>normalizeSetBase\<close>; \<^verbatim>\<open>manager_sets.go\<close>: \<^verbatim>\<open>stagedSetName\<close>;
  \<^verbatim>\<open>ipset.go\<close>: \<^verbatim>\<open>validateIPSetName\<close>). The kernel limits a name to 31 bytes, so long names are
  shortened with a 32-bit FNV-1a hash. Shown: every derived name is accepted by the validation, a
  name determines the rule index and the kind of set, a staging name is never a live name; and two
  groups with the same normalised base share their names.
\<close>


section \<open>Definitions\<close>

definition setPrefix :: string where "setPrefix = ''svpn_''"

definition maxIPSetNameLen :: nat where "maxIPSetNameLen = 31"

text \<open>\<^verbatim>\<open>hash/fnv\<close>, 32-bit FNV-1a: exclusive or with the byte, then multiply, modulo \<open>2 ^ 32\<close>.\<close>

definition fnv32a :: "string \<Rightarrow> 32 word" where
  "fnv32a s = foldl (\<lambda>h c. (h XOR word_of_nat (code c)) * 16777619) 2166136261 s"

definition hash_text :: "string \<Rightarrow> string" where
  "hash_text seed = pad_zero 8 (show_hex (unat (fnv32a seed)))"

definition base_char :: "char \<Rightarrow> bool" where
  "base_char c \<longleftrightarrow> is_lower c \<or> is_digit c"

fun set_base_loop :: "bool \<Rightarrow> string \<Rightarrow> string" where
  "set_base_loop lastUnderscore [] = []"
| "set_base_loop lastUnderscore (r # rs) =
     (if base_char r then r # set_base_loop False rs
      else if \<not> lastUnderscore then CHR ''_'' # set_base_loop True rs
      else set_base_loop lastUnderscore rs)"

definition normalizeSetBase :: "string \<Rightarrow> string" where
  "normalizeSetBase groupName =
     (let input = ToLower (TrimSpace groupName) in
      if input = [] then ''group''
      else (let base = TrimChar (CHR ''_'') (set_base_loop False input) in
            if base = [] then ''group'' else base))"

definition compactSetName :: "string \<Rightarrow> string \<Rightarrow> string \<Rightarrow> string" where
  "compactSetName base sfx seed =
     (let name = setPrefix @ base @ ''_'' @ sfx in
      if length name \<le> maxIPSetNameLen then name
      else
        (let hash = hash_text seed;
             room = int maxIPSetNameLen - int (length setPrefix) - int (length sfx) - int (length hash) - 2;
             maxBase = (if room < 3 then 3 else room);
             shortBase = (if int (length base) > maxBase then take (nat maxBase) base else base)
         in setPrefix @ shortBase @ ''_'' @ hash @ ''_'' @ sfx))"

record rule_set_pair =
  SourceV4 :: string
  SourceV6 :: string
  ExcludedSourceV4 :: string
  ExcludedSourceV6 :: string
  DestinationV4 :: string
  DestinationV6 :: string
  ExcludedDestinationV4 :: string
  ExcludedDestinationV6 :: string

definition RuleSetNames :: "string \<Rightarrow> int \<Rightarrow> rule_set_pair" where
  "RuleSetNames groupName ruleIndex =
     (let base = normalizeSetBase groupName;
          i = (if ruleIndex < 0 then 0 else ruleIndex);
          seed = ToLower (groupName @ '':'' @ Itoa i);
          r = ''r'' @ Itoa (i + 1)
      in \<lparr>SourceV4 = compactSetName base (r @ ''s4'') (seed @ '':src4''),
          SourceV6 = compactSetName base (r @ ''s6'') (seed @ '':src6''),
          ExcludedSourceV4 = compactSetName base (r @ ''xs4'') (seed @ '':xsrc4''),
          ExcludedSourceV6 = compactSetName base (r @ ''xs6'') (seed @ '':xsrc6''),
          DestinationV4 = compactSetName base (r @ ''d4'') (seed @ '':dst4''),
          DestinationV6 = compactSetName base (r @ ''d6'') (seed @ '':dst6''),
          ExcludedDestinationV4 = compactSetName base (r @ ''xd4'') (seed @ '':xdst4''),
          ExcludedDestinationV6 = compactSetName base (r @ ''xd6'') (seed @ '':xdst6'')\<rparr>)"

definition GroupSetNames :: "string \<Rightarrow> string \<times> string" where
  "GroupSetNames groupName =
     (let rule = RuleSetNames groupName 0 in (DestinationV4 rule, DestinationV6 rule))"

definition stagedSetName :: "string \<Rightarrow> string" where
  "stagedSetName setName =
     (let candidate = setName @ ''_n'' in
      if length candidate \<le> maxIPSetNameLen then candidate
      else
        (let hash = hash_text setName;
             room = int maxIPSetNameLen - int (length ''_n'') - int (length hash) - 1;
             maxBase = (if room < 1 then 1 else room);
             base = (if int (length setName) > maxBase then take (nat maxBase) setName else setName)
         in base @ ''_'' @ hash @ ''_n''))"

datatype set_name_error = SetNameRequired | SetNameTooLong string | SetNameInvalid string

definition ipset_char :: "char \<Rightarrow> bool" where
  "ipset_char c \<longleftrightarrow> is_alnum c \<or> c \<in> set ''_.:-''"

definition ipsetNamePattern :: "string \<Rightarrow> bool" where
  "ipsetNamePattern s \<longleftrightarrow> s \<noteq> [] \<and> list_all ipset_char s"

definition validateIPSetName :: "string \<Rightarrow> set_name_error option" where
  "validateIPSetName name =
     (let t = TrimSpace name in
      if t = [] then Some SetNameRequired
      else if length t > maxIPSetNameLen then Some (SetNameTooLong t)
      else if \<not> ipsetNamePattern t then Some (SetNameInvalid t)
      else None)"

text \<open>The eight names of a rule, and the suffixes that tell the kinds of set apart.\<close>

definition pair_names :: "rule_set_pair \<Rightarrow> string list" where
  "pair_names p = [SourceV4 p, SourceV6 p, ExcludedSourceV4 p, ExcludedSourceV6 p,
     DestinationV4 p, DestinationV6 p, ExcludedDestinationV4 p, ExcludedDestinationV6 p]"

definition set_kinds :: "string list" where
  "set_kinds = [''s4'', ''s6'', ''xs4'', ''xs6'', ''d4'', ''d6'', ''xd4'', ''xd6'']"

definition set_suffix :: "int \<Rightarrow> string \<Rightarrow> string" where
  "set_suffix i kind = ''r'' @ Itoa (max 0 i + 1) @ kind"


section \<open>Lengths and characters\<close>

definition set_char :: "char \<Rightarrow> bool" where
  "set_char c \<longleftrightarrow> base_char c \<or> c = CHR ''_''"

lemma digit_char_set_char: "d < 16 \<Longrightarrow> set_char (digit_char d)"
  by (auto simp: set_char_def base_char_def is_digit_def is_lower_def digit_char_def)

lemma show_base_set_char: "2 \<le> b \<Longrightarrow> b \<le> 16 \<Longrightarrow> list_all set_char (show_base b n)"
proof (induction n rule: less_induct)
  case (less n)
  show ?case
  proof (cases "n < b")
    case True
    with less.prems show ?thesis by (simp add: show_base.simps [of b n] digit_char_set_char)
  next
    case False
    then have "list_all set_char (show_base b (n div b))" using less by (intro less.IH) auto
    moreover have "n mod b < 16" using less.prems by (meson less_le_trans mod_less_divisor zero_less_numeral)
    ultimately show ?thesis using less.prems False by (simp add: show_base.simps [of b n] digit_char_set_char)
  qed
qed

lemma length_hash_text [simp]: "length (hash_text s) = 8"
proof -
  have "unat (fnv32a s) < 16 ^ Suc 7"
    using unsigned_less [of "fnv32a s", where ?'a = nat] by simp
  then have "length (show_hex (unat (fnv32a s))) \<le> Suc 7"
    unfolding show_hex_def by (rule length_show_base [rotated]) simp
  then show ?thesis by (simp add: hash_text_def pad_zero_def)
qed

lemma hash_text_set_char: "list_all set_char (hash_text s)"
proof -
  have "set_char (CHR ''0'')" by code_simp
  moreover have "list_all set_char (show_hex (unat (fnv32a s)))"
    unfolding show_hex_def by (rule show_base_set_char) simp_all
  ultimately show ?thesis by (auto simp: hash_text_def pad_zero_def list_all_iff)
qed

lemma set_base_loop_set_char: "list_all set_char (set_base_loop u s)"
  by (induction s arbitrary: u) (auto simp: set_char_def)

lemma normalizeSetBase_set_char: "list_all set_char (normalizeSetBase g)"
proof -
  have "list_all set_char ''group''" by code_simp
  moreover have "set (TrimChar (CHR ''_'') s) \<subseteq> set s" for s
    unfolding TrimChar_def by (metis set_dropWhileD set_rev subsetI)
  ultimately show ?thesis
    using set_base_loop_set_char [of False "ToLower (TrimSpace g)"]
    by (auto simp: normalizeSetBase_def Let_def list_all_iff)
qed

lemma compactSetName_length:
  assumes "length sfx \<le> 13"
  shows "length (compactSetName base sfx seed) \<le> maxIPSetNameLen"
  using assms by (auto simp: compactSetName_def Let_def maxIPSetNameLen_def setPrefix_def)

lemma compactSetName_set_char:
  assumes "list_all set_char base" "list_all set_char sfx"
  shows "list_all set_char (compactSetName base sfx seed)"
proof -
  have p: "list_all set_char setPrefix" "set_char (CHR ''_'')" by code_simp+
  have "list_all set_char (take n base)" for n using assms(1) by (auto simp: list_all_iff dest: in_set_takeD)
  with p assms hash_text_set_char [of seed] show ?thesis
    by (simp add: compactSetName_def Let_def)
qed

lemma set_char_ipset: "list_all set_char s \<Longrightarrow> s \<noteq> [] \<Longrightarrow> length s \<le> maxIPSetNameLen \<Longrightarrow> validateIPSetName s = None"
proof -
  assume s: "list_all set_char s" "s \<noteq> []" "length s \<le> maxIPSetNameLen"
  have c: "ipset_char c \<and> \<not> is_space c" if "set_char c" for c
    using that by (auto simp: set_char_def base_char_def ipset_char_def is_alnum_def is_space_def is_lower_def is_digit_def)
  with s(1) have "list_all ipset_char s" "TrimSpace s = s"
    by (auto simp: list_all_iff intro!: TrimSpace_id no_space_trimmed)
  with s show ?thesis by (simp add: validateIPSetName_def Let_def ipsetNamePattern_def)
qed


section \<open>The last segment of a name\<close>

definition last_segment :: "string \<Rightarrow> string" where
  "last_segment s = rev (takeWhile (\<lambda>c. c \<noteq> CHR ''_'') (rev s))"

lemma last_segment_append: "CHR ''_'' \<notin> set t \<Longrightarrow> last_segment (s @ ''_'' @ t) = t"
proof -
  assume "CHR ''_'' \<notin> set t"
  then have "takeWhile (\<lambda>c. c \<noteq> CHR ''_'') (rev t @ CHR ''_'' # rev s) = rev t"
    by (subst takeWhile_append2) auto
  then show ?thesis by (simp add: last_segment_def)
qed

lemma last_segment_compact: "CHR ''_'' \<notin> set sfx \<Longrightarrow> last_segment (compactSetName base sfx seed) = sfx"
  using last_segment_append [of sfx "setPrefix @ base"] last_segment_append [of sfx "setPrefix @ s @ ''_'' @ hash_text seed" for s]
  by (simp add: compactSetName_def Let_def)

lemma last_segment_staged: "last_segment (stagedSetName s) = ''n''"
  using last_segment_append [of "''n''" s] last_segment_append [of "''n''" "b @ ''_'' @ hash_text s" for b]
  by (simp add: stagedSetName_def Let_def)

lemma set_kinds_chars: "list_all (\<lambda>k. list_all set_char k \<and> length k \<le> 3 \<and> k \<noteq> [] \<and> \<not> is_digit (hd k) \<and>
    CHR ''_'' \<notin> set k) set_kinds"
  by code_simp

lemma set_suffix_props:
  assumes "kind \<in> set set_kinds"
  shows "CHR ''_'' \<notin> set (set_suffix i kind)" and "list_all set_char (set_suffix i kind)"
    and "i + 1 < 10 ^ 9 \<Longrightarrow> length (set_suffix i kind) \<le> 13"
proof -
  have k: "list_all set_char kind" "length kind \<le> 3" "CHR ''_'' \<notin> set kind"
    using set_kinds_chars assms by (auto simp: list_all_iff)
  have d: "all_digits (Itoa (max 0 i + 1))" by (rule Itoa_nonneg_digits) simp
  then have sc: "list_all set_char (Itoa (max 0 i + 1))" "CHR ''_'' \<notin> set (Itoa (max 0 i + 1))"
    by (auto simp: all_digits_def list_all_iff set_char_def base_char_def is_digit_def)
  have "set_char (CHR ''r'')" by code_simp
  then show "CHR ''_'' \<notin> set (set_suffix i kind)" "list_all set_char (set_suffix i kind)"
    using k sc by (simp_all add: set_suffix_def)
  assume "i + 1 < 10 ^ 9"
  then have "nat (max 0 i + 1) < 10 ^ Suc 8" by simp
  then have "length (Itoa (max 0 i + 1)) \<le> Suc 8"
    using length_show_base [of 10 "nat (max 0 i + 1)" 8] by (auto simp: Itoa_def)
  then show "length (set_suffix i kind) \<le> 13" using k(2) by (simp add: set_suffix_def)
qed

lemma set_suffix_inj:
  assumes "kind \<in> set set_kinds" "kind' \<in> set set_kinds" "set_suffix i kind = set_suffix j kind'"
  shows "max 0 i = max 0 j \<and> kind = kind'"
proof -
  have k: "\<not> is_digit (hd kind)" "kind \<noteq> []" "\<not> is_digit (hd kind')" "kind' \<noteq> []"
    using set_kinds_chars assms(1,2) by (auto simp: list_all_iff)
  have d: "list_all is_digit (Itoa (max 0 n + 1))" for n
    using Itoa_nonneg_digits [of "max 0 n + 1"] by (simp add: all_digits_def)
  have tw: "takeWhile is_digit (Itoa (max 0 n + 1) @ q) = Itoa (max 0 n + 1)"
    if "q \<noteq> []" "\<not> is_digit (hd q)" for n q
    using that d [of n] by (cases q) (auto simp: list_all_iff takeWhile_append2)
  have eq: "Itoa (max 0 i + 1) @ kind = Itoa (max 0 j + 1) @ kind'" using assms(3) by (simp add: set_suffix_def)
  have "Itoa (max 0 i + 1) = Itoa (max 0 j + 1)" using tw [of kind i] tw [of kind' j] k eq by simp
  moreover from this have "max 0 i = max 0 j" using Itoa_inj by fastforce
  ultimately show ?thesis using eq by simp
qed

lemma pair_names_RuleSetNames:
  "k < 8 \<Longrightarrow> \<exists>seed. pair_names (RuleSetNames g i) ! k = compactSetName (normalizeSetBase g) (set_suffix i (set_kinds ! k)) seed"
proof -
  have i: "(if i < 0 then 0 else i) = max 0 i" by simp
  assume "k < 8"
  then consider "k = 0" | "k = 1" | "k = 2" | "k = 3" | "k = 4" | "k = 5" | "k = 6" | "k = 7" by linarith
  then show ?thesis
    by cases (auto simp: pair_names_def RuleSetNames_def Let_def set_suffix_def set_kinds_def i)
qed

lemma length_pair_names [simp]: "length (pair_names p) = 8" "length set_kinds = 8"
  by (simp_all add: pair_names_def set_kinds_def)

lemma last_segment_pair:
  "k < 8 \<Longrightarrow> last_segment (pair_names (RuleSetNames g i) ! k) = set_suffix i (set_kinds ! k)"
proof -
  assume k: "k < 8"
  then have "set_kinds ! k \<in> set set_kinds" by simp
  moreover obtain seed where "pair_names (RuleSetNames g i) ! k = compactSetName (normalizeSetBase g) (set_suffix i (set_kinds ! k)) seed"
    using pair_names_RuleSetNames [OF k] by blast
  ultimately show ?thesis using set_suffix_props(1) by (simp add: last_segment_compact)
qed

lemma pair_name_valid:
  assumes "k < 8" "i + 1 < 10 ^ 9"
  shows "list_all set_char (pair_names (RuleSetNames g i) ! k) \<and> length (pair_names (RuleSetNames g i) ! k) \<le> maxIPSetNameLen
    \<and> pair_names (RuleSetNames g i) ! k \<noteq> []"
proof -
  have k: "set_kinds ! k \<in> set set_kinds" using assms(1) by simp
  obtain seed where seed: "pair_names (RuleSetNames g i) ! k = compactSetName (normalizeSetBase g) (set_suffix i (set_kinds ! k)) seed"
    using pair_names_RuleSetNames [OF assms(1)] by blast
  have "compactSetName (normalizeSetBase g) (set_suffix i (set_kinds ! k)) seed \<noteq> []"
    by (simp add: compactSetName_def Let_def)
  then show ?thesis
    unfolding seed using compactSetName_length compactSetName_set_char normalizeSetBase_set_char set_suffix_props [OF k] assms(2)
    by simp
qed

lemma in_pair_names: "n \<in> set (pair_names p) \<longleftrightarrow> (\<exists>k < 8. n = pair_names p ! k)"
  by (metis in_set_conv_nth length_pair_names(1))

lemma stagedSetName_set_char: "list_all set_char s \<Longrightarrow> list_all set_char (stagedSetName s) \<and>
    length (stagedSetName s) \<le> maxIPSetNameLen \<and> stagedSetName s \<noteq> []"
proof -
  assume s: "list_all set_char s"
  have p: "set_char (CHR ''_'')" "set_char (CHR ''n'')" by code_simp+
  have "list_all set_char (take n s)" for n using s by (auto simp: list_all_iff dest: in_set_takeD)
  with p s hash_text_set_char [of s] show ?thesis
    by (auto simp: stagedSetName_def Let_def maxIPSetNameLen_def)
qed


lemma staged_not_pair: "stagedSetName s \<notin> set (pair_names (RuleSetNames g i))"
proof
  assume "stagedSetName s \<in> set (pair_names (RuleSetNames g i))"
  then obtain k where "k < 8" "stagedSetName s = pair_names (RuleSetNames g i) ! k" using in_pair_names by blast
  then have "''n'' = set_suffix i (set_kinds ! k)" using last_segment_pair last_segment_staged by metis
  then show False by (simp add: set_suffix_def)
qed


section \<open>Properties\<close>

text \<open>C13: every set name derived for a rule, and its staging name, is accepted by \<open>validateIPSetName\<close>: it
  is at most 31 bytes of allowed characters, for every group name and every rule index below \<open>10 ^ 9 - 1\<close>
  (nine digits is where the shortened base has three characters left).\<close>

theorem set_names_valid:
  assumes "i + 1 < 10 ^ 9" "n \<in> set (pair_names (RuleSetNames g i))"
  shows "validateIPSetName n = None \<and> length n \<le> 31 \<and> validateIPSetName (stagedSetName n) = None"
proof -
  obtain k where k: "k < 8" "n = pair_names (RuleSetNames g i) ! k" using assms(2) in_pair_names by blast
  note v = pair_name_valid [OF k(1) assms(1), of g, folded k(2)]
  from v stagedSetName_set_char [of n] have "validateIPSetName (stagedSetName n) = None"
    by (blast intro: set_char_ipset)
  moreover have "validateIPSetName n = None" using v by (blast intro: set_char_ipset)
  ultimately show ?thesis using v by (simp add: maxIPSetNameLen_def)
qed

theorem set_names_valid_witness:
  "DestinationV4 (RuleSetNames ''My TV'' 0) = ''svpn_my_tv_r1d4'' \<and> validateIPSetName ''svpn_my_tv_r1d4'' = None \<and>
   validateIPSetName (stagedSetName ''svpn_my_tv_r1d4'') = None"
proof -
  have n: "DestinationV4 (RuleSetNames ''My TV'' 0) = ''svpn_my_tv_r1d4''" by code_simp
  have "DestinationV4 (RuleSetNames ''My TV'' 0) \<in> set (pair_names (RuleSetNames ''My TV'' 0))"
    by (simp add: pair_names_def)
  with set_names_valid [of 0 _ "''My TV''"] n show ?thesis by simp
qed

text \<open>A set name determines the rule index and the kind of the set: names of different rules, or of
  different kinds within a rule, are never equal, even across groups and even after shortening.\<close>

theorem set_names_distinct:
  assumes "k < 8" "l < 8" "pair_names (RuleSetNames g i) ! k = pair_names (RuleSetNames h j) ! l"
  shows "max 0 i = max 0 j \<and> k = l"
proof -
  have "set_suffix i (set_kinds ! k) = set_suffix j (set_kinds ! l)"
    using last_segment_pair [OF assms(1)] last_segment_pair [OF assms(2)] assms(3) by metis
  then have "max 0 i = max 0 j" "set_kinds ! k = set_kinds ! l"
    using set_suffix_inj [of "set_kinds ! k" "set_kinds ! l"] assms(1,2) by auto
  moreover have "distinct set_kinds" by code_simp
  ultimately show ?thesis using assms(1,2) by (simp add: nth_eq_iff_index_eq)
qed

theorem set_names_distinct_witness:
  "pair_names (RuleSetNames ''tv'' 0) ! 4 = ''svpn_tv_r1d4'' \<and> pair_names (RuleSetNames ''TV'' (-3)) ! 4 = ''svpn_tv_r1d4'' \<and>
   max 0 (0::int) = max 0 (-3)"
proof -
  have "pair_names (RuleSetNames ''tv'' 0) ! 4 = ''svpn_tv_r1d4''" "pair_names (RuleSetNames ''TV'' (-3)) ! 4 = ''svpn_tv_r1d4''"
    by code_simp+
  with set_names_distinct [of 4 4 "''tv''" 0 "''TV''" "-3"] show ?thesis by simp
qed

text \<open>A staging name is never the name of a live set, so building the next contents of one set in its
  staging set leaves every live set alone.\<close>

theorem staged_name_not_live: "stagedSetName s \<notin> set (pair_names (RuleSetNames g i))"
  by (rule staged_not_pair)

text \<open>C14: two groups whose names have the same normalised base of at most twelve characters get exactly the
  same set names, rule by rule: the hash that would tell them apart is used for long names only. Group
  names are unique only as written, so \<^verbatim>\<open>a.b\<close> and \<^verbatim>\<open>A-b\<close> share their sets.\<close>

theorem set_names_collide:
  assumes "normalizeSetBase g = normalizeSetBase h" "length (normalizeSetBase g) \<le> 12" "i + 1 < 10 ^ 9"
  shows "RuleSetNames g i = RuleSetNames h i"
proof -
  have "compactSetName (normalizeSetBase g) (set_suffix i kind) s = compactSetName (normalizeSetBase g) (set_suffix i kind) t"
    if "kind \<in> set set_kinds" for kind s t
    using set_suffix_props(3) [OF that assms(3)] assms(2)
    by (simp add: compactSetName_def Let_def setPrefix_def maxIPSetNameLen_def)
  moreover have "(if i < 0 then 0 else i) = max 0 i" by simp
  ultimately show ?thesis
    using assms(1) by (simp add: RuleSetNames_def Let_def set_kinds_def set_suffix_def)
qed

theorem set_names_collide_witness:
  "groupNamePattern ''a.b'' \<and> groupNamePattern ''A-b'' \<and> RuleSetNames ''a.b'' 0 = RuleSetNames ''A-b'' 0"
proof -
  have "normalizeSetBase ''a.b'' = normalizeSetBase ''A-b''" "int (length (normalizeSetBase ''a.b'')) \<le> 12"
    "groupNamePattern ''a.b''" "groupNamePattern ''A-b''"
    by code_simp+
  with set_names_collide [of "''a.b''" "''A-b''" 0] show ?thesis by simp
qed

end
