(* ===== verification/Executor.thy ===== *)
theory Executor
  imports Go_Strings "HOL-Library.AList"
begin

text \<open>
  Running external commands (\<^verbatim>\<open>internal/routing/executor.go\<close>) and the executor of the test
  suite (\<^verbatim>\<open>mock_exec.go\<close>). The operating system behind \<^verbatim>\<open>exec.Command\<close> is not part of the
  repository, so an executor is a parameter of everything that uses it: a record of the two methods of
  the interface over an arbitrary world \<open>'w\<close>. Errors are texts. Go maps with string keys are association
  lists, updated with \<^const>\<open>AList.update\<close> and \<^const>\<open>AList.delete\<close>.
\<close>

record 'w executor =
  Run :: "string \<Rightarrow> string list \<Rightarrow> (string, 'w) proc"
  Output :: "string \<Rightarrow> string list \<Rightarrow> 'w \<Rightarrow> (string + string) \<times> 'w"


section \<open>The mock executor\<close>

record mock_exec =
  RunCalls :: "string list list"
  OutputCalls :: "string list list"
  RunErrors :: "(string \<times> string) list"
  OutputErrors :: "(string \<times> string) list"
  Outputs :: "(string \<times> string) list"

definition MockExec_Run :: "string \<Rightarrow> string list \<Rightarrow> (string, mock_exec) proc" where
  "MockExec_Run name args m =
     (map_of (RunErrors m) (Join (name # args) '' ''), m\<lparr>RunCalls := RunCalls m @ [name # args]\<rparr>)"

definition MockExec_Output :: "string \<Rightarrow> string list \<Rightarrow> mock_exec \<Rightarrow> (string + string) \<times> mock_exec" where
  "MockExec_Output name args m =
     (let key = Join (name # args) '' '' in
      (case map_of (OutputErrors m) key of
         Some e \<Rightarrow> Inl e
       | None \<Rightarrow> (case map_of (Outputs m) key of
                    None \<Rightarrow> Inl ''mock output not configured''
                  | Some out \<Rightarrow> Inr out),
       m\<lparr>OutputCalls := OutputCalls m @ [name # args]\<rparr>))"

definition MockExec :: "mock_exec executor" where
  "MockExec = \<lparr>Run = MockExec_Run, Output = MockExec_Output\<rparr>"

definition fresh_mock :: mock_exec where
  "fresh_mock = \<lparr>RunCalls = [], OutputCalls = [], RunErrors = [], OutputErrors = [], Outputs = []\<rparr>"


section \<open>What a command sequence keeps\<close>

text \<open>
  \<open>confined x ok P\<close>: the commands that satisfy \<open>ok\<close>, and all queries, keep \<open>P\<close>. A component whose commands
  all satisfy \<open>ok\<close> then keeps \<open>P\<close>, whatever else the executor does.
\<close>

definition confined :: "'w executor \<Rightarrow> (string \<Rightarrow> string list \<Rightarrow> bool) \<Rightarrow> ('w \<Rightarrow> bool) \<Rightarrow> bool" where
  "confined x ok P \<longleftrightarrow>
     (\<forall>tool args. ok tool args \<longrightarrow> preserves P (Run x tool args)) \<and>
     (\<forall>tool args w. P w \<longrightarrow> P (snd (Output x tool args w)))"

lemma confined_Run: "confined x ok P \<Longrightarrow> ok tool args \<Longrightarrow> preserves P (Run x tool args)"
  by (simp add: confined_def)

lemma confined_Output: "confined x ok P \<Longrightarrow> P w \<Longrightarrow> Output x tool args w = (r, w') \<Longrightarrow> P w'"
  unfolding confined_def by (metis snd_conv)

text \<open>The calls that a mock executor has recorded satisfy whatever every command run on it satisfies.\<close>

lemma MockExec_confined:
  "confined MockExec ok (\<lambda>m. \<forall>call \<in> set (drop n (RunCalls m)). ok (hd call) (tl call))"
  by (auto simp: confined_def MockExec_def MockExec_Run_def MockExec_Output_def Let_def preserves_def dest: in_set_dropD)

end
