(* ===== verification/IPSet.thy ===== *)
theory IPSet
  imports Executor Set_Names
begin

text \<open>
  The ipset layer: the operator interface and its command line implementation
  (\<^verbatim>\<open>internal/routing/ipset.go\<close>) and the in-memory operator of the test suite
  (\<^verbatim>\<open>mock_ipset.go\<close>). The interface is a record of its methods; its contract is the locale
  \<open>ipset_store\<close>, extended by \<open>ipset_listing\<close>, over an abstraction \<open>contents\<close> from the world to the
  entries of each existing set. Both implementations satisfy it: the mock by interpretation, the command
  line manager under \<open>ipset_tool\<close>, the documented behaviour of the \<^verbatim>\<open>ipset\<close> program.
\<close>


section \<open>The interface and its command line implementation\<close>

datatype ipset_error =
    BadSetName set_name_error | BadFamily string | ValueRequired | BadValue string
  | IpsetFailed string string | SetRunErr string | SetListErr string

record 'w ipset_ops =
  EnsureSet :: "string \<Rightarrow> string \<Rightarrow> (ipset_error, 'w) proc"
  AddIP :: "string \<Rightarrow> string \<Rightarrow> int \<Rightarrow> (ipset_error, 'w) proc"
  FlushSet :: "string \<Rightarrow> (ipset_error, 'w) proc"
  SwapSets :: "string \<Rightarrow> string \<Rightarrow> (ipset_error, 'w) proc"
  DestroySet :: "string \<Rightarrow> (ipset_error, 'w) proc"
  ListSets :: "string \<Rightarrow> 'w \<Rightarrow> (ipset_error + string list) \<times> 'w"

definition defaultIPSetTimeoutSeconds :: int where "defaultIPSetTimeoutSeconds = 86400"

definition with_valid_name :: "string \<Rightarrow> (ipset_error, 'w) proc \<Rightarrow> (ipset_error, 'w) proc" where
  "with_valid_name name p = (case validateIPSetName name of Some e \<Rightarrow> fail_with (BadSetName e) | None \<Rightarrow> p)"

definition IPSetManager_EnsureSet :: "'w executor \<Rightarrow> string \<Rightarrow> string \<Rightarrow> (ipset_error, 'w) proc" where
  "IPSetManager_EnsureSet x name family =
     with_valid_name name
       (if ToLower (TrimSpace family) \<in> {''inet'', ''inet6''}
        then map_err (IpsetFailed ''create'')
          (Run x ''ipset'' [''create'', name, ''hash:net'', ''family'', family, ''timeout'',
             Itoa defaultIPSetTimeoutSeconds, ''-exist''])
        else fail_with (BadFamily family))"

definition IPSetManager_AddIP :: "'w executor \<Rightarrow> string \<Rightarrow> string \<Rightarrow> int \<Rightarrow> (ipset_error, 'w) proc" where
  "IPSetManager_AddIP x setName v timeoutSeconds =
     with_valid_name setName
       (let t = TrimSpace v in
        if t = [] then fail_with ValueRequired
        else if ParseIP t = None \<and> ParseCIDR t = None then fail_with (BadValue v)
        else (let secs = (if timeoutSeconds \<le> 0 then defaultIPSetTimeoutSeconds else timeoutSeconds)
              in map_err (IpsetFailed ''add'')
                   (Run x ''ipset'' [''add'', setName, t, ''timeout'', Itoa secs, ''-exist''])))"

definition IPSetManager_FlushSet :: "'w executor \<Rightarrow> string \<Rightarrow> (ipset_error, 'w) proc" where
  "IPSetManager_FlushSet x name =
     with_valid_name name (map_err (IpsetFailed ''flush'') (Run x ''ipset'' [''flush'', name]))"

definition IPSetManager_SwapSets :: "'w executor \<Rightarrow> string \<Rightarrow> string \<Rightarrow> (ipset_error, 'w) proc" where
  "IPSetManager_SwapSets x setA setB =
     with_valid_name setA (with_valid_name setB
       (map_err (IpsetFailed ''swap'') (Run x ''ipset'' [''swap'', setA, setB])))"

definition IPSetManager_DestroySet :: "'w executor \<Rightarrow> string \<Rightarrow> (ipset_error, 'w) proc" where
  "IPSetManager_DestroySet x name =
     with_valid_name name (map_err (IpsetFailed ''destroy'') (Run x ''ipset'' [''destroy'', name]))"

definition ipset_names :: "string \<Rightarrow> string list" where
  "ipset_names text = filter (\<lambda>n. n \<noteq> []) (map TrimSpace (Split text (CHR 0x0A)))"

definition IPSetManager_ListSets :: "'w executor \<Rightarrow> string \<Rightarrow> 'w \<Rightarrow> (ipset_error + string list) \<times> 'w" where
  "IPSetManager_ListSets x pre w =
     (case Output x ''ipset'' [''list'', ''-name''] w of
        (Inl e, w') \<Rightarrow> (Inl (IpsetFailed ''list'' e), w')
      | (Inr text, w') \<Rightarrow>
          (Inr (sort_strings (filter (\<lambda>n. pre = [] \<or> HasPrefix n pre) (ipset_names text))), w'))"

definition IPSetManager :: "'w executor \<Rightarrow> 'w ipset_ops" where
  "IPSetManager x =
     \<lparr>EnsureSet = IPSetManager_EnsureSet x, AddIP = IPSetManager_AddIP x, FlushSet = IPSetManager_FlushSet x,
      SwapSets = IPSetManager_SwapSets x, DestroySet = IPSetManager_DestroySet x,
      ListSets = IPSetManager_ListSets x\<rparr>"


section \<open>The in-memory operator\<close>

record mock_ipset =
  Sets :: "(string \<times> string) list"
  IPs :: "(string \<times> string list) list"
  Calls :: "string list"
  ListErr :: "string option"
  RunErr :: "string option"

definition mock_call :: "string \<Rightarrow> (mock_ipset \<Rightarrow> mock_ipset) \<Rightarrow> (ipset_error, mock_ipset) proc" where
  "mock_call call f m =
     (let m' = m\<lparr>Calls := Calls m @ [call]\<rparr> in
      case RunErr m of Some e \<Rightarrow> (Some (SetRunErr e), m') | None \<Rightarrow> (None, f m'))"

definition lookup_list :: "(string \<times> 'a list) list \<Rightarrow> string \<Rightarrow> 'a list" where
  "lookup_list m k = (case map_of m k of None \<Rightarrow> [] | Some xs \<Rightarrow> xs)"

definition MockIPSet_EnsureSet :: "string \<Rightarrow> string \<Rightarrow> (ipset_error, mock_ipset) proc" where
  "MockIPSet_EnsureSet name family =
     mock_call (''ensure:'' @ name @ '':'' @ family) (\<lambda>m. m\<lparr>Sets := AList.update name family (Sets m)\<rparr>)"

definition MockIPSet_AddIP :: "string \<Rightarrow> string \<Rightarrow> int \<Rightarrow> (ipset_error, mock_ipset) proc" where
  "MockIPSet_AddIP setName ip timeoutSeconds =
     mock_call (''add:'' @ setName @ '':'' @ ip @ '':'' @ Itoa timeoutSeconds)
       (\<lambda>m. m\<lparr>IPs := AList.update setName (lookup_list (IPs m) setName @ [ip]) (IPs m)\<rparr>)"

definition MockIPSet_FlushSet :: "string \<Rightarrow> (ipset_error, mock_ipset) proc" where
  "MockIPSet_FlushSet name = mock_call (''flush:'' @ name) (\<lambda>m. m\<lparr>IPs := AList.delete name (IPs m)\<rparr>)"

text \<open>The two parallel assignments of \<^verbatim>\<open>SwapSets\<close>: a missing entry reads as the zero value and is created.\<close>

definition MockIPSet_SwapSets :: "string \<Rightarrow> string \<Rightarrow> (ipset_error, mock_ipset) proc" where
  "MockIPSet_SwapSets setA setB =
     mock_call (''swap:'' @ setA @ '':'' @ setB)
       (\<lambda>m. let fa = lookup_list (Sets m) setA; fb = lookup_list (Sets m) setB;
                ia = lookup_list (IPs m) setA; ib = lookup_list (IPs m) setB in
            m\<lparr>Sets := AList.update setB fa (AList.update setA fb (Sets m)),
              IPs := AList.update setB ia (AList.update setA ib (IPs m))\<rparr>)"

definition MockIPSet_DestroySet :: "string \<Rightarrow> (ipset_error, mock_ipset) proc" where
  "MockIPSet_DestroySet name =
     mock_call (''destroy:'' @ name)
       (\<lambda>m. m\<lparr>Sets := AList.delete name (Sets m), IPs := AList.delete name (IPs m)\<rparr>)"

definition MockIPSet_ListSets :: "string \<Rightarrow> mock_ipset \<Rightarrow> (ipset_error + string list) \<times> mock_ipset" where
  "MockIPSet_ListSets pre m =
     (let m' = m\<lparr>Calls := Calls m @ [''list:'' @ pre]\<rparr> in
      case ListErr m of
        Some e \<Rightarrow> (Inl (SetListErr e), m')
      | None \<Rightarrow> (Inr (sort_strings (filter (\<lambda>n. \<not> (pre \<noteq> [] \<and> (length n < length pre \<or> take (length pre) n \<noteq> pre)))
                   (map fst (Sets m)))), m'))"

definition MockIPSet :: "mock_ipset ipset_ops" where
  "MockIPSet =
     \<lparr>EnsureSet = MockIPSet_EnsureSet, AddIP = MockIPSet_AddIP, FlushSet = MockIPSet_FlushSet,
      SwapSets = MockIPSet_SwapSets, DestroySet = MockIPSet_DestroySet, ListSets = MockIPSet_ListSets\<rparr>"


section \<open>The contract\<close>

text \<open>
  \<open>contents w n\<close> is \<open>None\<close> when no set \<open>n\<close> exists and \<open>Some\<close> its entries otherwise; \<open>entry v\<close> is the
  entry that the text \<open>v\<close> denotes. Every operation that fails leaves all sets as they were. \<open>AddIP\<close>,
  \<open>FlushSet\<close> and \<open>SwapSets\<close> promise something only for existing sets, which is all the manager needs.
\<close>

locale ipset_store =
  fixes ops :: "'w ipset_ops" and contents :: "'w \<Rightarrow> string \<Rightarrow> 'e set option"
    and entry :: "string \<Rightarrow> 'e" and okw :: "'w \<Rightarrow> bool"
  assumes ensure: "okw w \<Longrightarrow> EnsureSet ops n f w = (r, w') \<Longrightarrow>
      okw w' \<and> contents w' = (if r = None \<and> contents w n = None then (contents w)(n \<mapsto> {}) else contents w)"
    and add: "okw w \<Longrightarrow> contents w n = Some xs \<Longrightarrow> TrimSpace v = v \<Longrightarrow> AddIP ops n v t w = (r, w') \<Longrightarrow>
      okw w' \<and> contents w' = (if r = None then (contents w)(n \<mapsto> insert (entry v) xs) else contents w)"
    and flush: "okw w \<Longrightarrow> contents w n = Some xs \<Longrightarrow> FlushSet ops n w = (r, w') \<Longrightarrow>
      okw w' \<and> contents w' = (if r = None then (contents w)(n \<mapsto> {}) else contents w)"
    and swap: "okw w \<Longrightarrow> contents w a = Some xs \<Longrightarrow> contents w b = Some ys \<Longrightarrow> a \<noteq> b \<Longrightarrow>
      SwapSets ops a b w = (r, w') \<Longrightarrow>
      okw w' \<and> contents w' = (if r = None then (contents w)(a \<mapsto> ys, b \<mapsto> xs) else contents w)"
    and destroy: "okw w \<Longrightarrow> DestroySet ops n w = (r, w') \<Longrightarrow>
      okw w' \<and> contents w' = (if r = None then (contents w)(n := None) else contents w)"

locale ipset_listing = ipset_store ops contents entry okw
  for ops :: "'w ipset_ops" and contents :: "'w \<Rightarrow> string \<Rightarrow> 'e set option"
    and entry :: "string \<Rightarrow> 'e" and okw :: "'w \<Rightarrow> bool" +
  assumes listing: "okw w \<Longrightarrow> ListSets ops pre w = (r, w') \<Longrightarrow>
      okw w' \<and> contents w' = contents w \<and>
      (\<forall>ns. r = Inr ns \<longrightarrow> set ns = {n. HasPrefix n pre \<and> contents w n \<noteq> None})"


subsection \<open>The mock satisfies it\<close>

definition mock_contents :: "mock_ipset \<Rightarrow> string \<Rightarrow> string set option" where
  "mock_contents m n = (if map_of (Sets m) n = None then None else Some (set (lookup_list (IPs m) n)))"

definition mock_inv :: "mock_ipset \<Rightarrow> bool" where
  "mock_inv m \<longleftrightarrow> dom (map_of (IPs m)) \<subseteq> dom (map_of (Sets m))"

lemma take_HasPrefix: "HasPrefix n pre \<longleftrightarrow> \<not> (pre \<noteq> [] \<and> (length n < length pre \<or> take (length pre) n \<noteq> pre))"
  by (auto simp: HasPrefix_iff) (metis append_take_drop_id)

lemma mock_Calls [simp]:
  "mock_contents (m\<lparr>Calls := c\<rparr>) = mock_contents m" "mock_inv (m\<lparr>Calls := c\<rparr>) = mock_inv m"
  by (simp_all add: mock_contents_def mock_inv_def fun_eq_iff)

lemma mock_call_cases:
  assumes "mock_call c f m = (r, m')"
  obtains (failed) e where "r = Some e" "mock_contents m' = mock_contents m" "mock_inv m' = mock_inv m"
  | (performed) m0 where "r = None" "m' = f m0" "mock_contents m0 = mock_contents m" "mock_inv m0 = mock_inv m"
  using assms by (auto simp: mock_call_def Let_def split: option.splits)

lemma mock_missing: "mock_inv m \<Longrightarrow> map_of (Sets m) n = None \<Longrightarrow> map_of (IPs m) n = None"
  unfolding mock_inv_def by blast

lemmas mock_state_simps = mock_contents_def mock_inv_def update_conv' delete_conv' lookup_list_def Let_def

lemma mock_ensure:
  "mock_inv m \<Longrightarrow> mock_inv (m\<lparr>Sets := AList.update n f (Sets m)\<rparr>) \<and>
   mock_contents (m\<lparr>Sets := AList.update n f (Sets m)\<rparr>) =
     (if mock_contents m n = None then (mock_contents m)(n \<mapsto> {}) else mock_contents m)"
  using mock_missing [of m n] by (auto simp: mock_state_simps fun_eq_iff split: if_splits)

lemma mock_add:
  "mock_inv m \<Longrightarrow> mock_contents m n = Some xs \<Longrightarrow>
   mock_inv (m\<lparr>IPs := AList.update n (lookup_list (IPs m) n @ [v]) (IPs m)\<rparr>) \<and>
   mock_contents (m\<lparr>IPs := AList.update n (lookup_list (IPs m) n @ [v]) (IPs m)\<rparr>) = (mock_contents m)(n \<mapsto> insert v xs)"
  by (auto simp: mock_state_simps fun_eq_iff split: if_splits option.splits)

lemma mock_flush:
  "mock_inv m \<Longrightarrow> mock_contents m n = Some xs \<Longrightarrow>
   mock_inv (m\<lparr>IPs := AList.delete n (IPs m)\<rparr>) \<and>
   mock_contents (m\<lparr>IPs := AList.delete n (IPs m)\<rparr>) = (mock_contents m)(n \<mapsto> {})"
  by (auto simp: mock_state_simps fun_eq_iff split: if_splits option.splits)

lemma mock_swap:
  assumes "mock_inv m" "mock_contents m a = Some xs" "mock_contents m b = Some ys" "a \<noteq> b"
  shows "mock_inv (m\<lparr>Sets := AList.update b f (AList.update a g (Sets m)),
      IPs := AList.update b (lookup_list (IPs m) a) (AList.update a (lookup_list (IPs m) b) (IPs m))\<rparr>) \<and>
    mock_contents (m\<lparr>Sets := AList.update b f (AList.update a g (Sets m)),
      IPs := AList.update b (lookup_list (IPs m) a) (AList.update a (lookup_list (IPs m) b) (IPs m))\<rparr>)
    = (mock_contents m)(a \<mapsto> ys, b \<mapsto> xs)"
  using assms by (auto simp: mock_contents_def mock_inv_def update_conv' lookup_list_def fun_eq_iff split: if_splits)

lemma mock_destroy:
  "mock_inv m \<Longrightarrow> mock_inv (m\<lparr>Sets := AList.delete n (Sets m), IPs := AList.delete n (IPs m)\<rparr>) \<and>
   mock_contents (m\<lparr>Sets := AList.delete n (Sets m), IPs := AList.delete n (IPs m)\<rparr>) = (mock_contents m)(n := None)"
  by (auto simp: mock_state_simps fun_eq_iff split: if_splits option.splits)

lemmas MockIPSet_ops = MockIPSet_def MockIPSet_EnsureSet_def MockIPSet_AddIP_def MockIPSet_FlushSet_def
  MockIPSet_SwapSets_def MockIPSet_DestroySet_def ipset_ops.simps

interpretation mock: ipset_listing MockIPSet mock_contents id mock_inv
proof (unfold_locales, goal_cases)
  case (1 w n f r w')
  from 1(2) [unfolded MockIPSet_ops] show ?case
    by (cases rule: mock_call_cases) (use 1(1) mock_ensure in simp_all)
next
  case (2 w n xs v t r w')
  from 2(4) [unfolded MockIPSet_ops] show ?case
    by (cases rule: mock_call_cases) (use 2(1,2) mock_add in simp_all)
next
  case (3 w n xs r w')
  from 3(3) [unfolded MockIPSet_ops] show ?case
    by (cases rule: mock_call_cases) (use 3(1,2) mock_flush in simp_all)
next
  case (4 w a xs b ys r w')
  from 4(5) [unfolded MockIPSet_ops] show ?case
    by (cases rule: mock_call_cases) (use 4(1-4) mock_swap in \<open>simp_all add: Let_def\<close>)
next
  case (5 w n r w')
  from 5(2) [unfolded MockIPSet_ops] show ?case
    by (cases rule: mock_call_cases) (use 5(1) mock_destroy in simp_all)
next
  case (6 w pre r w')
  have "(mock_contents w n \<noteq> None) = (n \<in> set (map fst (Sets w)))" for n
    by (simp add: mock_contents_def map_of_eq_None_iff)
  with 6(1) 6(2) [unfolded MockIPSet_def MockIPSet_ListSets_def ipset_ops.simps take_HasPrefix [symmetric]] show ?case
    by (cases "ListErr w") (auto simp: Let_def simp del: set_map)
qed


subsection \<open>The command line manager satisfies it\<close>

text \<open>
  The documented behaviour of the \<^verbatim>\<open>ipset\<close> commands the manager runs, for an executor \<open>x\<close>: \<open>create -exist\<close>
  makes an empty set unless the set is there, \<open>add -exist\<close> inserts an entry, \<open>flush\<close> empties a set, \<open>swap\<close>
  exchanges the contents of two sets, \<open>destroy\<close> removes a set, \<open>list -name\<close> prints one name per line, and
  a command that fails changes nothing.
\<close>

definition ipset_tool ::
  "'w executor \<Rightarrow> ('w \<Rightarrow> string \<Rightarrow> 'e set option) \<Rightarrow> (string \<Rightarrow> 'e) \<Rightarrow> ('w \<Rightarrow> bool) \<Rightarrow> bool" where
  "ipset_tool x contents entry okw \<longleftrightarrow> (\<forall>w r w'. okw w \<longrightarrow>
     (\<forall>n f t. Run x ''ipset'' [''create'', n, ''hash:net'', ''family'', f, ''timeout'', t, ''-exist''] w = (r, w') \<longrightarrow>
        okw w' \<and> contents w' = (if r = None \<and> contents w n = None then (contents w)(n \<mapsto> {}) else contents w)) \<and>
     (\<forall>n v t xs. contents w n = Some xs \<longrightarrow> Run x ''ipset'' [''add'', n, v, ''timeout'', t, ''-exist''] w = (r, w') \<longrightarrow>
        okw w' \<and> contents w' = (if r = None then (contents w)(n \<mapsto> insert (entry v) xs) else contents w)) \<and>
     (\<forall>n xs. contents w n = Some xs \<longrightarrow> Run x ''ipset'' [''flush'', n] w = (r, w') \<longrightarrow>
        okw w' \<and> contents w' = (if r = None then (contents w)(n \<mapsto> {}) else contents w)) \<and>
     (\<forall>a b xs ys. contents w a = Some xs \<longrightarrow> contents w b = Some ys \<longrightarrow> a \<noteq> b \<longrightarrow>
        Run x ''ipset'' [''swap'', a, b] w = (r, w') \<longrightarrow>
        okw w' \<and> contents w' = (if r = None then (contents w)(a \<mapsto> ys, b \<mapsto> xs) else contents w)) \<and>
     (\<forall>n. Run x ''ipset'' [''destroy'', n] w = (r, w') \<longrightarrow>
        okw w' \<and> contents w' = (if r = None then (contents w)(n := None) else contents w)) \<and>
     (\<forall>q. Output x ''ipset'' [''list'', ''-name''] w = (q, w') \<longrightarrow>
        okw w' \<and> contents w' = contents w \<and>
        (\<forall>text. q = Inr text \<longrightarrow> set (ipset_names text) = dom (contents w))))"

lemma with_valid_name_cases:
  assumes "with_valid_name n p w = (r, w')"
  obtains (rejected) e where "r = Some e" "w' = w" | (passed) "p w = (r, w')"
  using assms by (auto simp: with_valid_name_def split: option.splits)

lemmas ipset_toolE = ipset_tool_def [THEN iffD1, THEN spec, THEN spec, THEN spec, THEN mp]

lemma ipset_toolD:
  assumes "ipset_tool x contents entry okw" "okw w"
  shows "Run x ''ipset'' [''create'', n, ''hash:net'', ''family'', f, ''timeout'', t, ''-exist''] w = (r, w') \<Longrightarrow>
      okw w' \<and> contents w' = (if r = None \<and> contents w n = None then (contents w)(n \<mapsto> {}) else contents w)"
    and "contents w n = Some xs \<Longrightarrow> Run x ''ipset'' [''add'', n, v, ''timeout'', t, ''-exist''] w = (r, w') \<Longrightarrow>
      okw w' \<and> contents w' = (if r = None then (contents w)(n \<mapsto> insert (entry v) xs) else contents w)"
    and "contents w n = Some xs \<Longrightarrow> Run x ''ipset'' [''flush'', n] w = (r, w') \<Longrightarrow>
      okw w' \<and> contents w' = (if r = None then (contents w)(n \<mapsto> {}) else contents w)"
    and "contents w a = Some xs \<Longrightarrow> contents w b = Some ys \<Longrightarrow> a \<noteq> b \<Longrightarrow> Run x ''ipset'' [''swap'', a, b] w = (r, w') \<Longrightarrow>
      okw w' \<and> contents w' = (if r = None then (contents w)(a \<mapsto> ys, b \<mapsto> xs) else contents w)"
    and "Run x ''ipset'' [''destroy'', n] w = (r, w') \<Longrightarrow>
      okw w' \<and> contents w' = (if r = None then (contents w)(n := None) else contents w)"
    and "Output x ''ipset'' [''list'', ''-name''] w = (q, w') \<Longrightarrow>
      okw w' \<and> contents w' = contents w \<and> (\<forall>text. q = Inr text \<longrightarrow> set (ipset_names text) = dom (contents w))"
proof (goal_cases)
  case 1
  from ipset_toolE [OF assms, THEN conjunct1, THEN spec, THEN spec, THEN spec, THEN mp, OF 1] show ?case .
next
  case 2
  from ipset_toolE [OF assms, THEN conjunct2, THEN conjunct1, THEN spec, THEN spec, THEN spec, THEN spec, THEN mp, OF 2(1), THEN mp, OF 2(2)] show ?case .
next
  case 3
  from ipset_toolE [OF assms, THEN conjunct2, THEN conjunct2, THEN conjunct1, THEN spec, THEN spec, THEN mp, OF 3(1), THEN mp, OF 3(2)] show ?case .
next
  case 4
  from ipset_toolE [OF assms, THEN conjunct2, THEN conjunct2, THEN conjunct2, THEN conjunct1, THEN spec, THEN spec, THEN spec, THEN spec,
      THEN mp, OF 4(1), THEN mp, OF 4(2), THEN mp, OF 4(3), THEN mp, OF 4(4)] show ?case .
next
  case 5
  from ipset_toolE [OF assms, THEN conjunct2, THEN conjunct2, THEN conjunct2, THEN conjunct2, THEN conjunct1, THEN spec, THEN mp, OF 5] show ?case .
next
  case 6
  from ipset_toolE [OF assms, THEN conjunct2, THEN conjunct2, THEN conjunct2, THEN conjunct2, THEN conjunct2, THEN spec, THEN mp, OF 6] show ?case .
qed

lemmas IPSetManager_ops = IPSetManager_def IPSetManager_EnsureSet_def IPSetManager_AddIP_def
  IPSetManager_FlushSet_def IPSetManager_SwapSets_def IPSetManager_DestroySet_def ipset_ops.simps

lemma IPSetManager_AddIP_cases:
  assumes "IPSetManager_AddIP x n v t w = (r, w')"
  obtains (rejected) e where "r = Some e" "w' = w"
  | (passed) q secs where "Run x ''ipset'' [''add'', n, TrimSpace v, ''timeout'', secs, ''-exist''] w = (q, w')"
      "r = None \<longleftrightarrow> q = None"
  using assms unfolding IPSetManager_AddIP_def
  by (cases rule: with_valid_name_cases) (auto simp: Let_def split: if_splits elim!: map_err_cases)

lemma IPSetManager_listing:
  assumes "ipset_tool x contents entry okw"
  shows "ipset_listing (IPSetManager x) contents entry okw"
proof (unfold_locales, goal_cases)
  case (1 w n f r w')
  from 1(2) [unfolded IPSetManager_ops] show ?case
    by (cases rule: with_valid_name_cases)
      (use 1(1) ipset_toolD(1) [OF assms 1(1)] in \<open>auto split: if_splits elim!: map_err_cases\<close>)
next
  case (2 w n xs v t r w')
  from 2(4) have "IPSetManager_AddIP x n v t w = (r, w')" by (simp add: IPSetManager_def)
  then show ?case
    by (cases rule: IPSetManager_AddIP_cases) (use 2 ipset_toolD(2) [OF assms 2(1,2)] in auto)
next
  case (3 w n xs r w')
  from 3(3) [unfolded IPSetManager_ops] show ?case
    by (cases rule: with_valid_name_cases) (use 3 ipset_toolD(3) [OF assms 3(1,2)] in \<open>auto elim!: map_err_cases\<close>)
next
  case (4 w a xs b ys r w')
  from 4(5) [unfolded IPSetManager_ops] show ?case
    by (elim with_valid_name_cases) (use 4 ipset_toolD(4) [OF assms 4(1-4)] in \<open>auto elim!: map_err_cases\<close>)
next
  case (5 w n r w')
  from 5(2) [unfolded IPSetManager_ops] show ?case
    by (cases rule: with_valid_name_cases) (use 5 ipset_toolD(5) [OF assms 5(1)] in \<open>auto elim!: map_err_cases\<close>)
next
  case (6 w pre r w')
  then show ?case
    using ipset_toolD(6) [OF assms 6(1)]
    by (auto simp: IPSetManager_def IPSetManager_ListSets_def HasPrefix_def split: prod.splits sum.splits)
qed


section \<open>Properties\<close>

text \<open>C15: the command line manager implements the ipset contract: with a program \<^verbatim>\<open>ipset\<close> that behaves as
  documented, each operation of \<open>IPSetManager\<close> changes the sets exactly as the contract says, and changes
  nothing when the name, the family or the value is rejected or the command fails.\<close>

theorem IPSetManager_refines:
  assumes "ipset_tool x contents entry okw"
  shows "ipset_listing (IPSetManager x) contents entry okw"
  by (rule IPSetManager_listing [OF assms])

text \<open>An executor with the documented behaviour: an association list of sets and their entries.\<close>

type_synonym sim_sets = "(string \<times> string list) list"

definition plain_name :: "string \<Rightarrow> bool" where
  "plain_name n \<longleftrightarrow> n \<noteq> [] \<and> list_all (\<lambda>c. \<not> is_space c) n"

definition sim_run :: "string \<Rightarrow> string list \<Rightarrow> (string, sim_sets) proc" where
  "sim_run tool args w =
     (let n = args ! 1; has = (\<lambda>k. map_of w k \<noteq> None); get = lookup_list w in
      if hd args = ''create'' \<and> plain_name n then (None, if has n then w else AList.update n [] w)
      else if hd args = ''add'' \<and> has n then (None, AList.update n (args ! 2 # get n) w)
      else if hd args = ''flush'' \<and> has n then (None, AList.update n [] w)
      else if hd args = ''swap'' \<and> has n \<and> has (args ! 2)
      then (None, AList.update (args ! 2) (get n) (AList.update n (get (args ! 2)) w))
      else if hd args = ''destroy'' then (None, AList.delete n w)
      else (Some ''failed'', w))"

definition sim_executor :: "sim_sets executor" where
  "sim_executor = \<lparr>Run = sim_run, Output = (\<lambda>tool args w. (Inr (Join (map fst w) [CHR 0x0A]), w))\<rparr>"

definition sim_contents :: "sim_sets \<Rightarrow> string \<Rightarrow> string set option" where
  "sim_contents w n = map_option set (map_of w n)"

definition sim_ok :: "sim_sets \<Rightarrow> bool" where
  "sim_ok w \<longleftrightarrow> (\<forall>n \<in> dom (map_of w). plain_name n)"

lemma plain_name_no_newline: "plain_name n \<Longrightarrow> CHR 0x0A \<notin> set n"
proof -
  have "is_space (CHR 0x0A)" by code_simp
  then show "plain_name n \<Longrightarrow> ?thesis" by (auto simp: plain_name_def list_all_iff)
qed

lemma sim_names: "sim_ok w \<Longrightarrow> set (ipset_names (Join (map fst w) [CHR 0x0A])) = dom (sim_contents w)"
proof -
  assume ok: "sim_ok w"
  have d: "dom (sim_contents w) = set (map fst w)"
    by (auto simp: sim_contents_def dom_map_of_conv_image_fst [symmetric])
  show ?thesis
  proof (cases "w = []")
    case True
    then show ?thesis by (simp add: ipset_names_def Split_def sim_contents_def dom_def)
  next
    case False
    have pl: "list_all plain_name (map fst w)"
      using ok unfolding sim_ok_def dom_map_of_conv_image_fst by (auto simp: list_all_iff)
    then have "map TrimSpace (map fst w) = map fst w" "filter (\<lambda>n. n \<noteq> []) (map fst w) = map fst w"
      by (auto simp: list_all_iff plain_name_def intro!: map_idI TrimSpace_id no_space_trimmed filter_True)
    moreover have "list_all (\<lambda>l. CHR 0x0A \<notin> set l) (map fst w)" using pl plain_name_no_newline by (auto simp: list_all_iff)
    ultimately show ?thesis using Split_Join [of "CHR 0x0A" "map fst w"] False by (simp add: ipset_names_def d del: map_map)
  qed
qed

lemma sim_executor_tool: "ipset_tool sim_executor sim_contents id sim_ok"
proof -
  have Some_dom: "sim_contents w n = Some xs \<Longrightarrow> sim_ok w \<Longrightarrow> plain_name n" for w n xs
    by (auto simp: sim_contents_def sim_ok_def)
  show ?thesis
    unfolding ipset_tool_def
  proof (intro allI impI conjI, goal_cases)
  qed (use Some_dom sim_names in \<open>auto simp: sim_executor_def sim_run_def sim_contents_def sim_ok_def update_conv'
      delete_conv' lookup_list_def Let_def fun_eq_iff split: if_splits option.splits\<close>)
qed

theorem IPSetManager_refines_witness: "ipset_listing (IPSetManager sim_executor) sim_contents id sim_ok"
  by (rule IPSetManager_refines [OF sim_executor_tool])

end
