(* ===== verification/Desired_Sets.thy ===== *)
theory Desired_Sets
  imports IPSet
begin

text \<open>
  Computing and installing the contents of the ipsets (\<^verbatim>\<open>internal/routing/manager_sets.go\<close>,
  \<^verbatim>\<open>prefix_aggregate.go\<close> and the set helpers of \<^verbatim>\<open>manager.go\<close>). The aggregation of prefixes is done by
  the third-party package \<^verbatim>\<open>go4.org/netipx\<close>; it is the parameter \<open>netipx\<close>, a function from the prefixes
  added to the builder to the prefixes of the resulting set (\<open>None\<close> when the builder reports an error).
  A set is replaced by filling a staging set, swapping the two and destroying the staging set. Shown over
  any operator that satisfies the contract \<open>ipset_store\<close>: the swap makes the replacement atomic, and after
  success every desired set has exactly its desired entries.
\<close>


section \<open>Prefixes\<close>

type_synonym prefix = "addr \<times> nat"

definition Is4In6 :: "addr \<Rightarrow> bool" where
  "Is4In6 a = (case a of Addr4 _ \<Rightarrow> False | Addr6 bs \<Rightarrow> take 12 bs = v4InV6Prefix)"

definition Unmap :: "addr \<Rightarrow> addr" where
  "Unmap a = (case a of Addr6 bs \<Rightarrow> (if take 12 bs = v4InV6Prefix then Addr4 (drop 12 bs) else a) | _ \<Rightarrow> a)"

text \<open>\<^verbatim>\<open>netip.ParseAddr\<close>; the zone of an IPv6 address is dropped, as every caller does.\<close>

definition netip_ParseAddr :: "string \<Rightarrow> addr option" where
  "netip_ParseAddr s =
     (case ParseAddr s of
        Some a \<Rightarrow> Some a
      | None \<Rightarrow>
          if CHR ''%'' \<in> set s \<and> after_char (CHR ''%'') s \<noteq> []
          then (case ParseAddr (before_char (CHR ''%'') s) of Some (Addr6 bs) \<Rightarrow> Some (Addr6 bs) | _ \<Rightarrow> None)
          else None)"

definition netip_ParsePrefix :: "string \<Rightarrow> prefix option" where
  "netip_ParsePrefix s =
     (if CHR ''/'' \<notin> set s then None
      else
        (let bits = rev (takeWhile (\<lambda>c. c \<noteq> CHR ''/'') (rev s));
             host = take (length s - length bits - 1) s
         in case ParseAddr host of
              None \<Rightarrow> None
            | Some a \<Rightarrow>
                if length bits > 1 \<and> \<not> (is_digit (hd bits) \<and> hd bits \<noteq> CHR ''0'') then None
                else (case Atoi bits of
                        None \<Rightarrow> None
                      | Some n \<Rightarrow> if n < 0 \<or> n > int (BitLen a) then None else Some (a, nat n))))"

definition Masked :: "prefix \<Rightarrow> prefix" where
  "Masked p = (case p of (Addr4 bs, n) \<Rightarrow> (Addr4 (mask_bytes n bs), n) | (Addr6 bs, n) \<Rightarrow> (Addr6 (mask_bytes n bs), n))"

definition addr_String :: "addr \<Rightarrow> string" where
  "addr_String a =
     (case a of
        Addr4 bs \<Rightarrow> show_ip4 bs
      | Addr6 bs \<Rightarrow> if take 12 bs = v4InV6Prefix then ''::ffff:'' @ show_ip4 (drop 12 bs) else show_ip6 bs)"

definition prefix_String :: "prefix \<Rightarrow> string" where
  "prefix_String p = addr_String (fst p) @ ''/'' @ Itoa (int (snd p))"

datatype set_error =
    InvalidFamily string string | UnsupportedFamily string | InvalidCIDR string | InvalidIP string
  | NotIPv4 string | NotIPv6 string | BuilderFailed | CollapseFailed string set_error | IpsetOpFailed ipset_error

definition validateEntryFamily :: "addr \<Rightarrow> string \<Rightarrow> string \<Rightarrow> set_error option" where
  "validateEntryFamily a family original =
     (if family = ''inet'' then (case a of Addr4 _ \<Rightarrow> None | Addr6 _ \<Rightarrow> Some (NotIPv4 original))
      else if family = ''inet6'' then
        (case a of Addr4 _ \<Rightarrow> Some (NotIPv6 original) | Addr6 _ \<Rightarrow> if Is4In6 a then Some (NotIPv6 original) else None)
      else Some (UnsupportedFamily family))"

definition parseSetEntryPrefix :: "string \<Rightarrow> string \<Rightarrow> set_error + prefix option" where
  "parseSetEntryPrefix e family =
     (let t = TrimSpace e in
      if t = [] then Inr None
      else if CHR ''/'' \<in> set t then
        (case netip_ParsePrefix t of
           None \<Rightarrow> Inl (InvalidCIDR e)
         | Some p \<Rightarrow>
             (let q = Masked p in
              case validateEntryFamily (fst q) family e of Some err \<Rightarrow> Inl err | None \<Rightarrow> Inr (Some q)))
      else
        (case netip_ParseAddr t of
           None \<Rightarrow> Inl (InvalidIP e)
         | Some a \<Rightarrow>
             (let b = (if Is4In6 a then Unmap a else a) in
              case validateEntryFamily b family e of Some err \<Rightarrow> Inl err | None \<Rightarrow> Inr (Some (b, BitLen b)))))"

fun parse_prefixes :: "string list \<Rightarrow> string \<Rightarrow> set_error + prefix list" where
  "parse_prefixes [] family = Inr []"
| "parse_prefixes (e # es) family =
     bindE (parseSetEntryPrefix e family) (\<lambda>p.
       bindE (parse_prefixes es family) (\<lambda>ps. Inr (case p of None \<Rightarrow> ps | Some q \<Rightarrow> q # ps)))"

definition collapseSetEntries ::
  "(prefix list \<Rightarrow> prefix list option) \<Rightarrow> string list \<Rightarrow> string \<Rightarrow> set_error + string list" where
  "collapseSetEntries netipx entries family =
     (let f = ToLower (TrimSpace family) in
      if f \<noteq> ''inet'' \<and> f \<noteq> ''inet6'' then Inl (UnsupportedFamily family)
      else bindE (parse_prefixes entries f) (\<lambda>ps.
             case netipx ps of None \<Rightarrow> Inl BuilderFailed | Some qs \<Rightarrow> Inr (map prefix_String qs)))"


section \<open>Desired sets\<close>

record desired_set =
  Family :: string
  Entries :: "string list"

record resolver_values =
  V4 :: "string list"
  V6 :: "string list"

type_synonym resolver_selector = "string \<times> string"
type_synonym resolver_snapshot = "(resolver_selector \<times> resolver_values) list"
type_synonym prewarm_snapshot = "(string \<times> resolver_values) list"
type_synonym desired_sets = "(string \<times> desired_set) list"

definition zero_values :: resolver_values where
  "zero_values = \<lparr>V4 = [], V6 = []\<rparr>"

definition snapshot_get :: "('k \<times> resolver_values) list \<Rightarrow> 'k \<Rightarrow> resolver_values" where
  "snapshot_get m k = (case map_of m k of None \<Rightarrow> zero_values | Some v \<Rightarrow> v)"

definition both_families :: "resolver_values \<Rightarrow> string list" where
  "both_families v = V4 v @ V6 v"

definition isIPv6CIDR :: "string \<Rightarrow> bool" where
  "isIPv6CIDR v =
     (if CHR '':'' \<in> set v then True
      else (case ParseIP v of
              Some i \<Rightarrow> To4 i = None
            | None \<Rightarrow> (case ParseCIDR v of None \<Rightarrow> False | Some c \<Rightarrow> To4 (cidr_ip c) = None)))"

definition dedupeSortedStrings :: "string list \<Rightarrow> string list" where
  "dedupeSortedStrings raw = sort_strings (dedup (filter (\<lambda>t. t \<noteq> []) (map TrimSpace raw)))"

definition splitCIDRsByFamily :: "string list \<Rightarrow> string list \<times> string list" where
  "splitCIDRsByFamily entries = (filter (\<lambda>e. \<not> isIPv6CIDR e) entries, filter isIPv6CIDR entries)"

definition mergePrewarmedDestinations :: "rule_set_pair \<Rightarrow> prewarm_snapshot \<Rightarrow> string list" where
  "mergePrewarmedDestinations pair prewarmed =
     both_families (snapshot_get prewarmed (DestinationV4 pair)) @
     both_families (snapshot_get prewarmed (DestinationV6 pair))"

definition mergeResolvedDestinations :: "routing_rule \<Rightarrow> resolver_snapshot \<Rightarrow> string list" where
  "mergeResolvedDestinations rule resolved =
     DestinationCIDRs rule @
     concat (map (\<lambda>asn. both_families (snapshot_get resolved (''asn'', asn))) (DestinationASNs rule)) @
     concat (map (\<lambda>d. both_families (snapshot_get resolved (''domain'', d))) (Domains rule)) @
     concat (map (\<lambda>w. both_families (snapshot_get resolved (''wildcard'', w))) (WildcardDomains rule))"

definition mergeResolvedDestinationExclusions :: "routing_rule \<Rightarrow> resolver_snapshot \<Rightarrow> string list" where
  "mergeResolvedDestinationExclusions rule resolved =
     ExcludedDestinationCIDRs rule @
     concat (map (\<lambda>asn. both_families (snapshot_get resolved (''asn'', asn))) (ExcludedDestinationASNs rule))"

definition ruleNeedsDestinationSet :: "routing_rule \<Rightarrow> bool" where
  "ruleNeedsDestinationSet rule \<longleftrightarrow>
     DestinationCIDRs rule \<noteq> [] \<or> DestinationASNs rule \<noteq> [] \<or> Domains rule \<noteq> [] \<or> WildcardDomains rule \<noteq> []"

definition ruleNeedsExcludedDestinationSet :: "routing_rule \<Rightarrow> bool" where
  "ruleNeedsExcludedDestinationSet rule \<longleftrightarrow>
     ExcludedDestinationCIDRs rule \<noteq> [] \<or> ExcludedDestinationASNs rule \<noteq> []"

text \<open>The active sets are tracked only when the caller passes a map: \<open>None\<close> is Go's \<^verbatim>\<open>nil\<close>.\<close>

type_synonym set_queue = "desired_sets \<times> string list option"

definition queueDesiredSet :: "string \<Rightarrow> string \<Rightarrow> string list \<Rightarrow> set_queue \<Rightarrow> set_queue" where
  "queueDesiredSet setName family entries q =
     (let def = (case map_of (fst q) setName of None \<Rightarrow> \<lparr>Family = [], Entries = []\<rparr> | Some d \<Rightarrow> d);
          fam = (if Family def = [] then family else Family def)
      in (AList.update setName \<lparr>Family = fam, Entries = Entries def @ entries\<rparr> (fst q),
          map_option (\<lambda>act. List.insert setName act) (snd q)))"

definition queue_families :: "string \<Rightarrow> string \<Rightarrow> string list \<Rightarrow> set_queue \<Rightarrow> set_queue" where
  "queue_families set4 set6 entries q =
     (let (v4, v6) = splitCIDRsByFamily entries in
      queueDesiredSet set6 ''inet6'' v6 (queueDesiredSet set4 ''inet'' v4 q))"


section \<open>Installing them\<close>

definition applySetAtomically :: "'w ipset_ops \<Rightarrow> string \<Rightarrow> string \<Rightarrow> string list \<Rightarrow> (ipset_error, 'w) proc" where
  "applySetAtomically ops setName family entries =
     (let stagedSet = stagedSetName setName in
      and_then (EnsureSet ops setName family)
      (and_then (EnsureSet ops stagedSet family)
      (and_then (FlushSet ops stagedSet)
      (and_then (for_each (\<lambda>e. AddIP ops stagedSet e defaultIPSetTimeoutSeconds) entries)
      (and_then (SwapSets ops setName stagedSet)
                (DestroySet ops stagedSet))))))"

definition apply_one_set ::
  "(prefix list \<Rightarrow> prefix list option) \<Rightarrow> 'w ipset_ops \<Rightarrow> desired_sets \<Rightarrow> string \<Rightarrow> (set_error, 'w) proc" where
  "apply_one_set netipx ops desired setName =
     (let def = (case map_of desired setName of None \<Rightarrow> \<lparr>Family = [], Entries = []\<rparr> | Some d \<Rightarrow> d);
          family = ToLower (TrimSpace (Family def))
      in if family \<noteq> ''inet'' \<and> family \<noteq> ''inet6'' then fail_with (InvalidFamily (Family def) setName)
         else (case collapseSetEntries netipx (dedupeSortedStrings (Entries def)) family of
                 Inl e \<Rightarrow> fail_with (CollapseFailed setName e)
               | Inr entries \<Rightarrow> map_err IpsetOpFailed (applySetAtomically ops setName family entries)))"

definition applyDesiredSets ::
  "(prefix list \<Rightarrow> prefix list option) \<Rightarrow> 'w ipset_ops \<Rightarrow> desired_sets \<Rightarrow> (set_error, 'w) proc" where
  "applyDesiredSets netipx ops desired =
     for_each (apply_one_set netipx ops desired) (sort_strings (map fst desired))"

definition cleanupStaleSets :: "'w ipset_ops \<Rightarrow> string list \<Rightarrow> (ipset_error, 'w) proc" where
  "cleanupStaleSets ops active w =
     (case ListSets ops setPrefix w of
        (Inl e, w') \<Rightarrow> (Some e, w')
      | (Inr existing, w') \<Rightarrow>
          for_each (\<lambda>setName. if setName \<in> set active then skip_ok else DestroySet ops setName) existing w')"


section \<open>Texts of prefixes\<close>

definition no_space :: "string \<Rightarrow> bool" where
  "no_space s \<longleftrightarrow> list_all (\<lambda>c. \<not> is_space c) s"

lemma no_space_append [simp]: "no_space (s @ t) \<longleftrightarrow> no_space s \<and> no_space t"
  by (simp add: no_space_def)

lemma no_space_Join: "list_all no_space ws \<Longrightarrow> no_space sep \<Longrightarrow> no_space (Join ws sep)"
  by (induction ws sep rule: Join.induct) (auto simp: no_space_def)

lemma no_space_show_base: "2 \<le> b \<Longrightarrow> b \<le> 16 \<Longrightarrow> no_space (show_base b n)"
proof -
  assume "2 \<le> b" "b \<le> 16"
  then have "list_all set_char (show_base b n)" by (rule show_base_set_char)
  then show ?thesis
    unfolding no_space_def
    by (rule list.pred_mono_strong)
      (auto simp: set_char_def base_char_def is_space_def is_lower_def is_digit_def)
qed

lemma no_space_prefix_String: "no_space (prefix_String p)"
proof -
  have lits: "no_space '':''" "no_space ''.''" "no_space ''/''" "no_space ''::''" "no_space ''::ffff:''" "no_space ''-''"
    by code_simp+
  have ip4: "no_space (show_ip4 bs)" for bs
    unfolding show_ip4_def by (rule no_space_Join) (auto simp: list_all_iff lits no_space_show_base)
  have hexs: "no_space (Join (map show_hex gs) '':'')" for gs
    by (rule no_space_Join) (auto simp: list_all_iff lits show_hex_def no_space_show_base)
  have "no_space (show_ip6 bs)" for bs
    by (auto simp: show_ip6_def Let_def hexs lits split: prod.splits simp del: append_Cons)
  with ip4 lits no_space_show_base show ?thesis
    by (auto simp: prefix_String_def addr_String_def Itoa_def split: addr.splits simp del: append_Cons)
qed

lemma TrimSpace_prefix_String [simp]: "TrimSpace (prefix_String p) = prefix_String p"
  using no_space_prefix_String [of p] by (auto simp: no_space_def intro: TrimSpace_id no_space_trimmed)

lemma collapse_trimmed: "collapseSetEntries netipx es f = Inr xs \<Longrightarrow> list_all (\<lambda>e. TrimSpace e = e) xs"
  by (auto simp: collapseSetEntries_def Let_def bindE_Inr list_all_iff split: if_splits option.splits)


section \<open>Replacing one set\<close>

context ipset_store
begin

lemma add_all:
  assumes "for_each (\<lambda>e. AddIP ops n e t) es w = (r, w')" "okw w" "contents w n = Some xs"
    "list_all (\<lambda>e. TrimSpace e = e) es"
  shows "okw w' \<and> (\<forall>m. m \<noteq> n \<longrightarrow> contents w' m = contents w m) \<and>
    (r = None \<longrightarrow> contents w' n = Some (xs \<union> entry ` set es))"
  using assms
proof (induction es arbitrary: w xs)
  case (Cons e es)
  from Cons.prems(1) have "and_then (AddIP ops n e t) (for_each (\<lambda>e. AddIP ops n e t) es) w = (r, w')" by simp
  then show ?case
  proof (cases rule: and_then_cases)
    case (first err)
    then show ?thesis using add [OF Cons.prems(2,3) _ first(1)] Cons.prems by auto
  next
    case (both v)
    then have v: "okw v" "contents v = (contents w)(n \<mapsto> insert (entry e) xs)"
      using add [OF Cons.prems(2,3) _ both(1)] Cons.prems(4) by auto
    then show ?thesis using Cons.IH [OF both(2) v(1)] Cons.prems(4) by auto
  qed
qed simp

lemma fill_staging:
  assumes "and_then (EnsureSet ops st f) (and_then (FlushSet ops st) (for_each (\<lambda>e. AddIP ops st e t) es)) w = (r, w')"
    "okw w" "list_all (\<lambda>e. TrimSpace e = e) es"
  shows "okw w' \<and> (\<forall>m. m \<noteq> st \<longrightarrow> contents w' m = contents w m) \<and>
    (r = None \<longrightarrow> contents w' st = Some (entry ` set es))"
  using assms(1)
proof (cases rule: and_then_cases)
  case (first e)
  then show ?thesis using ensure [OF assms(2) first(1)] by auto
next
  case (both v)
  from ensure [OF assms(2) both(1)] have v: "okw v" "\<forall>m. m \<noteq> st \<longrightarrow> contents v m = contents w m" "contents v st \<noteq> None"
    by auto
  then obtain s0 where s0: "contents v st = Some s0" by auto
  from both(2) show ?thesis
  proof (cases rule: and_then_cases)
    case (first e)
    then show ?thesis using flush [OF v(1) s0 first(1)] v by auto
  next
    case (both v')
    have v': "okw v'" "contents v' = (contents v)(st \<mapsto> {})" using flush [OF v(1) s0 both(1)] by auto
    show ?thesis using add_all [OF both(2) v'(1) _ assms(3), of "{}"] v v' by auto
  qed
qed

lemma commit_staging:
  assumes "and_then (SwapSets ops n st) (DestroySet ops st) w = (r, w')" "okw w" "n \<noteq> st"
    "contents w n = Some old" "contents w st = Some new"
  shows "okw w' \<and> (\<forall>m. m \<noteq> n \<longrightarrow> m \<noteq> st \<longrightarrow> contents w' m = contents w m) \<and>
    (r = None \<longrightarrow> contents w' n = Some new \<and> contents w' st = None) \<and>
    (contents w' n = Some old \<or> contents w' n = Some new)"
  using assms(1)
proof (cases rule: and_then_cases)
  case (first e)
  then show ?thesis using swap [OF assms(2,4,5,3) first(1)] assms by auto
next
  case (both v)
  have v: "okw v" "contents v = (contents w)(n \<mapsto> new, st \<mapsto> old)"
    using swap [OF assms(2,4,5,3) both(1)] by auto
  show ?thesis using destroy [OF v(1) both(2)] v assms(3) by auto
qed

lemma replace_set:
  assumes run: "applySetAtomically ops n f es w = (r, w')" and ok: "okw w"
    and ne: "n \<noteq> stagedSetName n" and es: "list_all (\<lambda>e. TrimSpace e = e) es"
  shows "okw w' \<and> (\<forall>m. m \<noteq> n \<longrightarrow> m \<noteq> stagedSetName n \<longrightarrow> contents w' m = contents w m) \<and>
    (r = None \<longrightarrow> contents w' n = Some (entry ` set es) \<and> contents w' (stagedSetName n) = None) \<and>
    (contents w' n = contents w n \<or> contents w n = None \<and> contents w' n = Some {} \<or>
       contents w' n = Some (entry ` set es))"
proof -
  let ?st = "stagedSetName n"
  let ?fill = "and_then (EnsureSet ops ?st f) (and_then (FlushSet ops ?st)
      (for_each (\<lambda>e. AddIP ops ?st e defaultIPSetTimeoutSeconds) es))"
  from run have "and_then (EnsureSet ops n f) (and_then ?fill (and_then (SwapSets ops n ?st) (DestroySet ops ?st))) w = (r, w')"
    by (simp add: applySetAtomically_def Let_def and_then_assoc)
  then show ?thesis
  proof (cases rule: and_then_cases)
    case (first e)
    then show ?thesis using ensure [OF ok first(1)] by auto
  next
    case (both v1)
    from ensure [OF ok both(1)] have v1: "okw v1"
      "contents v1 = (if contents w n = None then (contents w)(n \<mapsto> {}) else contents w)" by auto
    then obtain old where old: "contents v1 n = Some old" "contents w n = Some old \<or> contents w n = None \<and> old = {}"
      "\<forall>m. m \<noteq> n \<longrightarrow> contents v1 m = contents w m" by (cases "contents w n") auto
    from both(2) show ?thesis
    proof (cases rule: and_then_cases)
      case (first e)
      then show ?thesis using fill_staging [OF first(1) v1(1) es] old ne by auto
    next
      case (both v2)
      note v2 = fill_staging [OF both(1) v1(1) es]
      show ?thesis using commit_staging [OF both(2) _ ne, of old "entry ` set es"] v2 old ne by auto
    qed
  qed
qed

end


section \<open>Replacing all sets\<close>

text \<open>The entries that a run installs in the set \<open>n\<close>, if its family is known and its entries can be aggregated.\<close>

definition desired_entries :: "(prefix list \<Rightarrow> prefix list option) \<Rightarrow> desired_sets \<Rightarrow> string \<Rightarrow> string list option" where
  "desired_entries netipx desired n =
     (case map_of desired n of
        None \<Rightarrow> None
      | Some d \<Rightarrow>
          (let f = ToLower (TrimSpace (Family d)) in
           if f \<noteq> ''inet'' \<and> f \<noteq> ''inet6'' then None
           else (case collapseSetEntries netipx (dedupeSortedStrings (Entries d)) f of Inl e \<Rightarrow> None | Inr es \<Rightarrow> Some es)))"

definition live_name :: "string \<Rightarrow> bool" where
  "live_name n \<longleftrightarrow> (\<exists>g i. n \<in> set (pair_names (RuleSetNames g i)))"

lemma live_not_staged: "live_name n \<Longrightarrow> stagedSetName m \<noteq> n"
  unfolding live_name_def using staged_not_pair by blast

context ipset_store
begin

lemma apply_one:
  assumes "apply_one_set netipx ops desired n w = (r, w')" "okw w" "live_name n" "n \<in> set (map fst desired)"
  shows "okw w' \<and> (\<forall>m. m \<noteq> n \<longrightarrow> m \<noteq> stagedSetName n \<longrightarrow> contents w' m = contents w m) \<and>
    (r = None \<longrightarrow> (\<exists>es. desired_entries netipx desired n = Some es \<and> contents w' n = Some (entry ` set es)) \<and>
       contents w' (stagedSetName n) = None) \<and>
    (contents w' n = contents w n \<or> contents w n = None \<and> contents w' n = Some {} \<or>
       (\<exists>es. desired_entries netipx desired n = Some es \<and> contents w' n = Some (entry ` set es)))"
proof -
  obtain d where d: "map_of desired n = Some d" using assms(4) by (metis map_of_eq_None_iff not_None_eq set_map)
  show ?thesis
  proof (cases "desired_entries netipx desired n")
    case None
    then have "r \<noteq> None \<and> w' = w"
      using assms(1) d by (auto simp: apply_one_set_def desired_entries_def Let_def split: if_splits sum.splits)
    with assms(2) show ?thesis by auto
  next
    case (Some es)
    then have "map_err IpsetOpFailed (applySetAtomically ops n (ToLower (TrimSpace (Family d))) es) w = (r, w')"
      and es: "list_all (\<lambda>e. TrimSpace e = e) es"
      using assms(1) d collapse_trimmed
      by (auto simp: apply_one_set_def desired_entries_def Let_def split: if_splits sum.splits)
    then obtain q where "applySetAtomically ops n (ToLower (TrimSpace (Family d))) es w = (q, w')" "r = None \<longleftrightarrow> q = None"
      by (elim map_err_cases) auto
    with replace_set [OF this(1) assms(2) live_not_staged [OF assms(3), of n, symmetric] es] Some show ?thesis by auto
  qed
qed

lemma apply_all_frame:
  assumes "applyDesiredSets netipx ops desired w = (r, w')" "okw w"
    "\<forall>n \<in> set (map fst desired). live_name n" "m \<notin> set (map fst desired)" "m \<notin> stagedSetName ` set (map fst desired)"
  shows "okw w' \<and> contents w' m = contents w m"
proof -
  have "preserves (\<lambda>v. okw v \<and> contents v m = contents w m) (applyDesiredSets netipx ops desired)"
    unfolding applyDesiredSets_def
  proof (rule preserves_for_each, rule preservesI, goal_cases)
    case (1 n v)
    then have n: "n \<in> set (map fst desired)" by simp
    obtain q v' where run: "apply_one_set netipx ops desired n v = (q, v')" by fastforce
    have "m \<noteq> n" "m \<noteq> stagedSetName n" using n assms(4,5) by auto
    then show ?case using apply_one [OF run] 1 n assms(3) by (simp add: run)
  qed
  from preservesD [OF this _ assms(1)] assms(2) show ?thesis by simp
qed

lemma apply_all_okw:
  assumes "applyDesiredSets netipx ops desired w = (r, w')" "okw w" "\<forall>n \<in> set (map fst desired). live_name n"
  shows "okw w'"
proof -
  have "preserves okw (applyDesiredSets netipx ops desired)"
    unfolding applyDesiredSets_def
  proof (rule preserves_for_each, rule preservesI, goal_cases)
    case (1 n v)
    obtain q v' where run: "apply_one_set netipx ops desired n v = (q, v')" by fastforce
    then show ?case using apply_one [OF run] 1 assms(3) by simp
  qed
  from preservesD [OF this assms(2,1)] show ?thesis .
qed

lemma apply_all_either:
  assumes "applyDesiredSets netipx ops desired w = (r, w')" "okw w"
    "\<forall>n \<in> set (map fst desired). live_name n" "m \<in> set (map fst desired)"
  shows "contents w' m = contents w m \<or> contents w m = None \<and> contents w' m = Some {} \<or>
    (\<exists>es. desired_entries netipx desired m = Some es \<and> contents w' m = Some (entry ` set es))"
proof -
  let ?P = "\<lambda>v. okw v \<and> (contents v m = contents w m \<or> contents w m = None \<and> contents v m = Some {} \<or>
    (\<exists>es. desired_entries netipx desired m = Some es \<and> contents v m = Some (entry ` set es)))"
  have "preserves ?P (applyDesiredSets netipx ops desired)"
    unfolding applyDesiredSets_def
  proof (rule preserves_for_each, rule preservesI, goal_cases)
    case (1 n v)
    then have n: "n \<in> set (map fst desired)" by simp
    obtain q v' where run: "apply_one_set netipx ops desired n v = (q, v')" by fastforce
    have one: "okw v'" "m \<noteq> n \<longrightarrow> m \<noteq> stagedSetName n \<longrightarrow> contents v' m = contents v m"
      "contents v' n = contents v n \<or> contents v n = None \<and> contents v' n = Some {} \<or>
       (\<exists>es. desired_entries netipx desired n = Some es \<and> contents v' n = Some (entry ` set es))"
      using apply_one [OF run] 1 n assms(3) by simp_all
    have "m \<noteq> stagedSetName n" using assms(3,4) live_not_staged by metis
    then show ?case using 1 one by (cases "n = m") (auto simp: run)
  qed
  from preservesD [OF this _ assms(1)] assms(2) show ?thesis by simp
qed

lemma apply_all_success:
  assumes "applyDesiredSets netipx ops desired w = (None, w')" "okw w"
    "\<forall>n \<in> set (map fst desired). live_name n" "m \<in> set (map fst desired)"
  shows "(\<exists>es. desired_entries netipx desired m = Some es \<and> contents w' m = Some (entry ` set es)) \<and>
    contents w' (stagedSetName m) = None"
proof -
  let ?Q = "\<lambda>n v. (\<exists>es. desired_entries netipx desired n = Some es \<and> contents v n = Some (entry ` set es)) \<and>
    contents v (stagedSetName n) = None"
  have "okw w' \<and> (\<forall>n \<in> set (sort_strings (map fst desired)). ?Q n w')"
  proof (rule for_each_establishes [where I = okw and Q = ?Q, OF assms(1) [unfolded applyDesiredSets_def] assms(2)], goal_cases)
    case (1 n v v')
    then show ?case using apply_one [OF 1(3,2)] assms(3) by simp
  next
    case (2 n k v v')
    have "k \<noteq> stagedSetName n" "n \<noteq> stagedSetName k"
      using 2(1,2) assms(3) live_not_staged by (metis set_sort_strings)+
    then show ?case using apply_one [OF 2(6,4)] assms(3) 2 by (cases "stagedSetName n = stagedSetName k") auto
  qed
  then show ?thesis using assms(4) by auto
qed

end

context ipset_listing
begin

lemma destroy_all:
  assumes "for_each (\<lambda>n. if n \<in> A then skip_ok else DestroySet ops n) ns w = (r, w')" "okw w"
  shows "okw w' \<and> (\<forall>m. contents w' m = contents w m \<or> m \<in> set ns \<and> m \<notin> A \<and> contents w' m = None) \<and>
    (r = None \<longrightarrow> (\<forall>m \<in> set ns - A. contents w' m = None))"
  using assms
proof (induction ns arbitrary: w)
  case (Cons n ns)
  from Cons.prems(1) have "and_then (if n \<in> A then skip_ok else DestroySet ops n)
      (for_each (\<lambda>n. if n \<in> A then skip_ok else DestroySet ops n) ns) w = (r, w')" by simp
  then show ?case
  proof (cases rule: and_then_cases)
    case (first e)
    then show ?thesis using destroy [OF Cons.prems(2), of n] by (auto split: if_splits)
  next
    case (both v)
    have v: "okw v" "contents v = (if n \<in> A then contents w else (contents w)(n := None))"
      using destroy [OF Cons.prems(2), of n None v] both(1) Cons.prems(2) by (auto split: if_splits)
    from Cons.IH [OF both(2) v(1)] v(2) show ?thesis by (auto split: if_splits)
  qed
qed simp

lemma cleanup:
  assumes "cleanupStaleSets ops active w = (r, w')" "okw w"
  shows "okw w' \<and> (\<forall>m. contents w' m = contents w m \<or> HasPrefix m setPrefix \<and> m \<notin> set active \<and> contents w' m = None) \<and>
    (r = None \<longrightarrow> (\<forall>m. HasPrefix m setPrefix \<longrightarrow> m \<notin> set active \<longrightarrow> contents w' m = None))"
proof -
  obtain q v where l: "ListSets ops setPrefix w = (q, v)" by fastforce
  note lst = listing [OF assms(2) l]
  show ?thesis
  proof (cases q)
    case (Inl e)
    then show ?thesis using assms(1) l lst by (auto simp: cleanupStaleSets_def)
  next
    case (Inr ns)
    then have "for_each (\<lambda>n. if n \<in> set active then skip_ok else DestroySet ops n) ns v = (r, w')"
      using assms(1) l by (simp add: cleanupStaleSets_def)
    note d = destroy_all [OF this lst [THEN conjunct1]]
    have ns: "set ns = {n. HasPrefix n setPrefix \<and> contents w n \<noteq> None}" "contents v = contents w"
      using lst Inr by auto
    have "r = None \<Longrightarrow> HasPrefix m setPrefix \<Longrightarrow> m \<notin> set active \<Longrightarrow> contents w' m = None" for m
      using d ns by (cases "contents w m") (metis, auto)
    with d ns show ?thesis by auto
  qed
qed

end


section \<open>Properties\<close>

text \<open>C6: replacing a live set through its staging set is atomic: whatever fails, the live set has its old
  contents, or is empty when it did not exist before, or has the complete new contents; it is never partly
  filled. On success it has exactly the new entries and the staging set is gone. No third set changes.
  This holds for every operator that satisfies the ipset contract.\<close>

theorem applySetAtomically_atomic:
  assumes "ipset_store ops contents entry okw" "okw w" "n \<in> set (pair_names (RuleSetNames g i))"
    "list_all (\<lambda>e. TrimSpace e = e) es" "applySetAtomically ops n f es w = (r, w')"
  shows "(r = None \<longrightarrow> contents w' n = Some (entry ` set es) \<and> contents w' (stagedSetName n) = None) \<and>
    (contents w' n = contents w n \<or> contents w n = None \<and> contents w' n = Some {} \<or> contents w' n = Some (entry ` set es)) \<and>
    (\<forall>m. m \<noteq> n \<longrightarrow> m \<noteq> stagedSetName n \<longrightarrow> contents w' m = contents w m)"
proof -
  have "n \<noteq> stagedSetName n" using staged_not_pair [of n g i] assms(3) by metis
  from ipset_store.replace_set [OF assms(1,5,2) this assms(4)] show ?thesis by blast
qed

definition sample_mock :: mock_ipset where
  "sample_mock = \<lparr>Sets = [(''svpn_tv_r1d4'', ''inet'')], IPs = [(''svpn_tv_r1d4'', [''192.0.2.0/24''])], Calls = [],
     ListErr = None, RunErr = None\<rparr>"

lemma sample_mock_inv: "mock_inv sample_mock"
  by (simp add: mock_inv_def sample_mock_def)

theorem applySetAtomically_atomic_witness:
  "mock_contents (snd (applySetAtomically MockIPSet ''svpn_tv_r1d4'' ''inet'' [''198.51.100.0/24''] sample_mock)) ''svpn_tv_r1d4''
     = Some {''198.51.100.0/24''}"
proof -
  let ?run = "applySetAtomically MockIPSet ''svpn_tv_r1d4'' ''inet'' [''198.51.100.0/24''] sample_mock"
  have n: "''svpn_tv_r1d4'' \<in> set (pair_names (RuleSetNames ''tv'' 0))" by code_simp
  have es: "list_all (\<lambda>e. TrimSpace e = e) [''198.51.100.0/24'']" by code_simp
  have r: "fst ?run = None" by code_simp
  from applySetAtomically_atomic [OF mock.ipset_store_axioms sample_mock_inv n es surjective_pairing] r
  show ?thesis by simp
qed

text \<open>C16: after a successful \<open>applyDesiredSets\<close> every desired set has exactly its aggregated entries and no staging
  set is left; when it fails, each desired set has its old or its complete new contents (or was created
  empty). Sets that are neither desired nor staging sets of desired sets never change.\<close>

theorem applyDesiredSets_installs:
  assumes "ipset_store ops contents entry okw" "okw w" "\<forall>n \<in> set (map fst desired). live_name n"
    "applyDesiredSets netipx ops desired w = (r, w')"
  shows "(r = None \<longrightarrow> (\<forall>n \<in> set (map fst desired). (\<exists>es. desired_entries netipx desired n = Some es \<and>
        contents w' n = Some (entry ` set es)) \<and> contents w' (stagedSetName n) = None)) \<and>
    (\<forall>n \<in> set (map fst desired). contents w' n = contents w n \<or> contents w n = None \<and> contents w' n = Some {} \<or>
        (\<exists>es. desired_entries netipx desired n = Some es \<and> contents w' n = Some (entry ` set es))) \<and>
    (\<forall>m. m \<notin> set (map fst desired) \<union> stagedSetName ` set (map fst desired) \<longrightarrow> contents w' m = contents w m)"
  using ipset_store.apply_all_success [OF assms(1) _ assms(2,3)] ipset_store.apply_all_either [OF assms(1,4,2,3)]
    ipset_store.apply_all_frame [OF assms(1,4,2,3)] assms(4)
  by blast

theorem applyDesiredSets_installs_witness:
  "mock_contents (snd (applyDesiredSets Some MockIPSet [(''svpn_tv_r1d4'', \<lparr>Family = ''inet'', Entries = ['' 10.0.0.7'']\<rparr>)] sample_mock))
     ''svpn_tv_r1d4'' = Some {''10.0.0.7/32''}"
proof -
  let ?d = "[(''svpn_tv_r1d4'', \<lparr>Family = ''inet'', Entries = ['' 10.0.0.7'']\<rparr>)]"
  let ?run = "applyDesiredSets Some MockIPSet ?d sample_mock"
  have "''svpn_tv_r1d4'' \<in> set (pair_names (RuleSetNames ''tv'' 0))" by code_simp
  then have l: "\<forall>n \<in> set (map fst ?d). live_name n" unfolding live_name_def by auto
  have r: "fst ?run = None" by code_simp
  have d: "desired_entries Some ?d ''svpn_tv_r1d4'' = Some [''10.0.0.7/32'']" by code_simp
  from applyDesiredSets_installs [OF mock.ipset_store_axioms sample_mock_inv l surjective_pairing, of Some] r d
  show ?thesis by simp
qed

text \<open>C11: the clean-up removes only sets of this program that are not active, and on success all of them: every
  other set, in particular every set with a foreign name, is left as it is.\<close>

theorem cleanupStaleSets_exact:
  assumes "ipset_listing ops contents entry okw" "okw w" "cleanupStaleSets ops active w = (r, w')"
  shows "(\<forall>m. contents w' m = contents w m \<or> HasPrefix m ''svpn_'' \<and> m \<notin> set active \<and> contents w' m = None) \<and>
    (r = None \<longrightarrow> (\<forall>m. HasPrefix m ''svpn_'' \<longrightarrow> m \<notin> set active \<longrightarrow> contents w' m = None))"
  using ipset_listing.cleanup [OF assms(1,3,2)] by (auto simp: setPrefix_def)

theorem cleanupStaleSets_exact_witness:
  "mock_contents (snd (cleanupStaleSets MockIPSet [] sample_mock)) ''svpn_tv_r1d4'' = None \<and>
   mock_contents (snd (cleanupStaleSets MockIPSet [''svpn_tv_r1d4''] sample_mock)) ''svpn_tv_r1d4'' = Some {''192.0.2.0/24''}"
proof -
  let ?a = "cleanupStaleSets MockIPSet [] sample_mock" and ?b = "cleanupStaleSets MockIPSet [''svpn_tv_r1d4''] sample_mock"
  note c = cleanupStaleSets_exact [OF mock.ipset_listing_axioms sample_mock_inv]
  have "fst ?a = None" "HasPrefix ''svpn_tv_r1d4'' ''svpn_''"
    "mock_contents sample_mock ''svpn_tv_r1d4'' = Some {''192.0.2.0/24''}" by code_simp+
  then show ?thesis
    using c [OF surjective_pairing, of "[]", THEN conjunct2, THEN mp, THEN spec, of "''svpn_tv_r1d4''"]
      c [OF surjective_pairing, of "[''svpn_tv_r1d4'']", THEN conjunct1, THEN spec, of "''svpn_tv_r1d4''"]
    by simp
qed

end
