(* ===== verification/Iptables.thy ===== *)
theory Iptables
  imports Executor Set_Names "HOL-Library.Product_Lexorder"
begin

text \<open>
  The iptables layer (\<^verbatim>\<open>internal/routing/iptables.go\<close>, \<^verbatim>\<open>iptables_mark.go\<close>): two generations of
  chains, A and B. \<open>ApplyRules\<close> rebuilds the generation that is not in use, then moves the jump of each root
  chain to it. A binding is the record \<open>route_binding\<close> of \<^verbatim>\<open>model.go\<close>; marks are 32-bit words. The state the
  loop over the bindings accumulates is the record \<open>apply_state\<close>. \<^verbatim>\<open>ip rule\<close> handling is in
  \<open>IP_Rules\<close>, which completes \<open>ApplyRules\<close> and \<open>FlushRules\<close>.
\<close>


section \<open>Data\<close>

record route_binding =
  rb_GroupName :: string
  rb_RuleIndex :: int
  rb_RuleName :: string
  rb_SourceInterfaces :: "string list"
  rb_SourceSetV4 :: string
  rb_SourceSetV6 :: string
  rb_ExcludedSourceSetV4 :: string
  rb_ExcludedSourceSetV6 :: string
  rb_SourceMACs :: "string list"
  rb_DestinationSetV4 :: string
  rb_DestinationSetV6 :: string
  rb_ExcludedDestinationSetV4 :: string
  rb_ExcludedDestinationSetV6 :: string
  rb_HasSource :: bool
  rb_HasExcludedSource :: bool
  rb_HasDestination :: bool
  rb_HasExcludedDestination :: bool
  rb_DestinationPorts :: "port_range list"
  rb_ExcludedDestinationPorts :: "port_range list"
  rb_ExcludeMulticast :: bool
  rb_Mark :: "32 word"
  rb_RouteTable :: int
  rb_Interface :: string
  rb_EgressVPN :: string
  rb_MSSClampV4 :: string
  rb_MSSClampV6 :: string

record mss_clamp =
  clamp_v4 :: string
  clamp_v6 :: string

datatype rule_error =
    LinkFailed string string string | FlushFailed string string | MigrationFlushFailed string string
  | SwitchFailed string string string | InvalidMark "32 word" string | InvalidTable int string
  | MissingInterface string | ConflictingTables "32 word" int int | MissingSetNames string string int
  | RuleFailed string string | MSSFailed string string | NATFailed string string
  | IPRuleFailed bool string int

record apply_state =
  desiredRules :: "(32 word \<times> int) list"
  seenNATRules :: "string list"
  mssByInterface :: "(string \<times> mss_clamp) list"

definition markChainName :: string where "markChainName = ''SVPN_MARK''"
definition natChainName :: string where "natChainName = ''SVPN_NAT''"
definition mssChainName :: string where "mssChainName = ''SVPN_MSS''"
definition markChainA :: string where "markChainA = ''SVPN_MARK_A''"
definition markChainB :: string where "markChainB = ''SVPN_MARK_B''"
definition natChainA :: string where "natChainA = ''SVPN_NAT_A''"
definition natChainB :: string where "natChainB = ''SVPN_NAT_B''"
definition mssChainA :: string where "mssChainA = ''SVPN_MSS_A''"
definition mssChainB :: string where "mssChainB = ''SVPN_MSS_B''"
definition rulePriority :: string where "rulePriority = ''100''"
definition deleteLoopLimit :: nat where "deleteLoopLimit = 64"

lemmas chain_names = markChainName_def natChainName_def mssChainName_def markChainA_def markChainB_def
  natChainA_def natChainB_def mssChainA_def mssChainB_def

definition hex_mark :: "32 word \<Rightarrow> string" where
  "hex_mark m = ''0x'' @ show_hex (unat m)"


section \<open>Generations\<close>

definition active_line :: "string \<Rightarrow> string \<Rightarrow> string option" where
  "active_line root raw =
     (let fields = Fields (TrimSpace raw) in
      if length fields < 4 then None
      else if fields ! 0 \<noteq> ''-A'' \<or> fields ! 1 \<noteq> root \<or> fields ! 2 \<noteq> ''-j'' then None
      else if fields ! 3 = markChainA \<or> fields ! 3 = markChainB then Some (fields ! 3)
      else None)"

definition detectActiveGeneration :: "'w executor \<Rightarrow> string \<Rightarrow> string \<Rightarrow> string \<Rightarrow> 'w \<Rightarrow> string \<times> 'w" where
  "detectActiveGeneration x tool table root w =
     (case Output x tool [''-t'', table, ''-S'', root] w of
        (Inl e, w') \<Rightarrow> ([], w')
      | (Inr output, w') \<Rightarrow>
          (case List.map_filter (active_line root) (Split output (CHR 0x0A)) of [] \<Rightarrow> ([], w') | c # _ \<Rightarrow> (c, w')))"

definition detectActiveVariant :: "'w executor \<Rightarrow> 'w \<Rightarrow> string \<times> 'w" where
  "detectActiveVariant x w =
     (case detectActiveGeneration x ''iptables'' ''mangle'' markChainName w of
        (active, w') \<Rightarrow> if active = [] then detectActiveGeneration x ''ip6tables'' ''mangle'' markChainName w' else (active, w'))"

record variant =
  workingMark :: string
  workingNAT :: string
  workingMSS :: string
  staleMark :: string
  staleNAT :: string
  staleMSS :: string

definition selectWorkingVariant :: "string \<Rightarrow> variant" where
  "selectWorkingVariant active =
     (if active = markChainA
      then \<lparr>workingMark = markChainB, workingNAT = natChainB, workingMSS = mssChainB,
             staleMark = markChainA, staleNAT = natChainA, staleMSS = mssChainA\<rparr>
      else \<lparr>workingMark = markChainA, workingNAT = natChainA, workingMSS = mssChainA,
             staleMark = markChainB, staleNAT = natChainB, staleMSS = mssChainB\<rparr>)"

definition generationRuleChainPrefix :: "string \<Rightarrow> string" where
  "generationRuleChainPrefix generation =
     (if generation = markChainA then ''SVPNA_'' else if generation = markChainB then ''SVPNB_'' else [])"

definition generationRuleChainName :: "string \<Rightarrow> int \<Rightarrow> bool \<Rightarrow> string" where
  "generationRuleChainName generation bindingIndex isIPv6 =
     (let pre = (if generationRuleChainPrefix generation = [] then ''SVPNX_'' else generationRuleChainPrefix generation);
          i = (if bindingIndex < 0 then 0 else bindingIndex)
      in pre @ pad_zero 3 (Itoa (i + 1)) @ ''_'' @ (if isIPv6 then ''6'' else ''4''))"

definition generation_chain :: "string \<Rightarrow> string \<Rightarrow> string option" where
  "generation_chain pre raw =
     (let fields = Fields (TrimSpace raw) in
      if length fields < 2 \<or> fields ! 0 \<noteq> ''-N'' then None
      else (let chainName = TrimSpace (fields ! 1) in
            if chainName = [] \<or> \<not> HasPrefix chainName pre then None else Some chainName))"

definition cleanupGenerationRuleChains :: "'w executor \<Rightarrow> string \<Rightarrow> string \<Rightarrow> string \<Rightarrow> (rule_error, 'w) proc" where
  "cleanupGenerationRuleChains x tool table generation w =
     (let pre = generationRuleChainPrefix generation in
      if pre = [] then (None, w)
      else (case Output x tool [''-t'', table, ''-S''] w of
              (Inl e, w') \<Rightarrow> (None, w')
            | (Inr output, w') \<Rightarrow>
                for_each (\<lambda>chain. and_then (ignore_err (Run x tool [''-t'', table, ''-F'', chain]))
                                           (ignore_err (Run x tool [''-t'', table, ''-X'', chain])))
                  (List.map_filter (generation_chain pre) (Split output (CHR 0x0A))) w'))"

definition prepareGenerationChain ::
  "'w executor \<Rightarrow> string \<Rightarrow> string \<Rightarrow> string \<Rightarrow> string \<Rightarrow> string \<Rightarrow> (rule_error, 'w) proc" where
  "prepareGenerationChain x tool table root parent generation =
     and_then (ignore_err (Run x tool [''-t'', table, ''-N'', root]))
     (and_then (on_err (Run x tool [''-t'', table, ''-C'', parent, ''-j'', root])
                  (\<lambda>_. map_err (\<lambda>_. LinkFailed tool parent root) (Run x tool [''-t'', table, ''-A'', parent, ''-j'', root])))
     (and_then (ignore_err (Run x tool [''-t'', table, ''-N'', generation]))
     (and_then (map_err (\<lambda>_. FlushFailed tool generation) (Run x tool [''-t'', table, ''-F'', generation]))
               (cleanupGenerationRuleChains x tool table generation))))"

definition switchRootJump ::
  "'w executor \<Rightarrow> string \<Rightarrow> string \<Rightarrow> string \<Rightarrow> string \<Rightarrow> string \<Rightarrow> (rule_error, 'w) proc" where
  "switchRootJump x tool table root nxt stale =
     and_then (on_err (Run x tool [''-t'', table, ''-C'', root, ''-j'', nxt])
                 (\<lambda>_. map_err (\<lambda>_. SwitchFailed tool root nxt) (Run x tool [''-t'', table, ''-I'', root, ''1'', ''-j'', nxt])))
              (repeat_until_err deleteLoopLimit (Run x tool [''-t'', table, ''-D'', root, ''-j'', stale]))"


section \<open>Mark rules\<close>

definition portBounds :: "port_range \<Rightarrow> int \<times> int" where
  "portBounds port = (Start port, if End port \<le> 0 then Start port else End port)"

definition portsOverlapForExclusion :: "port_range \<Rightarrow> port_range \<Rightarrow> bool" where
  "portsOverlapForExclusion includePort excludedPort =
     (let includeProtocol = ToLower (TrimSpace (Protocol includePort));
          excludedProtocol = ToLower (TrimSpace (Protocol excludedPort))
      in if excludedProtocol = [] then False
         else if includeProtocol \<noteq> [] \<and> includeProtocol \<noteq> excludedProtocol then False
         else if includeProtocol = [] then True
         else (let (is, ie) = portBounds includePort; (es, ee) = portBounds excludedPort
               in is \<le> ee \<and> es \<le> ie))"

definition formatPortRange :: "port_range \<Rightarrow> string" where
  "formatPortRange port =
     (if End port \<le> 0 \<or> End port = Start port then Itoa (Start port)
      else Itoa (Start port) @ '':'' @ Itoa (End port))"

definition no_port :: port_range where
  "no_port = \<lparr>Protocol = [], Start = 0, End = 0\<rparr>"

definition expandPortSelectors :: "port_range list \<Rightarrow> port_range list" where
  "expandPortSelectors ports =
     (if ports = [] then [no_port]
      else concat (map (\<lambda>port. if EqualFold (Protocol port) ''both''
             then [\<lparr>Protocol = ''tcp'', Start = Start port, End = End port\<rparr>,
                   \<lparr>Protocol = ''udp'', Start = Start port, End = End port\<rparr>]
             else [port]) ports))"

definition expandSelectorValues :: "string list \<Rightarrow> string list" where
  "expandSelectorValues vals = (if vals = [] then [[]] else sort_strings vals)"

definition by_family :: "string \<Rightarrow> 'a \<Rightarrow> 'a \<Rightarrow> 'a" where
  "by_family tool v4 v6 = (if tool = ''ip6tables'' then v6 else v4)"

definition baseMarkRuleArgs :: "string \<Rightarrow> string \<Rightarrow> route_binding \<Rightarrow> port_range \<Rightarrow> string \<Rightarrow> string \<Rightarrow> string list" where
  "baseMarkRuleArgs tool chain b port sourceIface sourceMAC =
     [''-t'', ''mangle'', ''-A'', chain] @
     (if rb_HasSource b
      then [''-m'', ''set'', ''--match-set'', by_family tool (rb_SourceSetV4 b) (rb_SourceSetV6 b), ''src''] else []) @
     (if rb_HasDestination b
      then [''-m'', ''set'', ''--match-set'', by_family tool (rb_DestinationSetV4 b) (rb_DestinationSetV6 b), ''dst''] else []) @
     (if sourceIface \<noteq> [] then [''-i'', sourceIface] else []) @
     (if sourceMAC \<noteq> [] then [''-m'', ''mac'', ''--mac-source'', sourceMAC] else []) @
     (if Protocol port \<noteq> [] then [''-p'', Protocol port, ''--dport'', formatPortRange port] else [])"

definition addExclusionRulesByFamily ::
  "'w executor \<Rightarrow> string \<Rightarrow> route_binding \<Rightarrow> port_range \<Rightarrow> port_range list \<Rightarrow> string list \<Rightarrow> (rule_error, 'w) proc" where
  "addExclusionRulesByFamily x tool b includePort excludedPorts baseArgs =
     (let run = (\<lambda>args. map_err (\<lambda>_. RuleFailed tool (rb_GroupName b)) (Run x tool (baseArgs @ args @ [''-j'', ''RETURN'']))) in
      and_then (when_ok (rb_ExcludeMulticast b) (run [''-d'', by_family tool ''224.0.0.0/4'' ''ff00::/8'']))
      (and_then (when_ok (rb_HasExcludedSource b)
         (run [''-m'', ''set'', ''--match-set'', by_family tool (rb_ExcludedSourceSetV4 b) (rb_ExcludedSourceSetV6 b), ''src'']))
      (and_then (when_ok (rb_HasExcludedDestination b)
         (run [''-m'', ''set'', ''--match-set'', by_family tool (rb_ExcludedDestinationSetV4 b) (rb_ExcludedDestinationSetV6 b), ''dst'']))
      (for_each (\<lambda>excludedPort.
           if \<not> portsOverlapForExclusion includePort excludedPort then skip_ok
           else run ((if Protocol includePort = [] then [''-p'', Protocol excludedPort] else []) @
                     [''--dport'', formatPortRange excludedPort]))
         excludedPorts))))"

definition add_selector_rules ::
  "'w executor \<Rightarrow> string \<Rightarrow> route_binding \<Rightarrow> string \<Rightarrow> string \<Rightarrow> string \<times> string \<times> port_range \<Rightarrow> (rule_error, 'w) proc" where
  "add_selector_rules x tool b ruleChain markHex sel =
     (case sel of (sourceIface, sourceMAC, port) \<Rightarrow>
       (let baseArgs = baseMarkRuleArgs tool ruleChain b port sourceIface sourceMAC in
        and_then (addExclusionRulesByFamily x tool b port (expandPortSelectors (rb_ExcludedDestinationPorts b)) baseArgs)
                 (map_err (\<lambda>_. RuleFailed tool (rb_GroupName b))
                    (Run x tool (baseArgs @ [''-j'', ''MARK'', ''--set-mark'', markHex])))))"

text \<open>The three nested loops over interfaces, MAC addresses and ports.\<close>

definition selector_combinations :: "route_binding \<Rightarrow> (string \<times> string \<times> port_range) list" where
  "selector_combinations b =
     [(i, a, p). i \<leftarrow> expandSelectorValues (rb_SourceInterfaces b), a \<leftarrow> expandSelectorValues (rb_SourceMACs b),
                 p \<leftarrow> expandPortSelectors (rb_DestinationPorts b)]"

definition addMarkRulesByFamily ::
  "'w executor \<Rightarrow> string \<Rightarrow> string \<Rightarrow> route_binding \<Rightarrow> int \<Rightarrow> string \<Rightarrow> (rule_error, 'w) proc" where
  "addMarkRulesByFamily x tool chain b bindingIndex markHex =
     (let ruleChain = generationRuleChainName chain bindingIndex (tool = ''ip6tables'') in
      and_then (on_err (Run x tool [''-t'', ''mangle'', ''-N'', ruleChain])
                  (\<lambda>_. ignore_err (Run x tool [''-t'', ''mangle'', ''-F'', ruleChain])))
      (and_then (map_err (\<lambda>_. FlushFailed tool ruleChain) (Run x tool [''-t'', ''mangle'', ''-F'', ruleChain]))
      (and_then (map_err (\<lambda>_. LinkFailed tool chain ruleChain)
                   (Run x tool [''-t'', ''mangle'', ''-A'', chain, ''-j'', ruleChain]))
                (for_each (add_selector_rules x tool b ruleChain markHex) (selector_combinations b)))))"

definition missing_sets :: "bool \<Rightarrow> string \<Rightarrow> string \<Rightarrow> bool" where
  "missing_sets has s4 s6 \<longleftrightarrow> has \<and> (TrimSpace s4 = [] \<or> TrimSpace s6 = [])"

definition addMarkRules :: "'w executor \<Rightarrow> route_binding \<Rightarrow> int \<Rightarrow> string \<Rightarrow> string \<Rightarrow> (rule_error, 'w) proc" where
  "addMarkRules x b bindingIndex chain markHex =
     (let missing = (\<lambda>kind. fail_with (MissingSetNames kind (rb_GroupName b) (rb_RuleIndex b + 1))) in
      if missing_sets (rb_HasSource b) (rb_SourceSetV4 b) (rb_SourceSetV6 b) then missing ''source''
      else if missing_sets (rb_HasExcludedSource b) (rb_ExcludedSourceSetV4 b) (rb_ExcludedSourceSetV6 b)
      then missing ''excluded source''
      else if missing_sets (rb_HasDestination b) (rb_DestinationSetV4 b) (rb_DestinationSetV6 b) then missing ''destination''
      else if missing_sets (rb_HasExcludedDestination b) (rb_ExcludedDestinationSetV4 b) (rb_ExcludedDestinationSetV6 b)
      then missing ''excluded destination''
      else and_then (addMarkRulesByFamily x ''iptables'' chain b bindingIndex markHex)
                    (addMarkRulesByFamily x ''ip6tables'' chain b bindingIndex markHex))"

end
