(* ===== verification/IP_Rules.thy ===== *)
theory IP_Rules
  imports Iptables
begin

text \<open>
  Policy routing rules (\<^verbatim>\<open>internal/routing/iptables_iprules.go\<close>) and the two entry points of the rule
  manager, \<open>ApplyRules\<close> and \<open>FlushRules\<close> (\<^verbatim>\<open>iptables.go\<close>). The rules the program manages are those of
  priority 100 with a mark and a table of at least 200; they are read from \<^verbatim>\<open>ip rule show\<close>. Go's map from
  the printed pair to the pair is a list of pairs without repetition: the key text determines the pair.
\<close>


section \<open>Reading the rules\<close>

type_synonym rule_pair = "32 word \<times> int"

definition scan_rule_field :: "string \<Rightarrow> string \<Rightarrow> string \<times> int \<Rightarrow> string \<times> int" where
  "scan_rule_field f g acc =
     (if f = ''fwmark'' then (hd (Split (TrimSpace g) (CHR ''/'')), snd acc)
      else if f = ''lookup'' \<or> f = ''table'' then (fst acc, case Atoi g of Some n \<Rightarrow> n | None \<Rightarrow> snd acc)
      else acc)"

fun scan_rule_fields :: "string list \<Rightarrow> string \<times> int \<Rightarrow> string \<times> int" where
  "scan_rule_fields (f # g # fs) acc = scan_rule_fields (g # fs) (scan_rule_field f g acc)"
| "scan_rule_fields _ acc = acc"

definition parseIPRuleLine :: "string \<Rightarrow> (string \<times> int) option" where
  "parseIPRuleLine line =
     (let fields = Fields (TrimSpace line) in
      if length fields < 6 then None
      else (let (mark, table) = scan_rule_fields fields ([], -1) in
            if mark = [] \<or> table < 0 then None else Some (mark, table)))"

definition managed_pair :: "string \<Rightarrow> rule_pair option" where
  "managed_pair line =
     (let t = TrimSpace line in
      if t = [] \<or> \<not> HasPrefix t (rulePriority @ '':'') then None
      else (case parseIPRuleLine t of
              None \<Rightarrow> None
            | Some (markToken, tableID) \<Rightarrow>
                if tableID < 200 then None
                else (case ParseUint32 markToken of
                        None \<Rightarrow> None
                      | Some v \<Rightarrow> if v < 200 then None else Some (word_of_nat v, tableID))))"

definition managed_pairs :: "string \<Rightarrow> rule_pair list" where
  "managed_pairs output = remdups (List.map_filter managed_pair (Split output (CHR 0x0A)))"

definition ip_args :: "bool \<Rightarrow> string list \<Rightarrow> string list" where
  "ip_args ipv6 args = (if ipv6 then ''-6'' # args else args)"

definition loadManagedIPRules :: "'w executor \<Rightarrow> bool \<Rightarrow> 'w \<Rightarrow> rule_pair list option \<times> 'w" where
  "loadManagedIPRules x ipv6 w =
     (case Output x ''ip'' (ip_args ipv6 [''rule'', ''show'']) w of
        (Inl e, w') \<Rightarrow> (None, w')
      | (Inr output, w') \<Rightarrow> (Some (managed_pairs output), w'))"


section \<open>Changing the rules\<close>

definition rule_args :: "string \<Rightarrow> bool \<Rightarrow> rule_pair \<Rightarrow> string list" where
  "rule_args verb ipv6 p =
     ip_args ipv6 [''rule'', verb, ''fwmark'', hex_mark (fst p), ''table'', Itoa (snd p), ''priority'', rulePriority]"

definition add_rule :: "'w executor \<Rightarrow> bool \<Rightarrow> rule_pair \<Rightarrow> (rule_error, 'w) proc" where
  "add_rule x ipv6 p =
     map_err (\<lambda>_. IPRuleFailed ipv6 (hex_mark (fst p)) (snd p)) (Run x ''ip'' (rule_args ''add'' ipv6 p))"

definition delete_rule :: "'w executor \<Rightarrow> bool \<Rightarrow> rule_pair \<Rightarrow> (rule_error, 'w) proc" where
  "delete_rule x ipv6 p = repeat_until_err deleteLoopLimit (Run x ''ip'' (rule_args ''del'' ipv6 p))"

definition refreshIPRule :: "'w executor \<Rightarrow> bool \<Rightarrow> rule_pair \<Rightarrow> (rule_error, 'w) proc" where
  "refreshIPRule x ipv6 p = and_then (delete_rule x ipv6 p) (add_rule x ipv6 p)"

definition sortedMarks :: "(32 word \<times> int) list \<Rightarrow> 32 word list" where
  "sortedMarks desired = sort (map fst desired)"

definition sorted_pairs :: "rule_pair list \<Rightarrow> rule_pair list" where
  "sorted_pairs ps = sort ps"

definition table_of :: "(32 word \<times> int) list \<Rightarrow> 32 word \<Rightarrow> int" where
  "table_of desired mark = (case map_of desired mark of None \<Rightarrow> 0 | Some t \<Rightarrow> t)"

definition reconcileManagedIPRules :: "'w executor \<Rightarrow> (32 word \<times> int) list \<Rightarrow> bool \<Rightarrow> (rule_error, 'w) proc" where
  "reconcileManagedIPRules x desired ipv6 w =
     (case loadManagedIPRules x ipv6 w of
        (None, w') \<Rightarrow> for_each (\<lambda>mark. refreshIPRule x ipv6 (mark, table_of desired mark)) (sortedMarks desired) w'
      | (Some existing, w') \<Rightarrow>
          and_then
            (for_each (\<lambda>mark. let p = (mark, table_of desired mark) in
                 if p \<in> set existing then skip_ok else add_rule x ipv6 p) (sortedMarks desired))
            (for_each (delete_rule x ipv6)
               (sorted_pairs (filter (\<lambda>p. map_of desired (fst p) \<noteq> Some (snd p)) existing))) w')"

definition flushManagedIPRules :: "'w executor \<Rightarrow> bool \<Rightarrow> (rule_error, 'w) proc" where
  "flushManagedIPRules x ipv6 w =
     (case loadManagedIPRules x ipv6 w of
        (None, w') \<Rightarrow> (None, w')
      | (Some existing, w') \<Rightarrow> for_each (delete_rule x ipv6) (sorted_pairs existing) w')"


section \<open>Applying the bindings\<close>

definition mss_enabled :: "mss_clamp \<Rightarrow> bool" where
  "mss_enabled c \<longleftrightarrow> TrimSpace (clamp_v4 c) \<noteq> [] \<or> TrimSpace (clamp_v6 c) \<noteq> []"

definition sortedInterfaces :: "(string \<times> mss_clamp) list \<Rightarrow> string list" where
  "sortedInterfaces byInterface = sort_strings (map fst byInterface)"

definition addMSSRuleForFamily :: "'w executor \<Rightarrow> string \<Rightarrow> string \<Rightarrow> string \<Rightarrow> string \<Rightarrow> (rule_error, 'w) proc" where
  "addMSSRuleForFamily x tool chain iface v =
     map_err (\<lambda>_. MSSFailed tool iface)
       (Run x tool ([''-t'', ''mangle'', ''-A'', chain, ''-o'', iface, ''-p'', ''tcp'', ''-m'', ''tcp'',
           ''--tcp-flags'', ''SYN,RST'', ''SYN'', ''-j'', ''TCPMSS''] @
          (if EqualFold v ''pmtu'' then [''--clamp-mss-to-pmtu''] else [''--set-mss'', v])))"

definition addMSSRules :: "'w executor \<Rightarrow> string \<Rightarrow> string \<Rightarrow> mss_clamp \<Rightarrow> (rule_error, 'w) proc" where
  "addMSSRules x chain iface clamp =
     and_then (when_ok (TrimSpace (clamp_v4 clamp) \<noteq> [])
                 (addMSSRuleForFamily x ''iptables'' chain iface (TrimSpace (clamp_v4 clamp))))
              (when_ok (TrimSpace (clamp_v6 clamp) \<noteq> [])
                 (addMSSRuleForFamily x ''ip6tables'' chain iface (TrimSpace (clamp_v6 clamp))))"

definition addNATRule :: "'w executor \<Rightarrow> string \<Rightarrow> string \<Rightarrow> string \<Rightarrow> string \<Rightarrow> string \<Rightarrow> (rule_error, 'w) proc" where
  "addNATRule x tool chain markHex iface groupName =
     map_err (\<lambda>_. NATFailed tool groupName)
       (Run x tool [''-t'', ''nat'', ''-A'', chain, ''-m'', ''mark'', ''--mark'', markHex, ''-o'', iface, ''-j'', ''MASQUERADE''])"

definition check_binding :: "apply_state \<Rightarrow> route_binding \<Rightarrow> rule_error option" where
  "check_binding st b =
     (if rb_Mark b < 200 then Some (InvalidMark (rb_Mark b) (rb_GroupName b))
      else if rb_RouteTable b < 200 then Some (InvalidTable (rb_RouteTable b) (rb_GroupName b))
      else if TrimSpace (rb_Interface b) = [] then Some (MissingInterface (rb_GroupName b))
      else (case map_of (desiredRules st) (rb_Mark b) of
              Some t \<Rightarrow> if t \<noteq> rb_RouteTable b then Some (ConflictingTables (rb_Mark b) t (rb_RouteTable b)) else None
            | None \<Rightarrow> None))"

definition note_clamp :: "route_binding \<Rightarrow> apply_state \<Rightarrow> apply_state" where
  "note_clamp b st =
     (let clamp = \<lparr>clamp_v4 = rb_MSSClampV4 b, clamp_v6 = rb_MSSClampV6 b\<rparr> in
      if mss_enabled clamp
      then st\<lparr>mssByInterface := AList.update (rb_Interface b) clamp (mssByInterface st)\<rparr> else st)"

definition apply_binding ::
  "'w executor \<Rightarrow> variant \<Rightarrow> int \<Rightarrow> route_binding \<Rightarrow> apply_state \<Rightarrow> 'w \<Rightarrow> (rule_error + apply_state) \<times> 'w" where
  "apply_binding x v bindingIndex b st w =
     (case check_binding st b of
        Some e \<Rightarrow> (Inl e, w)
      | None \<Rightarrow>
          (let st1 = st\<lparr>desiredRules := AList.update (rb_Mark b) (rb_RouteTable b) (desiredRules st)\<rparr>;
               markHex = hex_mark (rb_Mark b); natKey = markHex @ '':'' @ rb_Interface b in
           case addMarkRules x b bindingIndex (workingMark v) markHex w of
             (Some e, w1) \<Rightarrow> (Inl e, w1)
           | (None, w1) \<Rightarrow>
               (let st2 = note_clamp b st1 in
                if natKey \<in> set (seenNATRules st2) then (Inr st2, w1)
                else (case and_then (addNATRule x ''iptables'' (workingNAT v) markHex (rb_Interface b) (rb_GroupName b))
                                    (addNATRule x ''ip6tables'' (workingNAT v) markHex (rb_Interface b) (rb_GroupName b)) w1 of
                        (Some e, w2) \<Rightarrow> (Inl e, w2)
                      | (None, w2) \<Rightarrow> (Inr (st2\<lparr>seenNATRules := natKey # seenNATRules st2\<rparr>), w2)))))"

fun apply_bindings ::
  "'w executor \<Rightarrow> variant \<Rightarrow> int \<Rightarrow> route_binding list \<Rightarrow> apply_state \<Rightarrow> 'w \<Rightarrow> (rule_error + apply_state) \<times> 'w" where
  "apply_bindings x v i [] st w = (Inr st, w)"
| "apply_bindings x v i (b # bs) st w =
     (case apply_binding x v i b st w of
        (Inl e, w') \<Rightarrow> (Inl e, w')
      | (Inr st', w') \<Rightarrow> apply_bindings x v (i + 1) bs st' w')"

definition root_chains :: "(string \<times> string \<times> string \<times> string) list" where
  "root_chains =
     [(''iptables'', ''mangle'', markChainName, ''PREROUTING''), (''iptables'', ''mangle'', mssChainName, ''FORWARD''),
      (''iptables'', ''nat'', natChainName, ''POSTROUTING''), (''ip6tables'', ''mangle'', markChainName, ''PREROUTING''),
      (''ip6tables'', ''mangle'', mssChainName, ''FORWARD''), (''ip6tables'', ''nat'', natChainName, ''POSTROUTING'')]"

definition working_of :: "variant \<Rightarrow> string \<Rightarrow> string" where
  "working_of v root = (if root = markChainName then workingMark v else if root = natChainName then workingNAT v else workingMSS v)"

definition stale_of :: "variant \<Rightarrow> string \<Rightarrow> string" where
  "stale_of v root = (if root = markChainName then staleMark v else if root = natChainName then staleNAT v else staleMSS v)"

definition prepare_generation :: "'w executor \<Rightarrow> variant \<Rightarrow> (rule_error, 'w) proc" where
  "prepare_generation x v =
     for_each (\<lambda>(tool, table, root, parent). prepareGenerationChain x tool table root parent (working_of v root)) root_chains"

definition migrate_roots :: "'w executor \<Rightarrow> (rule_error, 'w) proc" where
  "migrate_roots x =
     for_each (\<lambda>(tool, table, root, parent).
        map_err (\<lambda>_. MigrationFlushFailed tool root) (Run x tool [''-t'', table, ''-F'', root])) root_chains"

definition switch_roots :: "'w executor \<Rightarrow> variant \<Rightarrow> (rule_error, 'w) proc" where
  "switch_roots x v =
     for_each (\<lambda>(tool, table, root, parent). switchRootJump x tool table root (working_of v root) (stale_of v root)) root_chains"

definition sort_bindings :: "route_binding list \<Rightarrow> route_binding list" where
  "sort_bindings bs = sort_key (\<lambda>b. (rb_GroupName b, rb_RuleIndex b)) bs"

definition empty_state :: apply_state where
  "empty_state = \<lparr>desiredRules = [], seenNATRules = [], mssByInterface = []\<rparr>"

definition finish_apply :: "'w executor \<Rightarrow> variant \<Rightarrow> apply_state \<Rightarrow> (rule_error, 'w) proc" where
  "finish_apply x v st =
     and_then (for_each (\<lambda>iface. addMSSRules x (workingMSS v) iface (the (map_of (mssByInterface st) iface)))
                 (sortedInterfaces (mssByInterface st)))
     (and_then (switch_roots x v)
     (and_then (reconcileManagedIPRules x (desiredRules st) False)
               (reconcileManagedIPRules x (desiredRules st) True)))"

definition ApplyRules :: "'w executor \<Rightarrow> route_binding list \<Rightarrow> (rule_error, 'w) proc" where
  "ApplyRules x bindings w =
     (case detectActiveVariant x w of (active, w0) \<Rightarrow>
       (let v = selectWorkingVariant active in
        case and_then (prepare_generation x v) (when_ok (active = []) (migrate_roots x)) w0 of
          (Some e, w1) \<Rightarrow> (Some e, w1)
        | (None, w1) \<Rightarrow>
            (case apply_bindings x v 0 (sort_bindings bindings) empty_state w1 of
               (Inl e, w2) \<Rightarrow> (Some e, w2)
             | (Inr st, w2) \<Rightarrow> finish_apply x v st w2)))"

definition cleanupChain :: "'w executor \<Rightarrow> string \<Rightarrow> string \<Rightarrow> string \<Rightarrow> string \<Rightarrow> (rule_error, 'w) proc" where
  "cleanupChain x tool table chain parent =
     and_then (when_ok (parent \<noteq> []) (repeat_until_err deleteLoopLimit (Run x tool [''-t'', table, ''-D'', parent, ''-j'', chain])))
     (and_then (ignore_err (Run x tool [''-t'', table, ''-F'', chain]))
               (ignore_err (Run x tool [''-t'', table, ''-X'', chain])))"

definition flush_chains :: "(string \<times> string \<times> string \<times> string) list" where
  "flush_chains = root_chains @
     [(''iptables'', ''mangle'', markChainA, []), (''iptables'', ''mangle'', markChainB, []),
      (''iptables'', ''mangle'', mssChainA, []), (''iptables'', ''mangle'', mssChainB, []),
      (''iptables'', ''nat'', natChainA, []), (''iptables'', ''nat'', natChainB, []),
      (''ip6tables'', ''mangle'', markChainA, []), (''ip6tables'', ''mangle'', markChainB, []),
      (''ip6tables'', ''mangle'', mssChainA, []), (''ip6tables'', ''mangle'', mssChainB, []),
      (''ip6tables'', ''nat'', natChainA, []), (''ip6tables'', ''nat'', natChainB, [])]"

definition FlushRules :: "'w executor \<Rightarrow> (rule_error, 'w) proc" where
  "FlushRules x =
     and_then (for_each (\<lambda>(tool, table, chain, parent). cleanupChain x tool table chain parent) flush_chains)
     (and_then (for_each (\<lambda>(tool, generation). ignore_err (cleanupGenerationRuleChains x tool ''mangle'' generation) :: (rule_error, 'w) proc)
                  [(''iptables'', markChainA), (''iptables'', markChainB), (''ip6tables'', markChainA), (''ip6tables'', markChainB)])
     (and_then (flushManagedIPRules x False) (flushManagedIPRules x True)))"

end
