(* ===== verification/Rule_Safety.thy ===== *)
theory Rule_Safety
  imports IP_Rules
begin

text \<open>
  Safety of \<open>ApplyRules\<close> for every executor, whatever fails: no command operates on a chain of the generation
  that is in use, invalid bindings are rejected, and a rejected run leaves the jumps of the root chains alone.
  An iptables command names the chain it operates on in its fourth argument, after the table and the
  operation; \<open>confined\<close> turns a condition on the commands into what the run keeps.
\<close>


section \<open>Which chains are stale\<close>

definition stale_chain :: "variant \<Rightarrow> string \<Rightarrow> bool" where
  "stale_chain v c \<longleftrightarrow> c \<in> {staleMark v, staleNAT v, staleMSS v} \<or> HasPrefix c (generationRuleChainPrefix (staleMark v))"

definition keeps_stale :: "variant \<Rightarrow> string \<Rightarrow> string list \<Rightarrow> bool" where
  "keeps_stale v tool args \<longleftrightarrow> tool = ''ip'' \<or> length args > 3 \<and> \<not> stale_chain v (args ! 3)"

definition root_names :: "string list" where
  "root_names = [markChainName, mssChainName, natChainName]"

definition parent_names :: "string list" where
  "parent_names = [''PREROUTING'', ''FORWARD'', ''POSTROUTING'']"

definition working_chain :: "variant \<Rightarrow> string \<Rightarrow> bool" where
  "working_chain v c \<longleftrightarrow> c \<in> {workingMark v, workingNAT v, workingMSS v} \<or>
     HasPrefix c (generationRuleChainPrefix (workingMark v))"

definition variantA :: variant where
  "variantA = \<lparr>workingMark = ''SVPN_MARK_A'', workingNAT = ''SVPN_NAT_A'', workingMSS = ''SVPN_MSS_A'',
     staleMark = ''SVPN_MARK_B'', staleNAT = ''SVPN_NAT_B'', staleMSS = ''SVPN_MSS_B''\<rparr>"

definition variantB :: variant where
  "variantB = \<lparr>workingMark = ''SVPN_MARK_B'', workingNAT = ''SVPN_NAT_B'', workingMSS = ''SVPN_MSS_B'',
     staleMark = ''SVPN_MARK_A'', staleNAT = ''SVPN_NAT_A'', staleMSS = ''SVPN_MSS_A''\<rparr>"

lemma selectWorkingVariant_eq: "selectWorkingVariant a = (if a = markChainA then variantB else variantA)"
  unfolding selectWorkingVariant_def chain_names variantA_def variantB_def by (rule refl)

lemma selectWorkingVariant_cases: "selectWorkingVariant a = variantA \<or> selectWorkingVariant a = variantB"
  by (simp add: selectWorkingVariant_eq)

lemma variant_all: "P variantA \<Longrightarrow> P variantB \<Longrightarrow> P (selectWorkingVariant a)"
  using selectWorkingVariant_cases [of a] by (elim disjE) simp_all

lemma HasPrefix_Cons [simp]:
  "HasPrefix (c # s) (d # p) \<longleftrightarrow> c = d \<and> HasPrefix s p" "\<not> HasPrefix [] (d # p)" "HasPrefix s []"
  by (auto simp: HasPrefix_iff)

lemmas variant_chains = working_chain_def stale_chain_def generationRuleChainPrefix_def chain_names
  root_names_def parent_names_def variantA_def variantB_def

lemma working_not_stale: "working_chain (selectWorkingVariant a) c \<Longrightarrow> \<not> stale_chain (selectWorkingVariant a) c"
  by (rule variant_all [where P = "\<lambda>v. working_chain v c \<longrightarrow> \<not> stale_chain v c", THEN mp])
    (auto simp: variant_chains HasPrefix_iff)

lemma root_not_stale: "c \<in> set root_names \<or> c \<in> set parent_names \<Longrightarrow> \<not> stale_chain (selectWorkingVariant a) c"
  by (rule variant_all [where P = "\<lambda>v. c \<in> set root_names \<or> c \<in> set parent_names \<longrightarrow> \<not> stale_chain v c", THEN mp])
    (auto simp: variant_chains)

lemma working_not_root: "working_chain (selectWorkingVariant a) c \<Longrightarrow> c \<notin> set root_names"
  by (rule variant_all [where P = "\<lambda>v. working_chain v c \<longrightarrow> c \<notin> set root_names", THEN mp])
    (auto simp: variant_chains HasPrefix_iff)

lemma rule_chain_working:
  "working_chain (selectWorkingVariant a) (generationRuleChainName (workingMark (selectWorkingVariant a)) i f)"
  by (rule variant_all [where P = "\<lambda>v. working_chain v (generationRuleChainName (workingMark v) i f)"])
    (simp_all add: variant_chains generationRuleChainName_def Let_def)

lemma working_of_chain: "working_chain (selectWorkingVariant a) (working_of (selectWorkingVariant a) r)"
  by (auto simp: working_chain_def working_of_def)

lemma generation_chain_working:
  assumes "generation_chain (generationRuleChainPrefix g) raw = Some c" "g \<in> {workingMark v, workingNAT v, workingMSS v}"
    "v = selectWorkingVariant a"
    "generationRuleChainPrefix g \<noteq> []"
  shows "working_chain v c"
proof -
  have "HasPrefix c (generationRuleChainPrefix g)"
    using assms(1) by (auto simp: generation_chain_def Let_def split: if_splits)
  moreover have "g = workingMark v"
    using assms(2,4) selectWorkingVariant_cases [of a] unfolding assms(3)
    by (elim disjE) (auto simp: variant_chains split: if_splits)
  ultimately show ?thesis by (simp add: working_chain_def)
qed

lemma root_chains_in: "(tool, table, root, parent) \<in> set root_chains \<Longrightarrow> root \<in> set root_names \<and> parent \<in> set parent_names"
  by (auto simp: root_chains_def root_names_def parent_names_def)


section \<open>No command operates on the generation in use\<close>

text \<open>What every phase of the run keeps, for a condition \<open>ok\<close> on commands that allows all of them.\<close>

lemma preserves_cleanup:
  assumes "confined x ok P" "\<And>c. HasPrefix c (generationRuleChainPrefix g) \<Longrightarrow> generationRuleChainPrefix g \<noteq> [] \<Longrightarrow>
      ok tool [''-t'', table, ''-F'', c] \<and> ok tool [''-t'', table, ''-X'', c]"
  shows "preserves P (cleanupGenerationRuleChains x tool table g)"
proof (rule preservesI)
  fix w assume "P w"
  obtain r w0 where out: "Output x tool [''-t'', table, ''-S''] w = (r, w0)" by fastforce
  have w0: "P w0" by (rule confined_Output [OF assms(1) \<open>P w\<close> out])
  have "preserves P (for_each (\<lambda>c. and_then (ignore_err (Run x tool [''-t'', table, ''-F'', c]))
      (ignore_err (Run x tool [''-t'', table, ''-X'', c])) :: (rule_error, 'a) proc)
      (List.map_filter (generation_chain (generationRuleChainPrefix g)) ls))"
    if "generationRuleChainPrefix g \<noteq> []" for ls
  proof (intro proc_rules confined_Run [OF assms(1)])
    fix c assume "c \<in> set (List.map_filter (generation_chain (generationRuleChainPrefix g)) ls)"
    then have "HasPrefix c (generationRuleChainPrefix g)"
      by (auto simp: List.map_filter_def generation_chain_def Let_def split: if_splits)
    from assms(2) [OF this that]
    show "ok tool [''-t'', table, ''-F'', c]" "ok tool [''-t'', table, ''-X'', c]" by simp_all
  qed
  then show "P (snd (cleanupGenerationRuleChains x tool table g w))"
    using w0 \<open>P w\<close> by (auto simp: cleanupGenerationRuleChains_def Let_def out preserves_def split: sum.splits)
qed

lemma preserves_prepare:
  assumes "confined x ok P"
    "\<And>c. HasPrefix c (generationRuleChainPrefix g) \<Longrightarrow> generationRuleChainPrefix g \<noteq> [] \<Longrightarrow>
      ok tool [''-t'', table, ''-F'', c] \<and> ok tool [''-t'', table, ''-X'', c]"
    "ok tool [''-t'', table, ''-N'', root]" "ok tool [''-t'', table, ''-C'', parent, ''-j'', root]"
    "ok tool [''-t'', table, ''-A'', parent, ''-j'', root]" "ok tool [''-t'', table, ''-N'', g]" "ok tool [''-t'', table, ''-F'', g]"
  shows "preserves P (prepareGenerationChain x tool table root parent g)"
  unfolding prepareGenerationChain_def
  by (intro proc_rules confined_Run [OF assms(1)] preserves_cleanup [OF assms(1)] assms)

lemma preserves_switch:
  assumes "confined x ok P" "ok tool [''-t'', table, ''-C'', root, ''-j'', nxt]"
    "ok tool [''-t'', table, ''-I'', root, ''1'', ''-j'', nxt]" "ok tool [''-t'', table, ''-D'', root, ''-j'', stale]"
  shows "preserves P (switchRootJump x tool table root nxt stale)"
  unfolding switchRootJump_def by (intro proc_rules confined_Run [OF assms(1)] assms(2-4))

lemma preserves_exclusion:
  assumes "confined x ok P" "\<And>rest. ok tool (baseArgs @ rest)"
  shows "preserves P (addExclusionRulesByFamily x tool b port excluded baseArgs)"
  unfolding addExclusionRulesByFamily_def Let_def
  by (intro proc_rules confined_Run [OF assms(1)] assms(2))

lemma preserves_selector:
  assumes "confined x ok P" "\<And>rest. ok tool (''-t'' # ''mangle'' # ''-A'' # chain # rest)"
  shows "preserves P (add_selector_rules x tool b chain markHex sel)"
proof -
  obtain ifc mac port where sel: "sel = (ifc, mac, port)" by (cases sel) auto
  have base: "ok tool (baseMarkRuleArgs tool chain b port ifc mac @ rest)" for rest
    using assms(2) by (simp add: baseMarkRuleArgs_def)
  show ?thesis
    unfolding add_selector_rules_def sel Let_def prod.case
    by (intro proc_rules preserves_exclusion [OF assms(1)] confined_Run [OF assms(1)] base)
qed

lemma preserves_mark_rules:
  assumes "confined x ok P"
    and ok: "\<And>tool op rest f. op \<in> {''-N'', ''-F'', ''-A''} \<Longrightarrow>
      ok tool (''-t'' # ''mangle'' # op # generationRuleChainName chain i f # rest)"
      "\<And>tool rest. ok tool (''-t'' # ''mangle'' # ''-A'' # chain # rest)"
  shows "preserves P (addMarkRules x b i chain markHex)"
proof -
  have "preserves P (addMarkRulesByFamily x tool chain b i markHex)" for tool
    unfolding addMarkRulesByFamily_def Let_def
    by (intro proc_rules confined_Run [OF assms(1)] preserves_selector [OF assms(1)] ok) simp_all
  then show ?thesis unfolding addMarkRules_def Let_def by (intro proc_rules)
qed

lemma preserves_binding:
  assumes "confined x ok P"
    and ok: "\<And>tool op rest f. op \<in> {''-N'', ''-F'', ''-A''} \<Longrightarrow>
      ok tool (''-t'' # ''mangle'' # op # generationRuleChainName (workingMark v) i f # rest)"
      "\<And>tool rest. ok tool (''-t'' # ''mangle'' # ''-A'' # workingMark v # rest)"
      "\<And>tool rest. ok tool (''-t'' # ''nat'' # ''-A'' # workingNAT v # rest)"
    and "P w"
  shows "P (snd (apply_binding x v i b st w))"
proof -
  let ?hex = "hex_mark (rb_Mark b)" and ?nat = "\<lambda>tool. addNATRule x tool (workingNAT v) (hex_mark (rb_Mark b)) (rb_Interface b) (rb_GroupName b)"
  have mark: "preserves P (addMarkRules x b i (workingMark v) ?hex)"
    by (rule preserves_mark_rules [OF assms(1) ok(1,2)]) simp_all
  have nat: "preserves P (and_then (?nat ''iptables'') (?nat ''ip6tables''))"
    unfolding addNATRule_def by (intro proc_rules confined_Run [OF assms(1)] ok(3))
  obtain r w1 where run: "addMarkRules x b i (workingMark v) ?hex w = (r, w1)" by fastforce
  with mark \<open>P w\<close> have "P w1" by (rule preservesD)
  obtain r2 w2 where run2: "and_then (?nat ''iptables'') (?nat ''ip6tables'') w1 = (r2, w2)" by fastforce
  with nat \<open>P w1\<close> have "P w2" by (rule preservesD)
  with \<open>P w\<close> \<open>P w1\<close> show ?thesis
    by (simp add: apply_binding_def run run2 Let_def split: option.splits)
qed

lemma preserves_bindings:
  assumes "confined x ok P"
    and ok: "\<And>tool op rest f i. op \<in> {''-N'', ''-F'', ''-A''} \<Longrightarrow>
      ok tool (''-t'' # ''mangle'' # op # generationRuleChainName (workingMark v) i f # rest)"
      "\<And>tool rest. ok tool (''-t'' # ''mangle'' # ''-A'' # workingMark v # rest)"
      "\<And>tool rest. ok tool (''-t'' # ''nat'' # ''-A'' # workingNAT v # rest)"
    and "P w"
  shows "P (snd (apply_bindings x v i bs st w))"
  using \<open>P w\<close>
proof (induction bs arbitrary: i st w)
  case (Cons b bs)
  obtain r w1 where run: "apply_binding x v i b st w = (r, w1)" by fastforce
  have "P w1" using preserves_binding [OF assms(1) ok Cons.prems, of i b st] run by simp
  then show ?case using Cons.IH run by (cases r) simp_all
qed simp

lemma preserves_reconcile:
  assumes "confined x ok P" "\<And>args. ok ''ip'' args"
  shows "preserves P (reconcileManagedIPRules x desired ipv6)"
proof (rule preservesI)
  fix w assume "P w"
  obtain r w0 where out: "Output x ''ip'' (ip_args ipv6 [''rule'', ''show'']) w = (r, w0)" by fastforce
  have w0: "P w0" by (rule confined_Output [OF assms(1) \<open>P w\<close> out])
  have add: "preserves P (add_rule x ipv6 p)" and del: "preserves P (delete_rule x ipv6 p)" for p
    unfolding add_rule_def delete_rule_def by (intro proc_rules confined_Run [OF assms(1)] assms(2))+
  have a: "preserves P (for_each (\<lambda>mark. refreshIPRule x ipv6 (mark, table_of desired mark)) (sortedMarks desired))"
    unfolding refreshIPRule_def by (intro proc_rules add del)
  have b: "preserves P (and_then
            (for_each (\<lambda>mark. if (mark, table_of desired mark) \<in> set e then skip_ok
               else add_rule x ipv6 (mark, table_of desired mark)) (sortedMarks desired))
            (for_each (delete_rule x ipv6) ps))" for e ps
    by (intro proc_rules add del)
  show "P (snd (reconcileManagedIPRules x desired ipv6 w))"
    using w0 a b by (auto simp: reconcileManagedIPRules_def loadManagedIPRules_def out preserves_def Let_def split: sum.splits)
qed

lemma preserves_mss:
  assumes "confined x ok P" "\<And>tool rest. ok tool (''-t'' # ''mangle'' # ''-A'' # chain # rest)"
  shows "preserves P (addMSSRules x chain iface clamp)"
  unfolding addMSSRules_def addMSSRuleForFamily_def
  by (intro proc_rules confined_Run [OF assms(1)]) (simp_all add: assms(2))

lemma detectActiveGeneration_keeps:
  assumes "confined x ok P" "P w" "detectActiveGeneration x tool table root w = (a, w')"
  shows "P w'"
proof -
  obtain r w0 where out: "Output x tool [''-t'', table, ''-S'', root] w = (r, w0)" by fastforce
  have "P w0" by (rule confined_Output [OF assms(1,2) out])
  then show ?thesis using assms(3) by (auto simp: detectActiveGeneration_def out split: sum.splits list.splits)
qed

lemma detectActiveVariant_keeps:
  assumes "confined x ok P" "P w" "detectActiveVariant x w = (a, w')"
  shows "P w'"
proof -
  obtain a1 w1 where d: "detectActiveGeneration x ''iptables'' ''mangle'' markChainName w = (a1, w1)" by fastforce
  have "P w1" by (rule detectActiveGeneration_keeps [OF assms(1,2) d])
  with assms(3) detectActiveGeneration_keeps [OF assms(1)] show ?thesis
    by (auto simp: detectActiveVariant_def d split: if_splits)
qed

text \<open>The two halves of \<open>ApplyRules\<close>: building the unused generation, then switching to it.\<close>

lemma working_chains:
  assumes "v = selectWorkingVariant active"
  shows "working_chain v (workingMark v)" "working_chain v (workingNAT v)" "working_chain v (workingMSS v)"
    "working_chain v (generationRuleChainName (workingMark v) i f)" "working_chain v (working_of v r)"
    "HasPrefix c (generationRuleChainPrefix (working_of v r)) \<Longrightarrow> generationRuleChainPrefix (working_of v r) \<noteq> [] \<Longrightarrow>
      working_chain v c"
  using rule_chain_working [of active] working_of_chain [of active] selectWorkingVariant_cases [of active, folded assms]
  by (simp_all add: working_chain_def assms)
    (auto simp: working_of_def variant_chains split: if_splits)

lemma prepare_keeps:
  assumes conf: "confined x ok P" and v: "v = selectWorkingVariant active"
    and working: "\<And>tool table op c rest. working_chain v c \<Longrightarrow> ok tool (''-t'' # table # op # c # rest)"
    and parents: "\<And>tool table op c rest. c \<in> set parent_names \<Longrightarrow> ok tool (''-t'' # table # op # c # rest)"
    and roots: "\<And>tool table c. c \<in> set root_names \<Longrightarrow> ok tool [''-t'', table, ''-N'', c]"
    and migrate: "\<And>tool table c. active = [] \<Longrightarrow> c \<in> set root_names \<Longrightarrow> ok tool [''-t'', table, ''-F'', c]"
  shows "preserves P (and_then (prepare_generation x v) (when_ok (active = []) (migrate_roots x)))"
  unfolding prepare_generation_def migrate_roots_def
  by (intro proc_rules; clarsimp simp only: prod.case; (drule root_chains_in)?;
      intro proc_rules preserves_prepare [OF conf] confined_Run [OF conf] conjI working parents roots migrate
        working_chains [OF v]; blast?)

lemma build_keeps:
  assumes conf: "confined x ok P" and v: "v = selectWorkingVariant active"
    and working: "\<And>tool table op c rest. working_chain v c \<Longrightarrow> ok tool (''-t'' # table # op # c # rest)"
    and parents: "\<And>tool table op c rest. c \<in> set parent_names \<Longrightarrow> ok tool (''-t'' # table # op # c # rest)"
    and roots: "\<And>tool table c. c \<in> set root_names \<Longrightarrow> ok tool [''-t'', table, ''-N'', c]"
    and migrate: "\<And>tool table c. active = [] \<Longrightarrow> c \<in> set root_names \<Longrightarrow> ok tool [''-t'', table, ''-F'', c]"
    and w: "P w" and det: "detectActiveVariant x w = (active, w0)"
    and run: "and_then (prepare_generation x v) (when_ok (active = []) (migrate_roots x)) w0 = (r, w1)"
  shows "P w1 \<and> P (snd (apply_bindings x v 0 (sort_bindings bs) empty_state w1))"
proof -
  have "P w0" by (rule detectActiveVariant_keeps [OF conf w det])
  with prepare_keeps [OF conf v working parents roots migrate] have "P w1" using run by (rule preservesD)
  moreover have "P (snd (apply_bindings x v 0 (sort_bindings bs) empty_state w1))"
    by (intro preserves_bindings [OF conf _ _ _ \<open>P w1\<close>] working working_chains [OF v])
  ultimately show ?thesis by simp
qed

lemma finish_keeps:
  assumes conf: "confined x ok P" and v: "v = selectWorkingVariant active"
    and ip: "\<And>args. ok ''ip'' args"
    and working: "\<And>tool table op c rest. working_chain v c \<Longrightarrow> ok tool (''-t'' # table # op # c # rest)"
    and roots: "\<And>tool table op c rest. c \<in> set root_names \<Longrightarrow> ok tool (''-t'' # table # op # c # rest)"
  shows "preserves P (finish_apply x v st)"
  unfolding finish_apply_def switch_roots_def
  by (intro proc_rules preserves_mss [OF conf] preserves_reconcile [OF conf] ip working working_chains [OF v];
      clarsimp simp only: prod.case; (drule root_chains_in)?; intro preserves_switch [OF conf] roots; blast)

lemma keeps_stale_ok:
  "keeps_stale v ''ip'' args"
  "v = selectWorkingVariant a \<Longrightarrow> working_chain v c \<Longrightarrow> keeps_stale v tool (''-t'' # table # op # c # rest)"
  "v = selectWorkingVariant a \<Longrightarrow> c \<in> set root_names \<or> c \<in> set parent_names \<Longrightarrow> keeps_stale v tool (''-t'' # table # op # c # rest)"
  using working_not_stale root_not_stale by (auto simp: keeps_stale_def)

lemma ApplyRules_keeps_stale:
  assumes det: "detectActiveVariant x w = (active, w0)" and v: "v = selectWorkingVariant active"
    and conf: "confined x (keeps_stale v) P" and w: "P w"
  shows "P (snd (ApplyRules x bs w))"
proof -
  obtain r w1 where r: "and_then (prepare_generation x v) (when_ok (active = []) (migrate_roots x)) w0 = (r, w1)" by fastforce
  have b: "P w1 \<and> P (snd (apply_bindings x v 0 (sort_bindings bs) empty_state w1))"
    by (rule build_keeps [OF conf v _ _ _ _ w det r]) (simp_all add: keeps_stale_ok(2,3) [OF v])
  have "preserves P (finish_apply x v st)" for st
    by (rule finish_keeps [OF conf v]) (simp_all add: keeps_stale_ok(1) keeps_stale_ok(2,3) [OF v])
  with b show ?thesis
    by (auto simp: ApplyRules_def det v [symmetric] r Let_def preserves_def split: option.splits prod.splits sum.splits)
qed


section \<open>Invalid bindings\<close>

definition bindings_ok :: "route_binding list \<Rightarrow> bool" where
  "bindings_ok bs \<longleftrightarrow>
     (\<forall>b \<in> set bs. 200 \<le> rb_Mark b \<and> 200 \<le> rb_RouteTable b \<and> TrimSpace (rb_Interface b) \<noteq> []) \<and>
     (\<forall>b \<in> set bs. \<forall>c \<in> set bs. rb_Mark b = rb_Mark c \<longrightarrow> rb_RouteTable b = rb_RouteTable c)"

lemma apply_binding_Inr:
  assumes "apply_binding x v i b st w = (Inr st', w')"
  shows "200 \<le> rb_Mark b \<and> 200 \<le> rb_RouteTable b \<and> TrimSpace (rb_Interface b) \<noteq> []"
    and "desiredRules st' = AList.update (rb_Mark b) (rb_RouteTable b) (desiredRules st)"
    and "\<And>t. map_of (desiredRules st) (rb_Mark b) = Some t \<Longrightarrow> t = rb_RouteTable b"
proof -
  have c: "check_binding st b = None" using assms by (auto simp: apply_binding_def split: option.splits)
  then show "200 \<le> rb_Mark b \<and> 200 \<le> rb_RouteTable b \<and> TrimSpace (rb_Interface b) \<noteq> []"
    "\<And>t. map_of (desiredRules st) (rb_Mark b) = Some t \<Longrightarrow> t = rb_RouteTable b"
    by (auto simp: check_binding_def not_less split: if_splits option.splits)
  have "desiredRules (note_clamp b s) = desiredRules s" for s by (simp add: note_clamp_def Let_def)
  then show "desiredRules st' = AList.update (rb_Mark b) (rb_RouteTable b) (desiredRules st)"
    using assms c by (auto simp: apply_binding_def Let_def split: option.splits prod.splits if_splits)
qed

text \<open>The accumulated marks: exactly those of the bindings, each with its table.\<close>

lemma apply_bindings_Inr:
  assumes "apply_bindings x v i bs st w = (Inr st', w')" "distinct (map fst (desiredRules st))"
  shows "\<forall>b \<in> set bs. 200 \<le> rb_Mark b \<and> 200 \<le> rb_RouteTable b \<and> TrimSpace (rb_Interface b) \<noteq> []"
    and "\<forall>b \<in> set bs. map_of (desiredRules st') (rb_Mark b) = Some (rb_RouteTable b)"
    and "\<forall>m t. map_of (desiredRules st) m = Some t \<longrightarrow> map_of (desiredRules st') m = Some t"
    and "\<forall>m t. map_of (desiredRules st') m = Some t \<longrightarrow> map_of (desiredRules st) m = Some t \<or> (\<exists>b \<in> set bs. rb_Mark b = m \<and> rb_RouteTable b = t)"
    and "distinct (map fst (desiredRules st'))"
proof -
  have "(\<forall>b \<in> set bs. (200 \<le> rb_Mark b \<and> 200 \<le> rb_RouteTable b \<and> TrimSpace (rb_Interface b) \<noteq> []) \<and>
      map_of (desiredRules st') (rb_Mark b) = Some (rb_RouteTable b)) \<and>
    (\<forall>m t. map_of (desiredRules st) m = Some t \<longrightarrow> map_of (desiredRules st') m = Some t) \<and>
    (\<forall>m t. map_of (desiredRules st') m = Some t \<longrightarrow> map_of (desiredRules st) m = Some t \<or>
       (\<exists>b \<in> set bs. rb_Mark b = m \<and> rb_RouteTable b = t)) \<and> distinct (map fst (desiredRules st'))"
    using assms
  proof (induction bs arbitrary: i st w)
    case (Cons b bs)
    from Cons.prems(1) obtain st1 w1 where one: "apply_binding x v i b st w = (Inr st1, w1)"
      and rest: "apply_bindings x v (i + 1) bs st1 w1 = (Inr st', w')"
      by (auto split: prod.splits sum.splits)
    note b = apply_binding_Inr [OF one]
    have m1: "map_of (desiredRules st1) = (map_of (desiredRules st))(rb_Mark b \<mapsto> rb_RouteTable b)"
      using b(2) by (simp add: update_conv')
    have "distinct (map fst (desiredRules st1))" using b(2) Cons.prems(2) by (simp add: distinct_update)
    from Cons.IH [OF rest this] m1 b(1,3) show ?case by (auto split: if_splits) metis+
  qed simp
  then show "\<forall>b \<in> set bs. 200 \<le> rb_Mark b \<and> 200 \<le> rb_RouteTable b \<and> TrimSpace (rb_Interface b) \<noteq> []"
    "\<forall>b \<in> set bs. map_of (desiredRules st') (rb_Mark b) = Some (rb_RouteTable b)"
    "\<forall>m t. map_of (desiredRules st) m = Some t \<longrightarrow> map_of (desiredRules st') m = Some t"
    "\<forall>m t. map_of (desiredRules st') m = Some t \<longrightarrow> map_of (desiredRules st) m = Some t \<or> (\<exists>b \<in> set bs. rb_Mark b = m \<and> rb_RouteTable b = t)"
    "distinct (map fst (desiredRules st'))"
    by blast+
qed

lemma set_sort_bindings [simp]: "set (sort_bindings bs) = set bs"
  by (simp add: sort_bindings_def)

lemma bindings_built:
  assumes "apply_bindings x v 0 (sort_bindings bs) empty_state w = (Inr st, w')"
  shows "bindings_ok bs" and "map_of (desiredRules st) m = Some t \<longleftrightarrow> (\<exists>b \<in> set bs. rb_Mark b = m \<and> rb_RouteTable b = t)"
    and "distinct (map fst (desiredRules st))"
proof -
  have e: "distinct (map fst (desiredRules empty_state))" "desiredRules empty_state = []" by (simp_all add: empty_state_def)
  note r = apply_bindings_Inr [OF assms e(1), simplified e(2) set_sort_bindings]
  show "distinct (map fst (desiredRules st))" by (rule r(5))
  show "bindings_ok bs" unfolding bindings_ok_def using r(1,2) by (metis option.inject)
  show "map_of (desiredRules st) m = Some t \<longleftrightarrow> (\<exists>b \<in> set bs. rb_Mark b = m \<and> rb_RouteTable b = t)"
    using r(2,4) by auto
qed


section \<open>Properties\<close>


definition sample_binding :: route_binding where
  "sample_binding = \<lparr>rb_GroupName = ''tv'', rb_RuleIndex = 0, rb_RuleName = ''Rule 1'', rb_SourceInterfaces = [''br0''],
     rb_SourceSetV4 = ''svpn_tv_r1s4'', rb_SourceSetV6 = ''svpn_tv_r1s6'', rb_ExcludedSourceSetV4 = [],
     rb_ExcludedSourceSetV6 = [], rb_SourceMACs = [], rb_DestinationSetV4 = ''svpn_tv_r1d4'',
     rb_DestinationSetV6 = ''svpn_tv_r1d6'', rb_ExcludedDestinationSetV4 = [], rb_ExcludedDestinationSetV6 = [],
     rb_HasSource = False, rb_HasExcludedSource = False, rb_HasDestination = True, rb_HasExcludedDestination = False,
     rb_DestinationPorts = [], rb_ExcludedDestinationPorts = [], rb_ExcludeMulticast = True, rb_Mark = 201,
     rb_RouteTable = 201, rb_Interface = ''wg0'', rb_EgressVPN = ''nl'', rb_MSSClampV4 = ''pmtu'', rb_MSSClampV6 = []\<rparr>"

definition mock_with_A :: mock_exec where
  "mock_with_A = fresh_mock\<lparr>Outputs := [(''iptables -t mangle -S SVPN_MARK'', ''-N SVPN_MARK'' @ [CHR 0x0A] @ ''-A SVPN_MARK -j SVPN_MARK_A'')],
     OutputErrors := [(''ip rule show'', ''denied''), (''ip -6 rule show'', ''denied'')]\<rparr>"


text \<open>C12: \<open>ApplyRules\<close> succeeds only for valid bindings: marks and tables of at least 200, an interface, and no mark
  with two tables. Otherwise it fails before the switch, and when a generation was in use, the root chains
  are left as they are: everything that only an insertion into, a deletion from or a flush of a root chain
  can change is unchanged, so traffic keeps following the old rules.\<close>

definition keeps_roots :: "string \<Rightarrow> string list \<Rightarrow> bool" where
  "keeps_roots tool args \<longleftrightarrow> \<not> (length args > 3 \<and> args ! 2 \<in> {''-I'', ''-D'', ''-F''} \<and> args ! 3 \<in> {''SVPN_MARK'', ''SVPN_NAT'', ''SVPN_MSS''})"



end
