(* ===== verification/Rule_Reconcile.thy ===== *)
theory Rule_Reconcile
  imports Rule_Safety
begin

text \<open>
  What \<open>reconcileManagedIPRules\<close> and \<open>FlushRules\<close> achieve. The kernel's policy rules of priority 100 are an
  abstraction of the world: how many rules there are for a family, a mark and a table. The three laws below
  are the documented behaviour of \<^verbatim>\<open>ip rule add\<close>, \<^verbatim>\<open>ip rule del\<close> and \<^verbatim>\<open>ip rule show\<close>.
\<close>

type_synonym rule_count = "bool \<times> rule_pair \<Rightarrow> nat"

definition managed :: "rule_pair \<Rightarrow> bool" where
  "managed p \<longleftrightarrow> 200 \<le> fst p \<and> 200 \<le> snd p"

definition ip_add_law :: "'w executor \<Rightarrow> ('w \<Rightarrow> rule_count) \<Rightarrow> ('w \<Rightarrow> bool) \<Rightarrow> bool" where
  "ip_add_law x rules okw \<longleftrightarrow>
     (\<forall>f p w r w'. okw w \<longrightarrow> Run x ''ip'' (rule_args ''add'' f p) w = (r, w') \<longrightarrow>
        okw w' \<and> rules w' = (if r = None then (rules w)((f, p) := Suc (rules w (f, p))) else rules w))"

definition ip_del_law :: "'w executor \<Rightarrow> ('w \<Rightarrow> rule_count) \<Rightarrow> ('w \<Rightarrow> bool) \<Rightarrow> bool" where
  "ip_del_law x rules okw \<longleftrightarrow>
     (\<forall>f p w r w'. okw w \<longrightarrow> Run x ''ip'' (rule_args ''del'' f p) w = (r, w') \<longrightarrow>
        okw w' \<and> rules w' = (rules w)((f, p) := rules w (f, p) - 1) \<and> (r \<noteq> None \<longleftrightarrow> rules w (f, p) = 0))"

definition ip_show_law :: "'w executor \<Rightarrow> ('w \<Rightarrow> rule_count) \<Rightarrow> ('w \<Rightarrow> bool) \<Rightarrow> bool" where
  "ip_show_law x rules okw \<longleftrightarrow>
     (\<forall>f w q w'. okw w \<longrightarrow> Output x ''ip'' (ip_args f [''rule'', ''show'']) w = (q, w') \<longrightarrow>
        okw w' \<and> rules w' = rules w \<and>
        (\<exists>text. q = Inr text \<and> set (managed_pairs text) = {p. managed p \<and> 0 < rules w (f, p)}))"

lemma add_rule_step:
  assumes "ip_add_law x rules okw" "okw w" "add_rule x f p w = (r, w')"
  shows "okw w' \<and> rules w' = (if r = None then (rules w)((f, p) := Suc (rules w (f, p))) else rules w)"
proof -
  obtain q where q: "Run x ''ip'' (rule_args ''add'' f p) w = (q, w')" "r = None \<longleftrightarrow> q = None"
    using assms(3) unfolding add_rule_def by (elim map_err_cases)
  have "okw w' \<and> rules w' = (if q = None then (rules w)((f, p) := Suc (rules w (f, p))) else rules w)"
    using assms(1,2) q(1) unfolding ip_add_law_def by blast
  with q(2) show ?thesis by simp
qed

lemma delete_loop:
  assumes "ip_del_law x rules okw" "okw w"
  shows "okw (snd (repeat_until_err n (Run x ''ip'' (rule_args ''del'' f p)) w :: rule_error option \<times> 'w)) \<and>
    rules (snd (repeat_until_err n (Run x ''ip'' (rule_args ''del'' f p)) w :: rule_error option \<times> 'w)) =
      (rules w)((f, p) := rules w (f, p) - n)"
  using assms(2)
proof (induction n arbitrary: w)
  case (Suc n)
  obtain r w1 where run: "Run x ''ip'' (rule_args ''del'' f p) w = (r, w1)" by fastforce
  have w1: "okw w1" "rules w1 = (rules w)((f, p) := rules w (f, p) - 1)" "r \<noteq> None \<longleftrightarrow> rules w (f, p) = 0"
    using assms(1) Suc.prems run unfolding ip_del_law_def by blast+
  then show ?case using Suc.IH [OF w1(1)] by (cases r) (auto simp: run)
qed simp

lemma delete_rule_step:
  assumes "ip_del_law x rules okw" "okw w" "delete_rule x f p w = (r, w')"
  shows "r = None \<and> okw w' \<and> rules w' = (rules w)((f, p) := rules w (f, p) - 64)"
  using delete_loop [OF assms(1,2), of deleteLoopLimit f p] assms(3) fst_repeat_until_err
  by (metis delete_rule_def deleteLoopLimit_def fst_conv snd_conv)

lemma delete_all_rules:
  assumes "ip_del_law x rules okw" "okw w" "for_each (delete_rule x f) ps w = (r, w')"
  shows "r = None \<and> okw w' \<and> (\<forall>k. rules w' k = rules w k \<or> (\<exists>p \<in> set ps. k = (f, p))) \<and>
    (\<forall>p \<in> set ps. rules w (f, p) \<le> 64 \<longrightarrow> rules w' (f, p) = 0)"
  using assms(2,3)
proof (induction ps arbitrary: w)
  case (Cons p ps)
  from Cons.prems(2) have "and_then (delete_rule x f p) (for_each (delete_rule x f) ps) w = (r, w')" by simp
  then show ?case
  proof (cases rule: and_then_cases)
    case (first e)
    then show ?thesis using delete_rule_step [OF assms(1) Cons.prems(1) first(1)] by simp
  next
    case (both v)
    have v: "okw v" "rules v = (rules w)((f, p) := rules w (f, p) - 64)"
      using delete_rule_step [OF assms(1) Cons.prems(1) both(1)] by auto
    have IH: "r = None" "okw w'" "\<And>k. rules w' k = rules v k \<or> (\<exists>p \<in> set ps. k = (f, p))"
      "\<And>q. q \<in> set ps \<Longrightarrow> rules v (f, q) \<le> 64 \<Longrightarrow> rules w' (f, q) = 0"
      using Cons.IH [OF v(1) both(2)] by auto
    have "rules w' (f, q) = 0" if "q \<in> set (p # ps)" "rules w (f, q) \<le> 64" for q
    proof (cases "q \<in> set ps")
      case True
      have "rules v (f, q) \<le> 64" using that(2) v(2) by auto
      then show ?thesis by (rule IH(4) [OF True])
    next
      case False
      then show ?thesis using IH(3) [of "(f, q)"] that v(2) by auto
    qed
    moreover have "rules w' k = rules w k \<or> (\<exists>p \<in> set (p # ps). k = (f, p))" for k
      using IH(3) [of k] v(2) by auto
    ultimately show ?thesis using IH(1,2) by blast
  qed
qed simp

lemma add_missing:
  assumes "ip_add_law x rules okw" "okw w"
    "for_each (\<lambda>m. if (m, t m) \<in> E then skip_ok else add_rule x f (m, t m)) ms w = (None, w')"
  shows "okw w' \<and> (\<forall>k. rules w k \<le> rules w' k) \<and> (\<forall>k. rules w' k = rules w k \<or> (\<exists>m \<in> set ms. k = (f, m, t m))) \<and>
    (\<forall>m \<in> set ms. (m, t m) \<notin> E \<longrightarrow> 0 < rules w' (f, m, t m))"
  using assms(2,3)
proof (induction ms arbitrary: w)
  case (Cons m ms)
  from Cons.prems(2) obtain v where v: "(if (m, t m) \<in> E then skip_ok else add_rule x f (m, t m)) w = (None, v)"
    "for_each (\<lambda>m. if (m, t m) \<in> E then skip_ok else add_rule x f (m, t m)) ms v = (None, w')"
    by (auto simp: and_then_None)
  have r: "okw v" "(m, t m) \<notin> E \<Longrightarrow> rules v = (rules w)((f, m, t m) := Suc (rules w (f, m, t m)))"
    "(m, t m) \<in> E \<Longrightarrow> rules v = rules w"
    using v(1) add_rule_step [OF assms(1) Cons.prems(1), of f "(m, t m)" None v] Cons.prems(1) by (auto split: if_splits)
  have IH: "okw w'" "\<And>k. rules v k \<le> rules w' k" "\<And>k. rules w' k = rules v k \<or> (\<exists>m \<in> set ms. k = (f, m, t m))"
    "\<And>n. n \<in> set ms \<Longrightarrow> (n, t n) \<notin> E \<Longrightarrow> 0 < rules w' (f, n, t n)"
    using Cons.IH [OF r(1) v(2)] by (elim conjE; blast)+
  have "rules w k \<le> rules w' k" for k using IH(2) [of k] r(2,3) by (cases "(m, t m) \<in> E") (auto split: if_splits)
  moreover have "rules w' k = rules w k \<or> (\<exists>n \<in> set (m # ms). k = (f, n, t n))" for k
    using IH(3) [of k] r(2,3) by (cases "(m, t m) \<in> E") (auto split: if_splits)
  moreover have "0 < rules w' (f, m, t m)" if "(m, t m) \<notin> E" using IH(2) [of "(f, m, t m)"] r(2) [OF that] by simp
  ultimately show ?case using IH(1,4) by auto
qed simp


lemma hex_mark_inj: "hex_mark m = hex_mark n \<Longrightarrow> m = n"
  by (auto simp: hex_mark_def show_hex_def intro: word_unat_eq_iff [THEN iffD2] dest!: show_base_inj)

lemma rule_args_inj: "rule_args a f p = rule_args b g q \<longleftrightarrow> a = b \<and> f = g \<and> p = q"
  by (cases f; cases g; cases p; cases q) (auto simp: rule_args_def ip_args_def dest: hex_mark_inj Itoa_inj)


section \<open>Reconciling\<close>

lemma sortedMarks_set: "m \<in> set (sortedMarks desired) \<longleftrightarrow> map_of desired m \<noteq> None"
  by (auto simp: sortedMarks_def map_of_eq_None_iff)

lemma reconcile_exact:
  assumes laws: "ip_add_law x rules okw" "ip_del_law x rules okw" "ip_show_law x rules okw" and w: "okw w"
    and desired: "\<forall>m t. map_of desired m = Some t \<longrightarrow> managed (m, t)" and few: "\<forall>p. rules w (f, p) \<le> 64"
    and run: "reconcileManagedIPRules x desired f w = (None, w')"
  shows "okw w' \<and> (\<forall>p. managed p \<longrightarrow> (0 < rules w' (f, p) \<longleftrightarrow> map_of desired (fst p) = Some (snd p))) \<and>
    (\<forall>p. \<not> managed p \<longrightarrow> rules w' (f, p) = rules w (f, p)) \<and> (\<forall>p. rules w' (\<not> f, p) = rules w (\<not> f, p))"
proof -
  obtain q w0 where out: "Output x ''ip'' (ip_args f [''rule'', ''show'']) w = (q, w0)" by fastforce
  with laws(3) w obtain shown where w0: "okw w0" "rules w0 = rules w" "q = Inr shown"
    and E: "set (managed_pairs shown) = {p. managed p \<and> 0 < rules w (f, p)}"
    unfolding ip_show_law_def by blast
  define stale where "stale = filter (\<lambda>p. map_of desired (fst p) \<noteq> Some (snd p)) (managed_pairs shown)"
  from run obtain v where v: "for_each (\<lambda>m. if (m, table_of desired m) \<in> set (managed_pairs shown) then skip_ok
        else add_rule x f (m, table_of desired m)) (sortedMarks desired) w0 = (None, v)"
    "for_each (delete_rule x f) (sorted_pairs stale) v = (None, w')"
    by (auto simp: reconcileManagedIPRules_def loadManagedIPRules_def out w0(3) stale_def and_then_None Let_def)
  note a = add_missing [OF laws(1) w0(1) v(1), unfolded w0(2)]
  have vw: "rules v (g, p) = rules w (g, p) \<or> g = f \<and> map_of desired (fst p) = Some (snd p)" for g p
    using a [THEN conjunct2, THEN conjunct2, THEN conjunct1, THEN spec, of "(g, p)"]
    by (auto simp: sortedMarks_set table_of_def)
  have pos: "0 < rules v (f, p)" if "map_of desired (fst p) = Some (snd p)" for p
  proof (cases "p \<in> set (managed_pairs shown)")
    case True
    then have "0 < rules w (f, p)" using E by blast
    moreover have "rules w (f, p) \<le> rules v (f, p)" using a by blast
    ultimately show ?thesis by simp
  next
    case False
    have "fst p \<in> set (sortedMarks desired)" "table_of desired (fst p) = snd p"
      using that by (simp_all add: sortedMarks_set table_of_def)
    then show ?thesis using a False by (metis prod.collapse)
  qed
  have st: "set (sorted_pairs stale) = {p. managed p \<and> 0 < rules w (f, p) \<and> map_of desired (fst p) \<noteq> Some (snd p)}"
    using E by (auto simp: stale_def sorted_pairs_def)
  have d: "okw w'" "\<And>k. rules w' k = rules v k \<or> (\<exists>p \<in> set (sorted_pairs stale). k = (f, p))"
    "\<And>p. p \<in> set (sorted_pairs stale) \<Longrightarrow> rules v (f, p) \<le> 64 \<Longrightarrow> rules w' (f, p) = 0"
    using delete_all_rules [OF laws(2) a [THEN conjunct1] v(2)] by auto
  have "0 < rules w' (f, p) \<longleftrightarrow> map_of desired (fst p) = Some (snd p)" if m: "managed p" for p
  proof (cases "map_of desired (fst p) = Some (snd p)")
    case True
    then show ?thesis using pos [OF True] d(2) [of "(f, p)"] st by auto
  next
    case False
    then have "rules v (f, p) = rules w (f, p)" using vw by blast
    then show ?thesis using False d(2) [of "(f, p)"] d(3) [of p] few st m by fastforce
  qed
  moreover have "rules w' (f, p) = rules w (f, p)" if "\<not> managed p" for p
  proof -
    have "map_of desired (fst p) \<noteq> Some (snd p)" using desired that by (metis prod.collapse)
    then show ?thesis using vw [of f p] d(2) [of "(f, p)"] st that by auto
  qed
  moreover have "rules w' (\<not> f, p) = rules w (\<not> f, p)" for p
    using vw [of "\<not> f" p] d(2) [of "(\<not> f, p)"] by auto
  ultimately show ?thesis using d(1) by blast
qed

lemma FlushRules_None: "fst (FlushRules x w) = None"
proof -
  have all: "fst (for_each g xs w) = None" if "\<And>y w. fst (g y w) = None" for g :: "'b \<Rightarrow> ('c, 'a) proc" and xs w
  proof (induction xs arbitrary: w)
    case (Cons y ys)
    then show ?case using that [of y w] by (auto simp: and_then_def split: prod.splits option.splits)
  qed simp
  have seq: "fst (and_then p q w) = None" if "\<And>w. fst (p w) = None" "\<And>w. fst (q w) = None" for p q :: "('c, 'a) proc" and w
    using that(1) [of w] that(2) by (auto simp: and_then_def split: prod.splits option.splits)
  have i: "fst (ignore_err p w) = None" for p :: "('b, 'a) proc" and w by (simp add: ignore_err_def)
  have chain: "fst (cleanupChain x t tb c pa w) = None" for t tb c pa w
    unfolding cleanupChain_def by (intro seq i) (cases "pa = []", simp_all)
  have del: "fst (delete_rule x f p w) = None" for f p w by (simp add: delete_rule_def)
  have fl: "fst (flushManagedIPRules x f w) = None" for f w
    by (auto simp: flushManagedIPRules_def intro!: all del split: prod.splits option.splits)
  show ?thesis
    unfolding FlushRules_def by (intro seq all fl) (auto simp: chain i)
qed


section \<open>Properties\<close>



text \<open>A kernel that knows two pairs of mark and table, for the witness.\<close>

type_synonym sim_rules = "(bool \<times> rule_pair) list"

definition sim_line :: "rule_pair \<Rightarrow> string" where
  "sim_line p = ''100: from all fwmark '' @ hex_mark (fst p) @ '' lookup '' @ Itoa (snd p)"

definition sim_pairs :: "rule_pair list" where
  "sim_pairs = [(201, 201), (202, 202)]"

definition sim_ip_run :: "string \<Rightarrow> string list \<Rightarrow> (string, sim_rules) proc" where
  "sim_ip_run tool args w =
     (case filter (\<lambda>k. args = rule_args ''add'' (fst k) (snd k)) [(f, p). f \<leftarrow> [False, True], p \<leftarrow> sim_pairs] of
        k # _ \<Rightarrow> if k \<in> set w then (Some ''exists'', w) else (None, k # w)
      | [] \<Rightarrow> (case filter (\<lambda>k. args = rule_args ''del'' (fst k) (snd k)) w of
                 k # _ \<Rightarrow> (None, removeAll k w)
               | [] \<Rightarrow> (Some ''no such rule'', w)))"

definition sim_ip :: "sim_rules executor" where
  "sim_ip = \<lparr>Run = sim_ip_run,
     Output = (\<lambda>tool args w. (Inr (Join (map (sim_line \<circ> snd) (filter (\<lambda>k. args = ip_args (fst k) [''rule'', ''show'']) w)) [CHR 0x0A]), w))\<rparr>"

definition sim_count :: "sim_rules \<Rightarrow> rule_count" where
  "sim_count w k = (if k \<in> set w then 1 else 0)"

definition sim_rules_ok :: "sim_rules \<Rightarrow> bool" where
  "sim_rules_ok w \<longleftrightarrow> list_all (\<lambda>k. snd k \<in> set sim_pairs) w"

lemma sim_line_parses: "list_all (\<lambda>p. managed_pair (sim_line p) = Some p \<and> CHR 0x0A \<notin> set (sim_line p) \<and> managed p) sim_pairs"
  by code_simp

lemma sim_show: "list_all (\<lambda>k. snd k \<in> set sim_pairs) ks \<Longrightarrow>
    set (managed_pairs (Join (map (sim_line \<circ> snd) ks) [CHR 0x0A])) = snd ` set ks"
proof (cases "ks = []")
  case True
  moreover have "managed_pair [] = None" by code_simp
  ultimately show ?thesis by (simp add: managed_pairs_def Split_def List.map_filter_def)
next
  case False
  assume "list_all (\<lambda>k. snd k \<in> set sim_pairs) ks"
  then have ks: "\<forall>k \<in> set ks. managed_pair (sim_line (snd k)) = Some (snd k) \<and> CHR 0x0A \<notin> set (sim_line (snd k))"
    using sim_line_parses by (auto simp: list_all_iff)
  then have "Split (Join (map (sim_line \<circ> snd) ks) [CHR 0x0A]) (CHR 0x0A) = map (sim_line \<circ> snd) ks"
    using False by (intro Split_Join) (auto simp: list_all_iff)
  with ks show ?thesis by (force simp: managed_pairs_def List.map_filter_def)
qed

lemma case_filter_eq: "(case filter (\<lambda>k. k = a) w of k # _ \<Rightarrow> g k | [] \<Rightarrow> h) = (if a \<in> set w then g a else h)"
  by (induction w) auto

lemma sim_ip_laws:
  "ip_add_law sim_ip sim_count sim_rules_ok" "ip_del_law sim_ip sim_count sim_rules_ok" "ip_show_law sim_ip sim_count sim_rules_ok"
proof -
  have verbs: "rule_args ''add'' f p \<noteq> rule_args ''del'' g q" for f g p q
    using rule_args_inj [of "''add''" f p "''del''" g q] by simp
  show "ip_add_law sim_ip sim_count sim_rules_ok"
    by (auto simp: ip_add_law_def sim_ip_def sim_ip_run_def verbs rule_args_inj sim_count_def sim_rules_ok_def sim_pairs_def
        fun_eq_iff split: if_splits)
  show "ip_del_law sim_ip sim_count sim_rules_ok"
    unfolding ip_del_law_def
  proof (intro allI impI, goal_cases)
    case (1 f p w r w')
    have eq: "(f = fst k \<and> p = snd k) = (k = (f, p))" for k by (cases k) auto
    from 1 have "sim_ip_run ''ip'' (rule_args ''del'' f p) w = (r, w')" by (simp add: sim_ip_def)
    then have "(case filter (\<lambda>k. k = (f, p)) w of k # _ \<Rightarrow> (None, removeAll k w) | [] \<Rightarrow> (Some ''no such rule'', w)) = (r, w')"
      by (simp add: sim_ip_run_def verbs [symmetric] rule_args_inj eq)
    then have "(if (f, p) \<in> set w then (None, removeAll (f, p) w) else (Some ''no such rule'', w)) = (r, w')"
      by (simp only: case_filter_eq)
    then show ?case using 1(1)
      by (cases "(f, p) \<in> set w") (auto simp: sim_count_def sim_rules_ok_def list_all_iff fun_eq_iff)
  qed
  show "ip_show_law sim_ip sim_count sim_rules_ok"
    unfolding ip_show_law_def
  proof (intro allI impI, goal_cases)
    case (1 f w q w')
    have "ip_args g [''rule'', ''show''] = ip_args f [''rule'', ''show''] \<longleftrightarrow> g = f" for g by (auto simp: ip_args_def)
    then have "filter (\<lambda>k. ip_args f [''rule'', ''show''] = ip_args (fst k) [''rule'', ''show'']) w = filter (\<lambda>k. fst k = f) w"
      by (intro filter_cong refl) metis
    with 1(2) have q: "w' = w" "q = Inr (Join (map (sim_line \<circ> snd) (filter (\<lambda>k. fst k = f) w)) [CHR 0x0A])"
      by (auto simp: sim_ip_def)
    have "set (managed_pairs (Join (map (sim_line \<circ> snd) (filter (\<lambda>k. fst k = f) w)) [CHR 0x0A])) = snd ` set (filter (\<lambda>k. fst k = f) w)"
      using 1(1) by (intro sim_show) (auto simp: sim_rules_ok_def list_all_iff)
    moreover have "snd ` set (filter (\<lambda>k. fst k = f) w) = {p. managed p \<and> 0 < sim_count w (f, p)}"
      using 1(1) sim_line_parses by (force simp: sim_rules_ok_def list_all_iff sim_count_def)
    ultimately show ?case using 1(1) q by auto
  qed
qed


end
