(* ===== verification/Mark_Rules.thy ===== *)
theory Mark_Rules
  imports Rule_Safety
begin

text \<open>
  What the mark rules of one binding do. The first part computes the exact command sequence of
  \<open>addMarkRulesByFamily\<close> on the mock executor. The second part reads the rules appended to the per-rule chain
  as a packet filter: in order, \<^verbatim>\<open>RETURN\<close> leaves the chain, \<^verbatim>\<open>MARK\<close> sets the mark and goes on. How a packet
  matches the options of a rule is a parameter \<open>matches\<close>; the options of a rule are a conjunction. The result
  is the meaning of a binding: marked when some combination of selectors matches and no exclusion does.
\<close>


section \<open>Command sequences\<close>

definition logs :: "('e, mock_exec) proc \<Rightarrow> string list list \<Rightarrow> bool" where
  "logs p calls \<longleftrightarrow> (\<forall>m. RunErrors m = [] \<longrightarrow> p m = (None, m\<lparr>RunCalls := RunCalls m @ calls\<rparr>))"

named_theorems log_rules \<open>which calls a procedure logs on the mock executor\<close>

lemma logs_skip [log_rules]: "logs skip_ok []"
  by (simp add: logs_def)

lemma logs_Run [log_rules]: "logs (Run MockExec tool args) [tool # args]"
  by (simp add: logs_def MockExec_def MockExec_Run_def)

lemma logs_and_then [log_rules]: "logs p cs \<Longrightarrow> logs q ds \<Longrightarrow> logs (and_then p q) (cs @ ds)"
  by (simp add: logs_def and_then_def)

lemma logs_map_err [log_rules]: "logs p cs \<Longrightarrow> logs (map_err f p) cs"
  by (simp add: logs_def map_err_def)

lemma logs_on_err [log_rules]: "logs p cs \<Longrightarrow> logs (on_err p h) cs"
  by (simp add: logs_def on_err_def)

lemma logs_when [log_rules]: "logs p cs \<Longrightarrow> logs (when_ok c p) (if c then cs else [])"
  by (simp add: logs_def)

lemma logs_if [log_rules]: "logs p cs \<Longrightarrow> logs q ds \<Longrightarrow> logs (if c then p else q) (if c then cs else ds)"
  by simp

lemma logs_for_each [log_rules]: "(\<And>y. logs (f y) (g y)) \<Longrightarrow> logs (for_each f ys) (concat (map g ys))"
  by (induction ys) (auto intro: logs_skip logs_and_then)

definition exclusion_args :: "string \<Rightarrow> route_binding \<Rightarrow> port_range \<Rightarrow> string list list" where
  "exclusion_args tool b port =
     (if rb_ExcludeMulticast b then [[''-d'', by_family tool ''224.0.0.0/4'' ''ff00::/8'']] else []) @
     (if rb_HasExcludedSource b
      then [[''-m'', ''set'', ''--match-set'', by_family tool (rb_ExcludedSourceSetV4 b) (rb_ExcludedSourceSetV6 b), ''src'']] else []) @
     (if rb_HasExcludedDestination b
      then [[''-m'', ''set'', ''--match-set'', by_family tool (rb_ExcludedDestinationSetV4 b) (rb_ExcludedDestinationSetV6 b), ''dst'']] else []) @
     map (\<lambda>p. (if Protocol port = [] then [''-p'', Protocol p] else []) @ [''--dport'', formatPortRange p])
       (filter (portsOverlapForExclusion port) (expandPortSelectors (rb_ExcludedDestinationPorts b)))"

definition selector_match :: "string \<Rightarrow> route_binding \<Rightarrow> string \<times> string \<times> port_range \<Rightarrow> string list" where
  "selector_match tool b sel = (case sel of (i, a, p) \<Rightarrow> drop 4 (baseMarkRuleArgs tool [] b p i a))"

lemma baseMarkRuleArgs_split:
  "baseMarkRuleArgs tool chain b p i a = [''-t'', ''mangle'', ''-A'', chain] @ selector_match tool b (i, a, p)"
  by (simp add: baseMarkRuleArgs_def selector_match_def)

definition selector_rules :: "string \<Rightarrow> route_binding \<Rightarrow> string \<Rightarrow> string \<times> string \<times> port_range \<Rightarrow> string list list" where
  "selector_rules tool b markHex sel =
     map (\<lambda>ex. selector_match tool b sel @ ex @ [''-j'', ''RETURN'']) (exclusion_args tool b (snd (snd sel))) @
     [selector_match tool b sel @ [''-j'', ''MARK'', ''--set-mark'', markHex]]"

lemma logs_exclusion:
  "logs (addExclusionRulesByFamily MockExec tool b port (expandPortSelectors (rb_ExcludedDestinationPorts b)) base)
     (map (\<lambda>ex. tool # base @ ex @ [''-j'', ''RETURN'']) (exclusion_args tool b port))"
proof -
  have f: "concat (map (\<lambda>p. if \<not> portsOverlapForExclusion port p then [] else [g p]) ps) =
      map g (filter (portsOverlapForExclusion port) ps)" for g :: "port_range \<Rightarrow> string list" and ps
    by (induction ps) auto
  show ?thesis
    unfolding addExclusionRulesByFamily_def Let_def exclusion_args_def map_append f [symmetric]
    by (rule back_subst [where P = "logs _"], (rule log_rules)+) (auto simp: f comp_def)
qed

lemma logs_selector:
  "logs (add_selector_rules MockExec tool b chain markHex sel)
     (map (\<lambda>r. tool # [''-t'', ''mangle'', ''-A'', chain] @ r) (selector_rules tool b markHex sel))"
proof -
  obtain i a p where sel: "sel = (i, a, p)" by (cases sel) auto
  show ?thesis
    unfolding add_selector_rules_def sel prod.case Let_def
    by (rule back_subst [where P = "logs _"], (rule log_rules logs_exclusion)+)
      (simp add: selector_rules_def baseMarkRuleArgs_split comp_def)
qed

lemma logs_family:
  fixes chain i tool
  defines "rc \<equiv> generationRuleChainName chain i (tool = ''ip6tables'')"
  shows "logs (addMarkRulesByFamily MockExec tool chain b i markHex)
     ([tool # [''-t'', ''mangle'', ''-N'', rc], tool # [''-t'', ''mangle'', ''-F'', rc], tool # [''-t'', ''mangle'', ''-A'', chain, ''-j'', rc]] @
      map (\<lambda>r. tool # [''-t'', ''mangle'', ''-A'', rc] @ r) (concat (map (selector_rules tool b markHex) (selector_combinations b))))"
  unfolding addMarkRulesByFamily_def Let_def rc_def [symmetric]
  by (rule back_subst [where P = "logs _"], (rule log_rules logs_selector)+) (simp add: map_concat comp_def)


section \<open>The rules as a packet filter\<close>

text \<open>The rules that a sequence of commands appends to a chain of the mangle table, in order.\<close>

definition appended :: "string \<Rightarrow> string \<Rightarrow> string list list \<Rightarrow> string list list" where
  "appended tool chain calls =
     map (drop 5) (filter (\<lambda>c. take 5 c = [tool, ''-t'', ''mangle'', ''-A'', chain]) calls)"

fun chain_eval :: "(string list \<Rightarrow> bool) \<Rightarrow> string list list \<Rightarrow> string \<Rightarrow> string" where
  "chain_eval matches [] mark = mark"
| "chain_eval matches (r # rs) mark =
     (if drop (length r - 2) r = [''-j'', ''RETURN'']
      then (if matches (take (length r - 2) r) then mark else chain_eval matches rs mark)
      else (if matches (take (length r - 4) r) then chain_eval matches rs (last r) else chain_eval matches rs mark))"

lemma chain_eval_excluded:
  assumes "\<And>ex. ex \<in> set exs \<Longrightarrow> matches (base @ ex) \<longleftrightarrow> matches base \<and> matches ex" "matches base"
  shows "chain_eval matches (map (\<lambda>ex. base @ ex @ [''-j'', ''RETURN'']) exs @ rs) mark =
    (if \<exists>ex \<in> set exs. matches ex then mark else chain_eval matches rs mark)"
  using assms(1)
proof (induction exs)
  case (Cons ex exs)
  have "drop (length (base @ ex @ [''-j'', ''RETURN'']) - 2) (base @ ex @ [''-j'', ''RETURN'']) = [''-j'', ''RETURN'']"
    "take (length (base @ ex @ [''-j'', ''RETURN'']) - 2) (base @ ex @ [''-j'', ''RETURN'']) = base @ ex"
    by simp_all
  with Cons assms(2) show ?case by auto
qed simp

lemma chain_eval_skipped:
  assumes "\<And>ex. ex \<in> set exs \<Longrightarrow> matches (base @ ex) \<longleftrightarrow> matches base \<and> matches ex" "\<not> matches base"
  shows "chain_eval matches (map (\<lambda>ex. base @ ex @ [''-j'', ''RETURN'']) exs @ rs) mark = chain_eval matches rs mark"
  using assms(1)
proof (induction exs)
  case (Cons ex exs)
  have "drop (length (base @ ex @ [''-j'', ''RETURN'']) - 2) (base @ ex @ [''-j'', ''RETURN'']) = [''-j'', ''RETURN'']"
    "take (length (base @ ex @ [''-j'', ''RETURN'']) - 2) (base @ ex @ [''-j'', ''RETURN'']) = base @ ex"
    by simp_all
  with Cons assms(2) show ?case by auto
qed simp

lemma chain_eval_mark:
  "chain_eval matches ((base @ [''-j'', ''MARK'', ''--set-mark'', m]) # rs) mark =
     chain_eval matches rs (if matches base then m else mark)"
  by simp

lemma chain_eval_selectors:
  assumes "\<And>s ex. s \<in> set sels \<Longrightarrow> ex \<in> set exs \<Longrightarrow>
      matches (selector_match tool b s @ ex) \<longleftrightarrow> matches (selector_match tool b s) \<and> matches ex"
    and "\<And>s. s \<in> set sels \<Longrightarrow> exclusion_args tool b (snd (snd s)) = exs"
  shows "chain_eval matches (concat (map (selector_rules tool b m) sels)) mark =
    (if (\<exists>s \<in> set sels. matches (selector_match tool b s)) \<and> \<not> (\<exists>ex \<in> set exs. matches ex) then m else mark)"
  using assms
proof (induction sels arbitrary: mark)
  case (Cons s sels)
  then have ex: "exclusion_args tool b (snd (snd s)) = exs" by simp
  have conj: "ex \<in> set exs \<Longrightarrow> matches (selector_match tool b s @ ex) \<longleftrightarrow> matches (selector_match tool b s) \<and> matches ex" for ex
    using Cons.prems(1) [of s ex] by simp
  have ih: "chain_eval matches (concat (map (selector_rules tool b m) sels)) k =
      (if (\<exists>s \<in> set sels. matches (selector_match tool b s)) \<and> \<not> (\<exists>ex \<in> set exs. matches ex) then m else k)" for k
    by (rule Cons.IH) (use Cons.prems in auto)
  have rules: "selector_rules tool b m s = map (\<lambda>ex. selector_match tool b s @ ex @ [''-j'', ''RETURN'']) exs @
      [selector_match tool b s @ [''-j'', ''MARK'', ''--set-mark'', m]]"
    by (simp add: selector_rules_def ex)
  show ?case
  proof (cases "matches (selector_match tool b s)")
    case True
    then show ?thesis
      using ih chain_eval_excluded [OF conj True, of exs] by (auto simp: rules chain_eval_mark simp del: chain_eval.simps)
  next
    case False
    then show ?thesis
      using ih chain_eval_skipped [OF conj False, of exs] by (auto simp: rules chain_eval_mark simp del: chain_eval.simps)
  qed
qed simp

lemma exclusions_uniform:
  assumes "rb_DestinationPorts b = [] \<or> rb_ExcludedDestinationPorts b = []" "s \<in> set (selector_combinations b)"
  shows "exclusion_args tool b (snd (snd s)) = exclusion_args tool b no_port"
proof (cases "rb_DestinationPorts b = []")
  case True
  with assms(2) have "snd (snd s) = no_port" by (auto simp: selector_combinations_def expandPortSelectors_def)
  then show ?thesis by simp
next
  case False
  have "\<not> portsOverlapForExclusion p no_port" for p by (simp add: portsOverlapForExclusion_def no_port_def ToLower_def)
  with False assms(1) show ?thesis by (simp add: exclusion_args_def expandPortSelectors_def)
qed

lemma rule_chain_not_generation:
  "chain \<in> {markChainA, markChainB} \<Longrightarrow> generationRuleChainName chain i f \<noteq> chain"
  by (auto simp: generationRuleChainName_def generationRuleChainPrefix_def chain_names Let_def)

lemma appended_family:
  assumes "chain \<in> {markChainA, markChainB}" "RunErrors m = []"
  shows "appended tool (generationRuleChainName chain i (tool = ''ip6tables''))
      (drop (length (RunCalls m)) (RunCalls (snd (addMarkRulesByFamily MockExec tool chain b i markHex m)))) =
    concat (map (selector_rules tool b markHex) (selector_combinations b))"
proof -
  let ?rc = "generationRuleChainName chain i (tool = ''ip6tables'')"
  note rc = rule_chain_not_generation [OF assms(1), of i "tool = ''ip6tables''"]
  have calls: "drop (length (RunCalls m)) (RunCalls (snd (addMarkRulesByFamily MockExec tool chain b i markHex m))) =
      [tool # [''-t'', ''mangle'', ''-N'', ?rc], tool # [''-t'', ''mangle'', ''-F'', ?rc], tool # [''-t'', ''mangle'', ''-A'', chain, ''-j'', ?rc]] @
      map (\<lambda>r. tool # [''-t'', ''mangle'', ''-A'', ?rc] @ r) (concat (map (selector_rules tool b markHex) (selector_combinations b)))"
    using logs_family [of tool chain b i markHex] assms(2) by (simp add: logs_def del: map_concat)
  have all: "filter (\<lambda>c. take 5 c = [tool, ''-t'', ''mangle'', ''-A'', ?rc]) (map (\<lambda>r. tool # [''-t'', ''mangle'', ''-A'', ?rc] @ r) rs) =
      map (\<lambda>r. tool # [''-t'', ''mangle'', ''-A'', ?rc] @ r) rs" for rs
    by (intro filter_True) auto
  have none: "filter (\<lambda>c. take 5 c = [tool, ''-t'', ''mangle'', ''-A'', ?rc])
      [tool # [''-t'', ''mangle'', ''-N'', ?rc], tool # [''-t'', ''mangle'', ''-F'', ?rc], tool # [''-t'', ''mangle'', ''-A'', chain, ''-j'', ?rc]] = []"
    using rc by auto
  show ?thesis
    unfolding calls appended_def filter_append all none by (simp add: comp_def del: map_concat)
qed


section \<open>Properties\<close>



text \<open>C18: a binding that both selects a destination port and excludes an overlapping port of the same protocol
  produces a command with two \<^verbatim>\<open>--dport\<close> options, which iptables does not accept in one rule.\<close>

theorem excluded_port_repeats_dport:
  assumes "RunErrors m = []" "(i, a, p) \<in> set (selector_combinations b)" "Protocol p \<noteq> []"
    "q \<in> set (expandPortSelectors (rb_ExcludedDestinationPorts b))" "portsOverlapForExclusion p q"
  shows "\<exists>call \<in> set (RunCalls (snd (addMarkRulesByFamily MockExec tool chain b idx markHex m))). 2 \<le> count_list call ''--dport''"
proof -
  let ?ex = "[''--dport'', formatPortRange q]"
  let ?r = "selector_match tool b (i, a, p) @ ?ex @ [''-j'', ''RETURN'']"
  have "?ex \<in> set (exclusion_args tool b p)" using assms(3-5) by (auto simp: exclusion_args_def)
  then have r: "?r \<in> set (selector_rules tool b markHex (i, a, p))" by (auto simp: selector_rules_def)
  have n: "1 \<le> count_list (selector_match tool b (i, a, p)) ''--dport''"
    using assms(3) by (simp add: selector_match_def baseMarkRuleArgs_def)
  have "\<exists>call \<in> set (RunCalls (snd (addMarkRulesByFamily MockExec tool chain b idx markHex m))).
      \<exists>chain'. call = tool # [''-t'', ''mangle'', ''-A'', chain'] @ ?r"
    using logs_family [of tool chain b idx markHex] assms(1,2) r by (fastforce simp: logs_def)
  then obtain call c where "call \<in> set (RunCalls (snd (addMarkRulesByFamily MockExec tool chain b idx markHex m)))"
    "call = tool # [''-t'', ''mangle'', ''-A'', c] @ ?r" by blast
  then show ?thesis using n by (intro bexI [of _ call]) (simp_all add: count_list_append)
qed

theorem excluded_port_repeats_dport_witness:
  "\<exists>call \<in> set (RunCalls (snd (addMarkRulesByFamily MockExec ''iptables'' ''SVPN_MARK_A''
       (sample_binding\<lparr>rb_DestinationPorts := [\<lparr>Protocol = ''tcp'', Start = 80, End = 90\<rparr>],
          rb_ExcludedDestinationPorts := [\<lparr>Protocol = ''tcp'', Start = 85, End = 85\<rparr>]\<rparr>) 0 ''0xc9'' fresh_mock))).
     2 \<le> count_list call ''--dport''"
proof -
  let ?b = "sample_binding\<lparr>rb_DestinationPorts := [\<lparr>Protocol = ''tcp'', Start = 80, End = 90\<rparr>],
          rb_ExcludedDestinationPorts := [\<lparr>Protocol = ''tcp'', Start = 85, End = 85\<rparr>]\<rparr>"
  have "(''br0'', [], \<lparr>Protocol = ''tcp'', Start = 80, End = 90\<rparr>) \<in> set (selector_combinations ?b)"
    "\<lparr>Protocol = ''tcp'', Start = 85, End = 85\<rparr> \<in> set (expandPortSelectors (rb_ExcludedDestinationPorts ?b))"
    "portsOverlapForExclusion \<lparr>Protocol = ''tcp'', Start = 80, End = 90\<rparr> \<lparr>Protocol = ''tcp'', Start = 85, End = 85\<rparr>"
    by code_simp+
  from excluded_port_repeats_dport [OF _ this(1) _ this(2,3)] show ?thesis by (simp add: fresh_mock_def)
qed

text \<open>The port test that decides whether an exclusion is emitted is exact: for two selectors with a protocol each,
  it holds exactly when some protocol and port belong to both.\<close>

definition port_hits :: "port_range \<Rightarrow> string \<Rightarrow> int \<Rightarrow> bool" where
  "port_hits p proto n \<longleftrightarrow> Protocol p = proto \<and> fst (portBounds p) \<le> n \<and> n \<le> snd (portBounds p)"

theorem portsOverlap_exact:
  assumes "Protocol p \<in> {''tcp'', ''udp''}" "Protocol q \<in> {''tcp'', ''udp''}"
    "Start p \<le> snd (portBounds p)" "Start q \<le> snd (portBounds q)"
  shows "portsOverlapForExclusion p q \<longleftrightarrow> (\<exists>proto n. port_hits p proto n \<and> port_hits q proto n)"
proof -
  have t: "ToLower (TrimSpace ''tcp'') = ''tcp''" "ToLower (TrimSpace ''udp'') = ''udp''" by code_simp+
  have low: "ToLower (TrimSpace (Protocol p)) = Protocol p" "ToLower (TrimSpace (Protocol q)) = Protocol q"
    "Protocol p \<noteq> []" "Protocol q \<noteq> []" using assms(1,2) t by auto
  have "(\<exists>n. Start p \<le> n \<and> n \<le> snd (portBounds p) \<and> Start q \<le> n \<and> n \<le> snd (portBounds q)) \<longleftrightarrow>
      Start p \<le> snd (portBounds q) \<and> Start q \<le> snd (portBounds p)"
    using assms(3,4) by (auto intro!: exI [of _ "max (Start p) (Start q)"])
  then show ?thesis
    using low by (auto simp: portsOverlapForExclusion_def port_hits_def Let_def portBounds_def)
qed

theorem portsOverlap_exact_witness:
  "portsOverlapForExclusion \<lparr>Protocol = ''tcp'', Start = 80, End = 90\<rparr> \<lparr>Protocol = ''tcp'', Start = 85, End = 0\<rparr>"
proof -
  let ?p = "\<lparr>Protocol = ''tcp'', Start = 80, End = 90\<rparr>" and ?q = "\<lparr>Protocol = ''tcp'', Start = 85, End = 0\<rparr>"
  have "port_hits ?p ''tcp'' 85 \<and> port_hits ?q ''tcp'' 85" by (simp add: port_hits_def portBounds_def)
  then show ?thesis using portsOverlap_exact [of ?p ?q] by (auto simp: portBounds_def)
qed

end
