(* ===== verification/Dnsmasq.thy ===== *)
theory Dnsmasq
  imports Executor Set_Names
begin

text \<open>
  The dnsmasq layer (\<^verbatim>\<open>internal/routing/dnsmasq.go\<close>): rendering the configuration that makes dnsmasq put
  resolved addresses into the ipsets, replacing the configuration file and reloading the daemon. The file
  system calls of package \<^verbatim>\<open>os\<close> are a record of procedures over the world, \<open>os_files\<close>; what the code relies on
  is \<open>files_law\<close>.
\<close>


section \<open>Files\<close>

record 'w os_files =
  MkdirAll :: "string \<Rightarrow> (string, 'w) proc"
  WriteFile :: "string \<Rightarrow> string \<Rightarrow> (string, 'w) proc"
  Chmod :: "string \<Rightarrow> (string, 'w) proc"
  Rename :: "string \<Rightarrow> string \<Rightarrow> (string, 'w) proc"
  Remove :: "string \<Rightarrow> (string, 'w) proc"

text \<open>
  The documented behaviour: a write that fails may leave anything in its file but touches no other; renaming
  replaces the target in one step or does nothing; the other calls do not change the contents of files.
\<close>

definition write_law :: "'w os_files \<Rightarrow> ('w \<Rightarrow> string \<Rightarrow> string option) \<Rightarrow> bool" where
  "write_law os file \<longleftrightarrow>
     (\<forall>p c w r w'. WriteFile os p c w = (r, w') \<longrightarrow>
        (\<forall>q. q \<noteq> p \<longrightarrow> file w' q = file w q) \<and> (r = None \<longrightarrow> file w' p = Some c))"

definition rename_law :: "'w os_files \<Rightarrow> ('w \<Rightarrow> string \<Rightarrow> string option) \<Rightarrow> bool" where
  "rename_law os file \<longleftrightarrow>
     (\<forall>a b c w r w'. Rename os a b w = (r, w') \<longrightarrow> file w a = Some c \<longrightarrow> a \<noteq> b \<longrightarrow>
        file w' = (if r = None then (file w)(a := None, b \<mapsto> c) else file w))"

definition metadata_law :: "'w os_files \<Rightarrow> ('w \<Rightarrow> string \<Rightarrow> string option) \<Rightarrow> bool" where
  "metadata_law os file \<longleftrightarrow>
     (\<forall>p w. file (snd (MkdirAll os p w)) = file w \<and> file (snd (Chmod os p w)) = file w \<and>
        (\<forall>q. q \<noteq> p \<longrightarrow> file (snd (Remove os p w)) q = file w q))"

definition files_law :: "'w os_files \<Rightarrow> ('w \<Rightarrow> string \<Rightarrow> string option) \<Rightarrow> bool" where
  "files_law os file \<longleftrightarrow> write_law os file \<and> rename_law os file \<and> metadata_law os file"

text \<open>\<^verbatim>\<open>filepath.Dir\<close> of a path: what comes before the last slash.\<close>

definition filepath_Dir :: "string \<Rightarrow> string" where
  "filepath_Dir p = rev (drop 1 (dropWhile (\<lambda>c. c \<noteq> CHR ''/'') (rev p)))"


section \<open>The configuration\<close>

definition dnsmasqLine :: "string \<Rightarrow> string \<Rightarrow> string \<Rightarrow> string" where
  "dnsmasqLine domain v4Set v6Set =
     (let t = TrimSpace (TrimPrefix (ToLower domain) ''*.'') in
      if t = [] then [] else ''ipset=/'' @ t @ ''/'' @ v4Set @ '','' @ v6Set)"

definition rule_domain_lines :: "string \<Rightarrow> int \<times> routing_rule \<Rightarrow> string list" where
  "rule_domain_lines groupName p =
     (let sets = RuleSetNames groupName (fst p) in
      map (\<lambda>d. dnsmasqLine d (DestinationV4 sets) (DestinationV6 sets))
        (sort_strings (Domains (snd p) @ WildcardDomains (snd p))))"

definition indexed :: "'a list \<Rightarrow> (int \<times> 'a) list" where
  "indexed xs = map (\<lambda>i. (int i, xs ! i)) [0..<length xs]"

definition group_lines :: "domain_group \<Rightarrow> string list" where
  "group_lines grp =
     (if Rules grp = []
      then (let (v4, v6) = GroupSetNames (group_Name grp) in map (\<lambda>d. dnsmasqLine d v4 v6) (group_Domains grp))
      else concat (map (rule_domain_lines (group_Name grp)) (indexed (Rules grp))))"

definition conf_lines :: "domain_group list \<Rightarrow> string list" where
  "conf_lines groups = dedup (filter (\<lambda>l. l \<noteq> []) (concat (map group_lines (sort_key group_Name groups))))"

definition GenerateDnsmasqConf :: "domain_group list \<Rightarrow> string" where
  "GenerateDnsmasqConf groups =
     Join (''# Generated by split-vpn-webui. Do not edit.'' # conf_lines groups) [CHR 0x0A] @ [CHR 0x0A]"

datatype dns_error = ConfPathRequired | FileFailed string | ReloadFailed bool

definition WriteDnsmasqConf :: "'w os_files \<Rightarrow> string \<Rightarrow> string \<Rightarrow> (dns_error, 'w) proc" where
  "WriteDnsmasqConf os configPath content =
     (let tmpPath = configPath @ ''.tmp''; remove_tmp = (\<lambda>e. and_then (ignore_err (Remove os tmpPath)) (fail_with (FileFailed e))) in
      if TrimSpace configPath = [] then fail_with ConfPathRequired
      else and_then (map_err FileFailed (MkdirAll os (filepath_Dir configPath)))
           (and_then (map_err FileFailed (WriteFile os tmpPath content))
           (and_then (on_err (Chmod os tmpPath) remove_tmp)
                     (on_err (Rename os tmpPath configPath) remove_tmp))))"

definition isDigits :: "string \<Rightarrow> bool" where
  "isDigits v \<longleftrightarrow> v \<noteq> [] \<and> list_all is_digit v"

definition restart_dnsmasq :: "'w executor \<Rightarrow> bool \<Rightarrow> (dns_error, 'w) proc" where
  "restart_dnsmasq x hupFailed =
     on_err (Run x ''systemctl'' [''reload'', ''dnsmasq''])
       (\<lambda>_. map_err (\<lambda>_. ReloadFailed hupFailed) (Run x ''systemctl'' [''restart'', ''dnsmasq'']))"

definition ReloadDnsmasq :: "'w executor \<Rightarrow> (dns_error, 'w) proc" where
  "ReloadDnsmasq x w =
     (case Output x ''pidof'' [''dnsmasq''] w of
        (Inl e, w') \<Rightarrow> restart_dnsmasq x False w'
      | (Inr pidBytes, w') \<Rightarrow>
          (let fields = Fields (TrimSpace pidBytes) in
           if fields \<noteq> [] \<and> isDigits (hd fields)
           then on_err (Run x ''kill'' [''-HUP'', hd fields]) (\<lambda>_. restart_dnsmasq x True) w'
           else restart_dnsmasq x False w'))"

definition detectDnsmasqConfDir :: "('w \<Rightarrow> string \<Rightarrow> bool) \<Rightarrow> 'w os_files \<Rightarrow> string list \<Rightarrow> 'w \<Rightarrow> (string + string) \<times> 'w" where
  "detectDnsmasqConfDir isDir os candidates w =
     (case filter (isDir w) candidates of
        c # _ \<Rightarrow> (Inr c, w)
      | [] \<Rightarrow> (case MkdirAll os (hd candidates) w of
                 (Some e, w') \<Rightarrow> (Inl e, w')
               | (None, w') \<Rightarrow> (Inr (hd candidates), w')))"


section \<open>Properties\<close>

lemma indexed_in: "p \<in> set (indexed xs) \<longleftrightarrow> (\<exists>i < length xs. p = (int i, xs ! i))"
  by (auto simp: indexed_def)

text \<open>After its header the generated configuration has, for every rule of every group and every exact or
  wildcard domain of the rule, the line that sends the domain to the rule's destination sets, and no
  other line; no line occurs twice. Groups without rules use their legacy domains and the first rule's sets.\<close>

definition wanted_line :: "domain_group list \<Rightarrow> string \<Rightarrow> bool" where
  "wanted_line groups l \<longleftrightarrow> l \<noteq> [] \<and> (\<exists>g \<in> set groups.
     (Rules g = [] \<and> (\<exists>d \<in> set (group_Domains g). l = dnsmasqLine d (DestinationV4 (RuleSetNames (group_Name g) 0)) (DestinationV6 (RuleSetNames (group_Name g) 0)))) \<or>
     (\<exists>i < length (Rules g). \<exists>d \<in> set (Domains (Rules g ! i)) \<union> set (WildcardDomains (Rules g ! i)).
        l = dnsmasqLine d (DestinationV4 (RuleSetNames (group_Name g) (int i))) (DestinationV6 (RuleSetNames (group_Name g) (int i)))))"

theorem GenerateDnsmasqConf_lines:
  "\<exists>ls. GenerateDnsmasqConf groups = Join (''# Generated by split-vpn-webui. Do not edit.'' # ls) [CHR 0x0A] @ [CHR 0x0A] \<and>
     distinct ls \<and> set ls = {l. wanted_line groups l}"
proof -
  have one: "set (group_lines g) = {l. (Rules g = [] \<and> (\<exists>d \<in> set (group_Domains g). l = dnsmasqLine d (DestinationV4 (RuleSetNames (group_Name g) 0)) (DestinationV6 (RuleSetNames (group_Name g) 0)))) \<or>
     (\<exists>i < length (Rules g). \<exists>d \<in> set (Domains (Rules g ! i)) \<union> set (WildcardDomains (Rules g ! i)).
        l = dnsmasqLine d (DestinationV4 (RuleSetNames (group_Name g) (int i))) (DestinationV6 (RuleSetNames (group_Name g) (int i))))}" for g
    by (auto simp: group_lines_def GroupSetNames_def rule_domain_lines_def Let_def indexed_def)
  have "set (conf_lines groups) = {l. wanted_line groups l}"
    by (auto simp: conf_lines_def one wanted_line_def)
  then show ?thesis
    by (intro exI [of _ "conf_lines groups"]) (simp add: GenerateDnsmasqConf_def conf_lines_def)
qed

lemma guarded_step:
  assumes "metadata_law os file" "on_err p (\<lambda>e. and_then (ignore_err (Remove os tmp)) (fail_with (FileFailed e))) v = (r, v')"
  obtains c u where "p v = (c, u)" "r = None \<longleftrightarrow> c = None" "\<forall>q. q \<noteq> tmp \<longrightarrow> file v' q = file u q" "c = None \<longrightarrow> v' = u"
proof -
  obtain c u where p: "p v = (c, u)" by fastforce
  have "\<forall>q. q \<noteq> tmp \<longrightarrow> file (snd (Remove os tmp u)) q = file u q" using assms(1) by (simp add: metadata_law_def)
  then have "(r = None \<longleftrightarrow> c = None) \<and> (\<forall>q. q \<noteq> tmp \<longrightarrow> file v' q = file u q) \<and> (c = None \<longrightarrow> v' = u)"
    using assms(2) p by (cases c) (auto simp: on_err_def and_then_def ignore_err_def)
  with p that show ?thesis by blast
qed

text \<open>C19: the configuration file is replaced atomically: whatever fails, it has its old contents or the complete new
  contents, the latter exactly on success; no file other than it and its temporary file changes.\<close>

theorem WriteDnsmasqConf_atomic:
  assumes "files_law os file" "WriteDnsmasqConf os path content w = (r, w')"
  shows "file w' path = (if r = None then Some content else file w path) \<and>
    (\<forall>q. q \<noteq> path \<longrightarrow> q \<noteq> path @ ''.tmp'' \<longrightarrow> file w' q = file w q)"
proof (cases "TrimSpace path = []")
  case True
  then show ?thesis using assms(2) by (auto simp: WriteDnsmasqConf_def Let_def)
next
  case False
  let ?tmp = "path @ ''.tmp''"
  let ?rm = "\<lambda>e. and_then (ignore_err (Remove os ?tmp)) (fail_with (FileFailed e))"
  have laws: "write_law os file" "rename_law os file" "metadata_law os file" using assms(1) by (simp_all add: files_law_def)
  from assms(2) False have "and_then (map_err FileFailed (MkdirAll os (filepath_Dir path)))
      (and_then (map_err FileFailed (WriteFile os ?tmp content)) (and_then (on_err (Chmod os ?tmp) ?rm) (on_err (Rename os ?tmp path) ?rm))) w = (r, w')"
    by (simp add: WriteDnsmasqConf_def Let_def)
  then show ?thesis
  proof (cases rule: and_then_cases)
    case (first e)
    from first(1) obtain q where "MkdirAll os (filepath_Dir path) w = (q, w')" by (rule map_err_cases)
    then show ?thesis using first(2) laws(3) unfolding metadata_law_def by (metis option.discI snd_conv)
  next
    case (both v1)
    from both(1) obtain q where "MkdirAll os (filepath_Dir path) w = (q, v1)" by (rule map_err_cases)
    then have v1: "file v1 = file w" using laws(3) unfolding metadata_law_def by (metis snd_conv)
    from both(2) show ?thesis
    proof (cases rule: and_then_cases)
      case (first e)
      from first(1) obtain q where "WriteFile os ?tmp content v1 = (q, w')" by (rule map_err_cases)
      then show ?thesis using first(2) laws(1) v1 unfolding write_law_def by simp
    next
      case (both v2)
      have v2: "file v2 ?tmp = Some content" "\<forall>q. q \<noteq> ?tmp \<longrightarrow> file v2 q = file w q"
        using both(1) laws(1) v1 by (simp_all add: write_law_def map_err_None)
      from both(2) show ?thesis
      proof (cases rule: and_then_cases)
        case (first e)
        from laws(3) first(1) obtain c u where u: "Chmod os ?tmp v2 = (c, u)" "\<forall>q. q \<noteq> ?tmp \<longrightarrow> file w' q = file u q"
          by (rule guarded_step)
        have "file u = file v2" using laws(3) u(1) unfolding metadata_law_def by (metis snd_conv)
        then show ?thesis using first(2) u(2) v2(2) by simp
      next
        case (both v3)
        from laws(3) both(1) obtain u where u: "Chmod os ?tmp v2 = (None, u)" "v3 = u"
          by (rule guarded_step) simp
        have v3: "file v3 = file v2" using laws(3) u unfolding metadata_law_def by (metis snd_conv)
        from laws(3) both(2) obtain c u where r: "Rename os ?tmp path v3 = (c, u)" "r = None \<longleftrightarrow> c = None"
          "\<forall>q. q \<noteq> ?tmp \<longrightarrow> file w' q = file u q" by (rule guarded_step)
        have "file u = (if c = None then (file v3)(?tmp := None, path \<mapsto> content) else file v3)"
          using laws(2) r(1) v3 v2(1) unfolding rename_law_def by simp
        then show ?thesis using r(2,3) v2(2) v3 by (cases c) auto
      qed
    qed
  qed
qed

text \<open>A file system as an association list, for the witness.\<close>

definition list_files :: "(string \<times> string) list os_files" where
  "list_files = \<lparr>MkdirAll = (\<lambda>p w. (None, w)), WriteFile = (\<lambda>p c w. (None, AList.update p c w)), Chmod = (\<lambda>p w. (None, w)),
     Rename = (\<lambda>a b w. case map_of w a of None \<Rightarrow> (Some ''missing'', w) | Some c \<Rightarrow> (None, AList.update b c (AList.delete a w))),
     Remove = (\<lambda>p w. (None, AList.delete p w))\<rparr>"

lemma list_files_law: "files_law list_files map_of"
  by (auto simp: files_law_def write_law_def rename_law_def metadata_law_def list_files_def update_conv' delete_conv'
      fun_upd_twist split: option.splits)

theorem WriteDnsmasqConf_atomic_witness:
  "map_of (snd (WriteDnsmasqConf list_files ''/run/dnsmasq.d/svpn.conf'' ''new'' [(''/run/dnsmasq.d/svpn.conf'', ''old'')]))
     ''/run/dnsmasq.d/svpn.conf'' = Some ''new''"
proof -
  let ?run = "WriteDnsmasqConf list_files ''/run/dnsmasq.d/svpn.conf'' ''new'' [(''/run/dnsmasq.d/svpn.conf'', ''old'')]"
  have "fst ?run = None" by code_simp
  with WriteDnsmasqConf_atomic [OF list_files_law surjective_pairing,
      of "''/run/dnsmasq.d/svpn.conf''" "''new''" "[(''/run/dnsmasq.d/svpn.conf'', ''old'')]"]
  show ?thesis by simp
qed

end
