(* ===== verification/Routing_Manager.thy ===== *)
theory Routing_Manager
  imports Desired_Sets Dnsmasq IP_Rules
begin

text \<open>
  The routing manager (\<^verbatim>\<open>internal/routing/manager.go\<close> and the snapshot functions of
  \<^verbatim>\<open>manager_sets.go\<close>): it turns the stored groups, the VPN profiles and the cached addresses into set
  contents and route bindings, and installs them in a fixed order: sets, dnsmasq, rules, clean-up of stale
  sets. Its collaborators are the record \<open>routing_deps\<close>: the SQL store, the profile list, the ipset operator,
  the dnsmasq manager and the rule applier. The mutex serialises the entry points, so each is one
  procedure.
\<close>


section \<open>Collaborators\<close>

record vpn_profile =
  vp_Name :: string
  vp_RouteTable :: int
  vp_FWMark :: "32 word"
  vp_InterfaceName :: string
  vp_MSSClampV4 :: string
  vp_MSSClampV6 :: string

datatype manager_error =
    StoreErr string | VpnListErr string | SetsErr set_error | CleanupErr ipset_error
  | DnsErr dns_error | RulesErr rule_error
  | MissingEgress string string | BadRouteTable string int | BadFWMark string "32 word" | EmptyInterface string
  | EgressRequired | EgressNotFound string | EgressBadTable string int | EgressBadMark string "32 word" | EgressNoInterface string

text \<open>Calls of the store return a value or an error text; \<open>None\<close> in the profile list is a nil pointer.\<close>

record 'w routing_deps =
  store_List :: "'w \<Rightarrow> (string + domain_group list) \<times> 'w"
  store_Create :: "domain_group \<Rightarrow> 'w \<Rightarrow> (string + domain_group) \<times> 'w"
  store_Update :: "int \<Rightarrow> domain_group \<Rightarrow> 'w \<Rightarrow> (string + domain_group) \<times> 'w"
  store_Delete :: "int \<Rightarrow> (string, 'w) proc"
  store_ReplaceAll :: "domain_group list \<Rightarrow> resolver_snapshot \<Rightarrow> (string, 'w) proc"
  store_PurgeResolver :: "(string, 'w) proc"
  store_PurgePrewarm :: "(string, 'w) proc"
  store_LoadResolver :: "'w \<Rightarrow> (string + resolver_snapshot) \<times> 'w"
  store_LoadPrewarm :: "'w \<Rightarrow> (string + prewarm_snapshot) \<times> 'w"
  store_UpsertResolver :: "resolver_snapshot \<Rightarrow> (string, 'w) proc"
  store_UpsertPrewarm :: "prewarm_snapshot \<Rightarrow> (string, 'w) proc"
  store_ClearResolver :: "(string, 'w) proc"
  store_ClearPrewarm :: "(string, 'w) proc"
  lister_List :: "'w \<Rightarrow> (string + vpn_profile option list) \<times> 'w"
  dep_ipset :: "'w ipset_ops"
  dep_netipx :: "prefix list \<Rightarrow> prefix list option"
  dns_Generate :: "domain_group list \<Rightarrow> string"
  dns_Write :: "string \<Rightarrow> (dns_error, 'w) proc"
  dns_Reload :: "(dns_error, 'w) proc"
  rules_Apply :: "route_binding list \<Rightarrow> (rule_error, 'w) proc"
  rules_Flush :: "(rule_error, 'w) proc"

text \<open>The production manager: command line tools behind one executor, the real file system.\<close>

definition production_tools :: "'w executor \<Rightarrow> 'w os_files \<Rightarrow> string \<Rightarrow> 'w routing_deps \<Rightarrow> 'w routing_deps" where
  "production_tools x os configPath d =
     d\<lparr>dep_ipset := IPSetManager x, dns_Generate := GenerateDnsmasqConf, dns_Write := WriteDnsmasqConf os configPath,
       dns_Reload := ReloadDnsmasq x, rules_Apply := ApplyRules x, rules_Flush := FlushRules x\<rparr>"


section \<open>Planning\<close>

definition profile_map :: "vpn_profile option list \<Rightarrow> string \<Rightarrow> vpn_profile option" where
  "profile_map profiles = map_of (rev (map (\<lambda>p. (vp_Name p, p)) (List.map_filter id profiles)))"

definition queue_rule_sets ::
  "rule_set_pair \<Rightarrow> routing_rule \<Rightarrow> resolver_snapshot \<Rightarrow> prewarm_snapshot \<Rightarrow> set_queue \<Rightarrow> set_queue" where
  "queue_rule_sets pair rule resolved prewarmed q =
     (let q1 = (if SourceCIDRs rule \<noteq> [] then queue_families (SourceV4 pair) (SourceV6 pair) (SourceCIDRs rule) q else q);
          q2 = (if ExcludedSourceCIDRs rule \<noteq> []
                then queue_families (ExcludedSourceV4 pair) (ExcludedSourceV6 pair) (ExcludedSourceCIDRs rule) q1 else q1);
          q3 = (if ruleNeedsDestinationSet rule
                then queue_families (DestinationV4 pair) (DestinationV6 pair)
                  (dedupeSortedStrings (mergeResolvedDestinations rule resolved @ mergePrewarmedDestinations pair prewarmed)) q2
                else q2)
      in if ruleNeedsExcludedDestinationSet rule
         then queue_families (ExcludedDestinationV4 pair) (ExcludedDestinationV6 pair)
           (dedupeSortedStrings (mergeResolvedDestinationExclusions rule resolved)) q3
         else q3)"

definition binding_of :: "domain_group \<Rightarrow> routing_rule \<Rightarrow> int \<Rightarrow> vpn_profile \<Rightarrow> route_binding" where
  "binding_of grp rule ruleIndex profile =
     (let pair = RuleSetNames (group_Name grp) ruleIndex in
      \<lparr>rb_GroupName = group_Name grp, rb_RuleIndex = ruleIndex, rb_RuleName = rule_Name rule,
       rb_SourceInterfaces = SourceInterfaces rule,
       rb_SourceSetV4 = SourceV4 pair, rb_SourceSetV6 = SourceV6 pair,
       rb_ExcludedSourceSetV4 = ExcludedSourceV4 pair, rb_ExcludedSourceSetV6 = ExcludedSourceV6 pair,
       rb_SourceMACs = SourceMACs rule,
       rb_DestinationSetV4 = DestinationV4 pair, rb_DestinationSetV6 = DestinationV6 pair,
       rb_ExcludedDestinationSetV4 = ExcludedDestinationV4 pair, rb_ExcludedDestinationSetV6 = ExcludedDestinationV6 pair,
       rb_HasSource = (SourceCIDRs rule \<noteq> []), rb_HasExcludedSource = (ExcludedSourceCIDRs rule \<noteq> []),
       rb_HasDestination = ruleNeedsDestinationSet rule,
       rb_HasExcludedDestination = ruleNeedsExcludedDestinationSet rule,
       rb_DestinationPorts = DestinationPorts rule, rb_ExcludedDestinationPorts = ExcludedDestinationPorts rule,
       rb_ExcludeMulticast = RuleExcludeMulticastEnabled rule,
       rb_Mark = vp_FWMark profile, rb_RouteTable = vp_RouteTable profile, rb_Interface = vp_InterfaceName profile,
       rb_EgressVPN = EgressVPN grp, rb_MSSClampV4 = vp_MSSClampV4 profile, rb_MSSClampV6 = vp_MSSClampV6 profile\<rparr>)"

text \<open>\<^verbatim>\<open>buildBinding\<close>: queue the sets the rule needs, and describe the rule. It never returns an error.\<close>

definition buildBinding ::
  "domain_group \<Rightarrow> routing_rule \<Rightarrow> int \<Rightarrow> vpn_profile \<Rightarrow> resolver_snapshot \<Rightarrow> prewarm_snapshot \<Rightarrow> set_queue \<Rightarrow>
     route_binding \<times> set_queue" where
  "buildBinding grp rule ruleIndex profile resolved prewarmed q =
     (binding_of grp rule ruleIndex profile,
      queue_rule_sets (RuleSetNames (group_Name grp) ruleIndex) rule resolved prewarmed q)"

definition check_profile :: "domain_group \<Rightarrow> vpn_profile option \<Rightarrow> manager_error + vpn_profile" where
  "check_profile grp p =
     (case p of
        None \<Rightarrow> Inl (MissingEgress (group_Name grp) (EgressVPN grp))
      | Some profile \<Rightarrow>
          if vp_RouteTable profile < 200 then Inl (BadRouteTable (group_Name grp) (vp_RouteTable profile))
          else if vp_FWMark profile < 200 then Inl (BadFWMark (group_Name grp) (vp_FWMark profile))
          else if TrimSpace (vp_InterfaceName profile) = [] then Inl (EmptyInterface (group_Name grp))
          else Inr profile)"

type_synonym plan = "route_binding list \<times> set_queue"

fun plan_rules ::
  "domain_group \<Rightarrow> vpn_profile \<Rightarrow> resolver_snapshot \<Rightarrow> prewarm_snapshot \<Rightarrow> (int \<times> routing_rule) list \<Rightarrow> plan \<Rightarrow> plan" where
  "plan_rules grp profile resolved prewarmed [] pl = pl"
| "plan_rules grp profile resolved prewarmed ((ruleIndex, rule) # rs) pl =
     plan_rules grp profile resolved prewarmed rs
       (if \<not> ruleHasSelectors rule then pl
        else (case buildBinding grp rule ruleIndex profile resolved prewarmed (snd pl) of
                (b, q) \<Rightarrow> (fst pl @ [b], q)))"

fun plan_groups ::
  "(string \<Rightarrow> vpn_profile option) \<Rightarrow> resolver_snapshot \<Rightarrow> prewarm_snapshot \<Rightarrow> domain_group list \<Rightarrow> plan \<Rightarrow> manager_error + plan" where
  "plan_groups vpnByName resolved prewarmed [] pl = Inr pl"
| "plan_groups vpnByName resolved prewarmed (grp # groups) pl =
     bindE (check_profile grp (vpnByName (EgressVPN grp))) (\<lambda>profile.
       plan_groups vpnByName resolved prewarmed groups
         (plan_rules grp profile resolved prewarmed (indexed (Rules grp)) pl))"

definition sort_groups :: "domain_group list \<Rightarrow> domain_group list" where
  "sort_groups groups = sort_key group_Name groups"

definition make_plan ::
  "vpn_profile option list \<Rightarrow> resolver_snapshot \<Rightarrow> prewarm_snapshot \<Rightarrow> domain_group list \<Rightarrow> manager_error + plan" where
  "make_plan profiles resolved prewarmed groups =
     plan_groups (profile_map profiles) resolved prewarmed (sort_groups groups) ([], [], Some [])"


section \<open>Applying\<close>

definition write_dns :: "'w routing_deps \<Rightarrow> domain_group list \<Rightarrow> (manager_error, 'w) proc" where
  "write_dns d groups = map_err DnsErr (and_then (dns_Write d (dns_Generate d groups)) (dns_Reload d))"

definition install_plan :: "'w routing_deps \<Rightarrow> domain_group list \<Rightarrow> plan \<Rightarrow> (manager_error, 'w) proc" where
  "install_plan d groups pl =
     (case pl of (bindings, desired, active) \<Rightarrow>
       and_then (map_err SetsErr (applyDesiredSets (dep_netipx d) (dep_ipset d) desired))
       (and_then (write_dns d groups)
       (and_then (map_err RulesErr (rules_Apply d bindings))
                 (map_err CleanupErr (cleanupStaleSets (dep_ipset d) (the active))))))"

definition apply_empty :: "'w routing_deps \<Rightarrow> (manager_error, 'w) proc" where
  "apply_empty d =
     and_then (map_err RulesErr (rules_Flush d))
     (and_then (map_err CleanupErr (cleanupStaleSets (dep_ipset d) []))
               (write_dns d []))"

definition purge_caches :: "'w routing_deps \<Rightarrow> (manager_error, 'w) proc" where
  "purge_caches d = map_err StoreErr (and_then (store_PurgeResolver d) (store_PurgePrewarm d))"

definition applyLocked :: "'w routing_deps \<Rightarrow> (manager_error, 'w) proc" where
  "applyLocked d =
     fetch (store_List d) StoreErr (\<lambda>groups.
       if groups = [] then apply_empty d
       else fetch (lister_List d) VpnListErr (\<lambda>profiles.
         and_then (purge_caches d)
         (fetch (store_LoadResolver d) StoreErr (\<lambda>resolved.
          fetch (store_LoadPrewarm d) StoreErr (\<lambda>prewarmed.
            (case make_plan profiles resolved prewarmed groups of
               Inl e \<Rightarrow> fail_with e
             | Inr pl \<Rightarrow> install_plan d (sort_groups groups) pl))))))"


section \<open>Entry points\<close>

definition validate_profiles :: "string \<Rightarrow> vpn_profile option list \<Rightarrow> manager_error option" where
  "validate_profiles vpnName profiles =
     (case filter (\<lambda>p. vp_Name p = vpnName) (List.map_filter id profiles) of
        [] \<Rightarrow> Some (EgressNotFound vpnName)
      | p # _ \<Rightarrow>
          if vp_RouteTable p < 200 then Some (EgressBadTable vpnName (vp_RouteTable p))
          else if vp_FWMark p < 200 then Some (EgressBadMark vpnName (vp_FWMark p))
          else if TrimSpace (vp_InterfaceName p) = [] then Some (EgressNoInterface vpnName)
          else None)"

definition validateEgressVPN :: "'w routing_deps \<Rightarrow> string \<Rightarrow> (manager_error, 'w) proc" where
  "validateEgressVPN d name =
     (let vpnName = TrimSpace name in
      if vpnName = [] then fail_with EgressRequired
      else fetch (lister_List d) VpnListErr (\<lambda>vpns.
             case validate_profiles vpnName vpns of Some e \<Rightarrow> fail_with e | None \<Rightarrow> skip_ok))"

definition CreateGroup :: "'w routing_deps \<Rightarrow> domain_group \<Rightarrow> (manager_error, 'w) proc" where
  "CreateGroup d grp =
     and_then (validateEgressVPN d (EgressVPN grp)) (fetch (store_Create d grp) StoreErr (\<lambda>created. applyLocked d))"

definition UpdateGroup :: "'w routing_deps \<Rightarrow> int \<Rightarrow> domain_group \<Rightarrow> (manager_error, 'w) proc" where
  "UpdateGroup d gid grp =
     and_then (validateEgressVPN d (EgressVPN grp)) (fetch (store_Update d gid grp) StoreErr (\<lambda>updated. applyLocked d))"

definition DeleteGroup :: "'w routing_deps \<Rightarrow> int \<Rightarrow> (manager_error, 'w) proc" where
  "DeleteGroup d gid = and_then (map_err StoreErr (store_Delete d gid)) (applyLocked d)"

definition ReplaceState :: "'w routing_deps \<Rightarrow> domain_group list \<Rightarrow> resolver_snapshot \<Rightarrow> (manager_error, 'w) proc" where
  "ReplaceState d groups snapshot =
     and_then (for_each (\<lambda>grp. validateEgressVPN d (EgressVPN grp)) groups)
     (and_then (map_err StoreErr (store_ReplaceAll d groups snapshot)) (applyLocked d))"

definition queue_destinations ::
  "resolver_snapshot \<Rightarrow> prewarm_snapshot \<Rightarrow> string \<Rightarrow> int \<times> routing_rule \<Rightarrow> set_queue \<Rightarrow> set_queue" where
  "queue_destinations resolved prewarmed groupName ir q =
     (let rule = snd ir; pair = RuleSetNames groupName (fst ir);
          q1 = (if ruleNeedsDestinationSet rule
                then queue_families (DestinationV4 pair) (DestinationV6 pair)
                  (dedupeSortedStrings (mergeResolvedDestinations rule resolved @ mergePrewarmedDestinations pair prewarmed)) q
                else q)
      in if ruleNeedsExcludedDestinationSet rule
         then queue_families (ExcludedDestinationV4 pair) (ExcludedDestinationV6 pair)
           (dedupeSortedStrings (mergeResolvedDestinationExclusions rule resolved)) q1
         else q1)"

definition destination_sets :: "resolver_snapshot \<Rightarrow> prewarm_snapshot \<Rightarrow> domain_group list \<Rightarrow> desired_sets" where
  "destination_sets resolved prewarmed groups =
     fst (fold (\<lambda>(groupName, ir). queue_destinations resolved prewarmed groupName ir)
       [(group_Name g, ir). g \<leftarrow> sort_groups groups, ir \<leftarrow> indexed (Rules g)] ([], None))"

definition applyCachedDestinationSetsLocked :: "'w routing_deps \<Rightarrow> (manager_error, 'w) proc" where
  "applyCachedDestinationSetsLocked d =
     and_then (purge_caches d)
     (fetch (store_List d) StoreErr (\<lambda>groups.
        if groups = [] then skip_ok
        else fetch (store_LoadResolver d) StoreErr (\<lambda>resolved.
             fetch (store_LoadPrewarm d) StoreErr (\<lambda>prewarmed.
               map_err SetsErr (applyDesiredSets (dep_netipx d) (dep_ipset d) (destination_sets resolved prewarmed groups))))))"

definition UpsertResolverSnapshot :: "'w routing_deps \<Rightarrow> resolver_snapshot \<Rightarrow> (manager_error, 'w) proc" where
  "UpsertResolverSnapshot d snapshot =
     and_then (map_err StoreErr (store_UpsertResolver d snapshot)) (applyCachedDestinationSetsLocked d)"

definition UpsertPrewarmSnapshot :: "'w routing_deps \<Rightarrow> prewarm_snapshot \<Rightarrow> (manager_error, 'w) proc" where
  "UpsertPrewarmSnapshot d snapshot =
     and_then (map_err StoreErr (store_UpsertPrewarm d snapshot)) (applyCachedDestinationSetsLocked d)"

definition ClearResolverCache :: "'w routing_deps \<Rightarrow> (manager_error, 'w) proc" where
  "ClearResolverCache d = and_then (map_err StoreErr (store_ClearResolver d)) (applyCachedDestinationSetsLocked d)"

definition ClearPrewarmCache :: "'w routing_deps \<Rightarrow> (manager_error, 'w) proc" where
  "ClearPrewarmCache d = and_then (map_err StoreErr (store_ClearPrewarm d)) (applyCachedDestinationSetsLocked d)"

end
