(* ===== verification/Manager_Safety.thy ===== *)
theory Manager_Safety
  imports Routing_Manager Rule_Safety
begin

text \<open>
  What the routing manager guarantees across its components: the sets that rules and dnsmasq refer to exist
  when the rules are installed and afterwards, the sets have exactly the planned entries, stale sets are
  gone, and the bindings of a plan are acceptable to \<open>ApplyRules\<close>.
\<close>


section \<open>The sets of a plan\<close>

definition queue_keys :: "set_queue \<Rightarrow> string set" where
  "queue_keys q = set (map fst (fst q))"

definition referenced_sets :: "route_binding \<Rightarrow> string list" where
  "referenced_sets b =
     (if rb_HasSource b then [rb_SourceSetV4 b, rb_SourceSetV6 b] else []) @
     (if rb_HasExcludedSource b then [rb_ExcludedSourceSetV4 b, rb_ExcludedSourceSetV6 b] else []) @
     (if rb_HasDestination b then [rb_DestinationSetV4 b, rb_DestinationSetV6 b] else []) @
     (if rb_HasExcludedDestination b then [rb_ExcludedDestinationSetV4 b, rb_ExcludedDestinationSetV6 b] else [])"

text \<open>Active sets are exactly the desired ones.\<close>

definition queue_ok :: "set_queue \<Rightarrow> bool" where
  "queue_ok q \<longleftrightarrow> (\<exists>act. snd q = Some act \<and> set act = queue_keys q) \<and> (\<forall>n \<in> queue_keys q. live_name n)"

lemma queue_keys_queue [simp]: "queue_keys (queueDesiredSet n f es q) = insert n (queue_keys q)"
  by (auto simp: queue_keys_def queueDesiredSet_def Let_def dom_update)

lemma queue_ok_queue: "queue_ok q \<Longrightarrow> live_name n \<Longrightarrow> queue_ok (queueDesiredSet n f es q)"
  unfolding queue_ok_def by (auto simp: queueDesiredSet_def queue_keys_def Let_def dom_update)

lemma queue_keys_families [simp]: "queue_keys (queue_families a b es q) = {a, b} \<union> queue_keys q"
  by (auto simp: queue_families_def splitCIDRsByFamily_def)

lemma queue_ok_families: "queue_ok q \<Longrightarrow> live_name a \<Longrightarrow> live_name b \<Longrightarrow> queue_ok (queue_families a b es q)"
  by (simp add: queue_families_def splitCIDRsByFamily_def queue_ok_queue)

lemma live_pair:
  "live_name (SourceV4 (RuleSetNames g i))" "live_name (SourceV6 (RuleSetNames g i))"
  "live_name (ExcludedSourceV4 (RuleSetNames g i))" "live_name (ExcludedSourceV6 (RuleSetNames g i))"
  "live_name (DestinationV4 (RuleSetNames g i))" "live_name (DestinationV6 (RuleSetNames g i))"
  "live_name (ExcludedDestinationV4 (RuleSetNames g i))" "live_name (ExcludedDestinationV6 (RuleSetNames g i))"
  unfolding live_name_def by (rule exI [of _ g], rule exI [of _ i], simp add: pair_names_def)+

lemma queue_rule_sets_ok:
  assumes "queue_ok q"
  shows "queue_ok (queue_rule_sets (RuleSetNames (group_Name grp) i) rule r p q)"
    and "queue_keys (queue_rule_sets (RuleSetNames (group_Name grp) i) rule r p q) =
      queue_keys q \<union> set (referenced_sets (binding_of grp rule i profile))"
  using assms
  by (auto simp: queue_rule_sets_def Let_def referenced_sets_def binding_of_def intro!: queue_ok_families live_pair)

definition plan_ok :: "(route_binding \<Rightarrow> bool) \<Rightarrow> plan \<Rightarrow> bool" where
  "plan_ok B pl \<longleftrightarrow> queue_ok (snd pl) \<and> (\<forall>b \<in> set (fst pl). set (referenced_sets b) \<subseteq> queue_keys (snd pl) \<and> B b)"

lemma plan_rules_ok:
  assumes "plan_ok B pl" "\<And>i rule. B (binding_of grp rule i profile)"
  shows "plan_ok B (plan_rules grp profile r p irs pl) \<and> queue_keys (snd pl) \<subseteq> queue_keys (snd (plan_rules grp profile r p irs pl)) \<and>
    (\<forall>(i, rule) \<in> set irs. ruleHasSelectors rule \<longrightarrow>
       set (referenced_sets (binding_of grp rule i profile)) \<subseteq> queue_keys (snd (plan_rules grp profile r p irs pl)))"
  using assms(1)
proof (induction irs arbitrary: pl)
  case (Cons ir irs)
  obtain i rule where ir: "ir = (i, rule)" by (cases ir)
  define pl1 where "pl1 = (if \<not> ruleHasSelectors rule then pl
        else (case buildBinding grp rule i profile r p (snd pl) of (b, q) \<Rightarrow> (fst pl @ [b], q)))"
  have q: "queue_ok (snd pl)" using Cons.prems by (simp add: plan_ok_def)
  note k = queue_rule_sets_ok(2) [OF q, of grp i rule r p profile]
  have pl1: "plan_ok B pl1" "queue_keys (snd pl) \<subseteq> queue_keys (snd pl1)"
    "ruleHasSelectors rule \<Longrightarrow> set (referenced_sets (binding_of grp rule i profile)) \<subseteq> queue_keys (snd pl1)"
    using Cons.prems k queue_rule_sets_ok(1) [OF q] assms(2) by (auto simp: plan_ok_def buildBinding_def pl1_def)
  have run: "plan_rules grp profile r p (ir # irs) pl = plan_rules grp profile r p irs pl1" by (simp add: ir pl1_def)
  from Cons.IH [OF pl1(1)] pl1(2,3) show ?case unfolding run by (auto simp: ir)
qed simp

lemma check_profile_Inr:
  "check_profile grp q = Inr profile \<Longrightarrow>
     q = Some profile \<and> 200 \<le> vp_RouteTable profile \<and> 200 \<le> vp_FWMark profile \<and> TrimSpace (vp_InterfaceName profile) \<noteq> []"
  by (auto simp: check_profile_def not_less split: option.splits if_splits)

lemma plan_groups_ok:
  assumes "plan_groups vpns r p groups pl = Inr pl'" "plan_ok B pl"
    "\<And>grp profile i rule. grp \<in> set groups \<Longrightarrow> check_profile grp (vpns (EgressVPN grp)) = Inr profile \<Longrightarrow> B (binding_of grp rule i profile)"
  shows "plan_ok B pl' \<and> queue_keys (snd pl) \<subseteq> queue_keys (snd pl') \<and>
    (\<forall>grp \<in> set groups. \<exists>profile. \<forall>(i, rule) \<in> set (indexed (Rules grp)). ruleHasSelectors rule \<longrightarrow>
       set (referenced_sets (binding_of grp rule i profile)) \<subseteq> queue_keys (snd pl'))"
  using assms
proof (induction groups arbitrary: pl)
  case (Cons grp groups)
  from Cons.prems(1) obtain profile where prof: "check_profile grp (vpns (EgressVPN grp)) = Inr profile"
    and rest: "plan_groups vpns r p groups (plan_rules grp profile r p (indexed (Rules grp)) pl) = Inr pl'"
    by (auto simp: bindE_Inr)
  note one = plan_rules_ok [OF Cons.prems(2), of grp profile r p "indexed (Rules grp)"]
  have B: "B (binding_of grp rule i profile)" for i rule using Cons.prems(3) [OF _ prof] by simp
  have IH: "plan_ok B pl'" "queue_keys (snd (plan_rules grp profile r p (indexed (Rules grp)) pl)) \<subseteq> queue_keys (snd pl')"
    "\<forall>grp \<in> set groups. \<exists>profile. \<forall>(i, rule) \<in> set (indexed (Rules grp)). ruleHasSelectors rule \<longrightarrow>
       set (referenced_sets (binding_of grp rule i profile)) \<subseteq> queue_keys (snd pl')"
    using Cons.IH [OF rest] one [OF B] Cons.prems(3) by (auto simp del: indexed_in)
  show ?case using IH one [OF B] by (fastforce simp del: indexed_in)
qed simp

lemma make_plan_ok:
  assumes "make_plan profiles r p groups = Inr (bindings, desired, active)"
    "\<And>grp profile i rule. grp \<in> set groups \<Longrightarrow> check_profile grp (profile_map profiles (EgressVPN grp)) = Inr profile \<Longrightarrow> B (binding_of grp rule i profile)"
  shows "\<exists>act. active = Some act \<and> set act = set (map fst desired)" "\<forall>n \<in> set (map fst desired). live_name n"
    "\<forall>b \<in> set bindings. set (referenced_sets b) \<subseteq> set (map fst desired) \<and> B b"
    "\<And>g i. g \<in> set groups \<Longrightarrow> i < length (Rules g) \<Longrightarrow> ruleHasSelectors (Rules g ! i) \<Longrightarrow>
       \<exists>profile. set (referenced_sets (binding_of g (Rules g ! i) (int i) profile)) \<subseteq> set (map fst desired)"
proof -
  have "plan_ok B ([], [], Some [])" by (simp add: plan_ok_def queue_ok_def queue_keys_def)
  with assms plan_groups_ok [of "profile_map profiles" r p "sort_groups groups" "([], [], Some [])" "(bindings, desired, active)" B]
  have pl: "plan_ok B (bindings, desired, active)"
    "\<forall>grp \<in> set groups. \<exists>profile. \<forall>(i, rule) \<in> set (indexed (Rules grp)). ruleHasSelectors rule \<longrightarrow>
       set (referenced_sets (binding_of grp rule i profile)) \<subseteq> queue_keys (desired, active)"
    by (auto simp: make_plan_def sort_groups_def simp del: indexed_in)
  then show "\<exists>act. active = Some act \<and> set act = set (map fst desired)" "\<forall>n \<in> set (map fst desired). live_name n"
    "\<forall>b \<in> set bindings. set (referenced_sets b) \<subseteq> set (map fst desired) \<and> B b"
    by (auto simp: plan_ok_def queue_ok_def queue_keys_def)
  show "\<And>g i. g \<in> set groups \<Longrightarrow> i < length (Rules g) \<Longrightarrow> ruleHasSelectors (Rules g ! i) \<Longrightarrow>
       \<exists>profile. set (referenced_sets (binding_of g (Rules g ! i) (int i) profile)) \<subseteq> set (map fst desired)"
    using pl(2) by (fastforce simp: queue_keys_def indexed_in)
qed


section \<open>Installing a plan\<close>

definition leaves_sets :: "('w \<Rightarrow> string \<Rightarrow> 'e set option) \<Rightarrow> ('w \<Rightarrow> bool) \<Rightarrow> ('w \<Rightarrow> 'r \<times> 'w) \<Rightarrow> bool" where
  "leaves_sets contents okw p \<longleftrightarrow> (\<forall>w. okw w \<longrightarrow> okw (snd (p w)) \<and> contents (snd (p w)) = contents w)"

text \<open>The store, the profile list, dnsmasq and the rule applier do not touch ipsets.\<close>

definition sets_frame :: "'w routing_deps \<Rightarrow> ('w \<Rightarrow> string \<Rightarrow> 'e set option) \<Rightarrow> ('w \<Rightarrow> bool) \<Rightarrow> bool" where
  "sets_frame d contents okw \<longleftrightarrow>
     leaves_sets contents okw (store_List d) \<and> leaves_sets contents okw (lister_List d) \<and>
     leaves_sets contents okw (store_PurgeResolver d) \<and> leaves_sets contents okw (store_PurgePrewarm d) \<and>
     leaves_sets contents okw (store_LoadResolver d) \<and> leaves_sets contents okw (store_LoadPrewarm d) \<and>
     (\<forall>c. leaves_sets contents okw (dns_Write d c)) \<and> leaves_sets contents okw (dns_Reload d) \<and>
     (\<forall>bs. leaves_sets contents okw (rules_Apply d bs))"

lemma leaves_setsD: "leaves_sets contents okw p \<Longrightarrow> okw w \<Longrightarrow> p w = (r, w') \<Longrightarrow> okw w' \<and> contents w' = contents w"
  by (auto simp: leaves_sets_def dest!: spec [of _ w])

lemma live_has_prefix: "live_name n \<Longrightarrow> HasPrefix n setPrefix"
  unfolding live_name_def
proof (elim exE)
  fix g i assume "n \<in> set (pair_names (RuleSetNames g i))"
  then obtain k where "k < 8" "n = pair_names (RuleSetNames g i) ! k" using in_pair_names by blast
  with pair_names_RuleSetNames [of k g i] obtain seed where
    "n = compactSetName (normalizeSetBase g) (set_suffix i (set_kinds ! k)) seed" by auto
  then show ?thesis by (simp add: compactSetName_def Let_def)
qed

lemma install_plan_sets:
  assumes listing: "ipset_listing (dep_ipset d) contents entry okw" and frame: "sets_frame d contents okw" and w: "okw w"
    and live: "\<forall>n \<in> set (map fst desired). live_name n" and act: "set act = set (map fst desired)"
    and run: "install_plan d groups (bindings, desired, Some act) w = (None, w')"
  shows "\<exists>v v'. rules_Apply d bindings v = (None, v') \<and>
    (\<forall>n \<in> set (map fst desired). \<exists>es. desired_entries (dep_netipx d) desired n = Some es \<and>
        contents v n = Some (entry ` set es) \<and> contents w' n = Some (entry ` set es)) \<and>
    (\<forall>n. HasPrefix n setPrefix \<longrightarrow> n \<notin> set (map fst desired) \<longrightarrow> contents w' n = None)"
proof -
  note store = ipset_listing.axioms(1) [OF listing]
  from run obtain v1 v2 v3 where r: "applyDesiredSets (dep_netipx d) (dep_ipset d) desired w = (None, v1)"
    "write_dns d groups v1 = (None, v2)" "rules_Apply d bindings v2 = (None, v3)"
    "cleanupStaleSets (dep_ipset d) act v3 = (None, w')"
    by (auto simp: install_plan_def and_then_None map_err_None)
  have v1: "okw v1" "\<forall>n \<in> set (map fst desired). \<exists>es. desired_entries (dep_netipx d) desired n = Some es \<and> contents v1 n = Some (entry ` set es)"
    using ipset_store.apply_all_success [OF store r(1) w live] ipset_store.apply_all_okw [OF store r(1) w live] by blast+
  obtain u where u: "dns_Write d (dns_Generate d groups) v1 = (None, u)" "dns_Reload d u = (None, v2)"
    using r(2) by (auto simp: write_dns_def and_then_None map_err_None)
  have "okw u \<and> contents u = contents v1"
    using frame u(1) v1(1) unfolding sets_frame_def by (blast dest: leaves_setsD)
  then have v2: "okw v2" "contents v2 = contents v1"
    using frame u(2) unfolding sets_frame_def by (metis leaves_setsD)+
  have v3: "okw v3" "contents v3 = contents v1"
    using frame r(3) v2 unfolding sets_frame_def by (metis leaves_setsD)+
  note c = ipset_listing.cleanup [OF listing r(4) v3(1)]
  have "contents w' n = contents v1 n" if "n \<in> set (map fst desired)" for n
    using c v3(2) act that by metis
  then show ?thesis
    using v1(2) v2(2) r(3) c act by (intro exI [of _ v2] exI [of _ v3]) auto
qed

text \<open>The profiles and snapshots of a plan are what the collaborators returned.\<close>

definition read_by :: "'w routing_deps \<Rightarrow> vpn_profile option list \<Rightarrow> resolver_snapshot \<Rightarrow> prewarm_snapshot \<Rightarrow> bool" where
  "read_by d profiles resolved prewarmed \<longleftrightarrow>
     (\<exists>u u'. lister_List d u = (Inr profiles, u')) \<and> (\<exists>u u'. store_LoadResolver d u = (Inr resolved, u')) \<and>
     (\<exists>u u'. store_LoadPrewarm d u = (Inr prewarmed, u'))"

lemma applyLocked_plan:
  assumes frame: "sets_frame d contents okw" and w: "okw w"
    and run: "applyLocked d w = (None, w')" and groups: "store_List d w = (Inr groups, w1)" "groups \<noteq> []"
  shows "\<exists>profiles resolved prewarmed pl v. read_by d profiles resolved prewarmed \<and>
    make_plan profiles resolved prewarmed groups = Inr pl \<and> okw v \<and> contents v = contents w \<and> install_plan d (sort_groups groups) pl v = (None, w')"
proof -
  have l: "leaves_sets contents okw (store_List d)" "leaves_sets contents okw (lister_List d)"
    "leaves_sets contents okw (store_PurgeResolver d)" "leaves_sets contents okw (store_PurgePrewarm d)"
    "leaves_sets contents okw (store_LoadResolver d)" "leaves_sets contents okw (store_LoadPrewarm d)"
    using frame by (simp_all add: sets_frame_def)
  have w1: "okw w1 \<and> contents w1 = contents w" by (rule leaves_setsD [OF l(1) w groups(1)])
  from run groups obtain profiles v1 v2 where v: "lister_List d w1 = (Inr profiles, v1)" "purge_caches d v1 = (None, v2)"
    "fetch (store_LoadResolver d) StoreErr (\<lambda>resolved.
          fetch (store_LoadPrewarm d) StoreErr (\<lambda>prewarmed.
            (case make_plan profiles resolved prewarmed groups of
               Inl e \<Rightarrow> fail_with e
             | Inr pl \<Rightarrow> install_plan d (sort_groups groups) pl))) v2 = (None, w')"
    by (auto simp: applyLocked_def fetch_None [of "store_List d"] fetch_None [of "lister_List d"] and_then_None)
  obtain u where u: "store_PurgeResolver d v1 = (None, u)" "store_PurgePrewarm d u = (None, v2)"
    using v(2) by (auto simp: purge_caches_def and_then_None map_err_None)
  have v2: "okw v2 \<and> contents v2 = contents w"
    using w1 leaves_setsD [OF l(2) _ v(1)] leaves_setsD [OF l(3) _ u(1)] leaves_setsD [OF l(4) _ u(2)] by simp
  from v(3) obtain resolved v3 prewarmed v4 where x: "store_LoadResolver d v2 = (Inr resolved, v3)"
    "store_LoadPrewarm d v3 = (Inr prewarmed, v4)"
    "(case make_plan profiles resolved prewarmed groups of
               Inl e \<Rightarrow> fail_with e
             | Inr pl \<Rightarrow> install_plan d (sort_groups groups) pl) v4 = (None, w')"
    by (auto simp: fetch_None)
  from x(3) obtain pl where "make_plan profiles resolved prewarmed groups = Inr pl" "install_plan d (sort_groups groups) pl v4 = (None, w')"
    by (cases "make_plan profiles resolved prewarmed groups") auto
  moreover have "okw v4 \<and> contents v4 = contents w"
    using v2 leaves_setsD [OF l(5) _ x(1)] leaves_setsD [OF l(6) _ x(2)] by simp
  moreover have "read_by d profiles resolved prewarmed" unfolding read_by_def using v(1) x(1,2) by blast
  ultimately show ?thesis by blast
qed


section \<open>Properties\<close>

text \<open>C1: after a successful apply of a non-empty configuration, every ipset that a rule refers to exists with
  exactly its planned entries, and it did so already when the rules were installed; every other set of
  this program is gone. This holds for every ipset operator that satisfies the contract, whatever the
  other components do, as long as they do not touch ipsets.\<close>

theorem applyLocked_sets_exist:
  assumes "ipset_listing (dep_ipset d) contents entry okw" "sets_frame d contents okw" "okw w"
    "applyLocked d w = (None, w')" "store_List d w = (Inr groups, w1)" "groups \<noteq> []"
  shows "\<exists>profiles resolved prewarmed bindings desired active v v'. read_by d profiles resolved prewarmed \<and>
    make_plan profiles resolved prewarmed groups = Inr (bindings, desired, Some active) \<and>
    rules_Apply d bindings v = (None, v') \<and>
    (\<forall>b \<in> set bindings. \<forall>n \<in> set (referenced_sets b). \<exists>es. desired_entries (dep_netipx d) desired n = Some es \<and>
       contents v n = Some (entry ` set es) \<and> contents w' n = Some (entry ` set es)) \<and>
    (\<forall>n. HasPrefix n ''svpn_'' \<longrightarrow> n \<notin> set (map fst desired) \<longrightarrow> contents w' n = None)"
proof -
  from applyLocked_plan [OF assms(2-6)] obtain profiles resolved prewarmed pl v0
    where rd: "read_by d profiles resolved prewarmed" and p: "make_plan profiles resolved prewarmed groups = Inr pl" and v0: "okw v0"
      "install_plan d (sort_groups groups) pl v0 = (None, w')" by blast
  obtain bindings desired active where pl: "pl = (bindings, desired, active)" by (cases pl) auto
  note ok = make_plan_ok [where B = "\<lambda>_. True", OF p [unfolded pl] TrueI]
  obtain act where act: "active = Some act" "set act = set (map fst desired)" using ok(1) by blast
  from install_plan_sets [OF assms(1,2) v0(1) ok(2) act(2) v0(2) [unfolded pl act(1)]] obtain v v' where
    v: "rules_Apply d bindings v = (None, v')"
    "\<forall>n \<in> set (map fst desired). \<exists>es. desired_entries (dep_netipx d) desired n = Some es \<and>
        contents v n = Some (entry ` set es) \<and> contents w' n = Some (entry ` set es)"
    "\<forall>n. HasPrefix n setPrefix \<longrightarrow> n \<notin> set (map fst desired) \<longrightarrow> contents w' n = None" by blast
  have "\<forall>b \<in> set bindings. \<forall>n \<in> set (referenced_sets b). \<exists>es. desired_entries (dep_netipx d) desired n = Some es \<and>
       contents v n = Some (entry ` set es) \<and> contents w' n = Some (entry ` set es)"
    using ok(3) v(2) by blast
  with rd p pl act(1) v(1,3) show ?thesis unfolding setPrefix_def by blast
qed

text \<open>The configuration given to dnsmasq refers only to ipsets of the plan: for every rule with exact or wildcard
  domains, the two destination sets named on its lines are among the sets that are installed and kept.\<close>

theorem dnsmasq_sets_planned:
  assumes "make_plan profiles resolved prewarmed groups = Inr (bindings, desired, active)"
    "g \<in> set groups" "i < length (Rules g)" "dn \<in> set (Domains (Rules g ! i)) \<union> set (WildcardDomains (Rules g ! i))"
  shows "DestinationV4 (RuleSetNames (group_Name g) (int i)) \<in> set (map fst desired) \<and>
    DestinationV6 (RuleSetNames (group_Name g) (int i)) \<in> set (map fst desired)"
proof -
  have needs: "ruleNeedsDestinationSet (Rules g ! i)" "ruleHasSelectors (Rules g ! i)"
    using assms(4) by (auto simp: ruleNeedsDestinationSet_def ruleHasSelectors_def)
  from make_plan_ok(4) [OF assms(1) _ assms(2,3) needs(2), where B = "\<lambda>_. True"] obtain profile where
    "set (referenced_sets (binding_of g (Rules g ! i) (int i) profile)) \<subseteq> set (map fst desired)" by auto
  then show ?thesis using needs(1) by (simp add: referenced_sets_def binding_of_def Let_def)
qed

text \<open>C20: a plan is acceptable to the rule applier: when no two VPN profiles share a mark but not the table, which the
  allocator ensures, the bindings of every plan pass the checks of \<open>ApplyRules\<close>.\<close>

theorem plan_bindings_ok:
  assumes "make_plan profiles resolved prewarmed groups = Inr (bindings, desired, active)"
    "\<And>p q. Some p \<in> set profiles \<Longrightarrow> Some q \<in> set profiles \<Longrightarrow> vp_FWMark p = vp_FWMark q \<Longrightarrow> vp_RouteTable p = vp_RouteTable q"
  shows "bindings_ok bindings"
proof -
  let ?B = "\<lambda>b. \<exists>p. Some p \<in> set profiles \<and> rb_Mark b = vp_FWMark p \<and> rb_RouteTable b = vp_RouteTable p \<and>
    200 \<le> rb_Mark b \<and> 200 \<le> rb_RouteTable b \<and> TrimSpace (rb_Interface b) \<noteq> []"
  have "profile_map profiles n = Some p \<Longrightarrow> Some p \<in> set profiles" for n p
    unfolding profile_map_def by (auto simp: List.map_filter_def dest!: map_of_SomeD)
  then have B: "?B (binding_of grp rule i profile)" if "check_profile grp (profile_map profiles (EgressVPN grp)) = Inr profile" for grp rule i profile
    using check_profile_Inr [OF that] by (auto simp: binding_of_def Let_def)
  from make_plan_ok(3) [where B = ?B, OF assms(1) B] have "\<forall>b \<in> set bindings. ?B b" by blast
  then show ?thesis unfolding bindings_ok_def using assms(2) by metis
qed


text \<open>A configuration with one group over the in-memory ipset operator, for the witnesses.\<close>

definition one_group :: domain_group where
  "one_group = \<lparr>group_ID = 1, group_Name = ''tv'', EgressVPN = ''nl'',
     Rules = [empty_rule\<lparr>DestinationCIDRs := [''10.1.0.0/16''], Domains := [''example.com'']\<rparr>],
     group_Domains = [], CreatedAt = 0, UpdatedAt = 0\<rparr>"

definition one_profile :: vpn_profile where
  "one_profile = \<lparr>vp_Name = ''nl'', vp_RouteTable = 201, vp_FWMark = 201, vp_InterfaceName = ''wg0'', vp_MSSClampV4 = [], vp_MSSClampV6 = []\<rparr>"

definition sample_deps :: "mock_ipset routing_deps" where
  "sample_deps = \<lparr>store_List = Pair (Inr [one_group]), store_Create = (\<lambda>g. Pair (Inr g)), store_Update = (\<lambda>i g. Pair (Inr g)),
     store_Delete = (\<lambda>i. skip_ok), store_ReplaceAll = (\<lambda>g s. skip_ok), store_PurgeResolver = skip_ok, store_PurgePrewarm = skip_ok,
     store_LoadResolver = Pair (Inr []), store_LoadPrewarm = Pair (Inr []), store_UpsertResolver = (\<lambda>s. skip_ok),
     store_UpsertPrewarm = (\<lambda>s. skip_ok), store_ClearResolver = skip_ok, store_ClearPrewarm = skip_ok,
     lister_List = Pair (Inr [Some one_profile]), dep_ipset = MockIPSet, dep_netipx = Some, dns_Generate = GenerateDnsmasqConf,
     dns_Write = (\<lambda>c. skip_ok), dns_Reload = skip_ok, rules_Apply = (\<lambda>bs. skip_ok), rules_Flush = skip_ok\<rparr>"

definition old_sets :: mock_ipset where
  "old_sets = \<lparr>Sets = [(''svpn_old_r1d4'', ''inet'')], IPs = [], Calls = [], ListErr = None, RunErr = None\<rparr>"

lemma sample_frame: "sets_frame sample_deps mock_contents mock_inv"
  by (simp add: sets_frame_def leaves_sets_def sample_deps_def)

theorem applyLocked_sets_exist_witness:
  "fst (applyLocked sample_deps old_sets) = None \<and> mock_contents old_sets ''svpn_old_r1d4'' \<noteq> None \<and>
   mock_contents (snd (applyLocked sample_deps old_sets)) ''svpn_old_r1d4'' = None"
proof -
  let ?run = "applyLocked sample_deps old_sets"
  have r: "fst ?run = None" "mock_contents old_sets ''svpn_old_r1d4'' \<noteq> None" "HasPrefix ''svpn_old_r1d4'' ''svpn_''"
    by code_simp+
  have run: "applyLocked sample_deps old_sets = (None, snd ?run)" using r(1) by (metis prod.collapse)
  have l: "ipset_listing (dep_ipset sample_deps) mock_contents id mock_inv"
    using mock.ipset_listing_axioms by (simp add: sample_deps_def)
  have i: "mock_inv old_sets" by (simp add: mock_inv_def old_sets_def)
  have g: "store_List sample_deps old_sets = (Inr [one_group], old_sets)" "[one_group] \<noteq> []" by (simp_all add: sample_deps_def)
  have rd: "read_by sample_deps ps rs pw \<Longrightarrow> ps = [Some one_profile] \<and> rs = [] \<and> pw = []" for ps rs pw
    by (auto simp: read_by_def sample_deps_def)
  have "(case make_plan [Some one_profile] [] [] [one_group] of Inl e \<Rightarrow> True | Inr (_, desired, _) \<Rightarrow> ''svpn_old_r1d4'' \<notin> set (map fst desired))"
    by code_simp
  then have d: "make_plan [Some one_profile] [] [] [one_group] = Inr (b, desired, a) \<Longrightarrow> ''svpn_old_r1d4'' \<notin> set (map fst desired)" for b desired a
    by simp
  from applyLocked_sets_exist [OF l sample_frame i run g] have "mock_contents (snd ?run) ''svpn_old_r1d4'' = None"
    using rd d r(3) by blast
  with r show ?thesis by blast
qed

lemma sample_plan: "\<exists>bindings desired active. make_plan [Some one_profile] [] [] [one_group] = Inr (bindings, desired, active) \<and>
    map rb_GroupName bindings = [''tv'']"
proof -
  have "(case make_plan [Some one_profile] [] [] [one_group] of Inl e \<Rightarrow> False | Inr (bindings, desired, active) \<Rightarrow> map rb_GroupName bindings = [''tv''])"
    by code_simp
  then show ?thesis by (auto split: sum.splits prod.splits)
qed

theorem dnsmasq_sets_planned_witness:
  "\<exists>bindings desired active. make_plan [Some one_profile] [] [] [one_group] = Inr (bindings, desired, active) \<and>
     DestinationV4 (RuleSetNames ''tv'' 0) \<in> set (map fst desired)"
proof -
  obtain bindings desired active where p: "make_plan [Some one_profile] [] [] [one_group] = Inr (bindings, desired, active)"
    using sample_plan by blast
  have "one_group \<in> set [one_group]" "0 < length (Rules one_group)"
    "''example.com'' \<in> set (Domains (Rules one_group ! 0)) \<union> set (WildcardDomains (Rules one_group ! 0))"
    "group_Name one_group = ''tv''"
    by (simp_all add: one_group_def)
  with dnsmasq_sets_planned [OF p this(1-3)] p show ?thesis by (intro exI conjI) (assumption, simp)
qed

theorem plan_bindings_ok_witness:
  "\<exists>bindings desired active. make_plan [Some one_profile] [] [] [one_group] = Inr (bindings, desired, active) \<and> bindings_ok bindings"
proof -
  obtain bindings desired active where p: "make_plan [Some one_profile] [] [] [one_group] = Inr (bindings, desired, active)"
    using sample_plan by blast
  with plan_bindings_ok [OF p] show ?thesis by auto
qed


end
