(* ===== verification/Addr_Text.thy ===== *)
theory Addr_Text
  imports Desired_Sets
begin

text \<open>
  Addresses and prefixes as text: what the printers of packages \<^verbatim>\<open>net\<close> and \<^verbatim>\<open>net/netip\<close> write, the parsers
  read back, for IPv4, IPv6 with and without zero compression, and IPv4-mapped IPv6 addresses. So the entries
  the program hands to \<^verbatim>\<open>ipset\<close> and reads again from its listing are the prefixes it meant, and two prefixes
  with the same text are the same prefix.
\<close>

definition bytes_ok :: "nat \<Rightarrow> nat list \<Rightarrow> bool" where
  "bytes_ok k bs \<longleftrightarrow> length bs = k \<and> list_all (\<lambda>b. b < 256) bs"

definition addr_ok :: "addr \<Rightarrow> bool" where
  "addr_ok a = (case a of Addr4 bs \<Rightarrow> bytes_ok 4 bs | Addr6 bs \<Rightarrow> bytes_ok 16 bs)"

definition prefix_ok :: "prefix \<Rightarrow> bool" where
  "prefix_ok p \<longleftrightarrow> addr_ok (fst p) \<and> snd p \<le> BitLen (fst p)"


section \<open>Numbers\<close>

lemma show_base_head: "0 < n \<Longrightarrow> hd (show_base 10 n) \<noteq> CHR ''0''"
proof (induction n rule: less_induct)
  case (less n)
  have ne: "show_base 10 k \<noteq> []" for k using show_base_all_digits [of k] by (simp add: all_digits_def)
  show ?case
  proof (cases "n < 10")
    case True
    then have "code (digit_char n) \<noteq> code (CHR ''0'')" using less.prems by (simp add: digit_char_code)
    then show ?thesis using True by (auto simp: show_base.simps [of 10 n])
  next
    case False
    then have "hd (show_base 10 (n div 10)) \<noteq> CHR ''0''" by (intro less.IH) auto
    with False ne show ?thesis by (simp add: show_base.simps [of 10 n])
  qed
qed

lemma show_base_canonical: "length (show_base 10 n) = 1 \<or> hd (show_base 10 n) \<noteq> CHR ''0''"
  using show_base_head [of n] by (cases "n = 0") (simp_all add: show_base.simps [of 10 0])

lemma parse_octet_show: "n < 256 \<Longrightarrow> parse_octet (show_base 10 n) = Some n"
  using show_base_canonical [of n] length_show_base [of 10 n 2]
  by (simp add: parse_octet_def show_base_all_digits read_digits_show_base)

lemma hex_digit_char:
  assumes "d < 16"
  shows "hex_digit (digit_char d)" "the (digit_val (digit_char d)) = d"
proof -
  have "list_all (\<lambda>d. hex_digit (digit_char d) \<and> the (digit_val (digit_char d)) = d) [0..<16]" by code_simp
  with assms show "hex_digit (digit_char d)" "the (digit_val (digit_char d)) = d" by (simp_all add: list_all_iff)
qed

lemma show_hex_digits: "show_hex n \<noteq> [] \<and> list_all hex_digit (show_hex n) \<and> read_hex (show_hex n) = n"
proof (induction n rule: less_induct)
  case (less n)
  show ?case
  proof (cases "n < 16")
    case True
    then show ?thesis by (simp add: show_hex_def show_base.simps [of 16 n] hex_digit_char read_hex_def)
  next
    case False
    then have "n div 16 < n" by simp
    from less [OF this] False show ?thesis
      by (simp add: show_hex_def show_base.simps [of 16 n] hex_digit_char read_hex_def)
  qed
qed

lemma show_hex_length: "n < 65536 \<Longrightarrow> length (show_hex n) \<le> 4"
  by (simp add: show_hex_def show_base.simps [of 16 n] show_base.simps [of 16 "n div 16"]
      show_base.simps [of 16 "n div 16 div 16"] show_base.simps [of 16 "n div 16 div 16 div 16"])

lemma hex_not_sep: "\<not> hex_digit (CHR '':'')" "\<not> hex_digit (CHR ''.'')" "\<not> hex_digit (CHR ''%'')" "\<not> hex_digit (CHR ''/'')"
  by code_simp+

lemma digit_not_sep: "\<not> is_digit (CHR '':'')" "\<not> is_digit (CHR ''.'')" "\<not> is_digit (CHR ''%'')" "\<not> is_digit (CHR ''/'')"
  by code_simp+


section \<open>IPv4\<close>

lemma show_base_no_dot: "CHR ''.'' \<notin> set (show_base 10 n)"
  using show_base_all_digits [of n] digit_not_sep(2) by (auto simp: all_digits_def list_all_iff)

lemma parseIPv4_show: "bytes_ok 4 bs \<Longrightarrow> parseIPv4Fields (show_ip4 bs) = Some bs"
proof -
  assume ok: "bytes_ok 4 bs"
  then obtain a b c d where bs: "bs = [a, b, c, d]"
    by (auto simp: bytes_ok_def numeral_eq_Suc length_Suc_conv)
  have "Split (show_ip4 bs) (CHR ''.'') = map (show_base 10) bs"
    unfolding show_ip4_def by (rule Split_Join) (auto simp: bs show_base_no_dot)
  then show ?thesis using ok by (simp add: parseIPv4Fields_def bs bytes_ok_def parse_octet_show)
qed

lemma show_ip4_front:
  assumes "bytes_ok 4 bs"
  shows "\<exists>w t. show_ip4 bs = w @ CHR ''.'' # t \<and> w \<noteq> [] \<and> list_all is_digit w \<and> length w \<le> 3"
proof -
  obtain a b c d where bs: "bs = [a, b, c, d]"
    using assms by (auto simp: bytes_ok_def numeral_eq_Suc length_Suc_conv)
  have "length (show_base 10 a) \<le> 3"
    using parse_octet_show [of a] assms by (auto simp: bs bytes_ok_def parse_octet_def split: if_splits)
  then show ?thesis
    using show_base_all_digits [of a] by (auto simp: show_ip4_def bs all_digits_def)
qed


section \<open>IPv6 groups\<close>

definition group_bytes :: "nat \<Rightarrow> nat list" where
  "group_bytes g = [g div 256, g mod 256]"

definition hex_groups :: "nat list \<Rightarrow> string" where
  "hex_groups gs = Join (map show_hex gs) '':''"

definition groups_bytes :: "nat list \<Rightarrow> nat list" where
  "groups_bytes gs = concat (map group_bytes gs)"

lemma length_groups_bytes [simp]: "length (groups_bytes gs) = 2 * length gs"
  by (induction gs) (auto simp: groups_bytes_def group_bytes_def)

lemma groups_bytes_simps [simp]:
  "groups_bytes [] = []" "groups_bytes (g # gs) = group_bytes g @ groups_bytes gs"
  "groups_bytes (gs @ hs) = groups_bytes gs @ groups_bytes hs"
  by (simp_all add: groups_bytes_def)

lemma groups_bytes_zeros: "groups_bytes (replicate n 0) = replicate (2 * n) 0"
  by (induction n) (auto simp: group_bytes_def)

lemma hex_groups_Cons: "hex_groups (g # h # gs) = show_hex g @ CHR '':'' # hex_groups (h # gs)"
  by (simp add: hex_groups_def)

lemma hex_groups_front: "\<exists>c t. hex_groups (g # gs) = c # t \<and> hex_digit c"
  using show_hex_digits [of g] by (cases gs; cases "show_hex g") (auto simp: hex_groups_def)

lemma hex_groups_Nil_iff: "hex_groups gs = [] \<longleftrightarrow> gs = []"
proof (cases gs)
  case (Cons g hs)
  then show ?thesis using hex_groups_front [of g hs] by auto
qed (simp add: hex_groups_def)

lemma takeWhile_hex:
  "list_all hex_digit w \<Longrightarrow> t = [] \<or> \<not> hex_digit (hd t) \<Longrightarrow> takeWhile hex_digit (w @ t) = w \<and> dropWhile hex_digit (w @ t) = t"
  by (cases t) (auto simp: list_all_iff takeWhile_append2 dropWhile_append2)

text \<open>One round of the parser: a group and what follows it.\<close>

lemma parse_groups_round:
  assumes "g < 65536" "length bytes + 2 \<le> 16" "t = [] \<or> hd t = CHR '':''"
  shows "parse_groups bytes ell (show_hex g @ t) =
    (let b = bytes @ group_bytes g in
     if t = [] then Some (b, ell, [])
     else if length t = 1 then None
     else if HasPrefix (tl t) '':'' then
       (if ell \<noteq> None then None
        else if tl (tl t) = [] then Some (b, Some (length b), []) else parse_groups b (Some (length b)) (tl (tl t)))
     else parse_groups b ell (tl t))"
proof -
  have t: "t = [] \<or> \<not> hex_digit (hd t)" using assms(3) hex_not_sep by auto
  have w: "takeWhile hex_digit (show_hex g @ t) = show_hex g" "dropWhile hex_digit (show_hex g @ t) = t"
    using takeWhile_hex [OF _ t] show_hex_digits [of g] by auto
  have p: "\<not> HasPrefix t ''.''" "t \<noteq> [] \<Longrightarrow> HasPrefix t '':''"
    using assms(3) by (cases t; auto simp: HasPrefix_def)+
  show ?thesis
    using assms(2) show_hex_digits [of g] show_hex_length [OF assms(1)] p
    by (subst parse_groups.simps) (simp add: w Let_def group_bytes_def)
qed

lemma parse_hex_groups:
  "gs \<noteq> [] \<Longrightarrow> list_all (\<lambda>g. g < 65536) gs \<Longrightarrow> length bytes + 2 * length gs \<le> 16 \<Longrightarrow>
     parse_groups bytes ell (hex_groups gs) = Some (bytes @ groups_bytes gs, ell, [])"
proof (induction gs arbitrary: bytes rule: induct_list012)
  case (2 g)
  then show ?case
    using parse_groups_round [of g bytes "[]" ell] by (simp add: hex_groups_def)
next
  case (3 g h gs)
  obtain c t where c: "hex_groups (h # gs) = c # t" "hex_digit c" using hex_groups_front by blast
  then have "c \<noteq> CHR '':''" using hex_not_sep by auto
  with c have "\<not> HasPrefix (hex_groups (h # gs)) '':''" "hex_groups (h # gs) \<noteq> []" by (auto simp: HasPrefix_def)
  with 3 parse_groups_round [of g bytes "CHR '':'' # hex_groups (h # gs)" ell] show ?case
    by (simp add: hex_groups_Cons group_bytes_def)
qed simp

lemma parse_hex_groups_ell:
  "gs \<noteq> [] \<Longrightarrow> list_all (\<lambda>g. g < 65536) gs \<Longrightarrow> length bytes + 2 * length gs \<le> 16 \<Longrightarrow>
     parse_groups bytes None (hex_groups gs @ ''::'' @ t) =
       (let b = bytes @ groups_bytes gs in
        if t = [] then Some (b, Some (length b), []) else parse_groups b (Some (length b)) t)"
proof (induction gs arbitrary: bytes rule: induct_list012)
  case (2 g)
  then show ?case
    using parse_groups_round [of g bytes "CHR '':'' # CHR '':'' # t" None] by (simp add: hex_groups_def HasPrefix_def Let_def)
next
  case (3 g h gs)
  obtain c u where c: "hex_groups (h # gs) = c # u" "hex_digit c" using hex_groups_front by blast
  then have "c \<noteq> CHR '':''" using hex_not_sep by auto
  with c have "\<not> HasPrefix (hex_groups (h # gs) @ ''::'' @ t) '':''" "hex_groups (h # gs) \<noteq> []" by (auto simp: HasPrefix_def)
  with 3 parse_groups_round [of g bytes "CHR '':'' # hex_groups (h # gs) @ ''::'' @ t" None] show ?case
    by (simp add: hex_groups_Cons group_bytes_def Let_def)
qed simp


section \<open>Zero compression\<close>

lemma best_run_zeros:
  "best_run i gs best = (z, n) \<Longrightarrow>
     (z, n) = best \<or> i \<le> z \<and> 2 \<le> n \<and> z - i + n \<le> length gs \<and> take n (drop (z - i) gs) = replicate n 0"
proof (induction i gs best rule: best_run.induct)
  case (2 i g gs best)
  let ?n = "length (takeWhile (\<lambda>x. x = 0) (g # gs))"
  have run: "take ?n (g # gs) = replicate ?n 0" "?n \<le> length (g # gs)"
    by (metis (mono_tags, lifting) replicate_eqI set_takeWhileD takeWhile_eq_take) (rule length_takeWhile_le)
  define best' where "best' = (if 2 \<le> ?n \<and> ?n > snd best then (i, ?n) else best)"
  have "best_run (Suc i) gs best' = (z, n)" using "2.prems" unfolding best'_def best_run.simps Let_def .
  from "2.IH" [OF refl, folded best'_def, OF this] show ?case
  proof
    assume "(z, n) = best'"
    then show ?thesis using run by (auto simp: best'_def split: if_splits)
  next
    assume a: "Suc i \<le> z \<and> 2 \<le> n \<and> z - Suc i + n \<le> length gs \<and> take n (drop (z - Suc i) gs) = replicate n 0"
    then have "z - i = Suc (z - Suc i)" by (metis Suc_diff_le diff_Suc_Suc)
    with a show ?thesis by simp
  qed
qed simp

lemma groups16_bytes: "bytes_ok k bs \<Longrightarrow> even k \<Longrightarrow> groups_bytes (groups16 bs) = bs \<and> list_all (\<lambda>g. g < 65536) (groups16 bs) \<and> length (groups16 bs) = k div 2"
proof (induction bs arbitrary: k rule: groups16.induct)
  case (1 a b bs)
  then obtain k' where k: "k = Suc (Suc k')" "bytes_ok k' bs" "even k'"
    by (cases k; cases "k - 1") (auto simp: bytes_ok_def)
  with 1 show ?case by (auto simp: bytes_ok_def group_bytes_def)
qed (auto simp: bytes_ok_def)

lemma hex_groups_not_lead: "gs \<noteq> [] \<Longrightarrow> \<not> HasPrefix (hex_groups gs @ t) ''::''"
proof -
  assume "gs \<noteq> []"
  then obtain c u where "hex_groups gs = c # u" "hex_digit c" using hex_groups_front by (metis neq_Nil_conv)
  moreover have "c \<noteq> CHR '':''" using calculation hex_not_sep by auto
  ultimately show ?thesis by (simp add: HasPrefix_def)
qed

lemma show_ip6_shape:
  "best_run 0 (groups16 bs) (0, 0) = (z, n) \<Longrightarrow>
     show_ip6 bs = (if n = 0 then hex_groups (groups16 bs)
       else hex_groups (take z (groups16 bs)) @ ''::'' @ hex_groups (drop (z + n) (groups16 bs)))"
  by (simp add: show_ip6_def hex_groups_def Let_def)

lemma parseIPv6_show:
  assumes "bytes_ok 16 bs"
  shows "parseIPv6 (show_ip6 bs) = Some bs"
proof -
  let ?gs = "groups16 bs"
  have gs: "groups_bytes ?gs = bs" "list_all (\<lambda>g. g < 65536) ?gs" "length ?gs = 8"
    using groups16_bytes [OF assms] by auto
  obtain z n where zn: "best_run 0 ?gs (0, 0) = (z, n)" by (cases "best_run 0 ?gs (0, 0)")
  show ?thesis
  proof (cases "n = 0")
    case True
    then have s: "show_ip6 bs = hex_groups ?gs" using show_ip6_shape [OF zn] by simp
    have "?gs \<noteq> []" using gs(3) by auto
    then have "\<not> HasPrefix (hex_groups ?gs) ''::''" using hex_groups_not_lead [of ?gs "[]"] by simp
    moreover have "parse_groups [] None (hex_groups ?gs) = Some (bs, None, [])"
      using parse_hex_groups [of ?gs "[]" None] gs \<open>?gs \<noteq> []\<close> by simp
    ultimately show ?thesis using assms by (simp add: s parseIPv6_def bytes_ok_def)
  next
    case False
    let ?A = "take z ?gs" and ?B = "drop (z + n) ?gs"
    have z: "2 \<le> n" "z + n \<le> 8" "take n (drop z ?gs) = replicate n 0"
      using best_run_zeros [OF zn] False gs(3) by auto
    have s: "show_ip6 bs = hex_groups ?A @ ''::'' @ hex_groups ?B"
      using show_ip6_shape [OF zn] False by simp
    have "?gs = ?A @ replicate n 0 @ ?B" by (metis add.commute append_take_drop_id drop_drop z(3))
    then have bs: "bs = groups_bytes ?A @ replicate (2 * n) 0 @ groups_bytes ?B"
      using gs(1) by (metis groups_bytes_simps(3) groups_bytes_zeros)
    have len: "length ?A = z" "length ?B = 8 - (z + n)" using z gs(3) by auto
    have small: "list_all (\<lambda>g. g < 65536) ?A" "list_all (\<lambda>g. g < 65536) ?B"
      using gs(2) by (auto simp: list_all_iff dest: in_set_takeD in_set_dropD)
    have B: "parse_groups b ell (hex_groups ?B) = Some (b @ groups_bytes ?B, ell, [])"
      if "?B \<noteq> []" "length b \<le> 2 * z" for b ell
      using parse_hex_groups [OF that(1) small(2), of b ell] that(2) len z by auto
    show ?thesis
    proof (cases "?A = []")
      case True
      then have "z = 0" using len(1) by (metis list.size(3))
      have s': "show_ip6 bs = ''::'' @ hex_groups ?B" using s True by (simp add: hex_groups_def)
      show ?thesis
      proof (cases "?B = []")
        case True
        then have "n = 8" using len z \<open>z = 0\<close> by auto
        then show ?thesis
          using s' True bs \<open>?A = []\<close> by (simp add: parseIPv6_def hex_groups_def HasPrefix_def)
      next
        case False
        have "16 - 2 * (8 - n) = 2 * n" using z(2) by simp
        with False show ?thesis
          unfolding parseIPv6_def s' using B [OF False, of "[]" "Some 0"] hex_groups_Nil_iff [of ?B] bs [symmetric] \<open>?A = []\<close> len(2) z False \<open>z = 0\<close>
          by (simp add: HasPrefix_def Let_def)
      qed
    next
      case False
      have lead: "\<not> HasPrefix (show_ip6 bs) ''::''" unfolding s by (rule hex_groups_not_lead [OF False])
      have p: "parse_groups [] None (show_ip6 bs) = Some (groups_bytes ?A @ groups_bytes ?B, Some (length (groups_bytes ?A)), [])"
        unfolding s using parse_hex_groups_ell [OF False small(1), of "[]" "hex_groups ?B"] len z B [of "groups_bytes ?A"] hex_groups_Nil_iff [of ?B]
        by (cases "?B = []") (auto simp: Let_def hex_groups_def)
      have "16 - (2 * z + 2 * (8 - (z + n))) = 2 * n" "2 * z + 2 * (8 - (z + n)) < 16" using z(1,2) by auto
      then show ?thesis
        unfolding parseIPv6_def using lead p bs [symmetric] len by (simp add: Let_def)
    qed
  qed
qed


section \<open>Addresses\<close>

definition plain_front :: "string \<Rightarrow> bool" where
  "plain_front w \<longleftrightarrow> list_all (\<lambda>c. c \<noteq> CHR ''.'' \<and> c \<noteq> CHR '':'' \<and> c \<noteq> CHR ''%'') w"

lemma plain_hex: "list_all hex_digit w \<Longrightarrow> plain_front w"
  using hex_not_sep by (auto simp: plain_front_def list_all_iff)

lemma plain_digits: "list_all is_digit w \<Longrightarrow> plain_front w"
  using digit_not_sep by (auto simp: plain_front_def list_all_iff)

lemma ParseAddr_split:
  assumes "plain_front w"
  shows "ParseAddr (w @ CHR ''.'' # t) = map_option Addr4 (parseIPv4Fields (w @ CHR ''.'' # t))"
    and "ParseAddr (w @ CHR '':'' # t) = map_option Addr6 (parseIPv6 (w @ CHR '':'' # t))"
  using assms by (auto simp: ParseAddr_def plain_front_def list_all_iff dropWhile_append2)

lemma show_ip6_front: "bytes_ok 16 bs \<Longrightarrow> \<exists>w t. show_ip6 bs = w @ CHR '':'' # t \<and> plain_front w"
proof -
  assume ok: "bytes_ok 16 bs"
  have join: "\<exists>w t. hex_groups gs @ CHR '':'' # u = w @ CHR '':'' # t \<and> plain_front w" for gs u
  proof -
    consider "gs = []" | g where "gs = [g]" | g h hs where "gs = g # h # hs" by (meson remdups_adj.cases)
    then show ?thesis
    proof cases
      case 1
      then show ?thesis by (auto simp: hex_groups_def plain_front_def intro: exI [of _ "[]"])
    next
      case 2
      then show ?thesis using plain_hex [of "show_hex g"] show_hex_digits [of g] by (auto simp: hex_groups_def)
    next
      case 3
      then show ?thesis using plain_hex [of "show_hex g"] show_hex_digits [of g] by (auto simp: hex_groups_Cons)
    qed
  qed
  have full: "\<exists>w t. hex_groups (g # h # gs) = w @ CHR '':'' # t \<and> plain_front w" for g h gs
    using plain_hex show_hex_digits by (auto simp: hex_groups_Cons)
  obtain g h gs where gs: "groups16 bs = g # h # gs"
    using groups16_bytes [OF ok] by (cases "groups16 bs"; cases "tl (groups16 bs)") auto
  obtain z n where zn: "best_run 0 (groups16 bs) (0, 0) = (z, n)" by (cases "best_run 0 (groups16 bs) (0, 0)")
  show ?thesis
  proof (cases "n = 0")
    case True
    then have "show_ip6 bs = hex_groups (g # h # gs)" using show_ip6_shape [OF zn] gs by simp
    then show ?thesis using full by simp
  next
    case False
    then show ?thesis using show_ip6_shape [OF zn] join [of "take z (groups16 bs)"] by simp
  qed
qed

lemma parse_mapped:
  assumes "bytes_ok 4 bs"
  shows "parseIPv6 (''::ffff:'' @ show_ip4 bs) = Some (v4InV6Prefix @ bs)"
proof -
  obtain w t where w: "show_ip4 bs = w @ CHR ''.'' # t" "w \<noteq> []" "list_all is_digit w" "length w \<le> 3"
    using show_ip4_front [OF assms] by blast
  have hex: "list_all hex_digit w" using w(3) by (auto simp: list_all_iff hex_digit_def)
  have f: "show_hex 65535 = ''ffff''" by code_simp
  have tk: "takeWhile hex_digit (show_ip4 bs) = w" "dropWhile hex_digit (show_ip4 bs) = CHR ''.'' # t"
    using takeWhile_hex [OF hex, of "CHR ''.'' # t"] hex_not_sep(2) w(1) by auto
  have v4: "parse_groups [255, 255] (Some 0) (show_ip4 bs) = Some ([255, 255] @ bs, Some 0, [])"
    using w(2,4) by (subst parse_groups.simps) (simp add: tk Let_def HasPrefix_def parseIPv4_show [OF assms])
  have "\<not> HasPrefix (show_ip4 bs) '':''" "show_ip4 bs \<noteq> []"
    using w digit_not_sep(1) by (cases w; auto simp: HasPrefix_def)+
  then have "parse_groups [] (Some 0) (show_hex 65535 @ CHR '':'' # show_ip4 bs) = Some ([255, 255] @ bs, Some 0, [])"
    using v4 by (subst parse_groups_round) (simp_all add: Let_def group_bytes_def)
  then have "parse_groups [] (Some 0) (''ffff:'' @ show_ip4 bs) = Some ([255, 255] @ bs, Some 0, [])" by (simp add: f)
  moreover have "HasPrefix (''::ffff:'' @ show_ip4 bs) ''::''" "drop 2 (''::ffff:'' @ show_ip4 bs) = ''ffff:'' @ show_ip4 bs"
    by (simp_all add: HasPrefix_def)
  moreover have "length bs = 4" "''ffff:'' @ show_ip4 bs \<noteq> []" using assms by (simp_all add: bytes_ok_def)
  moreover have "replicate 10 0 @ [255, 255] = v4InV6Prefix" by (simp add: v4InV6Prefix_def numeral_eq_Suc)
  ultimately show ?thesis
    unfolding parseIPv6_def Let_def by (simp del: append.simps)
qed

lemma ParseAddr_String: "addr_ok a \<Longrightarrow> ParseAddr (addr_String a) = Some a"
proof (cases a)
  case (Addr4 bs)
  assume "addr_ok a"
  then have ok: "bytes_ok 4 bs" by (simp add: addr_ok_def Addr4)
  obtain w t where w: "show_ip4 bs = w @ CHR ''.'' # t" "list_all is_digit w" using show_ip4_front [OF ok] by blast
  have "ParseAddr (show_ip4 bs) = map_option Addr4 (parseIPv4Fields (show_ip4 bs))"
    unfolding w(1) by (rule ParseAddr_split(1) [OF plain_digits [OF w(2)]])
  then show ?thesis by (simp add: Addr4 addr_String_def parseIPv4_show [OF ok])
next
  case (Addr6 bs)
  assume "addr_ok a"
  then have ok: "bytes_ok 16 bs" by (simp add: addr_ok_def Addr6)
  show ?thesis
  proof (cases "take 12 bs = v4InV6Prefix")
    case True
    have b: "bytes_ok 4 (drop 12 bs)" using ok by (auto simp: bytes_ok_def list_all_iff dest: in_set_dropD)
    have "ParseAddr (''::ffff:'' @ show_ip4 (drop 12 bs)) = map_option Addr6 (parseIPv6 (''::ffff:'' @ show_ip4 (drop 12 bs)))"
      using ParseAddr_split(2) [of "[]" "'':ffff:'' @ show_ip4 (drop 12 bs)"] by (simp add: plain_front_def)
    then show ?thesis
      using True parse_mapped [OF b] by (simp add: Addr6 addr_String_def) (metis append_take_drop_id)
  next
    case False
    obtain w t where w: "show_ip6 bs = w @ CHR '':'' # t" "plain_front w" using show_ip6_front [OF ok] by blast
    have "ParseAddr (show_ip6 bs) = map_option Addr6 (parseIPv6 (show_ip6 bs))"
      unfolding w(1) by (rule ParseAddr_split(2) [OF w(2)])
    then show ?thesis using False by (simp add: Addr6 addr_String_def parseIPv6_show [OF ok])
  qed
qed


section \<open>Prefixes\<close>

lemma Itoa_prefix_bits:
  "n \<le> 128 \<Longrightarrow> CHR ''/'' \<notin> set (Itoa (int n)) \<and> Atoi (Itoa (int n)) = Some (int n) \<and>
     (length (Itoa (int n)) > 1 \<longrightarrow> is_digit (hd (Itoa (int n))) \<and> hd (Itoa (int n)) \<noteq> CHR ''0'')"
proof -
  assume n: "n \<le> 128"
  have d: "all_digits (show_base 10 n)" by (rule show_base_all_digits)
  then have "CHR ''/'' \<notin> set (show_base 10 n)" using digit_not_sep(4) by (auto simp: all_digits_def list_all_iff)
  moreover have "Atoi (Itoa (int n)) = Some (int n)" by (rule Atoi_Itoa) (use n in \<open>simp add: int64_range_def\<close>)
  moreover have "is_digit (hd (show_base 10 n))" using d by (cases "show_base 10 n") (auto simp: all_digits_def)
  ultimately show ?thesis using show_base_canonical [of n] by (auto simp: Itoa_def)
qed

lemma BitLen_le: "BitLen a \<le> 128"
  by (cases a) (simp_all add: BitLen_def)

lemma ParsePrefix_String: "prefix_ok p \<Longrightarrow> netip_ParsePrefix (prefix_String p) = Some p"
proof -
  obtain a n where p: "p = (a, n)" by (cases p)
  assume "prefix_ok p"
  then have ok: "addr_ok a" "n \<le> BitLen a" by (simp_all add: prefix_ok_def p)
  then have n: "n \<le> 128" using BitLen_le [of a] by simp
  note bits = Itoa_prefix_bits [OF n]
  let ?s = "addr_String a @ CHR ''/'' # Itoa (int n)"
  have tk: "takeWhile (\<lambda>c. c \<noteq> CHR ''/'') (rev (Itoa (int n)) @ CHR ''/'' # rev (addr_String a)) = rev (Itoa (int n))"
    using bits by (subst takeWhile_append2) auto
  have "rev (takeWhile (\<lambda>c. c \<noteq> CHR ''/'') (rev ?s)) = Itoa (int n)" using tk by simp
  then show ?thesis
    using bits ok unfolding netip_ParsePrefix_def
    by (auto simp: p prefix_String_def ParseAddr_String Let_def)
qed

lemma prefix_String_inj: "prefix_ok p \<Longrightarrow> prefix_ok q \<Longrightarrow> prefix_String p = prefix_String q \<Longrightarrow> p = q"
  by (metis ParsePrefix_String option.inject)


section \<open>What the parsers return\<close>

lemma read_hex_bound: "list_all hex_digit s \<Longrightarrow> read_hex s < 16 ^ length s"
proof (induction s rule: rev_induct)
  case (snoc c s)
  have "is_digit c \<or> 97 \<le> code (lower_char c) \<and> code (lower_char c) \<le> 102"
    using snoc.prems by (auto simp: hex_digit_def)
  then have "the (digit_val c) < 16"
    by (auto simp: code_lower_char digit_val_def is_digit_def is_lower_def is_upper_def split: if_splits)
  then show ?case using snoc by (simp add: read_hex_def)
qed (simp add: read_hex_def)

lemma parseIPv4_ok: "parseIPv4Fields s = Some bs \<Longrightarrow> bytes_ok 4 bs"
  by (auto simp: parseIPv4Fields_def bytes_ok_def parse_octet_def split: list.splits option.splits if_splits)

lemma parse_groups_ok:
  assumes "parse_groups bytes ell s = Some (bytes', ell', rest)" "list_all (\<lambda>b. b < 256) bytes" "even (length bytes)" "length bytes \<le> 16"
    "\<forall>e. ell = Some e \<longrightarrow> e \<le> length bytes"
  shows "list_all (\<lambda>b. b < 256) bytes' \<and> length bytes' \<le> 16 \<and> (\<forall>e. ell' = Some e \<longrightarrow> e \<le> length bytes')"
  using assms
proof (induction bytes ell s rule: parse_groups.induct)
  case (1 bytes ell s)
  let ?ds = "takeWhile hex_digit s" and ?rest = "dropWhile hex_digit s"
  have two: "list_all (\<lambda>b. b < 256) [read_hex ?ds div 256, read_hex ?ds mod 256]" if "length ?ds \<le> 4"
  proof -
    have "read_hex ?ds < 16 ^ length ?ds" by (rule read_hex_bound) (auto simp: list_all_iff dest: set_takeWhileD)
    also have "\<dots> \<le> 16 ^ 4" using that by (intro power_increasing) auto
    finally show ?thesis by (simp add: less_mult_imp_div_less)
  qed
  have small: "length bytes + 2 \<le> 16" if "length bytes < 16"
    using that "1.prems"(3) by presburger
  show ?case
  proof (cases "length bytes \<ge> 16 \<or> ?ds = [] \<or> length ?ds > 4 \<or> HasPrefix ?rest ''.'' \<or> ?rest = []")
    case True
    then show ?thesis
      using "1.prems" two small parseIPv4_ok
      by (subst (asm) parse_groups.simps)
        (auto simp: Let_def bytes_ok_def split: if_splits option.splits dest!: parseIPv4_ok)
  next
    case False
    let ?b = "bytes @ [read_hex ?ds div 256, read_hex ?ds mod 256]"
    have ok: "list_all (\<lambda>b. b < 256) ?b" "even (length ?b)" "length ?b \<le> 16" using "1.prems" two small False by auto
    show ?thesis
    proof (cases "HasPrefix (tl ?rest) '':''")
      case True
      then show ?thesis
        using "1.prems"(1) False ok "1.IH"(1) [OF _ refl refl _ _ refl] by (subst (asm) parse_groups.simps) (auto simp: Let_def split: if_splits)
    next
      case nf: False
      have "\<forall>e. ell = Some e \<longrightarrow> e \<le> length ?b" using "1.prems"(5) by auto
      then show ?thesis
        using "1.prems"(1) False nf ok "1.IH"(2) [OF _ refl refl _ _ refl] by (subst (asm) parse_groups.simps) (auto simp: Let_def split: if_splits)
    qed
  qed
qed


lemma parseIPv6_ok: "parseIPv6 s = Some bs \<Longrightarrow> bytes_ok 16 bs"
proof -
  assume p: "parseIPv6 s = Some bs"
  let ?lead = "HasPrefix s ''::''"
  let ?body = "if ?lead then drop 2 s else s"
  show ?thesis
  proof (cases "?lead \<and> ?body = []")
    case True
    then show ?thesis using p by (auto simp: parseIPv6_def bytes_ok_def Let_def list_all_iff)
  next
    case False
    then obtain bytes ell rest where g: "parse_groups [] (if ?lead then Some 0 else None) ?body = Some (bytes, ell, rest)"
      using p by (auto simp: parseIPv6_def Let_def split: option.splits if_splits)
    have ok: "list_all (\<lambda>b. b < 256) bytes" "length bytes \<le> 16" "ell = Some e \<Longrightarrow> e \<le> length bytes" for e
      using parse_groups_ok [OF g] by auto
    have "(if length bytes < 16 then (case ell of None \<Rightarrow> None | Some e \<Rightarrow> Some (take e bytes @ replicate (16 - length bytes) 0 @ drop e bytes))
        else if ell \<noteq> None then None else Some bytes) = Some bs"
      using p False g unfolding parseIPv6_def Let_def by (auto split: if_splits option.splits)
    then show ?thesis
      using ok by (auto simp: bytes_ok_def list_all_iff split: if_splits option.splits dest!: in_set_takeD in_set_dropD)
  qed
qed

lemma ParseAddr_ok: "ParseAddr s = Some a \<Longrightarrow> addr_ok a"
  by (auto simp: ParseAddr_def addr_ok_def split: list.splits if_splits dest: parseIPv4_ok parseIPv6_ok)

lemma netip_ParsePrefix_ok: "netip_ParsePrefix s = Some p \<Longrightarrow> prefix_ok p"
  by (auto simp: netip_ParsePrefix_def prefix_ok_def Let_def split: if_splits option.splits dest: ParseAddr_ok)

lemma mask_bytes_ok: "list_all (\<lambda>b. b < 256) bs \<Longrightarrow> list_all (\<lambda>b. b < 256) (mask_bytes k bs) \<and> length (mask_bytes k bs) = length bs"
proof (induction k bs rule: mask_bytes.induct)
  case (2 k b bs)
  have "mask_byte k b \<le> b" by (simp add: mask_byte_def)
  with 2 show ?case by auto
qed simp

lemma Masked_ok: "prefix_ok p \<Longrightarrow> prefix_ok (Masked p)"
  by (cases p; cases "fst p") (auto simp: prefix_ok_def Masked_def addr_ok_def bytes_ok_def BitLen_def mask_bytes_ok)

lemma Unmap_ok: "addr_ok a \<Longrightarrow> addr_ok (Unmap a)"
  by (cases a) (auto simp: Unmap_def addr_ok_def bytes_ok_def list_all_iff dest: in_set_dropD)



section \<open>Hardware addresses\<close>

lemma show_base_lower: "c \<in> set (show_base 16 n) \<Longrightarrow> lower_char c = c"
proof (induction n rule: less_induct)
  case (less n)
  have "\<not> is_upper (digit_char d)" if "d < 16" for d using that by (simp add: digit_char_def is_upper_def)
  moreover have "lower_char c = c" if "\<not> n < 16" "c \<in> set (show_base 16 (n div 16))"
    by (rule less.IH [OF _ that(2)]) (use that(1) in simp)
  ultimately show ?case
    using less.prems by (cases "n < 16") (auto simp: show_base.simps [of 16 n] lower_char_id)
qed

definition hex2 :: "nat \<Rightarrow> string" where
  "hex2 b = pad_zero 2 (show_hex b)"

lemma read_hex_zero: "read_hex (CHR ''0'' # s) = read_hex s"
proof -
  have "the (digit_val (CHR ''0'')) = 0" by code_simp
  then show ?thesis by (simp add: read_hex_def)
qed

lemma hex2_ok:
  assumes "b < 256"
  shows "length (hex2 b) = 2" "list_all hex_digit (hex2 b)" "read_hex (hex2 b) = b"
proof -
  have l: "length (show_hex b) \<le> 2" "show_hex b \<noteq> []"
    using length_show_base [of 16 b 1] assms show_hex_digits [of b] by (simp_all add: show_hex_def)
  have z: "hex_digit (CHR ''0'')" by code_simp
  show "length (hex2 b) = 2" using l by (simp add: hex2_def pad_zero_def)
  show "list_all hex_digit (hex2 b)" using show_hex_digits [of b] z by (auto simp: hex2_def pad_zero_def list_all_iff)
  have "length (show_hex b) = 1 \<or> length (show_hex b) = 2" using l by (cases "show_hex b"; cases "tl (show_hex b)") auto
  then show "read_hex (hex2 b) = b"
    using show_hex_digits [of b] by (auto simp: hex2_def pad_zero_def read_hex_zero)
qed

lemma mac_String_hex2: "mac_String bs = Join (map hex2 bs) '':''"
  by (simp add: mac_String_def hex2_def [abs_def])

lemma ParseMAC_String:
  assumes "bytes_ok 6 hw"
  shows "ParseMAC (mac_String hw) = Some hw" "ToLower (mac_String hw) = mac_String hw"
    "list_all (\<lambda>c. hex_digit c \<or> c = CHR '':'') (mac_String hw)" "mac_String hw \<noteq> []"
proof -
  obtain a b c d e f where hw: "hw = [a, b, c, d, e, f]"
    using assms by (auto simp: bytes_ok_def numeral_eq_Suc length_Suc_conv)
  have lt: "x \<in> set hw \<Longrightarrow> x < 256" for x using assms by (auto simp: bytes_ok_def list_all_iff)
  have two: "\<exists>p q. hex2 x = [p, q] \<and> hex_digit p \<and> hex_digit q \<and> read_hex [p, q] = x" if "x < 256" for x
    using hex2_ok [OF that] by (auto simp: numeral_eq_Suc length_Suc_conv)
  obtain a1 a2 b1 b2 c1 c2 d1 d2 e1 e2 f1 f2 where h:
    "hex2 a = [a1, a2]" "hex2 b = [b1, b2]" "hex2 c = [c1, c2]" "hex2 d = [d1, d2]" "hex2 e = [e1, e2]" "hex2 f = [f1, f2]"
    and dg: "hex_digit a1" "hex_digit a2" "hex_digit b1" "hex_digit b2" "hex_digit c1" "hex_digit c2"
      "hex_digit d1" "hex_digit d2" "hex_digit e1" "hex_digit e2" "hex_digit f1" "hex_digit f2"
    and v: "read_hex [a1, a2] = a" "read_hex [b1, b2] = b" "read_hex [c1, c2] = c" "read_hex [d1, d2] = d" "read_hex [e1, e2] = e" "read_hex [f1, f2] = f"
    using two [OF lt [of a]] two [OF lt [of b]] two [OF lt [of c]] two [OF lt [of d]] two [OF lt [of e]] two [OF lt [of f]]
    unfolding hw by auto
  have str: "mac_String hw = [a1, a2, CHR '':'', b1, b2, CHR '':'', c1, c2, CHR '':'', d1, d2, CHR '':'', e1, e2, CHR '':'', f1, f2]"
    by (simp add: mac_String_hex2 hw h)
  have nc: "x \<noteq> CHR '':''" if "hex_digit x" for x using that hex_not_sep(1) by auto
  have "Split (mac_String hw) (CHR '':'') = map hex2 hw"
    unfolding mac_String_hex2 by (rule Split_Join) (use nc dg in \<open>auto simp: hw h\<close>)
  then have g: "parse_mac_groups 2 (CHR '':'') (mac_String hw) = Some (map hex2 hw)"
    using dg by (simp add: parse_mac_groups_def hw h)
  have "mac_bytes (concat (map hex2 hw)) = hw"
    using dg v by (simp add: mac_bytes_def hw h Let_def upt_rec)
  moreover have "length (mac_String hw) = 17" "mac_String hw ! 2 = CHR '':''" by (simp_all add: str)
  moreover have "length hw = 6" by (simp add: hw)
  ultimately show "ParseMAC (mac_String hw) = Some hw"
    using g by (simp add: ParseMAC_def)
  have low: "lower_char x = x" if "x \<in> set (hex2 y)" for x y
    using that by (auto simp: hex2_def pad_zero_def show_hex_def lower_char_def is_upper_def split: if_splits dest: show_base_lower)
  show "ToLower (mac_String hw) = mac_String hw"
    using low [of _ a] low [of _ b] low [of _ c] low [of _ d] low [of _ e] low [of _ f]
    by (simp add: str ToLower_def h lower_char_def is_upper_def)
  show "list_all (\<lambda>c. hex_digit c \<or> c = CHR '':'') (mac_String hw)" "mac_String hw \<noteq> []"
    using dg by (simp_all add: str)
qed

lemma ParseMAC_ok: "ParseMAC s = Some hw \<Longrightarrow> list_all (\<lambda>b. b < 256) hw"
proof -
  assume "ParseMAC s = Some hw"
  then obtain t where hw: "hw = mac_bytes t" by (auto simp: ParseMAC_def Let_def split: if_splits option.splits)
  have "read_hex (take 2 (drop k (filter hex_digit t))) < 256" for k
  proof -
    have "list_all hex_digit (take 2 (drop k (filter hex_digit t)))"
      by (auto simp: list_all_iff dest!: in_set_takeD in_set_dropD)
    from read_hex_bound [OF this] show ?thesis
      by (rule less_le_trans) (use power_increasing [of "length (take 2 (drop k (filter hex_digit t)))" 2 "16::nat"] in simp)
  qed
  then show ?thesis by (auto simp: hw mac_bytes_def Let_def list_all_iff)
qed


section \<open>Properties\<close>

text \<open>An entry that the program wrote into an ipset is read back as the same prefix: \<open>parseSetEntryPrefix\<close> applied to
  the text of a masked prefix of the set's family returns this prefix, for IPv4 and for IPv6 in every
  compressed form. Aggregating aggregated entries again therefore starts from the same prefixes.\<close>

theorem set_entry_roundtrip:
  assumes "prefix_ok p" "Masked p = p"
    "family = ''inet'' \<and> (\<exists>bs. fst p = Addr4 bs) \<or> family = ''inet6'' \<and> (\<exists>bs. fst p = Addr6 bs) \<and> \<not> Is4In6 (fst p)"
  shows "parseSetEntryPrefix (prefix_String p) family = Inr (Some p)"
proof -
  have "CHR ''/'' \<in> set (prefix_String p)" by (simp add: prefix_String_def)
  moreover have "prefix_String p \<noteq> []" by (simp add: prefix_String_def)
  moreover have "validateEntryFamily (fst p) family e = None" for e
    using assms(3) by (auto simp: validateEntryFamily_def)
  ultimately show ?thesis
    using ParsePrefix_String [OF assms(1)] by (simp add: parseSetEntryPrefix_def Let_def assms(2))
qed

theorem set_entry_roundtrip_witness:
  "parseSetEntryPrefix (prefix_String (Addr6 ([32, 1, 13, 184] @ replicate 12 0), 32)) ''inet6'' =
     Inr (Some (Addr6 ([32, 1, 13, 184] @ replicate 12 0), 32)) \<and>
   prefix_String (Addr6 ([32, 1, 13, 184] @ replicate 12 0), 32) = ''2001:db8::/32''"
proof
  let ?p = "(Addr6 ([32, 1, 13, 184] @ replicate 12 0), 32) :: prefix"
  have "prefix_ok ?p" "Masked ?p = ?p" "\<not> Is4In6 (fst ?p)" by code_simp+
  then show "parseSetEntryPrefix (prefix_String ?p) ''inet6'' = Inr (Some ?p)"
    by (intro set_entry_roundtrip) auto
  show "prefix_String ?p = ''2001:db8::/32''" by code_simp
qed

end
