(* ===== verification/Device_Directory.thy ===== *)
theory Device_Directory
  imports Net_Addr "HOL-Library.AList"
begin

text \<open>
  The device directory of the inspectors (\<^verbatim>\<open>internal/server/device_directory.go\<close>,
  \<^verbatim>\<open>device_directory_ids.go\<close>): names and addresses of the hosts in the local network, collected from
  DHCP leases, the neighbour table and the JSON of the gateway's API. Maps are association lists, a set of
  addresses is a list without repetition. Running the commands and reading the lease files is input; decoded
  JSON is the datatype \<open>json\<close>, an object being a list of fields in the order in which Go visits them.
\<close>


section \<open>Normal forms\<close>

definition normalizeMAC :: "string \<Rightarrow> string" where
  "normalizeMAC raw =
     (let t = TrimSpace raw in
      if t = [] then [] else (case ParseMAC t of None \<Rightarrow> [] | Some hw \<Rightarrow> ToLower (mac_String hw)))"

definition normalizeIP :: "string \<Rightarrow> string" where
  "normalizeIP raw =
     (let t = before_char (CHR ''%'') (TrimSpace raw) in
      if TrimSpace raw = [] then []
      else (case ParseIP t of
              Some i \<Rightarrow> IP_String i
            | None \<Rightarrow> (case ParseCIDR t of None \<Rightarrow> [] | Some c \<Rightarrow> IP_String (cidr_ip c))))"

definition trim_quotes :: "string \<Rightarrow> string" where
  "trim_quotes s =
     (let q = (\<lambda>c. c = CHR 0x22 \<or> c = CHR 0x27) in rev (dropWhile q (rev (dropWhile q s))))"

definition normalizeDeviceName :: "string \<Rightarrow> string" where
  "normalizeDeviceName raw = (let t = trim_quotes (TrimSpace raw) in if t = [] \<or> t = ''*'' then [] else t)"


section \<open>The directory\<close>

record device_directory =
  byMAC :: "(string \<times> string) list"
  byIP :: "(string \<times> string) list"
  ipsMAC :: "(string \<times> string list) list"
  macByIP :: "(string \<times> string) list"
  dir_order :: "string list"
  seenMAC :: "string list"

definition empty_directory :: device_directory where
  "empty_directory = \<lparr>byMAC = [], byIP = [], ipsMAC = [], macByIP = [], dir_order = [], seenMAC = []\<rparr>"

definition map_text :: "(string \<times> string) list \<Rightarrow> string \<Rightarrow> string" where
  "map_text m k = (case map_of m k of None \<Rightarrow> [] | Some v \<Rightarrow> v)"

definition map_list :: "(string \<times> string list) list \<Rightarrow> string \<Rightarrow> string list" where
  "map_list m k = (case map_of m k of None \<Rightarrow> [] | Some v \<Rightarrow> v)"

definition ensureOrderedMAC :: "string \<Rightarrow> device_directory \<Rightarrow> device_directory" where
  "ensureOrderedMAC mac d =
     (if mac \<in> set (seenMAC d) then d
      else d\<lparr>seenMAC := mac # seenMAC d, dir_order := dir_order d @ [mac]\<rparr>)"

definition addMACName :: "string \<Rightarrow> string \<Rightarrow> device_directory \<Rightarrow> device_directory" where
  "addMACName mac name d =
     (let m = normalizeMAC mac; n = normalizeDeviceName name in
      if m = [] then d
      else (let d1 = ensureOrderedMAC m d in
            if n = [] then d1 else d1\<lparr>byMAC := AList.update m n (byMAC d1)\<rparr>))"

definition addIPName :: "string \<Rightarrow> string \<Rightarrow> device_directory \<Rightarrow> device_directory" where
  "addIPName ip name d =
     (let i = normalizeIP ip; n = normalizeDeviceName name in
      if i = [] \<or> n = [] then d else d\<lparr>byIP := AList.update i n (byIP d)\<rparr>)"

definition addMACIP :: "string \<Rightarrow> string \<Rightarrow> device_directory \<Rightarrow> device_directory" where
  "addMACIP mac ip d =
     (let m = normalizeMAC mac; i = normalizeIP ip in
      if m = [] \<or> i = [] then d
      else (let d1 = ensureOrderedMAC m d; bucket = map_list (ipsMAC d1) m in
            d1\<lparr>ipsMAC := AList.update m (if i \<in> set bucket then bucket else bucket @ [i]) (ipsMAC d1),
               macByIP := AList.update i m (macByIP d1)\<rparr>))"

definition lookupMAC :: "device_directory \<Rightarrow> string \<Rightarrow> string \<times> string list" where
  "lookupMAC d mac =
     (let m = normalizeMAC mac in
      if m = [] then ([], []) else (map_text (byMAC d) m, sort_strings (map_list (ipsMAC d) m)))"

definition lookupIP :: "device_directory \<Rightarrow> string \<Rightarrow> string" where
  "lookupIP d v = map_text (byIP d) (normalizeIP v)"

definition lookupIPMAC :: "device_directory \<Rightarrow> string \<Rightarrow> string" where
  "lookupIPMAC d v = map_text (macByIP d) (normalizeIP v)"

record discovered_device =
  dev_MAC :: string
  dev_Name :: string
  dev_IPHints :: "string list"
  dev_SearchText :: string

definition device_entry :: "device_directory \<Rightarrow> string \<Rightarrow> discovered_device" where
  "device_entry d mac =
     (let name = TrimSpace (map_text (byMAC d) mac); ips = sort_strings (map_list (ipsMAC d) mac) in
      \<lparr>dev_MAC = mac, dev_Name = name, dev_IPHints = ips,
       dev_SearchText = ToLower (Join ([mac] @ (if name \<noteq> [] then [name] else []) @ ips) '' '')\<rparr>)"

definition listDevices :: "device_directory \<Rightarrow> discovered_device list" where
  "listDevices d = map (device_entry d) (dir_order d)"


section \<open>Leases and neighbours\<close>

definition plain_line :: "string \<Rightarrow> bool" where
  "plain_line t \<longleftrightarrow> t \<noteq> [] \<and> \<not> HasPrefix t ''#''"

record dhcp_lease_row =
  lease_MAC :: string
  lease_IP :: string
  lease_Hostname :: string

definition lease_row :: "string \<Rightarrow> dhcp_lease_row option" where
  "lease_row line =
     (let t = TrimSpace line; fields = Fields t in
      if \<not> plain_line t \<or> length fields < 4 then None
      else (let mac = normalizeMAC (fields ! 1); ip = normalizeIP (fields ! 2) in
            if mac = [] \<or> ip = [] then None
            else Some \<lparr>lease_MAC = mac, lease_IP = ip, lease_Hostname = normalizeDeviceName (fields ! 3)\<rparr>))"

definition parseDHCPLeaseRows :: "string \<Rightarrow> dhcp_lease_row list" where
  "parseDHCPLeaseRows raw = List.map_filter lease_row (Split raw (CHR 0x0A))"

definition add_lease :: "device_directory \<Rightarrow> dhcp_lease_row \<Rightarrow> device_directory" where
  "add_lease d row =
     addMACIP (lease_MAC row) (lease_IP row)
       (addIPName (lease_IP row) (lease_Hostname row) (addMACName (lease_MAC row) (lease_Hostname row) d))"

text \<open>The contents of the lease files that could be read; \<open>None\<close> is a file that could not.\<close>

definition loadDHCPLeaseDeviceNames :: "string option list \<Rightarrow> device_directory \<Rightarrow> device_directory" where
  "loadDHCPLeaseDeviceNames files d =
     foldl (\<lambda>d content. case content of None \<Rightarrow> d | Some raw \<Rightarrow> foldl add_lease d (parseDHCPLeaseRows raw)) d files"

fun after_lladdr :: "string list \<Rightarrow> string" where
  "after_lladdr (f # v # fs) = (if EqualFold f ''lladdr'' then normalizeMAC v else after_lladdr (v # fs))"
| "after_lladdr _ = []"

definition neighbor_row :: "string \<Rightarrow> (string \<times> string) option" where
  "neighbor_row line =
     (let t = TrimSpace line; fields = Fields t in
      if \<not> plain_line t \<or> length fields < 3 then None
      else (let ip = normalizeIP (hd fields); mac = after_lladdr (tl fields) in
            if ip = [] \<or> mac = [] then None else Some (ip, mac)))"

definition parseIPNeighborRows :: "string \<Rightarrow> (string \<times> string) list" where
  "parseIPNeighborRows raw = List.map_filter neighbor_row (Split raw (CHR 0x0A))"

definition loadIPNeighborDeviceMACs :: "string option list \<Rightarrow> device_directory \<Rightarrow> device_directory" where
  "loadIPNeighborDeviceMACs outputs d =
     foldl (\<lambda>d out. case out of None \<Rightarrow> d
       | Some raw \<Rightarrow> foldl (\<lambda>d row. addMACIP (snd row) (fst row) d) d (parseIPNeighborRows raw)) d outputs"


section \<open>Device identifiers\<close>

fun parse_hex_parts :: "string list \<Rightarrow> nat list option" where
  "parse_hex_parts [] = Some []"
| "parse_hex_parts (p # ps) =
     (if p = [] \<or> length p > 2 then None else map_option ((#) (read_hex p)) (parse_hex_parts ps))"

definition parseIdentifierHexBytes :: "string \<Rightarrow> nat list option" where
  "parseIdentifierHexBytes raw =
     (let parts = FieldsFunc (\<lambda>c. \<not> hex_digit c) raw in if parts = [] then None else parse_hex_parts parts)"

definition normalizeMACBytes :: "nat list \<Rightarrow> string" where
  "normalizeMACBytes bs = (if length bs \<noteq> 6 then [] else normalizeMAC (mac_String bs))"

definition parseDeviceIdentifierMAC :: "string \<Rightarrow> string" where
  "parseDeviceIdentifierMAC raw =
     (let t = TrimSpace raw in
      if t = [] then []
      else if normalizeMAC t \<noteq> [] then normalizeMAC t
      else (case parseIdentifierHexBytes t of
              None \<Rightarrow> []
            | Some bs \<Rightarrow>
                if bs = [] then []
                else if length bs = 6 then normalizeMACBytes bs
                else if length bs = 7 \<and> bs ! 0 = 1 then normalizeMACBytes (drop 1 bs)
                else if length bs < 10 then []
                else if 256 * bs ! 2 + bs ! 3 \<noteq> 1 then []
                else if 256 * bs ! 0 + bs ! 1 \<in> {1, 3} then normalizeMACBytes (drop (length bs - 6) bs)
                else []))"


section \<open>Decoded JSON\<close>

datatype json = JString string | JArray "json list" | JObject "(string \<times> json) list" | JOther

fun stringValue :: "json \<Rightarrow> string" where
  "stringValue (JString s) = s"
| "stringValue (JArray []) = []"
| "stringValue (JArray (v # vs)) = (if stringValue v \<noteq> [] then stringValue v else stringValue (JArray vs))"
| "stringValue _ = []"

text \<open>Later fields with the same lower-cased key replace earlier ones.\<close>

definition lowercaseJSONMap :: "(string \<times> json) list \<Rightarrow> (string \<times> json) list" where
  "lowercaseJSONMap kvs = rev (map (\<lambda>(k, v). (ToLower (TrimSpace k), v)) kvs)"

definition field_text :: "(string \<times> json) list \<Rightarrow> string \<Rightarrow> string" where
  "field_text vals key = (case map_of vals key of None \<Rightarrow> [] | Some v \<Rightarrow> stringValue v)"

fun pick_first :: "(string \<Rightarrow> string) \<Rightarrow> string list \<Rightarrow> string" where
  "pick_first f [] = []"
| "pick_first f (k # ks) = (if f k \<noteq> [] then f k else pick_first f ks)"

definition pickDeviceMAC :: "(string \<times> json) list \<Rightarrow> string" where
  "pickDeviceMAC vals =
     (let direct = pick_first (\<lambda>k. normalizeMAC (field_text vals k))
            [''mac'', ''macaddress'', ''mac_address'', ''clientmac'', ''hwaddr'']
      in if direct \<noteq> [] then direct
         else pick_first (\<lambda>k. parseDeviceIdentifierMAC (field_text vals k)) [''id'', ''duid'', ''clientid'', ''client_id''])"

definition pickDeviceName :: "(string \<times> json) list \<Rightarrow> string" where
  "pickDeviceName vals =
     pick_first (\<lambda>k. normalizeDeviceName (field_text vals k))
       [''displayname'', ''display_name'', ''alias'', ''name'', ''clientname'', ''client_name'', ''hostname'', ''host_name'',
        ''fixeddnsname'', ''fixed_dns_name'']"

definition pickDeviceIP :: "(string \<times> json) list \<Rightarrow> string" where
  "pickDeviceIP vals =
     pick_first (\<lambda>k. normalizeIP (field_text vals k))
       [''ip'', ''ipaddress'', ''ip_address'', ''address'', ''hostip'', ''host_ip'', ''fixedip'', ''fixed_ip'', ''ipv4'', ''ipv6'']"

definition ingest_fields :: "(string \<times> json) list \<Rightarrow> device_directory \<Rightarrow> device_directory" where
  "ingest_fields kvs d =
     (let lowered = lowercaseJSONMap kvs;
          mac = pickDeviceMAC lowered; name = pickDeviceName lowered; ip = pickDeviceIP lowered;
          d1 = (if mac \<noteq> [] then addMACIP mac ip (addMACName mac name d) else d)
      in if ip \<noteq> [] \<and> name \<noteq> [] then addIPName ip name d1 else d1)"

fun ingestDevicePayload :: "json \<Rightarrow> device_directory \<Rightarrow> device_directory" where
  "ingestDevicePayload (JArray vs) d = fold ingestDevicePayload vs d"
| "ingestDevicePayload (JObject kvs) d = fold (\<lambda>(k, v). ingestDevicePayload v) kvs (ingest_fields kvs d)"
| "ingestDevicePayload _ d = d"

text \<open>Each API command gives decoded JSON or fails.\<close>

definition loadUDAPIClientDeviceNames :: "json option list \<Rightarrow> device_directory \<Rightarrow> device_directory" where
  "loadUDAPIClientDeviceNames payloads d =
     foldl (\<lambda>d p. case p of None \<Rightarrow> d | Some v \<Rightarrow> ingestDevicePayload v d) d payloads"

definition loadDeviceDirectory :: "string option list \<Rightarrow> string option list \<Rightarrow> json option list \<Rightarrow> device_directory" where
  "loadDeviceDirectory leases neighbors payloads =
     loadUDAPIClientDeviceNames payloads
       (loadIPNeighborDeviceMACs neighbors (loadDHCPLeaseDeviceNames leases empty_directory))"


section \<open>Invariant\<close>

text \<open>
  The order lists every known hardware address once, names and addresses are filed under known hardware
  addresses only, and an address is filed under the hardware address it was last seen with.
\<close>

definition directory_ok :: "device_directory \<Rightarrow> bool" where
  "directory_ok d \<longleftrightarrow>
     distinct (dir_order d) \<and> set (seenMAC d) = set (dir_order d) \<and> [] \<notin> set (dir_order d) \<and>
     fst ` set (byMAC d) \<subseteq> set (dir_order d) \<and> fst ` set (ipsMAC d) \<subseteq> set (dir_order d) \<and>
     (\<forall>i m. map_of (macByIP d) i = Some m \<longrightarrow> i \<in> set (map_list (ipsMAC d) m))"

lemma empty_directory_ok: "directory_ok empty_directory"
  by (simp add: directory_ok_def empty_directory_def)

lemma ensureOrderedMAC_ok:
  "directory_ok d \<Longrightarrow> m \<noteq> [] \<Longrightarrow> directory_ok (ensureOrderedMAC m d) \<and> m \<in> set (dir_order (ensureOrderedMAC m d))"
  by (auto simp: directory_ok_def ensureOrderedMAC_def)

lemma ensureOrderedMAC_maps [simp]:
  "byMAC (ensureOrderedMAC m d) = byMAC d" "ipsMAC (ensureOrderedMAC m d) = ipsMAC d"
  "macByIP (ensureOrderedMAC m d) = macByIP d" "byIP (ensureOrderedMAC m d) = byIP d"
  by (simp_all add: ensureOrderedMAC_def)

lemma addMACName_ok: "directory_ok d \<Longrightarrow> directory_ok (addMACName mac name d)"
  using ensureOrderedMAC_ok [of d "normalizeMAC mac"]
  by (auto simp: addMACName_def Let_def directory_ok_def dom_update)

lemma addIPName_ok: "directory_ok d \<Longrightarrow> directory_ok (addIPName ip name d)"
  by (simp add: addIPName_def Let_def directory_ok_def)

lemma map_list_update: "map_list (AList.update k v m) j = (if j = k then v else map_list m j)"
  by (simp add: map_list_def update_conv')

lemma addMACIP_ok: "directory_ok d \<Longrightarrow> directory_ok (addMACIP mac ip d)"
  using ensureOrderedMAC_ok [of d "normalizeMAC mac"]
  by (auto simp: addMACIP_def Let_def directory_ok_def dom_update map_list_update update_conv' split: if_splits)

lemma foldl_ok: "(\<And>d x. P d \<Longrightarrow> P (f d x)) \<Longrightarrow> P d \<Longrightarrow> P (foldl f d xs)"
  by (induction xs arbitrary: d) auto

lemma fold_ok: "(\<And>x d. x \<in> set xs \<Longrightarrow> P d \<Longrightarrow> P (f x d)) \<Longrightarrow> P d \<Longrightarrow> P (fold f xs d)"
  by (induction xs arbitrary: d) auto

lemma ingest_fields_ok:
  assumes "directory_ok d"
  shows "directory_ok (ingest_fields kvs d)"
proof -
  let ?mac = "pickDeviceMAC (lowercaseJSONMap kvs)" and ?name = "pickDeviceName (lowercaseJSONMap kvs)"
    and ?ip = "pickDeviceIP (lowercaseJSONMap kvs)"
  define d1 where "d1 = (if ?mac \<noteq> [] then addMACIP ?mac ?ip (addMACName ?mac ?name d) else d)"
  have "directory_ok d1"
    unfolding d1_def using addMACIP_ok [OF addMACName_ok [OF assms]] assms by (rule if_split [THEN iffD2, OF conjI, OF impI impI])
  then have "directory_ok (if ?ip \<noteq> [] \<and> ?name \<noteq> [] then addIPName ?ip ?name d1 else d1)"
    using addIPName_ok by (metis (full_types))
  then show ?thesis unfolding ingest_fields_def Let_def d1_def .
qed

lemma ingest_ok: "directory_ok d \<Longrightarrow> directory_ok (ingestDevicePayload v d)"
proof (induction v d rule: ingestDevicePayload.induct)
  case (1 vs d)
  then show ?case
    unfolding ingestDevicePayload.simps by (intro fold_ok [where P = directory_ok]) auto
next
  case (2 kvs d)
  have "directory_ok (ingest_fields kvs d)"
    using "2.prems" by (rule ingest_fields_ok)
  then show ?case
    unfolding ingestDevicePayload.simps by (rule fold_ok [where P = directory_ok, rotated]) (auto intro: "2.IH")
qed simp_all


section \<open>Properties\<close>

text \<open>C22: whatever leases, neighbours and API answers are read, the device directory is consistent: each hardware
  address is listed once, names and addresses are filed under listed hardware addresses only, and the
  hardware address found for an address has this address among its hints.\<close>

theorem loadDeviceDirectory_ok: "directory_ok (loadDeviceDirectory leases neighbors payloads)"
proof -
  have "directory_ok (loadDHCPLeaseDeviceNames leases empty_directory)"
    unfolding loadDHCPLeaseDeviceNames_def
    by (rule foldl_ok [where P = directory_ok, OF _ empty_directory_ok])
      (auto simp: add_lease_def intro!: foldl_ok [where P = directory_ok] addMACIP_ok addIPName_ok addMACName_ok split: option.split)
  then have "directory_ok (loadIPNeighborDeviceMACs neighbors (loadDHCPLeaseDeviceNames leases empty_directory))"
    unfolding loadIPNeighborDeviceMACs_def
    by (rule foldl_ok [where P = directory_ok, rotated]) (auto intro!: foldl_ok [where P = directory_ok] addMACIP_ok split: option.split)
  then show ?thesis
    unfolding loadDeviceDirectory_def loadUDAPIClientDeviceNames_def
    by (rule foldl_ok [where P = directory_ok, rotated]) (auto intro!: ingest_ok split: option.split)
qed

end
