(* ===== verification/Routing_Inspector.thy ===== *)
theory Routing_Inspector
  imports Desired_Sets Device_Directory Dnsmasq "HOL-Library.Product_Lexorder"
begin

text \<open>
  The routing inspector of the web interface (\<^verbatim>\<open>internal/server/routing_sizes.go\<close>,
  \<^verbatim>\<open>handlers_routing_inspector.go\<close>, \<^verbatim>\<open>handlers_routing_inspector_helpers.go\<close>): it reads the live
  ipsets from \<^verbatim>\<open>ipset list\<close> and shows, per VPN and rule, the entries of each set and where they come from.
  The functions named like those of package routing carry the prefix \<open>server_\<close>. A map from a value to the set of its labels is
  an association list. Times, the HTTP layer and the JSON encoding are left out.
\<close>


section \<open>Reading ipset list\<close>

record ipset_snapshot =
  Count :: int
  Members :: "string list"

definition no_snapshot :: ipset_snapshot where
  "no_snapshot = \<lparr>Count = 0, Members = []\<rparr>"

type_synonym ipset_snapshots = "(string \<times> ipset_snapshot) list"

definition snapshot_of :: "ipset_snapshots \<Rightarrow> string \<Rightarrow> ipset_snapshot" where
  "snapshot_of m k = (case map_of m k of None \<Rightarrow> no_snapshot | Some v \<Rightarrow> v)"

definition parseIPSetMember :: "string \<Rightarrow> string" where
  "parseIPSetMember line = (case Fields (TrimSpace line) of [] \<Rightarrow> [] | f # _ \<Rightarrow> TrimSpace f)"

datatype inspector_error = InvalidCount string | ListFailed string

definition listed :: "string + 'a \<Rightarrow> inspector_error + 'a" where
  "listed r = (case r of Inl e \<Rightarrow> Inl (ListFailed e) | Inr v \<Rightarrow> Inr v)"

record list_state =
  ls_result :: ipset_snapshots
  ls_current :: string
  ls_inMembers :: bool

definition name_line :: "string \<Rightarrow> list_state \<Rightarrow> list_state" where
  "name_line t st =
     (let cur = TrimSpace (TrimPrefix t ''Name:'') in
      \<lparr>ls_result = (if cur \<noteq> [] \<and> map_of (ls_result st) cur = None
                    then AList.update cur no_snapshot (ls_result st) else ls_result st),
       ls_current = cur, ls_inMembers = False\<rparr>)"

definition update_current :: "(ipset_snapshot \<Rightarrow> ipset_snapshot) \<Rightarrow> list_state \<Rightarrow> list_state" where
  "update_current f st =
     st\<lparr>ls_result := AList.update (ls_current st) (f (snapshot_of (ls_result st) (ls_current st))) (ls_result st)\<rparr>"

definition list_line :: "string \<Rightarrow> list_state \<Rightarrow> inspector_error + list_state" where
  "list_line line st =
     (let t = TrimSpace line in
      if HasPrefix t ''Name:'' then Inr (name_line t st)
      else if ls_current st = [] then Inr st
      else if \<not> HasPrefix t ''Number of entries:'' then
        (if HasPrefix t ''Members:'' then Inr (st\<lparr>ls_inMembers := True\<rparr>)
         else if ls_inMembers st \<and> t \<noteq> [] then
           (let member = parseIPSetMember t in
            Inr (if member \<noteq> [] then update_current (\<lambda>s. s\<lparr>Members := Members s @ [member]\<rparr>) st else st))
         else Inr st)
      else (case Atoi (TrimSpace (TrimPrefix t ''Number of entries:'')) of
              None \<Rightarrow> Inl (InvalidCount (ls_current st))
            | Some n \<Rightarrow> Inr (update_current (\<lambda>s. s\<lparr>Count := n\<rparr>) st)))"

fun list_lines :: "string list \<Rightarrow> list_state \<Rightarrow> inspector_error + list_state" where
  "list_lines [] st = Inr st"
| "list_lines (l # ls) st = bindE (list_line l st) (list_lines ls)"

definition parseIPSetSnapshots :: "string \<Rightarrow> inspector_error + ipset_snapshots" where
  "parseIPSetSnapshots raw =
     bindE (list_lines (Split raw (CHR 0x0A)) \<lparr>ls_result = [], ls_current = [], ls_inMembers = False\<rparr>)
       (\<lambda>st. Inr (ls_result st))"

definition parseIPSetSizes :: "string \<Rightarrow> inspector_error + (string \<times> int) list" where
  "parseIPSetSizes raw = bindE (parseIPSetSnapshots raw) (\<lambda>m. Inr (map (\<lambda>(n, s). (n, Count s)) m))"

text \<open>The output of \<^verbatim>\<open>ipset list\<close>, or the error of the command.\<close>

definition readIPSetSnapshots :: "string + string \<Rightarrow> inspector_error + ipset_snapshots" where
  "readIPSetSnapshots out = (case out of Inl e \<Rightarrow> Inl (ListFailed e) | Inr raw \<Rightarrow> parseIPSetSnapshots raw)"

definition readIPSetSizes :: "string + string \<Rightarrow> inspector_error + (string \<times> int) list" where
  "readIPSetSizes out = bindE (readIPSetSnapshots out) (\<lambda>m. Inr (map (\<lambda>(n, s). (n, Count s)) m))"


section \<open>Sizes per VPN\<close>

definition server_ruleNeedsSourceSet :: "routing_rule \<Rightarrow> bool" where
  "server_ruleNeedsSourceSet rule \<longleftrightarrow> SourceCIDRs rule \<noteq> []"

definition server_ruleNeedsExcludedSourceSet :: "routing_rule \<Rightarrow> bool" where
  "server_ruleNeedsExcludedSourceSet rule \<longleftrightarrow> ExcludedSourceCIDRs rule \<noteq> []"

definition server_ruleNeedsDestinationSet :: "routing_rule \<Rightarrow> bool" where
  "server_ruleNeedsDestinationSet rule \<longleftrightarrow>
     DestinationCIDRs rule \<noteq> [] \<or> DestinationASNs rule \<noteq> [] \<or> Domains rule \<noteq> [] \<or> WildcardDomains rule \<noteq> []"

definition server_ruleNeedsExcludedDestinationSet :: "routing_rule \<Rightarrow> bool" where
  "server_ruleNeedsExcludedDestinationSet rule \<longleftrightarrow> ExcludedDestinationCIDRs rule \<noteq> [] \<or> ExcludedDestinationASNs rule \<noteq> []"

definition size_of :: "(string \<times> int) list \<Rightarrow> string \<Rightarrow> int" where
  "size_of m k = (case map_of m k of None \<Rightarrow> 0 | Some n \<Rightarrow> n)"

definition rule_sizes :: "(string \<times> int) list \<Rightarrow> rule_set_pair \<Rightarrow> routing_rule \<Rightarrow> int \<times> int \<Rightarrow> int \<times> int" where
  "rule_sizes sizes p rule acc =
     (let add = (\<lambda>need s4 s6 (a, b). if need then (a + size_of sizes s4, b + size_of sizes s6) else (a, b)) in
      add (server_ruleNeedsExcludedDestinationSet rule) (ExcludedDestinationV4 p) (ExcludedDestinationV6 p)
       (add (server_ruleNeedsDestinationSet rule) (DestinationV4 p) (DestinationV6 p)
        (add (server_ruleNeedsExcludedSourceSet rule) (ExcludedSourceV4 p) (ExcludedSourceV6 p)
         (add (server_ruleNeedsSourceSet rule) (SourceV4 p) (SourceV6 p) acc))))"

definition group_sizes :: "(string \<times> int) list \<Rightarrow> (string \<times> int \<times> int) list \<Rightarrow> domain_group \<Rightarrow> (string \<times> int \<times> int) list" where
  "group_sizes sizes out grp =
     (let vpnName = TrimSpace (EgressVPN grp) in
      if vpnName = [] then out
      else AList.update vpnName
        (foldl (\<lambda>acc (i, rule). rule_sizes sizes (RuleSetNames (group_Name grp) i) rule acc)
           (case map_of out vpnName of None \<Rightarrow> (0, 0) | Some c \<Rightarrow> c) (indexed (Rules grp))) out)"

definition collectRoutingSizes ::
  "string + domain_group list \<Rightarrow> string + string \<Rightarrow> inspector_error + (string \<times> int \<times> int) list" where
  "collectRoutingSizes groups out =
     (case groups of
        Inl e \<Rightarrow> Inl (ListFailed e)
      | Inr gs \<Rightarrow> if gs = [] then Inr [] else bindE (readIPSetSizes out) (\<lambda>sizes. Inr (foldl (group_sizes sizes) [] gs)))"


section \<open>Canonical values and provenance\<close>

definition canonicalizeSetValue :: "string \<Rightarrow> string \<Rightarrow> string" where
  "canonicalizeSetValue v family =
     (let t = TrimSpace v in
      if t = [] then []
      else (case ParseCIDR t of
              Some c \<Rightarrow>
                IP_String (cidr_ip c) @ ''/'' @
                Itoa (int (if cidr_bits c = 128 \<and> To4 (cidr_ip c) \<noteq> None then cidr_prefix c - 96 else cidr_prefix c))
            | None \<Rightarrow>
                (case ParseIP t of
                   None \<Rightarrow> []
                 | Some i \<Rightarrow>
                     if EqualFold family ''inet6'' then (if To4 i \<noteq> None then [] else IP_String i @ ''/128'')
                     else if To4 i \<noteq> None then IP_String i @ ''/32'' else [])))"

definition normalizeASNSelector :: "string \<Rightarrow> string" where
  "normalizeASNSelector v =
     (let t = TrimPrefix (ToUpper (TrimSpace v)) ''AS'' in
      if t = [] then []
      else if \<not> list_all is_digit t then []
      else (let u = dropWhile (\<lambda>c. c = CHR ''0'') t in if u = [] then [] else ''AS'' @ u))"

definition dedupeAndSortMembers :: "string list \<Rightarrow> string list" where
  "dedupeAndSortMembers entries = sort_strings (dedup (filter (\<lambda>t. t \<noteq> []) (map TrimSpace entries)))"

fun split_members :: "string list \<Rightarrow> string list \<times> string list \<Rightarrow> string list \<times> string list" where
  "split_members [] acc = acc"
| "split_members (e # es) (v4, v6) =
     split_members es
       (let t = TrimSpace e in
        if t = [] then (v4, v6)
        else if canonicalizeSetValue t ''inet6'' \<noteq> [] then (v4, v6 @ [t])
        else if canonicalizeSetValue t ''inet'' \<noteq> [] then (v4 @ [t], v6)
        else (v4, v6))"

definition splitRawMembersByFamily :: "string list \<Rightarrow> string list \<times> string list" where
  "splitRawMembersByFamily entries =
     (case split_members entries ([], []) of (v4, v6) \<Rightarrow> (dedupeAndSortMembers v4, dedupeAndSortMembers v6))"

definition resolved_members :: "resolver_snapshot \<Rightarrow> string \<Rightarrow> string list \<Rightarrow> string list" where
  "resolved_members resolved kind keys = concat (map (\<lambda>k. both_families (snapshot_get resolved (kind, k))) keys)"

definition destinationRawMembers ::
  "routing_rule \<Rightarrow> rule_set_pair \<Rightarrow> resolver_snapshot \<Rightarrow> prewarm_snapshot \<Rightarrow> string list" where
  "destinationRawMembers rule pair resolved prewarmed =
     dedupeAndSortMembers
       (DestinationCIDRs rule @
        resolved_members resolved ''asn'' (map normalizeASNSelector (DestinationASNs rule)) @
        resolved_members resolved ''domain'' (Domains rule) @
        resolved_members resolved ''wildcard'' (WildcardDomains rule) @
        both_families (snapshot_get prewarmed (DestinationV4 pair)) @
        both_families (snapshot_get prewarmed (DestinationV6 pair)))"

definition destinationExcludedRawMembers :: "routing_rule \<Rightarrow> resolver_snapshot \<Rightarrow> string list" where
  "destinationExcludedRawMembers rule resolved =
     dedupeAndSortMembers
       (ExcludedDestinationCIDRs rule @
        resolved_members resolved ''asn'' (map normalizeASNSelector (ExcludedDestinationASNs rule)))"

type_synonym provenance = "(string \<times> string list) list"

definition addSetProvenance :: "string \<Rightarrow> string \<Rightarrow> string \<Rightarrow> provenance \<Rightarrow> provenance" where
  "addSetProvenance family v label target =
     (let c = canonicalizeSetValue v family in
      if c = [] then target else AList.update c (List.insert label (map_list target c)) target)"

definition addResolverProvenance :: "string \<Rightarrow> resolver_values \<Rightarrow> string \<Rightarrow> provenance \<Rightarrow> provenance" where
  "addResolverProvenance family vals label target =
     foldl (\<lambda>t c. addSetProvenance family c label t) target (if EqualFold family ''inet6'' then V6 vals else V4 vals)"

definition sourceSetProvenance :: "routing_rule \<Rightarrow> provenance" where
  "sourceSetProvenance rule =
     foldl (\<lambda>t s. addSetProvenance ''any'' s (''source CIDR: '' @ s) t) [] (SourceCIDRs rule)"

definition sourceExcludeSetProvenance :: "routing_rule \<Rightarrow> provenance" where
  "sourceExcludeSetProvenance rule =
     foldl (\<lambda>t s. addSetProvenance ''any'' s (''excluded source CIDR: '' @ s) t) [] (ExcludedSourceCIDRs rule)"

definition cidr_provenance :: "string \<Rightarrow> string \<Rightarrow> string list \<Rightarrow> provenance \<Rightarrow> provenance" where
  "cidr_provenance family label cidrs target = foldl (\<lambda>t c. addSetProvenance family c (label @ c) t) target cidrs"

definition kind_provenance ::
  "resolver_snapshot \<Rightarrow> string \<Rightarrow> string \<Rightarrow> string \<Rightarrow> string list \<Rightarrow> provenance \<Rightarrow> provenance" where
  "kind_provenance resolved family kind label keys target =
     foldl (\<lambda>t k. addResolverProvenance family (snapshot_get resolved (kind, k)) (label @ k @ '' (resolver)'') t) target keys"

definition destinationSetProvenance ::
  "routing_rule \<Rightarrow> string \<Rightarrow> string \<Rightarrow> resolver_snapshot \<Rightarrow> prewarm_snapshot \<Rightarrow> provenance" where
  "destinationSetProvenance rule setName family resolved prewarmed =
     addResolverProvenance family (snapshot_get prewarmed setName)
       (if Domains rule \<noteq> [] \<or> WildcardDomains rule \<noteq> [] then ''pre-warm cache (rule domains)'' else ''pre-warm cache'')
       (kind_provenance resolved family ''wildcard'' ''wildcard '' (WildcardDomains rule)
         (kind_provenance resolved family ''domain'' ''domain '' (Domains rule)
           (kind_provenance resolved family ''asn'' ''ASN '' (map normalizeASNSelector (DestinationASNs rule))
             (cidr_provenance family ''destination CIDR: '' (DestinationCIDRs rule) []))))"

definition destinationExcludeSetProvenance :: "routing_rule \<Rightarrow> string \<Rightarrow> resolver_snapshot \<Rightarrow> provenance" where
  "destinationExcludeSetProvenance rule family resolved =
     kind_provenance resolved family ''asn'' ''excluded ASN '' (map normalizeASNSelector (ExcludedDestinationASNs rule))
       (cidr_provenance family ''excluded destination CIDR: '' (ExcludedDestinationCIDRs rule) [])"


section \<open>The view of one set\<close>

record set_entry_view =
  view_Value :: string
  view_Canonical :: string
  view_DeviceName :: string
  view_Provenance :: "string list"

record set_view =
  view_Name :: string
  view_EntryCount :: int
  view_Entries :: "set_entry_view list"

definition entry_view :: "string \<Rightarrow> provenance \<Rightarrow> device_directory \<Rightarrow> bool \<Rightarrow> string \<Rightarrow> set_entry_view" where
  "entry_view family prov devices includeDevice v =
     (let c = canonicalizeSetValue v family; labels = sort_strings (map_list prov c) in
      \<lparr>view_Value = v, view_Canonical = c, view_DeviceName = (if includeDevice then lookupIP devices v else []),
       view_Provenance = (if labels = [] then [''runtime set member''] else labels)\<rparr>)"

definition buildRoutingInspectorSet ::
  "string \<Rightarrow> string \<Rightarrow> ipset_snapshot \<Rightarrow> string list \<Rightarrow> provenance \<Rightarrow> device_directory \<Rightarrow> bool \<Rightarrow> set_view" where
  "buildRoutingInspectorSet name family snap rawMembers prov devices includeDevice =
     (let members = (if rawMembers = [] then Members snap else rawMembers) in
      \<lparr>view_Name = name, view_EntryCount = Count snap,
       view_Entries = sort_key (\<lambda>e. (view_Canonical e, view_Value e)) (map (entry_view family prov devices includeDevice) members)\<rparr>)"

record rule_view =
  rv_RuleID :: int
  rv_RuleIndex :: int
  rv_RuleName :: string
  rv_rule :: routing_rule
  rv_SourceMACs :: "(string \<times> string \<times> string list) list"
  rv_ExcludeMulticast :: bool
  rv_SourceSet :: "(set_view \<times> set_view) option"
  rv_ExcludedSourceSet :: "(set_view \<times> set_view) option"
  rv_DestinationSet :: "(set_view \<times> set_view) option"
  rv_ExcludedDestinationSet :: "(set_view \<times> set_view) option"

definition mapRuleSourceMACs :: "string list \<Rightarrow> device_directory \<Rightarrow> (string \<times> string \<times> string list) list" where
  "mapRuleSourceMACs macs devices = map (\<lambda>mac. (mac, lookupMAC devices mac)) macs"

text \<open>The views of the two families of a set; the fields of a rule that are copied unchanged are the rule itself.\<close>

definition set_views ::
  "ipset_snapshots \<Rightarrow> device_directory \<Rightarrow> bool \<Rightarrow> string \<Rightarrow> string \<Rightarrow> provenance \<Rightarrow> provenance \<Rightarrow> string list \<Rightarrow> set_view \<times> set_view" where
  "set_views snaps devices dev s4 s6 prov4 prov6 members =
     (case splitRawMembersByFamily members of (m4, m6) \<Rightarrow>
       (buildRoutingInspectorSet s4 ''inet'' (snapshot_of snaps s4) m4 prov4 devices dev,
        buildRoutingInspectorSet s6 ''inet6'' (snapshot_of snaps s6) m6 prov6 devices dev))"

definition rule_inspector ::
  "ipset_snapshots \<Rightarrow> device_directory \<Rightarrow> resolver_snapshot \<Rightarrow> prewarm_snapshot \<Rightarrow> string \<Rightarrow> int \<times> routing_rule \<Rightarrow> rule_view" where
  "rule_inspector snaps devices resolved prewarmed groupName ir =
     (case ir of (i, rule) \<Rightarrow>
       (let p = RuleSetNames groupName i in
        \<lparr>rv_RuleID = rule_ID rule, rv_RuleIndex = i + 1, rv_RuleName = rule_Name rule, rv_rule = rule,
         rv_SourceMACs = mapRuleSourceMACs (SourceMACs rule) devices,
         rv_ExcludeMulticast = RuleExcludeMulticastEnabled rule,
         rv_SourceSet = (if server_ruleNeedsSourceSet rule
           then Some (set_views snaps devices True (SourceV4 p) (SourceV6 p) (sourceSetProvenance rule) (sourceSetProvenance rule)
                        (SourceCIDRs rule)) else None),
         rv_ExcludedSourceSet = (if server_ruleNeedsExcludedSourceSet rule
           then Some (set_views snaps devices True (ExcludedSourceV4 p) (ExcludedSourceV6 p)
                        (sourceExcludeSetProvenance rule) (sourceExcludeSetProvenance rule) (ExcludedSourceCIDRs rule)) else None),
         rv_DestinationSet = (if server_ruleNeedsDestinationSet rule
           then Some (set_views snaps devices False (DestinationV4 p) (DestinationV6 p)
                        (destinationSetProvenance rule (DestinationV4 p) ''inet'' resolved prewarmed)
                        (destinationSetProvenance rule (DestinationV6 p) ''inet6'' resolved prewarmed)
                        (destinationRawMembers rule p resolved prewarmed)) else None),
         rv_ExcludedDestinationSet = (if server_ruleNeedsExcludedDestinationSet rule
           then Some (set_views snaps devices False (ExcludedDestinationV4 p) (ExcludedDestinationV6 p)
                        (destinationExcludeSetProvenance rule ''inet'' resolved)
                        (destinationExcludeSetProvenance rule ''inet6'' resolved)
                        (destinationExcludedRawMembers rule resolved)) else None)\<rparr>))"

record inspector_view =
  iv_VPNName :: string
  iv_RoutingV4Size :: int
  iv_RoutingV6Size :: int
  iv_Groups :: "(int \<times> string \<times> rule_view list) list"

definition rule_set_views :: "rule_view \<Rightarrow> (set_view \<times> set_view) list" where
  "rule_set_views v = List.map_filter id [rv_SourceSet v, rv_ExcludedSourceSet v, rv_DestinationSet v, rv_ExcludedDestinationSet v]"

definition buildVPNRoutingInspector ::
  "string + domain_group list \<Rightarrow> string + resolver_snapshot \<Rightarrow> string + prewarm_snapshot \<Rightarrow> string + string \<Rightarrow>
     device_directory \<Rightarrow> string \<Rightarrow> inspector_error + inspector_view" where
  "buildVPNRoutingInspector groups resolved prewarmed out devices vpnName =
     bindE (listed groups) (\<lambda>gs. bindE (listed resolved) (\<lambda>res. bindE (listed prewarmed) (\<lambda>pre. bindE (readIPSetSnapshots out) (\<lambda>snaps.
        (let views = map (\<lambda>g. (group_ID g, group_Name g, map (rule_inspector snaps devices res pre (group_Name g)) (indexed (Rules g))))
               (filter (\<lambda>g. TrimSpace (EgressVPN g) = vpnName) gs);
             sets = concat (map rule_set_views (concat (map (\<lambda>(i, n, rs). rs) views)))
         in Inr \<lparr>iv_VPNName = vpnName, iv_RoutingV4Size = sum_list (map (view_EntryCount \<circ> fst) sets),
              iv_RoutingV6Size = sum_list (map (view_EntryCount \<circ> snd) sets), iv_Groups = views\<rparr>)))))"


section \<open>Members of the two families\<close>

lemma split_members_v4:
  "set (fst (split_members es acc)) \<subseteq> set (fst acc) \<union> {t. canonicalizeSetValue t ''inet6'' = []}"
  by (induction es acc rule: split_members.induct) (auto simp: Let_def split: if_splits)

lemma split_members_v6_mono: "set (snd acc) \<subseteq> set (snd (split_members es acc))"
  by (induction es acc rule: split_members.induct) (auto simp: Let_def split: if_splits)

lemma split_members_v6:
  "e \<in> set es \<Longrightarrow> TrimSpace e = e \<Longrightarrow> e \<noteq> [] \<Longrightarrow> canonicalizeSetValue e ''inet6'' \<noteq> [] \<Longrightarrow>
     e \<in> set (snd (split_members es acc))"
proof (induction es acc rule: split_members.induct)
  case (2 x es v4 v6)
  show ?case
  proof (cases "e = x")
    case True
    with "2.prems" show ?thesis using split_members_v6_mono [of "(v4, v6 @ [e])" es] by auto
  next
    case False
    with 2 show ?thesis by simp
  qed
qed simp

lemma set_dedupeAndSortMembers: "set (dedupeAndSortMembers es) = TrimSpace ` set es - {[]}"
  by (auto simp: dedupeAndSortMembers_def)

lemma canonicalize_CIDR: "ParseCIDR e \<noteq> None \<Longrightarrow> TrimSpace e = e \<Longrightarrow> e \<noteq> [] \<Longrightarrow> canonicalizeSetValue e family \<noteq> []"
  by (auto simp: canonicalizeSetValue_def Let_def)


section \<open>Reading back a listing\<close>

text \<open>
  The format of \<^verbatim>\<open>ipset list\<close>: per set a name, header lines, the number of entries and the members, each
  with its options, and an empty line. The header lines and the options are arbitrary.
\<close>

definition listing_lines :: "(string \<Rightarrow> string list) \<Rightarrow> (string \<Rightarrow> string) \<Rightarrow> string \<times> ipset_snapshot \<Rightarrow> string list" where
  "listing_lines hdr opts ns =
     [''Name: '' @ fst ns] @ hdr (fst ns) @ [''Number of entries: '' @ Itoa (Count (snd ns)), ''Members:''] @
     map (\<lambda>m. m @ opts m) (Members (snd ns)) @ [[]]"

definition listing :: "(string \<Rightarrow> string list) \<Rightarrow> (string \<Rightarrow> string) \<Rightarrow> ipset_snapshots \<Rightarrow> string" where
  "listing hdr opts sets = Join (concat (map (listing_lines hdr opts) sets)) [CHR 0x0A]"

definition header_line :: "string \<Rightarrow> bool" where
  "header_line l \<longleftrightarrow> CHR 0x0A \<notin> set l \<and>
     (let t = TrimSpace l in \<not> HasPrefix t ''Name:'' \<and> \<not> HasPrefix t ''Number of entries:'' \<and> \<not> HasPrefix t ''Members:'')"

definition word_text :: "string \<Rightarrow> bool" where
  "word_text w \<longleftrightarrow> w \<noteq> [] \<and> list_all (\<lambda>c. \<not> is_space c) w"

definition member_text :: "(string \<Rightarrow> string) \<Rightarrow> string \<Rightarrow> bool" where
  "member_text opts m \<longleftrightarrow> word_text m \<and> hd m \<noteq> CHR ''N'' \<and> hd m \<noteq> CHR ''M'' \<and> CHR 0x0A \<notin> set (opts m) \<and>
     (opts m = [] \<or> is_space (hd (opts m)))"

definition listing_ok :: "(string \<Rightarrow> string list) \<Rightarrow> (string \<Rightarrow> string) \<Rightarrow> string \<times> ipset_snapshot \<Rightarrow> bool" where
  "listing_ok hdr opts ns \<longleftrightarrow> word_text (fst ns) \<and> list_all header_line (hdr (fst ns)) \<and>
     int64_range (Count (snd ns)) \<and> list_all (member_text opts) (Members (snd ns))"

lemma list_lines_append: "list_lines (ls @ ms) st = bindE (list_lines ls st) (list_lines ms)"
  by (induction ls arbitrary: st) (auto simp: bindE_def split: sum.splits)

lemma TrimSpace_word: "word_text w \<Longrightarrow> TrimSpace w = w"
  by (simp add: word_text_def TrimSpace_id no_space_trimmed)

lemma TrimSpace_front:
  assumes "w \<noteq> []" "\<not> is_space (hd w)"
  shows "\<exists>u. TrimSpace (w @ t) = hd w # u"
proof -
  obtain c cs where c: "w = c # cs" "\<not> is_space c" using assms by (cases w) auto
  obtain a b where ab: "w @ t = a @ TrimSpace (w @ t) @ b" "list_all is_space a" "list_all is_space b"
    using TrimSpace_split by blast
  have "a = []" using ab c by (cases a) auto
  moreover have "TrimSpace (w @ t) \<noteq> []" using c by (simp add: TrimSpace_Nil_iff)
  ultimately show ?thesis using ab c by (cases "TrimSpace (w @ t)") auto
qed

lemma Fields_front: "word_text w \<Longrightarrow> t = [] \<or> is_space (hd t) \<Longrightarrow> \<exists>ws. Fields (w @ t) = w # ws"
  by (cases t) (auto simp: Fields_def FieldsFunc_def split_by_none split_by_sep word_text_def)

lemma split_by_trailing: "list_all p b \<Longrightarrow> split_by p (t @ b) = split_by p t @ replicate (length b) []"
proof (induction t)
  case Nil
  then show ?case by (induction b) auto
next
  case (Cons x t)
  obtain w ws where "split_by p t = w # ws" by (meson neq_Nil_conv split_by_nonempty)
  with Cons show ?case by auto
qed

lemma Fields_TrimSpace: "Fields (TrimSpace s) = Fields s"
proof -
  obtain a b where ab: "s = a @ TrimSpace s @ b" "list_all is_space a" "list_all is_space b"
    using TrimSpace_split by blast
  have "list_all is_space a \<Longrightarrow> Fields (a @ t) = Fields t" for a t
    by (induction a) (auto simp: Fields_def FieldsFunc_def)
  moreover have "Fields (t @ b) = Fields t" for t
    using ab(3) by (simp add: Fields_def FieldsFunc_def split_by_trailing)
  ultimately show ?thesis using ab(1,2) by metis
qed

lemma HasPrefix_hd: "HasPrefix (c # s) (d # p) \<Longrightarrow> c = d"
  by (auto simp: HasPrefix_iff)

text \<open>The state while the lines of the set \<open>n\<close> are read: it is the last entry of the result.\<close>

definition reading :: "ipset_snapshots \<Rightarrow> string \<Rightarrow> ipset_snapshot \<Rightarrow> bool \<Rightarrow> list_state" where
  "reading d n s b = \<lparr>ls_result = d @ [(n, s)], ls_current = n, ls_inMembers = b\<rparr>"

lemma update_fresh: "n \<notin> fst ` set d \<Longrightarrow> AList.update n x d = d @ [(n, x)]"
  by (induction d) auto

lemma update_reading: "n \<notin> fst ` set d \<Longrightarrow> update_current f (reading d n s b) = reading d n (f s) b"
proof -
  assume n: "n \<notin> fst ` set d"
  then have "AList.update n x (d @ [(n, s)]) = d @ [(n, x)]" for x by (induction d) auto
  moreover have "map_of (d @ [(n, s)]) n = Some s"
    using n by (simp add: map_add_def map_of_eq_None_iff [THEN iffD2])
  ultimately show ?thesis by (simp add: update_current_def reading_def snapshot_of_def)
qed

lemma list_line_member:
  assumes "member_text opts m" "n \<noteq> []" "n \<notin> fst ` set d"
  shows "list_line (m @ opts m) (reading d n s True) = Inr (reading d n (s\<lparr>Members := Members s @ [m]\<rparr>) True)"
proof -
  have m: "m \<noteq> []" "\<not> is_space (hd m)" "hd m \<noteq> CHR ''N''" "hd m \<noteq> CHR ''M''" "word_text m"
    using assms(1) by (cases m; auto simp: member_text_def word_text_def)+
  obtain u where u: "TrimSpace (m @ opts m) = hd m # u" using TrimSpace_front [OF m(1,2)] by blast
  obtain ws where "Fields (m @ opts m) = m # ws" using Fields_front [OF m(5)] assms(1) by (auto simp: member_text_def)
  then have "parseIPSetMember (TrimSpace (m @ opts m)) = m"
    by (simp add: parseIPSetMember_def Fields_TrimSpace TrimSpace_word m(5))
  moreover have "\<not> HasPrefix (hd m # u) ''Name:''" "\<not> HasPrefix (hd m # u) ''Number of entries:''" "\<not> HasPrefix (hd m # u) ''Members:''"
    using m HasPrefix_hd by metis+
  ultimately show ?thesis using assms(2) m(1) update_reading [OF assms(3)] by (simp add: list_line_def u Let_def reading_def)
qed

lemma list_lines_members:
  "list_all (member_text opts) ms \<Longrightarrow> n \<noteq> [] \<Longrightarrow> n \<notin> fst ` set d \<Longrightarrow>
     list_lines (map (\<lambda>m. m @ opts m) ms) (reading d n s True) = Inr (reading d n (s\<lparr>Members := Members s @ ms\<rparr>) True)"
  by (induction ms arbitrary: s) (simp_all add: list_line_member)

lemma list_lines_header:
  "list_all header_line ls \<Longrightarrow> n \<noteq> [] \<Longrightarrow> list_lines ls (reading d n s False) = Inr (reading d n s False)"
  by (induction ls) (simp_all add: list_line_def header_line_def Let_def reading_def)

lemma TrimSpace_sep: "word_text w \<Longrightarrow> p \<noteq> [] \<Longrightarrow> \<not> is_space (hd p) \<Longrightarrow> TrimSpace (p @ w) = p @ w"
  by (rule TrimSpace_id) (cases p; cases w rule: rev_cases; auto simp: trimmed_def word_text_def)

lemma TrimSpace_blank: "word_text w \<Longrightarrow> TrimSpace (CHR '' '' # w) = w"
proof -
  assume w: "word_text w"
  have "is_space (CHR '' '')" by code_simp
  then have "TrimSpace (CHR '' '' # w) = TrimSpace w" by (simp add: TrimSpace_def)
  with w show ?thesis by (simp add: TrimSpace_word)
qed

lemma word_Itoa: "word_text (Itoa i)"
proof -
  have "word_text (show_base 10 n)" for n
    using show_base_all_digits [of n] by (auto simp: word_text_def all_digits_def list_all_iff is_digit_def is_space_def)
  then show ?thesis by (auto simp: Itoa_def word_text_def is_space_def)
qed

lemma list_line_name:
  assumes "word_text n" "n \<notin> fst ` set d"
  shows "list_line (''Name: '' @ n) \<lparr>ls_result = d, ls_current = c, ls_inMembers = b\<rparr> = Inr (reading d n no_snapshot False)"
proof -
  have t: "TrimSpace (''Name: '' @ n) = ''Name: '' @ n"
    by (rule TrimSpace_sep [OF assms(1)]) (simp_all add: is_space_def)
  have p: "HasPrefix (''Name: '' @ n) ''Name:''" "TrimPrefix (''Name: '' @ n) ''Name:'' = CHR '' '' # n"
    by (simp_all add: HasPrefix_def TrimPrefix_def)
  have "map_of d n = None" using assms(2) by (simp add: map_of_eq_None_iff)
  with assms show ?thesis
    unfolding list_line_def t Let_def
    by (simp add: p name_line_def TrimSpace_blank update_fresh reading_def word_text_def del: append.simps)
qed

lemma list_line_count:
  assumes "int64_range k" "n \<noteq> []" "n \<notin> fst ` set d"
  shows "list_line (''Number of entries: '' @ Itoa k) (reading d n s b) = Inr (reading d n (s\<lparr>Count := k\<rparr>) b)"
proof -
  have t: "TrimSpace (''Number of entries: '' @ Itoa k) = ''Number of entries: '' @ Itoa k"
    by (rule TrimSpace_sep [OF word_Itoa]) (simp_all add: is_space_def)
  have p: "\<not> HasPrefix (''Number of entries: '' @ Itoa k) ''Name:''" "HasPrefix (''Number of entries: '' @ Itoa k) ''Number of entries:''"
    "TrimPrefix (''Number of entries: '' @ Itoa k) ''Number of entries:'' = CHR '' '' # Itoa k"
    by (simp_all add: HasPrefix_def TrimPrefix_def)
  have r: "ls_current (reading d n s b) = n" by (simp add: reading_def)
  show ?thesis
    unfolding list_line_def t Let_def r
    using assms by (simp add: p TrimSpace_blank word_Itoa Atoi_Itoa update_reading del: append.simps)
qed

lemma list_line_fixed:
  "n \<noteq> [] \<Longrightarrow> list_line ''Members:'' (reading d n s b) = Inr (reading d n s True)"
  "n \<noteq> [] \<Longrightarrow> list_line [] (reading d n s b) = Inr (reading d n s b)"
proof -
  have t: "TrimSpace ''Members:'' = ''Members:''" by code_simp
  show "n \<noteq> [] \<Longrightarrow> list_line ''Members:'' (reading d n s b) = Inr (reading d n s True)"
    unfolding list_line_def t Let_def by (simp add: HasPrefix_def reading_def)
  show "n \<noteq> [] \<Longrightarrow> list_line [] (reading d n s b) = Inr (reading d n s b)"
    by (simp add: list_line_def HasPrefix_def reading_def)
qed

lemma list_lines_set:
  assumes "listing_ok hdr opts (n, s)" "n \<notin> fst ` set d"
  shows "list_lines (listing_lines hdr opts (n, s)) \<lparr>ls_result = d, ls_current = c, ls_inMembers = b\<rparr> = Inr (reading d n s True)"
proof -
  have ok: "word_text n" "n \<noteq> []" "list_all header_line (hdr n)" "int64_range (Count s)" "list_all (member_text opts) (Members s)"
    using assms(1) by (auto simp: listing_ok_def word_text_def)
  have eta: "\<lparr>Count = Count s, Members = Members s\<rparr> = s" by (cases s) simp
  show ?thesis
    unfolding listing_lines_def
    by (simp add: eta list_lines_append list_line_name list_lines_header list_line_count list_line_fixed list_lines_members ok assms(2)
        no_snapshot_def del: append.simps(2))
qed

lemma list_lines_sets:
  "list_all (listing_ok hdr opts) sets \<Longrightarrow> distinct (map fst (d @ sets)) \<Longrightarrow>
     \<exists>c b. list_lines (concat (map (listing_lines hdr opts) sets)) \<lparr>ls_result = d, ls_current = c0, ls_inMembers = b0\<rparr> =
       Inr \<lparr>ls_result = d @ sets, ls_current = c, ls_inMembers = b\<rparr>"
proof (induction sets arbitrary: d c0 b0)
  case (Cons ns sets)
  obtain n s where ns: "ns = (n, s)" by (cases ns)
  have "n \<notin> fst ` set d" using Cons.prems(2) ns by auto
  then have "list_lines (listing_lines hdr opts ns) \<lparr>ls_result = d, ls_current = c0, ls_inMembers = b0\<rparr> = Inr (reading d n s True)"
    using list_lines_set Cons.prems(1) ns by auto
  moreover have "list_all (listing_ok hdr opts) sets" "distinct (map fst ((d @ [(n, s)]) @ sets))"
    using Cons.prems ns by auto
  note Cons.IH [OF this, of n True]
  ultimately show ?case by (auto simp: list_lines_append reading_def ns)
qed simp


lemma listing_no_newline:
  assumes "list_all (listing_ok hdr opts) sets"
  shows "list_all (\<lambda>l. CHR 0x0A \<notin> set l) (concat (map (listing_lines hdr opts) sets))"
proof -
  have "is_space (CHR 0x0A)" by code_simp
  then have w: "word_text w \<Longrightarrow> CHR 0x0A \<notin> set w" for w by (auto simp: word_text_def list_all_iff)
  have "list_all (\<lambda>l. CHR 0x0A \<notin> set l) (listing_lines hdr opts ns)" if "listing_ok hdr opts ns" for ns
    using that w [OF word_Itoa] w
    by (auto simp: listing_lines_def listing_ok_def header_line_def member_text_def list_all_iff)
  then show ?thesis using assms by (fastforce simp: list_all_iff)
qed


section \<open>Properties\<close>

text \<open>\<open>parseIPSetSnapshots\<close> reads back what \<^verbatim>\<open>ipset list\<close> prints: for a listing with different set names, arbitrary
  header lines and arbitrary options behind each member, the result is every set with its count and its
  members, in order.\<close>

theorem parseIPSetSnapshots_listing:
  assumes "list_all (listing_ok hdr opts) sets" "distinct (map fst sets)" "sets \<noteq> []"
  shows "parseIPSetSnapshots (listing hdr opts sets) = Inr sets"
proof -
  have "concat (map (listing_lines hdr opts) sets) \<noteq> []"
    using assms(3) by (cases sets) (auto simp: listing_lines_def)
  then have "Split (listing hdr opts sets) (CHR 0x0A) = concat (map (listing_lines hdr opts) sets)"
    unfolding listing_def by (rule Split_Join [OF listing_no_newline [OF assms(1)]])
  then show ?thesis
    using list_lines_sets [OF assms(1), of "[]" "[]" False] assms(2) by (auto simp: parseIPSetSnapshots_def)
qed

definition sample_listing :: ipset_snapshots where
  "sample_listing = [(''svpn_tv_r1d4'', \<lparr>Count = 2, Members = [''10.0.0.0/8'', ''1.1.1.1'']\<rparr>), (''svpn_tv_r1d6'', \<lparr>Count = 0, Members = []\<rparr>)]"

theorem parseIPSetSnapshots_listing_witness:
  "parseIPSetSnapshots (listing (\<lambda>_. [''Type: hash:net'', ''References: 1'']) (\<lambda>_. '' timeout 86400'') sample_listing) = Inr sample_listing"
proof -
  have "list_all (listing_ok (\<lambda>_. [''Type: hash:net'', ''References: 1'']) (\<lambda>_. '' timeout 86400'')) sample_listing"
    "distinct (map fst sample_listing)" "sample_listing \<noteq> []" by code_simp+
  then show ?thesis by (rule parseIPSetSnapshots_listing)
qed

text \<open>The inspector's split by family files every CIDR under IPv6: an entry in CIDR notation, of either family, is
  shown among the IPv6 entries and never among the IPv4 entries. (\<open>canonicalizeSetValue\<close> ignores the family
  for CIDR blocks, and the IPv6 test comes first. Normalised rules hold CIDR blocks only.)\<close>

theorem splitRawMembers_cidr_as_v6:
  assumes "e \<in> set es" "TrimSpace e = e" "ParseCIDR e \<noteq> None"
  shows "e \<in> set (snd (splitRawMembersByFamily es)) \<and> e \<notin> set (fst (splitRawMembersByFamily es))"
proof -
  have ne: "e \<noteq> []" using assms(3) by (auto simp: ParseCIDR_def)
  note e = this canonicalize_CIDR [OF assms(3,2) this, of "''inet6''"]
  have tr: "set (fst acc) \<subseteq> {t. TrimSpace t = t} \<Longrightarrow> set (fst (split_members es acc)) \<subseteq> {t. TrimSpace t = t}" for acc
    by (induction es acc rule: split_members.induct) (auto simp: Let_def split: if_splits)
  obtain v4 v6 where v: "split_members es ([], []) = (v4, v6)" by (cases "split_members es ([], [])")
  have "e \<in> set v6" using split_members_v6 [OF assms(1,2) e, of "([], [])"] v by simp
  moreover have "e \<notin> TrimSpace ` set v4"
    using split_members_v4 [of es "([], [])"] tr [of "([], [])"] v e by (fastforce dest: subsetD)
  ultimately show ?thesis
    using v e(1) assms(2) by (force simp: splitRawMembersByFamily_def set_dedupeAndSortMembers)
qed

theorem splitRawMembers_cidr_as_v6_witness:
  "''10.0.0.0/8'' \<in> set (snd (splitRawMembersByFamily [''1.1.1.1'', ''10.0.0.0/8''])) \<and>
   ''10.0.0.0/8'' \<notin> set (fst (splitRawMembersByFamily [''1.1.1.1'', ''10.0.0.0/8'']))"
proof -
  have "TrimSpace ''10.0.0.0/8'' = ''10.0.0.0/8''" "ParseCIDR ''10.0.0.0/8'' \<noteq> None" by code_simp+
  then show ?thesis by (intro splitRawMembers_cidr_as_v6) simp_all
qed

end
