(* ===== verification/Flow_Match.thy ===== *)
theory Flow_Match
  imports Routing_Inspector Addr_Text
begin

text \<open>
  The matcher of the flow inspector (\<^verbatim>\<open>internal/server/flow_inspector_matcher.go\<close>): it compiles the rules
  of a VPN against the live ipsets and decides for every connection of the conntrack table which rule it
  matches, or why none does. A Go map used as a set is a list without repetition; the reasons are a datatype,
  counted by a function. The addresses of the local interfaces are input. Diagnostic logging is left out.
\<close>

unbundle bit_operations_syntax


section \<open>Data\<close>

record compiled_rule =
  SourcePrefixes :: "prefix list"
  ExcludedSourcePrefixes :: "prefix list"
  DestinationPrefixes :: "prefix list"
  ExcludedDestinationPrefixes :: "prefix list"
  c_SourceInterfaces :: "string list"
  c_SourceMACs :: "string list"
  c_DestinationPorts :: "port_range list"
  c_ExcludedDestinationPorts :: "port_range list"
  c_ExcludeMulticast :: bool
  RequiresSourcePrefix :: bool
  RequiresExcludedSourcePrefix :: bool
  RequiresDestinationPrefix :: bool
  RequiresExcludedDestinationPrefix :: bool
  DomainHints :: "string list"

datatype no_match = NoMatchUnknown | NoMatchSourcePrefix | NoMatchSourceInterface | NoMatchSourceMAC
  | NoMatchDestinationPrefix | NoMatchDestinationPort | NoMatchExcluded

definition no_match_text :: "no_match \<Rightarrow> string" where
  "no_match_text r = (case r of NoMatchUnknown \<Rightarrow> ''unknown'' | NoMatchSourcePrefix \<Rightarrow> ''source-prefix''
     | NoMatchSourceInterface \<Rightarrow> ''source-interface'' | NoMatchSourceMAC \<Rightarrow> ''source-mac''
     | NoMatchDestinationPrefix \<Rightarrow> ''destination-prefix'' | NoMatchDestinationPort \<Rightarrow> ''destination-port''
     | NoMatchExcluded \<Rightarrow> ''excluded'')"

record conntrack_flow =
  flow_Key :: string
  flow_Protocol :: string
  flow_SourceIP :: string
  flow_SourcePort :: int
  flow_DestinationIP :: string
  flow_DestinationPort :: int
  flow_UploadBytes :: "64 word"
  flow_DownloadBytes :: "64 word"
  flow_Mark :: "32 word"


section \<open>Addresses and prefixes\<close>

definition AddrFromSlice :: "ip \<Rightarrow> addr option" where
  "AddrFromSlice i = (if length i = 4 then Some (Addr4 i) else if length i = 16 then Some (Addr6 i) else None)"

definition parseIPToAddr :: "string \<Rightarrow> addr option" where
  "parseIPToAddr raw =
     (let t = TrimSpace raw in
      if t = [] then None
      else (let u = before_char (CHR ''%'') t in
            case ParseAddr u of
              Some a \<Rightarrow> Some (Unmap a)
            | None \<Rightarrow> (case ParseIP u of None \<Rightarrow> None | Some i \<Rightarrow> map_option Unmap (AddrFromSlice i))))"

definition parsePrefix :: "string \<Rightarrow> prefix option" where
  "parsePrefix raw =
     (let t = TrimSpace raw in
      if t = [] then None
      else (case netip_ParsePrefix t of
              Some p \<Rightarrow> Some (Masked p)
            | None \<Rightarrow>
                (case parseIPToAddr t of
                   None \<Rightarrow> None
                 | Some (Addr4 bs) \<Rightarrow> Some (Addr4 bs, 32)
                 | Some (Addr6 bs) \<Rightarrow> Some (Addr6 bs, 128))))"

definition prefix_order :: "prefix \<Rightarrow> int \<times> string" where
  "prefix_order p = (- int (snd p), prefix_String p)"

text \<open>Prefixes with the same text are kept once.\<close>

fun add_prefixes :: "prefix list \<Rightarrow> string list \<Rightarrow> prefix list" where
  "add_prefixes out [] = out"
| "add_prefixes out (v # vs) =
     add_prefixes
       (case parsePrefix v of
          None \<Rightarrow> out
        | Some p \<Rightarrow> if prefix_String p \<in> set (map prefix_String out) then out else out @ [p]) vs"

definition parsePrefixList :: "string list \<Rightarrow> prefix list" where
  "parsePrefixList vals = sort_key prefix_order (add_prefixes [] vals)"

text \<open>\<^verbatim>\<open>netip.Prefix.Contains\<close>: same family, and the leading bits agree.\<close>

definition prefix_Contains :: "prefix \<Rightarrow> addr \<Rightarrow> bool" where
  "prefix_Contains p a =
     (case (fst p, a) of
        (Addr4 bs, Addr4 cs) \<Rightarrow> mask_bytes (snd p) bs = mask_bytes (snd p) cs
      | (Addr6 bs, Addr6 cs) \<Rightarrow> mask_bytes (snd p) bs = mask_bytes (snd p) cs
      | _ \<Rightarrow> False)"

definition prefixContains :: "prefix list \<Rightarrow> addr \<Rightarrow> bool" where
  "prefixContains ps a = list_ex (\<lambda>p. prefix_Contains p a) ps"

definition isMulticastAddress :: "addr \<Rightarrow> bool" where
  "isMulticastAddress a = (case a of Addr4 bs \<Rightarrow> hd bs div 16 = 14 | Addr6 bs \<Rightarrow> hd bs = 255)"


section \<open>Compiling the rules\<close>

definition ruleHasAnySelectors :: "routing_rule \<Rightarrow> bool" where
  "ruleHasAnySelectors rule \<longleftrightarrow>
     SourceInterfaces rule \<noteq> [] \<or> SourceCIDRs rule \<noteq> [] \<or> ExcludedSourceCIDRs rule \<noteq> [] \<or> SourceMACs rule \<noteq> [] \<or>
     DestinationCIDRs rule \<noteq> [] \<or> DestinationPorts rule \<noteq> [] \<or> ExcludedDestinationCIDRs rule \<noteq> [] \<or>
     ExcludedDestinationPorts rule \<noteq> [] \<or> DestinationASNs rule \<noteq> [] \<or> ExcludedDestinationASNs rule \<noteq> [] \<or>
     Domains rule \<noteq> [] \<or> WildcardDomains rule \<noteq> []"

definition makeSelectorSet :: "string list \<Rightarrow> string list" where
  "makeSelectorSet vals = dedup (filter (\<lambda>t. t \<noteq> []) (map (\<lambda>v. ToLower (TrimSpace v)) vals))"

definition mac_key :: "string \<Rightarrow> string" where
  "mac_key v =
     (let c0 = TrimSpace v; c = (if CHR ''#'' \<in> set c0 then TrimSpace (before_char (CHR ''#'') c0) else c0) in
      if c = [] then [] else if normalizeMAC c = [] then ToLower c else normalizeMAC c)"

definition makeMACSet :: "string list \<Rightarrow> string list" where
  "makeMACSet vals = dedup (filter (\<lambda>t. t \<noteq> []) (map mac_key vals))"

definition collectRuleDomainHints :: "routing_rule \<Rightarrow> string list" where
  "collectRuleDomainHints rule = dedup (filter (\<lambda>t. t \<noteq> []) (map TrimSpace (Domains rule @ WildcardDomains rule)))"

definition candidates :: "ipset_snapshots \<Rightarrow> string \<Rightarrow> string \<Rightarrow> string list \<Rightarrow> string list" where
  "candidates snaps s4 s6 fallback =
     (let ms = Members (snapshot_of snaps s4) @ Members (snapshot_of snaps s6) in if ms = [] then fallback else ms)"

definition compile_rule ::
  "ipset_snapshots \<Rightarrow> resolver_snapshot \<Rightarrow> prewarm_snapshot \<Rightarrow> string \<Rightarrow> int \<times> routing_rule \<Rightarrow> compiled_rule" where
  "compile_rule snaps resolved prewarmed groupName ir =
     (case ir of (ruleIndex, rule) \<Rightarrow>
       (let pair = RuleSetNames groupName ruleIndex in
        \<lparr>SourcePrefixes = parsePrefixList (candidates snaps (SourceV4 pair) (SourceV6 pair) (SourceCIDRs rule)),
         ExcludedSourcePrefixes =
           parsePrefixList (candidates snaps (ExcludedSourceV4 pair) (ExcludedSourceV6 pair) (ExcludedSourceCIDRs rule)),
         DestinationPrefixes =
           parsePrefixList (candidates snaps (DestinationV4 pair) (DestinationV6 pair)
             (destinationRawMembers rule pair resolved prewarmed)),
         ExcludedDestinationPrefixes =
           parsePrefixList (candidates snaps (ExcludedDestinationV4 pair) (ExcludedDestinationV6 pair)
             (destinationExcludedRawMembers rule resolved)),
         c_SourceInterfaces = makeSelectorSet (SourceInterfaces rule), c_SourceMACs = makeMACSet (SourceMACs rule),
         c_DestinationPorts = DestinationPorts rule, c_ExcludedDestinationPorts = ExcludedDestinationPorts rule,
         c_ExcludeMulticast = RuleExcludeMulticastEnabled rule,
         RequiresSourcePrefix = (SourceCIDRs rule \<noteq> []),
         RequiresExcludedSourcePrefix = (ExcludedSourceCIDRs rule \<noteq> []),
         RequiresDestinationPrefix =
           (DestinationCIDRs rule \<noteq> [] \<or> DestinationASNs rule \<noteq> [] \<or> Domains rule \<noteq> [] \<or> WildcardDomains rule \<noteq> []),
         RequiresExcludedDestinationPrefix = (ExcludedDestinationCIDRs rule \<noteq> [] \<or> ExcludedDestinationASNs rule \<noteq> []),
         DomainHints = collectRuleDomainHints rule\<rparr>))"

definition compileFlowRules ::
  "string \<Rightarrow> domain_group list \<Rightarrow> ipset_snapshots \<Rightarrow> resolver_snapshot \<Rightarrow> prewarm_snapshot \<Rightarrow> compiled_rule list" where
  "compileFlowRules vpnName groups snaps resolved prewarmed =
     concat (map (\<lambda>grp. map (compile_rule snaps resolved prewarmed (group_Name grp))
                          (filter (\<lambda>ir. ruleHasAnySelectors (snd ir)) (indexed (Rules grp))))
       (filter (\<lambda>grp. TrimSpace (EgressVPN grp) = TrimSpace vpnName) groups))"


section \<open>Matching\<close>

definition port_range_hits :: "string \<Rightarrow> int \<Rightarrow> port_range \<Rightarrow> bool" where
  "port_range_hits protocol destinationPort port \<longleftrightarrow>
     (let p0 = ToLower (TrimSpace (Protocol port)); rangeProtocol = (if p0 = [] then ''both'' else p0) in
      (rangeProtocol = ''both'' \<or> rangeProtocol = protocol) \<and>
      Start port \<le> destinationPort \<and> destinationPort \<le> (if End port \<le> 0 then Start port else End port))"

definition matchDestinationPort :: "port_range list \<Rightarrow> string \<Rightarrow> int \<Rightarrow> bool" where
  "matchDestinationPort ports protocol destinationPort \<longleftrightarrow>
     destinationPort > 0 \<and> list_ex (port_range_hits (ToLower (TrimSpace protocol)) destinationPort) ports"

definition selector_misses :: "string list \<Rightarrow> string \<Rightarrow> bool" where
  "selector_misses sel v \<longleftrightarrow> sel \<noteq> [] \<and> (v = [] \<or> v \<notin> set sel)"

record flow_view =
  fv_flow :: conntrack_flow
  fv_source :: addr
  fv_destination :: addr
  fv_mac :: string
  fv_iface :: string

text \<open>The tests of the loop body, in order; each \<^verbatim>\<open>continue\<close> of the code is \<open>False\<close> here.\<close>

definition rule_accepts :: "flow_view \<Rightarrow> compiled_rule \<Rightarrow> bool" where
  "rule_accepts f rule =
     (if RequiresSourcePrefix rule \<and> \<not> prefixContains (SourcePrefixes rule) (fv_source f) then False
      else if selector_misses (c_SourceInterfaces rule) (fv_iface f) then False
      else if selector_misses (c_SourceMACs rule) (fv_mac f) then False
      else if RequiresExcludedSourcePrefix rule \<and> prefixContains (ExcludedSourcePrefixes rule) (fv_source f) then False
      else if RequiresDestinationPrefix rule \<and> \<not> prefixContains (DestinationPrefixes rule) (fv_destination f) then False
      else if c_DestinationPorts rule \<noteq> [] \<and>
              \<not> matchDestinationPort (c_DestinationPorts rule) (flow_Protocol (fv_flow f)) (flow_DestinationPort (fv_flow f)) then False
      else if RequiresExcludedDestinationPrefix rule \<and> prefixContains (ExcludedDestinationPrefixes rule) (fv_destination f) then False
      else if c_ExcludedDestinationPorts rule \<noteq> [] \<and>
              matchDestinationPort (c_ExcludedDestinationPorts rule) (flow_Protocol (fv_flow f)) (flow_DestinationPort (fv_flow f)) then False
      else if c_ExcludeMulticast rule \<and> isMulticastAddress (fv_destination f) then False
      else True)"

fun first_match :: "flow_view \<Rightarrow> compiled_rule list \<Rightarrow> compiled_rule option" where
  "first_match f [] = None"
| "first_match f (rule # rules) = (if rule_accepts f rule then Some rule else first_match f rules)"

definition normalized_view :: "conntrack_flow \<Rightarrow> addr \<Rightarrow> addr \<Rightarrow> string \<Rightarrow> string \<Rightarrow> flow_view" where
  "normalized_view flow sourceAddr destinationAddr sourceMAC sourceInterface =
     \<lparr>fv_flow = flow, fv_source = sourceAddr, fv_destination = destinationAddr,
      fv_mac = ToLower (TrimSpace sourceMAC), fv_iface = ToLower (TrimSpace sourceInterface)\<rparr>"

definition matchFlowRule ::
  "compiled_rule list \<Rightarrow> conntrack_flow \<Rightarrow> addr \<Rightarrow> addr \<Rightarrow> string \<Rightarrow> string \<Rightarrow> compiled_rule option" where
  "matchFlowRule rules flow sourceAddr destinationAddr sourceMAC sourceInterface =
     first_match (normalized_view flow sourceAddr destinationAddr sourceMAC sourceInterface) rules"


section \<open>Why a flow does not match\<close>

definition reason_of :: "flow_view \<Rightarrow> compiled_rule \<Rightarrow> no_match option" where
  "reason_of f rule =
     (if RequiresSourcePrefix rule \<and> \<not> prefixContains (SourcePrefixes rule) (fv_source f) then Some NoMatchSourcePrefix
      else if selector_misses (c_SourceInterfaces rule) (fv_iface f) then Some NoMatchSourceInterface
      else if selector_misses (c_SourceMACs rule) (fv_mac f) then Some NoMatchSourceMAC
      else if RequiresExcludedSourcePrefix rule \<and> prefixContains (ExcludedSourcePrefixes rule) (fv_source f) then Some NoMatchExcluded
      else if RequiresDestinationPrefix rule \<and> \<not> prefixContains (DestinationPrefixes rule) (fv_destination f) then Some NoMatchDestinationPrefix
      else if c_DestinationPorts rule \<noteq> [] \<and>
              \<not> matchDestinationPort (c_DestinationPorts rule) (flow_Protocol (fv_flow f)) (flow_DestinationPort (fv_flow f))
      then Some NoMatchDestinationPort
      else if RequiresExcludedDestinationPrefix rule \<and> prefixContains (ExcludedDestinationPrefixes rule) (fv_destination f)
      then Some NoMatchExcluded
      else if c_ExcludedDestinationPorts rule \<noteq> [] \<and>
              matchDestinationPort (c_ExcludedDestinationPorts rule) (flow_Protocol (fv_flow f)) (flow_DestinationPort (fv_flow f))
      then Some NoMatchExcluded
      else if c_ExcludeMulticast rule \<and> isMulticastAddress (fv_destination f) then Some NoMatchExcluded
      else None)"

type_synonym reason_counts = "(no_match \<times> nat) list"

definition count_of :: "reason_counts \<Rightarrow> no_match \<Rightarrow> nat" where
  "count_of counts r = (case map_of counts r of None \<Rightarrow> 0 | Some n \<Rightarrow> n)"

definition count_reason :: "reason_counts \<Rightarrow> no_match \<Rightarrow> reason_counts" where
  "count_reason counts r = AList.update r (Suc (count_of counts r)) counts"

definition reason_order :: "no_match list" where
  "reason_order = [NoMatchSourcePrefix, NoMatchSourceInterface, NoMatchSourceMAC, NoMatchDestinationPrefix,
     NoMatchDestinationPort, NoMatchExcluded, NoMatchUnknown]"

definition better_reason :: "reason_counts \<Rightarrow> no_match \<times> int \<Rightarrow> no_match \<Rightarrow> no_match \<times> int" where
  "better_reason counts best r = (if int (count_of counts r) > snd best then (r, int (count_of counts r)) else best)"

definition dominantFlowNoMatchReason :: "reason_counts \<Rightarrow> no_match" where
  "dominantFlowNoMatchReason counts =
     (if counts = [] then NoMatchUnknown
      else (case foldl (better_reason counts) (NoMatchUnknown, -1) reason_order of
              (bestReason, bestCount) \<Rightarrow> if bestCount \<le> 0 then NoMatchUnknown else bestReason))"

definition detectFlowNoMatchReason ::
  "compiled_rule list \<Rightarrow> conntrack_flow \<Rightarrow> addr \<Rightarrow> addr \<Rightarrow> string \<Rightarrow> string \<Rightarrow> no_match" where
  "detectFlowNoMatchReason rules flow sourceAddr destinationAddr sourceMAC sourceInterface =
     (let f = normalized_view flow sourceAddr destinationAddr sourceMAC sourceInterface;
          counts = foldl count_reason [] (List.map_filter (reason_of f) rules)
      in if counts = [] then NoMatchUnknown else dominantFlowNoMatchReason counts)"

definition formatFlowNoMatchReasons :: "reason_counts \<Rightarrow> string" where
  "formatFlowNoMatchReasons counts =
     (if counts = [] then []
      else Join (map (\<lambda>r. no_match_text r @ ''='' @ Itoa (int (count_of counts r)))
             (sort_key (\<lambda>r. (- int (count_of counts r), no_match_text r)) (map fst counts))) '','')"


section \<open>Marks\<close>

fun bit_len :: "nat \<Rightarrow> nat" where
  "bit_len n = (if n = 0 then 0 else Suc (bit_len (n div 2)))"

declare bit_len.simps [simp del]

definition flowMarkMask :: "32 word \<Rightarrow> 32 word" where
  "flowMarkMask vpnMark =
     (if vpnMark = 0 then 0
      else (let n = bit_len (unat vpnMark) in
            if n \<le> 8 then 0xFF else if n \<le> 16 then 0xFFFF else if n \<le> 24 then 0xFFFFFF else 0xFFFFFFFF))"

definition flowMarkMatchesVPN :: "32 word \<Rightarrow> 32 word \<Rightarrow> bool" where
  "flowMarkMatchesVPN flowMark vpnMark =
     (if flowMark = 0 \<or> vpnMark < 200 then False
      else if flowMark = vpnMark then True
      else (let mask = flowMarkMask vpnMark in if mask = 0 then False else flowMark AND mask = vpnMark))"


section \<open>Domains and interfaces of addresses\<close>

type_synonym prefix_hint = "prefix \<times> string"

definition hint_order :: "prefix_hint \<Rightarrow> (int \<times> string) \<times> string" where
  "hint_order h = (prefix_order (fst h), snd h)"

fun add_hints :: "string \<Rightarrow> prefix_hint list \<Rightarrow> string list \<Rightarrow> prefix_hint list" where
  "add_hints label out [] = out"
| "add_hints label out (c # cs) =
     add_hints label
       (case parsePrefix c of
          None \<Rightarrow> out
        | Some p \<Rightarrow>
            if prefix_String p @ ''|'' @ label \<in> set (map (\<lambda>h. prefix_String (fst h) @ ''|'' @ snd h) out)
            then out else out @ [(p, label)]) cs"

definition selector_hints :: "prefix_hint list \<Rightarrow> resolver_selector \<times> resolver_values \<Rightarrow> prefix_hint list" where
  "selector_hints out sv =
     (case sv of ((kind, key), vals) \<Rightarrow>
       (let t = ToLower (TrimSpace kind); label = TrimSpace key in
        if t \<noteq> ''domain'' \<and> t \<noteq> ''wildcard'' then out
        else if label = [] then out
        else add_hints label (add_hints label out (V4 vals)) (V6 vals)))"

definition buildDomainPrefixHints :: "resolver_snapshot \<Rightarrow> prefix_hint list" where
  "buildDomainPrefixHints snapshot = sort_key hint_order (foldl selector_hints [] snapshot)"

fun lookupDestinationDomain :: "prefix_hint list \<Rightarrow> addr \<Rightarrow> string" where
  "lookupDestinationDomain [] a = []"
| "lookupDestinationDomain (h # hs) a = (if prefix_Contains (fst h) a then snd h else lookupDestinationDomain hs a)"

text \<open>The interfaces as package \<^verbatim>\<open>net\<close> reports them: a name, and the addresses (raw bytes and prefix length) or an error.\<close>

type_synonym net_interface = "string \<times> (ip \<times> nat) list option"

definition interface_prefixes :: "net_interface \<Rightarrow> (string \<times> prefix) list" where
  "interface_prefixes iface =
     (case iface of
        (name, None) \<Rightarrow> []
      | (name, Some addrs) \<Rightarrow>
          if TrimSpace name = [] then []
          else List.map_filter
            (\<lambda>(i, n). map_option (\<lambda>a. (ToLower (TrimSpace name), Masked (Unmap a, n))) (AddrFromSlice i)) addrs)"

definition listLocalInterfacePrefixes :: "net_interface list option \<Rightarrow> (string \<times> prefix) list" where
  "listLocalInterfacePrefixes interfaces =
     (case interfaces of
        None \<Rightarrow> []
      | Some is \<Rightarrow> sort_key (\<lambda>(name, p). (- int (snd p), name)) (concat (map interface_prefixes is)))"

fun resolveSourceInterface :: "(string \<times> prefix) list \<Rightarrow> addr \<Rightarrow> string" where
  "resolveSourceInterface [] a = []"
| "resolveSourceInterface (e # es) a = (if prefix_Contains (snd e) a then fst e else resolveSourceInterface es a)"


section \<open>Collecting the flows of a VPN\<close>

record flow_sample =
  fs_Key :: string
  fs_Protocol :: string
  fs_SourceIP :: string
  fs_SourcePort :: int
  fs_SourceMAC :: string
  fs_SourceDeviceName :: string
  fs_SourceInterface :: string
  fs_DestinationIP :: string
  fs_DestinationPort :: int
  fs_DestinationDomain :: string
  fs_UploadBytes :: "64 word"
  fs_DownloadBytes :: "64 word"

record collect_env =
  env_rules :: "compiled_rule list"
  env_mark :: "32 word"
  env_hints :: "prefix_hint list"
  env_interfaces :: "(string \<times> prefix) list"
  env_devices :: device_directory

definition source_mac :: "collect_env \<Rightarrow> conntrack_flow \<Rightarrow> string" where
  "source_mac env flow = ToLower (TrimSpace (lookupIPMAC (env_devices env) (flow_SourceIP flow)))"

definition source_device :: "collect_env \<Rightarrow> conntrack_flow \<Rightarrow> string" where
  "source_device env flow =
     (let name = TrimSpace (lookupIP (env_devices env) (flow_SourceIP flow)); mac = source_mac env flow in
      if name = [] \<and> mac \<noteq> [] then TrimSpace (fst (lookupMAC (env_devices env) mac)) else name)"

definition make_sample :: "collect_env \<Rightarrow> conntrack_flow \<Rightarrow> addr \<Rightarrow> addr \<Rightarrow> compiled_rule option \<Rightarrow> flow_sample" where
  "make_sample env flow src dst matched =
     (let d0 = lookupDestinationDomain (env_hints env) dst;
          d = (case matched of Some rule \<Rightarrow> if d0 = [] \<and> DomainHints rule \<noteq> [] then hd (DomainHints rule) else d0 | None \<Rightarrow> d0)
      in \<lparr>fs_Key = flow_Key flow, fs_Protocol = flow_Protocol flow, fs_SourceIP = flow_SourceIP flow,
          fs_SourcePort = flow_SourcePort flow, fs_SourceMAC = source_mac env flow,
          fs_SourceDeviceName = source_device env flow, fs_SourceInterface = resolveSourceInterface (env_interfaces env) src,
          fs_DestinationIP = flow_DestinationIP flow, fs_DestinationPort = flow_DestinationPort flow,
          fs_DestinationDomain = d, fs_UploadBytes = flow_UploadBytes flow, fs_DownloadBytes = flow_DownloadBytes flow\<rparr>)"

definition flow_to_sample :: "collect_env \<Rightarrow> conntrack_flow \<Rightarrow> flow_sample option" where
  "flow_to_sample env flow =
     (case (parseIPToAddr (flow_SourceIP flow), parseIPToAddr (flow_DestinationIP flow)) of
        (Some src, Some dst) \<Rightarrow>
          (let matched = matchFlowRule (env_rules env) flow src dst (source_mac env flow)
                           (resolveSourceInterface (env_interfaces env) src)
           in if matched = None \<and> \<not> flowMarkMatchesVPN (flow_Mark flow) (env_mark env) then None
              else Some (make_sample env flow src dst matched))
      | _ \<Rightarrow> None)"

fun collect_samples :: "collect_env \<Rightarrow> conntrack_flow list \<Rightarrow> flow_sample list \<Rightarrow> flow_sample list" where
  "collect_samples env [] out = out"
| "collect_samples env (flow # flows) out =
     collect_samples env flows
       (case flow_to_sample env flow of
          None \<Rightarrow> out
        | Some s \<Rightarrow> if flow_Key flow \<in> set (map fs_Key out) then out else out @ [s])"

text \<open>The stores, the runner and the managers the server calls; a configuration or profile that cannot be read counts as absent.\<close>

record collect_inputs =
  in_groups :: "string + domain_group list"
  in_resolved :: "string + resolver_snapshot"
  in_prewarmed :: "string + prewarm_snapshot"
  in_ipset :: "string + string"
  in_flows :: "string + conntrack_flow list"
  in_interfaceName :: "string option"
  in_fwmark :: "32 word option"
  in_interfaces :: "net_interface list option"
  in_devices :: device_directory

definition collectVPNFlowSamples :: "collect_inputs \<Rightarrow> string \<Rightarrow> inspector_error + flow_sample list \<times> string" where
  "collectVPNFlowSamples inp vpnName =
     bindE (listed (in_groups inp)) (\<lambda>groups.
     bindE (listed (in_resolved inp)) (\<lambda>resolved.
     bindE (listed (in_prewarmed inp)) (\<lambda>prewarmed.
     bindE (readIPSetSnapshots (in_ipset inp)) (\<lambda>snaps.
     bindE (listed (in_flows inp)) (\<lambda>flows.
       (let interfaceName = (case in_interfaceName inp of None \<Rightarrow> [] | Some n \<Rightarrow> TrimSpace n);
            rules = compileFlowRules vpnName groups snaps resolved prewarmed;
            env = \<lparr>env_rules = rules, env_mark = (case in_fwmark inp of None \<Rightarrow> 0 | Some m \<Rightarrow> m),
                   env_hints = buildDomainPrefixHints resolved,
                   env_interfaces = listLocalInterfacePrefixes (in_interfaces inp), env_devices = in_devices inp\<rparr>
        in if rules = [] then Inr ([], interfaceName) else Inr (collect_samples env flows [], interfaceName)))))))"



section \<open>Prefix lists\<close>

lemma parseIPToAddr_ok: "parseIPToAddr s = Some a \<Longrightarrow> addr_ok a"
  by (auto simp: parseIPToAddr_def Let_def ParseIP_def Unmap_ok ParseAddr_ok split: if_splits option.splits)

lemma parsePrefix_ok: "parsePrefix s = Some p \<Longrightarrow> prefix_ok p"
  by (auto simp: parsePrefix_def Let_def prefix_ok_def BitLen_def split: if_splits option.splits addr.splits
      dest: parseIPToAddr_ok netip_ParsePrefix_ok [THEN Masked_ok])

lemma set_add_prefixes:
  "\<forall>p \<in> set out. prefix_ok p \<Longrightarrow> set (add_prefixes out vs) = set out \<union> {p. \<exists>v \<in> set vs. parsePrefix v = Some p}"
proof (induction out vs rule: add_prefixes.induct)
  case (2 out v vs)
  show ?case
  proof (cases "parsePrefix v")
    case (Some p)
    have "p \<in> set out" if "prefix_String p \<in> set (map prefix_String out)"
      using that parsePrefix_ok [OF Some] "2.prems" prefix_String_inj by (metis (no_types, lifting) imageE list.set_map)
    then show ?thesis using 2 Some parsePrefix_ok [OF Some] by auto
  qed (use 2 in auto)
qed simp

lemma prefixContains_list: "prefixContains (parsePrefixList vs) a \<longleftrightarrow> (\<exists>v \<in> set vs. \<exists>p. parsePrefix v = Some p \<and> prefix_Contains p a)"
  by (auto simp: prefixContains_def parsePrefixList_def set_add_prefixes list_ex_iff)


section \<open>The reasons\<close>

lemma accepts_iff_no_reason: "rule_accepts f rule \<longleftrightarrow> reason_of f rule = None"
  unfolding rule_accepts_def reason_of_def by (auto split: if_splits)

lemma reason_known: "reason_of f rule \<noteq> Some NoMatchUnknown"
  unfolding reason_of_def by (simp split: if_splits)

lemma first_match_Some:
  "first_match f rules = Some r \<longleftrightarrow>
     (\<exists>xs ys. rules = xs @ r # ys \<and> rule_accepts f r \<and> (\<forall>x \<in> set xs. \<not> rule_accepts f x))"
proof (induction rules)
  case (Cons x rules)
  show ?case
  proof (cases "rule_accepts f x")
    case True
    then have "(\<exists>xs ys. x # rules = xs @ r # ys \<and> rule_accepts f r \<and> (\<forall>x \<in> set xs. \<not> rule_accepts f x)) \<longleftrightarrow> x = r"
      by (auto simp: Cons_eq_append_conv intro: exI [of _ "[]"])
    with True show ?thesis by simp
  next
    case False
    then have "(\<exists>xs ys. x # rules = xs @ r # ys \<and> rule_accepts f r \<and> (\<forall>x \<in> set xs. \<not> rule_accepts f x)) \<longleftrightarrow>
        (\<exists>xs ys. rules = xs @ r # ys \<and> rule_accepts f r \<and> (\<forall>x \<in> set xs. \<not> rule_accepts f x))"
      by (auto simp: Cons_eq_append_conv) (metis list.set_intros set_ConsD append_Cons)+
    with False Cons show ?thesis by simp
  qed
qed simp

lemma first_match_None: "first_match f rules = None \<longleftrightarrow> (\<forall>r \<in> set rules. \<not> rule_accepts f r)"
  by (induction rules) auto

lemma count_of_reasons: "count_of (foldl count_reason counts rs) x = count_of counts x + count_list rs x"
  by (induction rs arbitrary: counts) (auto simp: count_reason_def count_of_def update_conv')

lemma counts_Nil: "foldl count_reason counts rs = [] \<longleftrightarrow> counts = [] \<and> rs = []"
  by (induction rs arbitrary: counts) (auto simp: count_reason_def update_nonempty)

lemma better_reason_max:
  fixes best :: "no_match \<times> int"
  shows "(\<forall>r \<in> set rs. int (count_of counts r) \<le> snd (foldl (better_reason counts) best rs)) \<and>
    snd best \<le> snd (foldl (better_reason counts) best rs) \<and>
    (foldl (better_reason counts) best rs = best \<or>
      fst (foldl (better_reason counts) best rs) \<in> set rs \<and>
      snd (foldl (better_reason counts) best rs) = int (count_of counts (fst (foldl (better_reason counts) best rs))))"
proof (induction rs arbitrary: best)
  case (Cons r rs)
  let ?b = "better_reason counts best r"
  have "snd best \<le> snd ?b" "int (count_of counts r) \<le> snd ?b" "?b = best \<or> ?b = (r, int (count_of counts r))"
    by (auto simp: better_reason_def)
  with Cons [of ?b] show ?case by fastforce
qed simp

lemma reason_order_all: "r \<in> set reason_order"
  by (cases r) (simp_all add: reason_order_def)

lemma dominant_max:
  assumes "count_of counts r > 0"
  shows "\<forall>x. count_of counts x \<le> count_of counts (dominantFlowNoMatchReason counts)"
proof -
  obtain b n where bn: "foldl (better_reason counts) (NoMatchUnknown, -1) reason_order = (b, n)" by fastforce
  have le: "int (count_of counts x) \<le> n" for x
    using better_reason_max [where rs = reason_order and counts = counts and best = "(NoMatchUnknown, -1)"] reason_order_all bn by auto
  have "0 < n" using le [of r] assms by linarith
  moreover have "n = int (count_of counts b)"
    using better_reason_max [where rs = reason_order and counts = counts and best = "(NoMatchUnknown, -1)"] bn \<open>0 < n\<close> by auto
  moreover have "counts \<noteq> []" using assms by (auto simp: count_of_def)
  ultimately show ?thesis using le by (simp add: dominantFlowNoMatchReason_def bn)
qed

definition reason_count :: "flow_view \<Rightarrow> compiled_rule list \<Rightarrow> no_match \<Rightarrow> nat" where
  "reason_count f rules x = length (filter (\<lambda>r. reason_of f r = Some x) rules)"

lemma count_list_reasons: "count_list (List.map_filter (reason_of f) rules) x = reason_count f rules x"
  by (induction rules) (auto simp: reason_count_def List.map_filter_def)


section \<open>Properties\<close>

text \<open>\<open>matchFlowRule\<close> returns the first rule that accepts the flow. When it returns none although there are rules,
  \<open>detectFlowNoMatchReason\<close> explains it: the reason is never unknown, it is the reason of at least one rule,
  and no other reason applies to more rules.\<close>

theorem matchFlowRule_explained:
  fixes rules flow src dst mac iface
  defines "f \<equiv> normalized_view flow src dst mac iface"
  shows "(\<forall>r. matchFlowRule rules flow src dst mac iface = Some r \<longleftrightarrow>
       (\<exists>xs ys. rules = xs @ r # ys \<and> rule_accepts f r \<and> (\<forall>x \<in> set xs. \<not> rule_accepts f x))) \<and>
    (matchFlowRule rules flow src dst mac iface = None \<and> rules \<noteq> [] \<longrightarrow>
       (let d = detectFlowNoMatchReason rules flow src dst mac iface in
        d \<noteq> NoMatchUnknown \<and> (\<exists>r \<in> set rules. reason_of f r = Some d) \<and>
        (\<forall>x. reason_count f rules x \<le> reason_count f rules d)))"
proof (intro conjI impI)
  show "\<forall>r. matchFlowRule rules flow src dst mac iface = Some r \<longleftrightarrow>
      (\<exists>xs ys. rules = xs @ r # ys \<and> rule_accepts f r \<and> (\<forall>x \<in> set xs. \<not> rule_accepts f x))"
    by (simp add: matchFlowRule_def first_match_Some f_def)
next
  assume a: "matchFlowRule rules flow src dst mac iface = None \<and> rules \<noteq> []"
  let ?rs = "List.map_filter (reason_of f) rules" and ?d = "detectFlowNoMatchReason rules flow src dst mac iface"
  have none: "\<forall>r \<in> set rules. reason_of f r \<noteq> None"
    using a by (simp add: matchFlowRule_def first_match_None accepts_iff_no_reason f_def)
  obtain r0 where "r0 \<in> set rules" using a by (metis last_in_set)
  with none obtain x where x: "reason_of f r0 = Some x" by auto
  have cnt: "count_of (foldl count_reason [] ?rs) y = reason_count f rules y" for y
    using count_of_reasons [of "[]" ?rs y] by (simp add: count_list_reasons count_of_def [of "[]"])
  have pos: "0 < reason_count f rules x" using x \<open>r0 \<in> set rules\<close> by (auto simp: reason_count_def filter_empty_conv)
  then have "?rs \<noteq> []" by (auto simp: count_list_reasons [symmetric])
  then have d: "?d = dominantFlowNoMatchReason (foldl count_reason [] ?rs)"
    by (simp add: detectFlowNoMatchReason_def f_def [symmetric] Let_def counts_Nil)
  have max: "\<forall>y. reason_count f rules y \<le> reason_count f rules ?d"
    using dominant_max [of "foldl count_reason [] ?rs" x] pos by (simp add: cnt d)
  then have "0 < reason_count f rules ?d" using pos by (meson less_le_trans)
  then obtain r where "r \<in> set rules" "reason_of f r = Some ?d"
    by (auto simp: reason_count_def length_greater_0_conv filter_empty_conv)
  with max reason_known show "let d = ?d in d \<noteq> NoMatchUnknown \<and> (\<exists>r \<in> set rules. reason_of f r = Some d) \<and>
        (\<forall>x. reason_count f rules x \<le> reason_count f rules d)"
    by (auto simp: Let_def)
qed

definition sample_rule :: compiled_rule where
  "sample_rule = \<lparr>SourcePrefixes = [(Addr4 [10, 0, 0, 0], 8)], ExcludedSourcePrefixes = [], DestinationPrefixes = [],
     ExcludedDestinationPrefixes = [], c_SourceInterfaces = [''br0''], c_SourceMACs = [], c_DestinationPorts = [],
     c_ExcludedDestinationPorts = [], c_ExcludeMulticast = True, RequiresSourcePrefix = True,
     RequiresExcludedSourcePrefix = False, RequiresDestinationPrefix = False, RequiresExcludedDestinationPrefix = False,
     DomainHints = []\<rparr>"

definition sample_flow :: conntrack_flow where
  "sample_flow = \<lparr>flow_Key = ''k'', flow_Protocol = ''tcp'', flow_SourceIP = ''10.0.0.2'', flow_SourcePort = 40000,
     flow_DestinationIP = ''1.1.1.1'', flow_DestinationPort = 443, flow_UploadBytes = 0, flow_DownloadBytes = 0, flow_Mark = 0\<rparr>"

theorem matchFlowRule_explained_witness:
  "matchFlowRule [sample_rule] sample_flow (Addr4 [10, 0, 0, 2]) (Addr4 [1, 1, 1, 1]) [] ''br1'' = None \<and>
   detectFlowNoMatchReason [sample_rule] sample_flow (Addr4 [10, 0, 0, 2]) (Addr4 [1, 1, 1, 1]) [] ''br1'' \<noteq> NoMatchUnknown"
proof -
  have "matchFlowRule [sample_rule] sample_flow (Addr4 [10, 0, 0, 2]) (Addr4 [1, 1, 1, 1]) [] ''br1'' = None" by code_simp
  with matchFlowRule_explained [of "[sample_rule]" sample_flow "Addr4 [10, 0, 0, 2]" "Addr4 [1, 1, 1, 1]" "[]" "''br1''"]
  show ?thesis by (simp add: Let_def)
qed

end
