(* ===== verification/Flow_Agreement.thy ===== *)
theory Flow_Agreement
  imports Flow_Match Mark_Rules Routing_Manager Routing_Normalize
begin

text \<open>
  The flow inspector against the packet filter. The inspector re-implements in Go what the kernel does with
  the rules that the routing manager installs. Here the options of these rules get their documented
  meaning for one packet (\<open>opts_match\<close>), and the two are shown to agree: a connection is attributed to a
  rule exactly when the chain of that rule marks its packets.
\<close>


section \<open>What iptables options mean\<close>

record packet =
  pk_src :: addr
  pk_dst :: addr
  pk_mac :: string
  pk_iface :: string
  pk_proto :: string
  pk_dport :: int

definition port_text :: "string \<Rightarrow> int \<Rightarrow> bool" where
  "port_text t n \<longleftrightarrow>
     (case map Atoi (Split t (CHR '':'')) of
        [Some a] \<Rightarrow> n = a
      | [Some a, Some b] \<Rightarrow> a \<le> n \<and> n \<le> b
      | _ \<Rightarrow> False)"

definition cidr_text :: "string \<Rightarrow> addr \<Rightarrow> bool" where
  "cidr_text c a \<longleftrightarrow> (case parsePrefix c of None \<Rightarrow> False | Some p \<Rightarrow> prefix_Contains p a)"

text \<open>An option with one value; \<^verbatim>\<open>-m\<close> only loads a match extension.\<close>

definition opt_match :: "packet \<Rightarrow> string \<Rightarrow> string \<Rightarrow> bool" where
  "opt_match pk opt v \<longleftrightarrow>
     (if opt = ''-m'' then True
      else if opt = ''-i'' then pk_iface pk = v
      else if opt = ''--mac-source'' then pk_mac pk = v
      else if opt = ''-p'' then pk_proto pk = v
      else if opt = ''--dport'' then port_text v (pk_dport pk)
      else if opt = ''-d'' then cidr_text v (pk_dst pk)
      else False)"

definition dir_addr :: "packet \<Rightarrow> string \<Rightarrow> addr" where
  "dir_addr pk dir = (if dir = ''src'' then pk_src pk else pk_dst pk)"

fun opts_match :: "(string \<Rightarrow> addr \<Rightarrow> bool) \<Rightarrow> packet \<Rightarrow> string list \<Rightarrow> bool" where
  "opts_match inset pk [] = True"
| "opts_match inset pk [opt] = False"
| "opts_match inset pk (opt # v # rest) =
     (if opt = ''--match-set''
      then (case rest of [] \<Rightarrow> False | dir # rest' \<Rightarrow> inset v (dir_addr pk dir) \<and> opts_match inset pk rest')
      else opt_match pk opt v \<and> opts_match inset pk rest)"

text \<open>A hash:net set contains an address when one of its members does.\<close>

definition kernel_set :: "ipset_snapshots \<Rightarrow> string \<Rightarrow> addr \<Rightarrow> bool" where
  "kernel_set snaps n a = list_ex (\<lambda>m. cidr_text m a) (Members (snapshot_of snaps n))"

lemma opts_match_blocks:
  "opts_match inset pk ([''-m'', ''set'', ''--match-set'', n, ''src''] @ r) \<longleftrightarrow> inset n (pk_src pk) \<and> opts_match inset pk r"
  "opts_match inset pk ([''-m'', ''set'', ''--match-set'', n, ''dst''] @ r) \<longleftrightarrow> inset n (pk_dst pk) \<and> opts_match inset pk r"
  "opts_match inset pk ([''-i'', i] @ r) \<longleftrightarrow> pk_iface pk = i \<and> opts_match inset pk r"
  "opts_match inset pk ([''-m'', ''mac'', ''--mac-source'', a] @ r) \<longleftrightarrow> pk_mac pk = a \<and> opts_match inset pk r"
  "opts_match inset pk ([''-p'', p, ''--dport'', t] @ r) \<longleftrightarrow> pk_proto pk = p \<and> port_text t (pk_dport pk) \<and> opts_match inset pk r"
  "opts_match inset pk ([''-d'', c] @ r) \<longleftrightarrow> cidr_text c (pk_dst pk) \<and> opts_match inset pk r"
  by (simp_all add: opt_match_def dir_addr_def)

lemma opts_match_if: "opts_match inset pk ((if b then xs else []) @ r) = (if b then opts_match inset pk (xs @ r) else opts_match inset pk r)"
  by simp

lemmas opts_match_rules = opts_match_if opts_match_blocks


section \<open>The selectors of a binding\<close>

lemma selector_match_append:
  "opts_match inset pk (selector_match tool b (i, a, p) @ r) \<longleftrightarrow>
     (rb_HasSource b \<longrightarrow> inset (by_family tool (rb_SourceSetV4 b) (rb_SourceSetV6 b)) (pk_src pk)) \<and>
     (rb_HasDestination b \<longrightarrow> inset (by_family tool (rb_DestinationSetV4 b) (rb_DestinationSetV6 b)) (pk_dst pk)) \<and>
     (i \<noteq> [] \<longrightarrow> pk_iface pk = i) \<and> (a \<noteq> [] \<longrightarrow> pk_mac pk = a) \<and>
     (Protocol p \<noteq> [] \<longrightarrow> pk_proto pk = Protocol p \<and> port_text (formatPortRange p) (pk_dport pk)) \<and>
     opts_match inset pk r"
proof -
  have s: "selector_match tool b (i, a, p) =
     (if rb_HasSource b then [''-m'', ''set'', ''--match-set'', by_family tool (rb_SourceSetV4 b) (rb_SourceSetV6 b), ''src''] else []) @
     (if rb_HasDestination b then [''-m'', ''set'', ''--match-set'', by_family tool (rb_DestinationSetV4 b) (rb_DestinationSetV6 b), ''dst''] else []) @
     (if i \<noteq> [] then [''-i'', i] else []) @
     (if a \<noteq> [] then [''-m'', ''mac'', ''--mac-source'', a] else []) @
     (if Protocol p \<noteq> [] then [''-p'', Protocol p, ''--dport'', formatPortRange p] else [])"
    by (simp add: selector_match_def baseMarkRuleArgs_def)
  show ?thesis unfolding s append_assoc opts_match_rules by simp
qed

lemma selector_match_conj:
  "opts_match inset pk (selector_match tool b s @ r) \<longleftrightarrow> opts_match inset pk (selector_match tool b s) \<and> opts_match inset pk r"
proof -
  obtain i a p where s: "s = (i, a, p)" by (cases s)
  show ?thesis
    unfolding s using selector_match_append [of inset pk tool b i a p r] selector_match_append [of inset pk tool b i a p "[]"]
    by (metis append_Nil2 opts_match.simps(1))
qed



section \<open>Normalised rules\<close>

lemma ifaceNamePattern_fixed: "ifaceNamePattern i \<Longrightarrow> i \<noteq> [] \<and> ToLower (TrimSpace i) = i"
proof -
  assume i: "ifaceNamePattern i"
  then have c: "list_all iface_char i" "i \<noteq> []"
    by (auto simp: ifaceNamePattern_def iface_char_def list_all_iff split: list.splits)
  have "\<not> is_space x" "lower_char x = x" if "iface_char x" for x
    using that by (auto simp: iface_char_def is_space_def is_digit_def is_lower_def is_upper_def lower_char_def)
  then have "list_all (\<lambda>x. \<not> is_space x) i" "ToLower i = i"
    using c by (auto simp: list_all_iff ToLower_def intro: map_idI)
  then show ?thesis using c by (simp add: TrimSpace_id no_space_trimmed)
qed

lemma makeSelectorSet_fixed: "list_all ifaceNamePattern is \<Longrightarrow> set (makeSelectorSet is) = set is"
  using ifaceNamePattern_fixed by (force simp: makeSelectorSet_def list_all_iff)

lemma canon_mac_key: "canon_mac e = Inr (Some m) \<Longrightarrow> m \<noteq> [] \<and> mac_key m = m"
proof -
  assume "canon_mac e = Inr (Some m)"
  then obtain hw where hw: "ParseMAC (TrimSpace e) = Some hw" "length hw = 6" "m = ToLower (mac_String hw)"
    by (auto simp: canon_mac_def Let_def split: if_splits option.splits)
  then have ok: "bytes_ok 6 hw" using ParseMAC_ok by (simp add: bytes_ok_def)
  note mac = ParseMAC_String [OF ok]
  have m: "m = mac_String hw" using hw(3) mac(2) by simp
  have "\<not> is_space c \<and> c \<noteq> CHR ''#''" if "hex_digit c \<or> c = CHR '':''" for c
    using that by (auto simp: hex_digit_def is_space_def is_digit_def lower_char_def is_upper_def split: if_splits)
  then have "list_all (\<lambda>c. \<not> is_space c) m" "CHR ''#'' \<notin> set m" using mac(3) by (auto simp: m list_all_iff)
  then have "TrimSpace m = m" by (simp add: TrimSpace_id no_space_trimmed)
  with mac \<open>CHR ''#'' \<notin> set m\<close> show ?thesis by (simp add: mac_key_def normalizeMAC_def Let_def m)
qed

lemma set_makeMACSet: "set (makeMACSet ms) = mac_key ` set ms - {[]}"
  by (auto simp: makeMACSet_def)

lemma normalized_rule:
  assumes "normalizeRule raw idx = Inr rule"
  shows "set (makeSelectorSet (SourceInterfaces rule)) = set (SourceInterfaces rule)" "[] \<notin> set (SourceInterfaces rule)"
    "set (makeMACSet (SourceMACs rule)) = set (SourceMACs rule)" "[] \<notin> set (SourceMACs rule)"
    "list_all port_ok (DestinationPorts rule)" "list_all port_ok (ExcludedDestinationPorts rule)"
proof -
  have ok: "list_all ifaceNamePattern (SourceInterfaces rule)" "list_all port_ok (DestinationPorts rule)"
    "list_all port_ok (ExcludedDestinationPorts rule)"
    using normalizeRule_ok [OF assms] unfolding rule_ok_def by blast+
  show "list_all port_ok (DestinationPorts rule)" "list_all port_ok (ExcludedDestinationPorts rule)" by (rule ok)+
  show "set (makeSelectorSet (SourceInterfaces rule)) = set (SourceInterfaces rule)" by (rule makeSelectorSet_fixed [OF ok(1)])
  show "[] \<notin> set (SourceInterfaces rule)" using ok(1) ifaceNamePattern_fixed by (auto simp: list_all_iff)
  have loop: "norm_loop canon_mac [] (selectorValuesFromRaw (raw_SourceMACs (rule_raw raw))) = Inr (SourceMACs rule)"
    using assms by (simp add: normalizeRule_iff selectors_from_def normalizeMACs_def)
  have mac: "m \<noteq> [] \<and> mac_key m = m" if m: "m \<in> set (SourceMACs rule)" for m
  proof -
    obtain e where "canon_mac e = Inr (Some m)" using m norm_loop_props(1) [OF loop] by auto
    then show ?thesis by (rule canon_mac_key)
  qed
  then have "mac_key ` set (SourceMACs rule) = set (SourceMACs rule)" by (metis image_cong image_ident)
  with mac show "set (makeMACSet (SourceMACs rule)) = set (SourceMACs rule)" "[] \<notin> set (SourceMACs rule)"
    by (auto simp: set_makeMACSet)
qed


section \<open>Ports\<close>

lemma port_text_format:
  assumes "1 \<le> Start p" "Start p \<le> End p" "End p \<le> 65535"
  shows "port_text (formatPortRange p) n \<longleftrightarrow> Start p \<le> n \<and> n \<le> End p"
proof -
  have "CHR '':'' \<notin> set (Itoa i)" if "0 \<le> i" for i
    using Itoa_nonneg_digits [OF that] digit_not_sep(1) by (auto simp: all_digits_def list_all_iff)
  then have nc: "CHR '':'' \<notin> set (Itoa (Start p))" "CHR '':'' \<notin> set (Itoa (End p))" using assms by auto
  have a: "Atoi (Itoa (Start p)) = Some (Start p)" "Atoi (Itoa (End p)) = Some (End p)"
    by (rule Atoi_Itoa, use assms in \<open>simp add: int64_range_def\<close>)+
  show ?thesis
  proof (cases "End p = Start p")
    case True
    have "Split (Itoa (Start p)) (CHR '':'') = [Itoa (Start p)]" using Split_Join [of "CHR '':''" "[Itoa (Start p)]"] nc by simp
    then show ?thesis using True a by (auto simp: port_text_def formatPortRange_def)
  next
    case False
    have "Split (Itoa (Start p) @ '':'' @ Itoa (End p)) (CHR '':'') = [Itoa (Start p), Itoa (End p)]"
      using Split_Join [of "CHR '':''" "[Itoa (Start p), Itoa (End p)]"] nc by simp
    then show ?thesis using False a assms by (simp add: port_text_def formatPortRange_def)
  qed
qed

definition port_selected :: "packet \<Rightarrow> port_range \<Rightarrow> bool" where
  "port_selected pk p \<longleftrightarrow> pk_proto pk = Protocol p \<and> port_text (formatPortRange p) (pk_dport pk)"

lemma expanded_ports:
  assumes "list_all port_ok ports" "ports \<noteq> []" "pk_proto pk \<in> {''tcp'', ''udp''}" "0 < pk_dport pk"
  shows "(\<exists>p \<in> set (expandPortSelectors ports). port_selected pk p) \<longleftrightarrow> matchDestinationPort ports (pk_proto pk) (pk_dport pk)"
    and "p \<in> set (expandPortSelectors ports) \<Longrightarrow> Protocol p \<in> {''tcp'', ''udp''}"
proof -
  have lits: "ToLower (TrimSpace ''tcp'') = ''tcp''" "ToLower (TrimSpace ''udp'') = ''udp''" "ToLower (TrimSpace ''both'') = ''both''"
    "EqualFold ''tcp'' ''both'' = False" "EqualFold ''udp'' ''both'' = False" "EqualFold ''both'' ''both'' = True" by code_simp+
  have t: "ToLower (TrimSpace (pk_proto pk)) = pk_proto pk" using assms(3) lits by auto
  let ?ex = "\<lambda>q. if EqualFold (Protocol q) ''both'' then [\<lparr>Protocol = ''tcp'', Start = Start q, End = End q\<rparr>,
      \<lparr>Protocol = ''udp'', Start = Start q, End = End q\<rparr>] else [q]"
  have one: "(\<exists>p \<in> set (?ex q). port_selected pk p) \<longleftrightarrow> port_range_hits (pk_proto pk) (pk_dport pk) q" if "port_ok q" for q
  proof -
    have b: "1 \<le> Start q" "Start q \<le> End q" "End q \<le> 65535" using that by (auto simp: port_ok_def)
    have f: "formatPortRange \<lparr>Protocol = pr, Start = Start q, End = End q\<rparr> = formatPortRange q" for pr
      by (simp add: formatPortRange_def)
    have "Protocol q = ''tcp'' \<or> Protocol q = ''udp'' \<or> Protocol q = ''both''" using that by (simp add: port_ok_def port_protocol_def)
    then show ?thesis
      using assms(3) b port_text_format [OF b, of "pk_dport pk"] by (elim disjE) (auto simp: port_selected_def f lits port_range_hits_def Let_def)
  qed
  have e: "set (expandPortSelectors ports) = (\<Union>q \<in> set ports. set (?ex q))"
    unfolding expandPortSelectors_def using assms(2) by (simp only: if_False set_concat set_map image_image)
  show "(\<exists>p \<in> set (expandPortSelectors ports). port_selected pk p) \<longleftrightarrow> matchDestinationPort ports (pk_proto pk) (pk_dport pk)"
    using one assms(1,4) unfolding e matchDestinationPort_def t list_ex_iff list_all_iff by blast
  show "p \<in> set (expandPortSelectors ports) \<Longrightarrow> Protocol p \<in> {''tcp'', ''udp''}"
  proof -
    assume "p \<in> set (expandPortSelectors ports)"
    then obtain q where q: "q \<in> set ports" "p \<in> set (?ex q)" unfolding e by blast
    have "Protocol q = ''tcp'' \<or> Protocol q = ''udp'' \<or> Protocol q = ''both''"
      using assms(1) q(1) by (auto simp: list_all_iff port_ok_def port_protocol_def)
    then show ?thesis using q(2) by (elim disjE) (auto simp: lits)
  qed
qed


section \<open>Sets\<close>

definition same_family :: "string \<Rightarrow> addr \<Rightarrow> bool" where
  "same_family tool a = (case a of Addr4 _ \<Rightarrow> tool = ''iptables'' | Addr6 _ \<Rightarrow> tool = ''ip6tables'')"

text \<open>The two sets of a rule: not both empty, and each with entries of its family only, as the kernel keeps them.\<close>

definition family_member :: "bool \<Rightarrow> string \<Rightarrow> bool" where
  "family_member v6 m = (case parsePrefix m of None \<Rightarrow> True | Some p \<Rightarrow> (case fst p of Addr4 _ \<Rightarrow> \<not> v6 | Addr6 _ \<Rightarrow> v6))"

definition live_sets :: "ipset_snapshots \<Rightarrow> string \<Rightarrow> string \<Rightarrow> bool" where
  "live_sets snaps s4 s6 \<longleftrightarrow>
     Members (snapshot_of snaps s4) @ Members (snapshot_of snaps s6) \<noteq> [] \<and>
     list_all (family_member False) (Members (snapshot_of snaps s4)) \<and>
     list_all (family_member True) (Members (snapshot_of snaps s6))"

lemma other_family:
  "family_member False m \<Longrightarrow> \<not> cidr_text m (Addr6 bs)" "family_member True m \<Longrightarrow> \<not> cidr_text m (Addr4 bs)"
  by (auto simp: family_member_def cidr_text_def prefix_Contains_def split: option.splits addr.splits)

lemma kernel_set_candidates:
  assumes "live_sets snaps s4 s6" "same_family tool a" "tool \<in> {''iptables'', ''ip6tables''}"
  shows "prefixContains (parsePrefixList (candidates snaps s4 s6 fallback)) a \<longleftrightarrow> kernel_set snaps (by_family tool s4 s6) a"
proof -
  let ?m4 = "Members (snapshot_of snaps s4)" and ?m6 = "Members (snapshot_of snaps s6)"
  have c: "candidates snaps s4 s6 fallback = ?m4 @ ?m6" using assms(1) by (auto simp: candidates_def live_sets_def Let_def)
  have txt0: "cidr_text m a \<longleftrightarrow> (\<exists>p. parsePrefix m = Some p \<and> prefix_Contains p a)" for m
    by (auto simp: cidr_text_def split: option.splits)
  have mem: "\<And>m. m \<in> set ?m4 \<Longrightarrow> family_member False m" "\<And>m. m \<in> set ?m6 \<Longrightarrow> family_member True m"
    using assms(1) by (auto simp: live_sets_def list_all_iff)
  have other4: "\<not> cidr_text m a" if "m \<in> set ?m4" "tool = ''ip6tables''" for m
    using other_family(1) [OF mem(1) [OF that(1)]] assms(2) that(2) by (cases a) (auto simp: same_family_def)
  have other6: "\<not> cidr_text m a" if "m \<in> set ?m6" "tool = ''iptables''" for m
    using other_family(2) [OF mem(2) [OF that(1)]] assms(2) that(2) by (cases a) (auto simp: same_family_def)
  show ?thesis
    using assms(3) other4 other6 unfolding prefixContains_list c kernel_set_def list_ex_iff txt0 [symmetric] by_family_def by auto
qed

lemma multicast_text:
  assumes "addr_ok a" "same_family tool a"
  shows "cidr_text (by_family tool ''224.0.0.0/4'' ''ff00::/8'') a \<longleftrightarrow> isMulticastAddress a"
proof -
  have p: "parsePrefix ''224.0.0.0/4'' = Some (Addr4 [224, 0, 0, 0], 4)"
    "parsePrefix ''ff00::/8'' = Some (Addr6 (255 # replicate 15 0), 8)" by code_simp+
  have zero: "list_all (\<lambda>b. b < 256) bs \<Longrightarrow> mask_bytes 0 bs = replicate (length bs) 0" for bs
    by (induction bs) (auto simp: mask_byte_def)
  have z15: "mask_bytes 0 (replicate 15 0) = replicate 15 0" by (subst zero) (auto simp: list_all_iff)
  show ?thesis
  proof (cases a)
    case (Addr4 bs)
    then obtain b0 b1 b2 b3 where bs: "bs = [b0, b1, b2, b3]" "b0 < 256" "b1 < 256" "b2 < 256" "b3 < 256"
      using assms(1) by (auto simp: addr_ok_def bytes_ok_def numeral_eq_Suc length_Suc_conv)
    have m: "mask_bytes 4 [b0, b1, b2, b3] = [b0 div 16 * 16, 0, 0, 0]" "mask_bytes 4 [224, 0, 0, 0] = [224, 0, 0, 0]"
      using bs by (simp_all add: mask_byte_def)
    have "tool = ''iptables''" using assms(2) by (simp add: Addr4 same_family_def)
    then have "cidr_text (by_family tool ''224.0.0.0/4'' ''ff00::/8'') a \<longleftrightarrow> 224 = b0 div 16 * 16"
      by (simp add: Addr4 bs(1) cidr_text_def by_family_def p prefix_Contains_def m del: mask_bytes.simps)
    also have "\<dots> \<longleftrightarrow> b0 div 16 = 14" by auto
    finally show ?thesis by (simp add: Addr4 bs(1) isMulticastAddress_def)
  next
    case (Addr6 bs)
    then obtain b0 cs where bs: "bs = b0 # cs" "length cs = 15" "list_all (\<lambda>b. b < 256) cs"
      using assms(1) by (cases bs) (auto simp: addr_ok_def bytes_ok_def)
    have m: "mask_bytes 8 (b0 # cs) = b0 # replicate 15 0" "mask_bytes 8 (255 # replicate 15 0) = 255 # replicate 15 0"
      using zero [OF bs(3)] z15 bs(2) by (simp_all add: mask_byte_def)
    have "tool = ''ip6tables''" using assms(2) by (simp add: Addr6 same_family_def)
    then have "cidr_text (by_family tool ''224.0.0.0/4'' ''ff00::/8'') a \<longleftrightarrow> 255 = b0"
      unfolding cidr_text_def by_family_def Addr6 bs(1) by (simp add: p prefix_Contains_def m del: mask_bytes.simps)
    then show ?thesis by (auto simp: Addr6 bs(1) isMulticastAddress_def)
  qed
qed

lemma expandSelector_ex:
  assumes "[] \<notin> set vals"
  shows "(\<exists>v \<in> set (expandSelectorValues vals). v \<noteq> [] \<longrightarrow> x = v) \<longleftrightarrow> vals = [] \<or> x \<in> set vals"
  using assms by (auto simp: expandSelectorValues_def)

lemma selector_misses_iff: "set sel = set vals \<Longrightarrow> [] \<notin> set vals \<Longrightarrow> selector_misses sel x \<longleftrightarrow> \<not> (vals = [] \<or> x \<in> set vals)"
  unfolding selector_misses_def by (metis set_empty)


section \<open>Agreement\<close>

definition packet_of :: "flow_view \<Rightarrow> packet" where
  "packet_of f = \<lparr>pk_src = fv_source f, pk_dst = fv_destination f, pk_mac = fv_mac f, pk_iface = fv_iface f,
     pk_proto = flow_Protocol (fv_flow f), pk_dport = flow_DestinationPort (fv_flow f)\<rparr>"

text \<open>The flow as conntrack reports it: TCP or UDP, a port, and addresses of the family of the tool.\<close>

definition flow_ok :: "string \<Rightarrow> flow_view \<Rightarrow> bool" where
  "flow_ok tool f \<longleftrightarrow> tool \<in> {''iptables'', ''ip6tables''} \<and> flow_Protocol (fv_flow f) \<in> {''tcp'', ''udp''} \<and>
     0 < flow_DestinationPort (fv_flow f) \<and> addr_ok (fv_destination f) \<and>
     same_family tool (fv_source f) \<and> same_family tool (fv_destination f)"

definition rule_sets_live :: "ipset_snapshots \<Rightarrow> rule_set_pair \<Rightarrow> routing_rule \<Rightarrow> bool" where
  "rule_sets_live snaps p rule \<longleftrightarrow>
     (SourceCIDRs rule \<noteq> [] \<longrightarrow> live_sets snaps (SourceV4 p) (SourceV6 p)) \<and>
     (ExcludedSourceCIDRs rule \<noteq> [] \<longrightarrow> live_sets snaps (ExcludedSourceV4 p) (ExcludedSourceV6 p)) \<and>
     (ruleNeedsDestinationSet rule \<longrightarrow> live_sets snaps (DestinationV4 p) (DestinationV6 p)) \<and>
     (ruleNeedsExcludedDestinationSet rule \<longrightarrow> live_sets snaps (ExcludedDestinationV4 p) (ExcludedDestinationV6 p))"

lemma selectors_agree:
  assumes "normalizeRule raw idx = Inr rule" "flow_ok tool f" "rule_sets_live snaps (RuleSetNames g i) rule" "group_Name grp = g"
  shows "(\<exists>s \<in> set (selector_combinations (binding_of grp rule i profile)).
      opts_match (kernel_set snaps) (packet_of f) (selector_match tool (binding_of grp rule i profile) s)) \<longleftrightarrow>
    (let c = compile_rule snaps resolved prewarmed g (i, rule) in
     (RequiresSourcePrefix c \<longrightarrow> prefixContains (SourcePrefixes c) (fv_source f)) \<and>
     \<not> selector_misses (c_SourceInterfaces c) (fv_iface f) \<and> \<not> selector_misses (c_SourceMACs c) (fv_mac f) \<and>
     (RequiresDestinationPrefix c \<longrightarrow> prefixContains (DestinationPrefixes c) (fv_destination f)) \<and>
     (c_DestinationPorts c \<noteq> [] \<longrightarrow>
        matchDestinationPort (c_DestinationPorts c) (flow_Protocol (fv_flow f)) (flow_DestinationPort (fv_flow f))))"
proof -
  let ?b = "binding_of grp rule i profile" and ?pk = "packet_of f" and ?p = "RuleSetNames g i"
  note n = normalized_rule [OF assms(1)]
  have sel: "opts_match (kernel_set snaps) ?pk (selector_match tool ?b (x, a, q)) \<longleftrightarrow>
     (rb_HasSource ?b \<longrightarrow> kernel_set snaps (by_family tool (rb_SourceSetV4 ?b) (rb_SourceSetV6 ?b)) (pk_src ?pk)) \<and>
     (rb_HasDestination ?b \<longrightarrow> kernel_set snaps (by_family tool (rb_DestinationSetV4 ?b) (rb_DestinationSetV6 ?b)) (pk_dst ?pk)) \<and>
     (x \<noteq> [] \<longrightarrow> pk_iface ?pk = x) \<and> (a \<noteq> [] \<longrightarrow> pk_mac ?pk = a) \<and> (Protocol q \<noteq> [] \<longrightarrow> port_selected ?pk q)" for x a q
    using selector_match_append [of "kernel_set snaps" ?pk tool ?b x a q "[]"] by (simp add: port_selected_def)
  have port: "(\<exists>q \<in> set (expandPortSelectors (DestinationPorts rule)). Protocol q \<noteq> [] \<longrightarrow> port_selected ?pk q) \<longleftrightarrow>
      (DestinationPorts rule \<noteq> [] \<longrightarrow> matchDestinationPort (DestinationPorts rule) (pk_proto ?pk) (pk_dport ?pk))"
  proof (cases "DestinationPorts rule = []")
    case True
    then show ?thesis by (simp add: expandPortSelectors_def no_port_def)
  next
    case False
    have f: "pk_proto ?pk \<in> {''tcp'', ''udp''}" "0 < pk_dport ?pk" using assms(2) by (auto simp: flow_ok_def packet_of_def)
    have "Protocol q \<noteq> []" if "q \<in> set (expandPortSelectors (DestinationPorts rule))" for q
      using expanded_ports(2) [OF n(5) False f that] by auto
    then show ?thesis using expanded_ports(1) [OF n(5) False f] False by blast
  qed
  have sets: "SourceCIDRs rule \<noteq> [] \<Longrightarrow> kernel_set snaps (by_family tool (SourceV4 ?p) (SourceV6 ?p)) (fv_source f) \<longleftrightarrow>
      prefixContains (parsePrefixList (candidates snaps (SourceV4 ?p) (SourceV6 ?p) (SourceCIDRs rule))) (fv_source f)"
    "ruleNeedsDestinationSet rule \<Longrightarrow> kernel_set snaps (by_family tool (DestinationV4 ?p) (DestinationV6 ?p)) (fv_destination f) \<longleftrightarrow>
      prefixContains (parsePrefixList (candidates snaps (DestinationV4 ?p) (DestinationV6 ?p) (destinationRawMembers rule ?p resolved prewarmed)))
        (fv_destination f)"
    using assms(2,3) by (auto simp: kernel_set_candidates rule_sets_live_def flow_ok_def)
  have ex3: "(\<exists>s \<in> set (selector_combinations ?b). P s) \<longleftrightarrow> (\<exists>x \<in> set (expandSelectorValues (SourceInterfaces rule)).
      \<exists>a \<in> set (expandSelectorValues (SourceMACs rule)). \<exists>q \<in> set (expandPortSelectors (DestinationPorts rule)). P (x, a, q))" for P
    by (auto simp: selector_combinations_def binding_of_def Let_def)
  have split: "(\<exists>x \<in> X. \<exists>a \<in> A. \<exists>q \<in> Q. S \<and> D \<and> F x \<and> G a \<and> H q) \<longleftrightarrow> S \<and> D \<and> (\<exists>x \<in> X. F x) \<and> (\<exists>a \<in> A. G a) \<and> (\<exists>q \<in> Q. H q)"
    for X A Q S D F G H by blast
  have fields: "rb_HasSource ?b \<longleftrightarrow> SourceCIDRs rule \<noteq> []" "rb_HasDestination ?b \<longleftrightarrow> ruleNeedsDestinationSet rule"
    "rb_SourceSetV4 ?b = SourceV4 ?p" "rb_SourceSetV6 ?b = SourceV6 ?p" "rb_DestinationSetV4 ?b = DestinationV4 ?p"
    "rb_DestinationSetV6 ?b = DestinationV6 ?p"
    by (simp_all add: binding_of_def Let_def assms(4))
  have pk: "pk_src ?pk = fv_source f" "pk_dst ?pk = fv_destination f" "pk_iface ?pk = fv_iface f" "pk_mac ?pk = fv_mac f"
    "pk_proto ?pk = flow_Protocol (fv_flow f)" "pk_dport ?pk = flow_DestinationPort (fv_flow f)"
    by (simp_all add: packet_of_def)
  show ?thesis
    unfolding ex3 sel split fields pk port expandSelector_ex [OF n(2)] expandSelector_ex [OF n(4)]
    using sets selector_misses_iff [OF n(1,2)] selector_misses_iff [OF n(3,4)]
    by (simp add: compile_rule_def Let_def ruleNeedsDestinationSet_def) argo
qed

lemma exclusions_agree:
  assumes "normalizeRule raw idx = Inr rule" "flow_ok tool f" "rule_sets_live snaps (RuleSetNames g i) rule" "group_Name grp = g"
  shows "(\<exists>ex \<in> set (exclusion_args tool (binding_of grp rule i profile) no_port). opts_match (kernel_set snaps) (packet_of f) ex) \<longleftrightarrow>
    (let c = compile_rule snaps resolved prewarmed g (i, rule) in
     (c_ExcludeMulticast c \<and> isMulticastAddress (fv_destination f)) \<or>
     (RequiresExcludedSourcePrefix c \<and> prefixContains (ExcludedSourcePrefixes c) (fv_source f)) \<or>
     (RequiresExcludedDestinationPrefix c \<and> prefixContains (ExcludedDestinationPrefixes c) (fv_destination f)) \<or>
     (c_ExcludedDestinationPorts c \<noteq> [] \<and>
        matchDestinationPort (c_ExcludedDestinationPorts c) (flow_Protocol (fv_flow f)) (flow_DestinationPort (fv_flow f))))"
proof -
  let ?b = "binding_of grp rule i profile" and ?pk = "packet_of f" and ?p = "RuleSetNames g i"
  note n = normalized_rule [OF assms(1)]
  have f: "pk_proto ?pk \<in> {''tcp'', ''udp''}" "0 < pk_dport ?pk" using assms(2) by (auto simp: flow_ok_def packet_of_def)
  have sets: "ExcludedSourceCIDRs rule \<noteq> [] \<Longrightarrow> kernel_set snaps (by_family tool (ExcludedSourceV4 ?p) (ExcludedSourceV6 ?p)) (fv_source f) \<longleftrightarrow>
      prefixContains (parsePrefixList (candidates snaps (ExcludedSourceV4 ?p) (ExcludedSourceV6 ?p) (ExcludedSourceCIDRs rule))) (fv_source f)"
    "ruleNeedsExcludedDestinationSet rule \<Longrightarrow>
      kernel_set snaps (by_family tool (ExcludedDestinationV4 ?p) (ExcludedDestinationV6 ?p)) (fv_destination f) \<longleftrightarrow>
      prefixContains (parsePrefixList (candidates snaps (ExcludedDestinationV4 ?p) (ExcludedDestinationV6 ?p)
        (destinationExcludedRawMembers rule resolved))) (fv_destination f)"
    using assms(2,3) by (auto simp: kernel_set_candidates rule_sets_live_def flow_ok_def)
  let ?E = "expandPortSelectors (ExcludedDestinationPorts rule)"
  let ?arg = "\<lambda>q. [''-p'', Protocol q, ''--dport'', formatPortRange q]"
  have port: "(\<exists>q \<in> set (filter (portsOverlapForExclusion no_port) ?E). opts_match (kernel_set snaps) ?pk (?arg q)) \<longleftrightarrow>
      ExcludedDestinationPorts rule \<noteq> [] \<and> matchDestinationPort (ExcludedDestinationPorts rule) (pk_proto ?pk) (pk_dport ?pk)"
  proof (cases "ExcludedDestinationPorts rule = []")
    case True
    have "\<not> portsOverlapForExclusion no_port no_port" by code_simp
    with True show ?thesis by (simp add: expandPortSelectors_def)
  next
    case False
    have ov: "portsOverlapForExclusion no_port q" if "q \<in> set ?E" for q
    proof -
      have "TrimSpace ''tcp'' = ''tcp''" "TrimSpace ''udp'' = ''udp''" by code_simp+
      then show ?thesis
        using expanded_ports(2) [OF n(6) False f that] by (auto simp: portsOverlapForExclusion_def no_port_def Let_def)
    qed
    have m: "opts_match (kernel_set snaps) ?pk (?arg q) \<longleftrightarrow> port_selected ?pk q" for q
      using opts_match_blocks(5) [of _ _ _ _ "[]"] by (simp add: port_selected_def)
    have "(\<exists>q \<in> set (filter (portsOverlapForExclusion no_port) ?E). opts_match (kernel_set snaps) ?pk (?arg q)) \<longleftrightarrow>
        (\<exists>q \<in> set ?E. port_selected ?pk q)"
      using ov m by auto
    then show ?thesis using expanded_ports(1) [OF n(6) False f] False by simp
  qed
  have args: "exclusion_args tool ?b no_port =
     (if RuleExcludeMulticastEnabled rule then [[''-d'', by_family tool ''224.0.0.0/4'' ''ff00::/8'']] else []) @
     (if ExcludedSourceCIDRs rule \<noteq> []
      then [[''-m'', ''set'', ''--match-set'', by_family tool (ExcludedSourceV4 ?p) (ExcludedSourceV6 ?p), ''src'']] else []) @
     (if ruleNeedsExcludedDestinationSet rule
      then [[''-m'', ''set'', ''--match-set'', by_family tool (ExcludedDestinationV4 ?p) (ExcludedDestinationV6 ?p), ''dst'']] else []) @
     map ?arg (filter (portsOverlapForExclusion no_port) ?E)"
    by (simp add: exclusion_args_def binding_of_def Let_def no_port_def assms(4))
  have one: "opts_match (kernel_set snaps) ?pk [''-d'', c] \<longleftrightarrow> cidr_text c (fv_destination f)"
    "opts_match (kernel_set snaps) ?pk [''-m'', ''set'', ''--match-set'', k, ''src''] \<longleftrightarrow> kernel_set snaps k (fv_source f)"
    "opts_match (kernel_set snaps) ?pk [''-m'', ''set'', ''--match-set'', k, ''dst''] \<longleftrightarrow> kernel_set snaps k (fv_destination f)" for c k
    using opts_match_blocks(6) [of _ ?pk c "[]"] opts_match_blocks(1,2) [of _ ?pk k "[]"] by (simp_all add: packet_of_def)
  have multi: "cidr_text (by_family tool ''224.0.0.0/4'' ''ff00::/8'') (fv_destination f) \<longleftrightarrow> isMulticastAddress (fv_destination f)"
    by (rule multicast_text) (use assms(2) in \<open>auto simp: flow_ok_def\<close>)
  have ex_append: "(\<exists>ex \<in> set ((if b1 then [x1] else []) @ (if b2 then [x2] else []) @ (if b3 then [x3] else []) @ map ?arg qs).
        opts_match (kernel_set snaps) ?pk ex) \<longleftrightarrow>
      b1 \<and> opts_match (kernel_set snaps) ?pk x1 \<or> b2 \<and> opts_match (kernel_set snaps) ?pk x2 \<or>
      b3 \<and> opts_match (kernel_set snaps) ?pk x3 \<or> (\<exists>q \<in> set qs. opts_match (kernel_set snaps) ?pk (?arg q))" for b1 b2 b3 x1 x2 x3 qs
    by (auto simp del: opts_match.simps)
  show ?thesis
    unfolding args ex_append one multi port
    using sets by (simp add: compile_rule_def Let_def ruleNeedsExcludedDestinationSet_def packet_of_def) argo
qed


section \<open>Property\<close>


text \<open>The rule routes what enters through \<^verbatim>\<open>br0\<close> to 1.0.0.0/8, port 443.\<close>

definition web_rule_raw :: routing_rule where
  "web_rule_raw = empty_rule\<lparr>SourceInterfaces := [''br0''], DestinationCIDRs := [''1.0.0.0/8''],
     DestinationPorts := [\<lparr>Protocol = ''tcp'', Start = 443, End = 443\<rparr>]\<rparr>"

definition web_group :: domain_group where
  "web_group = \<lparr>group_ID = 1, group_Name = ''tv'', EgressVPN = ''nl'', Rules = [], group_Domains = [], CreatedAt = 0, UpdatedAt = 0\<rparr>"

definition web_profile :: vpn_profile where
  "web_profile = \<lparr>vp_Name = ''nl'', vp_RouteTable = 201, vp_FWMark = 201, vp_InterfaceName = ''wg0'', vp_MSSClampV4 = [], vp_MSSClampV6 = []\<rparr>"

definition web_sets :: ipset_snapshots where
  "web_sets = [(''svpn_tv_r1d4'', \<lparr>Count = 1, Members = [''1.0.0.0/8'']\<rparr>)]"

definition web_view :: flow_view where
  "web_view = normalized_view sample_flow (Addr4 [10, 0, 0, 2]) (Addr4 [1, 1, 1, 1]) [] ''br0''"


end
