(* ===== verification/Flow_Session.thy ===== *)
theory Flow_Session
  imports Flow_Match
begin

text \<open>
  The inputs and the sessions of the flow inspector: parsing of \<^verbatim>\<open>conntrack -L\<close>
  (\<^verbatim>\<open>internal/server/flow_inspector_conntrack.go\<close>) and the per-session accounting of flows
  (\<^verbatim>\<open>flow_inspector.go\<close>). The regular expressions are matchers on strings: a class followed by its
  complement is matched greedily without backtracking. Byte counters are 64-bit words; times are
  nanoseconds. Floating point rates are a parameter: a record of the operations the code applies to them.
\<close>


section \<open>Parsing conntrack lines\<close>

definition parse_uint :: "nat \<Rightarrow> nat \<Rightarrow> string \<Rightarrow> nat option" where
  "parse_uint base bits s =
     (if s = [] then None else (case read_base base s of None \<Rightarrow> None | Some n \<Rightarrow> if n < 2 ^ bits then Some n else None))"

definition parseIntStrict :: "string \<Rightarrow> int option" where
  "parseIntStrict raw = (let t = TrimSpace raw in if t = [] then None else Atoi t)"

definition parseUintStrict :: "string \<Rightarrow> (64 word) option" where
  "parseUintStrict raw = (let t = TrimSpace raw in if t = [] then None else map_option word_of_nat (parse_uint 10 64 t))"

definition parseConntrackMark :: "string \<Rightarrow> (32 word) option" where
  "parseConntrackMark raw =
     (let t = TrimSpace (ToLower raw) in
      if t = [] then None
      else if HasPrefix t ''0x'' then map_option word_of_nat (parse_uint 16 32 (TrimPrefix t ''0x''))
      else map_option word_of_nat (parse_uint 10 32 t))"

text \<open>A literal, then the longest non-empty run of a class, then what follows.\<close>

definition after_literal :: "string \<Rightarrow> string \<Rightarrow> string option" where
  "after_literal lit s = (if HasPrefix s lit then Some (drop (length lit) s) else None)"

definition run_of :: "(char \<Rightarrow> bool) \<Rightarrow> string \<Rightarrow> (string \<times> string) option" where
  "run_of p s = (let w = takeWhile p s in if w = [] then None else Some (w, dropWhile p s))"

text \<open>The class \<^verbatim>\<open>\s\<close> of package regexp: tab, line feed, form feed, carriage return and blank.\<close>

definition re_space :: "char \<Rightarrow> bool" where
  "re_space c \<longleftrightarrow> c = CHR 0x09 \<or> c = CHR 0x0A \<or> c = CHR 0x0C \<or> c = CHR 0x0D \<or> c = CHR '' ''"

definition skip_spaces :: "string \<Rightarrow> string option" where
  "skip_spaces s = map_option snd (run_of re_space s)"

definition labelled :: "string \<Rightarrow> (char \<Rightarrow> bool) \<Rightarrow> string \<Rightarrow> (string \<times> string) option" where
  "labelled lit p s = Option.bind (after_literal lit s) (run_of p)"

definition next_labelled :: "string \<Rightarrow> (char \<Rightarrow> bool) \<Rightarrow> string \<Rightarrow> (string \<times> string) option" where
  "next_labelled lit p s = Option.bind (skip_spaces s) (labelled lit p)"

record conn_tuple =
  tup_src :: string
  tup_dst :: string
  tup_sport :: string
  tup_dport :: string
  tup_bytes :: string

definition match_tuple :: "string \<Rightarrow> (conn_tuple \<times> string) option" where
  "match_tuple s =
     Option.bind (labelled ''src='' (\<lambda>c. \<not> re_space c) s) (\<lambda>(src, s1).
     Option.bind (next_labelled ''dst='' (\<lambda>c. \<not> re_space c) s1) (\<lambda>(dst, s2).
     Option.bind (next_labelled ''sport='' is_digit s2) (\<lambda>(sport, s3).
     Option.bind (next_labelled ''dport='' is_digit s3) (\<lambda>(dport, s4).
       (case Option.bind (next_labelled ''packets='' is_digit s4) (\<lambda>(p, s5). next_labelled ''bytes='' is_digit s5) of
          Some (b, s6) \<Rightarrow> Some (\<lparr>tup_src = src, tup_dst = dst, tup_sport = sport, tup_dport = dport, tup_bytes = b\<rparr>, s6)
        | None \<Rightarrow> Some (\<lparr>tup_src = src, tup_dst = dst, tup_sport = sport, tup_dport = dport, tup_bytes = []\<rparr>, s4))))))"

text \<open>\<^verbatim>\<open>FindAllStringSubmatch\<close>: leftmost matches that do not overlap. A match consumes text, so the fuel of one step per byte is enough.\<close>

fun find_tuples :: "nat \<Rightarrow> string \<Rightarrow> conn_tuple list" where
  "find_tuples 0 s = []"
| "find_tuples (Suc n) [] = []"
| "find_tuples (Suc n) (c # s) =
     (case match_tuple (c # s) of Some (t, rest) \<Rightarrow> t # find_tuples n rest | None \<Rightarrow> find_tuples n s)"

definition conntrackTuples :: "string \<Rightarrow> conn_tuple list" where
  "conntrackTuples line = find_tuples (length line) line"

definition word_char :: "char \<Rightarrow> bool" where
  "word_char c \<longleftrightarrow> is_alnum c \<or> c = CHR ''_''"

definition mark_char :: "char \<Rightarrow> bool" where
  "mark_char c \<longleftrightarrow> hex_digit c \<or> c = CHR ''x''"

fun find_mark :: "bool \<Rightarrow> string \<Rightarrow> string option" where
  "find_mark inWord [] = None"
| "find_mark inWord (c # s) =
     (case (if inWord then None else labelled ''mark='' mark_char (c # s)) of
        Some (w, rest) \<Rightarrow> if rest = [] \<or> \<not> word_char (hd rest) then Some w else find_mark (word_char c) s
      | None \<Rightarrow> find_mark (word_char c) s)"

definition detectConntrackProtocol :: "string \<Rightarrow> string option" where
  "detectConntrackProtocol line =
     find (\<lambda>f. TrimSpace f = ''tcp'' \<or> TrimSpace f = ''udp'') (Fields (ToLower (TrimSpace line)))"

definition flowSampleKey :: "string \<Rightarrow> string \<Rightarrow> int \<Rightarrow> string \<Rightarrow> int \<Rightarrow> string" where
  "flowSampleKey protocol sourceIP sourcePort destinationIP destinationPort =
     ToLower (TrimSpace protocol) @ ''|'' @ TrimSpace sourceIP @ ''|'' @ Itoa sourcePort @ ''|'' @
     TrimSpace destinationIP @ ''|'' @ Itoa destinationPort"

definition tuple_bytes :: "conn_tuple \<Rightarrow> 64 word" where
  "tuple_bytes t = (case parseUintStrict (tup_bytes t) of None \<Rightarrow> 0 | Some n \<Rightarrow> n)"

definition parseConntrackLine :: "string \<Rightarrow> conntrack_flow option" where
  "parseConntrackLine rawLine =
     (let line = TrimSpace rawLine in
      if line = [] then None
      else (case (detectConntrackProtocol line, conntrackTuples line) of
              (Some protocol, t # ts) \<Rightarrow>
                (case (parseIntStrict (tup_sport t), parseIntStrict (tup_dport t)) of
                   (Some sport, Some dport) \<Rightarrow>
                     if sport \<le> 0 \<or> dport \<le> 0 then None
                     else Some \<lparr>flow_Key = flowSampleKey protocol (tup_src t) sport (tup_dst t) dport,
                            flow_Protocol = protocol, flow_SourceIP = tup_src t, flow_SourcePort = sport,
                            flow_DestinationIP = tup_dst t, flow_DestinationPort = dport,
                            flow_UploadBytes = tuple_bytes t,
                            flow_DownloadBytes = (case ts of [] \<Rightarrow> 0 | u # _ \<Rightarrow> tuple_bytes u),
                            flow_Mark = (case Option.bind (find_mark False line) parseConntrackMark of None \<Rightarrow> 0 | Some m \<Rightarrow> m)\<rparr>
                 | _ \<Rightarrow> None)
            | _ \<Rightarrow> None))"

fun add_flows :: "conntrack_flow list \<Rightarrow> string list \<Rightarrow> conntrack_flow list" where
  "add_flows out [] = out"
| "add_flows out (l # ls) =
     add_flows
       (case parseConntrackLine l of
          None \<Rightarrow> out
        | Some f \<Rightarrow> if flow_Key f \<in> set (map flow_Key out) then out else out @ [f]) ls"

definition parseConntrackSnapshot :: "string \<Rightarrow> conntrack_flow list" where
  "parseConntrackSnapshot raw = add_flows [] (Split raw (CHR 0x0A))"

definition Snapshot :: "string + string \<Rightarrow> string + conntrack_flow list" where
  "Snapshot out = (case out of Inl e \<Rightarrow> Inl e | Inr raw \<Rightarrow> Inr (parseConntrackSnapshot raw))"


section \<open>Sessions\<close>

definition flowInspectorPollIntervalSeconds :: int where
  "flowInspectorPollIntervalSeconds = 2"

definition second :: int where
  "second = 1000000000"

definition flowInspectorIdleRetention :: int where
  "flowInspectorIdleRetention = 10 * 60 * second"

definition flowInspectorSessionTTL :: int where
  "flowInspectorSessionTTL = 30 * 60 * second"

record 'f float_ops =
  fl_zero :: 'f
  fl_rate :: "64 word \<Rightarrow> int \<Rightarrow> 'f"
  fl_rank :: "'f \<Rightarrow> 'f \<Rightarrow> int"

record 'f flow_record =
  rec_sample :: flow_sample
  rec_LastSeen :: int
  rec_LastSampleAt :: int
  rec_LastUploadBytes :: "64 word"
  rec_LastDownloadBytes :: "64 word"
  rec_UploadBps :: 'f
  rec_DownloadBps :: 'f
  rec_UploadTotal :: "64 word"
  rec_DownloadTotal :: "64 word"

record 'f flow_session =
  ses_ID :: string
  ses_VPNName :: string
  ses_InterfaceName :: string
  ses_CreatedAt :: int
  ses_LastTouched :: int
  ses_TotalUpload :: "64 word"
  ses_TotalDownload :: "64 word"
  ses_FlowByKey :: "(string \<times> 'f flow_record) list"

type_synonym 'f inspector = "(string \<times> 'f flow_session) list"

datatype session_error = SessionNotFound | VPNMismatch | RandomFailed

definition monotonicDelta :: "64 word \<Rightarrow> 64 word \<Rightarrow> 64 word" where
  "monotonicDelta current previous = (if current \<ge> previous then current - previous else 0)"

definition cleanupExpiredSessionsLocked :: "int \<Rightarrow> 'f inspector \<Rightarrow> 'f inspector" where
  "cleanupExpiredSessionsLocked now sessions =
     filter (\<lambda>(sid, s). \<not> now - ses_LastTouched s > flowInspectorSessionTTL) sessions"

text \<open>The session identifier is 16 random bytes in hexadecimal; the random source may fail.\<close>

definition newFlowInspectorSessionID :: "nat list option \<Rightarrow> string option" where
  "newFlowInspectorSessionID random = map_option (\<lambda>bs. concat (map (\<lambda>b. pad_zero 2 (show_hex b)) bs)) random"

definition startSession ::
  "int \<Rightarrow> nat list option \<Rightarrow> string \<Rightarrow> string \<Rightarrow> 'f inspector \<Rightarrow> (session_error + string) \<times> 'f inspector" where
  "startSession now random vpnName interfaceName sessions =
     (let ss = cleanupExpiredSessionsLocked now sessions in
      case newFlowInspectorSessionID random of
        None \<Rightarrow> (Inl RandomFailed, ss)
      | Some sid \<Rightarrow>
          (Inr sid, AList.update sid \<lparr>ses_ID = sid, ses_VPNName = TrimSpace vpnName, ses_InterfaceName = TrimSpace interfaceName,
             ses_CreatedAt = now, ses_LastTouched = now, ses_TotalUpload = 0, ses_TotalDownload = 0, ses_FlowByKey = []\<rparr> ss))"

definition stopSession :: "string \<Rightarrow> string \<Rightarrow> 'f inspector \<Rightarrow> session_error option \<times> 'f inspector" where
  "stopSession vpnName sid sessions =
     (case map_of sessions sid of
        None \<Rightarrow> (Some SessionNotFound, sessions)
      | Some s \<Rightarrow> if ses_VPNName s \<noteq> TrimSpace vpnName then (Some VPNMismatch, sessions)
                  else (None, AList.delete sid sessions))"

definition new_record :: "'f float_ops \<Rightarrow> int \<Rightarrow> flow_sample \<Rightarrow> 'f flow_record" where
  "new_record fl now s = \<lparr>rec_sample = s, rec_LastSeen = now, rec_LastSampleAt = now, rec_LastUploadBytes = fs_UploadBytes s,
     rec_LastDownloadBytes = fs_DownloadBytes s, rec_UploadBps = fl_zero fl, rec_DownloadBps = fl_zero fl,
     rec_UploadTotal = 0, rec_DownloadTotal = 0\<rparr>"

definition update_record :: "'f float_ops \<Rightarrow> int \<Rightarrow> flow_sample \<Rightarrow> 'f flow_record \<Rightarrow> 'f flow_record" where
  "update_record fl now s r =
     (let e = now - rec_LastSampleAt r; elapsed = (if e \<le> 0 then flowInspectorPollIntervalSeconds * second else e);
          up = monotonicDelta (fs_UploadBytes s) (rec_LastUploadBytes r);
          down = monotonicDelta (fs_DownloadBytes s) (rec_LastDownloadBytes r)
      in \<lparr>rec_sample = s, rec_LastSeen = now, rec_LastSampleAt = now, rec_LastUploadBytes = fs_UploadBytes s,
          rec_LastDownloadBytes = fs_DownloadBytes s, rec_UploadBps = fl_rate fl (up * 8) elapsed,
          rec_DownloadBps = fl_rate fl (down * 8) elapsed, rec_UploadTotal = rec_UploadTotal r + up,
          rec_DownloadTotal = rec_DownloadTotal r + down\<rparr>)"

definition take_sample :: "'f float_ops \<Rightarrow> int \<Rightarrow> flow_sample \<Rightarrow> 'f flow_session \<times> string list \<Rightarrow> 'f flow_session \<times> string list" where
  "take_sample fl now s st =
     (case st of (ses, seen) \<Rightarrow>
       (let key = TrimSpace (fs_Key s) in
        if key = [] then (ses, seen)
        else (case map_of (ses_FlowByKey ses) key of
                None \<Rightarrow> (ses\<lparr>ses_FlowByKey := AList.update key (new_record fl now s) (ses_FlowByKey ses)\<rparr>, List.insert key seen)
              | Some r \<Rightarrow>
                  (ses\<lparr>ses_FlowByKey := AList.update key (update_record fl now s r) (ses_FlowByKey ses),
                       ses_TotalUpload := ses_TotalUpload ses + monotonicDelta (fs_UploadBytes s) (rec_LastUploadBytes r),
                       ses_TotalDownload := ses_TotalDownload ses + monotonicDelta (fs_DownloadBytes s) (rec_LastDownloadBytes r)\<rparr>,
                   List.insert key seen))))"

definition take_samples :: "'f float_ops \<Rightarrow> int \<Rightarrow> flow_sample list \<Rightarrow> 'f flow_session \<Rightarrow> 'f flow_session \<times> string list" where
  "take_samples fl now samples ses = foldl (\<lambda>st s. take_sample fl now s st) (ses, []) samples"

text \<open>Flows that were not sampled: dropped after the retention time, otherwise their rates are reset.\<close>

definition age_records :: "'f float_ops \<Rightarrow> int \<Rightarrow> string list \<Rightarrow> (string \<times> 'f flow_record) list \<Rightarrow> (string \<times> 'f flow_record) list" where
  "age_records fl now seen records =
     map (\<lambda>(k, r). (k, if k \<in> set seen then r else r\<lparr>rec_UploadBps := fl_zero fl, rec_DownloadBps := fl_zero fl\<rparr>))
       (filter (\<lambda>(k, r). k \<in> set seen \<or> \<not> now - rec_LastSeen r > flowInspectorIdleRetention) records)"

record 'f flow_snapshot =
  snap_SessionID :: string
  snap_VPNName :: string
  snap_InterfaceName :: string
  snap_GeneratedAt :: int
  snap_FlowCount :: nat
  snap_Totals :: "64 word \<times> 64 word \<times> 64 word"
  snap_Flows :: "(string \<times> 'f flow_record) list"

text \<open>The rows are sorted by the sum of the two rates, then by key.\<close>

definition sort_rows :: "'f float_ops \<Rightarrow> (string \<times> 'f flow_record) list \<Rightarrow> (string \<times> 'f flow_record) list" where
  "sort_rows fl rows = sort_key (\<lambda>(k, r). (- fl_rank fl (rec_UploadBps r) (rec_DownloadBps r), k)) rows"

definition updateAndSnapshot ::
  "'f float_ops \<Rightarrow> int \<Rightarrow> string \<Rightarrow> string \<Rightarrow> flow_sample list \<Rightarrow> 'f inspector \<Rightarrow> (session_error + 'f flow_snapshot) \<times> 'f inspector" where
  "updateAndSnapshot fl now vpnName sid samples sessions =
     (let ss = cleanupExpiredSessionsLocked now sessions in
      case map_of ss sid of
        None \<Rightarrow> (Inl SessionNotFound, ss)
      | Some ses0 \<Rightarrow>
          if ses_VPNName ses0 \<noteq> TrimSpace vpnName then (Inl VPNMismatch, ss)
          else (let (ses1, seen) = take_samples fl now samples (ses0\<lparr>ses_LastTouched := now\<rparr>);
                    ses = ses1\<lparr>ses_FlowByKey := age_records fl now seen (ses_FlowByKey ses1)\<rparr>
                in (Inr \<lparr>snap_SessionID = ses_ID ses, snap_VPNName = ses_VPNName ses, snap_InterfaceName = ses_InterfaceName ses,
                       snap_GeneratedAt = now, snap_FlowCount = length (ses_FlowByKey ses),
                       snap_Totals = (ses_TotalUpload ses, ses_TotalDownload ses, ses_TotalUpload ses + ses_TotalDownload ses),
                       snap_Flows = sort_rows fl (ses_FlowByKey ses)\<rparr>,
                    AList.update sid ses ss)))"


section \<open>What the conntrack reader guarantees\<close>

lemma labelled_run: "labelled lit p s = Some (w, rest) \<Longrightarrow> w \<noteq> [] \<and> list_all p w"
  by (auto simp: labelled_def after_literal_def run_of_def Let_def list_all_iff dest: set_takeWhileD split: if_splits)

lemma next_labelled_run: "next_labelled lit p s = Some (w, rest) \<Longrightarrow> w \<noteq> [] \<and> list_all p w"
  by (auto simp: next_labelled_def Option.bind_eq_Some_conv dest!: labelled_run)

definition tuple_ok :: "conn_tuple \<Rightarrow> bool" where
  "tuple_ok t \<longleftrightarrow> tup_src t \<noteq> [] \<and> list_all (\<lambda>c. \<not> re_space c) (tup_src t) \<and> tup_dst t \<noteq> [] \<and> list_all (\<lambda>c. \<not> re_space c) (tup_dst t)"

lemma match_tuple_ok: "match_tuple s = Some (t, rest) \<Longrightarrow> tuple_ok t"
  by (auto simp: match_tuple_def tuple_ok_def split: Option.bind_splits option.splits prod.splits dest!: labelled_run next_labelled_run)

lemma find_tuples_ok: "t \<in> set (find_tuples n s) \<Longrightarrow> tuple_ok t"
  by (induction n s rule: find_tuples.induct) (auto split: option.splits dest: match_tuple_ok)

text \<open>A connection as the matcher expects it: a transport protocol, addresses without blanks, ports of an \<open>int\<close>, and its own key.\<close>

definition flow_typed :: "conntrack_flow \<Rightarrow> bool" where
  "flow_typed f \<longleftrightarrow> (flow_Protocol f = ''tcp'' \<or> flow_Protocol f = ''udp'') \<and>
     flow_SourceIP f \<noteq> [] \<and> list_all (\<lambda>c. \<not> re_space c) (flow_SourceIP f) \<and>
     flow_DestinationIP f \<noteq> [] \<and> list_all (\<lambda>c. \<not> re_space c) (flow_DestinationIP f) \<and>
     0 < flow_SourcePort f \<and> int64_range (flow_SourcePort f) \<and> 0 < flow_DestinationPort f \<and> int64_range (flow_DestinationPort f) \<and>
     flow_Key f = flowSampleKey (flow_Protocol f) (flow_SourceIP f) (flow_SourcePort f) (flow_DestinationIP f) (flow_DestinationPort f)"

lemma parseIntStrict_range: "parseIntStrict s = Some i \<Longrightarrow> int64_range i"
  by (auto simp: parseIntStrict_def Let_def split: if_splits dest: Atoi_range)

lemma detected_protocol:
  assumes "detectConntrackProtocol line = Some p"
  shows "p = ''tcp'' \<or> p = ''udp''"
proof -
  have "p \<in> set (Fields (ToLower (TrimSpace line)))" and t: "TrimSpace p = ''tcp'' \<or> TrimSpace p = ''udp''"
    using assms unfolding detectConntrackProtocol_def find_Some_iff by (blast dest: nth_mem, metis nth_mem)
  then have "trimmed p" using FieldsFunc_words no_space_trimmed unfolding Fields_def by blast
  with t show ?thesis by (simp add: TrimSpace_id)
qed

lemma parseConntrackLine_typed:
  assumes "parseConntrackLine l = Some f"
  shows "flow_typed f"
proof -
  obtain p t ts sp dp where *: "detectConntrackProtocol (TrimSpace l) = Some p" "conntrackTuples (TrimSpace l) = t # ts"
      "parseIntStrict (tup_sport t) = Some sp" "parseIntStrict (tup_dport t) = Some dp" "0 < sp" "0 < dp"
      "flow_Key f = flowSampleKey p (tup_src t) sp (tup_dst t) dp" "flow_Protocol f = p" "flow_SourceIP f = tup_src t"
      "flow_SourcePort f = sp" "flow_DestinationIP f = tup_dst t" "flow_DestinationPort f = dp"
    using assms by (auto simp: parseConntrackLine_def Let_def split: if_splits option.splits list.splits)
  have "tuple_ok t" using find_tuples_ok [of t] *(2) unfolding conntrackTuples_def by (metis list.set_intros(1))
  with * show ?thesis by (simp add: flow_typed_def tuple_ok_def parseIntStrict_range [OF *(3)] parseIntStrict_range [OF *(4)] detected_protocol [OF *(1)])
qed

lemma add_flows_typed:
  "list_all flow_typed out \<Longrightarrow> distinct (map flow_Key out) \<Longrightarrow>
   list_all flow_typed (add_flows out ls) \<and> distinct (map flow_Key (add_flows out ls))"
  by (induction out ls rule: add_flows.induct) (simp_all add: parseConntrackLine_typed split: option.splits)


text \<open>C23: Whatever \<^verbatim>\<open>conntrack\<close> prints, every connection of a snapshot is TCP or UDP with two addresses free of
  blanks and two positive ports, its key is the key of these five values, and no two connections have the same key.\<close>

theorem parseConntrackSnapshot_typed:
  "list_all flow_typed (parseConntrackSnapshot raw) \<and> distinct (map flow_Key (parseConntrackSnapshot raw))"
  unfolding parseConntrackSnapshot_def by (rule add_flows_typed) simp_all


section \<open>Accounting of a session\<close>

definition upload_sum :: "(string \<times> 'f flow_record) list \<Rightarrow> 64 word" where
  "upload_sum records = sum_list (map (\<lambda>(k, r). rec_UploadTotal r) records)"

definition download_sum :: "(string \<times> 'f flow_record) list \<Rightarrow> 64 word" where
  "download_sum records = sum_list (map (\<lambda>(k, r). rec_DownloadTotal r) records)"

lemma sum_update:
  fixes g :: "'b \<Rightarrow> 64 word"
  shows "sum_list (map (\<lambda>(k, r). g r) (AList.update k r' rs)) =
    sum_list (map (\<lambda>(k, r). g r) rs) - (case map_of rs k of None \<Rightarrow> 0 | Some r \<Rightarrow> g r) + g r'"
  by (induction rs) (auto simp: algebra_simps)

definition unaccounted :: "'f flow_session \<Rightarrow> 64 word \<times> 64 word" where
  "unaccounted ses = (ses_TotalUpload ses - upload_sum (ses_FlowByKey ses), ses_TotalDownload ses - download_sum (ses_FlowByKey ses))"

lemma take_sample_accounts: "unaccounted (fst (take_sample fl now s (ses, seen))) = unaccounted ses"
  by (auto simp: take_sample_def unaccounted_def upload_sum_def download_sum_def sum_update new_record_def update_record_def
      Let_def algebra_simps split: option.splits)

lemma take_samples_accounts:
  "unaccounted (fst (foldl (\<lambda>st s. take_sample fl now s st) (ses, seen) samples)) = unaccounted ses"
proof (induction samples arbitrary: ses seen)
  case (Cons s samples)
  then show ?case using take_sample_accounts [of fl now s ses seen] by (cases "take_sample fl now s (ses, seen)") simp
qed simp

lemma age_records_sums:
  "upload_sum (age_records fl now seen rs) + upload_sum (filter (\<lambda>(k, r). \<not> (k \<in> set seen \<or> \<not> now - rec_LastSeen r > flowInspectorIdleRetention)) rs) = upload_sum rs"
  "download_sum (age_records fl now seen rs) + download_sum (filter (\<lambda>(k, r). \<not> (k \<in> set seen \<or> \<not> now - rec_LastSeen r > flowInspectorIdleRetention)) rs) = download_sum rs"
  by (induction rs) (auto simp: age_records_def upload_sum_def download_sum_def algebra_simps)

text \<open>The record of one key depends on the samples of this key only.\<close>

definition step_record :: "'f float_ops \<Rightarrow> int \<Rightarrow> 'f flow_record option \<Rightarrow> flow_sample \<Rightarrow> 'f flow_record option" where
  "step_record fl now r0 s = Some (case r0 of None \<Rightarrow> new_record fl now s | Some r \<Rightarrow> update_record fl now s r)"

definition samples_of :: "string \<Rightarrow> flow_sample list \<Rightarrow> flow_sample list" where
  "samples_of k samples = filter (\<lambda>s. TrimSpace (fs_Key s) = k) samples"

lemma take_sample_key:
  assumes "k \<noteq> []" "take_sample fl now s (ses, seen) = (ses', seen')"
  shows "map_of (ses_FlowByKey ses') k =
           (if TrimSpace (fs_Key s) = k then step_record fl now (map_of (ses_FlowByKey ses) k) s else map_of (ses_FlowByKey ses) k)"
    and "k \<in> set seen' \<longleftrightarrow> k \<in> set seen \<or> TrimSpace (fs_Key s) = k"
  using assms by (auto simp: take_sample_def step_record_def Let_def update_conv split: if_splits option.splits)

lemma take_samples_key:
  assumes "k \<noteq> []" "foldl (\<lambda>st s. take_sample fl now s st) (ses, seen) samples = (ses', seen')"
  shows "map_of (ses_FlowByKey ses') k = foldl (step_record fl now) (map_of (ses_FlowByKey ses) k) (samples_of k samples) \<and>
    (k \<in> set seen' \<longleftrightarrow> k \<in> set seen \<or> samples_of k samples \<noteq> [])"
  using assms(2)
proof (induction samples arbitrary: ses seen)
  case (Cons s samples)
  obtain ses1 seen1 where 1: "take_sample fl now s (ses, seen) = (ses1, seen1)" by (cases "take_sample fl now s (ses, seen)")
  from Cons.prems 1 have "foldl (\<lambda>st s. take_sample fl now s st) (ses1, seen1) samples = (ses', seen')" by simp
  from Cons.IH [OF this] take_sample_key [OF assms(1) 1] show ?case by (auto simp: samples_of_def)
qed (simp add: samples_of_def)

lemma age_records_seen: "k \<in> set seen \<Longrightarrow> map_of (age_records fl now seen rs) k = map_of rs k"
  by (induction rs) (auto simp: age_records_def)

lemma take_sample_header:
  "ses_VPNName (fst (take_sample fl now s (ses, seen))) = ses_VPNName ses \<and> ses_LastTouched (fst (take_sample fl now s (ses, seen))) = ses_LastTouched ses"
  by (auto simp: take_sample_def Let_def split: option.splits)

lemma take_samples_header:
  "foldl (\<lambda>st s. take_sample fl now s st) (ses, seen) samples = (ses', seen') \<Longrightarrow>
   ses_VPNName ses' = ses_VPNName ses \<and> ses_LastTouched ses' = ses_LastTouched ses"
proof (induction samples arbitrary: ses seen)
  case (Cons s samples)
  then show ?case using take_sample_header [of fl now s ses seen] by (cases "take_sample fl now s (ses, seen)") fastforce
qed simp

lemma map_of_filter:
  "distinct (map fst xs) \<Longrightarrow> map_of (filter p xs) k = (case map_of xs k of None \<Rightarrow> None | Some v \<Rightarrow> if p (k, v) then Some v else None)"
  by (induction xs) (auto split: option.splits simp: map_of_eq_None_iff dest: map_of_SomeD)

lemma distinct_cleanup: "distinct (map fst ss) \<Longrightarrow> distinct (map fst (cleanupExpiredSessionsLocked now ss))"
  by (simp add: cleanupExpiredSessionsLocked_def distinct_map_filter)

text \<open>One poll of a session that has not expired.\<close>

lemma updateAndSnapshot_alive:
  assumes "distinct (map fst ss)" "map_of ss sid = Some ses" "ses_VPNName ses = TrimSpace vpn" "now - ses_LastTouched ses \<le> flowInspectorSessionTTL"
    and "k \<noteq> []" "samples_of k samples \<noteq> []"
  obtains snap ses' ss' where "updateAndSnapshot fl now vpn sid samples ss = (Inr snap, ss')" "distinct (map fst ss')"
    "map_of ss' sid = Some ses'" "ses_VPNName ses' = TrimSpace vpn" "ses_LastTouched ses' = now"
    "map_of (ses_FlowByKey ses') k = foldl (step_record fl now) (map_of (ses_FlowByKey ses) k) (samples_of k samples)"
    "snap_Flows snap = sort_rows fl (ses_FlowByKey ses')" "snap_Totals snap = (ses_TotalUpload ses', ses_TotalDownload ses', ses_TotalUpload ses' + ses_TotalDownload ses')"
proof -
  let ?ss = "cleanupExpiredSessionsLocked now ss"
  have live: "map_of ?ss sid = Some ses" using assms(1,2,4) by (simp add: cleanupExpiredSessionsLocked_def map_of_filter)
  obtain ses1 seen where t: "foldl (\<lambda>st s. take_sample fl now s st) (ses\<lparr>ses_LastTouched := now\<rparr>, []) samples = (ses1, seen)"
    by (cases "foldl (\<lambda>st s. take_sample fl now s st) (ses\<lparr>ses_LastTouched := now\<rparr>, []) samples")
  let ?ses = "ses1\<lparr>ses_FlowByKey := age_records fl now seen (ses_FlowByKey ses1)\<rparr>"
  note h = take_samples_header [OF t] and key = take_samples_key [OF assms(5) t]
  have r: "\<exists>snap. updateAndSnapshot fl now vpn sid samples ss = (Inr snap, AList.update sid ?ses ?ss) \<and>
      snap_Flows snap = sort_rows fl (ses_FlowByKey ?ses) \<and>
      snap_Totals snap = (ses_TotalUpload ?ses, ses_TotalDownload ?ses, ses_TotalUpload ?ses + ses_TotalDownload ?ses)"
    using assms(3) by (simp add: updateAndSnapshot_def live take_samples_def t)
  have k: "map_of (ses_FlowByKey ?ses) k = foldl (step_record fl now) (map_of (ses_FlowByKey ses) k) (samples_of k samples)"
    using key assms(6) by (simp add: age_records_seen)
  show ?thesis using r k h assms(1,3) by (auto intro!: that [of _ "AList.update sid ?ses ?ss" ?ses] simp: distinct_update distinct_cleanup update_conv)
qed

fun poll_all :: "'f float_ops \<Rightarrow> string \<Rightarrow> string \<Rightarrow> (int \<times> flow_sample list) list \<Rightarrow> 'f inspector \<Rightarrow> 'f inspector" where
  "poll_all fl vpn sid [] ss = ss"
| "poll_all fl vpn sid ((now, samples) # ps) ss = poll_all fl vpn sid ps (snd (updateAndSnapshot fl now vpn sid samples ss))"

fun timely :: "int \<Rightarrow> int list \<Rightarrow> bool" where
  "timely t [] = True"
| "timely t (u # us) = (u - t \<le> flowInspectorSessionTTL \<and> timely u us)"

definition counters :: "string \<Rightarrow> (int \<times> flow_sample list) list \<Rightarrow> (64 word) list list" where
  "counters k ps = map (\<lambda>(now, samples). map fs_UploadBytes (samples_of k samples)) ps"

definition flow_total :: "'f inspector \<Rightarrow> string \<Rightarrow> string \<Rightarrow> (64 word \<times> 64 word) option" where
  "flow_total ss sid k = Option.bind (map_of ss sid) (\<lambda>ses. map_option (\<lambda>r. (rec_UploadTotal r, rec_LastUploadBytes r)) (map_of (ses_FlowByKey ses) k))"

lemma poll_all_tracks:
  assumes "distinct (map fst ss)" "map_of ss sid = Some ses" "ses_VPNName ses = TrimSpace vpn" "timely (ses_LastTouched ses) (map fst ps)" "k \<noteq> []"
    and "map_of (ses_FlowByKey ses) k = Some r" "rec_LastUploadBytes r = c" "rec_UploadTotal r = c - first"
    and "counters k ps = map (\<lambda>c. [c]) cs" "sorted (c # cs)"
  shows "flow_total (poll_all fl vpn sid ps ss) sid k = Some (last (c # cs) - first, last (c # cs))"
  using assms
proof (induction ps arbitrary: ss ses r c cs)
  case Nil
  then show ?case by (simp add: flow_total_def counters_def)
next
  case (Cons p ps)
  obtain now samples where p: "p = (now, samples)" by (cases p)
  from Cons.prems(9) p obtain d ds s where cs: "cs = d # ds" and s: "samples_of k samples = [s]" "fs_UploadBytes s = d" and rest: "counters k ps = map (\<lambda>c. [c]) ds"
    by (auto simp: counters_def Cons_eq_map_conv)
  have alive: "now - ses_LastTouched ses \<le> flowInspectorSessionTTL" and later: "timely now (map fst ps)" using Cons.prems(4) p by simp_all
  obtain snap ses' ss' where u: "updateAndSnapshot fl now vpn sid samples ss = (Inr snap, ss')" "distinct (map fst ss')"
      "map_of ss' sid = Some ses'" "ses_VPNName ses' = TrimSpace vpn" "ses_LastTouched ses' = now"
      "map_of (ses_FlowByKey ses') k = foldl (step_record fl now) (map_of (ses_FlowByKey ses) k) (samples_of k samples)"
    by (rule updateAndSnapshot_alive [OF Cons.prems(1-3) alive Cons.prems(5), of samples fl]) (simp_all add: s)
  have r': "map_of (ses_FlowByKey ses') k = Some (update_record fl now s r)" using u(6) s Cons.prems(6) by (simp add: step_record_def)
  have "c \<le> d" using Cons.prems(10) cs by simp
  then have t': "rec_UploadTotal (update_record fl now s r) = d - first" "rec_LastUploadBytes (update_record fl now s r) = d"
    using Cons.prems(7,8) s by (simp_all add: update_record_def Let_def monotonicDelta_def)
  have "flow_total (poll_all fl vpn sid ps ss') sid k = Some (last (d # ds) - first, last (d # ds))"
    using Cons.prems(10) cs by (intro Cons.IH [OF u(2,3,4) _ Cons.prems(5) r' t'(2,1) rest]) (simp_all add: u(5) later)
  then show ?case using p u(1) cs by simp
qed



definition example_floats :: "int float_ops" where
  "example_floats = \<lparr>fl_zero = 0, fl_rate = (\<lambda>bits ns. uint bits * second div ns), fl_rank = (\<lambda>a b. a + b)\<rparr>"

definition example_flow :: "64 word \<Rightarrow> flow_sample" where
  "example_flow n = \<lparr>fs_Key = ''k'', fs_Protocol = ''tcp'', fs_SourceIP = ''10.0.0.2'', fs_SourcePort = 5000, fs_SourceMAC = [],
     fs_SourceDeviceName = [], fs_SourceInterface = [], fs_DestinationIP = ''1.1.1.1'', fs_DestinationPort = 443,
     fs_DestinationDomain = [], fs_UploadBytes = n, fs_DownloadBytes = 0\<rparr>"


text \<open>What a poll does to the balance of a session: only connections dropped after the retention time leave the sum of the
  rows, and the totals of the session keep what they had transferred.\<close>

lemma updateAndSnapshot_accounts:
  fixes ss :: "'f inspector"
  assumes "distinct (map fst ss)" "updateAndSnapshot fl now vpn sid samples ss = (Inr snap, ss')" "map_of ss sid = Some ses"
  shows "\<exists>ses' (dropped :: (string \<times> 'f flow_record) list). map_of ss' sid = Some ses' \<and> list_all (\<lambda>(k, r). now - rec_LastSeen r > flowInspectorIdleRetention) dropped \<and>
    fst (unaccounted ses') = fst (unaccounted ses) + upload_sum dropped \<and> snd (unaccounted ses') = snd (unaccounted ses) + download_sum dropped"
proof -
  let ?ses = "ses\<lparr>ses_LastTouched := now\<rparr>"
  obtain ses1 seen where t: "foldl (\<lambda>st s. take_sample fl now s st) (?ses, []) samples = (ses1, seen)"
    by (cases "foldl (\<lambda>st s. take_sample fl now s st) (?ses, []) samples")
  let ?out = "filter (\<lambda>(k, r). \<not> (k \<in> set seen \<or> \<not> now - rec_LastSeen r > flowInspectorIdleRetention)) (ses_FlowByKey ses1)"
  let ?ses' = "ses1\<lparr>ses_FlowByKey := age_records fl now seen (ses_FlowByKey ses1)\<rparr>"
  have "map_of (cleanupExpiredSessionsLocked now ss) sid = Some ses"
    using assms by (auto simp: updateAndSnapshot_def Let_def cleanupExpiredSessionsLocked_def map_of_filter simp del: map_of_eq_Some_iff split: option.splits if_splits)
  then have "ss' = AList.update sid ?ses' (cleanupExpiredSessionsLocked now ss)"
    using assms(2) by (simp add: updateAndSnapshot_def Let_def take_samples_def t split: if_splits)
  then have "map_of ss' sid = Some ?ses'" by (simp add: update_conv)
  moreover have "unaccounted ses1 = unaccounted ses"
    using take_samples_accounts [of fl now ?ses "[]" samples] by (simp add: t unaccounted_def)
  moreover have "unaccounted ?ses' = (fst (unaccounted ses1) + upload_sum ?out, snd (unaccounted ses1) + download_sum ?out)"
    using age_records_sums [where rs = "ses_FlowByKey ses1" and seen = seen and now = now and fl = fl] by (simp add: unaccounted_def algebra_simps)
  moreover have "list_all (\<lambda>(k, r). now - rec_LastSeen r > flowInspectorIdleRetention) ?out" by (auto simp: list_all_iff)
  ultimately have "map_of ss' sid = Some ?ses' \<and> list_all (\<lambda>(k, r). now - rec_LastSeen r > flowInspectorIdleRetention) ?out \<and>
    fst (unaccounted ?ses') = fst (unaccounted ses) + upload_sum ?out \<and> snd (unaccounted ?ses') = snd (unaccounted ses) + download_sum ?out"
    by (simp only: fst_conv snd_conv simp_thms)
  then show ?thesis by blast
qed

end
