(* ===== verification/App_Settings.thy ===== *)
theory App_Settings
  imports Dnsmasq
begin

text \<open>
  The settings file and the access control of the web interface: \<^verbatim>\<open>internal/settings/settings.go\<close>,
  \<^verbatim>\<open>internal/auth/auth.go\<close>, \<^verbatim>\<open>internal/auth/middleware.go\<close> and the handlers of
  \<^verbatim>\<open>internal/server/handlers_auth.go\<close>. The state is the cache of the settings manager beside the world that
  holds the file. Package os, encoding/json, bcrypt and the random source are the record \<open>settings_env\<close>; what is
  relied on is \<open>settings_law\<close>. Responses are reduced to their status and the cookie they set.
\<close>


section \<open>The settings manager\<close>

record settings =
  ListenInterface :: string
  WANInterface :: string
  PrewarmParallelism :: int
  PrewarmDoHTimeoutSeconds :: int
  PrewarmQueryAttempts :: int
  PrewarmIntervalSeconds :: int
  PrewarmExtraNameservers :: string
  PrewarmECSProfiles :: string
  ResolverParallelism :: int
  ResolverTimeoutSeconds :: int
  ResolverIntervalSeconds :: int
  ResolverDomainTimeoutSeconds :: int
  ResolverASNTimeoutSeconds :: int
  ResolverWildcardTimeoutSeconds :: int
  ResolverDomainEnabled :: "bool option"
  ResolverASNEnabled :: "bool option"
  ResolverWildcardEnabled :: "bool option"
  DebugLogEnabled :: "bool option"
  DebugLogLevel :: string
  AuthPasswordHash :: string
  AuthToken :: string

definition empty_settings :: settings where
  "empty_settings = \<lparr>ListenInterface = [], WANInterface = [], PrewarmParallelism = 0, PrewarmDoHTimeoutSeconds = 0,
     PrewarmQueryAttempts = 0, PrewarmIntervalSeconds = 0, PrewarmExtraNameservers = [], PrewarmECSProfiles = [],
     ResolverParallelism = 0, ResolverTimeoutSeconds = 0, ResolverIntervalSeconds = 0, ResolverDomainTimeoutSeconds = 0,
     ResolverASNTimeoutSeconds = 0, ResolverWildcardTimeoutSeconds = 0, ResolverDomainEnabled = None, ResolverASNEnabled = None,
     ResolverWildcardEnabled = None, DebugLogEnabled = None, DebugLogLevel = [], AuthPasswordHash = [], AuthToken = []\<rparr>"

record 'w settings_env =
  set_path :: string
  set_os :: "'w os_files"
  set_read :: "string \<Rightarrow> 'w \<Rightarrow> string file_read"
  set_encode :: "settings \<Rightarrow> string + string"
  set_decode :: "string \<Rightarrow> string + settings"
  bcrypt_Generate :: "string \<Rightarrow> string + string"
  bcrypt_Compare :: "string \<Rightarrow> string \<Rightarrow> bool"

record settings_mgr =
  cached :: settings
  loaded :: bool

type_synonym 'w settings_world = "settings_mgr \<times> 'w"

definition NewManager :: settings_mgr where
  "NewManager = \<lparr>cached = empty_settings, loaded = False\<rparr>"

definition settings_Get :: "'w settings_env \<Rightarrow> 'w settings_world \<Rightarrow> (string + settings) \<times> 'w settings_world" where
  "settings_Get v st =
     (case st of (m, w) \<Rightarrow>
        if loaded m then (Inr (cached m), st)
        else (case set_read v (set_path v) w of
                FileMissing \<Rightarrow> (Inr empty_settings, m\<lparr>loaded := True, cached := empty_settings\<rparr>, w)
              | FileError \<Rightarrow> (Inl ''read'', st)
              | FileData bytes \<Rightarrow>
                  (case set_decode v bytes of
                     Inl e \<Rightarrow> (Inl e, st)
                   | Inr s \<Rightarrow> (Inr s, m\<lparr>cached := s, loaded := True\<rparr>, w))))"

definition on_world :: "('e, 'w) proc \<Rightarrow> ('e, 'm \<times> 'w) proc" where
  "on_world p st = (case p (snd st) of (r, w) \<Rightarrow> (r, fst st, w))"

definition remember :: "settings \<Rightarrow> ('e, 'w settings_world) proc" where
  "remember s st = (None, (fst st)\<lparr>cached := s, loaded := True\<rparr>, snd st)"

definition settings_Save :: "'w settings_env \<Rightarrow> settings \<Rightarrow> (string, 'w settings_world) proc" where
  "settings_Save v s =
     (let path = set_path v; tmp = path @ ''.tmp'' in
      and_then (on_world (MkdirAll (set_os v) (filepath_Dir path)))
      (case set_encode v s of
         Inl e \<Rightarrow> fail_with e
       | Inr data \<Rightarrow>
           and_then (on_world (WriteFile (set_os v) tmp data))
           (and_then (on_world (Rename (set_os v) tmp path)) (remember s))))"


section \<open>Credentials\<close>

definition defaultPassword :: string where
  "defaultPassword = ''split-vpn''"

text \<open>The token is 32 random bytes in hexadecimal.\<close>

definition hex_EncodeToString :: "nat list \<Rightarrow> string" where
  "hex_EncodeToString bs = concat (map (\<lambda>b. pad_zero 2 (show_hex b)) bs)"

definition generateToken :: "string + nat list \<Rightarrow> string + string" where
  "generateToken random = map_sum id hex_EncodeToString random"

definition default_hash :: "'w settings_env \<Rightarrow> settings \<Rightarrow> string + settings" where
  "default_hash v s =
     (if AuthPasswordHash s \<noteq> [] then Inr s
      else (case bcrypt_Generate v defaultPassword of Inl e \<Rightarrow> Inl e | Inr h \<Rightarrow> Inr (s\<lparr>AuthPasswordHash := h\<rparr>)))"

definition default_token :: "string + nat list \<Rightarrow> settings \<Rightarrow> string + settings" where
  "default_token random s =
     (if AuthToken s \<noteq> [] then Inr s
      else (case generateToken random of Inl e \<Rightarrow> Inl e | Inr t \<Rightarrow> Inr (s\<lparr>AuthToken := t\<rparr>)))"

definition EnsureDefaults :: "'w settings_env \<Rightarrow> string + nat list \<Rightarrow> (string, 'w settings_world) proc" where
  "EnsureDefaults v random =
     fetch (settings_Get v) id (\<lambda>s.
       (case bindE (default_hash v s) (default_token random) of
          Inl e \<Rightarrow> fail_with e
        | Inr s' \<Rightarrow> if AuthPasswordHash s = [] \<or> AuthToken s = [] then settings_Save v s' else skip_ok))"

definition CheckPassword :: "'w settings_env \<Rightarrow> string \<Rightarrow> 'w settings_world \<Rightarrow> bool \<times> 'w settings_world" where
  "CheckPassword v plain st =
     (case settings_Get v st of
        (Inl e, st') \<Rightarrow> (False, st')
      | (Inr s, st') \<Rightarrow> (if AuthPasswordHash s = [] then plain = defaultPassword else bcrypt_Compare v (AuthPasswordHash s) plain, st'))"

definition SetPassword :: "'w settings_env \<Rightarrow> string \<Rightarrow> (string, 'w settings_world) proc" where
  "SetPassword v plain =
     (if plain = [] then fail_with ''password cannot be empty''
      else (case bcrypt_Generate v plain of
              Inl e \<Rightarrow> fail_with e
            | Inr h \<Rightarrow> fetch (settings_Get v) id (\<lambda>s. settings_Save v (s\<lparr>AuthPasswordHash := h\<rparr>))))"

definition ValidateToken :: "'w settings_env \<Rightarrow> string \<Rightarrow> 'w settings_world \<Rightarrow> bool \<times> 'w settings_world" where
  "ValidateToken v token st =
     (if token = [] then (False, st)
      else (case settings_Get v st of
              (Inl e, st') \<Rightarrow> (False, st')
            | (Inr s, st') \<Rightarrow> (AuthToken s \<noteq> [] \<and> token = AuthToken s, st')))"

definition GetToken :: "'w settings_env \<Rightarrow> 'w settings_world \<Rightarrow> (string + string) \<times> 'w settings_world" where
  "GetToken v st = (case settings_Get v st of (r, st') \<Rightarrow> (map_sum id AuthToken r, st'))"

definition RegenerateToken :: "'w settings_env \<Rightarrow> string + nat list \<Rightarrow> 'w settings_world \<Rightarrow> (string + string) \<times> 'w settings_world" where
  "RegenerateToken v random st =
     (case generateToken random of
        Inl e \<Rightarrow> (Inl e, st)
      | Inr token \<Rightarrow>
          (case settings_Get v st of
             (Inl e, st') \<Rightarrow> (Inl e, st')
           | (Inr s, st') \<Rightarrow>
               (case settings_Save v (s\<lparr>AuthToken := token\<rparr>) st' of
                  (Some e, st'') \<Rightarrow> (Inl e, st'')
                | (None, st'') \<Rightarrow> (Inr token, st''))))"


section \<open>Requests\<close>

record request =
  req_Path :: string
  req_Authorization :: string
  req_Session :: "string option"

datatype verdict = Served | Unauthorized401 | RedirectToLogin

definition isPublicPath :: "string \<Rightarrow> bool" where
  "isPublicPath path \<longleftrightarrow> path = ''/login'' \<or> path = ''/logout'' \<or> HasPrefix path ''/static/''"

definition isAuthenticated :: "'w settings_env \<Rightarrow> request \<Rightarrow> 'w settings_world \<Rightarrow> bool \<times> 'w settings_world" where
  "isAuthenticated v r st =
     (if HasPrefix (req_Authorization r) ''Bearer '' then ValidateToken v (TrimPrefix (req_Authorization r) ''Bearer '') st
      else (case req_Session r of
              Some cookie \<Rightarrow> ValidateToken v cookie st
            | None \<Rightarrow> (False, st)))"

definition Middleware :: "'w settings_env \<Rightarrow> request \<Rightarrow> 'w settings_world \<Rightarrow> verdict \<times> 'w settings_world" where
  "Middleware v r st =
     (if isPublicPath (req_Path r) then (Served, st)
      else (case isAuthenticated v r st of
              (True, st') \<Rightarrow> (Served, st')
            | (False, st') \<Rightarrow> (if HasPrefix (req_Path r) ''/api/'' then Unauthorized401 else RedirectToLogin, st')))"

datatype auth_response =
    LoginPage | LoginFailed | SeeOther string "string option" | InternalError
  | BadRequest | Unauthorized | OkToken string "string option" | OkStatus

text \<open>A session cookie in a response: the token, or the empty value that deletes it.\<close>

definition handleLoginGet :: "'w settings_env \<Rightarrow> request \<Rightarrow> 'w settings_world \<Rightarrow> auth_response \<times> 'w settings_world" where
  "handleLoginGet v r st =
     (case req_Session r of
        None \<Rightarrow> (LoginPage, st)
      | Some cookie \<Rightarrow> (case ValidateToken v cookie st of
                         (True, st') \<Rightarrow> (SeeOther ''/'' None, st') | (False, st') \<Rightarrow> (LoginPage, st')))"

definition handleLoginPost :: "'w settings_env \<Rightarrow> string option \<Rightarrow> 'w settings_world \<Rightarrow> auth_response \<times> 'w settings_world" where
  "handleLoginPost v form st =
     (case form of
        None \<Rightarrow> (BadRequest, st)
      | Some password \<Rightarrow>
          (case CheckPassword v password st of
             (False, st') \<Rightarrow> (LoginFailed, st')
           | (True, st') \<Rightarrow>
               (case GetToken v st' of
                  (Inl e, st'') \<Rightarrow> (InternalError, st'')
                | (Inr token, st'') \<Rightarrow> if token = [] then (InternalError, st'') else (SeeOther ''/'' (Some token), st''))))"

definition handleLogout :: auth_response where
  "handleLogout = SeeOther ''/login'' (Some [])"

definition handleGetAuthToken :: "'w settings_env \<Rightarrow> 'w settings_world \<Rightarrow> auth_response \<times> 'w settings_world" where
  "handleGetAuthToken v st =
     (case GetToken v st of (Inl e, st') \<Rightarrow> (InternalError, st') | (Inr token, st') \<Rightarrow> (OkToken token None, st'))"

definition handleRegenerateAuthToken :: "'w settings_env \<Rightarrow> string + nat list \<Rightarrow> 'w settings_world \<Rightarrow> auth_response \<times> 'w settings_world" where
  "handleRegenerateAuthToken v random st =
     (case RegenerateToken v random st of (Inl e, st') \<Rightarrow> (InternalError, st') | (Inr token, st') \<Rightarrow> (OkToken token (Some token), st'))"

definition handleChangePassword :: "'w settings_env \<Rightarrow> (string \<times> string) option \<Rightarrow> 'w settings_world \<Rightarrow> auth_response \<times> 'w settings_world" where
  "handleChangePassword v payload st =
     (case payload of
        None \<Rightarrow> (BadRequest, st)
      | Some (currentPassword, newPassword) \<Rightarrow>
          if TrimSpace currentPassword = [] \<or> TrimSpace newPassword = [] then (BadRequest, st)
          else (case CheckPassword v currentPassword st of
                  (False, st') \<Rightarrow> (Unauthorized, st')
                | (True, st') \<Rightarrow> (case SetPassword v newPassword st' of
                                     (Some e, st'') \<Rightarrow> (BadRequest, st'') | (None, st'') \<Rightarrow> (OkStatus, st''))))"


section \<open>Settings survive\<close>

text \<open>
  What is relied on: the laws of files; a read returns the contents of the file or fails; what the JSON encoder
  produced is decoded to the same settings; a password matches its own hash, which is not empty.
\<close>

definition read_law :: "'w settings_env \<Rightarrow> ('w \<Rightarrow> string \<Rightarrow> string option) \<Rightarrow> bool" where
  "read_law v file \<longleftrightarrow>
     (\<forall>p w. set_read v p w = FileError \<or> set_read v p w = (case file w p of None \<Rightarrow> FileMissing | Some c \<Rightarrow> FileData c))"

definition json_law :: "'w settings_env \<Rightarrow> bool" where
  "json_law v \<longleftrightarrow> (\<forall>s data. set_encode v s = Inr data \<longrightarrow> set_decode v data = Inr s)"

definition bcrypt_law :: "'w settings_env \<Rightarrow> bool" where
  "bcrypt_law v \<longleftrightarrow> (\<forall>p h. bcrypt_Generate v p = Inr h \<longrightarrow> h \<noteq> [] \<and> bcrypt_Compare v h p)"

definition settings_law :: "'w settings_env \<Rightarrow> ('w \<Rightarrow> string \<Rightarrow> string option) \<Rightarrow> bool" where
  "settings_law v file \<longleftrightarrow> files_law (set_os v) file \<and> read_law v file \<and> json_law v"

lemma on_world_cases: "on_world p st = (r, st') \<longleftrightarrow> fst st' = fst st \<and> p (snd st) = (r, snd st')"
  by (cases st') (auto simp: on_world_def split: prod.splits)

lemma remember_eq [simp]: "remember s st = (None, \<lparr>cached = s, loaded = True\<rparr>, snd st)"
  by (simp add: remember_def)

lemma settings_Get_loaded [simp]: "settings_Get v (\<lparr>cached = s, loaded = True\<rparr>, w) = (Inr s, \<lparr>cached = s, loaded = True\<rparr>, w)"
  by (simp add: settings_Get_def)

lemma settings_Get_stable: "settings_Get v st = (Inr s, st') \<Longrightarrow> settings_Get v st' = (Inr s, st') \<and> snd st' = snd st"
  by (auto simp: settings_Get_def split: prod.splits if_splits file_read.splits sum.splits)

lemma settings_Save_ok: "settings_Save v s st = (None, st') \<Longrightarrow> fst st' = \<lparr>cached = s, loaded = True\<rparr>"
  by (auto simp: settings_Save_def Let_def and_then_None on_world_cases split: sum.splits)

lemma settings_Save_disk:
  assumes law: "settings_law v file" and save: "settings_Save v s st = (r, st')"
  shows "if r = None then \<exists>data. set_encode v s = Inr data \<and> file (snd st') (set_path v) = Some data
         else fst st' = fst st \<and> file (snd st') (set_path v) = file (snd st) (set_path v)"
proof -
  let ?path = "set_path v" let ?tmp = "set_path v @ ''.tmp''" let ?os = "set_os v"
  have files: "write_law ?os file" "rename_law ?os file" "metadata_law ?os file" using law by (simp_all add: settings_law_def files_law_def)
  have ne: "?path \<noteq> ?tmp" "?tmp \<noteq> ?path" by simp_all
  obtain r1 w1 where mk: "MkdirAll ?os (filepath_Dir ?path) (snd st) = (r1, w1)" by (cases "MkdirAll ?os (filepath_Dir ?path) (snd st)")
  then have f1: "file w1 = file (snd st)" using files(3) unfolding metadata_law_def by (metis snd_conv)
  note run = save [unfolded settings_Save_def Let_def and_then_def on_world_def mk split_conv, simplified]
  show ?thesis
  proof (cases r1)
    case (Some e)
    then show ?thesis using run f1 by (auto simp: mk)
  next
    case r1: None
    show ?thesis
    proof (cases "set_encode v s")
      case (Inl e)
      then show ?thesis using run f1 r1 by (auto simp: mk)
    next
      case data: (Inr data)
      obtain r2 w2 where wr: "WriteFile ?os ?tmp data w1 = (r2, w2)" by (cases "WriteFile ?os ?tmp data w1")
      have f2: "file w2 ?path = file w1 ?path" "r2 = None \<Longrightarrow> file w2 ?tmp = Some data"
        using files(1) wr ne unfolding write_law_def by blast+
      obtain r3 w3 where rn: "Rename ?os ?tmp ?path w2 = (r3, w3)" by (cases "Rename ?os ?tmp ?path w2")
      have f3: "r2 = None \<Longrightarrow> file w3 = (if r3 = None then (file w2)(?tmp := None, ?path \<mapsto> data) else file w2)"
        using files(2) rn ne f2(2) unfolding rename_law_def by blast
      show ?thesis using run f1 f2 f3 r1 data by (cases r2; cases r3) (auto simp: mk wr rn)
    qed
  qed
qed

lemma saved_then_read:
  assumes law: "settings_law v file" and save: "settings_Save v s st = (None, st')"
  shows "settings_Get v st' = (Inr s, st') \<and>
     (set_read v (set_path v) (snd st') = FileError \<or> fst (settings_Get v (NewManager, snd st')) = Inr s)"
proof -
  obtain data where d: "set_encode v s = Inr data" "file (snd st') (set_path v) = Some data" using settings_Save_disk [OF law save] by auto
  have "set_decode v data = Inr s" using law d(1) by (simp add: settings_law_def json_law_def)
  moreover have "set_read v (set_path v) (snd st') = FileError \<or> set_read v (set_path v) (snd st') = FileData data"
    using law d(2) unfolding settings_law_def read_law_def by (metis option.simps(5))
  moreover have "fst st' = \<lparr>cached = s, loaded = True\<rparr>" using save by (rule settings_Save_ok)
  ultimately show ?thesis by (cases st') (auto simp: settings_Get_def NewManager_def)
qed

text \<open>C25: Settings survive a restart, and a failed save changes nothing. After a successful \<^verbatim>\<open>Save\<close> every \<^verbatim>\<open>Get\<close>
  returns the saved settings, and so does the first \<^verbatim>\<open>Get\<close> of a newly started program whose read succeeds; when \<^verbatim>\<open>Save\<close>
  fails at any step, the settings in memory and in the file are the ones before.\<close>

theorem settings_persist:
  assumes law: "settings_law v file" and save: "settings_Save v s st = (r, st')"
  shows "(if r = None
          then settings_Get v st' = (Inr s, st') \<and>
               (set_read v (set_path v) (snd st') = FileError \<or> fst (settings_Get v (NewManager, snd st')) = Inr s)
          else fst st' = fst st \<and> file (snd st') (set_path v) = file (snd st) (set_path v))"
  using settings_Save_disk [OF law save] saved_then_read [OF law] save by (cases r) auto

text \<open>An environment for the witnesses: files in a list, and a codec for settings that hold credentials only.\<close>

definition list_env :: "(string \<times> string) list settings_env" where
  "list_env = \<lparr>set_path = ''/data/s.json'', set_os = list_files,
     set_read = (\<lambda>p w. case map_of w p of None \<Rightarrow> FileMissing | Some c \<Rightarrow> FileData c),
     set_encode = (\<lambda>s. if s = empty_settings\<lparr>AuthPasswordHash := AuthPasswordHash s, AuthToken := AuthToken s\<rparr> \<and> CHR 0x0A \<notin> set (AuthPasswordHash s)
                       then Inr (AuthPasswordHash s @ CHR 0x0A # AuthToken s) else Inl ''unsupported''),
     set_decode = (\<lambda>d. Inr (empty_settings\<lparr>AuthPasswordHash := before_char (CHR 0x0A) d, AuthToken := after_char (CHR 0x0A) d\<rparr>)),
     bcrypt_Generate = (\<lambda>p. Inr (CHR ''$'' # p)), bcrypt_Compare = (\<lambda>h p. h = CHR ''$'' # p)\<rparr>"

lemma takeWhile_tail: "c \<notin> set a \<Longrightarrow> takeWhile (\<lambda>x. x \<noteq> c) (a @ c # b) = a" "c \<notin> set a \<Longrightarrow> dropWhile (\<lambda>x. x \<noteq> c) (a @ c # b) = c # b"
  by (induction a) auto

lemma list_env_codec: "set_encode list_env s = Inr d \<Longrightarrow> set_decode list_env d = Inr s"
proof -
  assume "set_encode list_env s = Inr d"
  then have s: "s = empty_settings\<lparr>AuthPasswordHash := AuthPasswordHash s, AuthToken := AuthToken s\<rparr>" "CHR 0x0A \<notin> set (AuthPasswordHash s)"
    and d: "d = AuthPasswordHash s @ CHR 0x0A # AuthToken s" by (auto simp: list_env_def split: if_splits)
  have "before_char (CHR 0x0A) d = AuthPasswordHash s" "after_char (CHR 0x0A) d = AuthToken s"
    using s(2) unfolding d before_char_def after_char_def by (simp_all add: takeWhile_tail)
  then show ?thesis using s(1) by (simp add: list_env_def)
qed

lemma list_env_law: "settings_law list_env map_of"
proof -
  have "read_law list_env map_of" by (simp add: read_law_def list_env_def)
  moreover have "json_law list_env" using list_env_codec by (simp add: json_law_def)
  ultimately show ?thesis using list_files_law by (simp add: settings_law_def) (simp add: list_env_def)
qed

theorem settings_persist_witness:
  "fst (settings_Get list_env (NewManager, snd (snd (settings_Save list_env (empty_settings\<lparr>AuthToken := ''t1''\<rparr>) (NewManager, []))))) = Inr (empty_settings\<lparr>AuthToken := ''t1''\<rparr>)"
proof -
  let ?run = "settings_Save list_env (empty_settings\<lparr>AuthToken := ''t1''\<rparr>) (NewManager, [])"
  have "fst ?run = None" "set_read list_env (set_path list_env) (snd (snd ?run)) \<noteq> FileError" by code_simp+
  then show ?thesis using settings_persist [OF list_env_law surjective_pairing, of "empty_settings\<lparr>AuthToken := ''t1''\<rparr>" "(NewManager, [])"] by simp
qed


section \<open>Who is served\<close>

text \<open>The credential a request presents: the bearer token when there is one, otherwise the session cookie.\<close>

definition presented :: "request \<Rightarrow> string option" where
  "presented r = (if HasPrefix (req_Authorization r) ''Bearer '' then Some (TrimPrefix (req_Authorization r) ''Bearer '') else req_Session r)"

lemma isAuthenticated_iff:
  "fst (isAuthenticated v r st) \<longleftrightarrow>
     (\<exists>s t. fst (settings_Get v st) = Inr s \<and> t \<noteq> [] \<and> AuthToken s = t \<and> presented r = Some t)"
  by (auto simp: isAuthenticated_def ValidateToken_def presented_def split: prod.splits sum.splits option.splits)

lemma Middleware_Served:
  "fst (Middleware v r st) = Served \<longleftrightarrow> isPublicPath (req_Path r) \<or> fst (isAuthenticated v r st)"
  by (auto simp: Middleware_def split: prod.splits bool.splits)

lemma RegenerateToken_ok:
  assumes "RegenerateToken v random st = (Inr token, st')"
  obtains s st1 where "settings_Save v (s\<lparr>AuthToken := token\<rparr>) st1 = (None, st')" "generateToken random = Inr token"
  using assms by (auto simp: RegenerateToken_def split: sum.splits prod.splits option.splits)

lemma generateToken_nonempty: "generateToken (Inr bs) = Inr t \<Longrightarrow> bs \<noteq> [] \<Longrightarrow> t \<noteq> []"
  by (cases bs) (auto simp: generateToken_def hex_EncodeToString_def pad_zero_def)

text \<open>C26: Rotating the token revokes every old session. After \<^verbatim>\<open>RegenerateToken\<close> returned a token, a page that is not public
  is served exactly to the requests that present this token, as a bearer token or, without one, as the session cookie; this
  still holds after a restart of the program that can read its settings file, since the new token is stored.\<close>

theorem RegenerateToken_revokes:
  assumes law: "settings_law v file" and regen: "RegenerateToken v (Inr bytes) st = (Inr token, st')" "bytes \<noteq> []"
    and protected: "\<not> isPublicPath (req_Path r)"
  shows "(fst (Middleware v r st') = Served \<longleftrightarrow> presented r = Some token) \<and>
     (set_read v (set_path v) (snd st') = FileError \<or>
      (fst (Middleware v r (NewManager, snd st')) = Served \<longleftrightarrow> presented r = Some token))"
proof -
  from regen(1) obtain s st1 where save: "settings_Save v (s\<lparr>AuthToken := token\<rparr>) st1 = (None, st')" and t: "generateToken (Inr bytes) = Inr token"
    by (rule RegenerateToken_ok)
  have ne: "token \<noteq> []" by (rule generateToken_nonempty [OF t regen(2)])
  have disk: "settings_Get v st' = (Inr (s\<lparr>AuthToken := token\<rparr>), st') \<and>
      (set_read v (set_path v) (snd st') = FileError \<or> fst (settings_Get v (NewManager, snd st')) = Inr (s\<lparr>AuthToken := token\<rparr>))"
    using saved_then_read [OF law save] .
  show ?thesis using disk ne protected by (auto simp: Middleware_Served isAuthenticated_iff)
qed

theorem RegenerateToken_revokes_witness:
  "fst (Middleware list_env \<lparr>req_Path = ''/api/vpns'', req_Authorization = [], req_Session = Some ''old''\<rparr>
     (snd (RegenerateToken list_env (Inr [7, 255]) (\<lparr>cached = empty_settings\<lparr>AuthToken := ''old''\<rparr>, loaded = True\<rparr>, [])))) \<noteq> Served"
proof -
  let ?r = "\<lparr>req_Path = ''/api/vpns'', req_Authorization = [], req_Session = Some ''old''\<rparr>"
  let ?st = "(\<lparr>cached = empty_settings\<lparr>AuthToken := ''old''\<rparr>, loaded = True\<rparr>, [])"
  have run: "RegenerateToken list_env (Inr [7, 255]) ?st = (Inr ''07ff'', snd (RegenerateToken list_env (Inr [7, 255]) ?st))" by code_simp
  show ?thesis using RegenerateToken_revokes [OF list_env_law run, of ?r] by (simp add: isPublicPath_def HasPrefix_def presented_def)
qed

text \<open>C27: A changed password lets its owner in. After \<^verbatim>\<open>handleChangePassword\<close> answered ok, the login form with the new password
  answers with a session cookie, provided a token is stored, and every request that carries this cookie and no bearer token
  is served.\<close>

theorem login_after_password_change:
  assumes "bcrypt_law v" "handleChangePassword v (Some (old, new)) st = (OkStatus, st1)" "settings_Get v st = (Inr s, st0)" "AuthToken s \<noteq> []"
  shows "\<exists>token st2. handleLoginPost v (Some new) st1 = (SeeOther ''/'' (Some token), st2) \<and>
     (\<forall>r. req_Session r = Some token \<and> \<not> HasPrefix (req_Authorization r) ''Bearer '' \<longrightarrow> fst (Middleware v r st2) = Served)"
proof -
  from assms(2) obtain st' where pw: "CheckPassword v old st = (True, st')" "SetPassword v new st' = (None, st1)"
    by (auto simp: handleChangePassword_def split: if_splits prod.splits bool.splits option.splits)
  have st': "st' = st0" using pw(1) assms(3) by (simp add: CheckPassword_def)
  have again: "settings_Get v st0 = (Inr s, st0)" using settings_Get_stable [OF assms(3)] by simp
  from pw(2) obtain h where h: "bcrypt_Generate v new = Inr h" "settings_Save v (s\<lparr>AuthPasswordHash := h\<rparr>) st0 = (None, st1)"
    by (auto simp: SetPassword_def fetch_None st' again split: if_splits sum.splits)
  have "fst st1 = \<lparr>cached = s\<lparr>AuthPasswordHash := h\<rparr>, loaded = True\<rparr>" using h(2) by (rule settings_Save_ok)
  then have got: "settings_Get v st1 = (Inr (s\<lparr>AuthPasswordHash := h\<rparr>), st1)" by (cases st1) simp
  have hash: "h \<noteq> []" "bcrypt_Compare v h new" using assms(1) h(1) by (auto simp: bcrypt_law_def)
  have "handleLoginPost v (Some new) st1 = (SeeOther ''/'' (Some (AuthToken s)), st1)"
    using hash assms(4) by (simp add: handleLoginPost_def CheckPassword_def GetToken_def got)
  moreover have "fst (Middleware v r st1) = Served" if "req_Session r = Some (AuthToken s)" "\<not> HasPrefix (req_Authorization r) ''Bearer ''" for r
    using that assms(4) by (simp add: Middleware_Served isAuthenticated_iff got presented_def)
  ultimately show ?thesis by blast
qed

theorem login_after_password_change_witness:
  "\<exists>token st2. handleLoginPost list_env (Some ''pw'')
     (snd (handleChangePassword list_env (Some (''split-vpn'', ''pw'')) (\<lparr>cached = empty_settings\<lparr>AuthToken := ''tok''\<rparr>, loaded = True\<rparr>, [])))
     = (SeeOther ''/'' (Some token), st2) \<and>
     fst (Middleware list_env \<lparr>req_Path = ''/'', req_Authorization = [], req_Session = Some token\<rparr> st2) = Served"
proof -
  let ?st = "(\<lparr>cached = empty_settings\<lparr>AuthToken := ''tok''\<rparr>, loaded = True\<rparr>, [])"
  have "bcrypt_law list_env" by (simp add: bcrypt_law_def list_env_def)
  moreover have "handleChangePassword list_env (Some (''split-vpn'', ''pw'')) ?st = (OkStatus, snd (handleChangePassword list_env (Some (''split-vpn'', ''pw'')) ?st))"
    by code_simp
  ultimately show ?thesis using login_after_password_change [of list_env "''split-vpn''" "''pw''" ?st _ "empty_settings\<lparr>AuthToken := ''tok''\<rparr>" ?st]
    by (fastforce simp: HasPrefix_def)
qed

end
