(* ===== verification/Prewarm_Config.thy ===== *)
theory Prewarm_Config
  imports App_Settings Addr_Text Vpn_Validate
begin

text \<open>
  The DNS pre-warmer, part one: its settings and what it makes of DNS answers. Settings text
  (\<^verbatim>\<open>internal/prewarm/config.go\<close>), the bounds of the numeric settings (\<^verbatim>\<open>scheduler_helpers.go\<close>), the filters on the answers
  of the three kinds of resolvers (\<^verbatim>\<open>doh.go\<close>, \<^verbatim>\<open>nameserver.go\<close>, \<^verbatim>\<open>wildcard.go\<close>; the network calls are parameters) and
  the settings handlers of the web interface (\<^verbatim>\<open>internal/server/handlers_settings.go\<close>).
\<close>


section \<open>Settings text\<close>

definition TrimSuffix :: "string \<Rightarrow> string \<Rightarrow> string" where
  "TrimSuffix s x = (if HasSuffix s x then take (length s - length x) s else s)"

fun crlf_to_lf :: "string \<Rightarrow> string" where
  "crlf_to_lf [] = []"
| "crlf_to_lf [c] = [c]"
| "crlf_to_lf (c # d # s) = (if c = CHR 0x0D \<and> d = CHR 0x0A then CHR 0x0A # crlf_to_lf s else c # crlf_to_lf (d # s))"

definition NormalizeMultilineSetting :: "string \<Rightarrow> string" where
  "NormalizeMultilineSetting raw = rev (dropWhile (\<lambda>c. c = CHR 0x0A) (rev (crlf_to_lf raw)))"

text \<open>The text of a line without its comment; \<open>None\<close> for a line to skip.\<close>

definition setting_value :: "string \<Rightarrow> string option" where
  "setting_value part =
     (let t = TrimSpace part; u = (if CHR ''#'' \<in> set t then TrimSpace (before_char (CHR ''#'') t) else t) in
      if t = [] \<or> HasPrefix t ''#'' \<or> u = [] then None else Some u)"

definition parseSettingLines :: "string \<Rightarrow> (nat \<times> string) list" where
  "parseSettingLines raw =
     List.map_filter (\<lambda>(i, part). map_option (Pair (Suc i)) (setting_value part))
       (enumerate 0 (Split (crlf_to_lf raw) (CHR 0x0A)))"

datatype setting_error =
    BadNameserver nat string | TooManyNameservers
  | MissingECS nat | BadECS nat string | BroadECS nat string | TooManyECS

definition maxExtraNameservers :: nat where "maxExtraNameservers = 16"
definition maxECSProfiles :: nat where "maxECSProfiles = 16"

fun nameserver_loop :: "string list \<Rightarrow> (nat \<times> string) list \<Rightarrow> setting_error + string list" where
  "nameserver_loop out [] = Inr out"
| "nameserver_loop out ((n, value) # ls) =
     (case ParseIP value of
        None \<Rightarrow> Inl (BadNameserver n value)
      | Some i \<Rightarrow>
          if IP_String i \<in> set out then nameserver_loop out ls
          else if length out + 1 > maxExtraNameservers then Inl TooManyNameservers
          else nameserver_loop (out @ [IP_String i]) ls)"

definition ParseNameserverLines :: "string \<Rightarrow> setting_error + string list" where
  "ParseNameserverLines raw = nameserver_loop [] (parseSettingLines raw)"

record ecs_profile =
  ecs_Name :: string
  ecs_Subnet :: string

definition ecs_parts :: "string \<Rightarrow> string \<times> string" where
  "ecs_parts value =
     (let subnet = TrimSpace value in
      if CHR ''='' \<in> set subnet \<and> before_char (CHR ''='') subnet \<noteq> []
      then (TrimSpace (before_char (CHR ''='') subnet), TrimSpace (after_char (CHR ''='') subnet)) else ([], subnet))"

definition ecs_line :: "nat \<Rightarrow> string \<Rightarrow> setting_error + ecs_profile" where
  "ecs_line n value =
     (case ecs_parts value of (name, subnet) \<Rightarrow>
        if subnet = [] then Inl (MissingECS n)
        else (case ParseCIDR subnet of
                None \<Rightarrow> Inl (BadECS n subnet)
              | Some c \<Rightarrow>
                  if cidr_prefix c = 0 then Inl (BroadECS n subnet)
                  else (let networkIP = (case To4 (cidr_net c) of Some v4 \<Rightarrow> v4 | None \<Rightarrow> cidr_net c);
                            normalized = IP_String networkIP @ ''/'' @ Itoa (int (cidr_prefix c))
                        in Inr \<lparr>ecs_Name = (if name = [] then normalized else name), ecs_Subnet = normalized\<rparr>)))"

fun ecs_loop :: "ecs_profile list \<Rightarrow> (nat \<times> string) list \<Rightarrow> setting_error + ecs_profile list" where
  "ecs_loop out [] = Inr out"
| "ecs_loop out ((n, value) # ls) =
     (case ecs_line n value of
        Inl e \<Rightarrow> Inl e
      | Inr p \<Rightarrow>
          if ecs_Subnet p \<in> set (map ecs_Subnet out) then ecs_loop out ls
          else if length out + 1 > maxECSProfiles then Inl TooManyECS
          else ecs_loop (out @ [p]) ls)"

definition ParseECSProfiles :: "string \<Rightarrow> setting_error + ecs_profile list" where
  "ParseECSProfiles raw = ecs_loop [] (parseSettingLines raw)"

definition nameserversFromSettings :: "settings \<Rightarrow> setting_error + string list" where
  "nameserversFromSettings current = ParseNameserverLines (PrewarmExtraNameservers current)"

definition ecsProfilesFromSettings :: "settings \<Rightarrow> setting_error + string list" where
  "ecsProfilesFromSettings current = map_sum id (map ecs_Subnet) (ParseECSProfiles (PrewarmECSProfiles current))"

definition validateQuerySettings :: "settings \<Rightarrow> setting_error option" where
  "validateQuerySettings current =
     (case nameserversFromSettings current of
        Inl e \<Rightarrow> Some e
      | Inr _ \<Rightarrow> (case ecsProfilesFromSettings current of Inl e \<Rightarrow> Some e | Inr _ \<Rightarrow> None))"

definition lenOrZero :: "string \<Rightarrow> nat" where
  "lenOrZero raw =
     length (filter (\<lambda>l. \<not> (TrimSpace l = [] \<or> HasPrefix (TrimSpace l) ''#'')) (Split (crlf_to_lf raw) (CHR 0x0A)))"


section \<open>Numeric settings\<close>

definition defaultIntervalSeconds :: int where "defaultIntervalSeconds = 7200"
definition maxIntervalSeconds :: int where "maxIntervalSeconds = 7 * 24 * 3600"
definition defaultTimeoutSeconds :: int where "defaultTimeoutSeconds = 10"
definition maxTimeoutSeconds :: int where "maxTimeoutSeconds = 60"
definition defaultParallelism :: int where "defaultParallelism = 4"
definition maxParallelism :: int where "maxParallelism = 64"
definition defaultQueryAttempts :: int where "defaultQueryAttempts = 3"
definition maxQueryAttempts :: int where "maxQueryAttempts = 10"

definition configuredParallelism :: "settings \<Rightarrow> int" where
  "configuredParallelism current =
     (if PrewarmParallelism current \<le> 0 then defaultParallelism
      else if PrewarmParallelism current > maxParallelism then maxParallelism else PrewarmParallelism current)"

definition configuredAttempts :: "settings \<Rightarrow> int" where
  "configuredAttempts current =
     (if PrewarmQueryAttempts current \<le> 0 then defaultQueryAttempts
      else if PrewarmQueryAttempts current > maxQueryAttempts then maxQueryAttempts else PrewarmQueryAttempts current)"

text \<open>Durations are in nanoseconds.\<close>

definition configuredTimeout :: "settings \<Rightarrow> int" where
  "configuredTimeout current =
     (let s0 = PrewarmDoHTimeoutSeconds current; s1 = (if s0 \<le> 0 then defaultTimeoutSeconds else s0);
          s2 = (if s1 > maxTimeoutSeconds then maxTimeoutSeconds else s1) in s2 * 1000000000)"

definition configuredInterval :: "settings \<Rightarrow> int" where
  "configuredInterval current =
     (let s0 = PrewarmIntervalSeconds current; s1 = (if s0 \<le> 0 then defaultIntervalSeconds else s0);
          s2 = (if s1 > maxIntervalSeconds then maxIntervalSeconds else s1) in s2 * 1000000000)"


section \<open>DNS answers\<close>

definition prewarm_normalizeDomain :: "string \<Rightarrow> string" where
  "prewarm_normalizeDomain domain = TrimSuffix (TrimPrefix (ToLower (TrimSpace domain)) ''*.'') ''.''"

datatype query_error = DomainRequired | TransportError string | StatusError int

datatype qtype = TypeA | TypeAAAA | TypeCNAME

definition wantType :: "qtype \<Rightarrow> int" where
  "wantType q = (case q of TypeA \<Rightarrow> 1 | TypeAAAA \<Rightarrow> 28 | TypeCNAME \<Rightarrow> 5)"

definition answer_value :: "qtype \<Rightarrow> int \<times> string \<Rightarrow> string option" where
  "answer_value q answer =
     (let d = TrimSpace (snd answer) in
      if fst answer \<noteq> wantType q \<or> d = [] then None
      else (case q of
              TypeA \<Rightarrow> (case ParseIP d of None \<Rightarrow> None | Some i \<Rightarrow> if To4 i = None then None else Some (IP_String i))
            | TypeAAAA \<Rightarrow> (case ParseIP d of None \<Rightarrow> None | Some i \<Rightarrow> if To4 i \<noteq> None then None else Some (IP_String i))
            | TypeCNAME \<Rightarrow> (let t = prewarm_normalizeDomain d in if t = [] then None else Some t)))"

text \<open>A DoH query: \<open>fetched\<close> is the decoded response of the HTTP request for a name, with its status and its answers.\<close>

definition doh_query :: "(string \<Rightarrow> string + int \<times> (int \<times> string) list) \<Rightarrow> string \<Rightarrow> qtype \<Rightarrow> query_error + string list" where
  "doh_query fetched domain q =
     (let name = prewarm_normalizeDomain domain in
      if name = [] then Inl DomainRequired
      else (case fetched name of
              Inl e \<Rightarrow> Inl (TransportError e)
            | Inr (status, answers) \<Rightarrow>
                if status \<noteq> 0 \<and> status \<noteq> 3 then Inl (StatusError status)
                else Inr (sort_strings (dedup (List.map_filter (answer_value q) answers)))))"

text \<open>A lookup at a nameserver: \<open>None\<close> of the looked-up value is the answer that the name does not exist.\<close>

definition fqdn :: "string \<Rightarrow> string" where
  "fqdn domain = (let t = TrimSpace domain in if t = [] then [] else if HasSuffix t ''.'' then t else t @ ''.'')"

definition lookupIPs :: "(string \<Rightarrow> string + ip list option) \<Rightarrow> string \<Rightarrow> bool \<Rightarrow> query_error + string list" where
  "lookupIPs lookup domain v4 =
     (let name = prewarm_normalizeDomain domain in
      if name = [] then Inl DomainRequired
      else (case lookup (fqdn name) of
              Inl e \<Rightarrow> Inl (TransportError e)
            | Inr None \<Rightarrow> Inr []
            | Inr (Some addrs) \<Rightarrow> Inr (sort_strings (dedup (map IP_String (filter (\<lambda>i. (To4 i \<noteq> None) = v4) addrs))))))"

definition nameserver_QueryCNAME :: "(string \<Rightarrow> string + string option) \<Rightarrow> string \<Rightarrow> query_error + string list" where
  "nameserver_QueryCNAME lookup domain =
     (let name = prewarm_normalizeDomain domain in
      if name = [] then Inl DomainRequired
      else (case lookup (fqdn name) of
              Inl e \<Rightarrow> Inl (TransportError e)
            | Inr None \<Rightarrow> Inr []
            | Inr (Some value) \<Rightarrow>
                (let target = prewarm_normalizeDomain value in if target = [] \<or> target = name then Inr [] else Inr [target])))"

definition NewNameserverClient :: "string \<Rightarrow> string option" where
  "NewNameserverClient serverIP =
     (case ParseIP (TrimSpace serverIP) of
        None \<Rightarrow> None
      | Some i \<Rightarrow> (let h = IP_String i in Some ((if CHR '':'' \<in> set h then ''['' @ h @ '']'' else h) @ '':53'')))"

datatype wildcard_error = WildcardRequired | WildcardInvalid domain_error | WildcardTransport string

definition wildcard_candidate :: "string \<Rightarrow> string \<Rightarrow> string option" where
  "wildcard_candidate baseDomain candidate =
     (let domain = prewarm_normalizeDomain candidate in
      if domain = [] then None
      else if domain \<noteq> baseDomain \<and> \<not> HasSuffix domain (''.'' @ baseDomain) then None
      else if ValidateDomain domain \<noteq> None then None
      else Some domain)"

text \<open>Discovery of subdomains at crt.sh: \<open>fetched\<close> is the list of \<^verbatim>\<open>name_value\<close> fields of the response.\<close>

definition wildcard_Resolve :: "(string \<Rightarrow> string + string list) \<Rightarrow> string \<Rightarrow> wildcard_error + string list" where
  "wildcard_Resolve fetched wildcard =
     (let baseDomain = prewarm_normalizeDomain wildcard in
      if baseDomain = [] then Inl WildcardRequired
      else (case ValidateDomain baseDomain of
              Some e \<Rightarrow> Inl (WildcardInvalid e)
            | None \<Rightarrow>
                (case fetched (''%.'' @ baseDomain) of
                   Inl e \<Rightarrow> Inl (WildcardTransport e)
                 | Inr payload \<Rightarrow>
                     Inr (sort_strings (dedup (List.map_filter (wildcard_candidate baseDomain)
                       (concat (map (\<lambda>v. Split v (CHR 0x0A)) payload))))))))"


section \<open>The settings handlers\<close>

text \<open>The JSON body of a settings request has every field but the credentials.\<close>

record settings_payload =
  pay_ListenInterface :: string
  pay_WANInterface :: string
  pay_PrewarmParallelism :: int
  pay_PrewarmDoHTimeoutSeconds :: int
  pay_PrewarmQueryAttempts :: int
  pay_PrewarmIntervalSeconds :: int
  pay_PrewarmExtraNameservers :: string
  pay_PrewarmECSProfiles :: string
  pay_ResolverParallelism :: int
  pay_ResolverTimeoutSeconds :: int
  pay_ResolverIntervalSeconds :: int
  pay_ResolverDomainTimeoutSeconds :: int
  pay_ResolverASNTimeoutSeconds :: int
  pay_ResolverWildcardTimeoutSeconds :: int
  pay_ResolverDomainEnabled :: "bool option"
  pay_ResolverASNEnabled :: "bool option"
  pay_ResolverWildcardEnabled :: "bool option"
  pay_DebugLogEnabled :: "bool option"
  pay_DebugLogLevel :: string

definition safe_settings :: "settings \<Rightarrow> settings" where
  "safe_settings current = current\<lparr>AuthPasswordHash := [], AuthToken := []\<rparr>"

definition handleGetSettings :: "'w settings_env \<Rightarrow> 'w settings_world \<Rightarrow> (string + settings) \<times> 'w settings_world" where
  "handleGetSettings v st = (case settings_Get v st of (r, st') \<Rightarrow> (map_sum id safe_settings r, st'))"

definition merge_payload :: "settings_payload \<Rightarrow> settings \<Rightarrow> settings" where
  "merge_payload p current =
     current\<lparr>ListenInterface := pay_ListenInterface p, WANInterface := pay_WANInterface p,
       PrewarmParallelism := pay_PrewarmParallelism p, PrewarmDoHTimeoutSeconds := pay_PrewarmDoHTimeoutSeconds p,
       PrewarmQueryAttempts := pay_PrewarmQueryAttempts p, PrewarmIntervalSeconds := pay_PrewarmIntervalSeconds p,
       PrewarmExtraNameservers := NormalizeMultilineSetting (pay_PrewarmExtraNameservers p),
       PrewarmECSProfiles := NormalizeMultilineSetting (pay_PrewarmECSProfiles p),
       ResolverParallelism := pay_ResolverParallelism p, ResolverTimeoutSeconds := pay_ResolverTimeoutSeconds p,
       ResolverIntervalSeconds := pay_ResolverIntervalSeconds p, ResolverDomainTimeoutSeconds := pay_ResolverDomainTimeoutSeconds p,
       ResolverASNTimeoutSeconds := pay_ResolverASNTimeoutSeconds p, ResolverWildcardTimeoutSeconds := pay_ResolverWildcardTimeoutSeconds p,
       ResolverDomainEnabled := pay_ResolverDomainEnabled p, ResolverASNEnabled := pay_ResolverASNEnabled p,
       ResolverWildcardEnabled := pay_ResolverWildcardEnabled p,
       DebugLogEnabled := (if pay_DebugLogEnabled p \<noteq> None then pay_DebugLogEnabled p else DebugLogEnabled current),
       DebugLogLevel := (if pay_DebugLogLevel p \<noteq> [] then ToLower (TrimSpace (pay_DebugLogLevel p)) else DebugLogLevel current)\<rparr>"

datatype save_response = SaveBadRequest | SaveFailed string | Saved bool

text \<open>
  \<^verbatim>\<open>handleSaveSettings\<close> up to the answer: what follows a successful save (configuring the log, refreshing the state,
  broadcasting) is the parameter \<open>refresh\<close>. The answer says whether the service restarts.
\<close>

definition handleSaveSettings ::
  "'w settings_env \<Rightarrow> bool \<Rightarrow> (string, 'w settings_world) proc \<Rightarrow> settings_payload option \<Rightarrow> 'w settings_world \<Rightarrow>
     save_response \<times> 'w settings_world" where
  "handleSaveSettings v systemdManaged refresh payload st =
     (case payload of
        None \<Rightarrow> (SaveBadRequest, st)
      | Some p \<Rightarrow>
          (case (ParseNameserverLines (NormalizeMultilineSetting (pay_PrewarmExtraNameservers p)),
                 ParseECSProfiles (NormalizeMultilineSetting (pay_PrewarmECSProfiles p))) of
             (Inl e, _) \<Rightarrow> (SaveBadRequest, st)
           | (Inr _, Inl e) \<Rightarrow> (SaveBadRequest, st)
           | (Inr _, Inr _) \<Rightarrow>
               (case settings_Get v st of
                  (Inl e, st1) \<Rightarrow> (SaveFailed e, st1)
                | (Inr current, st1) \<Rightarrow>
                    (let updated = merge_payload p current in
                     case and_then (settings_Save v updated) refresh st1 of
                       (Some e, st2) \<Rightarrow> (SaveFailed e, st2)
                     | (None, st2) \<Rightarrow>
                         (Saved (systemdManaged \<and> (ListenInterface current \<noteq> ListenInterface updated \<or> WANInterface current \<noteq> WANInterface updated)), st2)))))"


section \<open>Addresses are printed as they are read\<close>

lemma ParseIP_shape: "ParseIP s = Some i \<Longrightarrow> length i = 16 \<and> list_all (\<lambda>b. b < 256) i"
proof -
  assume "ParseIP s = Some i"
  then obtain a where "ParseAddr s = Some a" "i = As16 a" by (auto simp: ParseIP_def)
  then show ?thesis using ParseAddr_ok [of s a] by (cases a) (auto simp: As16_def v4InV6Prefix_def addr_ok_def bytes_ok_def)
qed

lemma ParseIP_String: "ParseIP s = Some i \<Longrightarrow> ParseIP (IP_String i) = Some i"
proof -
  assume "ParseIP s = Some i"
  then have i: "length i = 16" "list_all (\<lambda>b. b < 256) i" using ParseIP_shape by blast+
  show ?thesis
  proof (cases "take 12 i = v4InV6Prefix")
    case True
    then have "IP_String i = addr_String (Addr4 (drop 12 i))" using i(1) by (simp add: IP_String_def To4_def addr_String_def)
    moreover have "addr_ok (Addr4 (drop 12 i))" using i by (auto simp: addr_ok_def bytes_ok_def list_all_iff dest: in_set_dropD)
    ultimately have "ParseIP (IP_String i) = Some (v4InV6Prefix @ drop 12 i)" by (simp add: ParseIP_def ParseAddr_String As16_def)
    then show ?thesis using True by (metis append_take_drop_id)
  next
    case False
    then have "IP_String i = addr_String (Addr6 i)" using i(1) by (simp add: IP_String_def To4_def addr_String_def)
    moreover have "addr_ok (Addr6 i)" using i by (simp add: addr_ok_def bytes_ok_def)
    ultimately show ?thesis by (simp add: ParseIP_def ParseAddr_String As16_def)
  qed
qed

definition canonical_ip :: "string \<Rightarrow> bool" where
  "canonical_ip s \<longleftrightarrow> (case ParseIP s of None \<Rightarrow> False | Some i \<Rightarrow> IP_String i = s)"

lemma canonical_IP_String: "ParseIP s = Some i \<Longrightarrow> canonical_ip (IP_String i)"
  by (simp add: canonical_ip_def ParseIP_String)

definition addr_char :: "char \<Rightarrow> bool" where
  "addr_char c \<longleftrightarrow> hex_digit c \<or> c = CHR ''.'' \<or> c = CHR '':''"

lemma addr_char_code: "addr_char c \<Longrightarrow> 46 \<le> code c"
proof -
  assume "addr_char c"
  then consider "is_digit c" | "lower_char c \<in> set ''abcdef''" | "c = CHR ''.'' \<or> c = CHR '':''" by (auto simp: addr_char_def hex_digit_def)
  then show ?thesis
  proof cases
    case 2
    then have "97 \<le> code (lower_char c)" by auto
    then show ?thesis by (simp add: code_lower_char split: if_splits)
  qed (auto simp: is_digit_def)
qed

lemma addr_char_plain: "addr_char c \<Longrightarrow> \<not> is_space c \<and> c \<noteq> CHR ''#'' \<and> c \<noteq> CHR 0x0A \<and> c \<noteq> CHR 0x0D"
  using addr_char_code [of c] by (auto simp: is_space_def)

lemma show_ip4_chars: "list_all addr_char (show_ip4 bs)"
  using show_base_all_digits by (fastforce simp: list_all_iff show_ip4_def all_digits_def addr_char_def hex_digit_def is_digit_def dest!: set_Join)

lemma show_ip6_chars: "list_all addr_char (show_ip6 bs)"
  using show_hex_digits by (fastforce simp: list_all_iff show_ip6_def Let_def addr_char_def split: prod.splits if_splits dest!: set_Join)

lemma IP_String_chars: "list_all addr_char (IP_String i)"
  using show_ip4_chars show_ip6_chars by (simp add: IP_String_def split: option.splits)

lemma canonical_ip_plain: "canonical_ip s \<Longrightarrow> s \<noteq> [] \<and> list_all addr_char s"
proof -
  assume s: "canonical_ip s"
  then obtain i where i: "ParseIP s = Some i" "IP_String i = s" by (auto simp: canonical_ip_def split: option.splits)
  have "s \<noteq> []" using i(1) by (auto simp: ParseIP_def ParseAddr_def)
  then show ?thesis using IP_String_chars [of i] i(2) by simp
qed

lemma setting_value_canonical: "canonical_ip s \<Longrightarrow> setting_value s = Some s"
proof -
  assume "canonical_ip s"
  then have s: "s \<noteq> []" "list_all addr_char s" using canonical_ip_plain by blast+
  then have "TrimSpace s = s" "CHR ''#'' \<notin> set s" "\<not> HasPrefix s ''#''"
    using addr_char_plain by (fastforce intro!: TrimSpace_id no_space_trimmed simp: list_all_iff, force simp: list_all_iff, fastforce simp: HasPrefix_iff)
  then show ?thesis using s(1) by (simp add: setting_value_def Let_def)
qed

lemma crlf_to_lf_id: "CHR 0x0D \<notin> set s \<Longrightarrow> crlf_to_lf s = s"
  by (induction s rule: crlf_to_lf.induct) auto

lemma canonical_no_breaks: "canonical_ip s \<Longrightarrow> CHR 0x0A \<notin> set s \<and> CHR 0x0D \<notin> set s"
  using canonical_ip_plain [of s] addr_char_plain by (fastforce simp: list_all_iff)

lemma map_filter_enumerate:
  "(\<And>x. x \<in> set xs \<Longrightarrow> f x = Some x) \<Longrightarrow>
   List.map_filter (\<lambda>(i, x). map_option (Pair (Suc i)) (f x)) (enumerate n xs) = enumerate (Suc n) xs"
  by (induction xs arbitrary: n) (auto simp: map_filter_simps)

lemma parseSettingLines_canonical:
  assumes "list_all canonical_ip ns" "ns \<noteq> []"
  shows "parseSettingLines (Join ns [CHR 0x0A]) = enumerate 1 ns"
proof -
  have "CHR 0x0D \<notin> set (Join ns [CHR 0x0A])" using assms(1) canonical_no_breaks by (auto simp: list_all_iff dest!: set_Join)
  moreover have "Split (Join ns [CHR 0x0A]) (CHR 0x0A) = ns" using assms canonical_no_breaks by (intro Split_Join) (auto simp: list_all_iff)
  ultimately show ?thesis
    using assms(1) by (simp add: parseSettingLines_def crlf_to_lf_id list_all_iff setting_value_canonical map_filter_enumerate)
qed

lemma nameserver_loop_ok:
  "nameserver_loop out ls = Inr ns \<Longrightarrow> distinct out \<Longrightarrow> list_all canonical_ip out \<Longrightarrow> length out \<le> maxExtraNameservers \<Longrightarrow>
   distinct ns \<and> list_all canonical_ip ns \<and> length ns \<le> maxExtraNameservers"
proof (induction out ls rule: nameserver_loop.induct)
  case (2 out n val ls)
  then obtain i where i: "ParseIP val = Some i" by (auto split: option.splits)
  show ?case using "2.prems" "2.IH"(1) [OF i] "2.IH"(2) [OF i] canonical_IP_String [OF i] by (simp add: i split: if_splits)
qed simp

lemma nameserver_loop_accepts:
  "list_all canonical_ip ns \<Longrightarrow> distinct (out @ ns) \<Longrightarrow> length (out @ ns) \<le> maxExtraNameservers \<Longrightarrow>
   nameserver_loop out (enumerate n ns) = Inr (out @ ns)"
proof (induction ns arbitrary: out n)
  case (Cons a ns)
  then obtain i where i: "ParseIP a = Some i" "IP_String i = a" by (auto simp: canonical_ip_def split: option.splits)
  have "nameserver_loop (out @ [a]) (enumerate (Suc n) ns) = Inr ((out @ [a]) @ ns)" using Cons.prems by (intro Cons.IH) auto
  with Cons.prems i show ?case by simp
qed simp

text \<open>What the nameserver setting means. The accepted nameservers are pairwise different addresses in canonical form, at most
  sixteen; writing them one per line and parsing the text again gives the same list.\<close>

theorem ParseNameserverLines_canonical:
  assumes "ParseNameserverLines raw = Inr ns"
  shows "distinct ns \<and> length ns \<le> maxExtraNameservers \<and> list_all canonical_ip ns \<and> ParseNameserverLines (Join ns [CHR 0x0A]) = Inr ns"
proof -
  have ns: "distinct ns" "list_all canonical_ip ns" "length ns \<le> maxExtraNameservers"
    using nameserver_loop_ok [OF assms [unfolded ParseNameserverLines_def]] by simp_all
  have "ParseNameserverLines (Join ns [CHR 0x0A]) = Inr ns"
  proof (cases "ns = []")
    case True
    have "ParseNameserverLines [] = Inr []" by code_simp
    then show ?thesis using True by simp
  next
    case False
    then show ?thesis using nameserver_loop_accepts [of ns "[]" 1] ns by (simp add: ParseNameserverLines_def parseSettingLines_canonical)
  qed
  with ns show ?thesis by simp
qed

theorem ParseNameserverLines_canonical_witness:
  "ParseNameserverLines (Join [''1.1.1.1'', ''2606:4700::1111''] [CHR 0x0A]) = Inr [''1.1.1.1'', ''2606:4700::1111'']"
proof -
  have "ParseNameserverLines (''1.1.1.1 # cloudflare'' @ [CHR 0x0D, CHR 0x0A] @ ''2606:4700:0:0:0:0:0:1111'') = Inr [''1.1.1.1'', ''2606:4700::1111'']" by code_simp
  from ParseNameserverLines_canonical [OF this] show ?thesis by simp
qed

text \<open>The same rewriting of an IPv4-mapped block as in the selectors of rules: the stored subnet is not a block any more.\<close>

lemma ParseECSProfiles_mapped:
  "ParseECSProfiles ''::ffff:1.2.3.4/120'' = Inr [\<lparr>ecs_Name = ''1.2.3.0/120'', ecs_Subnet = ''1.2.3.0/120''\<rparr>] \<and> ParseCIDR ''1.2.3.0/120'' = None"
  by code_simp


section \<open>Answers have the queried type\<close>

definition typed_answer :: "qtype \<Rightarrow> string \<Rightarrow> bool" where
  "typed_answer q s =
     (case q of
        TypeA \<Rightarrow> canonical_ip s \<and> To4 (the (ParseIP s)) \<noteq> None
      | TypeAAAA \<Rightarrow> canonical_ip s \<and> To4 (the (ParseIP s)) = None
      | TypeCNAME \<Rightarrow> s \<noteq> [] \<and> (\<exists>d. s = prewarm_normalizeDomain d))"

lemma answer_value_typed: "answer_value q a = Some s \<Longrightarrow> typed_answer q s"
  using canonical_IP_String ParseIP_String by (fastforce simp: answer_value_def typed_answer_def Let_def split: if_splits qtype.splits option.splits)

lemma map_filter_in: "y \<in> set (List.map_filter f xs) \<Longrightarrow> \<exists>x \<in> set xs. f x = Some y"
  by (auto simp: List.map_filter_def)

lemma sorted_sort_strings: "sorted (sort_strings xs)"
  by (simp add: sort_strings_def)

text \<open>Whatever a DNS-over-HTTPS server answers, the result of a query is sorted without repetition and of the queried type: an A
  query gives canonical IPv4 addresses, an AAAA query canonical IPv6 addresses that are not mapped IPv4 addresses, a CNAME query
  non-empty normalised names; this is what is inserted into the typed ipsets.\<close>

theorem doh_query_typed:
  assumes "doh_query fetched domain q = Inr answers"
  shows "sorted answers \<and> distinct answers \<and> list_all (typed_answer q) answers"
proof -
  from assms obtain as where a: "answers = sort_strings (dedup (List.map_filter (answer_value q) as))"
    by (auto simp: doh_query_def Let_def split: if_splits sum.splits)
  have "list_all (typed_answer q) answers" using answer_value_typed by (auto simp: a list_all_iff dest!: map_filter_in)
  then show ?thesis by (simp add: a sorted_sort_strings)
qed

theorem doh_query_typed_witness:
  "list_all (typed_answer TypeAAAA) [''2606:4700::1'']"
proof -
  have "doh_query (\<lambda>n. Inr (0, [(28, ''2606:4700::1''), (28, ''::ffff:1.2.3.4''), (1, ''1.1.1.1'')])) ''Example.org.'' TypeAAAA = Inr [''2606:4700::1'']"
    by code_simp
  from doh_query_typed [OF this] show ?thesis by simp
qed


section \<open>Saving settings\<close>

lemma merge_payload_credentials:
  "AuthPasswordHash (merge_payload p s) = AuthPasswordHash s \<and> AuthToken (merge_payload p s) = AuthToken s"
  by (simp add: merge_payload_def)

text \<open>C28: The settings page cannot touch the credentials and cannot store a pre-warm configuration that does not parse. When the
  settings can be read, then after \<^verbatim>\<open>handleSaveSettings\<close>, whatever it is sent and whether it succeeds or fails, password hash and
  token are unchanged; when it reports success, the stored settings pass the check with which a pre-warm run starts. What runs
  after the save must not write settings itself.\<close>

theorem handleSaveSettings_safe:
  assumes "settings_law v file" "settings_Get v st = (Inr s, st0)" "\<forall>st. fst (snd (refresh st)) = fst st"
    and "handleSaveSettings v managed refresh payload st = (answer, st')"
  shows "\<exists>s'. fst (settings_Get v st') = Inr s' \<and> AuthPasswordHash s' = AuthPasswordHash s \<and> AuthToken s' = AuthToken s \<and>
     (case answer of Saved restart \<Rightarrow> validateQuerySettings s' = None | _ \<Rightarrow> True)"
proof (cases "answer = SaveBadRequest \<and> st' = st")
  case True
  then show ?thesis using assms(2) by simp
next
  case False
  with assms(2,4) obtain p ns ecs r where p: "payload = Some p" "ParseNameserverLines (NormalizeMultilineSetting (pay_PrewarmExtraNameservers p)) = Inr ns"
      "ParseECSProfiles (NormalizeMultilineSetting (pay_PrewarmECSProfiles p)) = Inr ecs"
    and run: "and_then (settings_Save v (merge_payload p s)) refresh st0 = (r, st')" and ans: "answer = SaveBadRequest \<or> (\<exists>e. answer = SaveFailed e) \<or> r = None"
    by (auto simp: handleSaveSettings_def Let_def split: option.splits sum.splits prod.splits)
  have valid: "validateQuerySettings (merge_payload p s) = None"
    using p by (simp add: validateQuerySettings_def nameserversFromSettings_def ecsProfilesFromSettings_def merge_payload_def)
  from run show ?thesis
  proof (cases rule: and_then_cases)
    case (first e)
    have "fst st' = fst st0" using settings_Save_disk [OF assms(1) first(1)] by simp
    then have "fst (settings_Get v st') = Inr s"
      using settings_Get_stable [OF assms(2)] assms(2) by (cases st'; cases st0; cases st) (auto simp: settings_Get_def split: if_splits file_read.splits sum.splits)
    then show ?thesis using ans first(2) by (auto split: save_response.splits)
  next
    case (both st1)
    have "fst st' = \<lparr>cached = merge_payload p s, loaded = True\<rparr>"
      using assms(3) settings_Save_ok [OF both(1)] both(2) by (metis snd_conv)
    then have "fst (settings_Get v st') = Inr (merge_payload p s)" by (cases st') simp
    then show ?thesis using valid merge_payload_credentials by (auto split: save_response.splits)
  qed
qed

definition blank_payload :: settings_payload where
  "blank_payload = \<lparr>pay_ListenInterface = [], pay_WANInterface = [], pay_PrewarmParallelism = 0, pay_PrewarmDoHTimeoutSeconds = 0,
     pay_PrewarmQueryAttempts = 0, pay_PrewarmIntervalSeconds = 0, pay_PrewarmExtraNameservers = [], pay_PrewarmECSProfiles = [],
     pay_ResolverParallelism = 0, pay_ResolverTimeoutSeconds = 0, pay_ResolverIntervalSeconds = 0, pay_ResolverDomainTimeoutSeconds = 0,
     pay_ResolverASNTimeoutSeconds = 0, pay_ResolverWildcardTimeoutSeconds = 0, pay_ResolverDomainEnabled = None,
     pay_ResolverASNEnabled = None, pay_ResolverWildcardEnabled = None, pay_DebugLogEnabled = None, pay_DebugLogLevel = []\<rparr>"

theorem handleSaveSettings_safe_witness:
  "\<exists>s'. fst (settings_Get list_env (snd (handleSaveSettings list_env True skip_ok (Some blank_payload) (NewManager, [(''/data/s.json'', ''$pw'' @ CHR 0x0A # ''tok'')])))) = Inr s' \<and>
     AuthPasswordHash s' = ''$pw'' \<and> AuthToken s' = ''tok''"
proof -
  let ?s = "empty_settings\<lparr>AuthPasswordHash := ''$pw'', AuthToken := ''tok''\<rparr>"
  let ?st = "(NewManager, [(''/data/s.json'', ''$pw'' @ CHR 0x0A # ''tok'')])"
  have "settings_Get list_env ?st = (Inr ?s, snd (settings_Get list_env ?st))" by code_simp
  from handleSaveSettings_safe [OF list_env_law this _ surjective_pairing, of skip_ok True "Some blank_payload"]
  show ?thesis by auto
qed

end
