(* ===== verification/Prewarm_Worker.thy ===== *)
theory Prewarm_Worker
  imports Prewarm_Config Routing_Manager "HOL-Library.Multiset"
begin

text \<open>
  The DNS pre-warmer, part two: one run (\<^verbatim>\<open>internal/prewarm/tasks.go\<close>, \<^verbatim>\<open>progress.go\<close>, \<^verbatim>\<open>worker.go\<close>, \<^verbatim>\<open>worker_query.go\<close>,
  \<^verbatim>\<open>worker_resolvers.go\<close>, \<^verbatim>\<open>worker_helpers.go\<close>). A run resolves the domains of all rules over every active VPN interface in many
  goroutines. Shared state is touched in short locked sections only: \<open>record_event\<close> is the section of a query that finished inside a
  task, \<open>merge_result\<close> the section of a task that finished inside the run, \<open>noteResolverResult\<close> the update of the health of a resolver. A
  run is the list of these sections in the order the lock was taken; the theorems quantify over all orders. The queries themselves
  are parameters, as is the context that may be cancelled.
\<close>


section \<open>Tasks and progress\<close>

record domain_task =
  task_GroupName :: string
  task_SetV4 :: string
  task_SetV6 :: string
  task_Domain :: string
  task_Wildcard :: bool

definition tasks_for :: "string \<Rightarrow> string \<Rightarrow> string \<Rightarrow> (string \<Rightarrow> bool) \<Rightarrow> string list \<Rightarrow> domain_task list" where
  "tasks_for groupName setV4 setV6 wildcard raws =
     map (\<lambda>raw. \<lparr>task_GroupName = groupName, task_SetV4 = setV4, task_SetV6 = setV6, task_Domain = prewarm_normalizeDomain raw,
        task_Wildcard = wildcard raw\<rparr>) (filter (\<lambda>raw. prewarm_normalizeDomain raw \<noteq> []) raws)"

definition rule_tasks :: "string \<Rightarrow> int \<times> routing_rule \<Rightarrow> domain_task list" where
  "rule_tasks groupName ir =
     (let sets = RuleSetNames groupName (fst ir) in
      tasks_for groupName (DestinationV4 sets) (DestinationV6 sets) (\<lambda>_. False) (Domains (snd ir)) @
      tasks_for groupName (DestinationV4 sets) (DestinationV6 sets) (\<lambda>_. True) (WildcardDomains (snd ir)))"

definition group_tasks :: "domain_group \<Rightarrow> domain_task list" where
  "group_tasks grp =
     (if Rules grp \<noteq> [] then concat (map (rule_tasks (group_Name grp)) (indexed (Rules grp)))
      else (case GroupSetNames (group_Name grp) of (setV4, setV6) \<Rightarrow>
             tasks_for (group_Name grp) setV4 setV6 (\<lambda>raw. HasPrefix (TrimSpace (ToLower raw)) ''*.'') (group_Domains grp)))"

text \<open>The sort of the sources is not stable; it only decides in which order equal names are resolved.\<close>

definition buildTasks :: "domain_group list \<Rightarrow> domain_task list" where
  "buildTasks groups = sort_key (\<lambda>t. (task_GroupName t, task_Domain t)) (concat (map group_tasks groups))"

record vpn_progress =
  vpn_TotalDomains :: int
  vpn_DomainsProcessed :: int
  vpn_IPsInserted :: int
  vpn_Errors :: int

record run_progress =
  pr_StartedAt :: int
  pr_TotalDomains :: int
  pr_ProcessedDomains :: int
  pr_TotalIPs :: int
  pr_PerVPN :: "string \<rightharpoonup> vpn_progress"

definition zero_vpn :: vpn_progress where
  "zero_vpn = \<lparr>vpn_TotalDomains = 0, vpn_DomainsProcessed = 0, vpn_IPsInserted = 0, vpn_Errors = 0\<rparr>"

definition initial_progress :: "int \<Rightarrow> nat \<Rightarrow> string list \<Rightarrow> run_progress" where
  "initial_progress now n ifaces =
     \<lparr>pr_StartedAt = now, pr_TotalDomains = int n, pr_ProcessedDomains = 0, pr_TotalIPs = 0,
      pr_PerVPN = (\<lambda>i. if i \<in> set ifaces then Some (zero_vpn\<lparr>vpn_TotalDomains := int n\<rparr>) else None)\<rparr>"

record run_stats =
  st_DomainsTotal :: int
  st_DomainsDone :: int
  st_IPsInserted :: int
  st_Progress :: run_progress
  st_CacheSnapshot :: prewarm_snapshot


section \<open>The worker\<close>

definition maxSafeWorkerParallelism :: int where "maxSafeWorkerParallelism = 64"
definition defaultWorkerAttempts :: int where "defaultWorkerAttempts = 3"
definition maxSafeWorkerAttempts :: int where "maxSafeWorkerAttempts = 10"
definition defaultWorkerQueryTimeout :: int where "defaultWorkerQueryTimeout = 10 * 1000000000"
definition defaultResolverFailureThreshold :: int where "defaultResolverFailureThreshold = 10"

text \<open>Resolvers: the primary DoH client, nameservers by their socket address, ECS profiles by their subnet.\<close>

datatype resolver = PrimaryDoH | Nameserver string | GoogleECS string

fun add_nameservers :: "string list \<Rightarrow> string list \<Rightarrow> string + (string \<times> resolver) list" where
  "add_nameservers seen [] = Inr []"
| "add_nameservers seen (ns # nss) =
     (let n = TrimSpace ns in
      if n = [] \<or> n \<in> set seen then add_nameservers seen nss
      else (case NewNameserverClient n of
              None \<Rightarrow> Inl n
            | Some addr \<Rightarrow> map_sum id (Cons (n, Nameserver addr)) (add_nameservers (n # seen) nss)))"

definition add_profiles :: "string list \<Rightarrow> resolver list" where
  "add_profiles ecsProfiles = map GoogleECS (dedup (filter (\<lambda>s. s \<noteq> []) (map TrimSpace ecsProfiles)))"

definition buildQueryResolvers :: "string list \<Rightarrow> string list \<Rightarrow> string + resolver list" where
  "buildQueryResolvers extraNameservers ecsProfiles =
     map_sum id (\<lambda>nss. PrimaryDoH # map snd nss @ add_profiles ecsProfiles) (add_nameservers [] extraNameservers)"

definition resolverLabel :: "resolver \<Rightarrow> string" where
  "resolverLabel r =
     (case r of
        PrimaryDoH \<Rightarrow> ''cloudflare-dns.com''
      | Nameserver addr \<Rightarrow> ''dns://'' @ addr
      | GoogleECS subnet \<Rightarrow> ''dns.google ecs='' @ subnet)"

record resolver_gate =
  gate_label :: string
  gate_failures :: int
  gate_disabled :: bool

record worker =
  wk_resolvers :: "resolver list"
  wk_gates :: "resolver_gate list"
  wk_threshold :: int
  wk_parallel :: int
  wk_attempts :: int
  wk_timeout :: int

record worker_options =
  opt_Parallelism :: int
  opt_Timeout :: int
  opt_Attempts :: int
  opt_ResolverFailureThreshold :: int
  opt_ExtraNameservers :: "string list"
  opt_ECSProfiles :: "string list"

definition NewWorker :: "worker_options \<Rightarrow> string + worker" where
  "NewWorker opts =
     (case buildQueryResolvers (opt_ExtraNameservers opts) (opt_ECSProfiles opts) of
        Inl e \<Rightarrow> Inl e
      | Inr resolvers \<Rightarrow>
          (let p0 = (if opt_Parallelism opts \<le> 0 then defaultParallelism else opt_Parallelism opts);
               parallelism = (if p0 > maxSafeWorkerParallelism then maxSafeWorkerParallelism else p0);
               a0 = (if opt_Attempts opts \<le> 0 then defaultWorkerAttempts else opt_Attempts opts);
               attempts = (if a0 > maxSafeWorkerAttempts then maxSafeWorkerAttempts else a0)
           in Inr \<lparr>wk_resolvers = resolvers, wk_gates = map (\<lambda>r. \<lparr>gate_label = resolverLabel r, gate_failures = 0, gate_disabled = False\<rparr>) resolvers,
                wk_threshold = (if opt_ResolverFailureThreshold opts \<le> 0 then defaultResolverFailureThreshold else opt_ResolverFailureThreshold opts),
                wk_parallel = parallelism, wk_attempts = attempts,
                wk_timeout = (if opt_Timeout opts \<le> 0 then defaultWorkerQueryTimeout else opt_Timeout opts)\<rparr>))"

definition isManagedVPNInterface :: "string \<Rightarrow> bool" where
  "isManagedVPNInterface name =
     (let l = ToLower (TrimSpace name) in HasPrefix l ''wg-sv-'' \<or> HasPrefix l ''awg-sv-'')"

text \<open>\<open>ifaceUp\<close> is \<open>None\<close> on an error. A name is recorded as seen only when it is up, so a name that is down is asked again.\<close>

definition active_among :: "(string \<Rightarrow> bool option) \<Rightarrow> string list \<Rightarrow> string list" where
  "active_among ifaceUp names = dedup (filter (\<lambda>n. n \<noteq> [] \<and> ifaceUp n = Some True) (map TrimSpace names))"

definition activeManagedVPNInterfaces :: "(string \<Rightarrow> bool option) \<Rightarrow> (string + string list) \<Rightarrow> string + string list" where
  "activeManagedVPNInterfaces ifaceUp ifaceList =
     map_sum id (\<lambda>names. sort_strings (active_among ifaceUp (filter isManagedVPNInterface names))) ifaceList"

definition activeInterfaces ::
  "(string + vpn_profile option list) \<Rightarrow> (string \<Rightarrow> bool option) \<Rightarrow> (string + string list) \<Rightarrow> string + string list" where
  "activeInterfaces vpns ifaceUp ifaceList =
     (case vpns of
        Inl e \<Rightarrow> Inl e
      | Inr profiles \<Rightarrow>
          (let active0 = active_among ifaceUp (map vp_InterfaceName (List.map_filter id profiles));
               active = (if active0 = []
                         then (case activeManagedVPNInterfaces ifaceUp ifaceList of Inl _ \<Rightarrow> [] | Inr fallback \<Rightarrow> fallback)
                         else active0)
           in if active = [] then Inl ''no active vpn interfaces found'' else Inr (sort_strings active)))"


section \<open>Queries\<close>

text \<open>One attempt after another, stopped by the first success or by the cancelled context.\<close>

fun retry_loop ::
  "nat \<Rightarrow> ('w \<Rightarrow> 'e option) \<Rightarrow> ('w \<Rightarrow> ('e + 'a) \<times> 'w) \<Rightarrow> 'e option \<Rightarrow> 'w \<Rightarrow> ('e option + 'a) \<times> 'w" where
  "retry_loop 0 ctxErr fn lastErr w = (Inl lastErr, w)"
| "retry_loop (Suc n) ctxErr fn lastErr w =
     (case ctxErr w of
        Some e \<Rightarrow> (Inl (Some e), w)
      | None \<Rightarrow>
          (case fn w of
             (Inr a, w') \<Rightarrow> (Inr a, w')
           | (Inl e, w') \<Rightarrow> (case ctxErr w' of Some c \<Rightarrow> (Inl (Some c), w') | None \<Rightarrow> retry_loop n ctxErr fn (Some e) w')))"

definition retryQuery :: "int \<Rightarrow> ('w \<Rightarrow> 'e option) \<Rightarrow> ('w \<Rightarrow> ('e + 'a) \<times> 'w) \<Rightarrow> 'w \<Rightarrow> ('e option + 'a) \<times> 'w" where
  "retryQuery attempts ctxErr fn w = retry_loop (nat (if attempts < 1 then 1 else attempts)) ctxErr fn None w"

definition resolverEnabled :: "worker \<Rightarrow> nat \<Rightarrow> bool" where
  "resolverEnabled wk idx \<longleftrightarrow> \<not> gate_disabled (wk_gates wk ! idx)"

definition resolverAttempts :: "worker \<Rightarrow> nat \<Rightarrow> int" where
  "resolverAttempts wk idx = (if gate_failures (wk_gates wk ! idx) > 0 then 1 else wk_attempts wk)"

definition note_gate :: "int \<Rightarrow> bool \<Rightarrow> resolver_gate \<Rightarrow> resolver_gate" where
  "note_gate threshold ok g =
     (if ok then g\<lparr>gate_failures := 0\<rparr>
      else g\<lparr>gate_failures := gate_failures g + 1, gate_disabled := gate_disabled g \<or> gate_failures g + 1 \<ge> threshold\<rparr>)"

definition noteResolverResult :: "nat \<Rightarrow> bool \<Rightarrow> worker \<Rightarrow> worker" where
  "noteResolverResult idx ok wk =
     wk\<lparr>wk_gates := (wk_gates wk)[idx := note_gate (wk_threshold wk) ok (wk_gates wk ! idx)]\<rparr>"

text \<open>
  The shared variables of \<^verbatim>\<open>processTask\<close> and its locked sections: a query of an interface that failed, and one that returned. The
  sets of the sources are kept as lists.
\<close>

record task_acc =
  acc_targets :: "string set"
  acc_errors :: "string \<Rightarrow> int"
  acc_ifaceV4 :: "string \<Rightarrow> string set"
  acc_ifaceV6 :: "string \<Rightarrow> string set"
  acc_V4 :: "string set"
  acc_V6 :: "string set"

datatype query_event = QueryFailed string | GotCNAME "string list" | GotA string "string list" | GotAAAA string "string list"

definition initial_acc :: "domain_task \<Rightarrow> task_acc" where
  "initial_acc task = \<lparr>acc_targets = {task_Domain task}, acc_errors = (\<lambda>_. 0), acc_ifaceV4 = (\<lambda>_. {}), acc_ifaceV6 = (\<lambda>_. {}), acc_V4 = {}, acc_V6 = {}\<rparr>"

definition add_targets :: "string list \<Rightarrow> task_acc \<Rightarrow> task_acc" where
  "add_targets names a = a\<lparr>acc_targets := acc_targets a \<union> (set (map prewarm_normalizeDomain names) - {[]})\<rparr>"

definition wildcard_phase :: "domain_task \<Rightarrow> string list \<Rightarrow> ('e + string list) \<Rightarrow> task_acc \<Rightarrow> task_acc" where
  "wildcard_phase task ifaces discovered a =
     (if task_Wildcard task
      then (case discovered of
              Inl e \<Rightarrow> a\<lparr>acc_errors := (\<lambda>i. acc_errors a i + int (count_list ifaces i))\<rparr>
            | Inr names \<Rightarrow> add_targets names a)
      else a)"

definition record_event :: "query_event \<Rightarrow> task_acc \<Rightarrow> task_acc" where
  "record_event ev a =
     (case ev of
        QueryFailed iface \<Rightarrow> a\<lparr>acc_errors := (acc_errors a)(iface := acc_errors a iface + 1)\<rparr>
      | GotCNAME cnames \<Rightarrow> add_targets cnames a
      | GotA iface ips \<Rightarrow> a\<lparr>acc_V4 := acc_V4 a \<union> set ips, acc_ifaceV4 := (acc_ifaceV4 a)(iface := acc_ifaceV4 a iface \<union> set ips)\<rparr>
      | GotAAAA iface ips \<Rightarrow> a\<lparr>acc_V6 := acc_V6 a \<union> set ips, acc_ifaceV6 := (acc_ifaceV6 a)(iface := acc_ifaceV6 a iface \<union> set ips)\<rparr>)"

record task_result =
  res_Inserted :: int
  res_PerVPNIPs :: "string \<rightharpoonup> int"
  res_PerVPNErrors :: "string \<Rightarrow> int"
  res_PerVPNDomains :: "string \<rightharpoonup> int"
  res_V4 :: "string list"
  res_V6 :: "string list"

definition mapKeysSorted :: "string set \<Rightarrow> string list" where
  "mapKeysSorted keys = sorted_list_of_set keys"

definition task_result_of :: "string list \<Rightarrow> task_acc \<Rightarrow> task_result" where
  "task_result_of ifaces a =
     (let v4 = mapKeysSorted (acc_V4 a); v6 = mapKeysSorted (acc_V6 a) in
      \<lparr>res_Inserted = int (length v4 + length v6),
       res_PerVPNIPs = (\<lambda>i. if i \<in> set ifaces then Some (int (card (acc_ifaceV4 a i) + card (acc_ifaceV6 a i))) else None),
       res_PerVPNErrors = acc_errors a, res_PerVPNDomains = (\<lambda>i. if i \<in> set ifaces then Some 1 else None), res_V4 = v4, res_V6 = v6\<rparr>)"

text \<open>A task that is not cancelled: the phase of the wildcard, then the finished queries in some order.\<close>

definition processTask :: "domain_task \<Rightarrow> string list \<Rightarrow> ('e + string list) \<Rightarrow> query_event list \<Rightarrow> task_result" where
  "processTask task ifaces discovered events =
     task_result_of ifaces (fold record_event events (wildcard_phase task ifaces discovered (initial_acc task)))"


section \<open>The run\<close>

text \<open>The caches of the run: per set name the addresses found so far.\<close>

type_synonym ip_cache = "(string \<times> string set) list"

record run_acc =
  ra_progress :: run_progress
  ra_cacheV4 :: ip_cache
  ra_cacheV6 :: ip_cache

definition cached_ips :: "ip_cache \<Rightarrow> string \<Rightarrow> string set" where
  "cached_ips cache setName = (case map_of cache setName of None \<Rightarrow> {} | Some s \<Rightarrow> s)"

definition appendSetIPs :: "string \<Rightarrow> string list \<Rightarrow> ip_cache \<Rightarrow> ip_cache" where
  "appendSetIPs setName ips cache =
     (if ips = [] \<or> TrimSpace setName = [] then cache
      else AList.update setName (cached_ips cache setName \<union> (set (map TrimSpace ips) - {[]})) cache)"

definition bump :: "(string \<rightharpoonup> int) \<Rightarrow> (int \<Rightarrow> vpn_progress \<Rightarrow> vpn_progress) \<Rightarrow> (string \<rightharpoonup> vpn_progress) \<Rightarrow> (string \<rightharpoonup> vpn_progress)" where
  "bump counts upd per =
     (\<lambda>i. case counts i of None \<Rightarrow> per i | Some n \<Rightarrow> Some (upd n (case per i of None \<Rightarrow> zero_vpn | Some e \<Rightarrow> e)))"

definition nonzero :: "(string \<Rightarrow> int) \<Rightarrow> (string \<rightharpoonup> int)" where
  "nonzero f i = (if f i = 0 then None else Some (f i))"

definition merge_result :: "domain_task \<times> task_result \<Rightarrow> run_acc \<Rightarrow> run_acc" where
  "merge_result tr ra =
     (case tr of (task, result) \<Rightarrow>
       (let p = ra_progress ra;
            per1 = bump (res_PerVPNDomains result) (\<lambda>n e. e\<lparr>vpn_DomainsProcessed := vpn_DomainsProcessed e + n\<rparr>) (pr_PerVPN p);
            per2 = bump (res_PerVPNIPs result) (\<lambda>n e. e\<lparr>vpn_IPsInserted := vpn_IPsInserted e + n\<rparr>) per1;
            per3 = bump (nonzero (res_PerVPNErrors result)) (\<lambda>n e. e\<lparr>vpn_Errors := vpn_Errors e + n\<rparr>) per2
        in \<lparr>ra_progress = p\<lparr>pr_ProcessedDomains := pr_ProcessedDomains p + 1, pr_TotalIPs := pr_TotalIPs p + res_Inserted result, pr_PerVPN := per3\<rparr>,
            ra_cacheV4 = appendSetIPs (task_SetV4 task) (res_V4 result) (ra_cacheV4 ra),
            ra_cacheV6 = appendSetIPs (task_SetV6 task) (res_V6 result) (ra_cacheV6 ra)\<rparr>))"

definition materializeCacheSnapshot :: "ip_cache \<Rightarrow> ip_cache \<Rightarrow> prewarm_snapshot" where
  "materializeCacheSnapshot v4BySet v6BySet =
     map (\<lambda>n. (n, \<lparr>V4 = mapKeysSorted (cached_ips v4BySet n), V6 = mapKeysSorted (cached_ips v6BySet n)\<rparr>))
       (mapKeysSorted (set (map fst v4BySet) \<union> set (map fst v6BySet)))"

definition buildRunStats :: "run_acc \<Rightarrow> run_stats" where
  "buildRunStats ra =
     \<lparr>st_DomainsTotal = pr_TotalDomains (ra_progress ra), st_DomainsDone = pr_ProcessedDomains (ra_progress ra),
      st_IPsInserted = pr_TotalIPs (ra_progress ra), st_Progress = ra_progress ra,
      st_CacheSnapshot = materializeCacheSnapshot (ra_cacheV4 ra) (ra_cacheV6 ra)\<rparr>"

text \<open>
  \<^verbatim>\<open>Run\<close> after it read groups and interfaces: \<open>finished\<close> lists the tasks whose result was merged, in the order of the lock. All
  tasks are finished unless the context was cancelled or a task failed; then \<open>stopped\<close> is the error and fewer are.
\<close>

definition worker_Run :: "int \<Rightarrow> domain_task list \<Rightarrow> string list \<Rightarrow> (domain_task \<times> task_result) list \<Rightarrow> string option \<Rightarrow> run_stats \<times> string option" where
  "worker_Run now tasks ifaces finished stopped =
     (let p = initial_progress now (length tasks) ifaces in
      if tasks = [] then (\<lparr>st_DomainsTotal = 0, st_DomainsDone = 0, st_IPsInserted = 0, st_Progress = p, st_CacheSnapshot = []\<rparr>, None)
      else (buildRunStats (fold merge_result finished \<lparr>ra_progress = p, ra_cacheV4 = [], ra_cacheV6 = []\<rparr>), stopped))"


section \<open>The order of the workers does not matter\<close>

lemma keys_append: "set (map fst (appendSetIPs n ips c)) = set (map fst c) \<union> (if ips = [] \<or> TrimSpace n = [] then {} else {n})"
  by (auto simp: appendSetIPs_def dom_map_of_conv_image_fst [symmetric] update_conv')

lemma cached_append:
  "cached_ips (appendSetIPs n ips c) m =
     cached_ips c m \<union> (if m = n \<and> TrimSpace n \<noteq> [] then set (map TrimSpace ips) - {[]} else {})"
  by (auto simp: appendSetIPs_def cached_ips_def update_conv')

definition new_ips :: "(domain_task \<Rightarrow> string) \<Rightarrow> (task_result \<Rightarrow> string list) \<Rightarrow> string \<Rightarrow> domain_task \<times> task_result \<Rightarrow> string set" where
  "new_ips setOf ipsOf n tr = (if n = setOf (fst tr) \<and> TrimSpace n \<noteq> [] then set (map TrimSpace (ipsOf (snd tr))) - {[]} else {})"

lemma cached_fold:
  "cached_ips (ra_cacheV4 (fold merge_result trs ra)) n = cached_ips (ra_cacheV4 ra) n \<union> (\<Union>tr \<in> set trs. new_ips task_SetV4 res_V4 n tr)"
  "cached_ips (ra_cacheV6 (fold merge_result trs ra)) n = cached_ips (ra_cacheV6 ra) n \<union> (\<Union>tr \<in> set trs. new_ips task_SetV6 res_V6 n tr)"
  by (induction trs arbitrary: ra) (auto simp: merge_result_def Let_def cached_append new_ips_def split: prod.splits)

definition new_keys :: "(domain_task \<Rightarrow> string) \<Rightarrow> (task_result \<Rightarrow> string list) \<Rightarrow> domain_task \<times> task_result \<Rightarrow> string set" where
  "new_keys setOf ipsOf tr = (if ipsOf (snd tr) = [] \<or> TrimSpace (setOf (fst tr)) = [] then {} else {setOf (fst tr)})"

lemma keys_fold:
  "set (map fst (ra_cacheV4 (fold merge_result trs ra))) = set (map fst (ra_cacheV4 ra)) \<union> (\<Union>tr \<in> set trs. new_keys task_SetV4 res_V4 tr)"
  "set (map fst (ra_cacheV6 (fold merge_result trs ra))) = set (map fst (ra_cacheV6 ra)) \<union> (\<Union>tr \<in> set trs. new_keys task_SetV6 res_V6 tr)"
proof (induction trs arbitrary: ra)
  case (Cons tr trs)
  have 4: "set (map fst (ra_cacheV4 (merge_result tr ra))) = set (map fst (ra_cacheV4 ra)) \<union> new_keys task_SetV4 res_V4 tr"
    and 6: "set (map fst (ra_cacheV6 (merge_result tr ra))) = set (map fst (ra_cacheV6 ra)) \<union> new_keys task_SetV6 res_V6 tr" for ra
    unfolding new_keys_def by (cases tr, simp only: merge_result_def Let_def prod.case run_acc.simps keys_append fst_conv snd_conv)+
  { case 1 show ?case by (simp only: fold_simps Cons.IH 4 list.set UN_insert Un_assoc) next
    case 2 show ?case by (simp only: fold_simps Cons.IH 6 list.set UN_insert Un_assoc) }
qed simp_all

definition progress_step :: "domain_task \<times> task_result \<Rightarrow> run_progress \<Rightarrow> run_progress" where
  "progress_step tr p = ra_progress (merge_result tr \<lparr>ra_progress = p, ra_cacheV4 = [], ra_cacheV6 = []\<rparr>)"

lemma progress_fold: "ra_progress (fold merge_result trs ra) = fold progress_step trs (ra_progress ra)"
proof (induction trs arbitrary: ra)
  case (Cons tr trs)
  have "ra_progress (merge_result tr ra) = progress_step tr (ra_progress ra)" by (simp add: progress_step_def merge_result_def Let_def split: prod.splits)
  then show ?case using Cons.IH [of "merge_result tr ra"] by simp
qed simp

lemma bump_swap:
  assumes "\<And>m n e. f m (g n e) = g n (f m e)"
  shows "bump c f (bump d g per) = bump d g (bump c f per)"
  using assms by (auto simp: bump_def fun_eq_iff split: option.splits)

lemma progress_step_swap: "progress_step x \<circ> progress_step y = progress_step y \<circ> progress_step x"
proof (rule ext)
  fix p
  let ?f = "\<lambda>n e. e\<lparr>vpn_DomainsProcessed := vpn_DomainsProcessed e + n\<rparr>" let ?g = "\<lambda>n e. e\<lparr>vpn_IPsInserted := vpn_IPsInserted e + n\<rparr>"
  let ?h = "\<lambda>n e. e\<lparr>vpn_Errors := vpn_Errors e + n\<rparr>"
  have "bump c ?h (bump d ?g per) = bump d ?g (bump c ?h per)" "bump c ?h (bump d ?f per) = bump d ?f (bump c ?h per)" "bump c ?g (bump d ?f per) = bump d ?f (bump c ?g per)"
    "bump c ?f (bump d ?f per) = bump d ?f (bump c ?f per)" "bump c ?g (bump d ?g per) = bump d ?g (bump c ?g per)" "bump c ?h (bump d ?h per) = bump d ?h (bump c ?h per)" for c d per
    by (rule bump_swap, simp)+
  then show "(progress_step x \<circ> progress_step y) p = (progress_step y \<circ> progress_step x) p"
    by (cases x; cases y) (simp add: progress_step_def merge_result_def Let_def)
qed



definition example_task :: "string \<Rightarrow> domain_task" where
  "example_task d = \<lparr>task_GroupName = ''tv'', task_SetV4 = ''s4'', task_SetV6 = ''s6'', task_Domain = d, task_Wildcard = False\<rparr>"



section \<open>What a run contributes to a rule\<close>

lemma finite_cached: "finite (\<Union>tr \<in> set trs. new_ips setOf ipsOf n tr)"
  by (auto simp: new_ips_def)

lemma snapshot_get_materialized:
  assumes "\<And>n. n \<notin> set (map fst c4) \<Longrightarrow> cached_ips c4 n = {}" "\<And>n. n \<notin> set (map fst c6) \<Longrightarrow> cached_ips c6 n = {}"
  shows "snapshot_get (materializeCacheSnapshot c4 c6) n = \<lparr>V4 = mapKeysSorted (cached_ips c4 n), V6 = mapKeysSorted (cached_ips c6 n)\<rparr>"
proof -
  have find: "map_of (map (\<lambda>n. (n, f n)) ns) m = (if m \<in> set ns then Some (f m) else None)" for f :: "string \<Rightarrow> resolver_values" and ns m
    by (induction ns) auto
  have "finite (set (map fst c4) \<union> set (map fst c6))" by simp
  then show ?thesis using assms
    by (auto simp: snapshot_get_def materializeCacheSnapshot_def find mapKeysSorted_def zero_values_def simp del: set_map)
qed

lemma cached_not_key: "n \<notin> set (map fst c) \<Longrightarrow> cached_ips c n = {}"
  by (simp add: cached_ips_def map_of_eq_None_iff [THEN iffD2])

lemma cached_ips_Nil: "cached_ips [] n = {}"
  by (simp add: cached_ips_def)

lemma destination_kinds_differ: "DestinationV4 (RuleSetNames g i) \<noteq> DestinationV6 (RuleSetNames h j)"
proof
  assume "DestinationV4 (RuleSetNames g i) = DestinationV6 (RuleSetNames h j)"
  then have "pair_names (RuleSetNames g i) ! 4 = pair_names (RuleSetNames h j) ! 5" by (simp add: pair_names_def)
  then have "set_suffix i (set_kinds ! 4) = set_suffix j (set_kinds ! 5)" using last_segment_pair [of 4 g i] last_segment_pair [of 5 h j] by simp
  then show False using set_suffix_inj [of "set_kinds ! 4" "set_kinds ! 5" i j] by (auto simp: set_kinds_def)
qed

lemma destination_name_visible: "TrimSpace (DestinationV4 (RuleSetNames g i)) \<noteq> []" "TrimSpace (DestinationV6 (RuleSetNames g i)) \<noteq> []"
proof -
  have "TrimSpace (pair_names (RuleSetNames g i) ! k) \<noteq> []" if k: "k < 8" for k
  proof
    assume "TrimSpace (pair_names (RuleSetNames g i) ! k) = []"
    then have "list_all is_space (pair_names (RuleSetNames g i) ! k)" by (simp add: TrimSpace_Nil_iff)
    then have "list_all is_space (last_segment (pair_names (RuleSetNames g i) ! k))"
      by (auto simp: last_segment_def list_all_iff dest: set_takeWhileD)
    then show False by (simp add: last_segment_pair [OF k] set_suffix_def is_space_def)
  qed
  from this [of 4] this [of 5] show "TrimSpace (DestinationV4 (RuleSetNames g i)) \<noteq> []" "TrimSpace (DestinationV6 (RuleSetNames g i)) \<noteq> []"
    by (simp_all add: pair_names_def)
qed

lemma task_sets:
  assumes "t \<in> set (buildTasks groups)"
  shows "\<exists>g i. task_SetV4 t = DestinationV4 (RuleSetNames g i) \<and> task_SetV6 t = DestinationV6 (RuleSetNames g i)"
  using assms unfolding buildTasks_def group_tasks_def rule_tasks_def tasks_for_def GroupSetNames_def Let_def
  by (simp split: if_splits, force+)

text \<open>C30: What a pre-warm run adds to a rule. The addresses that the routing manager takes from the cache for rule \<open>i\<close> of group
  \<open>g\<close> are exactly the addresses that the finished tasks found for the two destination sets of this rule: nothing is lost on
  the way from the queries to the sets, and no address of another rule with other sets gets in.\<close>

theorem prewarm_destinations_exact:
  assumes "fst ` set finished \<subseteq> set (buildTasks groups)" "stats = fst (worker_Run now (buildTasks groups) ifaces finished stopped)"
  shows "set (mergePrewarmedDestinations (RuleSetNames g i) (st_CacheSnapshot stats)) =
     {a. a \<noteq> [] \<and> (\<exists>tr \<in> set finished.
        task_SetV4 (fst tr) = DestinationV4 (RuleSetNames g i) \<and> a \<in> TrimSpace ` set (res_V4 (snd tr)) \<or>
        task_SetV6 (fst tr) = DestinationV6 (RuleSetNames g i) \<and> a \<in> TrimSpace ` set (res_V6 (snd tr)))}"
proof (cases "buildTasks groups = []")
  case True
  then show ?thesis using assms by (auto simp: worker_Run_def Let_def mergePrewarmedDestinations_def snapshot_get_def both_families_def zero_values_def)
next
  case False
  let ?n4 = "DestinationV4 (RuleSetNames g i)" let ?n6 = "DestinationV6 (RuleSetNames g i)"
  let ?ra = "fold merge_result finished \<lparr>ra_progress = initial_progress now (length (buildTasks groups)) ifaces, ra_cacheV4 = [], ra_cacheV6 = []\<rparr>"
  have snap: "snapshot_get (st_CacheSnapshot stats) n = \<lparr>V4 = mapKeysSorted (cached_ips (ra_cacheV4 ?ra) n), V6 = mapKeysSorted (cached_ips (ra_cacheV6 ?ra) n)\<rparr>" for n
    using snapshot_get_materialized [OF cached_not_key cached_not_key, of "ra_cacheV4 ?ra" "ra_cacheV6 ?ra"] False
    by (simp add: assms(2) worker_Run_def Let_def buildRunStats_def)
  have ips: "set (mapKeysSorted (cached_ips (ra_cacheV4 ?ra) n)) = (\<Union>tr \<in> set finished. new_ips task_SetV4 res_V4 n tr)"
    "set (mapKeysSorted (cached_ips (ra_cacheV6 ?ra) n)) = (\<Union>tr \<in> set finished. new_ips task_SetV6 res_V6 n tr)" for n
    using cached_fold [of finished _ n] finite_cached [of task_SetV4 res_V4 n finished] finite_cached [of task_SetV6 res_V6 n finished]
    by (simp_all add: cached_ips_Nil mapKeysSorted_def)
  have other: "new_ips task_SetV4 res_V4 ?n6 tr = {}" "new_ips task_SetV6 res_V6 ?n4 tr = {}" if tr: "tr \<in> set finished" for tr
  proof -
    have "fst tr \<in> set (buildTasks groups)" using assms(1) tr by auto
    from task_sets [OF this] obtain h j where "task_SetV4 (fst tr) = DestinationV4 (RuleSetNames h j)" "task_SetV6 (fst tr) = DestinationV6 (RuleSetNames h j)" by blast
    then show "new_ips task_SetV4 res_V4 ?n6 tr = {}" "new_ips task_SetV6 res_V6 ?n4 tr = {}"
      using destination_kinds_differ [of h j g i] destination_kinds_differ [of g i h j] by (auto simp: new_ips_def)
  qed
  have "(\<Union>tr \<in> set finished. new_ips task_SetV4 res_V4 ?n6 tr) = {}" "(\<Union>tr \<in> set finished. new_ips task_SetV6 res_V6 ?n4 tr) = {}" using other by auto
  then have "set (mergePrewarmedDestinations (RuleSetNames g i) (st_CacheSnapshot stats)) =
      (\<Union>tr \<in> set finished. new_ips task_SetV4 res_V4 ?n4 tr) \<union> (\<Union>tr \<in> set finished. new_ips task_SetV6 res_V6 ?n6 tr)"
    by (simp add: mergePrewarmedDestinations_def both_families_def snap ips)
  also have "\<dots> = {a. a \<noteq> [] \<and> (\<exists>tr \<in> set finished.
        task_SetV4 (fst tr) = ?n4 \<and> a \<in> TrimSpace ` set (res_V4 (snd tr)) \<or> task_SetV6 (fst tr) = ?n6 \<and> a \<in> TrimSpace ` set (res_V6 (snd tr)))}"
    using destination_name_visible [of g i] unfolding new_ips_def set_map by (simp only: simp_thms eq_commute) (rule set_eqI, simp split: if_splits, blast)
  finally show ?thesis .
qed

definition example_group :: domain_group where
  "example_group = \<lparr>group_ID = 1, group_Name = ''tv'', EgressVPN = ''wg'', Rules = [empty_rule\<lparr>Domains := [''Example.org'']\<rparr>], group_Domains = [],
     CreatedAt = 0, UpdatedAt = 0\<rparr>"

definition example_result :: task_result where
  "example_result = processTask (hd (buildTasks [example_group])) [''wg0''] (Inr [] :: string + _) [GotA ''wg0'' [''1.2.3.4'']]"

theorem prewarm_destinations_exact_witness:
  "''1.2.3.4'' \<in> set (mergePrewarmedDestinations (RuleSetNames ''tv'' 0)
     (st_CacheSnapshot (fst (worker_Run 0 (buildTasks [example_group]) [''wg0''] [(hd (buildTasks [example_group]), example_result)] None))))"
proof -
  have t: "buildTasks [example_group] \<noteq> []" "task_SetV4 (hd (buildTasks [example_group])) = DestinationV4 (RuleSetNames ''tv'' 0)"
    "TrimSpace ` set (res_V4 example_result) = {''1.2.3.4''}" by code_simp+
  have "fst ` set [(hd (buildTasks [example_group]), example_result)] \<subseteq> set (buildTasks [example_group])" using t(1) by simp
  from prewarm_destinations_exact [OF this refl, where g = "''tv''" and i = 0 and now = 0 and ifaces = "[''wg0'']" and stopped = None]
  show ?thesis using t(2,3) by simp
qed


section \<open>Health of a resolver\<close>

text \<open>The trailing run of failures of a history, oldest result first.\<close>

definition trailing_failures :: "bool list \<Rightarrow> nat" where
  "trailing_failures h = length (takeWhile Not (rev h))"

definition fresh_gate :: "string \<Rightarrow> resolver_gate" where
  "fresh_gate label = \<lparr>gate_label = label, gate_failures = 0, gate_disabled = False\<rparr>"

definition failed_streak :: "nat \<Rightarrow> bool list \<Rightarrow> bool" where
  "failed_streak k h \<longleftrightarrow> (\<exists>a b. h = a @ replicate k False @ b)"

lemma trailing_snoc: "trailing_failures (h @ [ok]) = (if ok then 0 else Suc (trailing_failures h))"
  by (simp add: trailing_failures_def)

lemma trailing_split: "\<exists>a. h = a @ replicate (trailing_failures h) False"
proof -
  have "takeWhile Not (rev h) = replicate (trailing_failures h) False"
    unfolding trailing_failures_def by (rule replicate_length_same [symmetric]) (auto dest: set_takeWhileD)
  then have "rev h = replicate (trailing_failures h) False @ dropWhile Not (rev h)" by (metis takeWhile_dropWhile_id)
  then have "h = rev (dropWhile Not (rev h)) @ replicate (trailing_failures h) False" by (metis rev_append rev_replicate rev_rev_ident)
  then show ?thesis by blast
qed

lemma failed_streak_snoc:
  assumes "0 < k"
  shows "failed_streak k (h @ [ok]) \<longleftrightarrow> failed_streak k h \<or> (\<not> ok \<and> k \<le> Suc (trailing_failures h))"
proof
  assume "failed_streak k (h @ [ok])"
  then obtain a b where ab: "h @ [ok] = a @ replicate k False @ b" by (auto simp: failed_streak_def)
  show "failed_streak k h \<or> (\<not> ok \<and> k \<le> Suc (trailing_failures h))"
  proof (cases b rule: rev_cases)
    case Nil
    obtain k' where k: "k = Suc k'" using assms by (cases k) auto
    have "h @ [ok] = (a @ replicate k' False) @ [False]" using ab Nil k by (simp add: replicate_append_same)
    then have h: "h = a @ replicate k' False" "\<not> ok" by auto
    have "k' \<le> trailing_failures h" unfolding h(1) using takeWhile_append2 [of "replicate k' False" Not "rev a"] by (simp add: trailing_failures_def)
    then show ?thesis using h(2) k by simp
  next
    case (snoc c x)
    then have "h = a @ replicate k False @ c" using ab by simp
    then show ?thesis by (auto simp: failed_streak_def)
  qed
next
  assume "failed_streak k h \<or> (\<not> ok \<and> k \<le> Suc (trailing_failures h))"
  then show "failed_streak k (h @ [ok])"
  proof
    assume "failed_streak k h"
    then show ?thesis unfolding failed_streak_def by (metis append.assoc)
  next
    assume *: "\<not> ok \<and> k \<le> Suc (trailing_failures h)"
    obtain a where a: "h = a @ replicate (trailing_failures h) False" using trailing_split by blast
    have "replicate (Suc (trailing_failures h)) False = replicate (Suc (trailing_failures h) - k) False @ replicate k False"
      using * by (simp add: replicate_add [symmetric])
    moreover have "h @ [ok] = a @ replicate (Suc (trailing_failures h)) False" using a * by (metis append.assoc replicate_append_same replicate_Suc)
    ultimately have "h @ [ok] = (a @ replicate (Suc (trailing_failures h) - k) False) @ replicate k False @ []" by simp
    then show ?thesis unfolding failed_streak_def by blast
  qed
qed

text \<open>The health of a resolver refines its history. After any sequence of query results a resolver is disabled exactly when at
  some point of the sequence it had failed the threshold number of times in a row; and its failure counter, which reduces its
  retries, is the number of failures since the last success.\<close>

theorem gate_refines_history:
  assumes "1 \<le> threshold"
  shows "gate_disabled (fold (note_gate threshold) h (fresh_gate label)) = failed_streak (nat threshold) h \<and>
     gate_failures (fold (note_gate threshold) h (fresh_gate label)) = int (trailing_failures h)"
proof (induction h rule: rev_induct)
  case Nil
  show ?case using assms by (simp add: fresh_gate_def failed_streak_def trailing_failures_def)
next
  case (snoc ok h)
  have "failed_streak (nat threshold) (h @ [ok]) \<longleftrightarrow> failed_streak (nat threshold) h \<or> (\<not> ok \<and> nat threshold \<le> Suc (trailing_failures h))"
    by (rule failed_streak_snoc) (use assms in simp)
  with snoc show ?case by (auto simp: note_gate_def trailing_snoc)
qed

theorem gate_refines_history_witness:
  "gate_disabled (fold (note_gate 2) [False, True, False, False, True] (fresh_gate ''r''))"
proof -
  have "[False, True, False, False, True] = [False, True] @ replicate (nat 2) False @ [True]" by (simp add: numeral_2_eq_2)
  then have "failed_streak (nat 2) [False, True, False, False, True]" unfolding failed_streak_def by blast
  then show ?thesis using gate_refines_history [of 2 "[False, True, False, False, True]" "''r''"] by simp
qed

end
