(* ===== verification/Prewarm_Scheduler.thy ===== *)
theory Prewarm_Scheduler
  imports Prewarm_Worker
begin

text \<open>
  The DNS pre-warmer, part three: the scheduler (\<^verbatim>\<open>internal/prewarm/scheduler.go\<close>, \<^verbatim>\<open>scheduler_helpers.go\<close>) and its run table
  (\<^verbatim>\<open>store.go\<close>). Its fields are guarded by a mutex, but its methods release the mutex between their steps and start goroutines: the
  periodic loop and the run. The model has one function per section that holds the mutex; \<open>fire\<close> interleaves the sections of all
  callers and goroutines. A context is a number; cancelling it adds the number to \<open>sys_cancelled\<close>. Errors are values; their texts are
  left out.
\<close>


section \<open>Runs and their table\<close>

datatype run_error = SettingsErr setting_error | WorkerErr string | CacheErr string | JoinedErr run_error run_error | SaveErr string

record run_record =
  rr_ID :: int
  rr_StartedAt :: int
  rr_FinishedAt :: int
  rr_DurationMS :: int
  rr_DomainsTotal :: int
  rr_DomainsDone :: int
  rr_IPsInserted :: int
  rr_Error :: "run_error option"

text \<open>A row of \<^verbatim>\<open>prewarm_runs\<close>; absent values are NULL.\<close>

record run_row =
  row_id :: int
  row_started_at :: int
  row_finished_at :: "int option"
  row_duration_ms :: "int option"
  row_domains_total :: int
  row_domains_done :: int
  row_ips_inserted :: int
  row_error :: "run_error option"

definition next_id :: "run_row list \<Rightarrow> int" where
  "next_id rows = fold max (map row_id rows) 0 + 1"

definition SaveRun :: "run_record \<Rightarrow> run_row list \<Rightarrow> run_record \<times> run_row list" where
  "SaveRun run rows =
     (let i = next_id rows in
      (run\<lparr>rr_ID := i\<rparr>,
       rows @ [\<lparr>row_id = i, row_started_at = rr_StartedAt run,
         row_finished_at = (if rr_FinishedAt run > 0 then Some (rr_FinishedAt run) else None),
         row_duration_ms = (if rr_DurationMS run > 0 then Some (rr_DurationMS run) else None),
         row_domains_total = rr_DomainsTotal run, row_domains_done = rr_DomainsDone run, row_ips_inserted = rr_IPsInserted run,
         row_error = rr_Error run\<rparr>]))"

definition scan_row :: "run_row \<Rightarrow> run_record" where
  "scan_row r =
     \<lparr>rr_ID = row_id r, rr_StartedAt = row_started_at r, rr_FinishedAt = (case row_finished_at r of None \<Rightarrow> 0 | Some n \<Rightarrow> n),
      rr_DurationMS = (case row_duration_ms r of None \<Rightarrow> 0 | Some n \<Rightarrow> n), rr_DomainsTotal = row_domains_total r,
      rr_DomainsDone = row_domains_done r, rr_IPsInserted = row_ips_inserted r, rr_Error = row_error r\<rparr>"

text \<open>The row with the greatest identifier.\<close>

definition newer :: "run_row \<Rightarrow> run_row option \<Rightarrow> run_row option" where
  "newer r best = (case best of None \<Rightarrow> Some r | Some b \<Rightarrow> if row_id r > row_id b then Some r else Some b)"

definition LastRun :: "run_row list \<Rightarrow> run_record option" where
  "LastRun rows = map_option scan_row (fold newer rows None)"


section \<open>One run\<close>

text \<open>
  \<^verbatim>\<open>worker.Run\<close> with its early returns: no statistics when the context is cancelled before the start, or when groups or interfaces
  cannot be read; afterwards the statistics of the tasks that finished.
\<close>

definition run_worker ::
  "bool \<Rightarrow> string + domain_group list \<Rightarrow> string + string list \<Rightarrow> int \<Rightarrow> (domain_task \<times> task_result) list \<Rightarrow> string option \<Rightarrow>
     run_stats option \<times> run_error option" where
  "run_worker cancelled groups ifaces now finished stopped =
     (if cancelled then (None, Some (WorkerErr ''context canceled''))
      else (case groups of
              Inl e \<Rightarrow> (None, Some (WorkerErr e))
            | Inr gs \<Rightarrow>
                (case ifaces of
                   Inl e \<Rightarrow> (None, Some (WorkerErr e))
                 | Inr ifs \<Rightarrow> (case worker_Run now (buildTasks gs) ifs finished stopped of
                                (stats, e) \<Rightarrow> (Some stats, map_option WorkerErr e)))))"

definition options_of :: "settings \<Rightarrow> string list \<Rightarrow> string list \<Rightarrow> worker_options" where
  "options_of current extraNameservers ecsProfiles =
     \<lparr>opt_Parallelism = configuredParallelism current, opt_Timeout = configuredTimeout current, opt_Attempts = configuredAttempts current,
      opt_ResolverFailureThreshold = 0, opt_ExtraNameservers = extraNameservers, opt_ECSProfiles = ecsProfiles\<rparr>"

text \<open>The body of \<^verbatim>\<open>executeRun\<close> up to \<^verbatim>\<open>finishRun\<close>: \<open>work\<close> is the run of the worker, \<open>upsert\<close> the update of the cache.\<close>

definition executeRun ::
  "settings \<Rightarrow> (worker \<Rightarrow> run_stats option \<times> run_error option) \<Rightarrow> (prewarm_snapshot \<Rightarrow> string option) \<Rightarrow> run_stats option \<times> run_error option" where
  "executeRun current work upsert =
     (case nameserversFromSettings current of
        Inl e \<Rightarrow> (None, Some (SettingsErr e))
      | Inr extraNameservers \<Rightarrow>
          (case ecsProfilesFromSettings current of
             Inl e \<Rightarrow> (None, Some (SettingsErr e))
           | Inr ecsProfiles \<Rightarrow>
               (case NewWorker (options_of current extraNameservers ecsProfiles) of
                  Inl e \<Rightarrow> (None, Some (WorkerErr e))
                | Inr wk \<Rightarrow>
                    (case work wk of (stats, runErr) \<Rightarrow>
                      (case upsert (case stats of None \<Rightarrow> [] | Some st \<Rightarrow> st_CacheSnapshot st) of
                         None \<Rightarrow> (stats, runErr)
                       | Some c \<Rightarrow> (stats, Some (case runErr of None \<Rightarrow> CacheErr c | Some e \<Rightarrow> JoinedErr e (CacheErr c))))))))"


section \<open>The scheduler\<close>

record scheduler =
  sc_started :: bool
  sc_running :: bool
  sc_defaultInterval :: int
  sc_progress :: "run_progress option"
  sc_lastRun :: "run_record option"
  sc_loopCancel :: "nat option"
  sc_runCancel :: "nat option"

definition empty_progress :: "int \<Rightarrow> run_progress" where
  "empty_progress startedAt = \<lparr>pr_StartedAt = startedAt, pr_TotalDomains = 0, pr_ProcessedDomains = 0, pr_TotalIPs = 0, pr_PerVPN = Map.empty\<rparr>"

definition NewScheduler :: "string + settings \<Rightarrow> run_row list \<Rightarrow> scheduler" where
  "NewScheduler got rows =
     \<lparr>sc_started = False, sc_running = False,
      sc_defaultInterval = configuredInterval (case got of Inl _ \<Rightarrow> empty_settings | Inr s \<Rightarrow> s),
      sc_progress = None, sc_lastRun = LastRun rows, sc_loopCancel = None, sc_runCancel = None\<rparr>"

definition currentInterval :: "string + settings \<Rightarrow> scheduler \<Rightarrow> int \<times> scheduler" where
  "currentInterval got s =
     (case got of
        Inl _ \<Rightarrow> (sc_defaultInterval s, s)
      | Inr current \<Rightarrow> (let interval = configuredInterval current in (interval, s\<lparr>sc_defaultInterval := interval\<rparr>)))"

text \<open>The locked section of \<^verbatim>\<open>Start\<close>: whether a loop is to be started, on context \<open>c\<close>.\<close>

definition Start_section :: "nat \<Rightarrow> scheduler \<Rightarrow> bool \<times> scheduler" where
  "Start_section c s = (if sc_started s then (False, s) else (True, s\<lparr>sc_started := True, sc_loopCancel := Some c\<rparr>))"

definition Stop_section :: "scheduler \<Rightarrow> (nat option \<times> nat option) \<times> scheduler" where
  "Stop_section s = ((sc_loopCancel s, sc_runCancel s), s\<lparr>sc_started := False, sc_loopCancel := None\<rparr>)"

datatype sched_error = SettingsUnreadable string | SettingsInvalid setting_error | ErrRunInProgress | ErrRunNotActive | ClearFailed string

text \<open>\<^verbatim>\<open>TriggerNow\<close>: the checks, then the locked section that takes context \<open>c\<close> for the new run.\<close>

definition TriggerNow :: "string + settings \<Rightarrow> int \<Rightarrow> nat \<Rightarrow> scheduler \<Rightarrow> sched_error option \<times> scheduler" where
  "TriggerNow got now c s =
     (case got of
        Inl e \<Rightarrow> (Some (SettingsUnreadable e), s)
      | Inr current \<Rightarrow>
          (case validateQuerySettings current of
             Some e \<Rightarrow> (Some (SettingsInvalid e), s)
           | None \<Rightarrow>
               if sc_running s then (Some ErrRunInProgress, s)
               else (None, s\<lparr>sc_running := True, sc_progress := Some (empty_progress (now div 1000)), sc_runCancel := Some c\<rparr>)))"

definition CancelRun_section :: "scheduler \<Rightarrow> sched_error + nat" where
  "CancelRun_section s = (if \<not> sc_running s then Inl ErrRunNotActive else (case sc_runCancel s of None \<Rightarrow> Inl ErrRunNotActive | Some c \<Rightarrow> Inr c))"

definition mergeStatsWithCurrentProgress :: "int \<Rightarrow> run_stats option \<Rightarrow> scheduler \<Rightarrow> run_stats" where
  "mergeStatsWithCurrentProgress started stats s =
     (case stats of
        Some st \<Rightarrow>
          if pr_TotalDomains (st_Progress st) > 0 then st
          else (case sc_progress s of
                  None \<Rightarrow> st
                | Some cur \<Rightarrow>
                    if pr_TotalDomains cur = 0 then st
                    else st\<lparr>st_Progress := (if pr_StartedAt cur = 0 then cur\<lparr>pr_StartedAt := started\<rparr> else cur),
                            st_DomainsTotal := pr_TotalDomains cur, st_DomainsDone := pr_ProcessedDomains cur, st_IPsInserted := pr_TotalIPs cur\<rparr>)
      | None \<Rightarrow>
          (let zero = \<lparr>st_DomainsTotal = 0, st_DomainsDone = 0, st_IPsInserted = 0, st_Progress = empty_progress started, st_CacheSnapshot = []\<rparr> in
           case sc_progress s of
             None \<Rightarrow> zero
           | Some cur \<Rightarrow>
               if pr_TotalDomains cur = 0 then zero
               else zero\<lparr>st_Progress := (if pr_StartedAt cur = 0 then cur\<lparr>pr_StartedAt := started\<rparr> else cur),
                         st_DomainsTotal := pr_TotalDomains cur, st_DomainsDone := pr_ProcessedDomains cur, st_IPsInserted := pr_TotalIPs cur\<rparr>))"

text \<open>
  \<^verbatim>\<open>finishRun\<close>. Between its reading of the progress and its locked section only this run could write the progress, so it is one
  step. \<open>saveErr\<close> is the error of the database, if any. Times are in milliseconds.
\<close>

definition finishRun ::
  "int \<Rightarrow> int \<Rightarrow> run_stats option \<times> run_error option \<Rightarrow> string option \<Rightarrow> scheduler \<times> run_row list \<Rightarrow> scheduler \<times> run_row list" where
  "finishRun started finished res saveErr st =
     (case st of (s, rows) \<Rightarrow>
       (let stats = mergeStatsWithCurrentProgress (started div 1000) (fst res) s;
            record = \<lparr>rr_ID = 0, rr_StartedAt = started div 1000, rr_FinishedAt = finished div 1000, rr_DurationMS = finished - started,
              rr_DomainsTotal = st_DomainsTotal stats, rr_DomainsDone = st_DomainsDone stats, rr_IPsInserted = st_IPsInserted stats, rr_Error = snd res\<rparr>;
            (saved, rows') = (case saveErr of
                None \<Rightarrow> SaveRun record rows
              | Some e \<Rightarrow> (if rr_Error record = None then record\<lparr>rr_Error := Some (SaveErr e)\<rparr> else record, rows));
            progress' = (if pr_TotalDomains (st_Progress stats) > 0 then Some (st_Progress stats)
                         else (case sc_progress s of None \<Rightarrow> Some (empty_progress (started div 1000)) | Some p \<Rightarrow> Some p))
        in (s\<lparr>sc_running := False, sc_runCancel := None, sc_lastRun := Some saved, sc_progress := progress'\<rparr>, rows')))"

text \<open>\<^verbatim>\<open>Status\<close>: what is reported, and the last run it may load.\<close>

definition sched_Status :: "string + run_row list \<Rightarrow> scheduler \<Rightarrow> (string + bool \<times> run_record option \<times> run_progress option) \<times> scheduler" where
  "sched_Status table s =
     (case sc_lastRun s of
        Some r \<Rightarrow> (Inr (sc_running s, Some r, sc_progress s), s)
      | None \<Rightarrow>
          (case table of
             Inl e \<Rightarrow> (Inl e, s)
           | Inr rows \<Rightarrow>
               (Inr (sc_running s, LastRun rows, sc_progress s), if LastRun rows = None then s else s\<lparr>sc_lastRun := LastRun rows\<rparr>)))"


section \<open>All goroutines together\<close>

datatype run_phase = Working | Finished

record run_thread =
  rt_ctx :: nat
  rt_settings :: settings
  rt_phase :: run_phase

text \<open>Calls between two of their sections: a cancellation about to be sent, a cache being cleared, a stop at each of its stages.\<close>

datatype pending = PendingCancel nat | PendingClear | PendingClearTrigger | PendingStop "nat option" "nat option" | PendingLoops | PendingRuns

record system =
  sys_sched :: scheduler
  sys_rows :: "run_row list"
  sys_settings :: "string + settings"
  sys_cancelled :: "nat list"
  sys_next :: nat
  sys_loops :: "nat list"
  sys_runs :: "run_thread list"
  sys_calls :: "pending list"

datatype event =
    SettingsChange "string + settings"
  | CallStart | LoopTick nat int | LoopExit nat
  | CallTrigger int
  | CallClear | ClearCache "string option" | ClearTrigger int
  | CallCancel | SendCancel nat
  | CallStop | StopSend "nat option" "nat option" | StopLoopsGone | StopRunsGone
  | PublishProgress nat run_progress
  | RunFinishes nat int int "run_stats option \<times> run_error option" "string option"
  | RunExits nat
  | CallStatus

definition trigger :: "int \<Rightarrow> system \<Rightarrow> sched_error option \<times> system" where
  "trigger now y =
     (case TriggerNow (sys_settings y) now (sys_next y) (sys_sched y) of
        (Some e, s) \<Rightarrow> (Some e, y\<lparr>sys_sched := s\<rparr>)
      | (None, s) \<Rightarrow>
          (None, y\<lparr>sys_sched := s, sys_next := Suc (sys_next y),
             sys_runs := sys_runs y @ [\<lparr>rt_ctx = sys_next y, rt_settings = (case sys_settings y of Inr c \<Rightarrow> c | Inl _ \<Rightarrow> empty_settings), rt_phase = Working\<rparr>]\<rparr>))"

definition take_call :: "pending \<Rightarrow> pending list \<Rightarrow> system \<Rightarrow> system option" where
  "take_call p next y = (if p \<in> set (sys_calls y) then Some (y\<lparr>sys_calls := remove1 p (sys_calls y) @ next\<rparr>) else None)"

definition cancel_ctx :: "nat option \<Rightarrow> system \<Rightarrow> system" where
  "cancel_ctx c y = (case c of None \<Rightarrow> y | Some n \<Rightarrow> y\<lparr>sys_cancelled := n # sys_cancelled y\<rparr>)"

definition working :: "nat \<Rightarrow> system \<Rightarrow> run_thread option" where
  "working c y = find (\<lambda>t. rt_ctx t = c \<and> rt_phase t = Working) (sys_runs y)"

fun fire :: "event \<Rightarrow> system \<Rightarrow> system option" where
  "fire (SettingsChange got) y = Some (y\<lparr>sys_settings := got\<rparr>)"
| "fire CallStart y =
     (case Start_section (sys_next y) (sys_sched y) of
        (False, s) \<Rightarrow> Some y
      | (True, s) \<Rightarrow> Some (y\<lparr>sys_sched := s, sys_next := Suc (sys_next y), sys_loops := sys_loops y @ [sys_next y]\<rparr>))"
| "fire (LoopTick c now) y =
     (if c \<in> set (sys_loops y) then Some (snd (trigger now (y\<lparr>sys_sched := snd (currentInterval (sys_settings y) (sys_sched y))\<rparr>))) else None)"
| "fire (LoopExit c) y =
     (if c \<in> set (sys_loops y) \<and> c \<in> set (sys_cancelled y) then Some (y\<lparr>sys_loops := remove1 c (sys_loops y)\<rparr>) else None)"
| "fire (CallTrigger now) y = Some (snd (trigger now y))"
| "fire CallClear y = (if sc_running (sys_sched y) then Some y else Some (y\<lparr>sys_calls := sys_calls y @ [PendingClear]\<rparr>))"
| "fire (ClearCache failed) y = take_call PendingClear (if failed = None then [PendingClearTrigger] else []) y"
| "fire (ClearTrigger now) y = map_option (\<lambda>y. snd (trigger now y)) (take_call PendingClearTrigger [] y)"
| "fire CallCancel y =
     (case CancelRun_section (sys_sched y) of Inl _ \<Rightarrow> Some y | Inr c \<Rightarrow> Some (y\<lparr>sys_calls := sys_calls y @ [PendingCancel c]\<rparr>))"
| "fire (SendCancel c) y = map_option (cancel_ctx (Some c)) (take_call (PendingCancel c) [] y)"
| "fire CallStop y =
     (case Stop_section (sys_sched y) of ((l, r), s) \<Rightarrow> Some (y\<lparr>sys_sched := s, sys_calls := sys_calls y @ [PendingStop l r]\<rparr>))"
| "fire (StopSend l r) y = map_option (\<lambda>y. cancel_ctx r (cancel_ctx l y)) (take_call (PendingStop l r) [PendingLoops] y)"
| "fire StopLoopsGone y = (if sys_loops y = [] then take_call PendingLoops [PendingRuns] y else None)"
| "fire StopRunsGone y = (if sys_runs y = [] then take_call PendingRuns [] y else None)"
| "fire (PublishProgress c p) y =
     (if working c y = None then None else Some (y\<lparr>sys_sched := (sys_sched y)\<lparr>sc_progress := Some p\<rparr>\<rparr>))"
| "fire (RunFinishes c started now res saveErr) y =
     (case working c y of
        None \<Rightarrow> None
      | Some t \<Rightarrow>
          (case finishRun started now res saveErr (sys_sched y, sys_rows y) of
             (s, rows) \<Rightarrow> Some (y\<lparr>sys_sched := s, sys_rows := rows,
               sys_runs := map (\<lambda>u. if rt_ctx u = c then u\<lparr>rt_phase := Finished\<rparr> else u) (sys_runs y)\<rparr>)))"
| "fire (RunExits c) y =
     (if c \<in> set (map rt_ctx (filter (\<lambda>t. rt_phase t = Finished) (sys_runs y)))
      then Some (y\<lparr>sys_runs := filter (\<lambda>t. rt_ctx t \<noteq> c) (sys_runs y)\<rparr>) else None)"
| "fire CallStatus y = Some (y\<lparr>sys_sched := snd (sched_Status (Inr (sys_rows y)) (sys_sched y))\<rparr>)"

fun exec :: "event list \<Rightarrow> system \<Rightarrow> system option" where
  "exec [] y = Some y"
| "exec (e # es) y = Option.bind (fire e y) (exec es)"

definition initial_system :: "string + settings \<Rightarrow> run_row list \<Rightarrow> system" where
  "initial_system got rows =
     \<lparr>sys_sched = NewScheduler got rows, sys_rows = rows, sys_settings = got, sys_cancelled = [], sys_next = 0, sys_loops = [],
      sys_runs = [], sys_calls = []\<rparr>"


section \<open>The run table\<close>

lemma fold_max_ge: "(a :: int) \<le> fold max xs a \<and> (\<forall>x \<in> set xs. x \<le> fold max xs a)"
proof (induction xs arbitrary: a)
  case (Cons x xs)
  show ?case using Cons.IH [of "max x a"] by (auto simp: max_def split: if_splits)
qed simp

lemma newest_in: "fold newer rows best = Some r \<Longrightarrow> r \<in> set rows \<or> best = Some r"
  by (induction rows arbitrary: best) (fastforce simp: newer_def split: option.splits if_splits)+

lemma SaveRun_LastRun:
  assumes "0 \<le> rr_FinishedAt run" "0 \<le> rr_DurationMS run"
  shows "LastRun (snd (SaveRun run rows)) = Some (fst (SaveRun run rows))"
proof -
  have "row_id r < next_id rows" if "fold newer rows None = Some r" for r
    using newest_in [OF that] fold_max_ge [of 0 "map row_id rows"] by (auto simp: next_id_def)
  then show ?thesis using assms
    by (cases "fold newer rows None") (auto simp: LastRun_def SaveRun_def Let_def newer_def scan_row_def)
qed


section \<open>Validated settings start a run\<close>

lemma NewNameserverClient_canonical: "canonical_ip n \<Longrightarrow> \<exists>addr. NewNameserverClient n = Some addr"
proof -
  assume n: "canonical_ip n"
  then have "TrimSpace n = n" using canonical_ip_plain [OF n] addr_char_plain
    by (intro TrimSpace_id no_space_trimmed) (auto simp: list_all_iff)
  then show ?thesis using n by (auto simp: NewNameserverClient_def Let_def canonical_ip_def split: option.splits)
qed

lemma add_nameservers_canonical: "list_all canonical_ip ns \<Longrightarrow> \<exists>out. add_nameservers seen ns = Inr out"
proof (induction ns arbitrary: seen)
  case (Cons n ns)
  have t: "TrimSpace n = n" using Cons.prems canonical_ip_plain [of n] addr_char_plain
    by (intro TrimSpace_id no_space_trimmed) (auto simp: list_all_iff)
  obtain addr where "NewNameserverClient n = Some addr" using Cons.prems NewNameserverClient_canonical by auto
  moreover obtain out where "add_nameservers (n # seen) ns = Inr out" using Cons by force
  moreover obtain out' where "add_nameservers seen ns = Inr out'" using Cons by force
  ultimately show ?case by (simp add: Let_def t)
qed simp

lemma validated_worker:
  assumes "nameserversFromSettings s = Inr ns"
  shows "\<exists>wk. NewWorker (options_of s ns ecs) = Inr wk \<and> 1 \<le> wk_parallel wk \<and> wk_parallel wk \<le> 64 \<and> 1 \<le> wk_attempts wk \<and>
    wk_attempts wk \<le> 10 \<and> 1000000000 \<le> wk_timeout wk \<and> wk_timeout wk \<le> 60000000000 \<and> wk_threshold wk = 10"
proof -
  have "list_all canonical_ip ns" using assms nameserver_loop_ok [of "[]" _ ns] by (simp add: nameserversFromSettings_def ParseNameserverLines_def)
  then obtain out where "add_nameservers [] ns = Inr out" using add_nameservers_canonical by blast
  then have "buildQueryResolvers ns ecs = Inr (PrimaryDoH # map snd out @ add_profiles ecs)" by (simp add: buildQueryResolvers_def)
  then show ?thesis
    by (simp add: NewWorker_def options_of_def Let_def configuredParallelism_def configuredAttempts_def configuredTimeout_def
        defaultParallelism_def maxParallelism_def maxSafeWorkerParallelism_def defaultQueryAttempts_def maxQueryAttempts_def
        maxSafeWorkerAttempts_def defaultTimeoutSeconds_def maxTimeoutSeconds_def defaultResolverFailureThreshold_def)
qed

text \<open>A run that was admitted starts. When the settings pass the check of \<^verbatim>\<open>TriggerNow\<close>, the run does not fail on its settings:
  \<^verbatim>\<open>executeRun\<close> builds a worker, with 1 to 64 parallel queries, 1 to 10 attempts and a timeout of 1 to 60 seconds whatever numbers are
  configured, runs it, and passes what it found on to the cache; its error is the error of the worker, of the cache or of both.\<close>

theorem validated_run_starts:
  assumes "validateQuerySettings s = None"
  shows "\<exists>wk. 1 \<le> wk_parallel wk \<and> wk_parallel wk \<le> 64 \<and> 1 \<le> wk_attempts wk \<and> wk_attempts wk \<le> 10 \<and>
     1000000000 \<le> wk_timeout wk \<and> wk_timeout wk \<le> 60000000000 \<and>
     executeRun s work upsert =
       (case work wk of (stats, e) \<Rightarrow>
          (stats, case upsert (case stats of None \<Rightarrow> [] | Some st \<Rightarrow> st_CacheSnapshot st) of
                    None \<Rightarrow> e | Some c \<Rightarrow> Some (case e of None \<Rightarrow> CacheErr c | Some e \<Rightarrow> JoinedErr e (CacheErr c))))"
proof -
  from assms obtain ns ecs where "nameserversFromSettings s = Inr ns" "ecsProfilesFromSettings s = Inr ecs"
    by (auto simp: validateQuerySettings_def split: sum.splits)
  with validated_worker [OF this(1), of ecs] show ?thesis
    by (auto simp: executeRun_def split: prod.splits option.splits)
qed

theorem validated_run_starts_witness:
  "executeRun (empty_settings\<lparr>PrewarmParallelism := 100000\<rparr>) (\<lambda>wk. (None, None)) (\<lambda>_. Some ''disk full'') = (None, Some (CacheErr ''disk full''))"
proof -
  have "validateQuerySettings (empty_settings\<lparr>PrewarmParallelism := 100000\<rparr>) = None" by code_simp
  from validated_run_starts [OF this, of "\<lambda>wk. (None, None)" "\<lambda>_. Some ''disk full''"] show ?thesis by auto
qed


section \<open>One run at a time\<close>

inductive reachable :: "system \<Rightarrow> bool" where
  init: "reachable (initial_system got rows)"
| step: "reachable y \<Longrightarrow> fire e y = Some y' \<Longrightarrow> reachable y'"

definition working_ctxs :: "system \<Rightarrow> nat list" where
  "working_ctxs y = map rt_ctx (filter (\<lambda>t. rt_phase t = Working) (sys_runs y))"

definition sched_inv :: "system \<Rightarrow> bool" where
  "sched_inv y \<longleftrightarrow>
     distinct (map rt_ctx (sys_runs y)) \<and> list_all (\<lambda>t. rt_ctx t < sys_next y) (sys_runs y) \<and>
     working_ctxs y = (case sc_runCancel (sys_sched y) of None \<Rightarrow> [] | Some c \<Rightarrow> [c]) \<and>
     (sc_running (sys_sched y) \<longleftrightarrow> sc_runCancel (sys_sched y) \<noteq> None)"

lemma sched_inv_same:
  assumes "sched_inv y" "sys_runs y' = sys_runs y" "sys_next y \<le> sys_next y'"
    "sc_runCancel (sys_sched y') = sc_runCancel (sys_sched y)" "sc_running (sys_sched y') = sc_running (sys_sched y)"
  shows "sched_inv y'"
  using assms by (auto simp: sched_inv_def working_ctxs_def list_all_iff dest: order_less_le_trans)

lemma trigger_inv:
  assumes "sched_inv y"
  shows "sched_inv (snd (trigger now y))"
proof (cases "TriggerNow (sys_settings y) now (sys_next y) (sys_sched y)")
  case (Pair r s)
  show ?thesis
  proof (cases r)
    case None
    then have s: "\<not> sc_running (sys_sched y)" "sc_running s" "sc_runCancel s = Some (sys_next y)"
      using Pair by (auto simp: TriggerNow_def split: sum.splits option.splits if_splits)
    then have "working_ctxs y = []" "sc_runCancel (sys_sched y) = None" using assms by (auto simp: sched_inv_def)
    then show ?thesis using assms s Pair None
      by (auto simp: sched_inv_def trigger_def working_ctxs_def list_all_iff less_Suc_eq)
  next
    case (Some e)
    then have "s = sys_sched y" using Pair by (auto simp: TriggerNow_def split: sum.splits option.splits if_splits)
    then show ?thesis using assms Some Pair by (auto simp: trigger_def intro: sched_inv_same)
  qed
qed

lemma finishRun_stops: "sc_running (fst (finishRun a b res e st)) = False \<and> sc_runCancel (fst (finishRun a b res e st)) = None \<and>
    sc_lastRun (fst (finishRun a b res e st)) \<noteq> None"
  by (auto simp: finishRun_def Let_def split: prod.splits)

lemma take_call_same:
  "take_call p next y = Some y' \<Longrightarrow> sys_runs y' = sys_runs y \<and> sys_next y' = sys_next y \<and> sys_sched y' = sys_sched y"
  by (auto simp: take_call_def split: if_splits)

lemma cancel_ctx_same [simp]:
  "sys_runs (cancel_ctx c y) = sys_runs y" "sys_next (cancel_ctx c y) = sys_next y" "sys_sched (cancel_ctx c y) = sys_sched y"
  by (simp_all add: cancel_ctx_def split: option.splits)

lemma working_in: "working c y \<noteq> None \<longleftrightarrow> c \<in> set (working_ctxs y)"
  by (auto simp: working_def working_ctxs_def find_None_iff)

lemma RunFinishes_inv:
  assumes "sched_inv y" "fire (RunFinishes c a b res e) y = Some y'"
  shows "sched_inv y'"
proof -
  have "c \<in> set (working_ctxs y)" using assms(2) working_in [of c y] by (auto split: option.splits)
  then have c: "working_ctxs y = [c]" using assms(1) by (auto simp: sched_inv_def split: option.splits)
  let ?runs = "map (\<lambda>u. if rt_ctx u = c then u\<lparr>rt_phase := Finished\<rparr> else u) (sys_runs y)"
  have ctx: "map rt_ctx ?runs = map rt_ctx (sys_runs y)" by simp
  have "t \<in> set (sys_runs y) \<Longrightarrow> rt_phase t = Working \<Longrightarrow> rt_ctx t = c" for t
  proof -
    assume "t \<in> set (sys_runs y)" "rt_phase t = Working"
    then have "rt_ctx t \<in> set (working_ctxs y)" by (auto simp: working_ctxs_def)
    then show ?thesis using c by simp
  qed
  then have w: "filter (\<lambda>t. rt_phase t = Working) ?runs = []" by (auto simp: filter_empty_conv)
  obtain s rows where f: "finishRun a b res e (sys_sched y, sys_rows y) = (s, rows)" by (cases "finishRun a b res e (sys_sched y, sys_rows y)")
  have y': "sys_runs y' = ?runs" "sys_sched y' = s" "sys_next y' = sys_next y" using assms(2) f by (auto split: option.splits)
  have s: "\<not> sc_running s" "sc_runCancel s = None" using finishRun_stops [of a b res e "(sys_sched y, sys_rows y)"] f by simp_all
  have "list_all (\<lambda>t. rt_ctx t < sys_next y') (sys_runs y')" using assms(1) y' by (auto simp: sched_inv_def list_all_iff)
  moreover have "distinct (map rt_ctx (sys_runs y'))" using assms(1) unfolding y'(1) ctx by (simp add: sched_inv_def)
  ultimately show ?thesis using y' s w by (simp add: sched_inv_def working_ctxs_def)
qed

lemma RunExits_inv:
  assumes "sched_inv y" "fire (RunExits c) y = Some y'"
  shows "sched_inv y'"
proof -
  have y': "y' = y\<lparr>sys_runs := filter (\<lambda>t. rt_ctx t \<noteq> c) (sys_runs y)\<rparr>" and c: "c \<in> set (map rt_ctx (filter (\<lambda>t. rt_phase t = Finished) (sys_runs y)))"
    using assms(2) by (auto split: if_splits)
  then obtain t where t: "t \<in> set (sys_runs y)" "rt_ctx t = c" "rt_phase t = Finished" by auto
  have "u \<in> set (sys_runs y) \<Longrightarrow> rt_phase u = Working \<Longrightarrow> rt_ctx u \<noteq> c" for u
    using assms(1) t by (auto simp: sched_inv_def distinct_map dest!: inj_onD)
  then have "filter (\<lambda>t. rt_phase t = Working) (filter (\<lambda>t. rt_ctx t \<noteq> c) (sys_runs y)) = filter (\<lambda>t. rt_phase t = Working) (sys_runs y)"
    by (auto simp: filter_filter intro: filter_cong)
  then show ?thesis using assms(1) by (auto simp: y' sched_inv_def working_ctxs_def distinct_map_filter list_all_iff)
qed

lemma fire_inv:
  assumes "sched_inv y" "fire e y = Some y'"
  shows "sched_inv y'"
proof (cases e)
  case (RunFinishes c a b res err)
  then show ?thesis using assms RunFinishes_inv by blast
next
  case (RunExits c)
  then show ?thesis using assms RunExits_inv by blast
next
  case (LoopTick c now)
  have "sched_inv (y\<lparr>sys_sched := snd (currentInterval (sys_settings y) (sys_sched y))\<rparr>)"
    by (rule sched_inv_same [OF assms(1)]) (auto simp: currentInterval_def Let_def split: sum.splits)
  then show ?thesis using assms(2) LoopTick trigger_inv by (auto split: if_splits)
next
  case (CallTrigger now)
  then show ?thesis using assms trigger_inv by auto
next
  case (ClearTrigger now)
  then obtain z where z: "take_call PendingClearTrigger [] y = Some z" "y' = snd (trigger now z)" using assms(2) by auto
  have "sched_inv z" using take_call_same [OF z(1)] by (intro sched_inv_same [OF assms(1)]) auto
  then show ?thesis using z(2) trigger_inv by simp
next
  case CallStart
  then show ?thesis using assms by (auto simp: Start_section_def intro: sched_inv_same split: if_splits)
next
  case CallStop
  then show ?thesis using assms by (auto simp: Stop_section_def intro!: sched_inv_same [OF assms(1)])
next
  case CallStatus
  then show ?thesis using assms by (auto simp: sched_Status_def intro!: sched_inv_same [OF assms(1)] split: option.splits if_splits)
qed (use assms in \<open>auto intro!: sched_inv_same [OF assms(1)] dest!: take_call_same split: if_splits sum.splits option.splits\<close>)

lemma reachable_inv: "reachable y \<Longrightarrow> sched_inv y"
proof (induction rule: reachable.induct)
  case (init got rows)
  show ?case by (simp add: sched_inv_def initial_system_def NewScheduler_def working_ctxs_def)
next
  case (step y e y')
  then show ?case using fire_inv by blast
qed

text \<open>C31: At most one pre-warm run at a time. In every state that any interleaving of API calls, loop ticks, cancellations, stops and
  finishing runs can reach, at most one run is at work; the scheduler says it is running exactly then; and the cancel function it
  keeps belongs to this run, so that \<^verbatim>\<open>CancelRun\<close> and \<^verbatim>\<open>Stop\<close> never cancel another one.\<close>

theorem one_run_at_a_time:
  assumes "reachable y"
  shows "length (working_ctxs y) \<le> 1 \<and> (sc_running (sys_sched y) \<longleftrightarrow> working_ctxs y \<noteq> []) \<and>
     (case CancelRun_section (sys_sched y) of Inl e \<Rightarrow> working_ctxs y = [] | Inr c \<Rightarrow> working_ctxs y = [c])"
  using reachable_inv [OF assms] by (auto simp: sched_inv_def CancelRun_section_def split: option.splits)

text \<open>C32: The scheduler never stays busy. From every reachable state in which it says it is running there is a run whose end is the next
  possible step of that goroutine; however the run ends, with whatever statistics, error or failing database, the scheduler is then idle, has
  a last run to show, and accepts the next trigger when the settings are valid.\<close>

theorem run_ends_idle:
  assumes "reachable y" "sc_running (sys_sched y)"
  shows "\<exists>c. \<forall>started now res saveErr. \<exists>y'. fire (RunFinishes c started now res saveErr) y = Some y' \<and>
     \<not> sc_running (sys_sched y') \<and> sc_lastRun (sys_sched y') \<noteq> None \<and>
     (\<forall>current later. sys_settings y' = Inr current \<and> validateQuerySettings current = None \<longrightarrow>
        fst (trigger later y') = None \<and> sc_running (sys_sched (snd (trigger later y'))))"
proof -
  from reachable_inv [OF assms(1)] assms(2) obtain c where "working_ctxs y = [c]" by (auto simp: sched_inv_def)
  then have w: "working c y \<noteq> None" using working_in [of c y] by simp
  have "\<exists>y'. fire (RunFinishes c started now res saveErr) y = Some y' \<and> sys_sched y' = fst (finishRun started now res saveErr (sys_sched y, sys_rows y))"
    for started now res saveErr using w by (auto split: prod.splits)
  then show ?thesis using finishRun_stops
    by (intro exI [of _ c] allI) (fastforce simp: trigger_def TriggerNow_def)
qed

lemma exec_reachable: "reachable y \<Longrightarrow> exec es y = Some y' \<Longrightarrow> reachable y'"
  by (induction es arbitrary: y) (auto simp: Option.bind_eq_Some_conv intro: reachable.step)

lemma reachable_run:
  "case exec es (initial_system got rows) of None \<Rightarrow> False | Some y \<Rightarrow> True \<Longrightarrow> reachable (the (exec es (initial_system got rows)))"
  by (auto intro: exec_reachable reachable.init split: option.splits)

definition two_triggers :: system where
  "two_triggers = the (exec [CallStart, CallTrigger 0, LoopTick 0 1, CallCancel] (initial_system (Inr empty_settings) []))"

lemma reachable_two_triggers: "reachable two_triggers"
  unfolding two_triggers_def by (rule reachable_run) code_simp

theorem one_run_at_a_time_witness:
  "length (working_ctxs two_triggers) \<le> 1 \<and> sc_running (sys_sched two_triggers)"
proof -
  have "sc_running (sys_sched two_triggers)" by code_simp
  then show ?thesis using one_run_at_a_time [OF reachable_two_triggers] by simp
qed

theorem run_ends_idle_witness:
  "\<exists>c y'. fire (RunFinishes c 0 2000 (None, Some (WorkerErr ''canceled'')) (Some ''disk full'')) two_triggers = Some y' \<and> \<not> sc_running (sys_sched y')"
proof -
  have "sc_running (sys_sched two_triggers)" by code_simp
  from run_ends_idle [OF reachable_two_triggers this] show ?thesis by blast
qed


end
