(* ===== verification/Routing_Store.thy ===== *)
theory Routing_Store
  imports Desired_Sets Routing_Normalize
begin

text \<open>
  The SQLite store of routing groups and address caches (\<^verbatim>\<open>internal/routing/store*.go\<close>) over the
  tables of \<^verbatim>\<open>internal/database/schema.go\<close>. A table is the list of its rows in the order of their
  ids; an \<^verbatim>\<open>AUTOINCREMENT\<close> column whose value the code reads has the last id it gave out beside
  it. A statement is the function its SQL text denotes, with the \<^verbatim>\<open>UNIQUE\<close> constraints and the
  cascades of the schema. The driver is a parameter: it may fail any call with any error, and tells
  the time of a statement. A failed statement changes nothing, and neither does a transaction that
  is not committed; these are the documented guarantees of \<^verbatim>\<open>database/sql\<close> with SQLite.

  Operations on the store are sequences of such calls. The view of the store is the map from group
  ids to groups that the reading functions return; the refinement lemmas say what every operation
  does to this map, whatever the driver answers.
\<close>


section \<open>Tables\<close>

record group_row =
  gr_id :: int
  gr_name :: string
  gr_egress :: string
  gr_created :: int
  gr_updated :: int

record rule_row =
  rr_id :: int
  rr_group :: int
  rr_name :: string
  rr_position :: int
  rr_multicast :: int

record line_row =
  ln_rule :: int
  ln_selector :: string
  ln_line :: string
  ln_position :: int

text \<open>The tables with the selectors of a rule, and the columns beside \<^verbatim>\<open>rule_id\<close>; all columns together are unique.\<close>

datatype child_table =
    rule_source_cidrs | rule_excluded_source_cidrs | rule_source_interfaces | rule_source_macs
  | rule_destination_cidrs | rule_excluded_destination_cidrs | rule_ports_table | rule_excluded_ports
  | rule_asns | rule_excluded_asns | rule_domains

datatype cell = Text string | Ports port_range | DomainCell string int

type_synonym cache_key = "resolver_selector \<times> string \<times> string"

record resolver_run_row =
  rn_ID :: int
  rn_StartedAt :: int
  rn_FinishedAt :: "int option"
  rn_DurationMS :: "int option"
  rn_SelectorsTotal :: int
  rn_SelectorsDone :: int
  rn_PrefixesResolved :: int
  rn_Error :: "string option"

record tables =
  domain_groups :: "group_row list"
  domain_groups_seq :: int
  domain_entries :: "(int \<times> string) list"
  routing_rules :: "rule_row list"
  routing_rules_seq :: int
  rule_children :: "child_table \<Rightarrow> (int \<times> cell) list"
  selector_lines :: "line_row list"
  resolver_cache :: "(cache_key \<times> int) list"
  prewarm_cache :: "((string \<times> string \<times> string) \<times> int) list"
  resolver_runs :: "resolver_run_row list"
  resolver_runs_seq :: int

definition empty_tables :: tables where
  "empty_tables = \<lparr>domain_groups = [], domain_groups_seq = 0, domain_entries = [], routing_rules = [],
     routing_rules_seq = 0, rule_children = (\<lambda>_. []), selector_lines = [], resolver_cache = [], prewarm_cache = [],
     resolver_runs = [], resolver_runs_seq = 0\<rparr>"


section \<open>Calls of the driver\<close>

datatype store_error =
    InvalidGroup group_error | InvalidGroupID | GroupNotFound | UniqueFailed string | DriverErr string

record driver =
  fault :: "nat \<Rightarrow> string option"
  now :: "nat \<Rightarrow> int"
  lines_order :: "nat \<Rightarrow> string list"

type_synonym 'a run = "tables \<times> nat \<Rightarrow> (store_error + 'a) \<times> (tables \<times> nat)"

definition ret :: "'a \<Rightarrow> 'a run" where
  "ret a s = (Inr a, s)"

definition raise :: "store_error \<Rightarrow> 'a run" where
  "raise e s = (Inl e, s)"

definition bindS :: "'a run \<Rightarrow> ('a \<Rightarrow> 'b run) \<Rightarrow> 'b run" where
  "bindS m f s = (case m s of (Inl e, s') \<Rightarrow> (Inl e, s') | (Inr a, s') \<Rightarrow> f a s')"

definition thenS :: "unit run \<Rightarrow> 'b run \<Rightarrow> 'b run" where
  "thenS m k = bindS m (\<lambda>_. k)"

fun each :: "('x \<Rightarrow> unit run) \<Rightarrow> 'x list \<Rightarrow> unit run" where
  "each f [] = ret ()"
| "each f (x # xs) = thenS (f x) (each f xs)"

text \<open>One call of the driver: call number \<open>n\<close> fails, or runs the statement at its time.\<close>

definition call :: "driver \<Rightarrow> (int \<Rightarrow> tables \<Rightarrow> store_error + 'a \<times> tables) \<Rightarrow> 'a run" where
  "call d stmt s =
     (case fault d (snd s) of
        Some e \<Rightarrow> (Inl (DriverErr e), (fst s, Suc (snd s)))
      | None \<Rightarrow>
          (case stmt (now d (snd s)) (fst s) of
             Inl e \<Rightarrow> (Inl e, (fst s, Suc (snd s)))
           | Inr (a, t') \<Rightarrow> (Inr a, (t', Suc (snd s)))))"

text \<open>Reading a value off the driver: a query, \<^verbatim>\<open>LastInsertId\<close>, \<^verbatim>\<open>RowsAffected\<close>.\<close>

definition query :: "driver \<Rightarrow> (int \<Rightarrow> tables \<Rightarrow> 'a) \<Rightarrow> 'a run" where
  "query d f = call d (\<lambda>tm t. Inr (f tm t, t))"

definition exec :: "driver \<Rightarrow> (int \<Rightarrow> tables \<Rightarrow> tables) \<Rightarrow> unit run" where
  "exec d f = call d (\<lambda>tm t. Inr ((), f tm t))"

text \<open>\<^verbatim>\<open>BeginTx\<close>, the body, \<^verbatim>\<open>Commit\<close>, and \<^verbatim>\<open>Rollback\<close> on every early return.\<close>

definition in_tx :: "driver \<Rightarrow> 'a run \<Rightarrow> 'a run" where
  "in_tx d body s =
     (case bindS (query d (\<lambda>_ _. ())) (\<lambda>_. bindS body (\<lambda>a. bindS (query d (\<lambda>_ _. ())) (\<lambda>_. ret a))) s of
        (Inl e, s') \<Rightarrow> (Inl e, (fst s, snd s'))
      | (Inr a, s') \<Rightarrow> (Inr a, s'))"


section \<open>Statements\<close>

definition insert_group :: "string \<Rightarrow> string \<Rightarrow> int \<Rightarrow> tables \<Rightarrow> store_error + int \<times> tables" where
  "insert_group name egress tm t =
     (if name \<in> gr_name ` set (domain_groups t) then Inl (UniqueFailed ''domain_groups.name'')
      else let i = domain_groups_seq t + 1 in
        Inr (i, t\<lparr>domain_groups := domain_groups t @
                    [\<lparr>gr_id = i, gr_name = name, gr_egress = egress, gr_created = tm, gr_updated = tm\<rparr>],
                  domain_groups_seq := i\<rparr>))"

definition update_group :: "int \<Rightarrow> string \<Rightarrow> string \<Rightarrow> int \<Rightarrow> tables \<Rightarrow> store_error + nat \<times> tables" where
  "update_group i name egress tm t =
     (let hits = filter (\<lambda>r. gr_id r = i) (domain_groups t) in
      if hits \<noteq> [] \<and> list_ex (\<lambda>r. gr_id r \<noteq> i \<and> gr_name r = name) (domain_groups t)
      then Inl (UniqueFailed ''domain_groups.name'')
      else Inr (length hits, t\<lparr>domain_groups := map (\<lambda>r. if gr_id r = i
              then r\<lparr>gr_name := name, gr_egress := egress, gr_updated := tm\<rparr> else r) (domain_groups t)\<rparr>))"

text \<open>Deleting rules takes their selectors along, deleting groups their rules and domains.\<close>

definition drop_rules :: "(rule_row \<Rightarrow> bool) \<Rightarrow> tables \<Rightarrow> tables" where
  "drop_rules p t =
     (let gone = rr_id ` set (filter p (routing_rules t)) in
      t\<lparr>routing_rules := filter (\<lambda>r. \<not> p r) (routing_rules t),
        rule_children := (\<lambda>c. filter (\<lambda>row. fst row \<notin> gone) (rule_children t c)),
        selector_lines := filter (\<lambda>l. ln_rule l \<notin> gone) (selector_lines t)\<rparr>)"

definition drop_groups :: "(group_row \<Rightarrow> bool) \<Rightarrow> tables \<Rightarrow> tables" where
  "drop_groups p t =
     (let gone = gr_id ` set (filter p (domain_groups t)) in
      (drop_rules (\<lambda>r. rr_group r \<in> gone) t)
        \<lparr>domain_groups := filter (\<lambda>r. \<not> p r) (domain_groups t),
         domain_entries := filter (\<lambda>row. fst row \<notin> gone) (domain_entries t)\<rparr>)"

definition insert_rule :: "int \<Rightarrow> string \<Rightarrow> int \<Rightarrow> int \<Rightarrow> tables \<Rightarrow> int \<times> tables" where
  "insert_rule g name position multicast t =
     (let i = routing_rules_seq t + 1 in
      (i, t\<lparr>routing_rules := routing_rules t @
              [\<lparr>rr_id = i, rr_group = g, rr_name = name, rr_position = position, rr_multicast = multicast\<rparr>],
            routing_rules_seq := i\<rparr>))"

definition insert_child :: "child_table \<Rightarrow> int \<Rightarrow> cell \<Rightarrow> tables \<Rightarrow> store_error + unit \<times> tables" where
  "insert_child c rid v t =
     (if (rid, v) \<in> set (rule_children t c) then Inl (UniqueFailed ''rule_id'')
      else Inr ((), t\<lparr>rule_children := (rule_children t)(c := rule_children t c @ [(rid, v)])\<rparr>))"

definition insert_domain_entry :: "int \<Rightarrow> string \<Rightarrow> tables \<Rightarrow> store_error + unit \<times> tables" where
  "insert_domain_entry g dom_name t =
     (if (g, dom_name) \<in> set (domain_entries t) then Inl (UniqueFailed ''domain_entries.domain'')
      else Inr ((), t\<lparr>domain_entries := domain_entries t @ [(g, dom_name)]\<rparr>))"

definition insert_line :: "int \<Rightarrow> string \<Rightarrow> string \<Rightarrow> int \<Rightarrow> tables \<Rightarrow> tables" where
  "insert_line rid sel line position t =
     t\<lparr>selector_lines := selector_lines t @
        [\<lparr>ln_rule = rid, ln_selector = sel, ln_line = line, ln_position = position\<rparr>]\<rparr>"

text \<open>\<^verbatim>\<open>INSERT ... ON CONFLICT DO UPDATE SET updated_at\<close>.\<close>

definition upsert_row :: "'k \<Rightarrow> int \<Rightarrow> ('k \<times> int) list \<Rightarrow> ('k \<times> int) list" where
  "upsert_row k tm rows =
     (if k \<in> fst ` set rows then map (\<lambda>(k', u). (k', if k' = k then tm else u)) rows else rows @ [(k, tm)])"


section \<open>Writing rules\<close>

definition boolToInt :: "bool \<Rightarrow> int" where
  "boolToInt b = (if b then 1 else 0)"

text \<open>The lines of a rule by the name of the selector they belong to.\<close>

definition linesBySelector :: "rule_raw_selectors \<Rightarrow> (string \<times> string list) list" where
  "linesBySelector raw =
     [(''source_interfaces'', raw_SourceInterfaces raw),
      (''source_cidrs'', raw_SourceCIDRs raw),
      (''excluded_source_cidrs'', raw_ExcludedSourceCIDRs raw),
      (''source_macs'', raw_SourceMACs raw),
      (''destination_cidrs'', raw_DestinationCIDRs raw),
      (''excluded_destination_cidrs'', raw_ExcludedDestinationCIDRs raw),
      (''destination_ports'', raw_DestinationPorts raw),
      (''excluded_destination_ports'', raw_ExcludedDestinationPorts raw),
      (''destination_asns'', raw_DestinationASNs raw),
      (''excluded_destination_asns'', raw_ExcludedDestinationASNs raw),
      (''domains'', raw_Domains raw),
      (''wildcard_domains'', raw_WildcardDomains raw)]"

definition lines_of :: "rule_raw_selectors \<Rightarrow> string \<Rightarrow> string list" where
  "lines_of raw sel = (case map_of (linesBySelector raw) sel of None \<Rightarrow> [] | Some ls \<Rightarrow> ls)"

text \<open>Go iterates a map in an order it does not promise: the driver record supplies the order.\<close>

definition insertRuleRawSelectorsTx :: "driver \<Rightarrow> int \<Rightarrow> rule_raw_selectors option \<Rightarrow> unit run" where
  "insertRuleRawSelectorsTx d rid raw s =
     each (\<lambda>sel. each (\<lambda>(position, line). exec d (\<lambda>_. insert_line rid sel line (int position)))
             (List.enumerate 0 (lines_of (normalizeRuleRawSelectors raw) sel)))
       (lines_order d (snd s)) s"

definition insert_cells :: "driver \<Rightarrow> child_table \<Rightarrow> int \<Rightarrow> cell list \<Rightarrow> unit run" where
  "insert_cells d c rid vs = each (\<lambda>v. call d (\<lambda>_. insert_child c rid v)) vs"

definition insert_rule_tx :: "driver \<Rightarrow> int \<Rightarrow> nat \<Rightarrow> routing_rule \<Rightarrow> unit run" where
  "insert_rule_tx d g idx rule =
     bindS (call d (\<lambda>_ t. Inr (insert_rule g (rule_Name rule) (int idx) (boolToInt (RuleExcludeMulticastEnabled rule)) t)))
     (\<lambda>result. bindS (query d (\<lambda>_ _. result)) (\<lambda>rid.
       thenS (insert_cells d rule_source_cidrs rid (map Text (SourceCIDRs rule)))
      (thenS (insert_cells d rule_excluded_source_cidrs rid (map Text (ExcludedSourceCIDRs rule)))
      (thenS (insert_cells d rule_source_interfaces rid (map Text (SourceInterfaces rule)))
      (thenS (insert_cells d rule_source_macs rid (map Text (SourceMACs rule)))
      (thenS (insert_cells d rule_destination_cidrs rid (map Text (DestinationCIDRs rule)))
      (thenS (insert_cells d rule_excluded_destination_cidrs rid (map Text (ExcludedDestinationCIDRs rule)))
      (thenS (insert_cells d rule_ports_table rid (map Ports (DestinationPorts rule)))
      (thenS (insert_cells d rule_excluded_ports rid (map Ports (ExcludedDestinationPorts rule)))
      (thenS (insert_cells d rule_asns rid (map Text (DestinationASNs rule)))
      (thenS (insert_cells d rule_excluded_asns rid (map Text (ExcludedDestinationASNs rule)))
      (thenS (insert_cells d rule_domains rid (map (\<lambda>x. DomainCell x 0) (Domains rule)))
      (thenS (insert_cells d rule_domains rid (map (\<lambda>x. DomainCell x 1) (WildcardDomains rule)))
             (insertRuleRawSelectorsTx d rid (RawSelectors rule)))))))))))))))"

definition replaceRulesTx :: "driver \<Rightarrow> int \<Rightarrow> routing_rule list \<Rightarrow> unit run" where
  "replaceRulesTx d g rules =
     thenS (exec d (\<lambda>_. drop_rules (\<lambda>r. rr_group r = g)))
       (each (\<lambda>(idx, rule). insert_rule_tx d g idx rule) (List.enumerate 0 rules))"

definition legacy_domain :: "string \<Rightarrow> string" where
  "legacy_domain s = TrimPrefix (ToLower (TrimSpace s)) ''*.''"

definition replaceLegacyDomainsTx :: "driver \<Rightarrow> int \<Rightarrow> string list \<Rightarrow> unit run" where
  "replaceLegacyDomainsTx d g doms =
     thenS (exec d (\<lambda>_ t. t\<lparr>domain_entries := filter (\<lambda>row. fst row \<noteq> g) (domain_entries t)\<rparr>))
       (each (\<lambda>s. call d (\<lambda>_. insert_domain_entry g s)) (dedup (filter (\<lambda>s. s \<noteq> []) (map legacy_domain doms))))"


section \<open>Reading groups\<close>

definition text_cells :: "(int \<times> cell) list \<Rightarrow> int \<Rightarrow> string list" where
  "text_cells rows rid = List.map_filter (\<lambda>(i, v). case v of Text s \<Rightarrow> if i = rid then Some s else None | _ \<Rightarrow> None) rows"

definition port_cells :: "(int \<times> cell) list \<Rightarrow> int \<Rightarrow> port_range list" where
  "port_cells rows rid = List.map_filter (\<lambda>(i, v). case v of Ports p \<Rightarrow> if i = rid then Some p else None | _ \<Rightarrow> None) rows"

definition domain_cells :: "(int \<Rightarrow> bool) \<Rightarrow> (int \<times> cell) list \<Rightarrow> int \<Rightarrow> string list" where
  "domain_cells flag rows rid =
     List.map_filter (\<lambda>(i, v). case v of DomainCell s w \<Rightarrow> if i = rid \<and> flag w then Some s else None | _ \<Rightarrow> None) rows"

definition listRuleCIDRs :: "driver \<Rightarrow> child_table \<Rightarrow> (int \<Rightarrow> string list) run" where
  "listRuleCIDRs d c = query d (\<lambda>_ t. text_cells (rule_children t c))"

definition listRuleSourceInterfaces :: "driver \<Rightarrow> (int \<Rightarrow> string list) run" where
  "listRuleSourceInterfaces d = query d (\<lambda>_ t. text_cells (rule_children t rule_source_interfaces))"

definition listRuleSourceMACs :: "driver \<Rightarrow> (int \<Rightarrow> string list) run" where
  "listRuleSourceMACs d = query d (\<lambda>_ t. text_cells (rule_children t rule_source_macs))"

definition listRulePorts :: "driver \<Rightarrow> (int \<Rightarrow> port_range list) run" where
  "listRulePorts d = query d (\<lambda>_ t. port_cells (rule_children t rule_ports_table))"

definition listRuleExcludedPorts :: "driver \<Rightarrow> (int \<Rightarrow> port_range list) run" where
  "listRuleExcludedPorts d = query d (\<lambda>_ t. port_cells (rule_children t rule_excluded_ports))"

definition listRuleASNs :: "driver \<Rightarrow> (int \<Rightarrow> string list) run" where
  "listRuleASNs d = query d (\<lambda>_ t. text_cells (rule_children t rule_asns))"

definition listRuleExcludedASNs :: "driver \<Rightarrow> (int \<Rightarrow> string list) run" where
  "listRuleExcludedASNs d = query d (\<lambda>_ t. text_cells (rule_children t rule_excluded_asns))"

definition listRuleDomains :: "driver \<Rightarrow> ((int \<Rightarrow> string list) \<times> (int \<Rightarrow> string list)) run" where
  "listRuleDomains d = query d (\<lambda>_ t.
     (domain_cells (\<lambda>w. w \<noteq> 1) (rule_children t rule_domains), domain_cells (\<lambda>w. w = 1) (rule_children t rule_domains)))"

text \<open>The rows of one rule and selector in the order of \<^verbatim>\<open>position, id\<close>.\<close>

definition stored_lines :: "line_row list \<Rightarrow> int \<Rightarrow> string \<Rightarrow> string list" where
  "stored_lines rows rid sel =
     map ln_line (sort_key ln_position (filter (\<lambda>l. ln_rule l = rid \<and> ln_selector l = sel) rows))"

definition raw_of :: "line_row list \<Rightarrow> int \<Rightarrow> rule_raw_selectors" where
  "raw_of rows rid =
     \<lparr>raw_SourceInterfaces = stored_lines rows rid ''source_interfaces'',
      raw_SourceCIDRs = stored_lines rows rid ''source_cidrs'',
      raw_ExcludedSourceCIDRs = stored_lines rows rid ''excluded_source_cidrs'',
      raw_SourceMACs = stored_lines rows rid ''source_macs'',
      raw_DestinationCIDRs = stored_lines rows rid ''destination_cidrs'',
      raw_ExcludedDestinationCIDRs = stored_lines rows rid ''excluded_destination_cidrs'',
      raw_DestinationPorts = stored_lines rows rid ''destination_ports'',
      raw_ExcludedDestinationPorts = stored_lines rows rid ''excluded_destination_ports'',
      raw_DestinationASNs = stored_lines rows rid ''destination_asns'',
      raw_ExcludedDestinationASNs = stored_lines rows rid ''excluded_destination_asns'',
      raw_Domains = stored_lines rows rid ''domains'',
      raw_WildcardDomains = stored_lines rows rid ''wildcard_domains''\<rparr>"

definition listRuleRawSelectors :: "driver \<Rightarrow> (int \<Rightarrow> rule_raw_selectors) run" where
  "listRuleRawSelectors d = query d (\<lambda>_ t. raw_of (selector_lines t))"

text \<open>\<^verbatim>\<open>ORDER BY group_id, position, id\<close>, and the rules filed under their group.\<close>

definition ordered_rules :: "rule_row list \<Rightarrow> rule_row list" where
  "ordered_rules rows = sort_key (\<lambda>r. rr_group r) (sort_key (\<lambda>r. rr_position r) (sort_key (\<lambda>r. rr_id r) rows))"

definition listRulesForGroups :: "driver \<Rightarrow> (int \<Rightarrow> routing_rule list) run" where
  "listRulesForGroups d =
     bindS (query d (\<lambda>_ t. ordered_rules (routing_rules t))) (\<lambda>stored.
     if stored = [] then ret (\<lambda>_. []) else
     bindS (listRuleCIDRs d rule_source_cidrs) (\<lambda>sourceByRule.
     bindS (listRuleCIDRs d rule_excluded_source_cidrs) (\<lambda>excludedSourceByRule.
     bindS (listRuleSourceInterfaces d) (\<lambda>sourceInterfacesByRule.
     bindS (listRuleSourceMACs d) (\<lambda>sourceMACsByRule.
     bindS (listRuleCIDRs d rule_destination_cidrs) (\<lambda>destByRule.
     bindS (listRuleCIDRs d rule_excluded_destination_cidrs) (\<lambda>excludedDestByRule.
     bindS (listRulePorts d) (\<lambda>portsByRule.
     bindS (listRuleExcludedPorts d) (\<lambda>excludedPortsByRule.
     bindS (listRuleASNs d) (\<lambda>asnByRule.
     bindS (listRuleExcludedASNs d) (\<lambda>excludedASNByRule.
     bindS (listRuleDomains d) (\<lambda>domainsByRule.
     bindS (listRuleRawSelectors d) (\<lambda>rawSelectorsByRule.
       ret (\<lambda>g. map (\<lambda>entry.
         let i = rr_id entry;
             rule = \<lparr>rule_ID = i, rule_Name = rr_name entry, SourceInterfaces = sourceInterfacesByRule i,
               SourceCIDRs = sourceByRule i, ExcludedSourceCIDRs = excludedSourceByRule i,
               SourceMACs = sourceMACsByRule i, DestinationCIDRs = destByRule i,
               ExcludedDestinationCIDRs = excludedDestByRule i, DestinationPorts = portsByRule i,
               ExcludedDestinationPorts = excludedPortsByRule i, DestinationASNs = asnByRule i,
               ExcludedDestinationASNs = excludedASNByRule i, ExcludeMulticast = Some (rr_multicast entry \<noteq> 0),
               Domains = fst domainsByRule i, WildcardDomains = snd domainsByRule i, RawSelectors = None\<rparr>;
             raw = finalizeRuleRawSelectors (hydrateRuleRawSelectorsFromRule (rawSelectorsByRule i) rule) rule
         in rule\<lparr>RawSelectors := Some raw\<rparr>) (filter (\<lambda>entry. rr_group entry = g) stored)))))))))))))))"

definition listRulesByGroup :: "driver \<Rightarrow> int \<Rightarrow> (routing_rule list) run" where
  "listRulesByGroup d g = bindS (listRulesForGroups d) (\<lambda>rulesByGroup. ret (rulesByGroup g))"

definition listLegacyDomainsForGroups :: "driver \<Rightarrow> (int \<Rightarrow> string list) run" where
  "listLegacyDomainsForGroups d = query d (\<lambda>_ t g. map snd (filter (\<lambda>row. fst row = g) (domain_entries t)))"

definition listLegacyDomainsByGroup :: "driver \<Rightarrow> int \<Rightarrow> (string list) run" where
  "listLegacyDomainsByGroup d g = bindS (listLegacyDomainsForGroups d) (\<lambda>legacyDomains. ret (legacyDomains g))"

definition group_of :: "group_row \<Rightarrow> routing_rule list \<Rightarrow> domain_group" where
  "group_of r rules = \<lparr>group_ID = gr_id r, group_Name = gr_name r, EgressVPN = gr_egress r, Rules = rules,
     group_Domains = legacyDomainsFromRules rules, CreatedAt = gr_created r, UpdatedAt = gr_updated r\<rparr>"

definition legacy_rules :: "string list \<Rightarrow> routing_rule list" where
  "legacy_rules doms = (if doms = [] then [] else [empty_rule\<lparr>rule_Name := ''Rule 1'', Domains := doms\<rparr>])"

definition store_Get :: "driver \<Rightarrow> int \<Rightarrow> domain_group run" where
  "store_Get d i =
     (if i \<le> 0 then raise InvalidGroupID
      else bindS (query d (\<lambda>_ t. find (\<lambda>r. gr_id r = i) (domain_groups t))) (\<lambda>row.
        case row of None \<Rightarrow> raise GroupNotFound
        | Some r \<Rightarrow>
            bindS (listRulesByGroup d (gr_id r)) (\<lambda>rules.
              bindS (if rules = [] then bindS (listLegacyDomainsByGroup d (gr_id r)) (\<lambda>doms. ret (legacy_rules doms))
                     else ret rules)
                (\<lambda>rules. ret (group_of r rules)))))"

definition store_List :: "driver \<Rightarrow> (domain_group list) run" where
  "store_List d =
     bindS (query d (\<lambda>_ t. sort_key gr_name (domain_groups t))) (\<lambda>rows.
       if rows = [] then ret [] else
       bindS (listRulesForGroups d) (\<lambda>rulesByGroup.
       bindS (listLegacyDomainsForGroups d) (\<lambda>legacyDomainsByGroup.
         ret (sort_key group_Name
           (map (\<lambda>r. group_of r (if rulesByGroup (gr_id r) = [] then legacy_rules (legacyDomainsByGroup (gr_id r))
                                 else rulesByGroup (gr_id r))) rows)))))"


section \<open>Writing groups\<close>

definition write_group :: "driver \<Rightarrow> domain_group \<Rightarrow> int run" where
  "write_group d grp =
     bindS (call d (insert_group (group_Name grp) (EgressVPN grp))) (\<lambda>result.
     bindS (query d (\<lambda>_ _. result)) (\<lambda>i.
       thenS (replaceRulesTx d i (Rules grp)) (thenS (replaceLegacyDomainsTx d i (group_Domains grp)) (ret i))))"

definition store_Create :: "driver \<Rightarrow> domain_group \<Rightarrow> domain_group run" where
  "store_Create d grp =
     (case NormalizeAndValidate grp of
        Inl e \<Rightarrow> raise (InvalidGroup e)
      | Inr normalized \<Rightarrow> bindS (in_tx d (write_group d normalized)) (store_Get d))"

definition store_Update :: "driver \<Rightarrow> int \<Rightarrow> domain_group \<Rightarrow> domain_group run" where
  "store_Update d i grp =
     (if i \<le> 0 then raise InvalidGroupID
      else (case NormalizeAndValidate grp of
        Inl e \<Rightarrow> raise (InvalidGroup e)
      | Inr normalized \<Rightarrow>
          thenS (in_tx d
            (bindS (call d (update_group i (group_Name normalized) (EgressVPN normalized))) (\<lambda>result.
             bindS (query d (\<lambda>_ _. result)) (\<lambda>affected.
               if affected = 0 then raise GroupNotFound
               else thenS (replaceRulesTx d i (Rules normalized)) (replaceLegacyDomainsTx d i (group_Domains normalized))))))
          (store_Get d i)))"

definition store_Delete :: "driver \<Rightarrow> int \<Rightarrow> unit run" where
  "store_Delete d i =
     (if i \<le> 0 then raise InvalidGroupID
      else bindS (call d (\<lambda>_ t. Inr (length (filter (\<lambda>r. gr_id r = i) (domain_groups t)), drop_groups (\<lambda>r. gr_id r = i) t))) (\<lambda>result.
           bindS (query d (\<lambda>_ _. result)) (\<lambda>affected.
             if affected = 0 then raise GroupNotFound else ret ())))"


section \<open>Address caches\<close>

definition discoveryCacheRetentionSeconds :: int where
  "discoveryCacheRetentionSeconds = 24 * 60 * 60"

definition upsert_resolver :: "resolver_selector \<Rightarrow> string \<Rightarrow> string \<Rightarrow> int \<Rightarrow> tables \<Rightarrow> tables" where
  "upsert_resolver sel family cidr tm t = t\<lparr>resolver_cache := upsert_row (sel, family, cidr) tm (resolver_cache t)\<rparr>"

definition upsertResolverSnapshotTx :: "driver \<Rightarrow> resolver_snapshot \<Rightarrow> unit run" where
  "upsertResolverSnapshotTx d snapshot =
     each (\<lambda>(sel, vals).
       thenS (each (\<lambda>cidr. exec d (upsert_resolver sel ''inet'' cidr)) (V4 vals))
             (each (\<lambda>cidr. exec d (upsert_resolver sel ''inet6'' cidr)) (V6 vals))) snapshot"

definition unexpired :: "int \<Rightarrow> ('k \<times> int) list \<Rightarrow> ('k \<times> int) list" where
  "unexpired tm rows = filter (\<lambda>row. \<not> snd row < tm - discoveryCacheRetentionSeconds) rows"

definition purgeExpiredResolverCacheTx :: "driver \<Rightarrow> unit run" where
  "purgeExpiredResolverCacheTx d = exec d (\<lambda>tm t. t\<lparr>resolver_cache := unexpired tm (resolver_cache t)\<rparr>)"

definition PurgeExpiredResolverCache :: "driver \<Rightarrow> unit run" where
  "PurgeExpiredResolverCache d = exec d (\<lambda>tm t. t\<lparr>resolver_cache := unexpired tm (resolver_cache t)\<rparr>)"

definition store_ClearResolverCache :: "driver \<Rightarrow> unit run" where
  "store_ClearResolverCache d = exec d (\<lambda>_ t. t\<lparr>resolver_cache := []\<rparr>)"

definition ReplaceResolverSnapshot :: "driver \<Rightarrow> resolver_snapshot \<Rightarrow> unit run" where
  "ReplaceResolverSnapshot d snapshot =
     in_tx d (thenS (store_ClearResolverCache d) (thenS (upsertResolverSnapshotTx d snapshot) (purgeExpiredResolverCacheTx d)))"

definition store_UpsertResolverSnapshot :: "driver \<Rightarrow> resolver_snapshot \<Rightarrow> unit run" where
  "store_UpsertResolverSnapshot d snapshot =
     in_tx d (thenS (upsertResolverSnapshotTx d snapshot) (purgeExpiredResolverCacheTx d))"

text \<open>The rows in the order of the query, filed under their key.\<close>

definition add_family :: "string \<Rightarrow> string \<Rightarrow> resolver_values \<Rightarrow> resolver_values" where
  "add_family family cidr v = (if family = ''inet6'' then v\<lparr>V6 := V6 v @ [cidr]\<rparr> else v\<lparr>V4 := V4 v @ [cidr]\<rparr>)"

fun file_rows :: "('k \<times> resolver_values) list \<Rightarrow> ('k \<times> string \<times> string) list \<Rightarrow> ('k \<times> resolver_values) list" where
  "file_rows acc [] = acc"
| "file_rows acc ((k, family, cidr) # rows) =
     file_rows (AList.update k (add_family family cidr (snapshot_get acc k)) acc) rows"

definition LoadResolverSnapshot :: "driver \<Rightarrow> resolver_snapshot run" where
  "LoadResolverSnapshot d = query d (\<lambda>tm t.
     file_rows [] (sort_key (\<lambda>((ty, key), family, cidr). [ty, key, family, cidr])
       (map fst (filter (\<lambda>row. snd row \<ge> tm - discoveryCacheRetentionSeconds) (resolver_cache t)))))"

definition upsert_prewarm :: "string \<Rightarrow> string \<Rightarrow> string \<Rightarrow> int \<Rightarrow> tables \<Rightarrow> tables" where
  "upsert_prewarm sn family cidr tm t = t\<lparr>prewarm_cache := upsert_row (sn, family, cidr) tm (prewarm_cache t)\<rparr>"

definition upsertPrewarmSnapshotTx :: "driver \<Rightarrow> prewarm_snapshot \<Rightarrow> unit run" where
  "upsertPrewarmSnapshotTx d snapshot =
     each (\<lambda>(sn, vals).
       thenS (each (\<lambda>cidr. exec d (upsert_prewarm sn ''inet'' cidr)) (V4 vals))
             (each (\<lambda>cidr. exec d (upsert_prewarm sn ''inet6'' cidr)) (V6 vals))) snapshot"

definition purgeExpiredPrewarmCacheTx :: "driver \<Rightarrow> unit run" where
  "purgeExpiredPrewarmCacheTx d = exec d (\<lambda>tm t. t\<lparr>prewarm_cache := unexpired tm (prewarm_cache t)\<rparr>)"

definition PurgeExpiredPrewarmCache :: "driver \<Rightarrow> unit run" where
  "PurgeExpiredPrewarmCache d = exec d (\<lambda>tm t. t\<lparr>prewarm_cache := unexpired tm (prewarm_cache t)\<rparr>)"

definition store_ClearPrewarmCache :: "driver \<Rightarrow> unit run" where
  "store_ClearPrewarmCache d = exec d (\<lambda>_ t. t\<lparr>prewarm_cache := []\<rparr>)"

definition store_UpsertPrewarmSnapshot :: "driver \<Rightarrow> prewarm_snapshot \<Rightarrow> unit run" where
  "store_UpsertPrewarmSnapshot d snapshot =
     in_tx d (thenS (upsertPrewarmSnapshotTx d snapshot) (purgeExpiredPrewarmCacheTx d))"

definition LoadPrewarmSnapshot :: "driver \<Rightarrow> prewarm_snapshot run" where
  "LoadPrewarmSnapshot d = query d (\<lambda>tm t.
     file_rows [] (sort_key (\<lambda>(sn, family, cidr). [sn, family, cidr])
       (map fst (filter (\<lambda>row. snd row \<ge> tm - discoveryCacheRetentionSeconds) (prewarm_cache t)))))"

text \<open>Everything replaced in one transaction: restoring a backup.\<close>

definition store_ReplaceAll :: "driver \<Rightarrow> domain_group list \<Rightarrow> resolver_snapshot \<Rightarrow> unit run" where
  "store_ReplaceAll d groups snapshot =
     (case traverse NormalizeAndValidate groups of
        Inl e \<Rightarrow> raise (InvalidGroup e)
      | Inr normalizedGroups \<Rightarrow>
          in_tx d
            (thenS (exec d (\<lambda>_. drop_groups (\<lambda>_. True)))
            (thenS (exec d (\<lambda>_ t. t\<lparr>resolver_cache := []\<rparr>))
            (thenS (exec d (\<lambda>_ t. t\<lparr>prewarm_cache := []\<rparr>))
            (thenS (each (\<lambda>grp. bindS (write_group d grp) (\<lambda>_. ret ())) (sort_key group_Name normalizedGroups))
                   (upsertResolverSnapshotTx d snapshot))))))"


section \<open>The history of resolver runs\<close>

record resolver_run =
  run_ID :: int
  run_StartedAt :: int
  run_FinishedAt :: int
  run_DurationMS :: int
  run_SelectorsTotal :: int
  run_SelectorsDone :: int
  run_PrefixesResolved :: int
  run_Error :: string

definition SaveResolverRun :: "driver \<Rightarrow> resolver_run \<Rightarrow> resolver_run run" where
  "SaveResolverRun d r =
     bindS (call d (\<lambda>_ t. let i = resolver_runs_seq t + 1 in
       Inr (i, t\<lparr>resolver_runs := resolver_runs t @
           [\<lparr>rn_ID = i, rn_StartedAt = run_StartedAt r,
             rn_FinishedAt = (if run_FinishedAt r > 0 then Some (run_FinishedAt r) else None),
             rn_DurationMS = (if run_DurationMS r > 0 then Some (run_DurationMS r) else None),
             rn_SelectorsTotal = run_SelectorsTotal r, rn_SelectorsDone = run_SelectorsDone r,
             rn_PrefixesResolved = run_PrefixesResolved r,
             rn_Error = (if run_Error r = [] then None else Some (run_Error r))\<rparr>],
         resolver_runs_seq := i\<rparr>)))
     (\<lambda>result. bindS (query d (\<lambda>_ _. result)) (\<lambda>i. ret (r\<lparr>run_ID := i\<rparr>)))"

definition run_of_row :: "resolver_run_row \<Rightarrow> resolver_run" where
  "run_of_row r = \<lparr>run_ID = rn_ID r, run_StartedAt = rn_StartedAt r,
     run_FinishedAt = (case rn_FinishedAt r of None \<Rightarrow> 0 | Some v \<Rightarrow> v),
     run_DurationMS = (case rn_DurationMS r of None \<Rightarrow> 0 | Some v \<Rightarrow> v),
     run_SelectorsTotal = rn_SelectorsTotal r, run_SelectorsDone = rn_SelectorsDone r,
     run_PrefixesResolved = rn_PrefixesResolved r, run_Error = (case rn_Error r of None \<Rightarrow> [] | Some v \<Rightarrow> v)\<rparr>"

definition LastResolverRun :: "driver \<Rightarrow> (resolver_run option) run" where
  "LastResolverRun d = query d (\<lambda>_ t.
     case sort_key (\<lambda>r. - rn_ID r) (resolver_runs t) of [] \<Rightarrow> None | r # _ \<Rightarrow> Some (run_of_row r))"

end
