(* ===== verification/Store_Refine.thy ===== *)
theory Store_Refine
  imports Routing_Store
begin

text \<open>
  The store implements a map from group ids to groups. The calls of an operation are composed with a
  small logic of triples: from a state with the precondition the operation ends in one with the
  postcondition, unless the driver failed a call. The invariant \<open>db_ok\<close> states the keys and the
  references between the tables.
\<close>


section \<open>Triples\<close>

named_theorems triple_rules \<open>how a triple of a composed operation follows from its parts\<close>

definition faulty :: "driver \<Rightarrow> bool" where
  "faulty d \<longleftrightarrow> (\<exists>k. fault d k \<noteq> None)"

definition ends :: "driver \<Rightarrow> ('a \<Rightarrow> tables \<Rightarrow> bool) \<Rightarrow> (store_error + 'a) \<times> (tables \<times> nat) \<Rightarrow> bool" where
  "ends d Q res = (case fst res of Inr a \<Rightarrow> Q a (fst (snd res)) | Inl e \<Rightarrow> faulty d \<and> (\<exists>x. e = DriverErr x))"

lemma ends_simps [simp]:
  "ends d Q (Inr a, s) = Q a (fst s)" "ends d Q (Inl e, s) \<longleftrightarrow> faulty d \<and> (\<exists>x. e = DriverErr x)"
  by (simp_all add: ends_def)

definition triple :: "driver \<Rightarrow> (tables \<Rightarrow> bool) \<Rightarrow> 'a run \<Rightarrow> ('a \<Rightarrow> tables \<Rightarrow> bool) \<Rightarrow> bool" where
  "triple d P m Q \<longleftrightarrow> (\<forall>t n. P t \<longrightarrow> ends d Q (m (t, n)))"

lemma tripleI: "(\<And>t n. P t \<Longrightarrow> ends d Q (m (t, n))) \<Longrightarrow> triple d P m Q"
  by (simp add: triple_def)

lemma tripleD:
  assumes "triple d P m Q" "P t"
  obtains (ok) a t' n' where "m (t, n) = (Inr a, (t', n'))" "Q a t'"
    | (failed) x s' where "m (t, n) = (Inl (DriverErr x), s')" "faulty d"
proof -
  obtain r t' n' where r: "m (t, n) = (r, (t', n'))" by (cases "m (t, n)") auto
  have "ends d Q (m (t, n))" using assms by (simp add: triple_def)
  then show thesis using r that by (cases r) auto
qed

lemma triple_at:
  assumes "triple d (\<lambda>t. t = t0) m Q"
  obtains (ok) a t' n' where "m (t0, n) = (Inr a, (t', n'))" "Q a t'"
    | (failed) x s' where "m (t0, n) = (Inl (DriverErr x), s')" "faulty d"
  using tripleD [OF assms refl, of n] that by metis

lemma triple_conseq:
  assumes "triple d P m Q" "\<And>t. P' t \<Longrightarrow> P t" "\<And>a t. Q a t \<Longrightarrow> Q' a t"
  shows "triple d P' m Q'"
proof (rule tripleI)
  fix t n assume "P' t"
  then have "P t" by (rule assms(2))
  show "ends d Q' (m (t, n))"
    by (rule tripleD [OF assms(1) \<open>P t\<close>, of n]) (auto intro: assms(3))
qed

lemma triple_pre: "triple d P m Q \<Longrightarrow> (\<And>t. P' t \<Longrightarrow> P t) \<Longrightarrow> triple d P' m Q"
  by (rule triple_conseq)

lemma triple_post: "triple d P m Q \<Longrightarrow> (\<And>a t. Q a t \<Longrightarrow> Q' a t) \<Longrightarrow> triple d P m Q'"
  by (rule triple_conseq)

lemma triple_ret: "(\<And>t. P t \<Longrightarrow> Q a t) \<Longrightarrow> triple d P (ret a) Q"
  by (simp add: triple_def ret_def)

lemma triple_bind:
  assumes m: "triple d P m Q" and k: "\<And>a. triple d (Q a) (k a) R"
  shows "triple d P (bindS m k) R"
proof (rule tripleI)
  fix t n assume "P t"
  show "ends d R (bindS m k (t, n))"
  proof (cases rule: tripleD [OF m \<open>P t\<close>, of n, case_names ok failed])
    case (ok a t' n')
    then show ?thesis using k by (simp add: bindS_def triple_def)
  next
    case (failed x s')
    then show ?thesis by (simp add: bindS_def)
  qed
qed

lemma triple_then: "triple d P m (\<lambda>_. Q) \<Longrightarrow> triple d Q k R \<Longrightarrow> triple d P (thenS m k) R"
  unfolding thenS_def by (rule triple_bind)

lemma triple_call:
  assumes "\<And>tm t. P t \<Longrightarrow> tm \<in> range (now d) \<Longrightarrow> \<exists>a t'. stmt tm t = Inr (a, t') \<and> Q a t'"
  shows "triple d P (call d stmt) Q"
proof (rule tripleI)
  fix t n assume "P t"
  then obtain a t' where "stmt (now d n) t = Inr (a, t')" "Q a t'" using assms [of t "now d n"] by auto
  then show "ends d Q (call d stmt (t, n))"
    by (cases "fault d n") (auto simp: call_def faulty_def)
qed

lemma triple_query: "(\<And>tm t. P t \<Longrightarrow> tm \<in> range (now d) \<Longrightarrow> Q (f tm t) t) \<Longrightarrow> triple d P (query d f) Q"
  unfolding query_def by (rule triple_call) simp

lemma triple_const: "triple d P (query d (\<lambda>_ _. x)) (\<lambda>a t. a = x \<and> P t)"
  by (rule triple_query) simp

lemma triple_exec: "(\<And>tm t. P t \<Longrightarrow> tm \<in> range (now d) \<Longrightarrow> Q (f tm t)) \<Longrightarrow> triple d P (exec d f) (\<lambda>_. Q)"
  unfolding exec_def by (rule triple_call) simp

text \<open>A loop: an invariant indexed by the items done.\<close>

lemma triple_each:
  assumes "\<And>ys x zs. xs = ys @ x # zs \<Longrightarrow> triple d (I ys) (f x) (\<lambda>_. I (ys @ [x]))"
  shows "triple d (I []) (each f xs) (\<lambda>_. I xs)"
proof -
  have gen: "triple d (I ys) (each f zs) (\<lambda>_. I xs)" if "xs = ys @ zs" for ys zs
    using that
  proof (induction zs arbitrary: ys)
    case Nil
    then show ?case by (auto intro: triple_ret)
  next
    case (Cons z zs)
    then show ?case
      using assms [of ys z zs] Cons.IH [of "ys @ [z]"] by (auto intro: triple_then)
  qed
  show ?thesis using gen [of "[]" xs] by simp
qed

lemma triple_tx:
  assumes m: "triple d P m Q"
  shows "triple d P (in_tx d m) Q"
proof (rule tripleI)
  fix t n assume "P t"
  let ?body = "bindS (query d (\<lambda>_ _. ())) (\<lambda>_. bindS m (\<lambda>a. bindS (query d (\<lambda>_ _. ())) (\<lambda>_. ret a)))"
  have body: "triple d P ?body Q"
    by (rule triple_bind [OF triple_const], rule triple_bind [OF triple_pre [OF m]], simp,
      rule triple_bind [OF triple_const], rule triple_ret) simp
  show "ends d Q (in_tx d m (t, n))"
    by (rule tripleD [OF body \<open>P t\<close>, of n]) (auto simp: in_tx_def)
qed

lemma in_tx_rollback: "in_tx d m (t, n) = (Inl e, (t', n')) \<Longrightarrow> t' = t"
  by (auto simp: in_tx_def split: sum.splits prod.splits)


text \<open>Operations that only read, whatever they return.\<close>

definition keeps :: "'a run \<Rightarrow> bool" where
  "keeps m \<longleftrightarrow> (\<forall>s. fst (snd (m s)) = fst s)"

lemma keepsD: "keeps m \<Longrightarrow> m (t, n) = (r, (t', n')) \<Longrightarrow> t' = t"
  unfolding keeps_def by (metis fst_conv snd_conv)

lemma keeps_query [triple_rules]: "keeps (query d f)"
  by (simp add: keeps_def query_def call_def split: option.split)

lemma keeps_ret [triple_rules]: "keeps (ret a)" "keeps (raise e)"
  by (simp_all add: keeps_def ret_def raise_def)

lemma keeps_bind [triple_rules]: "keeps m \<Longrightarrow> (\<And>a. keeps (k a)) \<Longrightarrow> keeps (bindS m k)"
  unfolding keeps_def bindS_def by (auto split: sum.split prod.split) (metis fst_conv snd_conv)+

lemma keeps_if [triple_rules]: "keeps a \<Longrightarrow> keeps b \<Longrightarrow> keeps (if c then a else b)"
  by simp


section \<open>What is read\<close>

definition read_rule :: "tables \<Rightarrow> rule_row \<Rightarrow> routing_rule" where
  "read_rule t entry =
     (let i = rr_id entry; ch = rule_children t;
          rule = \<lparr>rule_ID = i, rule_Name = rr_name entry, SourceInterfaces = text_cells (ch rule_source_interfaces) i,
               SourceCIDRs = text_cells (ch rule_source_cidrs) i, ExcludedSourceCIDRs = text_cells (ch rule_excluded_source_cidrs) i,
               SourceMACs = text_cells (ch rule_source_macs) i, DestinationCIDRs = text_cells (ch rule_destination_cidrs) i,
               ExcludedDestinationCIDRs = text_cells (ch rule_excluded_destination_cidrs) i,
               DestinationPorts = port_cells (ch rule_ports_table) i,
               ExcludedDestinationPorts = port_cells (ch rule_excluded_ports) i, DestinationASNs = text_cells (ch rule_asns) i,
               ExcludedDestinationASNs = text_cells (ch rule_excluded_asns) i, ExcludeMulticast = Some (rr_multicast entry \<noteq> 0),
               Domains = domain_cells (\<lambda>w. w \<noteq> 1) (ch rule_domains) i, WildcardDomains = domain_cells (\<lambda>w. w = 1) (ch rule_domains) i,
               RawSelectors = None\<rparr>
      in rule\<lparr>RawSelectors := Some (finalizeRuleRawSelectors
           (hydrateRuleRawSelectorsFromRule (raw_of (selector_lines t) i) rule) rule)\<rparr>)"

definition rules_in :: "tables \<Rightarrow> int \<Rightarrow> routing_rule list" where
  "rules_in t g = map (read_rule t) (filter (\<lambda>entry. rr_group entry = g) (ordered_rules (routing_rules t)))"

definition legacy_in :: "tables \<Rightarrow> int \<Rightarrow> string list" where
  "legacy_in t g = map snd (filter (\<lambda>row. fst row = g) (domain_entries t))"

definition read_group :: "tables \<Rightarrow> group_row \<Rightarrow> domain_group" where
  "read_group t r =
     group_of r (if rules_in t (gr_id r) = [] then legacy_rules (legacy_in t (gr_id r)) else rules_in t (gr_id r))"

definition view :: "tables \<Rightarrow> int \<Rightarrow> domain_group option" where
  "view t i = map_option (read_group t) (find (\<lambda>r. gr_id r = i) (domain_groups t))"

lemmas reading_defs =
  listRuleCIDRs_def listRuleSourceInterfaces_def listRuleSourceMACs_def listRulePorts_def listRuleExcludedPorts_def
  listRuleASNs_def listRuleExcludedASNs_def listRuleDomains_def listRuleRawSelectors_def listLegacyDomainsForGroups_def

lemma triple_reads: "triple d (\<lambda>t. t = t0) (query d (\<lambda>_. f)) (\<lambda>a t. t = t0 \<and> a = f t0)"
  by (rule triple_query) simp

lemma bind_eq:
  "triple d P m (\<lambda>a t. t = t1 \<and> a = x) \<Longrightarrow> triple d (\<lambda>t. t = t1) (k x) Q \<Longrightarrow> triple d P (bindS m k) Q"
  by (rule triple_bind) (auto simp: triple_def)

lemma reads_bind:
  "triple d (\<lambda>t. t = t0) m (\<lambda>a t. t = t0 \<and> a = x) \<Longrightarrow> triple d (\<lambda>t. t = t0) (k x) Q \<Longrightarrow>
     triple d (\<lambda>t. t = t0) (bindS m k) Q"
  by (rule bind_eq)

lemma listRulesForGroups_reads:
  "triple d (\<lambda>t. t = t0) (listRulesForGroups d) (\<lambda>f t. t = t0 \<and> f = rules_in t0)"
proof (cases "ordered_rules (routing_rules t0) = []")
  case True
  then have "rules_in t0 = (\<lambda>_. [])" by (simp add: rules_in_def fun_eq_iff)
  then show ?thesis unfolding listRulesForGroups_def
    by (intro reads_bind [OF triple_reads]) (auto simp: True intro: triple_ret)
next
  case False
  show ?thesis unfolding listRulesForGroups_def reading_defs
    by (rule reads_bind [OF triple_reads], simp only: False if_False, (rule reads_bind [OF triple_reads])+, rule triple_ret)
      (simp add: rules_in_def read_rule_def Let_def fun_eq_iff)
qed

lemma store_Get_reads:
  assumes "0 < i" "view t0 i = Some g"
  shows "triple d (\<lambda>t. t = t0) (store_Get d i) (\<lambda>x t. t = t0 \<and> x = g)"
proof -
  from assms(2) obtain r where r: "find (\<lambda>r. gr_id r = i) (domain_groups t0) = Some r" "g = read_group t0 r"
    by (auto simp: view_def)
  let ?rules = "rules_in t0 (gr_id r)"
  let ?all = "if ?rules = [] then legacy_rules (legacy_in t0 (gr_id r)) else ?rules"
  have rules: "triple d (\<lambda>t. t = t0) (listRulesByGroup d (gr_id r)) (\<lambda>x t. t = t0 \<and> x = ?rules)"
    unfolding listRulesByGroup_def by (rule reads_bind [OF listRulesForGroups_reads], rule triple_ret) simp
  have legacy: "triple d (\<lambda>t. t = t0)
      (if ?rules = [] then bindS (listLegacyDomainsByGroup d (gr_id r)) (\<lambda>doms. ret (legacy_rules doms)) else ret ?rules)
      (\<lambda>x t. t = t0 \<and> x = ?all)"
    unfolding listLegacyDomainsByGroup_def listLegacyDomainsForGroups_def
    by (cases "?rules = []") (auto intro!: triple_ret reads_bind [OF reads_bind [OF triple_reads triple_ret]]
      simp: legacy_in_def)
  show ?thesis
    using assms(1) unfolding store_Get_def
    by (simp, intro reads_bind [OF triple_reads], simp only: r option.case)
      (rule reads_bind [OF rules], rule reads_bind [OF legacy], rule triple_ret, simp add: read_group_def)
qed

lemma keeps_reading: "keeps (listRulesForGroups d)" "keeps (store_Get d i)"
  unfolding listRulesForGroups_def listRulesByGroup_def listLegacyDomainsByGroup_def store_Get_def reading_defs
  by (auto intro!: triple_rules split: option.split)


section \<open>What a rule is read from\<close>

definition rule_data :: "tables \<Rightarrow> int \<Rightarrow> (child_table \<Rightarrow> (int \<times> cell) list) \<times> line_row list" where
  "rule_data t i = ((\<lambda>c. filter (\<lambda>row. fst row = i) (rule_children t c)), filter (\<lambda>l. ln_rule l = i) (selector_lines t))"

lemma map_filter_restrict:
  "(\<And>x. x \<in> set xs \<Longrightarrow> f x \<noteq> None \<Longrightarrow> p x) \<Longrightarrow> List.map_filter f (filter p xs) = List.map_filter f xs"
  by (induction xs) (auto simp: List.map_filter_def)

lemma cells_restrict:
  "text_cells (filter (\<lambda>row. fst row = i) rows) i = text_cells rows i"
  "port_cells (filter (\<lambda>row. fst row = i) rows) i = port_cells rows i"
  "domain_cells flag (filter (\<lambda>row. fst row = i) rows) i = domain_cells flag rows i"
  unfolding text_cells_def port_cells_def domain_cells_def
  by (rule map_filter_restrict; auto split: cell.splits if_splits)+

lemma lines_restrict: "stored_lines (filter (\<lambda>l. ln_rule l = i) rows) i sel = stored_lines rows i sel"
  by (simp add: stored_lines_def conj_comms cong: conj_cong)

lemma read_rule_data:
  assumes "rule_data t (rr_id e) = rule_data t' (rr_id e)"
  shows "read_rule t e = read_rule t' e"
proof -
  let ?i = "rr_id e"
  have c: "filter (\<lambda>row. fst row = ?i) (rule_children t c) = filter (\<lambda>row. fst row = ?i) (rule_children t' c)" for c
    using assms by (auto simp: rule_data_def dest: fun_cong)
  have l: "filter (\<lambda>l. ln_rule l = ?i) (selector_lines t) = filter (\<lambda>l. ln_rule l = ?i) (selector_lines t')"
    using assms by (simp add: rule_data_def)
  have "text_cells (rule_children t c) ?i = text_cells (rule_children t' c) ?i"
    "port_cells (rule_children t c) ?i = port_cells (rule_children t' c) ?i"
    "domain_cells flag (rule_children t c) ?i = domain_cells flag (rule_children t' c) ?i" for c flag
    using c [of c] by (metis cells_restrict)+
  moreover have "raw_of (selector_lines t) ?i = raw_of (selector_lines t') ?i"
    using l by (simp add: raw_of_def) (metis lines_restrict)
  ultimately show ?thesis by (simp add: read_rule_def Let_def)
qed


section \<open>Writing one rule\<close>

definition child_ids :: "tables \<Rightarrow> int set" where
  "child_ids t = (\<Union>c. fst ` set (rule_children t c)) \<union> ln_rule ` set (selector_lines t)"

definition cell_list :: "routing_rule \<Rightarrow> (child_table \<times> cell) list" where
  "cell_list r =
     map (\<lambda>x. (rule_source_cidrs, Text x)) (SourceCIDRs r) @
     map (\<lambda>x. (rule_excluded_source_cidrs, Text x)) (ExcludedSourceCIDRs r) @
     map (\<lambda>x. (rule_source_interfaces, Text x)) (SourceInterfaces r) @
     map (\<lambda>x. (rule_source_macs, Text x)) (SourceMACs r) @
     map (\<lambda>x. (rule_destination_cidrs, Text x)) (DestinationCIDRs r) @
     map (\<lambda>x. (rule_excluded_destination_cidrs, Text x)) (ExcludedDestinationCIDRs r) @
     map (\<lambda>x. (rule_ports_table, Ports x)) (DestinationPorts r) @
     map (\<lambda>x. (rule_excluded_ports, Ports x)) (ExcludedDestinationPorts r) @
     map (\<lambda>x. (rule_asns, Text x)) (DestinationASNs r) @
     map (\<lambda>x. (rule_excluded_asns, Text x)) (ExcludedDestinationASNs r) @
     map (\<lambda>x. (rule_domains, DomainCell x 0)) (Domains r) @
     map (\<lambda>x. (rule_domains, DomainCell x 1)) (WildcardDomains r)"

definition cells_in :: "(child_table \<times> cell) list \<Rightarrow> child_table \<Rightarrow> cell list" where
  "cells_in ps c = map snd (filter (\<lambda>p. fst p = c) ps)"

definition with_cells :: "int \<Rightarrow> (child_table \<times> cell) list \<Rightarrow> tables \<Rightarrow> tables" where
  "with_cells rid ps t = t\<lparr>rule_children := (\<lambda>c. rule_children t c @ map (Pair rid) (cells_in ps c))\<rparr>"

lemma cells_in_map: "cells_in (map (\<lambda>x. (c', f x)) xs @ ps) c = (if c' = c then map f xs else []) @ cells_in ps c"
  "cells_in (map (\<lambda>x. (c', f x)) xs) c = (if c' = c then map f xs else [])"
  by (auto simp: cells_in_def filter_map comp_def)

lemma cells_of_rule:
  "cells_in (cell_list r) rule_source_cidrs = map Text (SourceCIDRs r)"
  "cells_in (cell_list r) rule_excluded_source_cidrs = map Text (ExcludedSourceCIDRs r)"
  "cells_in (cell_list r) rule_source_interfaces = map Text (SourceInterfaces r)"
  "cells_in (cell_list r) rule_source_macs = map Text (SourceMACs r)"
  "cells_in (cell_list r) rule_destination_cidrs = map Text (DestinationCIDRs r)"
  "cells_in (cell_list r) rule_excluded_destination_cidrs = map Text (ExcludedDestinationCIDRs r)"
  "cells_in (cell_list r) rule_ports_table = map Ports (DestinationPorts r)"
  "cells_in (cell_list r) rule_excluded_ports = map Ports (ExcludedDestinationPorts r)"
  "cells_in (cell_list r) rule_asns = map Text (DestinationASNs r)"
  "cells_in (cell_list r) rule_excluded_asns = map Text (ExcludedDestinationASNs r)"
  "cells_in (cell_list r) rule_domains = map (\<lambda>x. DomainCell x 0) (Domains r) @ map (\<lambda>x. DomainCell x 1) (WildcardDomains r)"
  unfolding cell_list_def cells_in_map by simp_all

lemma each_append: "each f (xs @ ys) = thenS (each f xs) (each f ys)"
  by (induction xs) (auto simp: thenS_def bindS_def ret_def fun_eq_iff split: sum.split prod.split)

lemma each_map: "each f (map h xs) = each (\<lambda>x. f (h x)) xs"
  by (induction xs) auto

lemma thenS_assoc: "thenS (thenS a b) c = thenS a (thenS b c)"
  by (auto simp: thenS_def bindS_def fun_eq_iff split: sum.split prod.split)

text \<open>The twelve loops over the selectors are one loop over all cells.\<close>

lemma insert_rule_tx_cells:
  "insert_rule_tx d g idx rule =
     bindS (call d (\<lambda>_ t. Inr (insert_rule g (rule_Name rule) (int idx) (boolToInt (RuleExcludeMulticastEnabled rule)) t)))
     (\<lambda>result. bindS (query d (\<lambda>_ _. result)) (\<lambda>rid.
       thenS (each (\<lambda>(c, v). call d (\<lambda>_. insert_child c rid v)) (cell_list rule))
             (insertRuleRawSelectorsTx d rid (RawSelectors rule))))"
  unfolding insert_rule_tx_def cell_list_def insert_cells_def
  by (simp only: each_append each_map thenS_assoc prod.case)

lemma insert_cells_puts:
  assumes "\<And>c. distinct (cells_in ps c)" "\<And>c v. (rid, v) \<notin> set (rule_children t0 c)"
  shows "triple d (\<lambda>t. t = t0) (each (\<lambda>(c, v). call d (\<lambda>_. insert_child c rid v)) ps) (\<lambda>_ t. t = with_cells rid ps t0)"
    (is "triple d _ ?m _")
proof -
  have "triple d (\<lambda>t. t = with_cells rid [] t0) ?m (\<lambda>_ t. t = with_cells rid ps t0)"
  proof (rule triple_each [where I = "\<lambda>ys t. t = with_cells rid ys t0"])
    fix ys x zs assume ps: "ps = ys @ x # zs"
    obtain c v where x: "x = (c, v)" by (cases x)
    have "v \<notin> set (cells_in ys c)" using assms(1) [of c] by (auto simp: ps x cells_in_def)
    then have "(rid, v) \<notin> set (rule_children (with_cells rid ys t0) c)"
      using assms(2) by (auto simp: with_cells_def)
    then have "insert_child c rid v (with_cells rid ys t0) = Inr ((), with_cells rid (ys @ [x]) t0)"
      by (auto simp: insert_child_def with_cells_def cells_in_def x fun_eq_iff)
    then show "triple d (\<lambda>t. t = with_cells rid ys t0) (case x of (c, v) \<Rightarrow> call d (\<lambda>_. insert_child c rid v))
        (\<lambda>_ t. t = with_cells rid (ys @ [x]) t0)"
      by (auto intro!: triple_call simp: x)
  qed
  then show ?thesis by (simp add: with_cells_def cells_in_def)
qed

definition storable :: "routing_rule \<Rightarrow> bool" where
  "storable r \<longleftrightarrow> distinct (SourceInterfaces r) \<and> distinct (SourceCIDRs r) \<and> distinct (ExcludedSourceCIDRs r) \<and>
     distinct (SourceMACs r) \<and> distinct (DestinationCIDRs r) \<and> distinct (ExcludedDestinationCIDRs r) \<and>
     distinct (DestinationPorts r) \<and> distinct (ExcludedDestinationPorts r) \<and> distinct (DestinationASNs r) \<and>
     distinct (ExcludedDestinationASNs r) \<and> distinct (Domains r) \<and> distinct (WildcardDomains r) \<and>
     ExcludeMulticast r \<noteq> None \<and> (\<exists>raw. RawSelectors r = Some raw \<and> raw_covers raw r)"

lemma normalize_distinct:
  "normalizeCIDRs xs l = Inr ys \<Longrightarrow> distinct ys" "normalizeMACs xs = Inr ys \<Longrightarrow> distinct ys"
  unfolding normalize_defs by (auto dest: norm_loop_props(2))

lemma normalizeRule_storable:
  assumes "normalizeRule raw idx = Inr r"
  shows "storable r"
proof -
  note n = assms [unfolded normalizeRule_iff]
  have "raw_covers (rule_raw raw) r" using n selectors_covered by blast
  then have "\<exists>rs. RawSelectors r = Some rs \<and> raw_covers rs r"
    using n by (simp add: finalizeRuleRawSelectors_def hydrate_covered)
  moreover have "distinct (SourceCIDRs r) \<and> distinct (ExcludedSourceCIDRs r) \<and> distinct (DestinationCIDRs r) \<and>
      distinct (ExcludedDestinationCIDRs r) \<and> distinct (SourceMACs r)"
    using conjunct1 [OF n, unfolded selectors_from_def]
    by (elim conjE, intro conjI) (erule normalize_distinct)+
  moreover have "rule_ok r" using assms by (rule normalizeRule_ok)
  ultimately show ?thesis unfolding storable_def rule_ok_def by simp
qed

definition driver_ok :: "driver \<Rightarrow> bool" where
  "driver_ok d \<longleftrightarrow> (\<forall>n. distinct (lines_order d n) \<and> set (lines_order d n) = set (map fst (linesBySelector empty_raw)))"

definition line_rows :: "int \<Rightarrow> rule_raw_selectors \<Rightarrow> string \<Rightarrow> line_row list" where
  "line_rows rid raw sel = map (\<lambda>(p, l). \<lparr>ln_rule = rid, ln_selector = sel, ln_line = l, ln_position = int p\<rparr>)
     (List.enumerate 0 (lines_of raw sel))"

definition with_lines :: "line_row list \<Rightarrow> tables \<Rightarrow> tables" where
  "with_lines L t = t\<lparr>selector_lines := selector_lines t @ L\<rparr>"

lemma insert_lines_puts:
  "triple d (\<lambda>t. t = t0) (each (\<lambda>(position, line). exec d (\<lambda>_. insert_line rid sel line (int position))) ps)
     (\<lambda>_ t. t = with_lines (map (\<lambda>(p, l). \<lparr>ln_rule = rid, ln_selector = sel, ln_line = l, ln_position = int p\<rparr>) ps) t0)"
  (is "triple d _ ?m (\<lambda>_ t. t = ?I ps)")
proof -
  have "triple d (\<lambda>t. t = ?I []) ?m (\<lambda>_ t. t = ?I ps)"
    by (rule triple_each [where I = "\<lambda>ys t. t = ?I ys"])
      (auto intro!: triple_exec simp: insert_line_def with_lines_def)
  then show ?thesis by (simp add: with_lines_def)
qed

lemma insertRuleRawSelectorsTx_puts:
  assumes "driver_ok d"
  shows "triple d (\<lambda>t. t = t0) (insertRuleRawSelectorsTx d rid raw)
    (\<lambda>_ t. \<exists>n. t = with_lines (concat (map (line_rows rid (normalizeRuleRawSelectors raw)) (lines_order d n))) t0)"
proof (rule tripleI)
  fix t n assume "t = t0"
  let ?raw = "normalizeRuleRawSelectors raw"
  let ?I = "\<lambda>sels. with_lines (concat (map (line_rows rid ?raw) sels)) t0"
  let ?m = "each (\<lambda>sel. each (\<lambda>(position, line). exec d (\<lambda>_. insert_line rid sel line (int position)))
      (List.enumerate 0 (lines_of ?raw sel))) (lines_order d n)"
  have "triple d (\<lambda>t. t = ?I []) ?m (\<lambda>_ t. t = ?I (lines_order d n))"
  proof (rule triple_each [where I = "\<lambda>ys t. t = ?I ys"])
    fix ys x
    show "triple d (\<lambda>t. t = ?I ys) (each (\<lambda>(position, line). exec d (\<lambda>_. insert_line rid x line (int position)))
        (List.enumerate 0 (lines_of ?raw x))) (\<lambda>_ t. t = ?I (ys @ [x]))"
      by (rule triple_post [OF insert_lines_puts]) (simp add: with_lines_def line_rows_def)
  qed
  then have "triple d (\<lambda>t. t = t0) ?m (\<lambda>_ t. \<exists>n. t = ?I (lines_order d n))"
    by (rule triple_conseq) (auto simp: with_lines_def)
  then show "ends d (\<lambda>_ t. \<exists>n. t = ?I (lines_order d n)) (insertRuleRawSelectorsTx d rid raw (t, n))"
    using \<open>t = t0\<close> by (simp add: triple_def insertRuleRawSelectorsTx_def)
qed


definition new_row :: "int \<Rightarrow> int \<Rightarrow> nat \<Rightarrow> routing_rule \<Rightarrow> rule_row" where
  "new_row i g idx r = \<lparr>rr_id = i, rr_group = g, rr_name = rule_Name r, rr_position = int idx,
     rr_multicast = boolToInt (RuleExcludeMulticastEnabled r)\<rparr>"

definition add_row :: "rule_row \<Rightarrow> tables \<Rightarrow> tables" where
  "add_row row t = t\<lparr>routing_rules := routing_rules t @ [row], routing_rules_seq := rr_id row\<rparr>"

lemma insert_rule_tx_adds:
  assumes "driver_ok d" "storable r" "routing_rules_seq t0 + 1 \<notin> child_ids t0"
  shows "triple d (\<lambda>t. t = t0) (insert_rule_tx d g idx r)
    (\<lambda>_ t. \<exists>n. t = with_lines (concat (map (line_rows (routing_rules_seq t0 + 1)
         (normalizeRuleRawSelectors (RawSelectors r))) (lines_order d n)))
       (with_cells (routing_rules_seq t0 + 1) (cell_list r) (add_row (new_row (routing_rules_seq t0 + 1) g idx r) t0)))"
proof -
  let ?rid = "routing_rules_seq t0 + 1"
  let ?t1 = "add_row (new_row ?rid g idx r) t0"
  have fresh: "(?rid, v) \<notin> set (rule_children ?t1 c)" for v c
    using assms(3) by (force simp: child_ids_def add_row_def)
  have dist: "distinct (cells_in (cell_list r) c)" for c
    using assms(2) by (cases c) (auto simp: cells_of_rule storable_def distinct_map inj_on_def)
  have ins: "triple d (\<lambda>t. t = t0)
      (call d (\<lambda>_ t. Inr (insert_rule g (rule_Name r) (int idx) (boolToInt (RuleExcludeMulticastEnabled r)) t)))
      (\<lambda>a t. t = ?t1 \<and> a = ?rid)"
    by (rule triple_call) (simp add: insert_rule_def Let_def add_row_def new_row_def)
  show ?thesis unfolding insert_rule_tx_cells
    by (rule bind_eq [OF ins], rule reads_bind [OF triple_reads],
      rule triple_then [OF insert_cells_puts [OF dist fresh] insertRuleRawSelectorsTx_puts [OF assms(1)]])
qed


section \<open>Reading a written rule\<close>

lemma enumerate_map_snd: "map (\<lambda>(p, l). l) (List.enumerate k xs) = xs"
  by (induction xs arbitrary: k) auto

lemma line_rows_filter:
  "filter (\<lambda>l. ln_rule l = rid \<and> ln_selector l = sel) (line_rows rid raw sel') = (if sel' = sel then line_rows rid raw sel else [])"
  by (auto simp: line_rows_def filter_empty_conv intro!: filter_True)

lemma lines_filter_order:
  "distinct order \<Longrightarrow> sel \<in> set order \<Longrightarrow>
     filter (\<lambda>l. ln_rule l = rid \<and> ln_selector l = sel) (concat (map (line_rows rid raw) order)) = line_rows rid raw sel"
proof (induction order)
  case (Cons s order)
  have none: "sel \<notin> set xs \<Longrightarrow>
      filter (\<lambda>l. ln_rule l = rid \<and> ln_selector l = sel) (concat (map (line_rows rid raw) xs)) = []" for xs
    by (induction xs) (auto simp: line_rows_filter)
  from Cons none [of order] show ?case by (auto simp: line_rows_filter)
qed simp

lemma stored_lines_new:
  assumes "distinct order" "sel \<in> set order" "rid \<notin> ln_rule ` set rows"
  shows "stored_lines (rows @ concat (map (line_rows rid raw) order)) rid sel = lines_of raw sel"
proof -
  have "filter (\<lambda>l. ln_rule l = rid \<and> ln_selector l = sel) rows = []"
    using assms(3) by (auto simp: filter_empty_conv)
  moreover have "sorted (map ln_position (line_rows rid raw sel))"
    by (auto simp: line_rows_def comp_def case_prod_beta sorted_iff_nth_mono nth_enumerate_eq)
  ultimately show ?thesis using assms(1,2)
    by (simp add: stored_lines_def lines_filter_order sort_key_id_if_sorted) (simp add: line_rows_def comp_def case_prod_beta enumerate_map_snd [unfolded case_prod_beta])
qed


lemma map_filter_append: "List.map_filter f (xs @ ys) = List.map_filter f xs @ List.map_filter f ys"
  by (simp add: List.map_filter_def)

lemma map_filter_none: "(\<And>x. x \<in> set xs \<Longrightarrow> f x = None) \<Longrightarrow> List.map_filter f xs = []"
  by (induction xs) (auto simp: List.map_filter_def)

lemma map_filter_map: "List.map_filter f (map g xs) = List.map_filter (\<lambda>x. f (g x)) xs"
  by (induction xs) (auto simp: List.map_filter_def)

lemma map_filter_Some: "List.map_filter (\<lambda>x. Some (f x)) xs = map f xs"
  by (induction xs) (auto simp: List.map_filter_def)

lemma cells_new:
  assumes "rid \<notin> fst ` set rows"
  shows "text_cells (rows @ map (Pair rid) (map Text xs)) rid = xs"
    "port_cells (rows @ map (Pair rid) (map Ports ps)) rid = ps"
    "domain_cells (\<lambda>w. w \<noteq> 1) (rows @ map (Pair rid) (map (\<lambda>x. DomainCell x 0) xs @ map (\<lambda>x. DomainCell x 1) ys)) rid = xs"
    "domain_cells (\<lambda>w. w = 1) (rows @ map (Pair rid) (map (\<lambda>x. DomainCell x 0) xs @ map (\<lambda>x. DomainCell x 1) ys)) rid = ys"
proof -
  have o: "text_cells rows rid = []" "port_cells rows rid = []" "domain_cells flag rows rid = []" for flag
    unfolding text_cells_def port_cells_def domain_cells_def
    by (rule map_filter_none; use assms in \<open>force split: cell.splits\<close>)+
  show "text_cells (rows @ map (Pair rid) (map Text xs)) rid = xs"
    "port_cells (rows @ map (Pair rid) (map Ports ps)) rid = ps"
    "domain_cells (\<lambda>w. w \<noteq> 1) (rows @ map (Pair rid) (map (\<lambda>x. DomainCell x 0) xs @ map (\<lambda>x. DomainCell x 1) ys)) rid = xs"
    "domain_cells (\<lambda>w. w = 1) (rows @ map (Pair rid) (map (\<lambda>x. DomainCell x 0) xs @ map (\<lambda>x. DomainCell x 1) ys)) rid = ys"
    using o unfolding text_cells_def port_cells_def domain_cells_def
    by (simp_all add: map_filter_append map_filter_map map_filter_Some comp_def) (simp_all add: List.map_filter_def)
qed

definition stored_rule :: "int \<Rightarrow> routing_rule \<Rightarrow> routing_rule" where
  "stored_rule rid r = r\<lparr>rule_ID := rid, RawSelectors := Some (map_raw normalizeRawLines (the (RawSelectors r)))\<rparr>"

lemma raw_of_new:
  assumes "driver_ok d" "rid \<notin> ln_rule ` set rows"
  shows "raw_of (rows @ concat (map (line_rows rid raw) (lines_order d n))) rid = raw"
proof -
  have "sel \<in> fst ` set (linesBySelector empty_raw) \<Longrightarrow>
      stored_lines (rows @ concat (map (line_rows rid raw) (lines_order d n))) rid sel = lines_of raw sel" for sel
    using assms by (intro stored_lines_new) (auto simp: driver_ok_def)
  then show ?thesis
    by (simp add: raw_of_def linesBySelector_def lines_of_def)
qed

lemma read_written:
  assumes "driver_ok d" "storable r" "rid \<notin> child_ids t"
  shows "read_rule (with_lines (concat (map (line_rows rid (normalizeRuleRawSelectors (RawSelectors r))) (lines_order d n)))
    (with_cells rid (cell_list r) (add_row row t))) (new_row rid g idx r) = stored_rule rid r"
proof -
  obtain raw b where raw: "RawSelectors r = Some raw" "raw_covers raw r" "ExcludeMulticast r = Some b"
    using assms(2) by (auto simp: storable_def)
  have fresh: "rid \<notin> fst ` set (rule_children t c)" "rid \<notin> ln_rule ` set (selector_lines t)" for c
    using assms(3) by (auto simp: child_ids_def)
  let ?raw = "map_raw normalizeRawLines raw"
  have cov: "raw_covers ?raw r" using raw(2) by (rule raw_covers_map)
  then have h: "hydrateRuleRawSelectorsFromRule ?raw (r\<lparr>rule_ID := rid, RawSelectors := None\<rparr>) = ?raw"
    by (intro hydrate_covered) (simp add: raw_covers_def)
  have "raw_of (selector_lines t @ concat (map (line_rows rid ?raw) (lines_order d n))) rid = ?raw"
    using raw_of_new [OF assms(1) fresh(2)] .
  moreover have "b \<longleftrightarrow> boolToInt (RuleExcludeMulticastEnabled r) \<noteq> 0"
    by (simp add: boolToInt_def RuleExcludeMulticastEnabled_def raw)
  ultimately show ?thesis
    using h raw cells_new [OF fresh(1)]
    by (cases r) (simp add: read_rule_def Let_def with_lines_def with_cells_def add_row_def new_row_def cells_of_rule
      normalizeRuleRawSelectors_def finalizeRuleRawSelectors_def stored_rule_def)
qed


section \<open>Writing the rules of a group\<close>

text \<open>The state \<open>t'\<close> after the rules have been added to the group \<open>g\<close> of \<open>t\<close>.\<close>

definition added :: "int \<Rightarrow> routing_rule list \<Rightarrow> tables \<Rightarrow> tables \<Rightarrow> bool" where
  "added g rules t t' \<longleftrightarrow>
     (\<exists>ch ls. t' = t\<lparr>routing_rules := routing_rules t @
          map (\<lambda>(j, r). new_row (routing_rules_seq t + 1 + int j) g j r) (List.enumerate 0 rules),
        routing_rules_seq := routing_rules_seq t + int (length rules), rule_children := ch, selector_lines := ls\<rparr>) \<and>
     (\<forall>i \<le> routing_rules_seq t. rule_data t' i = rule_data t i) \<and>
     child_ids t' \<subseteq> child_ids t \<union> {routing_rules_seq t <.. routing_rules_seq t'} \<and>
     (\<forall>j < length rules. read_rule t' (new_row (routing_rules_seq t + 1 + int j) g j (rules ! j)) =
        stored_rule (routing_rules_seq t + 1 + int j) (rules ! j))"

lemma added_Nil: "added g [] t t"
  by (auto simp: added_def intro!: exI [of _ "rule_children t"] exI [of _ "selector_lines t"])

lemma rule_data_other:
  assumes "\<forall>l \<in> set L. ln_rule l = rid" "i \<noteq> rid"
  shows "rule_data (with_lines L (with_cells rid ps (add_row row t))) i = rule_data t i"
proof -
  have "filter (\<lambda>l. ln_rule l = i) L = []" using assms by (auto simp: filter_empty_conv)
  then show ?thesis using assms(2) by (auto simp: rule_data_def with_lines_def with_cells_def add_row_def comp_def fun_eq_iff)
qed

lemma added_snoc:
  assumes add: "added g rules t t1" and d: "driver_ok d" "storable r" and fresh: "routing_rules_seq t1 + 1 \<notin> child_ids t1"
    and t': "t' = with_lines (concat (map (line_rows (routing_rules_seq t1 + 1)
         (normalizeRuleRawSelectors (RawSelectors r))) (lines_order d n)))
       (with_cells (routing_rules_seq t1 + 1) (cell_list r) (add_row (new_row (routing_rules_seq t1 + 1) g (length rules) r) t1))"
      (is "_ = with_lines ?L (with_cells ?rid _ _)")
  shows "added g (rules @ [r]) t t'"
proof -
  have seq: "routing_rules_seq t1 = routing_rules_seq t + int (length rules)" using add by (auto simp: added_def)
  have L: "\<forall>l \<in> set ?L. ln_rule l = ?rid" by (auto simp: line_rows_def)
  have data: "rule_data t' i = rule_data t1 i" if "i \<noteq> ?rid" for i
    unfolding t' using rule_data_other [OF L that] .
  have shape: "\<exists>ch ls. t' = t\<lparr>routing_rules := routing_rules t @
          map (\<lambda>(j, r). new_row (routing_rules_seq t + 1 + int j) g j r) (List.enumerate 0 (rules @ [r])),
        routing_rules_seq := routing_rules_seq t + int (length (rules @ [r])), rule_children := ch, selector_lines := ls\<rparr>"
  proof -
    from add obtain ch ls where "t1 = t\<lparr>routing_rules := routing_rules t @
          map (\<lambda>(j, r). new_row (routing_rules_seq t + 1 + int j) g j r) (List.enumerate 0 rules),
        routing_rules_seq := routing_rules_seq t + int (length rules), rule_children := ch, selector_lines := ls\<rparr>"
      by (auto simp: added_def)
    then show ?thesis unfolding t' with_lines_def with_cells_def add_row_def
      by (intro exI, simp add: enumerate_append_eq new_row_def algebra_simps)
  qed
  have sub: "child_ids t1 \<subseteq> child_ids t \<union> {routing_rules_seq t <.. routing_rules_seq t1}" using add by (simp add: added_def)
  have ids: "child_ids t' \<subseteq> child_ids t1 \<union> {?rid}"
    using L by (auto simp: t' child_ids_def with_lines_def with_cells_def add_row_def)
  have rid: "?rid = routing_rules_seq t + 1 + int (length rules)" using seq by simp
  have "read_rule t' (new_row ?rid g (length rules) r) = stored_rule ?rid r"
    unfolding t' by (rule read_written [OF d fresh])
  note new = this [unfolded rid]
  have old: "read_rule t' (new_row (routing_rules_seq t + 1 + int j) g j (rules ! j)) =
      stored_rule (routing_rules_seq t + 1 + int j) (rules ! j)" if "j < length rules" for j
  proof -
    let ?row = "new_row (routing_rules_seq t + 1 + int j) g j (rules ! j)"
    have "rule_data t' (rr_id ?row) = rule_data t1 (rr_id ?row)"
      using that seq by (intro data) (simp add: new_row_def)
    from read_rule_data [OF this] show ?thesis using add that by (simp add: added_def)
  qed
  have kept: "\<forall>i \<le> routing_rules_seq t. rule_data t' i = rule_data t i"
    using add data seq by (simp add: added_def)
  have "routing_rules_seq t' = routing_rules_seq t + int (length rules) + 1"
    using seq by (simp add: t' with_lines_def with_cells_def add_row_def new_row_def)
  then have rng: "child_ids t' \<subseteq> child_ids t \<union> {routing_rules_seq t <.. routing_rules_seq t'}"
    using seq by (intro subsetI, drule_tac subsetD [OF ids]) (auto dest!: subsetD [OF sub])
  have rd: "\<forall>j < length (rules @ [r]). read_rule t' (new_row (routing_rules_seq t + 1 + int j) g j ((rules @ [r]) ! j)) =
      stored_rule (routing_rules_seq t + 1 + int j) ((rules @ [r]) ! j)"
    using old new by (simp add: nth_append less_Suc_eq)
  show ?thesis unfolding added_def by (intro conjI shape kept rng rd)
qed

lemma rules_loop_adds:
  assumes d: "driver_ok d" and r: "\<And>r. r \<in> set rules \<Longrightarrow> storable r" and fresh: "\<And>i. i \<in> child_ids t0 \<Longrightarrow> i \<le> routing_rules_seq t0"
  shows "triple d (\<lambda>t. t = t0) (each (\<lambda>(idx, rule). insert_rule_tx d g idx rule) (List.enumerate 0 rules)) (\<lambda>_. added g rules t0)"
proof -
  let ?f = "\<lambda>(idx, rule). insert_rule_tx d g idx rule"
  have "triple d (added g (map snd ([] :: (nat \<times> routing_rule) list)) t0) (each ?f (List.enumerate 0 rules)) (\<lambda>_. added g (map snd (List.enumerate 0 rules)) t0)"
  proof (rule triple_each [where I = "\<lambda>ps. added g (map snd ps) t0"])
    fix ys x zs assume split: "List.enumerate 0 rules = ys @ x # zs"
    have x: "x = (length ys, snd x)" "snd x \<in> set rules"
    proof -
      have "length ys < length rules" using arg_cong [OF split, of length] by simp
      then have "x = (length ys, rules ! length ys)"
        using split by (metis add_0 nth_append_length nth_enumerate_eq)
      then show "x = (length ys, snd x)" "snd x \<in> set rules" using \<open>length ys < length rules\<close> by auto
    qed
    show "triple d (added g (map snd ys) t0) (?f x) (\<lambda>_. added g (map snd (ys @ [x])) t0)"
    proof (rule tripleI)
      fix t n assume t: "added g (map snd ys) t0 t"
      have seq: "routing_rules_seq t = routing_rules_seq t0 + int (length ys)" using t by (auto simp: added_def)
      then have new: "routing_rules_seq t + 1 \<notin> child_ids t"
        using t fresh [of "routing_rules_seq t + 1"] by (auto simp: added_def)
      have "triple d (\<lambda>s. s = t) (insert_rule_tx d g (length ys) (snd x)) (\<lambda>_. added g (map snd (ys @ [x])) t0)"
        using added_snoc [OF t d r [OF x(2)] new] by (intro triple_post [OF insert_rule_tx_adds [OF d r [OF x(2)] new]]) auto
      then show "ends d (\<lambda>_. added g (map snd (ys @ [x])) t0) (?f x (t, n))"
        by (subst x(1)) (simp add: triple_def)
    qed
  qed
  then show ?thesis by (simp add: triple_pre added_Nil)
qed


section \<open>The invariant of the tables\<close>

definition rules_ok :: "tables \<Rightarrow> bool" where
  "rules_ok t \<longleftrightarrow> distinct (map rr_id (routing_rules t)) \<and>
     (\<forall>r \<in> set (routing_rules t). 0 < rr_id r \<and> rr_id r \<le> routing_rules_seq t \<and> rr_group r \<in> gr_id ` set (domain_groups t)) \<and>
     child_ids t \<subseteq> rr_id ` set (routing_rules t)"

definition db_ok :: "tables \<Rightarrow> bool" where
  "db_ok t \<longleftrightarrow> distinct (map gr_id (domain_groups t)) \<and> distinct (map gr_name (domain_groups t)) \<and>
     (\<forall>r \<in> set (domain_groups t). 0 < gr_id r \<and> gr_id r \<le> domain_groups_seq t) \<and> 0 \<le> domain_groups_seq t \<and>
     0 \<le> routing_rules_seq t \<and> rules_ok t \<and> fst ` set (domain_entries t) \<subseteq> gr_id ` set (domain_groups t)"

lemma ordered_rules_filter: "filter p (ordered_rules rows) = ordered_rules (filter p rows)"
  by (simp add: ordered_rules_def filter_sort)

lemma ordered_rules_sorted:
  assumes "sorted (map rr_id rows)" "sorted (map rr_position rows)" "\<And>r. r \<in> set rows \<Longrightarrow> rr_group r = g"
  shows "ordered_rules rows = rows"
proof -
  have "sorted (map rr_group rows)" using assms(3) by (auto simp: sorted_iff_nth_mono)
  then show ?thesis using assms(1,2) by (simp add: ordered_rules_def sort_key_id_if_sorted)
qed

lemma set_ordered_rules [simp]: "set (ordered_rules rows) = set rows"
  by (simp add: ordered_rules_def)

lemma rules_in_other:
  assumes "filter (\<lambda>r. rr_group r = h) (routing_rules t') = filter (\<lambda>r. rr_group r = h) (routing_rules t)"
    and "\<And>r. r \<in> set (routing_rules t) \<Longrightarrow> rr_group r = h \<Longrightarrow> rule_data t' (rr_id r) = rule_data t (rr_id r)"
  shows "rules_in t' h = rules_in t h"
  unfolding rules_in_def ordered_rules_filter assms(1)
  by (rule map_cong [OF refl]) (use assms(2) in \<open>auto intro!: read_rule_data\<close>)

lemma drop_rules_simps [simp]:
  "routing_rules (drop_rules p t) = filter (\<lambda>r. \<not> p r) (routing_rules t)"
  "routing_rules_seq (drop_rules p t) = routing_rules_seq t" "domain_groups (drop_rules p t) = domain_groups t"
  "domain_groups_seq (drop_rules p t) = domain_groups_seq t" "domain_entries (drop_rules p t) = domain_entries t"
  by (simp_all add: drop_rules_def Let_def)

lemma drop_rules_data:
  "i \<notin> rr_id ` set (filter p (routing_rules t)) \<Longrightarrow> rule_data (drop_rules p t) i = rule_data t i"
  by (auto simp: rule_data_def drop_rules_def Let_def fun_eq_iff intro!: filter_cong)

lemma drop_rules_ids: "child_ids (drop_rules p t) = child_ids t - rr_id ` set (filter p (routing_rules t))"
proof -
  let ?G = "rr_id ` set (filter p (routing_rules t))"
  have img: "f ` set (filter (\<lambda>x. f x \<notin> G) xs) = f ` set xs - G" for f :: "'x \<Rightarrow> int" and G xs by auto
  have rc: "rule_children (drop_rules p t) c = filter (\<lambda>row. fst row \<notin> ?G) (rule_children t c)" for c
    by (simp add: drop_rules_def Let_def)
  have sl: "selector_lines (drop_rules p t) = filter (\<lambda>l. ln_rule l \<notin> ?G) (selector_lines t)"
    by (simp add: drop_rules_def Let_def)
  show ?thesis unfolding child_ids_def rc sl img by blast
qed

lemma distinct_rule_ids:
  "rules_ok t \<Longrightarrow> r \<in> set (routing_rules t) \<Longrightarrow> r' \<in> set (routing_rules t) \<Longrightarrow> rr_id r = rr_id r' \<Longrightarrow> r = r'"
  by (auto simp: rules_ok_def distinct_map dest: inj_onD)

lemma drop_rules_ok: "rules_ok t \<Longrightarrow> rules_ok (drop_rules p t)"
  unfolding rules_ok_def drop_rules_ids by (auto simp: distinct_map_filter) blast

definition stored_rules :: "int \<Rightarrow> routing_rule list \<Rightarrow> routing_rule list" where
  "stored_rules k rules = map (\<lambda>(j, r). stored_rule (k + int j) r) (List.enumerate 0 rules)"

text \<open>The effect of \<^verbatim>\<open>replaceRulesTx\<close> on the rules of all groups.\<close>

definition replaced :: "int \<Rightarrow> routing_rule list \<Rightarrow> tables \<Rightarrow> tables \<Rightarrow> bool" where
  "replaced g rules t t' \<longleftrightarrow>
     rules_in t' = (rules_in t)(g := stored_rules (routing_rules_seq t + 1) rules) \<and> rules_ok t' \<and>
     routing_rules_seq t' = routing_rules_seq t + int (length rules) \<and>
     (\<exists>rs sq ch ls. t' = t\<lparr>routing_rules := rs, routing_rules_seq := sq, rule_children := ch, selector_lines := ls\<rparr>)"

lemma added_rules_in:
  assumes "added g rules t t'" "filter (\<lambda>r. rr_group r = g) (routing_rules t) = []"
  shows "rules_in t' g = stored_rules (routing_rules_seq t + 1) rules"
proof -
  let ?new = "map (\<lambda>(j, r). new_row (routing_rules_seq t + 1 + int j) g j r) (List.enumerate 0 rules)"
  have "filter (\<lambda>r. rr_group r = g) ?new = ?new" by (rule filter_True) (auto simp: new_row_def)
  moreover have "routing_rules t' = routing_rules t @ ?new" using assms(1) by (auto simp: added_def)
  ultimately have "filter (\<lambda>r. rr_group r = g) (routing_rules t') = ?new" by (simp only: filter_append assms(2)) simp
  moreover have "ordered_rules ?new = ?new"
    by (rule ordered_rules_sorted) (auto simp: sorted_iff_nth_mono nth_enumerate_eq new_row_def)
  moreover have "map (read_rule t') ?new = stored_rules (routing_rules_seq t + 1) rules"
    using assms(1) by (auto simp: added_def stored_rules_def in_set_enumerate_eq)
  ultimately show ?thesis by (simp add: rules_in_def ordered_rules_filter)
qed

lemma added_rules_ok:
  assumes "added g rules t t'" "rules_ok t" "g \<in> gr_id ` set (domain_groups t)" "0 \<le> routing_rules_seq t"
  shows "rules_ok t'"
proof -
  define new where "new = map (\<lambda>(j, r). new_row (routing_rules_seq t + 1 + int j) g j r) (List.enumerate 0 rules)"
  have shape: "routing_rules t' = routing_rules t @ new" "domain_groups t' = domain_groups t"
    "routing_rules_seq t' = routing_rules_seq t + int (length rules)"
    using assms(1) by (auto simp: added_def new_def)
  have ids: "map rr_id new = map (\<lambda>j. routing_rules_seq t + 1 + int j) [0..<length rules]"
    by (rule nth_equalityI) (auto simp: new_def new_row_def nth_enumerate_eq)
  have new_ids: "rr_id ` set new = {routing_rules_seq t <.. routing_rules_seq t'}"
  proof -
    have "i \<in> (\<lambda>j. routing_rules_seq t + 1 + int j) ` {0..<length rules}" if "routing_rules_seq t < i" "i \<le> routing_rules_seq t'" for i
      using that shape(3) by (intro image_eqI [of _ _ "nat (i - routing_rules_seq t - 1)"]) auto
    then show ?thesis using arg_cong [OF ids, of set] shape(3) by auto
  qed
  have "distinct (map rr_id new)" unfolding ids by (auto simp: distinct_map inj_on_def)
  moreover have low: "rr_id ` set (routing_rules t) \<subseteq> {.. routing_rules_seq t}"
    using assms(2) by (auto simp: rules_ok_def)
  then have "rr_id ` set (routing_rules t) \<inter> rr_id ` set new = {}" unfolding new_ids by auto
  ultimately have dist: "distinct (map rr_id (routing_rules t @ new))"
    using assms(2) by (simp add: rules_ok_def)
  have grp: "rr_group r = g" if "r \<in> set new" for r using that by (auto simp: new_def new_row_def)
  have "0 < rr_id r \<and> rr_id r \<le> routing_rules_seq t' \<and> rr_group r \<in> gr_id ` set (domain_groups t)"
    if "r \<in> set (routing_rules t @ new)" for r
  proof (cases "r \<in> set new")
    case True
    then have "rr_id r \<in> {routing_rules_seq t <.. routing_rules_seq t'}" unfolding new_ids [symmetric] by simp
    then show ?thesis using assms(3,4) grp [OF True] by simp
  next
    case False
    then have "r \<in> set (routing_rules t)" using that by simp
    then show ?thesis using assms(2) shape(3) by (simp add: rules_ok_def) (meson add_increasing2 of_nat_0_le_iff)
  qed
  moreover have "child_ids t' \<subseteq> rr_id ` set (routing_rules t @ new)"
    using assms(1,2) unfolding set_append image_Un new_ids by (auto simp: added_def rules_ok_def)
  ultimately show ?thesis using dist unfolding rules_ok_def shape(1,2) by blast
qed


lemma replaceRulesTx_replaces:
  assumes d: "driver_ok d" and r: "\<And>r. r \<in> set rules \<Longrightarrow> storable r" and t: "rules_ok t0" "0 \<le> routing_rules_seq t0"
    and g: "g \<in> gr_id ` set (domain_groups t0)"
  shows "triple d (\<lambda>t. t = t0) (replaceRulesTx d g rules) (\<lambda>_. replaced g rules t0)"
proof -
  let ?p = "\<lambda>r. rr_group r = g"
  let ?t1 = "drop_rules ?p t0"
  have ok1: "rules_ok ?t1" using t(1) by (rule drop_rules_ok)
  then have "\<And>i. i \<in> child_ids ?t1 \<Longrightarrow> i \<le> routing_rules_seq ?t1" by (auto simp: rules_ok_def)
  then have "triple d (\<lambda>t. t = t0) (replaceRulesTx d g rules) (\<lambda>_. added g rules ?t1)"
    unfolding replaceRulesTx_def by (intro triple_then [OF triple_exec rules_loop_adds [OF d r]]) auto
  moreover have "replaced g rules t0 t" if add: "added g rules ?t1 t" for t
  proof -
    have "rules_ok t" using added_rules_ok [OF add ok1] g t(2) by simp
    moreover have "rules_in t g = stored_rules (routing_rules_seq t0 + 1) rules"
      using added_rules_in [OF add] by (simp add: filter_empty_conv)
    moreover have "rules_in t h = rules_in t0 h" if "h \<noteq> g" for h
    proof (rule rules_in_other)
      have "filter (\<lambda>r. rr_group r = h) (map (\<lambda>(j, r). new_row (k + int j) g j r) ps) = []" for ps k
        using that by (auto simp: filter_empty_conv new_row_def)
      then show "filter (\<lambda>r. rr_group r = h) (routing_rules t) = filter (\<lambda>r. rr_group r = h) (routing_rules t0)"
        using add that by (auto simp: added_def intro: filter_cong)
      fix r assume r: "r \<in> set (routing_rules t0)" "rr_group r = h"
      then have "rr_id r \<notin> rr_id ` set (filter ?p (routing_rules t0))"
        using distinct_rule_ids [OF t(1)] that by auto
      moreover have "rr_id r \<le> routing_rules_seq ?t1" using r t(1) by (simp add: rules_ok_def)
      ultimately show "rule_data t (rr_id r) = rule_data t0 (rr_id r)"
        using add by (simp add: added_def drop_rules_data)
    qed
    moreover have "\<exists>rs sq ch ls. t = t0\<lparr>routing_rules := rs, routing_rules_seq := sq, rule_children := ch, selector_lines := ls\<rparr>"
      using add by (auto simp: added_def drop_rules_def Let_def)
    ultimately show ?thesis using add by (auto simp: replaced_def fun_eq_iff added_def)
  qed
  ultimately show ?thesis by (rule triple_post)
qed

lemma replaceLegacyDomainsTx_replaces:
  "triple d (\<lambda>t. t = t0) (replaceLegacyDomainsTx d g doms)
     (\<lambda>_ t. \<exists>es. t = t0\<lparr>domain_entries := filter (\<lambda>row. fst row \<noteq> g) (domain_entries t0) @ map (Pair g) es\<rparr>)"
proof -
  let ?es = "dedup (filter (\<lambda>s. s \<noteq> []) (map legacy_domain doms))"
  let ?I = "\<lambda>es. t0\<lparr>domain_entries := filter (\<lambda>row. fst row \<noteq> g) (domain_entries t0) @ map (Pair g) es\<rparr>"
  have "triple d (\<lambda>t. t = ?I []) (each (\<lambda>s. call d (\<lambda>_. insert_domain_entry g s)) ?es) (\<lambda>_ t. t = ?I ?es)"
  proof (rule triple_each [where I = "\<lambda>es t. t = ?I es"])
    fix ys x zs assume split: "?es = ys @ x # zs"
    have "distinct (ys @ x # zs)" unfolding split [symmetric] by simp
    then show "triple d (\<lambda>t. t = ?I ys) (call d (\<lambda>_. insert_domain_entry g x)) (\<lambda>_ t. t = ?I (ys @ [x]))"
      by (intro triple_call) (auto simp: insert_domain_entry_def)
  qed
  note loop = this
  show ?thesis unfolding replaceLegacyDomainsTx_def
    by (rule triple_then [OF triple_exec [where Q = "\<lambda>t. t = ?I []"] triple_post [OF loop]]) auto
qed


section \<open>Groups\<close>

definition stored_group :: "int \<Rightarrow> int \<Rightarrow> int \<Rightarrow> int \<Rightarrow> domain_group \<Rightarrow> domain_group" where
  "stored_group i created updated k g =
     g\<lparr>group_ID := i, Rules := stored_rules k (Rules g), CreatedAt := created, UpdatedAt := updated\<rparr>"

definition normal_group :: "domain_group \<Rightarrow> bool" where
  "normal_group g \<longleftrightarrow> Rules g \<noteq> [] \<and> list_all storable (Rules g) \<and> group_Domains g = legacyDomainsFromRules (Rules g)"

lemma NormalizeAndValidate_normal:
  assumes "NormalizeAndValidate g = Inr g'"
  shows "normal_group g'"
proof -
  define raws where "raws = (if Rules g = [] \<and> group_Domains g \<noteq> []
    then [empty_rule\<lparr>Domains := group_Domains g\<rparr>] else Rules g)"
  from assms [unfolded NormalizeAndValidate_def Let_def, folded raws_def]
  have g': "raws \<noteq> []" "normalizeRules raws = Inr (Rules g')" "group_Domains g' = legacyDomainsFromRules (Rules g')"
    by (auto simp: bindE_Inr split: if_splits option.splits)
  then have "\<forall>i < length raws. normalizeRule (raws ! i) i = Inr (Rules g' ! i)" "length (Rules g') = length raws"
    by (simp_all add: normalizeRules_def normalize_from_Inr)
  then have "list_all storable (Rules g')" "Rules g' \<noteq> []"
    unfolding list_all_length using g'(1) by (metis normalizeRule_storable, auto)
  then show ?thesis using g'(3) by (simp add: normal_group_def)
qed

lemma stored_rules_domains [simp]: "legacyDomainsFromRules (stored_rules k rs) = legacyDomainsFromRules rs"
proof -
  have "map (\<lambda>r. Domains r @ WildcardDomains r) (stored_rules k rs) = map (\<lambda>r. Domains r @ WildcardDomains r) rs"
    by (rule nth_equalityI) (auto simp: stored_rules_def nth_enumerate_eq stored_rule_def)
  then show ?thesis by (simp add: legacyDomainsFromRules_def)
qed

lemma stored_rules_Nil_iff [simp]: "stored_rules k rs = [] \<longleftrightarrow> rs = []"
  by (cases rs) (simp_all add: stored_rules_def)

lemma read_stored:
  assumes "normal_group g" "rules_in t i = stored_rules k (Rules g)"
    and "row = \<lparr>gr_id = i, gr_name = group_Name g, gr_egress = EgressVPN g, gr_created = c, gr_updated = u\<rparr>"
  shows "read_group t row = stored_group i c u k g"
  using assms by (cases g) (simp add: read_group_def group_of_def normal_group_def stored_group_def)

lemma read_group_cong:
  "rules_in t' (gr_id r) = rules_in t (gr_id r) \<Longrightarrow> legacy_in t' (gr_id r) = legacy_in t (gr_id r) \<Longrightarrow>
     read_group t' r = read_group t r"
  by (simp add: read_group_def)

lemma find_append: "find P (xs @ ys) = (case find P xs of None \<Rightarrow> find P ys | Some x \<Rightarrow> Some x)"
  by (induction xs) auto

lemma find_cong: "(\<And>x. x \<in> set xs \<Longrightarrow> P x = Q x) \<Longrightarrow> find P xs = find Q xs"
  by (induction xs) auto

lemma find_map_keep: "(\<And>x. P (f x) = P x) \<Longrightarrow> find P (map f xs) = map_option f (find P xs)"
  by (induction xs) auto

lemma find_filter: "find P (filter Q xs) = find (\<lambda>x. P x \<and> Q x) xs"
  by (induction xs) auto

lemma find_SomeD: "find P xs = Some x \<Longrightarrow> P x \<and> x \<in> set xs"
  by (metis find_Some_iff nth_mem)

lemma view_None_iff: "view t i = None \<longleftrightarrow> i \<notin> gr_id ` set (domain_groups t)"
  by (auto simp: view_def find_None_iff)

lemma view_group_Name: "view t i = Some g \<Longrightarrow> group_Name g \<in> gr_name ` set (domain_groups t) \<and> group_ID g = i"
  by (auto simp: view_def read_group_def group_of_def dest: find_SomeD)

lemma view_names:
  assumes "db_ok t" "r \<in> set (domain_groups t)"
  shows "\<exists>g. view t (gr_id r) = Some g \<and> group_Name g = gr_name r \<and> CreatedAt g = gr_created r"
proof -
  obtain r' where r': "find (\<lambda>x. gr_id x = gr_id r) (domain_groups t) = Some r'"
    using assms(2) by (cases "find (\<lambda>x. gr_id x = gr_id r) (domain_groups t)") (auto simp: find_None_iff)
  then have "gr_id r' = gr_id r" "r' \<in> set (domain_groups t)" by (auto dest: find_SomeD)
  then have "r' = r" using assms by (auto simp: db_ok_def distinct_map dest: inj_onD)
  then show ?thesis using r' by (simp add: view_def read_group_def group_of_def)
qed

text \<open>Which names are taken, seen through the view.\<close>

lemma name_taken:
  "db_ok t \<Longrightarrow> name \<in> gr_name ` set (domain_groups t) \<longleftrightarrow> (\<exists>i g. view t i = Some g \<and> group_Name g = name)"
  using view_names view_group_Name by fast

text \<open>The two nested writes of a group, from a state in which the row of the group exists.\<close>

definition contents :: "int \<Rightarrow> domain_group \<Rightarrow> tables \<Rightarrow> tables \<Rightarrow> bool" where
  "contents i g t t' \<longleftrightarrow>
     rules_in t' = (rules_in t)(i := stored_rules (routing_rules_seq t + 1) (Rules g)) \<and>
     (\<forall>h. h \<noteq> i \<longrightarrow> legacy_in t' h = legacy_in t h) \<and> domain_groups t' = domain_groups t \<and>
     domain_groups_seq t' = domain_groups_seq t \<and> routing_rules_seq t' = routing_rules_seq t + int (length (Rules g)) \<and>
     resolver_cache t' = resolver_cache t \<and> prewarm_cache t' = prewarm_cache t \<and> db_ok t'"

lemma reading_frame [simp]:
  "rules_in (t\<lparr>domain_groups := x\<rparr>) = rules_in t" "rules_in (t\<lparr>domain_groups_seq := y\<rparr>) = rules_in t"
  "rules_in (t\<lparr>domain_entries := e\<rparr>) = rules_in t" "legacy_in (t\<lparr>domain_groups := x\<rparr>) = legacy_in t"
  "legacy_in (t\<lparr>domain_groups_seq := y\<rparr>) = legacy_in t" "child_ids (t\<lparr>domain_groups := x\<rparr>) = child_ids t"
  "child_ids (t\<lparr>domain_groups_seq := y\<rparr>) = child_ids t" "child_ids (t\<lparr>domain_entries := e\<rparr>) = child_ids t"
  by (auto simp: rules_in_def read_rule_def legacy_in_def child_ids_def Let_def fun_eq_iff)

lemma rules_ok_entries [simp]: "rules_ok (t\<lparr>domain_entries := e\<rparr>) = rules_ok t"
  by (simp add: rules_ok_def)

lemma rules_ok_groups:
  "rules_ok t \<Longrightarrow> gr_id ` set (domain_groups t) \<subseteq> gr_id ` set gs \<Longrightarrow> rules_ok (t\<lparr>domain_groups := gs, domain_groups_seq := sq\<rparr>)"
  by (auto simp: rules_ok_def)

lemma db_ok_insert:
  assumes "db_ok t" "gr_id row = domain_groups_seq t + 1" "gr_name row \<notin> gr_name ` set (domain_groups t)"
  shows "db_ok (t\<lparr>domain_groups := domain_groups t @ [row], domain_groups_seq := gr_id row\<rparr>)"
proof -
  have "gr_id row \<notin> gr_id ` set (domain_groups t)" using assms(1,2) by (force simp: db_ok_def)
  moreover have "rules_ok (t\<lparr>domain_groups := domain_groups t @ [row], domain_groups_seq := gr_id row\<rparr>)"
    using assms(1) by (intro rules_ok_groups) (auto simp: db_ok_def)
  moreover have "fst ` set (domain_entries t) \<subseteq> gr_id ` set (domain_groups t @ [row])"
    using assms(1) unfolding db_ok_def set_append image_Un by blast
  ultimately show ?thesis using assms unfolding db_ok_def by (auto intro: order_trans)
qed

lemma nested_writes:
  assumes d: "driver_ok d" and g: "normal_group g" and t0: "db_ok t0" and i: "i \<in> gr_id ` set (domain_groups t0)"
  shows "triple d (\<lambda>t. t = t0) (thenS (replaceRulesTx d i (Rules g)) (replaceLegacyDomainsTx d i doms))
    (\<lambda>_. contents i g t0)"
proof -
  have r: "\<And>r. r \<in> set (Rules g) \<Longrightarrow> storable r" using g by (simp add: normal_group_def list_all_iff)
  have ok: "rules_ok t0" "0 \<le> routing_rules_seq t0" using t0 by (simp_all add: db_ok_def)
  have "triple d (replaced i (Rules g) t0) (replaceLegacyDomainsTx d i doms) (\<lambda>_. contents i g t0)"
  proof (rule tripleI)
    fix t1 n assume rep: "replaced i (Rules g) t0 t1"
    have fr: "domain_groups t1 = domain_groups t0" "domain_entries t1 = domain_entries t0"
      "domain_groups_seq t1 = domain_groups_seq t0" "resolver_cache t1 = resolver_cache t0" "prewarm_cache t1 = prewarm_cache t0"
      using rep by (auto simp: replaced_def)
    have "contents i g t0 (t1\<lparr>domain_entries := filter (\<lambda>row. fst row \<noteq> i) (domain_entries t1) @ map (Pair i) es\<rparr>)" for es
    proof -
      have "filter (\<lambda>row. fst row = h) (filter (\<lambda>row. fst row \<noteq> i) (domain_entries t1) @ map (Pair i) es) =
          filter (\<lambda>row. fst row = h) (domain_entries t1)" if "h \<noteq> i" for h
        using that by (auto simp: filter_empty_conv intro!: filter_cong)
      then have legacy: "\<forall>h. h \<noteq> i \<longrightarrow> legacy_in (t1\<lparr>domain_entries :=
          filter (\<lambda>row. fst row \<noteq> i) (domain_entries t1) @ map (Pair i) es\<rparr>) h = legacy_in t0 h"
        using fr by (simp add: legacy_in_def)
      have "fst ` set (filter (\<lambda>row. fst row \<noteq> i) (domain_entries t1) @ map (Pair i) es) \<subseteq> insert i (fst ` set (domain_entries t0))"
        using fr by auto
      also have "\<dots> \<subseteq> gr_id ` set (domain_groups t0)" using i t0 by (simp add: db_ok_def)
      finally show ?thesis using rep t0 fr legacy unfolding contents_def replaced_def
        by (simp add: db_ok_def)
    qed
    then have "triple d (\<lambda>t. t = t1) (replaceLegacyDomainsTx d i doms) (\<lambda>_. contents i g t0)"
      by (intro triple_post [OF replaceLegacyDomainsTx_replaces]) auto
    then show "ends d (\<lambda>_. contents i g t0) (replaceLegacyDomainsTx d i doms (t1, n))"
      by (simp add: triple_def)
  qed
  with replaceRulesTx_replaces [OF d r ok i] show ?thesis by (rule triple_then)
qed

lemma contents_view:
  assumes c: "contents i g t1 t" and g: "normal_group g"
    and row: "find (\<lambda>r. gr_id r = i) (domain_groups t1) =
      Some \<lparr>gr_id = i, gr_name = group_Name g, gr_egress = EgressVPN g, gr_created = cr, gr_updated = up\<rparr>"
  shows "view t = (view t1)(i \<mapsto> stored_group i cr up (routing_rules_seq t1 + 1) g)"
proof
  fix j
  show "view t j = ((view t1)(i \<mapsto> stored_group i cr up (routing_rules_seq t1 + 1) g)) j"
  proof (cases "j = i")
    case True
    have "rules_in t i = stored_rules (routing_rules_seq t1 + 1) (Rules g)" using c by (simp add: contents_def)
    from read_stored [OF g this refl] show ?thesis using c row True by (simp add: contents_def view_def)
  next
    case False
    have "map_option (read_group t) (find (\<lambda>r. gr_id r = j) rows) = map_option (read_group t1) (find (\<lambda>r. gr_id r = j) rows)" for rows
      using c False by (cases "find (\<lambda>r. gr_id r = j) rows")
        (auto simp: contents_def intro!: read_group_cong dest: find_SomeD)
    then show ?thesis using c False by (simp add: contents_def view_def)
  qed
qed

lemma write_group_writes:
  assumes d: "driver_ok d" and g: "normal_group g" and t0: "db_ok t0" and free: "group_Name g \<notin> gr_name ` set (domain_groups t0)"
  shows "triple d (\<lambda>t. t = t0) (write_group d g) (\<lambda>i t. i = domain_groups_seq t0 + 1 \<and> db_ok t \<and>
    (\<exists>tm \<in> range (now d). view t = (view t0)(i \<mapsto> stored_group i tm tm (routing_rules_seq t0 + 1) g)) \<and>
    (\<exists>row. gr_id row = i \<and> gr_name row = group_Name g \<and> domain_groups t = domain_groups t0 @ [row]) \<and>
    resolver_cache t = resolver_cache t0 \<and> prewarm_cache t = prewarm_cache t0)" (is "triple d _ _ ?Q")
proof -
  let ?i = "domain_groups_seq t0 + 1"
  let ?row = "\<lambda>tm. \<lparr>gr_id = ?i, gr_name = group_Name g, gr_egress = EgressVPN g, gr_created = tm, gr_updated = tm\<rparr>"
  let ?t1 = "\<lambda>tm. t0\<lparr>domain_groups := domain_groups t0 @ [?row tm], domain_groups_seq := ?i\<rparr>"
  have ins: "triple d (\<lambda>t. t = t0) (call d (insert_group (group_Name g) (EgressVPN g)))
      (\<lambda>a t. a = ?i \<and> (\<exists>tm \<in> range (now d). t = ?t1 tm))"
    using free by (intro triple_call) (auto simp: insert_group_def Let_def)
  have none: "find (\<lambda>r. gr_id r = ?i) (domain_groups t0) = None"
    using t0 by (force simp: db_ok_def find_None_iff)
  have rest: "triple d (\<lambda>t. \<exists>tm \<in> range (now d). t = ?t1 tm)
      (thenS (replaceRulesTx d ?i (Rules g)) (thenS (replaceLegacyDomainsTx d ?i (group_Domains g)) (ret ?i))) ?Q"
  proof (rule tripleI)
    fix t1 n assume "\<exists>tm \<in> range (now d). t1 = ?t1 tm"
    then obtain tm where t1: "tm \<in> range (now d)" "t1 = ?t1 tm" ..
    have ok1: "db_ok t1" using db_ok_insert [OF t0, of "?row tm"] free by (simp add: t1)
    have row: "find (\<lambda>r. gr_id r = ?i) (domain_groups t1) = Some (?row tm)"
      using none by (simp add: t1 find_append)
    have view1: "view t1 j = view t0 j" if "j \<noteq> ?i" for j
      using that by (auto simp: view_def t1 find_append read_group_def split: option.split)
    have fin: "?Q ?i t" if c: "contents ?i g t1 t" for t
    proof -
      have "(view t1)(?i \<mapsto> x) = (view t0)(?i \<mapsto> x)" for x using view1 by auto
      then have "view t = (view t0)(?i \<mapsto> stored_group ?i tm tm (routing_rules_seq t0 + 1) g)"
        using contents_view [OF c g row] by (simp add: t1(2))
      then have "\<exists>tm \<in> range (now d). view t = (view t0)(?i \<mapsto> stored_group ?i tm tm (routing_rules_seq t0 + 1) g)"
        using t1(1) by blast
      then show ?thesis using c by (simp add: contents_def t1(2))
    qed
    have mem: "?i \<in> gr_id ` set (domain_groups t1)" by (simp add: t1)
    have "triple d (\<lambda>t. t = t1)
        (thenS (replaceRulesTx d ?i (Rules g)) (thenS (replaceLegacyDomainsTx d ?i (group_Domains g)) (ret ?i))) ?Q"
      unfolding thenS_assoc [symmetric]
      by (rule triple_then [OF nested_writes [OF d g ok1 mem] triple_ret]) (rule fin)
    then show "ends d ?Q (thenS (replaceRulesTx d ?i (Rules g)) (thenS (replaceLegacyDomainsTx d ?i (group_Domains g)) (ret ?i)) (t1, n))"
      by (simp add: triple_def)
  qed
  show ?thesis unfolding write_group_def
    by (rule triple_bind [OF ins], rule triple_bind [OF triple_const]) (use rest in \<open>auto simp: triple_def\<close>)
qed


lemma update_group_row:
  "update_group i name egress tm t = Inr (k, t') \<Longrightarrow> k \<noteq> 0 \<longleftrightarrow> i \<in> gr_id ` set (domain_groups t)"
  by (auto simp: update_group_def Let_def filter_empty_conv split: if_splits)

lemma db_ok_update:
  assumes t: "db_ok t" and free: "\<And>r. r \<in> set (domain_groups t) \<Longrightarrow> gr_id r \<noteq> i \<Longrightarrow> gr_name r \<noteq> name"
    and f: "f = (\<lambda>r. if gr_id r = i then r\<lparr>gr_name := name, gr_egress := egress, gr_updated := tm\<rparr> else r)"
  shows "db_ok (t\<lparr>domain_groups := map f (domain_groups t)\<rparr>)"
proof -
  have ids: "gr_id (f r) = gr_id r" for r by (simp add: f)
  have "distinct (map gr_name (map f (domain_groups t)))"
  proof -
    have "inj_on (\<lambda>r. gr_name (f r)) (set (domain_groups t))"
      using t free by (auto simp: inj_on_def f db_ok_def distinct_map split: if_splits)
    then show ?thesis using t by (simp add: db_ok_def distinct_map comp_def)
  qed
  moreover have "gr_id ` f ` set (domain_groups t) = gr_id ` set (domain_groups t)" by (simp add: image_image ids)
  moreover have "rules_ok (t\<lparr>domain_groups := map f (domain_groups t)\<rparr>)"
    using rules_ok_groups [of t "map f (domain_groups t)" "domain_groups_seq t"] t calculation(2) by (simp add: db_ok_def)
  ultimately show ?thesis using t by (simp add: db_ok_def ids comp_def)
qed

lemma drop_groups_view:
  fixes p t
  defines "gone \<equiv> gr_id ` set (filter p (domain_groups t))"
  assumes t: "db_ok t"
  shows "view (drop_groups p t) = (\<lambda>j. if j \<in> gone then None else view t j)" "db_ok (drop_groups p t)"
proof -
  let ?t1 = "drop_groups p t"
  have same: "r = r'" if "r \<in> set (domain_groups t)" "r' \<in> set (domain_groups t)" "gr_id r = gr_id r'" for r r'
    using t that by (auto simp: db_ok_def distinct_map dest: inj_onD)
  have gone: "p r \<longleftrightarrow> gr_id r \<in> gone" if "r \<in> set (domain_groups t)" for r
    using that same by (auto simp: gone_def)
  have dg: "?t1 = (drop_rules (\<lambda>r. rr_group r \<in> gone) t)
      \<lparr>domain_groups := filter (\<lambda>r. \<not> p r) (domain_groups t),
       domain_entries := filter (\<lambda>row. fst row \<notin> gone) (domain_entries t)\<rparr>"
    by (simp only: drop_groups_def Let_def gone_def)
  have shape: "domain_groups ?t1 = filter (\<lambda>r. gr_id r \<notin> gone) (domain_groups t)"
    "routing_rules ?t1 = filter (\<lambda>r. rr_group r \<notin> gone) (routing_rules t)"
    "domain_entries ?t1 = filter (\<lambda>row. fst row \<notin> gone) (domain_entries t)"
    "domain_groups_seq ?t1 = domain_groups_seq t" "routing_rules_seq ?t1 = routing_rules_seq t"
    unfolding dg using gone by (auto intro!: filter_cong)
  have data: "rule_data ?t1 = rule_data (drop_rules (\<lambda>r. rr_group r \<in> gone) t)"
    and ids: "child_ids ?t1 = child_ids (drop_rules (\<lambda>r. rr_group r \<in> gone) t)"
    unfolding dg by (simp_all add: rule_data_def child_ids_def fun_eq_iff)
  have rules: "rules_ok t" using t by (simp add: db_ok_def)
  show "view ?t1 = (\<lambda>j. if j \<in> gone then None else view t j)"
  proof
    fix j
    show "view ?t1 j = (if j \<in> gone then None else view t j)"
    proof (cases "j \<in> gone")
      case True
      then show ?thesis by (auto simp: view_None_iff shape)
    next
      case False
      have "rules_in ?t1 j = rules_in t j"
        using False by (intro rules_in_other)
          (auto simp: shape data intro!: filter_cong drop_rules_data dest: distinct_rule_ids [OF rules])
      moreover have "legacy_in ?t1 j = legacy_in t j"
        using False by (auto simp: legacy_in_def shape intro!: arg_cong [of _ _ "map snd"] filter_cong)
      moreover have "find (\<lambda>r. gr_id r = j) (domain_groups ?t1) = find (\<lambda>r. gr_id r = j) (domain_groups t)"
        unfolding shape find_filter using False by (intro find_cong) auto
      ultimately show ?thesis using False
        by (cases "find (\<lambda>r. gr_id r = j) (domain_groups t)") (auto simp: view_def read_group_def dest: find_SomeD)
    qed
  qed
  have "rules_ok (drop_rules (\<lambda>r. rr_group r \<in> gone) t)" using rules by (rule drop_rules_ok)
  then have "rules_ok ?t1"
    unfolding rules_ok_def shape ids by (fastforce simp: gone_def)
  moreover have "fst ` set (domain_entries ?t1) \<subseteq> gr_id ` set (domain_groups ?t1)"
    using t unfolding shape db_ok_def by fastforce
  ultimately show "db_ok ?t1" using t unfolding shape db_ok_def by (auto simp: distinct_map_filter)
qed


section \<open>The store as a map\<close>

datatype store_op = OpCreate domain_group | OpUpdate int domain_group | OpDelete int

definition run_op :: "driver \<Rightarrow> store_op \<Rightarrow> domain_group option run" where
  "run_op d op =
     (case op of
        OpCreate g \<Rightarrow> bindS (store_Create d g) (\<lambda>x. ret (Some x))
      | OpUpdate i g \<Rightarrow> bindS (store_Update d i g) (\<lambda>x. ret (Some x))
      | OpDelete i \<Rightarrow> bindS (store_Delete d i) (\<lambda>_. ret None))"

definition name_free :: "(int \<Rightarrow> domain_group option) \<Rightarrow> int \<Rightarrow> string \<Rightarrow> bool" where
  "name_free m i name \<longleftrightarrow> (\<forall>j g. m j = Some g \<longrightarrow> j \<noteq> i \<longrightarrow> group_Name g \<noteq> name)"

text \<open>What the operation does to the map: the new map and the answer, \<open>None\<close> when it is rejected.
  \<open>i\<close> is the next group id, \<open>k\<close> the next rule id, \<open>tm\<close> the time.\<close>

definition spec_op :: "int \<Rightarrow> int \<Rightarrow> int \<Rightarrow> store_op \<Rightarrow> (int \<Rightarrow> domain_group option) \<Rightarrow>
    ((int \<Rightarrow> domain_group option) \<times> domain_group option) option" where
  "spec_op i k tm op m =
     (case op of
        OpCreate g \<Rightarrow>
          (case NormalizeAndValidate g of
             Inl _ \<Rightarrow> None
           | Inr g' \<Rightarrow> if name_free m i (group_Name g')
                 then let x = stored_group i tm tm k g' in Some (m(i \<mapsto> x), Some x) else None)
      | OpUpdate j g \<Rightarrow>
          (case (m j, NormalizeAndValidate g) of
             (Some old, Inr g') \<Rightarrow> if name_free m j (group_Name g')
                 then let x = stored_group j (CreatedAt old) tm k g' in Some (m(j \<mapsto> x), Some x) else None
           | _ \<Rightarrow> None)
      | OpDelete j \<Rightarrow> if m j = None then None else Some (m(j := None), None))"

text \<open>The outcome of an operation: the answer of the specification, or an error. After an error the map is
  the old one, or already the new one when only the closing read failed.\<close>

definition outcome :: "driver \<Rightarrow> store_op \<Rightarrow> tables \<Rightarrow> (store_error + domain_group option) \<Rightarrow> tables \<Rightarrow> bool" where
  "outcome d op t r t' \<longleftrightarrow> db_ok t' \<and>
     (let spec = (\<lambda>tm. spec_op (domain_groups_seq t + 1) (routing_rules_seq t + 1) tm op (view t)) in
      case r of
        Inr a \<Rightarrow> \<exists>tm \<in> range (now d). spec tm = Some (view t', a)
      | Inl e \<Rightarrow> view t' = view t \<and> (\<forall>tm. spec tm = None) \<or>
                 faulty d \<and> (\<exists>x. e = DriverErr x) \<and> (view t' = view t \<or> (\<exists>tm \<in> range (now d). \<exists>a. spec tm = Some (view t', a))))"

lemma outcome_rejected:
  "db_ok t \<Longrightarrow> (\<And>tm. spec_op (domain_groups_seq t + 1) (routing_rules_seq t + 1) tm op (view t) = None) \<Longrightarrow> outcome d op t (Inl e) t"
  by (simp add: outcome_def)

lemma view_fresh: "db_ok t \<Longrightarrow> view t (domain_groups_seq t + 1) = None"
  by (force simp: view_None_iff db_ok_def)

text \<open>After the transaction the group is read back.\<close>

lemma commit_then_read:
  assumes tx: "triple d (\<lambda>t. t = t0) m (\<lambda>j t. get j = store_Get d i \<and> db_ok t \<and> (\<exists>tm \<in> range (now d).
      spec_op (domain_groups_seq t0 + 1) (routing_rules_seq t0 + 1) tm op (view t0) = Some (view t, view t i)) \<and> view t i \<noteq> None)"
    and i: "0 < i" and t0: "db_ok t0"
  shows "\<exists>r t' n'. bindS (bindS (in_tx d m) get) (\<lambda>x. ret (Some x)) (t0, n) = (r, (t', n')) \<and> outcome d op t0 r t'"
proof (cases rule: triple_at [OF triple_tx [OF tx], where n = n, case_names ok failed])
  case (ok j t1 n1)
  then obtain x where x: "view t1 i = Some x" by auto
  show ?thesis
  proof (cases rule: triple_at [OF store_Get_reads [OF i x], where n = n1 and d = d, case_names ok failed])
    case get: (ok y t2 n2)
    then show ?thesis using ok x by (simp add: bindS_def ret_def outcome_def)
  next
    case (failed e s')
    then have "fst s' = t1" using keepsD [OF keeps_reading(2)] by (cases s') fastforce
    then show ?thesis using ok failed by (cases s') (auto simp: bindS_def outcome_def)
  qed
next
  case (failed e s')
  then have "fst s' = t0" using in_tx_rollback by (cases s') fastforce
  then show ?thesis using failed t0 by (cases s') (simp add: bindS_def outcome_def)
qed


text \<open>A body that always fails leaves the tables as they were.\<close>

definition never :: "'a run \<Rightarrow> tables \<Rightarrow> bool" where
  "never m t \<longleftrightarrow> (\<forall>n. \<exists>e s'. m (t, n) = (Inl e, s'))"

lemma never_call:
  assumes "\<And>tm a t'. stmt tm t = Inr (a, t') \<Longrightarrow> never (k a) t'"
  shows "never (bindS (call d stmt) k) t"
  unfolding never_def
proof
  fix n
  show "\<exists>e s'. bindS (call d stmt) k (t, n) = (Inl e, s')"
  proof (cases "stmt (now d n) t")
    case (Inr p)
    obtain a t' where p: "p = (a, t')" by (cases p)
    obtain e s' where "k a (t', Suc n) = (Inl e, s')" using assms Inr p unfolding never_def by blast
    then show ?thesis using Inr p by (cases "fault d n") (simp_all add: bindS_def call_def)
  qed (cases "fault d n"; simp add: bindS_def call_def)
qed

lemma never_raise: "never (raise e) t"
  by (simp add: never_def raise_def)

lemma never_bind:
  assumes "never m t"
  shows "never (bindS m k) t"
  unfolding never_def
proof
  fix n
  obtain e s' where "m (t, n) = (Inl e, s')" using assms unfolding never_def by blast
  then show "\<exists>e s'. bindS m k (t, n) = (Inl e, s')" by (simp add: bindS_def)
qed

lemma never_tx: "never m t \<Longrightarrow> \<exists>e n'. in_tx d m (t, n) = (Inl e, (t, n'))"
proof -
  assume "never m t"
  from never_bind [OF this]
  have "never (bindS (query d (\<lambda>_ _. ())) (\<lambda>_. bindS m (\<lambda>a. bindS (query d (\<lambda>_ _. ())) (\<lambda>_. ret a)))) t"
    unfolding query_def by (intro never_call) simp
  then obtain e s' where "bindS (query d (\<lambda>_ _. ())) (\<lambda>_. bindS m (\<lambda>a. bindS (query d (\<lambda>_ _. ())) (\<lambda>_. ret a))) (t, n) = (Inl e, s')"
    unfolding never_def by blast
  then show ?thesis by (simp add: in_tx_def)
qed

lemma name_free_iff: "db_ok t \<Longrightarrow> name_free (view t) i name \<longleftrightarrow> (\<forall>r \<in> set (domain_groups t). gr_id r \<noteq> i \<longrightarrow> gr_name r \<noteq> name)"
proof -
  assume t: "db_ok t"
  have "\<exists>r \<in> set (domain_groups t). gr_id r = j \<and> gr_name r = group_Name g" if "view t j = Some g" for j g
    using that by (auto simp: view_def read_group_def group_of_def dest: find_SomeD)
  then show ?thesis using view_names [OF t] unfolding name_free_def by (metis option.inject)
qed

lemma Create_outcome:
  assumes d: "driver_ok d" and t: "db_ok t"
  shows "\<exists>r t' n'. run_op d (OpCreate grp) (t, n) = (r, (t', n')) \<and> outcome d (OpCreate grp) t r t'"
proof (cases "NormalizeAndValidate grp")
  case (Inl e)
  then show ?thesis using t by (simp add: run_op_def store_Create_def bindS_def raise_def outcome_rejected spec_op_def)
next
  case (Inr g)
  let ?i = "domain_groups_seq t + 1"
  have run: "run_op d (OpCreate grp) = bindS (bindS (in_tx d (write_group d g)) (store_Get d)) (\<lambda>x. ret (Some x))"
    by (simp add: run_op_def store_Create_def Inr)
  have g: "normal_group g" using Inr by (rule NormalizeAndValidate_normal)
  have free: "name_free (view t) ?i (group_Name g) \<longleftrightarrow> group_Name g \<notin> gr_name ` set (domain_groups t)"
    using t by (force simp: name_free_iff db_ok_def)
  show ?thesis
  proof (cases "group_Name g \<in> gr_name ` set (domain_groups t)")
    case True
    then have "never (write_group d g) t"
      unfolding write_group_def by (intro never_call) (simp add: insert_group_def)
    then obtain e n' where "in_tx d (write_group d g) (t, n) = (Inl e, (t, n'))" using never_tx by blast
    then show ?thesis using t True free by (simp add: run bindS_def outcome_rejected spec_op_def Inr)
  next
    case False
    have "triple d (\<lambda>s. s = t) (write_group d g) (\<lambda>j s. store_Get d j = store_Get d ?i \<and> db_ok s \<and> (\<exists>tm \<in> range (now d).
        spec_op ?i (routing_rules_seq t + 1) tm (OpCreate grp) (view t) = Some (view s, view s ?i)) \<and> view s ?i \<noteq> None)"
      using False free by (intro triple_post [OF write_group_writes [OF d g t False]]) (auto simp: spec_op_def Inr Let_def)
    moreover have "0 < ?i" using t by (simp add: db_ok_def)
    ultimately show ?thesis unfolding run using t by (rule commit_then_read)
  qed
qed


definition update_body :: "driver \<Rightarrow> int \<Rightarrow> domain_group \<Rightarrow> unit run" where
  "update_body d i g =
     bindS (call d (update_group i (group_Name g) (EgressVPN g))) (\<lambda>result.
     bindS (query d (\<lambda>_ _. result)) (\<lambda>affected.
       if affected = 0 then raise GroupNotFound
       else thenS (replaceRulesTx d i (Rules g)) (replaceLegacyDomainsTx d i (group_Domains g))))"

lemma update_body_writes:
  assumes d: "driver_ok d" and g: "normal_group g" and t0: "db_ok t0" and old: "view t0 i = Some old"
    and free: "name_free (view t0) i (group_Name g)"
  shows "triple d (\<lambda>t. t = t0) (update_body d i g) (\<lambda>_ t. db_ok t \<and>
    (\<exists>tm \<in> range (now d). view t = (view t0)(i \<mapsto> stored_group i (CreatedAt old) tm (routing_rules_seq t0 + 1) g)))"
    (is "triple d _ _ (\<lambda>_. ?Q)")
proof -
  let ?f = "\<lambda>tm r. if gr_id r = i then r\<lparr>gr_name := group_Name g, gr_egress := EgressVPN g, gr_updated := tm\<rparr> else r"
  let ?t1 = "\<lambda>tm. t0\<lparr>domain_groups := map (?f tm) (domain_groups t0)\<rparr>"
  let ?hits = "length (filter (\<lambda>r. gr_id r = i) (domain_groups t0))"
  obtain row where row: "find (\<lambda>r. gr_id r = i) (domain_groups t0) = Some row" "CreatedAt old = gr_created row"
    using old by (auto simp: view_def read_group_def group_of_def)
  have names: "\<And>r. r \<in> set (domain_groups t0) \<Longrightarrow> gr_id r \<noteq> i \<Longrightarrow> gr_name r \<noteq> group_Name g"
    using free t0 by (simp add: name_free_iff)
  have upd: "triple d (\<lambda>t. t = t0) (call d (update_group i (group_Name g) (EgressVPN g)))
      (\<lambda>a t. a = ?hits \<and> (\<exists>tm \<in> range (now d). t = ?t1 tm))"
    using names by (intro triple_call) (auto simp: update_group_def Let_def list_ex_iff)
  have hits: "?hits \<noteq> 0" using row(1) by (auto simp: filter_empty_conv dest: find_SomeD)
  have rest: "triple d (\<lambda>t. \<exists>tm \<in> range (now d). t = ?t1 tm)
      (thenS (replaceRulesTx d i (Rules g)) (replaceLegacyDomainsTx d i (group_Domains g))) (\<lambda>_. ?Q)"
  proof (rule tripleI)
    fix t1 n assume "\<exists>tm \<in> range (now d). t1 = ?t1 tm"
    then obtain tm where t1: "tm \<in> range (now d)" "t1 = ?t1 tm" ..
    have find1: "find (\<lambda>r. gr_id r = j) (domain_groups t1) = map_option (?f tm) (find (\<lambda>r. gr_id r = j) (domain_groups t0))" for j
      unfolding t1(2) by (simp add: find_map_keep)
    have row1: "find (\<lambda>r. gr_id r = i) (domain_groups t1) = Some \<lparr>gr_id = i, gr_name = group_Name g,
        gr_egress = EgressVPN g, gr_created = CreatedAt old, gr_updated = tm\<rparr>"
      unfolding find1 row using find_SomeD [OF row(1)] by (cases row) simp
    have ok1: "db_ok t1" unfolding t1(2) by (rule db_ok_update [OF t0 names refl])
    have mem: "i \<in> gr_id ` set (domain_groups t1)" using row1 by (force dest!: find_SomeD)
    have view1: "view t1 j = view t0 j" if "j \<noteq> i" for j
      using that unfolding view_def find1
      by (cases "find (\<lambda>r. gr_id r = j) (domain_groups t0)") (auto simp: t1(2) read_group_def dest!: find_SomeD)
    have fin: "?Q t" if c: "contents i g t1 t" for t
    proof -
      have "(view t1)(i \<mapsto> x) = (view t0)(i \<mapsto> x)" for x using view1 by auto
      then have "view t = (view t0)(i \<mapsto> stored_group i (CreatedAt old) tm (routing_rules_seq t0 + 1) g)"
        using contents_view [OF c g row1] by (simp add: t1(2))
      then show ?thesis using c t1(1) unfolding contents_def by blast
    qed
    have "triple d (\<lambda>t. t = t1) (thenS (replaceRulesTx d i (Rules g)) (replaceLegacyDomainsTx d i (group_Domains g))) (\<lambda>_. ?Q)"
      by (rule triple_post [OF nested_writes [OF d g ok1 mem]]) (rule fin)
    then show "ends d (\<lambda>_. ?Q) (thenS (replaceRulesTx d i (Rules g)) (replaceLegacyDomainsTx d i (group_Domains g)) (t1, n))"
      by (simp add: triple_def)
  qed
  show ?thesis unfolding update_body_def
    by (rule triple_bind [OF upd], rule triple_bind [OF triple_const]) (use rest hits in \<open>auto simp: triple_def\<close>)
qed

lemma Update_outcome:
  assumes d: "driver_ok d" and t: "db_ok t"
  shows "\<exists>r t' n'. run_op d (OpUpdate i grp) (t, n) = (r, (t', n')) \<and> outcome d (OpUpdate i grp) t r t'"
proof (cases "0 < i \<and> (\<exists>g. NormalizeAndValidate grp = Inr g)")
  case False
  then have "run_op d (OpUpdate i grp) (t, n) = (Inl (if i \<le> 0 then InvalidGroupID else
      InvalidGroup (case NormalizeAndValidate grp of Inl e \<Rightarrow> e)), (t, n))"
    by (cases "NormalizeAndValidate grp") (auto simp: run_op_def store_Update_def bindS_def raise_def)
  moreover have "i \<le> 0 \<Longrightarrow> view t i = None" using t by (force simp: view_None_iff db_ok_def)
  ultimately show ?thesis using t False
    by (auto intro!: outcome_rejected simp: spec_op_def split: option.splits sum.splits)
next
  case True
  then obtain g where g: "NormalizeAndValidate grp = Inr g" "0 < i" by auto
  have run: "run_op d (OpUpdate i grp) = bindS (bindS (in_tx d (update_body d i g)) (\<lambda>_. store_Get d i)) (\<lambda>x. ret (Some x))"
    using g by (simp add: run_op_def store_Update_def update_body_def thenS_def)
  have rejected: ?thesis if nv: "never (update_body d i g) t" and none: "\<And>tm. spec_op (domain_groups_seq t + 1) (routing_rules_seq t + 1) tm (OpUpdate i grp) (view t) = None"
  proof -
    obtain e n' where "in_tx d (update_body d i g) (t, n) = (Inl e, (t, n'))" using never_tx nv by blast
    then show ?thesis using t none by (simp add: run bindS_def outcome_rejected)
  qed
  show ?thesis
  proof (cases "view t i")
    case None
    then have "filter (\<lambda>r. gr_id r = i) (domain_groups t) = []" by (auto simp: view_None_iff filter_empty_conv)
    then have "never (update_body d i g) t"
      unfolding update_body_def query_def by (intro never_call) (auto simp: update_group_def never_raise)
    then show ?thesis using None by (intro rejected) (simp_all add: spec_op_def)
  next
    case (Some old)
    show ?thesis
    proof (cases "name_free (view t) i (group_Name g)")
      case True
      have "triple d (\<lambda>s. s = t) (update_body d i g) (\<lambda>_ s. store_Get d i = store_Get d i \<and> db_ok s \<and> (\<exists>tm \<in> range (now d).
          spec_op (domain_groups_seq t + 1) (routing_rules_seq t + 1) tm (OpUpdate i grp) (view t) = Some (view s, view s i)) \<and> view s i \<noteq> None)"
        using True g Some by (intro triple_post [OF update_body_writes [OF d NormalizeAndValidate_normal [OF g(1)] t Some True]])
          (auto simp: spec_op_def Let_def)
      then show ?thesis unfolding run using g(2) t by (rule commit_then_read)
    next
      case False
      moreover have "\<exists>x \<in> set (domain_groups t). gr_id x = i" using Some view_None_iff [of t i] by force
      ultimately have "update_group i (group_Name g) (EgressVPN g) tm t = Inl (UniqueFailed ''domain_groups.name'')" for tm
        using t by (auto simp: name_free_iff update_group_def Let_def list_ex_iff filter_empty_conv)
      then have "never (update_body d i g) t" unfolding update_body_def by (intro never_call) simp
      then show ?thesis using False Some g by (intro rejected) (simp_all add: spec_op_def)
    qed
  qed
qed


lemma Delete_outcome:
  assumes t: "db_ok t"
  shows "\<exists>r t' n'. run_op d (OpDelete i) (t, n) = (r, (t', n')) \<and> outcome d (OpDelete i) t r t'"
proof (cases "i \<le> 0")
  case True
  moreover have "view t i = None" using t True by (force simp: view_None_iff db_ok_def)
  ultimately show ?thesis using t
    by (simp add: run_op_def store_Delete_def bindS_def raise_def outcome_rejected spec_op_def)
next
  case False
  let ?t1 = "drop_groups (\<lambda>r. gr_id r = i) t"
  let ?hits = "length (filter (\<lambda>r. gr_id r = i) (domain_groups t))"
  have hits: "?hits = 0 \<longleftrightarrow> view t i = None" by (auto simp: view_None_iff filter_empty_conv)
  have ok1: "db_ok ?t1" using t by (rule drop_groups_view)
  have view1: "view ?t1 = (view t)(i := None)"
    unfolding drop_groups_view(1) [OF t] by (auto simp: view_None_iff fun_eq_iff)
  show ?thesis
  proof (cases "fault d n")
    case (Some e)
    then show ?thesis using False t
      by (auto simp: run_op_def store_Delete_def bindS_def call_def outcome_def faulty_def)
  next
    case None
    note first = this
    have step: "run_op d (OpDelete i) (t, n) =
        (case fault d (Suc n) of Some e \<Rightarrow> (Inl (DriverErr e), (?t1, Suc (Suc n)))
         | None \<Rightarrow> ((if ?hits = 0 then Inl GroupNotFound else Inr None), (?t1, Suc (Suc n))))"
      using False first by (simp add: run_op_def store_Delete_def bindS_def call_def query_def raise_def ret_def split: option.split)
    have unchanged: "view ?t1 = view t" if "view t i = None" using that unfolding view1 by auto
    show ?thesis
    proof (cases "fault d (Suc n)")
      case (Some e)
      then have "faulty d" by (auto simp: faulty_def)
      then show ?thesis unfolding step using Some ok1 view1 unchanged
        by (cases "view t i") (simp_all add: outcome_def spec_op_def)
    next
      case None
      then show ?thesis unfolding step using ok1 view1 unchanged hits
        by (cases "view t i") (simp_all add: outcome_def spec_op_def)
    qed
  qed
qed

section \<open>Replacing everything\<close>

definition groups_list :: "tables \<Rightarrow> domain_group list" where
  "groups_list t = map (read_group t) (domain_groups t)"

text \<open>A group up to what the store assigns: ids, times, and carriage returns in the stored lines.\<close>

definition plain :: "domain_group \<Rightarrow> domain_group" where
  "plain g = g\<lparr>group_ID := 0, CreatedAt := 0, UpdatedAt := 0, Rules := map (stored_rule 0) (Rules g)\<rparr>"

lemma stored_rule_again [simp]: "stored_rule i (stored_rule k r) = stored_rule i r"
proof -
  have "normalizeRawLines (normalizeRawLines ls) = normalizeRawLines ls" for ls by (simp add: normalizeRawLines_def)
  then show ?thesis by (simp add: stored_rule_def map_raw_def)
qed

lemma plain_stored [simp]: "plain (stored_group i c u k g) = plain g"
proof -
  have "map (stored_rule 0) (stored_rules k (Rules g)) = map (stored_rule 0) (Rules g)"
    by (rule nth_equalityI) (auto simp: stored_rules_def nth_enumerate_eq)
  then show ?thesis by (simp add: plain_def stored_group_def)
qed

lemma view_row: "db_ok t \<Longrightarrow> r \<in> set (domain_groups t) \<Longrightarrow> view t (gr_id r) = Some (read_group t r)"
proof -
  assume t: "db_ok t" and r: "r \<in> set (domain_groups t)"
  obtain r' where r': "find (\<lambda>x. gr_id x = gr_id r) (domain_groups t) = Some r'"
    using r by (cases "find (\<lambda>x. gr_id x = gr_id r) (domain_groups t)") (auto simp: find_None_iff)
  then have "r' = r" using t r by (auto simp: db_ok_def distinct_map dest!: find_SomeD dest: inj_onD)
  then show ?thesis using r' by (simp add: view_def)
qed

definition filled :: "domain_group list \<Rightarrow> tables \<Rightarrow> bool" where
  "filled gs t \<longleftrightarrow> db_ok t \<and> map plain (groups_list t) = map plain gs \<and> map gr_name (domain_groups t) = map group_Name gs \<and>
     resolver_cache t = [] \<and> prewarm_cache t = []"

lemma filled_snoc:
  assumes t0: "filled ys t0" and t: "db_ok t" "view t = (view t0)(i \<mapsto> stored_group i tm tm k g)"
    "domain_groups t = domain_groups t0 @ [row]" "gr_id row = i" "gr_name row = group_Name g"
    "resolver_cache t = resolver_cache t0" "prewarm_cache t = prewarm_cache t0"
  shows "filled (ys @ [g]) t"
proof -
  have "i \<notin> gr_id ` set (domain_groups t0)" using t(1,3,4) by (auto simp: db_ok_def)
  then have "read_group t r = read_group t0 r" if "r \<in> set (domain_groups t0)" for r
  proof -
    have "gr_id r \<noteq> i" using \<open>i \<notin> _\<close> that by auto
    then show ?thesis using view_row [of t r] view_row [of t0 r] t t0 that by (simp add: filled_def)
  qed
  moreover have "read_group t row = stored_group i tm tm k g"
    using view_row [of t row] t by simp
  ultimately have "groups_list t = groups_list t0 @ [stored_group i tm tm k g]"
    using t(3) by (simp add: groups_list_def)
  then show ?thesis using t0 t by (simp add: filled_def)
qed

lemma write_groups_fill:
  assumes d: "driver_ok d" and gs: "\<And>g. g \<in> set gs \<Longrightarrow> normal_group g" and dist: "distinct (map group_Name gs)"
  shows "triple d (filled []) (each (\<lambda>grp. bindS (write_group d grp) (\<lambda>_. ret ())) gs) (\<lambda>_. filled gs)"
proof (rule triple_each [where I = filled])
  fix ys g zs assume split: "gs = ys @ g # zs"
  have g: "normal_group g" using gs split by simp
  show "triple d (filled ys) (bindS (write_group d g) (\<lambda>_. ret ())) (\<lambda>_. filled (ys @ [g]))"
  proof (rule tripleI)
    fix t n assume t: "filled ys t"
    have free: "group_Name g \<notin> gr_name ` set (domain_groups t)"
    proof -
      have "set (map gr_name (domain_groups t)) = set (map group_Name ys)" using t unfolding filled_def by argo
      then show ?thesis using dist split by auto
    qed
    have "triple d (\<lambda>s. s = t) (bindS (write_group d g) (\<lambda>_. ret ())) (\<lambda>_. filled (ys @ [g]))"
      using t by (intro triple_bind [OF write_group_writes [OF d g _ free]] triple_ret)
        (auto simp: filled_def [of ys t] intro: filled_snoc [OF t])
    then show "ends d (\<lambda>_. filled (ys @ [g])) (bindS (write_group d g) (\<lambda>_. ret ()) (t, n))" by (simp add: triple_def)
  qed
qed


lemma upsert_row_keys: "fst ` set (upsert_row k tm rows) = insert k (fst ` set rows)"
  by (force simp: upsert_row_def)

lemma upsertResolver_fills:
  assumes I: "\<And>t rows. P t \<Longrightarrow> P (t\<lparr>resolver_cache := rows\<rparr>)"
  shows "triple d P (upsertResolverSnapshotTx d snapshot) (\<lambda>_. P)"
proof -
  have "triple d ((\<lambda>_. P) ys) (each (\<lambda>cidr. exec d (upsert_resolver sel fam cidr)) xs) (\<lambda>_. P)" for sel fam xs ys
    by (rule triple_each [where I = "\<lambda>_. P"], rule triple_exec) (simp add: upsert_resolver_def I)
  then have loop: "triple d P (each (\<lambda>cidr. exec d (upsert_resolver sel fam cidr)) xs) (\<lambda>_. P)" for sel fam xs by simp
  show ?thesis unfolding upsertResolverSnapshotTx_def
    by (intro triple_each [where I = "\<lambda>_. P"], clarsimp split: prod.split) (rule triple_then [OF loop loop])
qed

definition restored :: "domain_group list \<Rightarrow> tables \<Rightarrow> bool" where
  "restored gs t \<longleftrightarrow> db_ok t \<and> map plain (groups_list t) = map plain gs \<and> map gr_name (domain_groups t) = map group_Name gs \<and>
     prewarm_cache t = []"

lemma read_rule_cache: "read_rule (t\<lparr>resolver_cache := rows\<rparr>) = read_rule t" "read_rule (t\<lparr>prewarm_cache := rows'\<rparr>) = read_rule t"
  by (simp_all add: read_rule_def fun_eq_iff)

lemma reading_cache [simp]:
  "db_ok (t\<lparr>resolver_cache := rows\<rparr>) = db_ok t" "read_group (t\<lparr>resolver_cache := rows\<rparr>) = read_group t"
  "db_ok (t\<lparr>prewarm_cache := rows'\<rparr>) = db_ok t" "read_group (t\<lparr>prewarm_cache := rows'\<rparr>) = read_group t"
  by (auto simp: db_ok_def rules_ok_def child_ids_def fun_eq_iff read_group_def rules_in_def read_rule_cache legacy_in_def)

lemma ReplaceAll_restores:
  assumes d: "driver_ok d" and t: "db_ok t" and gs: "traverse NormalizeAndValidate groups = Inr gs" and dist: "distinct (map group_Name gs)"
  shows "triple d (\<lambda>s. s = t) (store_ReplaceAll d groups snapshot) (\<lambda>_. restored (sort_key group_Name gs))"
proof -
  let ?gs = "sort_key group_Name gs"
  let ?t1 = "drop_groups (\<lambda>_. True) t"
  have "domain_groups ?t1 = []" by (simp add: drop_groups_def Let_def)
  moreover have "db_ok ?t1" using t by (rule drop_groups_view)
  ultimately have start: "filled [] (?t1\<lparr>resolver_cache := [], prewarm_cache := []\<rparr>)"
    by (simp add: filled_def groups_list_def)
  have normal: "normal_group g" if "g \<in> set ?gs" for g
    using that traverse_Inr_set [OF gs] by (auto intro: NormalizeAndValidate_normal)
  have "distinct (map group_Name ?gs)"
    using dist by (metis distinct_map distinct_sort set_sort)
  note loop = write_groups_fill [OF d normal this]
  have "triple d (filled ?gs) (upsertResolverSnapshotTx d snapshot) (\<lambda>_. restored ?gs)"
    by (rule triple_conseq [OF upsertResolver_fills [where P = "restored ?gs"]])
      (auto simp: restored_def filled_def groups_list_def)
  then show ?thesis unfolding store_ReplaceAll_def gs sum.case
    by (intro triple_tx triple_then [OF triple_exec [where Q = "\<lambda>s. s = ?t1"]]
      triple_then [OF triple_exec [where Q = "\<lambda>s. s = ?t1\<lparr>resolver_cache := []\<rparr>"]]
      triple_then [OF triple_exec [where Q = "filled []"]] triple_then [OF loop]) (use start in auto)
qed

lemma List_reads:
  assumes "restored gs t0" "sorted (map group_Name gs)"
  shows "triple d (\<lambda>t. t = t0) (store_List d) (\<lambda>x t. t = t0 \<and> map plain x = map plain gs)"
proof -
  have names: "map gr_name (domain_groups t0) = map group_Name gs" "map plain (groups_list t0) = map plain gs"
    using assms(1) by (simp_all add: restored_def)
  then have "sort_key gr_name (domain_groups t0) = domain_groups t0"
    using assms(2) by (simp add: sort_key_id_if_sorted)
  moreover have "sort_key group_Name (groups_list t0) = groups_list t0"
  proof -
    have "map group_Name (groups_list t0) = map gr_name (domain_groups t0)"
      by (simp add: groups_list_def read_group_def group_of_def)
    then show ?thesis using names(1) assms(2) by (simp add: sort_key_id_if_sorted)
  qed
  moreover have "(\<lambda>r. group_of r (if rules_in t0 (gr_id r) = [] then legacy_rules (legacy_in t0 (gr_id r)) else rules_in t0 (gr_id r)))
      = read_group t0" by (auto simp: read_group_def fun_eq_iff)
  moreover have "domain_groups t0 = [] \<longleftrightarrow> gs = []" using arg_cong [OF names(1), of length] by auto
  moreover have "triple d (\<lambda>t. t = t0) (listLegacyDomainsForGroups d) (\<lambda>a t. t = t0 \<and> a = legacy_in t0)"
    unfolding listLegacyDomainsForGroups_def by (rule triple_query) (simp add: legacy_in_def fun_eq_iff)
  ultimately show ?thesis using names(2) unfolding store_List_def
    by (intro reads_bind [OF triple_reads])
      (auto intro!: triple_ret reads_bind [OF listRulesForGroups_reads] reads_bind [of d t0 "listLegacyDomainsForGroups d"]
        simp: groups_list_def [symmetric] names(2))
qed


section \<open>Properties\<close>

definition sample_driver :: "nat option \<Rightarrow> driver" where
  "sample_driver bad = \<lparr>fault = (\<lambda>n. if bad = Some n then Some ''disk I/O error'' else None), now = (\<lambda>n. 1000 + int n),
     lines_order = (\<lambda>_. map fst (linesBySelector empty_raw))\<rparr>"

lemma sample_driver_ok: "driver_ok (sample_driver bad)"
  by (simp add: driver_ok_def sample_driver_def linesBySelector_def)

lemma empty_tables_ok: "db_ok empty_tables"
  by (simp add: db_ok_def rules_ok_def child_ids_def empty_tables_def)

text \<open>C3: the store implements a map from group ids to groups. Whatever calls the driver fails, creating,
  updating or deleting a group keeps the keys and references of the tables intact; a successful
  operation changes the map as specified and answers with the stored group, normalised and under its
  new ids; a rejected one changes nothing; and after a failure of the driver the map is the old
  one or the complete new one, never a mixture. Without driver failures an operation is rejected
  exactly when the specification rejects it: an invalid group, a name in use, an unknown id.\<close>

theorem store_refines_map:
  assumes "driver_ok d" "db_ok t" "run_op d op (t, n) = (r, (t', n'))"
  shows "outcome d op t r t'"
  using Create_outcome [OF assms(1,2)] Update_outcome [OF assms(1,2)] Delete_outcome [OF assms(2)] assms(3)
  by (cases op) (metis Pair_inject)+


theorem store_refines_map_witness:
  "\<exists>x t' n'. run_op (sample_driver None) (OpCreate sample_group) (empty_tables, 0) = (Inr (Some x), (t', n')) \<and>
     view t' = [1 \<mapsto> x] \<and> group_ID x = 1 \<and> group_Name x = ''tv''"
proof -
  let ?d = "sample_driver None"
  obtain g' where g': "NormalizeAndValidate sample_group = Inr g'" "group_Name g' = ''tv''"
    using sample_group_normalized by (elim exE conjE)
  obtain r t' n' where run: "run_op ?d (OpCreate sample_group) (empty_tables, 0) = (r, (t', n'))"
    by (metis prod_cases3)
  have empty: "view empty_tables = Map.empty" "domain_groups_seq empty_tables = 0" "routing_rules_seq empty_tables = 0"
    by (simp_all add: view_def empty_tables_def fun_eq_iff)
  have "\<not> faulty ?d" by (simp add: faulty_def sample_driver_def)
  note ends = store_refines_map [OF sample_driver_ok empty_tables_ok run]
  have spec: "spec_op (domain_groups_seq empty_tables + 1) (routing_rules_seq empty_tables + 1) tm (OpCreate sample_group) (view empty_tables) =
      Some ([1 \<mapsto> stored_group 1 tm tm 1 g'], Some (stored_group 1 tm tm 1 g'))" for tm
    by (simp add: spec_op_def g' name_free_def empty Let_def)
  obtain a where r: "r = Inr a"
    using ends \<open>\<not> faulty ?d\<close> by (cases r) (simp_all add: outcome_def spec)
  with ends obtain tm where "[1 \<mapsto> stored_group 1 tm tm 1 g'] = view t'" "Some (stored_group 1 tm tm 1 g') = a"
    by (auto simp: outcome_def spec)
  with run r g'(2) show ?thesis
    by (intro exI [of _ "stored_group 1 tm tm 1 g'"] exI [of _ t'] exI [of _ n']) (auto simp: stored_group_def)
qed

text \<open>C34: restoring a backup replaces all groups at once. If the groups of the backup are valid and have
  distinct names, then without a failing driver the operation succeeds and the list of groups is
  exactly the normalised groups in the order of their names, apart from ids, times and line ends; if
  the driver fails any call, every table is as before.\<close>

theorem ReplaceAll_all_or_nothing:
  assumes "driver_ok d" "db_ok t" "traverse NormalizeAndValidate groups = Inr gs" "distinct (map group_Name gs)"
    and "store_ReplaceAll d groups snapshot (t, n) = (r, (t', n'))"
  shows "(case r of Inl e \<Rightarrow> faulty d \<and> t' = t | Inr _ \<Rightarrow> db_ok t' \<and>
      (\<forall>x s. store_List d (t', n') = (Inr x, s) \<longrightarrow> map plain x = map plain (sort_key group_Name gs))) \<and>
    (\<not> faulty d \<longrightarrow> r = Inr () \<and> (\<exists>x s. store_List d (t', n') = (Inr x, s)))"
proof (cases rule: triple_at [OF ReplaceAll_restores [OF assms(1-4), of snapshot], where n = n, case_names ok failed])
  case (ok a t1 n1)
  have reads: "triple d (\<lambda>s. s = t1) (store_List d) (\<lambda>x s. s = t1 \<and> map plain x = map plain (sort_key group_Name gs))"
    using ok(2) by (intro List_reads) simp_all
  show ?thesis using assms(5) ok
    by (cases rule: triple_at [OF reads, where n = n1, case_names ok failed]) (auto simp: restored_def)
next
  case (failed x s')
  then have "fst s' = t"
    using assms(3) by (cases s') (auto simp: store_ReplaceAll_def dest: in_tx_rollback)
  then show ?thesis using failed assms(5) by auto
qed

theorem ReplaceAll_all_or_nothing_witness:
  "\<exists>x s r t' n'. store_ReplaceAll (sample_driver None) [sample_group] [] (empty_tables, 0) = (r, (t', n')) \<and>
     store_List (sample_driver None) (t', n') = (Inr x, s) \<and> map group_Name x = [''tv''] \<and>
     (\<exists>g'. NormalizeAndValidate sample_group = Inr g' \<and> map plain x = [plain g'])"
proof -
  obtain g' where g': "NormalizeAndValidate sample_group = Inr g'" "group_Name g' = ''tv''"
    using sample_group_normalized by (elim exE conjE)
  obtain r t' n' where run: "store_ReplaceAll (sample_driver None) [sample_group] [] (empty_tables, 0) = (r, (t', n'))"
    by (metis prod_cases3)
  have "\<not> faulty (sample_driver None)" by (simp add: faulty_def sample_driver_def)
  with ReplaceAll_all_or_nothing [OF sample_driver_ok empty_tables_ok _ _ run, of "[g']"] g'
  obtain x s where x: "store_List (sample_driver None) (t', n') = (Inr x, s)" "map plain x = [plain g']"
    by auto
  have "map group_Name x = map group_Name (map plain x)" by (simp add: plain_def)
  then have "map group_Name x = [''tv'']" using x(2) g'(2) by (simp add: plain_def)
  then show ?thesis using run x g'(1) by (intro exI conjI) assumption+
qed

end
