(* ===== verification/Store_Cache.thy ===== *)
theory Store_Cache
  imports Store_Refine
begin

text \<open>
  The two address caches of the store: resolved selectors and pre-warmed sets. Both are tables of
  keys with the time of their last refresh; a key is refreshed by an upsert, removed by the purge
  after 24 hours, and hidden from readers from then on. The locale states what such a table needs,
  and is interpreted on the two tables of the program.
\<close>


section \<open>A table of keys with times\<close>

definition stamped :: "driver \<Rightarrow> 'k set \<Rightarrow> ('k \<times> int) list \<Rightarrow> ('k \<times> int) list \<Rightarrow> bool" where
  "stamped d K old rows \<longleftrightarrow> distinct (map fst rows) \<and>
     (\<forall>k \<in> K. \<exists>tm \<in> range (now d). map_of rows k = Some tm) \<and> (\<forall>k. k \<notin> K \<longrightarrow> map_of rows k = map_of old k)"

lemma map_of_stamp:
  "map_of (map (\<lambda>(k', u). (k', if k' = k then tm else u)) rows) =
     (if k \<in> fst ` set rows then (map_of rows)(k \<mapsto> tm) else map_of rows)"
  by (induction rows) (auto simp: fun_eq_iff)

lemma upsert_row_map: "map_of (upsert_row k tm rows) = (map_of rows)(k \<mapsto> tm)"
proof (cases "k \<in> fst ` set rows")
  case False
  then have "map_of rows k = None" by (simp add: map_of_eq_None_iff)
  then show ?thesis using False by (auto simp: upsert_row_def fun_eq_iff map_add_def split: option.split)
qed (simp add: upsert_row_def map_of_stamp)

lemma upsert_row_distinct: "distinct (map fst rows) \<Longrightarrow> distinct (map fst (upsert_row k tm rows))"
proof -
  assume "distinct (map fst rows)"
  moreover have "map fst (map (\<lambda>(k', u). (k', if k' = k then tm else u)) rows) = map fst rows" by auto
  ultimately show ?thesis by (cases "k \<in> fst ` set rows") (simp_all only: upsert_row_def if_True if_False, simp_all)
qed

lemma stamped_step:
  "stamped d K old rows \<Longrightarrow> tm \<in> range (now d) \<Longrightarrow> stamped d (insert k K) old (upsert_row k tm rows)"
  by (auto simp: stamped_def upsert_row_map upsert_row_distinct)

locale cache_table =
  fixes get :: "tables \<Rightarrow> ('k \<times> int) list" and put :: "('k \<times> int) list \<Rightarrow> tables \<Rightarrow> tables"
  assumes get_put: "get (put rows t) = rows" and put_put: "put rows (put rows' t) = put rows t"
    and put_get: "put (get t) t = t"
begin

lemma upserts:
  assumes "distinct (map fst (get t0))"
  shows "triple d (\<lambda>t. t = t0) (each (\<lambda>k. exec d (\<lambda>tm t. put (upsert_row k tm (get t)) t)) ks)
    (\<lambda>_ t. \<exists>rows. t = put rows t0 \<and> stamped d (set ks) (get t0) rows)"
proof -
  let ?I = "\<lambda>ks t. \<exists>rows. t = put rows t0 \<and> stamped d (set ks) (get t0) rows"
  let ?m = "each (\<lambda>k. exec d (\<lambda>tm t. put (upsert_row k tm (get t)) t)) ks"
  have "triple d (?I []) ?m (\<lambda>_. ?I ks)"
  proof (rule triple_each [where I = ?I], rule triple_exec)
    fix ys k zs tm t assume "?I ys t" and tm: "tm \<in> range (now d)"
    then obtain rows where rows: "t = put rows t0" "stamped d (set ys) (get t0) rows" by blast
    then have "put (upsert_row k tm (get t)) t = put (upsert_row k tm rows) t0" by (simp add: get_put put_put)
    moreover have "stamped d (set (ys @ [k])) (get t0) (upsert_row k tm rows)"
      using stamped_step [OF rows(2) tm] by simp
    ultimately show "?I (ys @ [k]) (put (upsert_row k tm (get t)) t)" by blast
  qed
  then show ?thesis
    by (rule triple_pre) (auto simp: stamped_def assms put_get intro!: exI [of _ "get t0"])
qed

lemma upsert_and_purge:
  assumes "distinct (map fst (get t0))"
  shows "triple d (\<lambda>t. t = t0)
    (in_tx d (thenS (each (\<lambda>k. exec d (\<lambda>tm t. put (upsert_row k tm (get t)) t)) ks) (exec d (\<lambda>tm t. put (unexpired tm (get t)) t))))
    (\<lambda>_ t. \<exists>rows. \<exists>tm \<in> range (now d). t = put (unexpired tm rows) t0 \<and> stamped d (set ks) (get t0) rows)"
proof -
  have "triple d (\<lambda>t. \<exists>rows. t = put rows t0 \<and> stamped d (set ks) (get t0) rows) (exec d (\<lambda>tm t. put (unexpired tm (get t)) t))
      (\<lambda>_ t. \<exists>rows. \<exists>tm \<in> range (now d). t = put (unexpired tm rows) t0 \<and> stamped d (set ks) (get t0) rows)"
  proof (rule triple_exec, elim exE conjE)
    fix tm t rows assume "tm \<in> range (now d)" "t = put rows t0" "stamped d (set ks) (get t0) rows"
    then show "\<exists>rows. \<exists>tm' \<in> range (now d). put (unexpired tm (get t)) t = put (unexpired tm' rows) t0 \<and>
        stamped d (set ks) (get t0) rows"
      by (intro exI [of _ rows] bexI [of _ tm]) (simp_all add: get_put put_put)
  qed
  with upserts [OF assms] show ?thesis by (intro triple_tx triple_then)
qed

end

interpretation resolver_table: cache_table resolver_cache "\<lambda>rows t. t\<lparr>resolver_cache := rows\<rparr>"
  by unfold_locales simp_all

interpretation prewarm_table: cache_table prewarm_cache "\<lambda>rows t. t\<lparr>prewarm_cache := rows\<rparr>"
  by unfold_locales simp_all


section \<open>Filing rows under their keys\<close>

definition rows_for :: "'k \<Rightarrow> ('k \<times> string \<times> string) list \<Rightarrow> bool \<Rightarrow> string list" where
  "rows_for k rows six = map (\<lambda>(_, _, c). c) (filter (\<lambda>(k', f, _). k' = k \<and> (f = ''inet6'') = six) rows)"

lemma file_rows_get:
  "snapshot_get (file_rows acc rows) k =
     \<lparr>V4 = V4 (snapshot_get acc k) @ rows_for k rows False, V6 = V6 (snapshot_get acc k) @ rows_for k rows True\<rparr>"
proof (induction acc rows rule: file_rows.induct)
  case (1 acc)
  then show ?case by (simp add: rows_for_def)
next
  case (2 acc k' family cidr rows)
  have "snapshot_get (AList.update k' v acc) k = (if k = k' then v else snapshot_get acc k)" for v
    by (simp add: snapshot_get_def update_conv' split: option.split)
  then show ?case using 2 by (simp add: rows_for_def add_family_def)
qed

definition snapshot_keys :: "('k \<times> resolver_values) list \<Rightarrow> ('k \<times> string \<times> string) list" where
  "snapshot_keys snapshot = concat (map (\<lambda>(sel, vals).
     map (\<lambda>c. (sel, ''inet'', c)) (V4 vals) @ map (\<lambda>c. (sel, ''inet6'', c)) (V6 vals)) snapshot)"

lemma each_concat: "each f (concat (map g xs)) = each (\<lambda>x. each f (g x)) xs"
  by (induction xs) (simp_all add: each_append)

lemma upsertResolverSnapshotTx_keys:
  "upsertResolverSnapshotTx d snapshot =
     each (\<lambda>k. exec d (\<lambda>tm t. t\<lparr>resolver_cache := upsert_row k tm (resolver_cache t)\<rparr>)) (snapshot_keys snapshot)"
  unfolding upsertResolverSnapshotTx_def snapshot_keys_def each_concat upsert_resolver_def
  by (simp add: each_append each_map case_prod_unfold)

lemma upsertPrewarmSnapshotTx_keys:
  "upsertPrewarmSnapshotTx d snapshot =
     each (\<lambda>k. exec d (\<lambda>tm t. t\<lparr>prewarm_cache := upsert_row k tm (prewarm_cache t)\<rparr>)) (snapshot_keys snapshot)"
  unfolding upsertPrewarmSnapshotTx_def snapshot_keys_def each_concat upsert_prewarm_def
  by (simp add: each_append each_map case_prod_unfold)

lemma rows_for_set:
  fixes k :: 'a
  shows "set (rows_for k (sort_key h (map fst (filter p rows))) six) = {c. \<exists>f u. ((k, f, c), u) \<in> set rows \<and> p ((k, f, c), u) \<and> (f = ''inet6'') = six}"
proof -
  have "set (rows_for k rows' six) = {c. \<exists>f. (k, f, c) \<in> set rows' \<and> (f = ''inet6'') = six}" for rows' :: "('a \<times> string \<times> string) list"
    by (auto simp: rows_for_def image_iff)
  moreover have "(k, f, c) \<in> set (sort_key h (map fst (filter p rows))) \<longleftrightarrow> (\<exists>u. ((k, f, c), u) \<in> set rows \<and> p ((k, f, c), u))" for f c
    by (auto simp: image_iff)
  ultimately show ?thesis by auto
qed

lemma snapshot_key_iff:
  "(k, f, c) \<in> set (snapshot_keys snapshot) \<longleftrightarrow>
     (\<exists>vals. (k, vals) \<in> set snapshot \<and> (f = ''inet'' \<and> c \<in> set (V4 vals) \<or> f = ''inet6'' \<and> c \<in> set (V6 vals)))"
proof -
  have "(k, f, c) \<in> set (concat (map (\<lambda>(sel, vals). map (\<lambda>c. (sel, a, c)) (V4 vals) @ map (\<lambda>c. (sel, b, c)) (V6 vals)) snapshot)) \<longleftrightarrow>
      (\<exists>vals. (k, vals) \<in> set snapshot \<and> (f = a \<and> c \<in> set (V4 vals) \<or> f = b \<and> c \<in> set (V6 vals)))" for a b :: string
    by (induction snapshot) auto
  then show ?thesis unfolding snapshot_keys_def .
qed


section \<open>Retention\<close>

definition cache_ok :: "(('k \<times> string \<times> string) \<times> int) list \<Rightarrow> bool" where
  "cache_ok rows \<longleftrightarrow> distinct (map fst rows) \<and> (\<forall>k f c u. ((k, f, c), u) \<in> set rows \<longrightarrow> f = ''inet'' \<or> f = ''inet6'')"

text \<open>The keys a reader sees at a time, after an upsert and a purge during the day that starts at \<open>T\<close>.\<close>

definition visible :: "int \<Rightarrow> ('k \<times> int) list \<Rightarrow> 'k set" where
  "visible tm rows = {k. \<exists>u. (k, u) \<in> set rows \<and> u \<ge> tm - discoveryCacheRetentionSeconds}"

lemma visible_map: "distinct (map fst rows) \<Longrightarrow> visible tm rows = {k. \<exists>u. map_of rows k = Some u \<and> u \<ge> tm - discoveryCacheRetentionSeconds}"
  by (auto simp: visible_def)

lemma stamped_visible:
  assumes st: "stamped d K old rows" and old: "distinct (map fst old)" and day: "\<And>k. T \<le> now d k \<and> now d k \<le> T + discoveryCacheRetentionSeconds"
    and tm: "tm \<in> range (now d)" "tm' \<in> range (now d)"
  shows "K \<subseteq> visible tm' (unexpired tm rows)" "visible tm' (unexpired tm rows) \<subseteq> K \<union> visible tm' old"
proof -
  have dist: "distinct (map fst rows)" using st by (simp add: stamped_def)
  obtain a b where "tm = now d a" "tm' = now d b" using tm by auto
  then have T: "tm - discoveryCacheRetentionSeconds \<le> T" "tm' - discoveryCacheRetentionSeconds \<le> T"
    using day [of a] day [of b] by simp_all
  have vis: "visible tm' (unexpired tm rows) =
      {k. \<exists>u. map_of rows k = Some u \<and> u \<ge> tm - discoveryCacheRetentionSeconds \<and> u \<ge> tm' - discoveryCacheRetentionSeconds}"
    using dist by (auto simp: visible_def unexpired_def)
  show "K \<subseteq> visible tm' (unexpired tm rows)"
  proof
    fix k assume "k \<in> K"
    then obtain n where "map_of rows k = Some (now d n)" using st by (auto simp: stamped_def)
    then show "k \<in> visible tm' (unexpired tm rows)" unfolding vis using T day [of n] by auto
  qed
  show "visible tm' (unexpired tm rows) \<subseteq> K \<union> visible tm' old"
  proof
    fix k assume "k \<in> visible tm' (unexpired tm rows)"
    then obtain u where u: "map_of rows k = Some u" "u \<ge> tm' - discoveryCacheRetentionSeconds" unfolding vis by auto
    then show "k \<in> K \<union> visible tm' old"
      using st unfolding visible_map [OF old] by (cases "k \<in> K") (auto simp: stamped_def)
  qed
qed

lemma load_visible:
  assumes "LoadResolverSnapshot d (t, n) = (Inr snap, s)"
  shows "set (V4 (snapshot_get snap sel)) = {c. \<exists>f. (sel, f, c) \<in> visible (now d n) (resolver_cache t) \<and> f \<noteq> ''inet6''}"
    "set (V6 (snapshot_get snap sel)) = {c. (sel, ''inet6'', c) \<in> visible (now d n) (resolver_cache t)}"
proof -
  have "snapshot_get ([] :: resolver_snapshot) sel = zero_values" by (simp add: snapshot_get_def)
  then have "V4 (snapshot_get (file_rows [] rows) sel) = rows_for sel rows False"
    "V6 (snapshot_get (file_rows [] rows) sel) = rows_for sel rows True" for rows
    by (simp_all add: file_rows_get zero_values_def)
  moreover have "snap = file_rows [] (sort_key (\<lambda>((ty, key), family, cidr). [ty, key, family, cidr])
       (map fst (filter (\<lambda>row. snd row \<ge> now d n - discoveryCacheRetentionSeconds) (resolver_cache t))))"
    using assms by (simp add: LoadResolverSnapshot_def query_def call_def split: option.splits)
  ultimately show "set (V4 (snapshot_get snap sel)) = {c. \<exists>f. (sel, f, c) \<in> visible (now d n) (resolver_cache t) \<and> f \<noteq> ''inet6''}"
    "set (V6 (snapshot_get snap sel)) = {c. (sel, ''inet6'', c) \<in> visible (now d n) (resolver_cache t)}"
    by (simp_all add: rows_for_set visible_def) blast
qed

lemma upsert_then_load:
  assumes "cache_ok (resolver_cache t)"
    and day: "\<And>k. T \<le> now d k \<and> now d k \<le> T + 24 * 60 * 60"
    and up: "store_UpsertResolverSnapshot d snapshot (t, n) = (Inr (), (t1, n1))"
  shows "(sel, f, c) \<in> set (snapshot_keys snapshot) \<Longrightarrow> (sel, f, c) \<in> visible (now d n2) (resolver_cache t1)"
    and "(sel, f, c) \<in> visible (now d n2) (resolver_cache t1) \<Longrightarrow>
      (sel, f, c) \<in> set (snapshot_keys snapshot) \<or> (sel, f, c) \<in> visible (now d n2) (resolver_cache t)"
proof -
  let ?K = "set (snapshot_keys snapshot)"
  have old: "distinct (map fst (resolver_cache t))" using assms(1) by (simp add: cache_ok_def)
  have day': "\<And>k. T \<le> now d k \<and> now d k \<le> T + discoveryCacheRetentionSeconds"
    using day by (simp add: discoveryCacheRetentionSeconds_def)
  obtain rows tm where rows: "resolver_cache t1 = unexpired tm rows" "tm \<in> range (now d)" "stamped d ?K (resolver_cache t) rows"
    using up unfolding store_UpsertResolverSnapshot_def upsertResolverSnapshotTx_keys purgeExpiredResolverCacheTx_def
    by (cases rule: triple_at [OF resolver_table.upsert_and_purge [OF old, where d = d and ks = "snapshot_keys snapshot"],
      where n = n, case_names ok failed]) auto
  note vis = stamped_visible [OF rows(3) old day' rows(2), of "now d n2", folded rows(1)]
  from vis show "(sel, f, c) \<in> ?K \<Longrightarrow> (sel, f, c) \<in> visible (now d n2) (resolver_cache t1)"
    and "(sel, f, c) \<in> visible (now d n2) (resolver_cache t1) \<Longrightarrow> (sel, f, c) \<in> ?K \<or> (sel, f, c) \<in> visible (now d n2) (resolver_cache t)"
    by auto
qed

text \<open>C35: what the resolver found today is what the routing manager is given. After a successful upsert of a
  snapshot, a read within 24 hours returns every address of the snapshot under its selector and
  family; beyond these it returns only addresses found earlier whose last refresh is not older than
  24 hours.\<close>

theorem cache_retention:
  assumes "cache_ok (resolver_cache t)"
    and day: "\<And>k. T \<le> now d k \<and> now d k \<le> T + 24 * 60 * 60"
    and up: "store_UpsertResolverSnapshot d snapshot (t, n) = (Inr (), (t1, n1))"
    and load: "LoadResolverSnapshot d (t1, n2) = (Inr snap, s)"
  shows "(\<forall>vals. (sel, vals) \<in> set snapshot \<longrightarrow>
      set (V4 vals) \<subseteq> set (V4 (snapshot_get snap sel)) \<and> set (V6 vals) \<subseteq> set (V6 (snapshot_get snap sel))) \<and>
    (\<forall>c \<in> set (V4 (snapshot_get snap sel)) \<union> set (V6 (snapshot_get snap sel)).
      (\<exists>vals. (sel, vals) \<in> set snapshot \<and> c \<in> set (both_families vals)) \<or>
      (\<exists>f u. ((sel, f, c), u) \<in> set (resolver_cache t) \<and> u \<ge> now d n2 - 24 * 60 * 60))"
proof -
  note loaded = upsert_then_load [OF assms(1-3), where sel = sel and ?n2.0 = n2]
  show ?thesis unfolding load_visible [OF load]
    using loaded by (fastforce simp: snapshot_key_iff both_families_def visible_def discoveryCacheRetentionSeconds_def)
qed

definition noon_driver :: driver where
  "noon_driver = (sample_driver None)\<lparr>now := (\<lambda>_. 43200)\<rparr>"

definition sample_snapshot :: resolver_snapshot where
  "sample_snapshot = [((''asn'', ''AS1''), \<lparr>V4 = [''1.0.0.0/8''], V6 = []\<rparr>)]"

theorem cache_retention_witness:
  "\<exists>t1 n1 snap s. store_UpsertResolverSnapshot noon_driver sample_snapshot (empty_tables, 0) = (Inr (), (t1, n1)) \<and>
     LoadResolverSnapshot noon_driver (t1, n1) = (Inr snap, s) \<and> ''1.0.0.0/8'' \<in> set (V4 (snapshot_get snap (''asn'', ''AS1'')))"
proof -
  have "case store_UpsertResolverSnapshot noon_driver sample_snapshot (empty_tables, 0) of
      (Inr _, (t1, n1)) \<Rightarrow> (case LoadResolverSnapshot noon_driver (t1, n1) of (Inr _, _) \<Rightarrow> True | _ \<Rightarrow> False) | _ \<Rightarrow> False"
    by code_simp
  then obtain t1 n1 snap s where run: "store_UpsertResolverSnapshot noon_driver sample_snapshot (empty_tables, 0) = (Inr (), (t1, n1))"
    "LoadResolverSnapshot noon_driver (t1, n1) = (Inr snap, s)"
    by (auto split: prod.splits sum.splits)
  have "cache_ok (resolver_cache empty_tables)" by (simp add: cache_ok_def empty_tables_def)
  moreover have "0 \<le> now noon_driver k \<and> now noon_driver k \<le> 0 + 24 * 60 * 60" for k by (simp add: noon_driver_def)
  ultimately have "''1.0.0.0/8'' \<in> set (V4 (snapshot_get snap (''asn'', ''AS1'')))"
    using cache_retention [OF _ _ run, of 0 "(''asn'', ''AS1'')"] by (simp add: sample_snapshot_def)
  with run show ?thesis by (intro exI conjI)
qed

end
