(* ===== verification/Resolver.thy ===== *)
theory Resolver
  imports Prewarm_Config Store_Cache Set_Names Addr_Text
begin

text \<open>
  The resolver of selectors (\<^verbatim>\<open>internal/routing/resolver.go\<close>, \<^verbatim>\<open>resolver_helpers.go\<close>, \<^verbatim>\<open>resolver_types.go\<close>): which
  selectors of the groups are resolved, by which provider (\<^verbatim>\<open>resolver_asn.go\<close>, \<^verbatim>\<open>resolver_domains.go\<close>,
  \<^verbatim>\<open>resolver_wildcard.go\<close>), and how the answers become a snapshot and the statistics of a run. HTTP requests are
  parameters: a function from the requested resource to an error or the decoded response. The preview
  of AS numbers (\<^verbatim>\<open>asn_preview.go\<close>, \<^verbatim>\<open>server/handlers_routing_asn_preview.go\<close>) uses the same provider.
\<close>


section \<open>Settings\<close>

definition defaultResolverIntervalSeconds :: int where "defaultResolverIntervalSeconds = 3600"
definition maxResolverIntervalSeconds :: int where "maxResolverIntervalSeconds = 24 * 3600"
definition defaultResolverTimeoutSeconds :: int where "defaultResolverTimeoutSeconds = 10"
definition maxResolverTimeoutSeconds :: int where "maxResolverTimeoutSeconds = 60"
definition defaultResolverParallelism :: int where "defaultResolverParallelism = 6"
definition maxResolverParallelism :: int where "maxResolverParallelism = 64"

definition Seconds :: "int \<Rightarrow> int" where
  "Seconds n = n * 1000000000"

definition positive_or :: "int \<Rightarrow> int \<Rightarrow> int" where
  "positive_or v alt = (if v \<le> 0 then alt else v)"

definition at_most :: "int \<Rightarrow> int \<Rightarrow> int" where
  "at_most v bound = (if v > bound then bound else v)"

definition resolverIntervalFromSettings :: "settings \<Rightarrow> int" where
  "resolverIntervalFromSettings current =
     Seconds (at_most (positive_or (ResolverIntervalSeconds current) defaultResolverIntervalSeconds) maxResolverIntervalSeconds)"

definition resolverTimeoutFromSettings :: "settings \<Rightarrow> int" where
  "resolverTimeoutFromSettings current =
     Seconds (at_most (positive_or (ResolverTimeoutSeconds current) defaultResolverTimeoutSeconds) maxResolverTimeoutSeconds)"

definition provider_timeout :: "int \<Rightarrow> settings \<Rightarrow> int" where
  "provider_timeout seconds current =
     Seconds (at_most (positive_or (positive_or seconds (ResolverTimeoutSeconds current)) defaultResolverTimeoutSeconds)
       maxResolverTimeoutSeconds)"

definition resolverDomainTimeoutFromSettings :: "settings \<Rightarrow> int" where
  "resolverDomainTimeoutFromSettings current = provider_timeout (ResolverDomainTimeoutSeconds current) current"

definition resolverASNTimeoutFromSettings :: "settings \<Rightarrow> int" where
  "resolverASNTimeoutFromSettings current = provider_timeout (ResolverASNTimeoutSeconds current) current"

definition resolverWildcardTimeoutFromSettings :: "settings \<Rightarrow> int" where
  "resolverWildcardTimeoutFromSettings current = provider_timeout (ResolverWildcardTimeoutSeconds current) current"

definition resolverParallelismFromSettings :: "settings \<Rightarrow> int" where
  "resolverParallelismFromSettings current =
     at_most (positive_or (ResolverParallelism current) defaultResolverParallelism) maxResolverParallelism"

record resolverProviderFlags =
  fl_Domain :: bool
  fl_ASN :: bool
  fl_Wildcard :: bool

definition resolverProviderFlagsFromSettings :: "settings \<Rightarrow> resolverProviderFlags" where
  "resolverProviderFlagsFromSettings current =
     \<lparr>fl_Domain = (case ResolverDomainEnabled current of None \<Rightarrow> True | Some b \<Rightarrow> b),
      fl_ASN = (case ResolverASNEnabled current of None \<Rightarrow> True | Some b \<Rightarrow> b),
      fl_Wildcard = (case ResolverWildcardEnabled current of None \<Rightarrow> True | Some b \<Rightarrow> b)\<rparr>"


section \<open>Jobs\<close>

definition normalizeASNKey :: "string \<Rightarrow> string" where
  "normalizeASNKey v =
     (let t = TrimPrefix (ToUpper (TrimSpace v)) ''AS'' in
      if t = [] then []
      else if \<not> list_all is_digit t then []
      else (let u = dropWhile (\<lambda>c. c = CHR ''0'') t in if u = [] then [] else ''AS'' @ u))"

record resolver_job =
  job_Selector :: resolver_selector
  job_Label :: string

definition add_job :: "string \<Rightarrow> string \<Rightarrow> resolver_job list \<Rightarrow> resolver_job list" where
  "add_job ty key jobs =
     (if (ty, key) \<in> job_Selector ` set jobs then jobs
      else jobs @ [\<lparr>job_Selector = (ty, key), job_Label = ty @ '':'' @ key\<rparr>])"

definition add_asn_job :: "string \<Rightarrow> resolver_job list \<Rightarrow> resolver_job list" where
  "add_asn_job asn jobs = (let key = normalizeASNKey asn in if key = [] then jobs else add_job ''asn'' key jobs)"

definition rule_jobs :: "resolverProviderFlags \<Rightarrow> routing_rule \<Rightarrow> resolver_job list \<Rightarrow> resolver_job list" where
  "rule_jobs enabled rule jobs =
     (let jobs1 = (if fl_Domain enabled then fold (add_job ''domain'') (Domains rule) jobs else jobs);
          jobs2 = (if fl_Wildcard enabled then fold (add_job ''wildcard'') (WildcardDomains rule) jobs1 else jobs1)
      in if fl_ASN enabled
         then fold add_asn_job (ExcludedDestinationASNs rule) (fold add_asn_job (DestinationASNs rule) jobs2) else jobs2)"

definition collectResolverJobs :: "domain_group list \<Rightarrow> resolverProviderFlags \<Rightarrow> resolver_job list" where
  "collectResolverJobs groups enabled =
     sort_key (\<lambda>j. [fst (job_Selector j), snd (job_Selector j)])
       (fold (\<lambda>grp. fold (rule_jobs enabled) (Rules grp)) groups [])"


section \<open>Providers\<close>

definition keysSorted :: "string list \<Rightarrow> string list" where
  "keysSorted keys = sort_strings (dedup keys)"

definition announced_prefix :: "string \<Rightarrow> (bool \<times> string) option" where
  "announced_prefix entry =
     (case ParseCIDR (TrimSpace entry) of
        None \<Rightarrow> None
      | Some c \<Rightarrow>
          if To4 (cidr_ip c) \<noteq> None \<and> cidr_bits c = 32
          then Some (True, IP_String (the (To4 (cidr_net c))) @ ''/'' @ Itoa (int (cidr_prefix c)))
          else Some (False, IP_String (cidr_net c) @ ''/'' @ Itoa (int (cidr_prefix c))))"

datatype resolve_error = InvalidASN string | ResolveTransport string | ResolveDomainRequired | ResolveStatus int
  | ResolveWildcardRequired | ResolveWildcardInvalid domain_error | UnknownSelectorType string

definition ripe_Resolve :: "(string \<Rightarrow> string + string list) \<Rightarrow> string \<Rightarrow> resolve_error + resolver_values" where
  "ripe_Resolve fetched asn =
     (let normalized = normalizeASNKey asn in
      if normalized = [] \<or> normalized = ''AS'' then Inl (InvalidASN asn)
      else (case fetched normalized of
              Inl e \<Rightarrow> Inl (ResolveTransport e)
            | Inr entries \<Rightarrow>
                (let ps = List.map_filter announced_prefix entries in
                 Inr \<lparr>V4 = keysSorted (map snd (filter fst ps)), V6 = keysSorted (map snd (filter (\<lambda>p. \<not> fst p) ps))\<rparr>)))"

definition resolver_answer :: "int \<Rightarrow> int \<times> string \<Rightarrow> string option" where
  "resolver_answer want answer =
     (let d = TrimSpace (snd answer) in
      if fst answer \<noteq> want then None
      else if d = [] then None
      else if want = 1 then (case ParseIP d of None \<Rightarrow> None | Some i \<Rightarrow> map_option IP_String (To4 i))
      else if want = 28 then (case ParseIP d of None \<Rightarrow> None | Some i \<Rightarrow> if To4 i \<noteq> None then None else Some (IP_String i))
      else if want = 5
      then (let t = TrimPrefix (TrimSuffix (ToLower d) ''.'') ''*.'' in if t = [] then None else Some t)
      else None)"

definition resolver_query :: "(string \<Rightarrow> string \<Rightarrow> string + int \<times> (int \<times> string) list) \<Rightarrow> string \<Rightarrow> string \<Rightarrow> int \<Rightarrow> resolve_error + string list" where
  "resolver_query fetched domain qType want =
     (case fetched domain qType of
        Inl e \<Rightarrow> Inl (ResolveTransport e)
      | Inr (status, answers) \<Rightarrow>
          if status \<noteq> 0 \<and> status \<noteq> 3 then Inl (ResolveStatus status)
          else Inr (keysSorted (List.map_filter (resolver_answer want) answers)))"

definition found :: "resolve_error + string list \<Rightarrow> string list" where
  "found r = (case r of Inl _ \<Rightarrow> [] | Inr vs \<Rightarrow> vs)"

definition doh_Resolve :: "(string \<Rightarrow> string \<Rightarrow> string + int \<times> (int \<times> string) list) \<Rightarrow> string \<Rightarrow> resolve_error + resolver_values" where
  "doh_Resolve fetched domain =
     (let root = TrimSuffix (TrimPrefix (ToLower (TrimSpace domain)) ''*.'') ''.'' in
      if root = [] then Inl ResolveDomainRequired
      else (let targets = dedup (root # found (resolver_query fetched root ''CNAME'' 5)) in
            Inr \<lparr>V4 = keysSorted (concat (map (\<lambda>target. map (\<lambda>v. v @ ''/32'') (found (resolver_query fetched target ''A'' 1))) targets)),
                 V6 = keysSorted (concat (map (\<lambda>target. map (\<lambda>v. v @ ''/128'') (found (resolver_query fetched target ''AAAA'' 28))) targets))\<rparr>))"

definition crtsh_candidate :: "string \<Rightarrow> string \<Rightarrow> string option" where
  "crtsh_candidate baseDomain candidate =
     (let domain = TrimPrefix (TrimSuffix (ToLower (TrimSpace candidate)) ''.'') ''*.'' in
      if domain = [] then None
      else if domain \<noteq> baseDomain \<and> \<not> HasSuffix domain (''.'' @ baseDomain) then None
      else if ValidateDomain domain \<noteq> None then None
      else Some domain)"

definition crtsh_Resolve :: "(string \<Rightarrow> string + string list) \<Rightarrow> string \<Rightarrow> resolve_error + string list" where
  "crtsh_Resolve fetched wildcard =
     (let baseDomain = TrimPrefix (ToLower (TrimSpace wildcard)) ''*.'' in
      if baseDomain = [] then Inl ResolveWildcardRequired
      else (case ValidateDomain baseDomain of
              Some e \<Rightarrow> Inl (ResolveWildcardInvalid e)
            | None \<Rightarrow>
                (case fetched (''%.'' @ baseDomain) of
                   Inl e \<Rightarrow> Inl (ResolveTransport e)
                 | Inr payload \<Rightarrow>
                     Inr (keysSorted (List.map_filter (crtsh_candidate baseDomain)
                       (concat (map (\<lambda>v. Split v (CHR 0x0A)) payload)))))))"

record run_resolvers =
  rv_domain :: "(string \<Rightarrow> resolve_error + resolver_values) option"
  rv_asn :: "(string \<Rightarrow> resolve_error + resolver_values) option"
  rv_wildcard :: "(string \<Rightarrow> resolve_error + string list) option"

text \<open>The default providers, unless tests installed custom ones.\<close>

definition resolversForRun :: "resolverProviderFlags \<Rightarrow> run_resolvers \<Rightarrow> run_resolvers \<Rightarrow> run_resolvers" where
  "resolversForRun enabled defaults custom =
     \<lparr>rv_domain = (if \<not> (fl_Domain enabled \<or> fl_Wildcard enabled) then None
          else (case rv_domain custom of Some c \<Rightarrow> Some c | None \<Rightarrow> rv_domain defaults)),
       rv_asn = (if \<not> fl_ASN enabled then None else (case rv_asn custom of Some c \<Rightarrow> Some c | None \<Rightarrow> rv_asn defaults)),
       rv_wildcard = (if \<not> fl_Wildcard enabled then None
          else (case rv_wildcard custom of Some c \<Rightarrow> Some c | None \<Rightarrow> rv_wildcard defaults))\<rparr>"

definition resolveJob :: "run_resolvers \<Rightarrow> resolver_selector \<Rightarrow> resolve_error + resolver_values" where
  "resolveJob resolvers sel =
     (let ty = fst sel; key = snd sel in
      if ty = ''domain'' then (case rv_domain resolvers of None \<Rightarrow> Inr zero_values | Some f \<Rightarrow> f key)
      else if ty = ''asn'' then (case rv_asn resolvers of None \<Rightarrow> Inr zero_values | Some f \<Rightarrow> f key)
      else if ty = ''wildcard'' then
        (case (rv_wildcard resolvers, rv_domain resolvers) of
           (Some wild, Some f) \<Rightarrow>
             (case wild key of
                Inl e \<Rightarrow> Inl e
              | Inr domains \<Rightarrow>
                  (let ds = (if domains = [] then [TrimPrefix key ''*.''] else domains);
                       vs = List.map_filter (\<lambda>d. case f d of Inl _ \<Rightarrow> None | Inr v \<Rightarrow> Some v) ds
                   in Inr \<lparr>V4 = keysSorted (concat (map V4 vs)), V6 = keysSorted (concat (map V6 vs))\<rparr>))
         | _ \<Rightarrow> Inr zero_values)
      else Inl (UnknownSelectorType ty))"


section \<open>One run\<close>

record provider_progress =
  pp_SelectorsTotal :: int
  pp_SelectorsDone :: int
  pp_PrefixesResolved :: int

record resolver_progress =
  rp_StartedAt :: int
  rp_SelectorsTotal :: int
  rp_SelectorsDone :: int
  rp_PrefixesResolved :: int
  rp_CurrentSelector :: string
  rp_PerProvider :: "string \<rightharpoonup> provider_progress"

definition zero_provider :: provider_progress where
  "zero_provider = \<lparr>pp_SelectorsTotal = 0, pp_SelectorsDone = 0, pp_PrefixesResolved = 0\<rparr>"

definition at_provider :: "string \<Rightarrow> (provider_progress \<Rightarrow> provider_progress) \<Rightarrow> resolver_progress \<Rightarrow> resolver_progress" where
  "at_provider ty f p = p\<lparr>rp_PerProvider := (rp_PerProvider p)(ty \<mapsto> f (case rp_PerProvider p ty of None \<Rightarrow> zero_provider | Some e \<Rightarrow> e))\<rparr>"

definition run_progress_of :: "int \<Rightarrow> resolver_job list \<Rightarrow> resolver_progress" where
  "run_progress_of tm jobs =
     fold (\<lambda>j. at_provider (fst (job_Selector j)) (\<lambda>e. e\<lparr>pp_SelectorsTotal := pp_SelectorsTotal e + 1\<rparr>)) jobs
       \<lparr>rp_StartedAt = tm, rp_SelectorsTotal = int (length jobs), rp_SelectorsDone = 0, rp_PrefixesResolved = 0,
        rp_CurrentSelector = [], rp_PerProvider = Map.empty\<rparr>"

text \<open>The collector of results: the snapshot, the first error and the progress.\<close>

record collected =
  co_snapshot :: resolver_snapshot
  co_firstErr :: "resolve_error option"
  co_progress :: resolver_progress

definition take_result :: "resolver_job \<times> (resolve_error + resolver_values) \<Rightarrow> collected \<Rightarrow> collected" where
  "take_result res co =
     (case res of (job, r) \<Rightarrow>
       (let count = (case r of Inl _ \<Rightarrow> 0 | Inr v \<Rightarrow> int (length (V4 v) + length (V6 v)));
            p = co_progress co
        in \<lparr>co_snapshot = (case r of Inl _ \<Rightarrow> co_snapshot co | Inr v \<Rightarrow> AList.update (job_Selector job) v (co_snapshot co)),
            co_firstErr = (case (r, co_firstErr co) of (Inl e, None) \<Rightarrow> Some e | _ \<Rightarrow> co_firstErr co),
            co_progress = at_provider (fst (job_Selector job))
              (\<lambda>e. e\<lparr>pp_SelectorsDone := pp_SelectorsDone e + 1, pp_PrefixesResolved := pp_PrefixesResolved e + count\<rparr>)
              (p\<lparr>rp_SelectorsDone := rp_SelectorsDone p + 1, rp_PrefixesResolved := rp_PrefixesResolved p + count,
                rp_CurrentSelector := job_Label job\<rparr>)\<rparr>))"

definition collect_results :: "int \<Rightarrow> resolver_job list \<Rightarrow> (resolver_job \<times> (resolve_error + resolver_values)) list \<Rightarrow> collected" where
  "collect_results tm jobs results =
     fold take_result results \<lparr>co_snapshot = [], co_firstErr = None, co_progress = run_progress_of tm jobs\<rparr>"

record resolver_stats =
  rst_SelectorsTotal :: int
  rst_SelectorsDone :: int
  rst_PrefixesResolved :: int
  rst_PerProvider :: "string \<rightharpoonup> provider_progress"

definition zero_stats :: resolver_stats where
  "zero_stats = \<lparr>rst_SelectorsTotal = 0, rst_SelectorsDone = 0, rst_PrefixesResolved = 0, rst_PerProvider = Map.empty\<rparr>"

datatype run_failure = ListErr string | UpsertErr string | FirstErr resolve_error

text \<open>
  \<^verbatim>\<open>resolveSelectors\<close>. \<open>finish\<close> gives, for the jobs of the run, the results in the order in which they arrive on the channel: the workers
  finish in any order, and after a cancellation jobs that were not handed out have no result. \<open>upsert\<close> is the manager's
  \<^verbatim>\<open>UpsertResolverSnapshot\<close>.
\<close>

definition resolveSelectors ::
  "settings \<Rightarrow> int \<Rightarrow> string + domain_group list \<Rightarrow> (resolver_job list \<Rightarrow> (resolver_job \<times> (resolve_error + resolver_values)) list) \<Rightarrow>
     (resolver_snapshot \<Rightarrow> string option) \<Rightarrow> resolver_stats \<times> run_failure option" where
  "resolveSelectors current tm groups finish upsert =
     (case groups of
        Inl e \<Rightarrow> (zero_stats, Some (ListErr e))
      | Inr gs \<Rightarrow>
          (let jobs = collectResolverJobs gs (resolverProviderFlagsFromSettings current) in
           if jobs = [] then (zero_stats\<lparr>rst_PerProvider := rp_PerProvider (run_progress_of tm jobs)\<rparr>, None)
           else
             (let co = collect_results tm jobs (finish jobs); p = co_progress co;
                  stats = \<lparr>rst_SelectorsTotal = rp_SelectorsTotal p, rst_SelectorsDone = rp_SelectorsDone p,
                    rst_PrefixesResolved = rp_PrefixesResolved p, rst_PerProvider = rp_PerProvider p\<rparr>
              in case (if co_snapshot co = [] then None else upsert (co_snapshot co)) of
                   Some e \<Rightarrow> (zero_stats, Some (UpsertErr e))
                 | None \<Rightarrow> (stats, map_option FirstErr (co_firstErr co)))))"

text \<open>The number of workers.\<close>

definition worker_count :: "settings \<Rightarrow> resolver_job list \<Rightarrow> int" where
  "worker_count current jobs =
     (let n = resolverParallelismFromSettings current;
          m = (if n > int (length jobs) then int (length jobs) else n)
      in if m \<le> 0 then 1 else m)"


section \<open>Preview of AS numbers\<close>

record preview_item =
  pi_ASN :: string
  pi_PrefixesV4 :: int
  pi_PrefixesV6 :: int
  pi_EntriesV4 :: int
  pi_EntriesV6 :: int
  pi_failed :: bool

record preview_result =
  pv_Items :: "preview_item list"
  pv_TotalEntriesV4 :: int
  pv_TotalEntriesV6 :: int
  pv_TotalPrefixesV4 :: int
  pv_TotalPrefixesV6 :: int
  pv_ResolvedSelector :: int

datatype preview_error = PreviewInvalidASN string | PreviewEmpty | PreviewCanceled string | PreviewCollapse set_error

fun preview_asns :: "string list \<Rightarrow> string list \<Rightarrow> preview_error + string list" where
  "preview_asns out [] = Inr out"
| "preview_asns out (raw # raws) =
     (let t = TrimSpace raw in
      if t = [] then preview_asns out raws
      else (let n = normalizeASNKey t in
            if n = [] then Inl (PreviewInvalidASN raw)
            else preview_asns (if n \<in> set out then out else out @ [n]) raws))"

definition normalizePreviewASNs :: "string list \<Rightarrow> preview_error + string list" where
  "normalizePreviewASNs vs = preview_asns [] vs"

record preview_acc =
  pa_items :: "preview_item list"
  pa_mergedV4 :: "string list"
  pa_mergedV6 :: "string list"
  pa_prefixesV4 :: int
  pa_prefixesV6 :: int
  pa_resolved :: int

definition preview_step ::
  "(prefix list \<Rightarrow> prefix list option) \<Rightarrow> (string \<Rightarrow> resolve_error + resolver_values) \<Rightarrow> string \<Rightarrow> preview_acc \<Rightarrow> preview_acc" where
  "preview_step netipx resolve asn a =
     (let item = \<lparr>pi_ASN = asn, pi_PrefixesV4 = 0, pi_PrefixesV6 = 0, pi_EntriesV4 = 0, pi_EntriesV6 = 0, pi_failed = False\<rparr> in
      case resolve asn of
        Inl _ \<Rightarrow> a\<lparr>pa_items := pa_items a @ [item\<lparr>pi_failed := True\<rparr>]\<rparr>
      | Inr vals \<Rightarrow>
          (let n4 = int (length (V4 vals)); n6 = int (length (V6 vals));
               item1 = item\<lparr>pi_PrefixesV4 := n4, pi_PrefixesV6 := n6\<rparr>;
               a1 = a\<lparr>pa_prefixesV4 := pa_prefixesV4 a + n4, pa_prefixesV6 := pa_prefixesV6 a + n6\<rparr>
           in case (collapseSetEntries netipx (V4 vals) ''inet'', collapseSetEntries netipx (V6 vals) ''inet6'') of
                (Inr e4, Inr e6) \<Rightarrow>
                  a1\<lparr>pa_items := pa_items a1 @ [item1\<lparr>pi_EntriesV4 := int (length e4), pi_EntriesV6 := int (length e6)\<rparr>],
                    pa_mergedV4 := pa_mergedV4 a1 @ V4 vals, pa_mergedV6 := pa_mergedV6 a1 @ V6 vals, pa_resolved := pa_resolved a1 + 1\<rparr>
              | _ \<Rightarrow> a1\<lparr>pa_items := pa_items a1 @ [item1\<lparr>pi_failed := True\<rparr>]\<rparr>))"

definition merged_entries :: "(prefix list \<Rightarrow> prefix list option) \<Rightarrow> string list \<Rightarrow> string \<Rightarrow> preview_error + int" where
  "merged_entries netipx entries family =
     (if entries = [] then Inr 0
      else (case collapseSetEntries netipx entries family of Inl e \<Rightarrow> Inl (PreviewCollapse e) | Inr es \<Rightarrow> Inr (int (length es))))"

text \<open>\<open>ctxErr n\<close> is the error of the context before request \<open>n\<close>.\<close>

fun preview_loop ::
  "(prefix list \<Rightarrow> prefix list option) \<Rightarrow> (string \<Rightarrow> resolve_error + resolver_values) \<Rightarrow> (nat \<Rightarrow> string option) \<Rightarrow> nat \<Rightarrow> string list \<Rightarrow>
     preview_acc \<Rightarrow> preview_error + preview_acc" where
  "preview_loop netipx resolve ctxErr n [] a = Inr a"
| "preview_loop netipx resolve ctxErr n (asn # asns) a =
     (case ctxErr n of
        Some e \<Rightarrow> Inl (PreviewCanceled e)
      | None \<Rightarrow> preview_loop netipx resolve ctxErr (Suc n) asns (preview_step netipx resolve asn a))"

definition PreviewASNEntriesWithResolver ::
  "(prefix list \<Rightarrow> prefix list option) \<Rightarrow> (string \<Rightarrow> resolve_error + resolver_values) \<Rightarrow> (nat \<Rightarrow> string option) \<Rightarrow> string list \<Rightarrow>
     preview_error + preview_result" where
  "PreviewASNEntriesWithResolver netipx resolve ctxErr asns =
     bindE (normalizePreviewASNs asns) (\<lambda>normalized.
       if normalized = [] then Inl PreviewEmpty
       else bindE (preview_loop netipx resolve ctxErr 0 normalized
                \<lparr>pa_items = [], pa_mergedV4 = [], pa_mergedV6 = [], pa_prefixesV4 = 0, pa_prefixesV6 = 0, pa_resolved = 0\<rparr>) (\<lambda>a.
              bindE (merged_entries netipx (pa_mergedV4 a) ''inet'') (\<lambda>t4.
              bindE (merged_entries netipx (pa_mergedV6 a) ''inet6'') (\<lambda>t6.
                Inr \<lparr>pv_Items = pa_items a, pv_TotalEntriesV4 = t4, pv_TotalEntriesV6 = t6, pv_TotalPrefixesV4 = pa_prefixesV4 a,
                     pv_TotalPrefixesV6 = pa_prefixesV6 a, pv_ResolvedSelector = pa_resolved a\<rparr>))))"

definition PreviewASNEntries ::
  "(prefix list \<Rightarrow> prefix list option) \<Rightarrow> (string \<Rightarrow> string + string list) \<Rightarrow> (nat \<Rightarrow> string option) \<Rightarrow> string list \<Rightarrow>
     preview_error + preview_result" where
  "PreviewASNEntries netipx fetched ctxErr asns = PreviewASNEntriesWithResolver netipx (ripe_Resolve fetched) ctxErr asns"

definition sanitizeASNPreviewInputs :: "string list \<Rightarrow> string list" where
  "sanitizeASNPreviewInputs vs =
     List.map_filter (\<lambda>v.
       let t = TrimSpace v in
       if t = [] then None
       else (let u = (if CHR ''#'' \<in> set t then TrimSpace (before_char (CHR ''#'') t) else t) in if u = [] then None else Some u)) vs"

definition maxASNPreviewSelectors :: nat where
  "maxASNPreviewSelectors = 64"

text \<open>The HTTP answer: bad request with a reason, internal error, or the preview.\<close>

datatype preview_response = PreviewBadRequest string | PreviewRejected preview_error | PreviewInternal preview_error | PreviewOK preview_result

definition isASNPreviewValidationError :: "preview_error \<Rightarrow> bool" where
  "isASNPreviewValidationError e = (case e of PreviewInvalidASN _ \<Rightarrow> True | PreviewEmpty \<Rightarrow> True | _ \<Rightarrow> False)"

definition asnPreviewTimeout :: "(string + settings) option \<Rightarrow> int" where
  "asnPreviewTimeout manager =
     (case manager of
        None \<Rightarrow> Seconds 10
      | Some (Inl _) \<Rightarrow> Seconds 10
      | Some (Inr current) \<Rightarrow>
          Seconds (at_most (positive_or (positive_or (ResolverASNTimeoutSeconds current) (ResolverTimeoutSeconds current)) 10) 60))"

definition handleASNPreview ::
  "(string list \<Rightarrow> preview_error + preview_result) \<Rightarrow> string list option \<Rightarrow> preview_response" where
  "handleASNPreview preview body =
     (case body of
        None \<Rightarrow> PreviewBadRequest ''invalid JSON body''
      | Some raw \<Rightarrow>
          (let asns = sanitizeASNPreviewInputs raw in
           if asns = [] then PreviewBadRequest ''at least one ASN is required''
           else if length asns > maxASNPreviewSelectors then PreviewBadRequest ''too many ASNs in preview request''
           else (case preview asns of
                   Inl e \<Rightarrow> if isASNPreviewValidationError e then PreviewRejected e else PreviewInternal e
                 | Inr r \<Rightarrow> PreviewOK r)))"



section \<open>Which selectors are resolved\<close>

lemma add_job_selectors: "job_Selector ` set (add_job ty key jobs) = insert (ty, key) (job_Selector ` set jobs)"
  by (auto simp: add_job_def)

lemma fold_add_job: "job_Selector ` set (fold (add_job ty) keys jobs) = Pair ty ` set keys \<union> job_Selector ` set jobs"
  by (induction keys arbitrary: jobs) (auto simp: add_job_selectors)

lemma fold_add_asn:
  "job_Selector ` set (fold add_asn_job asns jobs) =
     {(''asn'', normalizeASNKey a) |a. a \<in> set asns \<and> normalizeASNKey a \<noteq> []} \<union> job_Selector ` set jobs"
proof (induction asns arbitrary: jobs)
  case (Cons a asns)
  have "job_Selector ` set (add_asn_job a jobs) =
      (if normalizeASNKey a = [] then {} else {(''asn'', normalizeASNKey a)}) \<union> job_Selector ` set jobs"
    by (simp add: add_asn_job_def Let_def add_job_selectors)
  then show ?case using Cons [of "add_asn_job a jobs"] by auto
qed simp

definition rule_selectors :: "resolverProviderFlags \<Rightarrow> routing_rule \<Rightarrow> resolver_selector set" where
  "rule_selectors enabled r =
     (if fl_Domain enabled then Pair ''domain'' ` set (Domains r) else {}) \<union>
     (if fl_Wildcard enabled then Pair ''wildcard'' ` set (WildcardDomains r) else {}) \<union>
     (if fl_ASN enabled then {(''asn'', normalizeASNKey a) |a. a \<in> set (DestinationASNs r) \<union> set (ExcludedDestinationASNs r) \<and> normalizeASNKey a \<noteq> []}
      else {})"

lemma rule_jobs_selectors:
  "job_Selector ` set (rule_jobs enabled r jobs) = rule_selectors enabled r \<union> job_Selector ` set jobs"
  unfolding rule_jobs_def Let_def rule_selectors_def
  by (cases "fl_Domain enabled"; cases "fl_Wildcard enabled"; cases "fl_ASN enabled";
      simp add: fold_add_job fold_add_asn; blast)

lemma collect_selectors:
  "job_Selector ` set (collectResolverJobs groups enabled) = (\<Union>grp \<in> set groups. \<Union>r \<in> set (Rules grp). rule_selectors enabled r)"
proof -
  have rules: "job_Selector ` set (fold (rule_jobs enabled) rs jobs) = (\<Union>r \<in> set rs. rule_selectors enabled r) \<union> job_Selector ` set jobs" for rs jobs
    by (induction rs arbitrary: jobs) (auto simp: rule_jobs_selectors)
  have "job_Selector ` set (fold (\<lambda>grp. fold (rule_jobs enabled) (Rules grp)) groups jobs) =
      (\<Union>grp \<in> set groups. \<Union>r \<in> set (Rules grp). rule_selectors enabled r) \<union> job_Selector ` set jobs" for jobs
    by (induction groups arbitrary: jobs) (auto simp: rules)
  from this [of "[]"] show ?thesis by (simp add: collectResolverJobs_def)
qed

lemma ToUpper_digits: "all_digits s \<Longrightarrow> ToUpper s = s"
  by (auto simp: ToUpper_def all_digits_def list_all_iff is_digit_def upper_char_def is_lower_def intro!: map_idI)

lemma normalizeASNKey_ok:
  assumes "asn_ok s"
  shows "normalizeASNKey s = s"
proof -
  obtain v where v: "v > 0" "s = ''AS'' @ Itoa v" using assms by (auto simp: asn_ok_def)
  have dig: "all_digits (Itoa v)" using v by (intro Itoa_nonneg_digits) simp
  have "trimmed s" using Itoa_not_space [of v] by (simp add: v trimmed_def) code_simp
  then have t: "TrimSpace s = s" by (rule TrimSpace_id)
  have "ToUpper s = s"
  proof -
    have "ToUpper ''AS'' = ''AS''" by code_simp
    then show ?thesis using ToUpper_digits [OF dig] by (simp add: v ToUpper_def)
  qed
  moreover have "dropWhile (\<lambda>c. c = CHR ''0'') (Itoa v) = Itoa v"
    using show_base_head [of "nat v"] v by (auto simp: Itoa_def dropWhile_eq_self_iff)
  moreover have "list_all is_digit (Itoa v)" "Itoa v \<noteq> []" using dig by (simp_all add: all_digits_def)
  ultimately show ?thesis using t v(2) TrimPrefix_append [of "''AS''" "Itoa v"] by (simp add: normalizeASNKey_def Let_def)
qed



section \<open>What the rules are given\<close>

definition included_selectors :: "routing_rule \<Rightarrow> resolver_selector list" where
  "included_selectors r = map (Pair ''asn'') (DestinationASNs r) @ map (Pair ''domain'') (Domains r) @ map (Pair ''wildcard'') (WildcardDomains r)"

definition excluded_selectors :: "routing_rule \<Rightarrow> resolver_selector list" where
  "excluded_selectors r = map (Pair ''asn'') (ExcludedDestinationASNs r)"

lemma lookups_included: "sel \<in> set (included_selectors r) \<Longrightarrow> set (both_families (snapshot_get m sel)) \<subseteq> set (mergeResolvedDestinations r m)"
  by (auto simp: included_selectors_def mergeResolvedDestinations_def)

lemma lookups_excluded: "sel \<in> set (excluded_selectors r) \<Longrightarrow> set (both_families (snapshot_get m sel)) \<subseteq> set (mergeResolvedDestinationExclusions r m)"
  by (auto simp: excluded_selectors_def mergeResolvedDestinationExclusions_def)

lemma take_result_snapshot:
  "co_snapshot (take_result (job, r) co) = (case r of Inl _ \<Rightarrow> co_snapshot co | Inr v \<Rightarrow> AList.update (job_Selector job) v (co_snapshot co))"
  by (simp add: take_result_def Let_def)

lemma collected_snapshot:
  assumes "distinct (map (\<lambda>x. job_Selector (fst x)) results)" "(job, Inr v) \<in> set results"
  shows "(job_Selector job, v) \<in> set (co_snapshot (fold take_result results co))"
proof -
  have keep: "map_of (co_snapshot (fold take_result rs co)) sel = map_of (co_snapshot co) sel"
    if "sel \<notin> (\<lambda>x. job_Selector (fst x)) ` set rs" for rs co sel
    using that by (induction rs arbitrary: co) (auto simp: take_result_snapshot update_conv' split: sum.splits)
  have "map_of (co_snapshot (fold take_result results co)) (job_Selector job) = Some v"
    using assms
  proof (induction results arbitrary: co)
    case (Cons x results)
    show ?case
    proof (cases "x = (job, Inr v)")
      case True
      then have "job_Selector job \<notin> (\<lambda>x. job_Selector (fst x)) ` set results" using Cons.prems(1) by auto
      from keep [OF this] show ?thesis using True by (simp add: take_result_snapshot update_conv')
    next
      case False
      then show ?thesis using Cons by simp
    qed
  qed simp
  then show ?thesis by (rule map_of_SomeD)
qed



definition resolver_sample_group :: domain_group where
  "resolver_sample_group = \<lparr>group_ID = 1, group_Name = ''tv'', EgressVPN = ''nl'',
     Rules = [empty_rule\<lparr>DestinationASNs := [''AS1'']\<rparr>], group_Domains = [], CreatedAt = 0, UpdatedAt = 0\<rparr>"


end
