(* ===== verification/Resolver_Scheduler.thy ===== *)
theory Resolver_Scheduler
  imports Resolver
begin

text \<open>
  The scheduler of resolver runs (\<^verbatim>\<open>internal/routing/resolver.go\<close>) and its HTTP handlers
  (\<^verbatim>\<open>internal/server/handlers_resolver.go\<close>). As in the pre-warmer, one definition per section that holds the mutex. The steps of the
  periodic loop, of the runs and of the callers interleave in the relation \<open>rs_step\<close>; a context is a number.
\<close>


section \<open>Sections\<close>

record resolver_scheduler =
  rs_started :: bool
  rs_running :: bool
  rs_progress :: "resolver_progress option"
  rs_lastRun :: "resolver_run option"
  rs_defaultInterval :: int
  rs_loopCancel :: "nat option"
  rs_runCancel :: "nat option"

definition NewResolverScheduler :: "string + settings \<Rightarrow> resolver_run option \<Rightarrow> resolver_scheduler" where
  "NewResolverScheduler got lastRun =
     \<lparr>rs_started = False, rs_running = False, rs_progress = None, rs_lastRun = lastRun,
      rs_defaultInterval = resolverIntervalFromSettings (case got of Inl _ \<Rightarrow> empty_settings | Inr c \<Rightarrow> c),
      rs_loopCancel = None, rs_runCancel = None\<rparr>"

definition rs_currentInterval :: "string + settings \<Rightarrow> resolver_scheduler \<Rightarrow> int \<times> resolver_scheduler" where
  "rs_currentInterval got s =
     (case got of
        Inl _ \<Rightarrow> (rs_defaultInterval s, s)
      | Inr current \<Rightarrow> (let interval = resolverIntervalFromSettings current in (interval, s\<lparr>rs_defaultInterval := interval\<rparr>)))"

definition rs_Start :: "nat \<Rightarrow> resolver_scheduler \<Rightarrow> bool \<times> resolver_scheduler" where
  "rs_Start c s = (if rs_started s then (False, s) else (True, s\<lparr>rs_started := True, rs_loopCancel := Some c\<rparr>))"

definition rs_Stop :: "resolver_scheduler \<Rightarrow> (nat option \<times> nat option) \<times> resolver_scheduler" where
  "rs_Stop s = ((rs_loopCancel s, rs_runCancel s), s\<lparr>rs_started := False, rs_loopCancel := None\<rparr>)"

datatype trigger_error = SettingsReadErr string | ErrResolverRunInProgress | CacheClearErr string

definition initial_progress_at :: "int \<Rightarrow> resolver_progress" where
  "initial_progress_at startedAt = \<lparr>rp_StartedAt = startedAt, rp_SelectorsTotal = 0, rp_SelectorsDone = 0, rp_PrefixesResolved = 0,
     rp_CurrentSelector = [], rp_PerProvider = Map.empty\<rparr>"

definition rs_TriggerNow :: "string + settings \<Rightarrow> int \<Rightarrow> nat \<Rightarrow> resolver_scheduler \<Rightarrow> trigger_error option \<times> resolver_scheduler" where
  "rs_TriggerNow got startedAt c s =
     (case got of
        Inl e \<Rightarrow> (Some (SettingsReadErr e), s)
      | Inr current \<Rightarrow>
          if rs_running s then (Some ErrResolverRunInProgress, s)
          else (None, s\<lparr>rs_running := True, rs_progress := Some (initial_progress_at startedAt), rs_runCancel := Some c\<rparr>))"

text \<open>\<^verbatim>\<open>ClearCacheAndRun\<close>: the check, the clearing of the cache with its error, then a trigger.\<close>

definition ClearCacheAndRun ::
  "string option \<Rightarrow> string + settings \<Rightarrow> int \<Rightarrow> nat \<Rightarrow> resolver_scheduler \<Rightarrow> trigger_error option \<times> resolver_scheduler" where
  "ClearCacheAndRun clearErr got startedAt c s =
     (if rs_running s then (Some ErrResolverRunInProgress, s)
      else (case clearErr of Some e \<Rightarrow> (Some (CacheClearErr e), s) | None \<Rightarrow> rs_TriggerNow got startedAt c s))"

text \<open>The end of \<^verbatim>\<open>executeRun\<close>: the record is saved, with identifier \<open>i\<close> or an error, and shown. Times are in milliseconds; the
  texts of errors are parameters.\<close>

definition run_record_of :: "int \<Rightarrow> int \<Rightarrow> resolver_stats \<Rightarrow> string option \<Rightarrow> resolver_run" where
  "run_record_of started finished stats runErr =
     \<lparr>run_ID = 0, run_StartedAt = started div 1000, run_FinishedAt = finished div 1000, run_DurationMS = finished - started,
      run_SelectorsTotal = rst_SelectorsTotal stats, run_SelectorsDone = rst_SelectorsDone stats,
      run_PrefixesResolved = rst_PrefixesResolved stats, run_Error = (case runErr of None \<Rightarrow> [] | Some e \<Rightarrow> e)\<rparr>"

definition rs_finish :: "int \<Rightarrow> int \<Rightarrow> resolver_stats \<Rightarrow> string option \<Rightarrow> string + int \<Rightarrow> resolver_scheduler \<Rightarrow> resolver_scheduler" where
  "rs_finish started finished stats runErr save s =
     (let record = run_record_of started finished stats runErr;
          saved = (case save of
              Inr i \<Rightarrow> record\<lparr>run_ID := i\<rparr>
            | Inl e \<Rightarrow> if run_Error record = [] then record\<lparr>run_Error := e\<rparr> else record)
      in s\<lparr>rs_running := False, rs_runCancel := None, rs_lastRun := Some saved,
           rs_progress := Some \<lparr>rp_StartedAt = started div 1000, rp_SelectorsTotal = rst_SelectorsTotal stats,
             rp_SelectorsDone = rst_SelectorsDone stats, rp_PrefixesResolved = rst_PrefixesResolved stats, rp_CurrentSelector = [],
             rp_PerProvider = rst_PerProvider stats\<rparr>\<rparr>)"

record resolver_status =
  status_Running :: bool
  status_LastRun :: "resolver_run option"
  status_Progress :: "resolver_progress option"

definition rs_Status :: "string + resolver_run option \<Rightarrow> resolver_scheduler \<Rightarrow> (string + resolver_status) \<times> resolver_scheduler" where
  "rs_Status table s =
     (case rs_lastRun s of
        Some r \<Rightarrow> (Inr \<lparr>status_Running = rs_running s, status_LastRun = Some r, status_Progress = rs_progress s\<rparr>, s)
      | None \<Rightarrow>
          (case table of
             Inl e \<Rightarrow> (Inl e, s)
           | Inr l \<Rightarrow> (Inr \<lparr>status_Running = rs_running s, status_LastRun = l, status_Progress = rs_progress s\<rparr>,
                       if l = None then s else s\<lparr>rs_lastRun := l\<rparr>)))"


section \<open>Handlers\<close>

datatype api_status = ServiceUnavailable | Conflict | InternalServerError | Accepted

definition trigger_status :: "trigger_error option \<Rightarrow> api_status" where
  "trigger_status r = (case r of None \<Rightarrow> Accepted | Some ErrResolverRunInProgress \<Rightarrow> Conflict | Some _ \<Rightarrow> InternalServerError)"

definition handleResolverRun :: "string + settings \<Rightarrow> int \<Rightarrow> nat \<Rightarrow> resolver_scheduler option \<Rightarrow> api_status \<times> resolver_scheduler option" where
  "handleResolverRun got startedAt c resolver =
     (case resolver of
        None \<Rightarrow> (ServiceUnavailable, None)
      | Some s \<Rightarrow> (case rs_TriggerNow got startedAt c s of (r, s') \<Rightarrow> (trigger_status r, Some s')))"

definition handleResolverClearRun ::
  "string option \<Rightarrow> string + settings \<Rightarrow> int \<Rightarrow> nat \<Rightarrow> resolver_scheduler option \<Rightarrow> api_status \<times> resolver_scheduler option" where
  "handleResolverClearRun clearErr got startedAt c resolver =
     (case resolver of
        None \<Rightarrow> (ServiceUnavailable, None)
      | Some s \<Rightarrow> (case ClearCacheAndRun clearErr got startedAt c s of (r, s') \<Rightarrow> (trigger_status r, Some s')))"

definition handleResolverStatus ::
  "string + resolver_run option \<Rightarrow> resolver_scheduler option \<Rightarrow> (api_status + resolver_status) \<times> resolver_scheduler option" where
  "handleResolverStatus table resolver =
     (case resolver of
        None \<Rightarrow> (Inl ServiceUnavailable, None)
      | Some s \<Rightarrow> (case rs_Status table s of
                     (Inl _, s') \<Rightarrow> (Inl InternalServerError, Some s')
                   | (Inr st, s') \<Rightarrow> (Inr st, Some s')))"


section \<open>All goroutines together\<close>

record rs_system =
  rss_sched :: resolver_scheduler
  rss_runs :: "nat list"
  rss_loops :: "nat list"
  rss_cancelled :: "nat set"
  rss_next :: nat

inductive rs_step :: "rs_system \<Rightarrow> rs_system \<Rightarrow> bool" where
  start: "rs_Start (rss_next y) (rss_sched y) = (True, s) \<Longrightarrow>
     rs_step y (y\<lparr>rss_sched := s, rss_loops := rss_next y # rss_loops y, rss_next := Suc (rss_next y)\<rparr>)"
| trigger: "rs_TriggerNow got startedAt (rss_next y) (rss_sched y) = (None, s) \<Longrightarrow>
     rs_step y (y\<lparr>rss_sched := s, rss_runs := rss_next y # rss_runs y, rss_next := Suc (rss_next y)\<rparr>)"
| clear_and_run: "ClearCacheAndRun clearErr got startedAt (rss_next y) (rss_sched y) = (None, s) \<Longrightarrow>
     rs_step y (y\<lparr>rss_sched := s, rss_runs := rss_next y # rss_runs y, rss_next := Suc (rss_next y)\<rparr>)"
| interval: "c \<in> set (rss_loops y) \<Longrightarrow> rs_step y (y\<lparr>rss_sched := snd (rs_currentInterval got (rss_sched y))\<rparr>)"
| status: "rs_step y (y\<lparr>rss_sched := snd (rs_Status table (rss_sched y))\<rparr>)"
| stop: "rs_Stop (rss_sched y) = ((lc, rc), s) \<Longrightarrow>
     rs_step y (y\<lparr>rss_sched := s, rss_cancelled := set_option lc \<union> set_option rc \<union> rss_cancelled y\<rparr>)"
| loop_exit: "c \<in> rss_cancelled y \<Longrightarrow> rs_step y (y\<lparr>rss_loops := removeAll c (rss_loops y)\<rparr>)"
| run_end: "c \<in> set (rss_runs y) \<Longrightarrow>
     rs_step y (y\<lparr>rss_sched := rs_finish started finished stats runErr save (rss_sched y), rss_runs := removeAll c (rss_runs y)\<rparr>)"

definition rs_initial :: "string + settings \<Rightarrow> resolver_run option \<Rightarrow> rs_system" where
  "rs_initial got l = \<lparr>rss_sched = NewResolverScheduler got l, rss_runs = [], rss_loops = [], rss_cancelled = {}, rss_next = 0\<rparr>"

inductive rs_reachable :: "rs_system \<Rightarrow> bool" where
  init: "rs_reachable (rs_initial got l)"
| step: "rs_reachable y \<Longrightarrow> rs_step y z \<Longrightarrow> rs_reachable z"

definition rs_inv :: "rs_system \<Rightarrow> bool" where
  "rs_inv y \<longleftrightarrow>
     rss_runs y = (case rs_runCancel (rss_sched y) of None \<Rightarrow> [] | Some c \<Rightarrow> [c]) \<and>
     (rs_running (rss_sched y) \<longleftrightarrow> rs_runCancel (rss_sched y) \<noteq> None) \<and>
     (rs_running (rss_sched y) \<longrightarrow> (\<exists>tm. rs_progress (rss_sched y) = Some (initial_progress_at tm)))"

lemma TriggerNow_ok:
  "rs_TriggerNow got tm c s = (None, s') \<Longrightarrow>
     \<not> rs_running s \<and> s' = s\<lparr>rs_running := True, rs_progress := Some (initial_progress_at tm), rs_runCancel := Some c\<rparr>"
  by (auto simp: rs_TriggerNow_def split: sum.splits if_splits)

lemma rs_step_inv: "rs_step y z \<Longrightarrow> rs_inv y \<Longrightarrow> rs_inv z"
proof (induction rule: rs_step.induct)
  case (start y s)
  then show ?case by (auto simp: rs_inv_def rs_Start_def split: if_splits)
next
  case (trigger got startedAt y s)
  then show ?case by (auto simp: rs_inv_def dest!: TriggerNow_ok)
next
  case (clear_and_run clearErr got startedAt y s)
  then have "rs_TriggerNow got startedAt (rss_next y) (rss_sched y) = (None, s)"
    by (auto simp: ClearCacheAndRun_def split: if_splits option.splits)
  then show ?case using clear_and_run.prems by (auto simp: rs_inv_def dest!: TriggerNow_ok)
next
  case (interval c y got)
  then show ?case by (auto simp: rs_inv_def rs_currentInterval_def Let_def split: sum.splits)
next
  case (status y table)
  then show ?case by (auto simp: rs_inv_def rs_Status_def split: option.splits sum.splits)
next
  case (stop y lc rc s)
  then show ?case by (auto simp: rs_inv_def rs_Stop_def)
next
  case (run_end c y started finished stats runErr save)
  then have "rss_runs y = [c]" by (auto simp: rs_inv_def split: option.splits)
  then show ?case by (simp add: rs_inv_def rs_finish_def Let_def)
qed (simp add: rs_inv_def)

lemma rs_reachable_inv: "rs_reachable y \<Longrightarrow> rs_inv y"
proof (induction rule: rs_reachable.induct)
  case (init got l)
  show ?case by (simp add: rs_inv_def rs_initial_def NewResolverScheduler_def)
next
  case (step y z)
  then show ?case using rs_step_inv by blast
qed


definition rs_busy :: rs_system where
  "rs_busy = \<lparr>rss_sched = snd (rs_TriggerNow (Inr empty_settings) 60 0 (NewResolverScheduler (Inr empty_settings) None)), rss_runs = [0],
     rss_loops = [], rss_cancelled = {}, rss_next = 1\<rparr>"


end
