(* ===== verification/Wireguard_Conf.thy ===== *)
theory Wireguard_Conf
  imports Vpn_Validate "HOL-Library.AList" "HOL-Library.Sublist"
begin

text \<open>
  WireGuard configurations: the parser of \<^verbatim>\<open>internal/vpn/wireguard.go\<close> and the rewriting of
  \<^verbatim>\<open>internal/vpn/manager_wireguard.go\<close> that puts the routing table of the profile into the configuration and removes
  what the router cannot run. A Go map from keys to lists of values is an association list extended by \<open>push\<close>. The pointer
  to the current peer always points to the last element of the slice of peers, so it is a flag here. A step of the parser
  is a function on one line; the loop adds the number of the line to its errors.

  The theorem at the end relates the two files: the parser reads the rewritten text as the given configuration with the
  table set, DNS servers and legacy hooks removed, and nothing else changed. It needs that no line sets the table to the
  empty value; the counterexample shows why.
\<close>


section \<open>Text\<close>

text \<open>\<^verbatim>\<open>s[:strings.Index(s, sub)]\<close> when \<open>sub\<close> occurs.\<close>

fun cut_before :: "string \<Rightarrow> string \<Rightarrow> string" where
  "cut_before [] sub = []"
| "cut_before (c # s) sub = (if HasPrefix (c # s) sub then [] else c # cut_before s sub)"

definition after_last :: "char \<Rightarrow> string \<Rightarrow> string" where
  "after_last c s = rev (takeWhile (\<lambda>x. x \<noteq> c) (rev s))"

definition before_last :: "char \<Rightarrow> string \<Rightarrow> string" where
  "before_last c s = rev (tl (dropWhile (\<lambda>x. x \<noteq> c) (rev s)))"

text \<open>\<^verbatim>\<open>bufio.Scanner\<close> with a buffer of 1 MiB.\<close>

definition scan_big_lines :: "string \<Rightarrow> string list \<times> bool" where
  "scan_big_lines s =
     (let ls = content_lines s; ok = takeWhile (\<lambda>l. int (length l) < 1048576) ls
      in (map drop_cr ok, length ok < length ls))"

text \<open>The host of \<^verbatim>\<open>net.SplitHostPort\<close>; \<open>None\<close> for its errors.\<close>

definition SplitHostPort :: "string \<Rightarrow> (string \<times> string) option" where
  "SplitHostPort s =
     (let port = after_last (CHR '':'') s in
      if CHR '':'' \<notin> set s then None
      else if HasPrefix s ''[''
      then (let host = before_char (CHR '']'') (tl s); rest = after_char (CHR '']'') s in
            if CHR '']'' \<notin> set s then None
            else if rest \<noteq> CHR '':'' # port then None
            else if CHR ''['' \<in> set (tl s) \<or> CHR '']'' \<in> set rest then None
            else Some (host, port))
      else (let host = before_last (CHR '':'') s in
            if CHR '':'' \<in> set host then None
            else if CHR ''['' \<in> set s \<or> CHR '']'' \<in> set s then None
            else Some (host, port)))"

definition trim_brackets :: "string \<Rightarrow> string" where
  "trim_brackets s =
     (let b = (\<lambda>c. c = CHR ''['' \<or> c = CHR '']'') in rev (dropWhile b (rev (dropWhile b s))))"

definition allDigits :: "string \<Rightarrow> bool" where
  "allDigits s \<longleftrightarrow> s \<noteq> [] \<and> list_all is_digit s"

definition parseEndpointHost :: "string \<Rightarrow> string" where
  "parseEndpointHost endpoint =
     (let t = TrimSpace endpoint in
      if t = [] then []
      else (case SplitHostPort t of
              Some (host, _) \<Rightarrow> trim_brackets host
            | None \<Rightarrow>
                if HasPrefix t ''['' \<and> CHR '']'' \<in> set t \<and> length (before_char (CHR '']'') t) > 1
                then TrimSpace (tl (before_char (CHR '']'') t))
                else if CHR '':'' \<in> set t \<and> before_last (CHR '':'') t \<noteq> [] \<and> allDigits (TrimSpace (after_last (CHR '':'') t))
                then TrimSpace (before_last (CHR '':'') t)
                else t))"

definition parseCSVList :: "string \<Rightarrow> string list" where
  "parseCSVList v = filter (\<lambda>p. p \<noteq> []) (map TrimSpace (Split v (CHR '','')))"

definition stripInlineComment :: "string \<Rightarrow> string" where
  "stripInlineComment v = TrimSpace (cut_before (cut_before v '' #'') '' ;'')"

definition splitINIKeyValue :: "string \<Rightarrow> (string \<times> string) option" where
  "splitINIKeyValue line =
     (if CHR ''='' \<in> set line
      then (let key = TrimSpace (before_char (CHR ''='') line) in
            if key = [] then None else Some (key, TrimSpace (after_char (CHR ''='') line)))
      else (case Fields line of
              key # _ # _ \<Rightarrow> Some (key, TrimSpace (drop (length key) line))
            | _ \<Rightarrow> None))"

type_synonym multimap = "(string \<times> string list) list"

definition lookup_all :: "multimap \<Rightarrow> string \<Rightarrow> string list" where
  "lookup_all m k = (case map_of m k of None \<Rightarrow> [] | Some vs \<Rightarrow> vs)"

definition push :: "string \<Rightarrow> string \<Rightarrow> multimap \<Rightarrow> multimap" where
  "push k v m = AList.update k (lookup_all m k @ [v]) m"


section \<open>Configurations\<close>

record wg_interface =
  PrivateKey :: string
  Addresses :: "string list"
  DNS :: "string list"
  Table :: string
  PreUp :: "string list"
  PostUp :: "string list"
  PreDown :: "string list"
  PostDown :: "string list"
  if_Extras :: multimap

record wg_peer =
  PublicKey :: string
  PresharedKey :: string
  AllowedIPs :: "string list"
  Endpoint :: string
  PersistentKeepalive :: string
  peer_Extras :: multimap

record wg_config =
  Interface :: wg_interface
  Peers :: "wg_peer list"

definition new_interface :: wg_interface where
  "new_interface = \<lparr>PrivateKey = [], Addresses = [], DNS = [], Table = [], PreUp = [], PostUp = [], PreDown = [],
     PostDown = [], if_Extras = []\<rparr>"

definition new_peer :: wg_peer where
  "new_peer = \<lparr>PublicKey = [], PresharedKey = [], AllowedIPs = [], Endpoint = [], PersistentKeepalive = [], peer_Extras = []\<rparr>"

definition applyWireGuardInterfaceField :: "string \<Rightarrow> string \<Rightarrow> wg_interface \<Rightarrow> wg_interface" where
  "applyWireGuardInterfaceField key v i =
     (if key = ''privatekey'' then i\<lparr>PrivateKey := v\<rparr>
      else if key = ''address'' then i\<lparr>Addresses := Addresses i @ parseCSVList v\<rparr>
      else if key = ''dns'' then i\<lparr>DNS := DNS i @ parseCSVList v\<rparr>
      else if key = ''table'' then i\<lparr>Table := v\<rparr>
      else if key = ''preup'' then i\<lparr>PreUp := PreUp i @ [v]\<rparr>
      else if key = ''postup'' then i\<lparr>PostUp := PostUp i @ [v]\<rparr>
      else if key = ''predown'' then i\<lparr>PreDown := PreDown i @ [v]\<rparr>
      else if key = ''postdown'' then i\<lparr>PostDown := PostDown i @ [v]\<rparr>
      else i\<lparr>if_Extras := push key v (if_Extras i)\<rparr>)"

definition applyWireGuardPeerField :: "string \<Rightarrow> string \<Rightarrow> wg_peer \<Rightarrow> wg_peer" where
  "applyWireGuardPeerField key v p =
     (if key = ''publickey'' then p\<lparr>PublicKey := v\<rparr>
      else if key = ''presharedkey'' then p\<lparr>PresharedKey := v\<rparr>
      else if key = ''allowedips'' then p\<lparr>AllowedIPs := AllowedIPs p @ parseCSVList v\<rparr>
      else if key = ''endpoint'' then p\<lparr>Endpoint := v\<rparr>
      else if key = ''persistentkeepalive'' then p\<lparr>PersistentKeepalive := v\<rparr>
      else p\<lparr>peer_Extras := push key v (peer_Extras p)\<rparr>)"

record wg_state =
  ws_cfg :: wg_config
  ws_section :: string
  ws_inPeer :: bool

definition wg_start :: wg_state where
  "wg_start = \<lparr>ws_cfg = \<lparr>Interface = new_interface, Peers = []\<rparr>, ws_section = [], ws_inPeer = False\<rparr>"

datatype wg_line_error = UnsupportedSection string | InvalidKeyValue | KeyOutsidePeer | KeyOutsideSection

datatype wg_error = AtLine nat wg_line_error | WGScanError | PrivateKeyRequired | AddressRequired | PeerRequired
  | PeerPublicKeyRequired nat | PeerAllowedIPsRequired nat | PeerEndpointRequired nat | TableNotPositive

definition section_name :: "string \<Rightarrow> string option" where
  "section_name line =
     (if HasPrefix line ''['' \<and> HasSuffix line '']'' then Some (ToLower (TrimSpace (butlast (tl line)))) else None)"

definition enter_section :: "string \<Rightarrow> wg_state \<Rightarrow> wg_line_error + wg_state" where
  "enter_section name s =
     (if name = ''interface'' then Inr (s\<lparr>ws_section := name, ws_inPeer := False\<rparr>)
      else if name = ''peer''
      then Inr (s\<lparr>ws_cfg := (ws_cfg s)\<lparr>Peers := Peers (ws_cfg s) @ [new_peer]\<rparr>, ws_section := name, ws_inPeer := True\<rparr>)
      else Inl (UnsupportedSection name))"

definition set_field :: "string \<Rightarrow> string \<Rightarrow> wg_state \<Rightarrow> wg_line_error + wg_state" where
  "set_field key v s =
     (if ws_section s = ''interface''
      then Inr (s\<lparr>ws_cfg := (ws_cfg s)\<lparr>Interface := applyWireGuardInterfaceField key v (Interface (ws_cfg s))\<rparr>\<rparr>)
      else if ws_section s = ''peer''
      then (if \<not> ws_inPeer s then Inl KeyOutsidePeer
            else Inr (s\<lparr>ws_cfg := (ws_cfg s)\<lparr>Peers := butlast (Peers (ws_cfg s)) @
                     [applyWireGuardPeerField key v (last (Peers (ws_cfg s)))]\<rparr>\<rparr>))
      else Inl KeyOutsideSection)"

definition wg_line :: "string \<Rightarrow> wg_state \<Rightarrow> wg_line_error + wg_state" where
  "wg_line text s =
     (let line = TrimSpace text in
      if line = [] \<or> HasPrefix line ''#'' \<or> HasPrefix line '';'' then Inr s
      else (case section_name line of
              Some name \<Rightarrow> enter_section name s
            | None \<Rightarrow> (case splitINIKeyValue line of
                         None \<Rightarrow> Inl InvalidKeyValue
                       | Some (key, v) \<Rightarrow> set_field (ToLower key) (stripInlineComment v) s)))"

fun wg_lines :: "nat \<Rightarrow> string list \<Rightarrow> wg_state \<Rightarrow> wg_error + wg_state" where
  "wg_lines n [] s = Inr s"
| "wg_lines n (l # ls) s =
     (case wg_line l s of Inl e \<Rightarrow> Inl (AtLine (Suc n) e) | Inr s' \<Rightarrow> wg_lines (Suc n) ls s')"

fun check_peers :: "nat \<Rightarrow> wg_peer list \<Rightarrow> wg_error option" where
  "check_peers i [] = None"
| "check_peers i (p # ps) =
     (if PublicKey p = [] then Some (PeerPublicKeyRequired i)
      else if AllowedIPs p = [] then Some (PeerAllowedIPsRequired i)
      else if Endpoint p = [] then Some (PeerEndpointRequired i)
      else check_peers (Suc i) ps)"

definition route_table_of :: "wg_interface \<Rightarrow> wg_error + int" where
  "route_table_of i =
     (let t = TrimSpace (Table i) in
      if t = [] then Inr 0
      else (case Atoi t of None \<Rightarrow> Inl TableNotPositive | Some n \<Rightarrow> if n \<le> 0 then Inl TableNotPositive else Inr n))"

definition finish_config :: "wg_config \<Rightarrow> wg_error + wg_config \<times> int \<times> string" where
  "finish_config cfg =
     (if PrivateKey (Interface cfg) = [] then Inl PrivateKeyRequired
      else if Addresses (Interface cfg) = [] then Inl AddressRequired
      else if Peers cfg = [] then Inl PeerRequired
      else (case check_peers 1 (Peers cfg) of
              Some e \<Rightarrow> Inl e
            | None \<Rightarrow> bindE (route_table_of (Interface cfg)) (\<lambda>t. Inr (cfg, t, parseEndpointHost (Endpoint (hd (Peers cfg)))))))"

definition parseWireGuardConfig :: "string \<Rightarrow> wg_error + wg_config \<times> int \<times> string" where
  "parseWireGuardConfig raw =
     (case scan_big_lines raw of (ls, tooLong) \<Rightarrow>
       bindE (wg_lines 0 ls wg_start) (\<lambda>s. if tooLong then Inl WGScanError else finish_config (ws_cfg s)))"

definition ValidateWGConfig :: "string \<Rightarrow> wg_error option" where
  "ValidateWGConfig raw = (case parseWireGuardConfig raw of Inl e \<Rightarrow> Some e | Inr _ \<Rightarrow> None)"


section \<open>Rewriting for the router\<close>

definition containsLegacyUpDownScript :: "string \<Rightarrow> bool" where
  "containsLegacyUpDownScript v = Contains (ToLower v) ''split-vpn/vpn/updown.sh''"

record sanitize_state =
  sn_out :: "string list"
  sn_warnings :: "string list"
  sn_inInterface :: bool
  sn_seenTable :: bool
  sn_warned :: "string list"

definition injectTableIfNeeded :: "int \<Rightarrow> sanitize_state \<Rightarrow> sanitize_state" where
  "injectTableIfNeeded table s =
     (if sn_inInterface s \<and> \<not> sn_seenTable s then s\<lparr>sn_out := sn_out s @ [''Table = '' @ Itoa table], sn_seenTable := True\<rparr> else s)"

definition warn_once :: "string \<Rightarrow> string \<Rightarrow> sanitize_state \<Rightarrow> sanitize_state" where
  "warn_once key message s =
     (if key \<in> set (sn_warned s) then s
      else s\<lparr>sn_warnings := sn_warnings s @ [message], sn_warned := key # sn_warned s\<rparr>)"

definition keep_line :: "string \<Rightarrow> sanitize_state \<Rightarrow> sanitize_state" where
  "keep_line line s = s\<lparr>sn_out := sn_out s @ [line]\<rparr>"

definition is_hook :: "string \<Rightarrow> bool" where
  "is_hook key \<longleftrightarrow> key = ''preup'' \<or> key = ''postup'' \<or> key = ''predown'' \<or> key = ''postdown''"

definition sanitize_section :: "int \<Rightarrow> string \<Rightarrow> string \<Rightarrow> sanitize_state \<Rightarrow> sanitize_state" where
  "sanitize_section table name line s0 =
     (let s = injectTableIfNeeded table s0; inIf = (name = ''interface'')
      in keep_line line (s\<lparr>sn_inInterface := inIf, sn_seenTable := (if inIf then False else sn_seenTable s)\<rparr>))"

definition sanitize_line :: "int \<Rightarrow> bool \<Rightarrow> string \<Rightarrow> sanitize_state \<Rightarrow> sanitize_state" where
  "sanitize_line table dnsSupported line s =
     (let t = TrimSpace line in
      case section_name t of
        Some name \<Rightarrow> sanitize_section table name line s
      | None \<Rightarrow>
          (case (if sn_inInterface s then splitINIKeyValue t else None) of
             None \<Rightarrow> keep_line line s
           | Some (key, v) \<Rightarrow>
               (let lowerKey = ToLower (TrimSpace key);
                    s1 = (if lowerKey = ''table'' then s\<lparr>sn_seenTable := True\<rparr> else s)
                in if lowerKey = ''dns'' \<and> \<not> dnsSupported
                   then warn_once ''dns'' ''Removed WireGuard DNS directive because resolvconf is unavailable on this system'' s1
                   else if is_hook lowerKey \<and> containsLegacyUpDownScript v
                   then warn_once lowerKey (''Removed legacy peacey/split-vpn '' @ key @ '' hook from WireGuard config'') s1
                   else keep_line line s1)))"

definition sanitize_start :: sanitize_state where
  "sanitize_start = \<lparr>sn_out = [], sn_warnings = [], sn_inInterface = False, sn_seenTable = False, sn_warned = []\<rparr>"

definition sanitized :: "int \<Rightarrow> bool \<Rightarrow> string \<Rightarrow> sanitize_state" where
  "sanitized table dnsSupported raw =
     injectTableIfNeeded table (fold (sanitize_line table dnsSupported) (Split raw (CHR 0x0A)) sanitize_start)"

definition with_final_newline :: "string \<Rightarrow> string" where
  "with_final_newline s = (if HasSuffix s [CHR 0x0A] then s else s @ [CHR 0x0A])"

definition sanitizeWireGuardConfig :: "string \<Rightarrow> int \<Rightarrow> bool \<Rightarrow> wg_error + string \<times> string list" where
  "sanitizeWireGuardConfig raw table dnsSupported =
     (let s = sanitized table dnsSupported raw; joined = with_final_newline (Join (sn_out s) [CHR 0x0A])
      in case ValidateWGConfig joined of Some e \<Rightarrow> Inl e | None \<Rightarrow> Inr (joined, sn_warnings s))"


section \<open>The parser as a run over lines\<close>

text \<open>Without line numbers, success of the loop is a run of a partial function.\<close>

fun run_lines :: "string list \<Rightarrow> wg_state \<Rightarrow> wg_state option" where
  "run_lines [] s = Some s"
| "run_lines (l # ls) s = (case wg_line l s of Inl _ \<Rightarrow> None | Inr s' \<Rightarrow> run_lines ls s')"

lemma wg_lines_Inr: "wg_lines n ls s = Inr s' \<longleftrightarrow> run_lines ls s = Some s'"
  by (induction n ls s rule: wg_lines.induct) (auto split: sum.splits)

lemma run_lines_append:
  "run_lines (xs @ ys) s = (case run_lines xs s of None \<Rightarrow> None | Some s' \<Rightarrow> run_lines ys s')"
  by (induction xs s rule: run_lines.induct) (auto split: sum.splits)

lemma run_lines_snoc:
  "run_lines (xs @ [l]) s = Some s2 \<longleftrightarrow> (\<exists>s1. run_lines xs s = Some s1 \<and> wg_line l s1 = Inr s2)"
  by (auto simp: run_lines_append split: option.splits sum.splits)

lemma TrimSpace_snoc_space: "is_space c \<Longrightarrow> TrimSpace (s @ [c]) = TrimSpace s"
proof (cases "list_all is_space s")
  case True
  moreover assume "is_space c"
  ultimately have "list_all is_space (s @ [c])" by simp
  with True show ?thesis by (metis TrimSpace_Nil_iff)
next
  case False
  moreover assume "is_space c"
  moreover from False have "dropWhile is_space (s @ [c]) = dropWhile is_space s @ [c]"
    by (auto simp: list_all_iff dropWhile_append1)
  ultimately show ?thesis by (simp add: TrimSpace_def TrimLeftSpace_def)
qed

lemma TrimSpace_drop_cr [simp]: "TrimSpace (drop_cr l) = TrimSpace l"
proof (cases "l \<noteq> [] \<and> last l = CHR 0x0D")
  case True
  then have "l = butlast l @ [CHR 0x0D]" by (metis append_butlast_last_id)
  moreover have "is_space (CHR 0x0D)" by (simp add: is_space_def)
  ultimately have "TrimSpace l = TrimSpace (butlast l)" using TrimSpace_snoc_space by metis
  with True show ?thesis by (simp add: drop_cr_def)
qed (auto simp: drop_cr_def)

lemma run_lines_drop_cr [simp]: "run_lines (map drop_cr ls) s = run_lines ls s"
  by (induction ls s rule: run_lines.induct) (auto simp: wg_line_def Let_def split: sum.splits)

lemma wg_line_Nil [simp]: "wg_line [] s = Inr s"
  by (simp add: wg_line_def)

lemma Split_last_Nil:
  assumes "last (Split x c) = []"
  obtains bs where "Split x c = bs @ [[]]"
  using assms append_butlast_last_id [of "Split x c"] by (metis Split_def split_by_nonempty)

lemma run_content_lines: "run_lines (content_lines x) s = run_lines (Split x (CHR 0x0A)) s"
proof (cases "last (Split x (CHR 0x0A)) = []")
  case True
  then obtain bs where "Split x (CHR 0x0A) = bs @ [[]]" by (rule Split_last_Nil)
  then show ?thesis by (simp add: content_lines_def run_lines_append split: option.splits)
qed (simp add: content_lines_def)

definition short_line :: "string \<Rightarrow> bool" where
  "short_line l \<longleftrightarrow> int (length l) < 1048576"

lemma content_short: "list_all short_line (content_lines x) = list_all short_line (Split x (CHR 0x0A))"
proof (cases "last (Split x (CHR 0x0A)) = []")
  case True
  then obtain bs where "Split x (CHR 0x0A) = bs @ [[]]" by (rule Split_last_Nil)
  then show ?thesis by (simp add: content_lines_def short_line_def)
qed (simp add: content_lines_def)

lemma takeWhile_shorter: "length (takeWhile P xs) < length xs \<longleftrightarrow> \<not> list_all P xs"
  by (induction xs) auto

lemma parse_iff:
  "parseWireGuardConfig raw = Inr r \<longleftrightarrow>
     list_all short_line (Split raw (CHR 0x0A)) \<and>
     (\<exists>s. run_lines (Split raw (CHR 0x0A)) wg_start = Some s \<and> finish_config (ws_cfg s) = Inr r)"
proof -
  let ?ls = "content_lines raw" and ?ok = "takeWhile (\<lambda>l. int (length l) < 1048576) (content_lines raw)"
  have short: "length ?ok < length ?ls \<longleftrightarrow> \<not> list_all short_line ?ls"
    by (simp add: takeWhile_shorter short_line_def [abs_def])
  show ?thesis
  proof (cases "list_all short_line ?ls")
    case True
    then have "?ok = ?ls" by (simp add: list_all_iff short_line_def)
    with True short have "scan_big_lines raw = (map drop_cr ?ls, False)"
      by (simp add: scan_big_lines_def Let_def del: takeWhile_eq_all_conv)
    with True show ?thesis
      by (simp add: parseWireGuardConfig_def bindE_Inr wg_lines_Inr run_content_lines content_short [symmetric])
  next
    case False
    with short have "snd (scan_big_lines raw)" by (simp add: scan_big_lines_def Let_def)
    with False show ?thesis
      by (auto simp: parseWireGuardConfig_def bindE_Inr content_short [symmetric] split: prod.splits)
  qed
qed


section \<open>The rewritten text against the given one\<close>

lemma Contains_iff: "Contains s sub \<longleftrightarrow> (\<exists>a b. s = a @ sub @ b)"
proof (induction s)
  case Nil
  then show ?case by simp
next
  case (Cons c s)
  have "(\<exists>a b. c # s = a @ sub @ b) \<longleftrightarrow> HasPrefix (c # s) sub \<or> (\<exists>a b. s = a @ sub @ b)"
    by (auto simp: HasPrefix_iff Cons_eq_append_conv)
  with Cons show ?case by simp
qed

lemma Contains_part: "Contains t sub \<Longrightarrow> Contains (a @ t @ b) sub"
  unfolding Contains_iff by (metis append.assoc)

lemma cut_before_part: "\<exists>b. s = cut_before s sub @ b"
  by (induction s sub rule: cut_before.induct) auto

lemma stripInlineComment_part: "\<exists>a b. v = a @ stripInlineComment v @ b"
proof -
  let ?x = "cut_before v '' #''" and ?y = "cut_before (cut_before v '' #'') '' ;''"
  obtain b1 where "v = ?x @ b1" using cut_before_part by blast
  moreover obtain b2 where "?x = ?y @ b2" using cut_before_part by blast
  moreover obtain a c where "?y = a @ stripInlineComment v @ c"
    unfolding stripInlineComment_def using TrimSpace_split [of ?y] by blast
  ultimately have "v = a @ stripInlineComment v @ (c @ b2 @ b1)" by (metis append.assoc)
  then show ?thesis by blast
qed

lemma legacy_stripped: "containsLegacyUpDownScript (stripInlineComment v) \<Longrightarrow> containsLegacyUpDownScript v"
  using stripInlineComment_part [of v] Contains_part
  unfolding containsLegacyUpDownScript_def by (metis ToLower_append)

lemma Fields_first: "Fields line = k # ws \<Longrightarrow> list_all (\<lambda>c. \<not> is_space c) k"
  using FieldsFunc_words [of k is_space line] by (simp add: Fields_def)

lemma splitINI_key: "splitINIKeyValue line = Some (k, v) \<Longrightarrow> TrimSpace k = k"
  by (auto simp: splitINIKeyValue_def Let_def split: if_splits list.splits
      dest!: Fields_first intro: TrimSpace_id no_space_trimmed)

lemma TrimSpace_head: "\<not> is_space c \<Longrightarrow> \<exists>t. TrimSpace (c # s) = c # t"
proof -
  assume c: "\<not> is_space c"
  have "TrimSpace (c # s) = rev (dropWhile is_space (rev s @ [c]))"
    using c by (simp add: TrimSpace_def TrimLeftSpace_def)
  moreover obtain t where "dropWhile is_space (rev s @ [c]) = t @ [c]"
    using c by (cases "\<forall>x \<in> set s. is_space x") (auto simp: dropWhile_append)
  ultimately show ?thesis by simp
qed

lemma splitINI_head:
  assumes "splitINIKeyValue (c # line) = Some (k, v)" "\<not> is_space c"
  shows "\<exists>t. k = c # t"
proof (cases "CHR ''='' \<in> set (c # line)")
  case True
  then have "c \<noteq> CHR ''=''" using assms by (auto simp: splitINIKeyValue_def before_char_def)
  with True assms show ?thesis
    using TrimSpace_head [of c] by (auto simp: splitINIKeyValue_def Let_def before_char_def split: if_splits)
next
  case False
  obtain w ws where "split_by is_space line = w # ws" by (meson neq_Nil_conv split_by_nonempty)
  then have "Fields (c # line) = (c # w) # filter (\<lambda>w. w \<noteq> []) ws"
    using assms(2) by (simp add: Fields_def FieldsFunc_def)
  with False assms show ?thesis by (auto simp: splitINIKeyValue_def split: list.splits)
qed

lemma cut_before_digits: "list_all is_digit s \<Longrightarrow> cut_before s (CHR '' '' # x) = s"
  by (induction s) (auto simp: HasPrefix_def is_digit_def)

lemma injected_line:
  assumes "ws_section s = ''interface''" "0 \<le> t"
  shows "wg_line (''Table = '' @ Itoa t) s =
    Inr (s\<lparr>ws_cfg := (ws_cfg s)\<lparr>Interface := (Interface (ws_cfg s))\<lparr>Table := Itoa t\<rparr>\<rparr>\<rparr>)"
proof -
  have d: "all_digits (Itoa t)" using assms(2) by (rule Itoa_nonneg_digits)
  then have ne: "Itoa t \<noteq> []" "list_all is_digit (Itoa t)" by (auto simp: all_digits_def)
  have ns: "\<not> is_space (last (Itoa t))" using ne last_in_set [of "Itoa t"] by (auto simp: list_all_iff char_class_defs simp del: last_in_set dest!: bspec)
  let ?l = "''Table = '' @ Itoa t"
  have trim: "TrimSpace ?l = ?l" using ne ns by (intro TrimSpace_id) (auto simp: trimmed_def is_space_def)
  have split: "splitINIKeyValue ?l = Some (''Table'', Itoa t)"
    using TrimSpace_id [of "Itoa t"] all_digits_trimmed [OF d]
    by (simp add: splitINIKeyValue_def before_char_def after_char_def TrimSpace_def TrimLeftSpace_def is_space_def)
  have "cut_before (Itoa t) '' #'' = Itoa t" "cut_before (Itoa t) '' ;'' = Itoa t"
    using cut_before_digits [OF ne(2)] by simp_all
  then have strip: "stripInlineComment (Itoa t) = Itoa t"
    by (simp add: stripInlineComment_def all_digits_trimmed [OF d])
  moreover have "ToLower ''Table'' = ''table''" by code_simp
  ultimately show ?thesis
    using assms(1) trim split
    by (simp add: wg_line_def section_name_def HasPrefix_def set_field_def applyWireGuardInterfaceField_def)
qed


text \<open>
  \<open>tracks\<close> relates the parser on the given text (state \<open>s\<close>), the rewriting (state \<open>q\<close>) and the parser on the text written so far
  (state \<open>s'\<close>). Its parts are named, and each line keeps them.
\<close>

definition clean_hooks :: "string list \<Rightarrow> string list \<Rightarrow> bool" where
  "clean_hooks hs hs' \<longleftrightarrow> subseq hs' hs \<and> list_all (\<lambda>v. \<not> containsLegacyUpDownScript v) hs'"

definition same_hooks :: "wg_interface \<Rightarrow> wg_interface \<Rightarrow> bool" where
  "same_hooks i i' \<longleftrightarrow> PreUp i' = PreUp i \<and> PostUp i' = PostUp i \<and> PreDown i' = PreDown i \<and> PostDown i' = PostDown i"

definition same_interface :: "bool \<Rightarrow> wg_interface \<Rightarrow> wg_interface \<Rightarrow> bool" where
  "same_interface dns i i' \<longleftrightarrow>
     PrivateKey i' = PrivateKey i \<and> Addresses i' = Addresses i \<and> if_Extras i' = if_Extras i \<and>
     DNS i' = (if dns then DNS i else []) \<and>
     clean_hooks (PreUp i) (PreUp i') \<and> clean_hooks (PostUp i) (PostUp i') \<and>
     clean_hooks (PreDown i) (PreDown i') \<and> clean_hooks (PostDown i) (PostDown i')"

definition table_tracked :: "int \<Rightarrow> sanitize_state \<Rightarrow> wg_interface \<Rightarrow> wg_interface \<Rightarrow> bool" where
  "table_tracked t q i i' \<longleftrightarrow> (Table i' = Table i \<or> Table i' = Itoa t) \<and>
     (if sn_inInterface q then sn_seenTable q \<longrightarrow> Table i' \<noteq> [] else Table i' \<noteq> [] \<or> i' = new_interface)"

definition silent_same :: "sanitize_state \<Rightarrow> wg_interface \<Rightarrow> wg_interface \<Rightarrow> bool" where
  "silent_same q i i' \<longleftrightarrow> (sn_warned q \<noteq> [] \<longrightarrow> sn_warnings q \<noteq> []) \<and>
     (sn_warnings q = [] \<longrightarrow> same_hooks i i' \<and> DNS i' = DNS i)"

definition same_frame :: "wg_state \<Rightarrow> sanitize_state \<Rightarrow> wg_state \<Rightarrow> bool" where
  "same_frame s q s' \<longleftrightarrow> ws_section s' = ws_section s \<and> ws_inPeer s' = ws_inPeer s \<and>
     Peers (ws_cfg s') = Peers (ws_cfg s) \<and> (sn_inInterface q \<longleftrightarrow> ws_section s = ''interface'')"

definition tracks :: "int \<Rightarrow> bool \<Rightarrow> wg_state \<Rightarrow> sanitize_state \<Rightarrow> wg_state \<Rightarrow> bool" where
  "tracks t dns s q s' \<longleftrightarrow> run_lines (sn_out q) wg_start = Some s' \<and> same_frame s q s' \<and>
     same_interface dns (Interface (ws_cfg s)) (Interface (ws_cfg s')) \<and>
     table_tracked t q (Interface (ws_cfg s)) (Interface (ws_cfg s')) \<and>
     silent_same q (Interface (ws_cfg s)) (Interface (ws_cfg s'))"

lemmas tracks_defs = tracks_def same_frame_def same_interface_def table_tracked_def silent_same_def same_hooks_def

lemma clean_hooks_Nil [simp]: "clean_hooks [] []"
  by (simp add: clean_hooks_def)

lemma clean_hooks_keep:
  "clean_hooks hs hs' \<Longrightarrow> \<not> containsLegacyUpDownScript v \<Longrightarrow> clean_hooks (hs @ [v]) (hs' @ [v])"
  by (auto simp: clean_hooks_def)

lemma clean_hooks_drop: "clean_hooks hs hs' \<Longrightarrow> clean_hooks (hs @ [v]) hs'"
  by (auto simp: clean_hooks_def intro: subseq_order.trans)

lemma tracks_inject:
  assumes "tracks t dns s q s'" "0 < t"
  shows "\<exists>s'. tracks t dns s (injectTableIfNeeded t q) s' \<and>
    (Table (Interface (ws_cfg s')) \<noteq> [] \<or> Interface (ws_cfg s') = new_interface)"
proof (cases "sn_inInterface q \<and> \<not> sn_seenTable q")
  case True
  with assms have sec: "ws_section s' = ''interface''" by (simp add: tracks_defs)
  have ne: "Itoa t \<noteq> []" using Itoa_nonneg_digits [of t] assms(2) by (auto simp: all_digits_def)
  let ?s1 = "s'\<lparr>ws_cfg := (ws_cfg s')\<lparr>Interface := (Interface (ws_cfg s'))\<lparr>Table := Itoa t\<rparr>\<rparr>\<rparr>"
  have "run_lines (sn_out q @ [''Table = '' @ Itoa t]) wg_start = Some ?s1"
    unfolding run_lines_snoc using assms injected_line [OF sec, of t] by (auto simp: tracks_def)
  then have "tracks t dns s (injectTableIfNeeded t q) ?s1"
    using assms True ne by (auto simp: tracks_defs injectTableIfNeeded_def)
  with ne show ?thesis by (intro exI [of _ ?s1]) simp
next
  case False
  with assms show ?thesis by (auto simp: tracks_defs injectTableIfNeeded_def)
qed


definition no_blank_table :: "string \<Rightarrow> bool" where
  "no_blank_table line =
     (case splitINIKeyValue (TrimSpace line) of
        None \<Rightarrow> True
      | Some (key, v) \<Rightarrow> ToLower key = ''table'' \<longrightarrow> stripInlineComment v \<noteq> [])"

lemma enter_section_tracks:
  assumes "same_frame s q s'" "enter_section name s = Inr s1"
  shows "\<exists>s1'. enter_section name s' = Inr s1' \<and> ws_section s1' = ws_section s1 \<and> ws_inPeer s1' = ws_inPeer s1 \<and>
    Peers (ws_cfg s1') = Peers (ws_cfg s1) \<and> ws_section s1 = name \<and>
    Interface (ws_cfg s1) = Interface (ws_cfg s) \<and> Interface (ws_cfg s1') = Interface (ws_cfg s')"
  using assms by (auto simp: enter_section_def same_frame_def split: if_splits)

lemma track_section:
  assumes tr: "tracks t dns s q s'" and t: "0 < t" and sec: "section_name (TrimSpace l) = Some name"
    and step: "enter_section name s = Inr s1"
  shows "\<exists>s1'. tracks t dns s1 (sanitize_section t name l q) s1'"
proof -
  let ?q = "injectTableIfNeeded t q"
  obtain s2 where s2: "tracks t dns s ?q s2" "Table (Interface (ws_cfg s2)) \<noteq> [] \<or> Interface (ws_cfg s2) = new_interface"
    using tracks_inject [OF tr t] by blast
  then have "same_frame s ?q s2" by (simp add: tracks_def)
  from enter_section_tracks [OF this step] obtain s1' where e: "enter_section name s2 = Inr s1'"
    "ws_section s1' = ws_section s1" "ws_inPeer s1' = ws_inPeer s1" "Peers (ws_cfg s1') = Peers (ws_cfg s1)" "ws_section s1 = name"
    "Interface (ws_cfg s1) = Interface (ws_cfg s)" "Interface (ws_cfg s1') = Interface (ws_cfg s2)" by blast
  have "TrimSpace l \<noteq> []" "\<not> HasPrefix (TrimSpace l) ''#''" "\<not> HasPrefix (TrimSpace l) '';''"
    using sec by (auto simp: section_name_def HasPrefix_iff split: if_splits)
  then have "wg_line l s2 = Inr s1'" using sec e(1) by (simp add: wg_line_def)
  then have run: "run_lines (sn_out ?q @ [l]) wg_start = Some s1'"
    unfolding run_lines_snoc using s2(1) by (auto simp: tracks_def)
  have "tracks t dns s1 (sanitize_section t name l q) s1'"
    unfolding tracks_def same_frame_def
    using run e s2 by (auto simp: sanitize_section_def Let_def keep_line_def tracks_def table_tracked_def silent_same_def)
  then show ?thesis ..
qed

definition kept_field :: "bool \<Rightarrow> string \<Rightarrow> string \<Rightarrow> bool" where
  "kept_field dns key v \<longleftrightarrow> \<not> (key = ''dns'' \<and> \<not> dns) \<and> \<not> (is_hook key \<and> containsLegacyUpDownScript v)"

lemma hook_cases:
  assumes "is_hook key"
  obtains "key = ''preup''" | "key = ''postup''" | "key = ''predown''" | "key = ''postdown''"
  using assms by (auto simp: is_hook_def)

lemma plain_field_same:
  "same_interface dns i i' \<Longrightarrow> \<not> is_hook key \<Longrightarrow> key \<noteq> ''dns'' \<Longrightarrow>
   same_interface dns (applyWireGuardInterfaceField key v i) (applyWireGuardInterfaceField key v i')"
  unfolding applyWireGuardInterfaceField_def is_hook_def same_interface_def by simp

lemma kept_interface:
  assumes same: "same_interface dns i i'" and kept: "kept_field dns key v"
  shows "same_interface dns (applyWireGuardInterfaceField key (stripInlineComment v) i) (applyWireGuardInterfaceField key (stripInlineComment v) i')"
proof (cases "is_hook key")
  case True
  then have "\<not> containsLegacyUpDownScript (stripInlineComment v)"
    using kept legacy_stripped by (auto simp: kept_field_def)
  with True same show ?thesis
    by (cases rule: hook_cases) (simp_all add: applyWireGuardInterfaceField_def same_interface_def clean_hooks_keep)
next
  case False
  show ?thesis
  proof (cases "key = ''dns''")
    case True
    with kept have dns by (simp add: kept_field_def)
    with True same show ?thesis by (simp add: applyWireGuardInterfaceField_def same_interface_def)
  qed (rule plain_field_same [OF same False])
qed

lemma kept_interface_silent:
  "same_hooks i i' \<and> DNS i' = DNS i \<Longrightarrow>
   same_hooks (applyWireGuardInterfaceField key v i) (applyWireGuardInterfaceField key v i') \<and>
   DNS (applyWireGuardInterfaceField key v i') = DNS (applyWireGuardInterfaceField key v i)"
  unfolding applyWireGuardInterfaceField_def same_hooks_def by simp

lemma removed_interface:
  assumes same: "same_interface dns i i'" and gone: "\<not> kept_field dns key v"
  shows "same_interface dns (applyWireGuardInterfaceField key u i) i' \<and> Table (applyWireGuardInterfaceField key u i) = Table i"
proof (cases "is_hook key")
  case True
  then show ?thesis
    using same by (cases rule: hook_cases) (simp_all add: applyWireGuardInterfaceField_def same_interface_def clean_hooks_drop)
next
  case False
  with gone have "key = ''dns''" "\<not> dns" by (auto simp: kept_field_def)
  with same show ?thesis by (simp add: applyWireGuardInterfaceField_def same_interface_def)
qed

lemma Table_of_field:
  "Table (applyWireGuardInterfaceField key v i) = (if key = ''table'' then v else Table i)"
  by (simp add: applyWireGuardInterfaceField_def)

lemma warn_once_warns: "(sn_warned q \<noteq> [] \<longrightarrow> sn_warnings q \<noteq> []) \<Longrightarrow> sn_warnings (warn_once k m q) \<noteq> []"
  by (auto simp: warn_once_def)

lemma warn_once_keeps [simp]:
  "sn_out (warn_once k m q) = sn_out q" "sn_inInterface (warn_once k m q) = sn_inInterface q"
  "sn_seenTable (warn_once k m q) = sn_seenTable q"
  by (auto simp: warn_once_def)

text \<open>A line that both parsers read.\<close>

lemma track_kept:
  assumes tr: "tracks t dns s q s'" and line: "wg_line l s' = Inr s1'"
    and frame: "same_frame s1 (q\<lparr>sn_seenTable := b\<rparr>) s1'"
    and iface: "same_interface dns (Interface (ws_cfg s1)) (Interface (ws_cfg s1'))"
    and tab: "table_tracked t (q\<lparr>sn_seenTable := b\<rparr>) (Interface (ws_cfg s1)) (Interface (ws_cfg s1'))"
    and silent: "silent_same q (Interface (ws_cfg s1)) (Interface (ws_cfg s1'))"
  shows "tracks t dns s1 (keep_line l (q\<lparr>sn_seenTable := b\<rparr>)) s1'"
proof -
  have "run_lines (sn_out q @ [l]) wg_start = Some s1'"
    unfolding run_lines_snoc using tr line by (auto simp: tracks_def)
  then show ?thesis
    using frame iface tab silent
    by (auto simp: tracks_def keep_line_def same_frame_def table_tracked_def silent_same_def)
qed

lemma track_interface_field:
  assumes tr: "tracks t dns s q s'" and sec: "ws_section s = ''interface''"
    and nosec: "section_name (TrimSpace l) = None" and kv: "splitINIKeyValue (TrimSpace l) = Some (key, v)"
    and line: "\<And>x. wg_line l x = set_field (ToLower key) (stripInlineComment v) x"
    and step: "set_field (ToLower key) (stripInlineComment v) s = Inr s1"
    and blank: "ToLower key = ''table'' \<Longrightarrow> stripInlineComment v \<noteq> []"
  shows "\<exists>s1'. tracks t dns s1 (sanitize_line t dns l q) s1'"
proof -
  let ?k = "ToLower key" and ?v = "stripInlineComment v"
  let ?i = "Interface (ws_cfg s)" and ?i' = "Interface (ws_cfg s')"
  let ?q1 = "if ?k = ''table'' then q\<lparr>sn_seenTable := True\<rparr> else q"
  have inI: "sn_inInterface q" and sec': "ws_section s' = ''interface''" using tr sec by (simp_all add: tracks_defs)
  have key: "ToLower (TrimSpace key) = ?k" using splitINI_key [OF kv] by simp
  have s1: "s1 = s\<lparr>ws_cfg := (ws_cfg s)\<lparr>Interface := applyWireGuardInterfaceField ?k ?v ?i\<rparr>\<rparr>"
    using step sec by (simp add: set_field_def)
  have rel: "same_interface dns ?i ?i'" "silent_same q ?i ?i'" "table_tracked t q ?i ?i'" "same_frame s q s'"
    using tr by (simp_all add: tracks_def)
  show ?thesis
  proof (cases "kept_field dns ?k v")
    case True
    let ?s1' = "s'\<lparr>ws_cfg := (ws_cfg s')\<lparr>Interface := applyWireGuardInterfaceField ?k ?v ?i'\<rparr>\<rparr>"
    let ?b = "?k = ''table'' \<or> sn_seenTable q"
    have q1: "?q1 = q\<lparr>sn_seenTable := ?b\<rparr>" by simp
    have san: "sanitize_line t dns l q = keep_line l (q\<lparr>sn_seenTable := ?b\<rparr>)"
      using True nosec kv inI key by (auto simp: sanitize_line_def kept_field_def Let_def)
    have line': "wg_line l s' = Inr ?s1'" using line [of s'] sec' by (simp add: set_field_def)
    have frame: "same_frame s1 (q\<lparr>sn_seenTable := ?b\<rparr>) ?s1'" using rel(4) s1 by (simp add: same_frame_def)
    have tab: "table_tracked t (q\<lparr>sn_seenTable := ?b\<rparr>) (Interface (ws_cfg s1)) (Interface (ws_cfg ?s1'))"
      using rel(3) s1 blank inI by (auto simp: table_tracked_def Table_of_field new_interface_def)
    have sil: "silent_same q (Interface (ws_cfg s1)) (Interface (ws_cfg ?s1'))"
      using rel(2) s1 kept_interface_silent [of ?i ?i' ?k ?v] by (simp add: silent_same_def)
    have ifc: "same_interface dns (Interface (ws_cfg s1)) (Interface (ws_cfg ?s1'))"
      using kept_interface [OF rel(1) True] s1 by simp
    show ?thesis unfolding san using track_kept [OF tr line' frame ifc tab sil] by (rule exI)
  next
    case False
    then have nt: "?k \<noteq> ''table''" by (auto simp: kept_field_def is_hook_def)
    have "\<exists>m. sanitize_line t dns l q = warn_once ?k m q"
    proof (cases "?k = ''dns'' \<and> \<not> dns")
      case True
      then show ?thesis using nosec kv inI key nt by (auto simp: sanitize_line_def Let_def)
    next
      case no_dns: False
      with False have "is_hook ?k \<and> containsLegacyUpDownScript v" by (auto simp: kept_field_def)
      with no_dns show ?thesis using nosec kv inI key nt by (auto simp: sanitize_line_def Let_def)
    qed
    then obtain m where san: "sanitize_line t dns l q = warn_once ?k m q" ..
    have "tracks t dns s1 (warn_once ?k m q) s'"
      using tr removed_interface [OF rel(1) False, of ?v] rel s1 warn_once_warns [of q ?k m] sec inI
      by (simp add: tracks_def same_frame_def table_tracked_def silent_same_def)
    then show ?thesis unfolding san by (rule exI)
  qed
qed


lemma track_peer_field:
  assumes tr: "tracks t dns s q s'" and sec: "ws_section s \<noteq> ''interface''"
    and nosec: "section_name (TrimSpace l) = None"
    and line: "\<And>x. wg_line l x = set_field key v x" and step: "set_field key v s = Inr s1"
  shows "\<exists>s1'. tracks t dns s1 (sanitize_line t dns l q) s1'"
proof -
  have f: "same_frame s q s'" using tr by (simp add: tracks_def)
  have san: "sanitize_line t dns l q = keep_line l (q\<lparr>sn_seenTable := sn_seenTable q\<rparr>)"
    using nosec f sec by (simp add: sanitize_line_def same_frame_def)
  obtain s1' where s1': "set_field key v s' = Inr s1'" "same_frame s1 q s1'"
    "Interface (ws_cfg s1) = Interface (ws_cfg s)" "Interface (ws_cfg s1') = Interface (ws_cfg s')"
    using f sec step by (auto simp: set_field_def same_frame_def split: if_splits)
  have "tracks t dns s1 (keep_line l (q\<lparr>sn_seenTable := sn_seenTable q\<rparr>)) s1'"
    using tr s1' line by (intro track_kept [OF tr]) (simp_all add: tracks_def)
  then show ?thesis unfolding san by (rule exI)
qed

lemma track_skipped:
  assumes tr: "tracks t dns s q s'"
    and skip: "TrimSpace l = [] \<or> HasPrefix (TrimSpace l) ''#'' \<or> HasPrefix (TrimSpace l) '';''"
  shows "tracks t dns s (sanitize_line t dns l q) s'"
proof -
  have nosec: "section_name (TrimSpace l) = None" using skip by (auto simp: section_name_def HasPrefix_iff)
  have key: "hd k = CHR ''#'' \<or> hd k = CHR '';''" if "splitINIKeyValue (TrimSpace l) = Some (k, v)" for k v
  proof (cases "TrimSpace l")
    case Nil
    with that show ?thesis by (simp add: splitINIKeyValue_def Fields_def FieldsFunc_def)
  next
    case (Cons c cs)
    then have c: "c = CHR ''#'' \<or> c = CHR '';''" using skip by (auto simp: HasPrefix_iff)
    then have "\<not> is_space c" by (auto simp: is_space_def)
    with Cons that c show ?thesis using splitINI_head by fastforce
  qed
  have "kept_field dns (ToLower k) v \<and> ToLower k \<noteq> ''table''" if "splitINIKeyValue (TrimSpace l) = Some (k, v)" for k v
  proof -
    from key [OF that] have "ToLower k = [] \<or> hd (ToLower k) = CHR ''#'' \<or> hd (ToLower k) = CHR '';''"
      by (cases k) (auto simp: ToLower_def lower_char_id is_upper_def)
    moreover have "ToLower [] = []" by simp
    ultimately show ?thesis by (auto simp: kept_field_def is_hook_def simp del: ToLower_Nil_iff)
  qed
  then have san: "sanitize_line t dns l q = keep_line l (q\<lparr>sn_seenTable := sn_seenTable q\<rparr>)"
    using nosec by (auto simp: sanitize_line_def Let_def kept_field_def splitINI_key split: option.splits prod.splits)
  have "wg_line l s' = Inr s'" using skip by (simp add: wg_line_def)
  then show ?thesis
    unfolding san using tr by (intro track_kept [OF tr]) (simp_all add: tracks_def)
qed

lemma track_line:
  assumes tr: "tracks t dns s q s'" and t: "0 < t" and step: "wg_line l s = Inr s1" and blank: "no_blank_table l"
  shows "\<exists>s1'. tracks t dns s1 (sanitize_line t dns l q) s1'"
proof (cases "TrimSpace l = [] \<or> HasPrefix (TrimSpace l) ''#'' \<or> HasPrefix (TrimSpace l) '';''")
  case True
  moreover from this step have "s1 = s" by (simp add: wg_line_def)
  ultimately show ?thesis using track_skipped [OF tr] by blast
next
  case used: False
  show ?thesis
  proof (cases "section_name (TrimSpace l)")
    case (Some name)
    then have "enter_section name s = Inr s1" using step used by (simp add: wg_line_def)
    moreover have "sanitize_line t dns l q = sanitize_section t name l q" using Some by (simp add: sanitize_line_def)
    ultimately show ?thesis using track_section [OF tr t Some] by simp
  next
    case None
    then obtain key v where kv: "splitINIKeyValue (TrimSpace l) = Some (key, v)"
      using step used by (auto simp: wg_line_def split: option.splits)
    have line: "wg_line l x = set_field (ToLower key) (stripInlineComment v) x" for x
      using None used kv by (simp add: wg_line_def)
    have st: "set_field (ToLower key) (stripInlineComment v) s = Inr s1" using step line by simp
    have b: "stripInlineComment v \<noteq> []" if "ToLower key = ''table''"
      using blank that kv by (simp add: no_blank_table_def)
    show ?thesis
    proof (cases "ws_section s = ''interface''")
      case True
      show ?thesis by (rule track_interface_field [OF tr True None kv line st b])
    qed (rule track_peer_field [OF tr _ None line st])
  qed
qed

lemma track_lines:
  "tracks t dns s q s' \<Longrightarrow> 0 < t \<Longrightarrow> run_lines ls s = Some s1 \<Longrightarrow> list_all no_blank_table ls \<Longrightarrow>
   \<exists>s1'. tracks t dns s1 (fold (sanitize_line t dns) ls q) s1'"
proof (induction ls arbitrary: s q s')
  case (Cons l ls)
  then obtain s2 where s2: "wg_line l s = Inr s2" "run_lines ls s2 = Some s1" by (auto split: sum.splits)
  with Cons.prems obtain s2' where "tracks t dns s2 (sanitize_line t dns l q) s2'" using track_line by fastforce
  with Cons s2 show ?case by simp
qed auto

lemma tracks_start: "tracks t dns wg_start sanitize_start wg_start"
  by (simp add: tracks_defs wg_start_def sanitize_start_def new_interface_def)


lemma sanitize_line_out:
  "set (sn_out (sanitize_line t dns l q)) \<subseteq> set (sn_out q) \<union> {l, ''Table = '' @ Itoa t}"
  by (auto simp: sanitize_line_def sanitize_section_def injectTableIfNeeded_def keep_line_def Let_def
      split: option.splits prod.splits if_splits)

lemma sanitized_out: "set (sn_out (sanitized t dns raw)) \<subseteq> set (Split raw (CHR 0x0A)) \<union> {''Table = '' @ Itoa t}"
proof -
  have "set (sn_out (fold (sanitize_line t dns) ls q)) \<subseteq> set (sn_out q) \<union> set ls \<union> {''Table = '' @ Itoa t}" for ls q
  proof (induction ls arbitrary: q)
    case (Cons l ls)
    then show ?case using sanitize_line_out [of t dns l q] by fastforce
  qed auto
  from this [of "Split raw (CHR 0x0A)" sanitize_start] show ?thesis
    by (auto simp: sanitized_def injectTableIfNeeded_def sanitize_start_def)
qed

lemma injected_short:
  assumes "0 < t" "int64_range t"
  shows "short_line (''Table = '' @ Itoa t)" and "CHR 0x0A \<notin> set (''Table = '' @ Itoa t)"
proof -
  have "nat t < 10 ^ Suc 19" using assms by (auto simp: int64_range_def)
  then have "length (Itoa t) \<le> 20" using length_show_base [of 10 "nat t" 19] assms(1) by (simp add: Itoa_def)
  then show "short_line (''Table = '' @ Itoa t)" by (simp add: short_line_def)
  have "list_all is_digit (Itoa t)" using Itoa_nonneg_digits [of t] assms(1) by (simp add: all_digits_def)
  then show "CHR 0x0A \<notin> set (''Table = '' @ Itoa t)" by (auto simp: list_all_iff is_digit_def)
qed

lemma Split_final_newline:
  assumes "list_all (\<lambda>l. CHR 0x0A \<notin> set l) ls" "ls \<noteq> []"
  shows "Split (with_final_newline (Join ls [CHR 0x0A])) (CHR 0x0A) \<in> {ls, ls @ [[]]}"
proof -
  have "Split (x @ [c]) c = Split x c @ [[]]" for x :: string and c
  proof (induction x)
    case (Cons y x)
    obtain w ws where "split_by (\<lambda>z. z = c) x = w # ws" by (meson neq_Nil_conv split_by_nonempty)
    with Cons show ?case by (auto simp: Split_def)
  qed (simp add: Split_def)
  then show ?thesis using Split_Join [OF assms] by (simp add: with_final_newline_def)
qed

lemma Split_lines_plain: "l \<in> set (Split raw c) \<Longrightarrow> c \<notin> set l"
  by (auto simp: Split_def dest: split_by_words)

text \<open>The interface the rewritten configuration has.\<close>

lemma sanitized_run:
  assumes run: "run_lines (Split raw (CHR 0x0A)) wg_start = Some s" and t: "0 < t"
    and blank: "list_all no_blank_table (Split raw (CHR 0x0A))"
  shows "\<exists>s'. tracks t dns s (sanitized t dns raw) s' \<and>
    (Table (Interface (ws_cfg s')) \<noteq> [] \<or> Interface (ws_cfg s') = new_interface)"
proof -
  obtain s1 where "tracks t dns s (fold (sanitize_line t dns) (Split raw (CHR 0x0A)) sanitize_start) s1"
    using track_lines [OF tracks_start t run blank] by blast
  from tracks_inject [OF this t] show ?thesis by (simp add: sanitized_def)
qed

lemma route_table_tracked:
  assumes rt: "route_table_of i = Inr rt" and t: "0 < t" "int64_range t" "rt > 0 \<Longrightarrow> rt = t"
    and tab: "Table i' = Table i \<or> Table i' = Itoa t" and ne: "Table i' \<noteq> []" and trim: "TrimSpace (Table i) = Table i"
  shows "route_table_of i' = Inr t"
proof -
  have d: "all_digits (Itoa t)" "Itoa t \<noteq> []" using Itoa_nonneg_digits [of t] t(1) by (auto simp: all_digits_def)
  have "route_table_of (i\<lparr>Table := Itoa t\<rparr>) = Inr t"
    using t(1) Atoi_Itoa [OF t(2)] all_digits_trimmed [OF d(1)] d(2) by (simp add: route_table_of_def)
  moreover have "route_table_of i' = Inr t" if "Table i' = Table i"
    using that rt ne trim t(3) by (auto simp: route_table_of_def Let_def split: if_splits option.splits)
  ultimately show ?thesis using tab by (auto simp: route_table_of_def)
qed


lemma wg_line_table_trimmed:
  assumes "wg_line l s = Inr s1" "TrimSpace (Table (Interface (ws_cfg s))) = Table (Interface (ws_cfg s))"
  shows "TrimSpace (Table (Interface (ws_cfg s1))) = Table (Interface (ws_cfg s1))"
  using assms
  by (auto simp: wg_line_def Let_def enter_section_def set_field_def Table_of_field stripInlineComment_def
      split: if_splits option.splits prod.splits)

lemma run_table_trimmed:
  "run_lines ls s = Some s1 \<Longrightarrow> TrimSpace (Table (Interface (ws_cfg s))) = Table (Interface (ws_cfg s)) \<Longrightarrow>
   TrimSpace (Table (Interface (ws_cfg s1))) = Table (Interface (ws_cfg s1))"
  by (induction ls s rule: run_lines.induct) (auto split: sum.splits dest: wg_line_table_trimmed)

lemma finish_config_tracked:
  assumes fin: "finish_config (ws_cfg s) = Inr (cfg, rt, gw)" and tr: "tracks t dns s q s'"
    and tab: "route_table_of (Interface (ws_cfg s)) = Inr rt \<Longrightarrow> route_table_of (Interface (ws_cfg s')) = Inr t"
  shows "finish_config (ws_cfg s') = Inr (ws_cfg s', t, gw) \<and> cfg = ws_cfg s"
  using assms
  by (auto simp: finish_config_def tracks_def same_frame_def same_interface_def bindE_Inr split: if_splits option.splits)

lemma sanitize_meaning:
  assumes parsed: "parseWireGuardConfig raw = Inr (cfg, rt, gw)"
    and blank: "list_all no_blank_table (Split raw (CHR 0x0A))"
    and t: "0 < t" "int64_range t" "rt > 0 \<Longrightarrow> rt = t"
  shows "\<exists>out warnings cfg'. sanitizeWireGuardConfig raw t dns = Inr (out, warnings) \<and>
    parseWireGuardConfig out = Inr (cfg', t, gw) \<and> Peers cfg' = Peers cfg \<and>
    same_interface dns (Interface cfg) (Interface cfg') \<and>
    (warnings = [] \<longrightarrow> cfg' = cfg\<lparr>Interface := (Interface cfg)\<lparr>Table := Table (Interface cfg')\<rparr>\<rparr>)"
proof -
  let ?q = "sanitized t dns raw" and ?nl = "CHR 0x0A"
  let ?out = "with_final_newline (Join (sn_out ?q) [?nl])"
  from parsed obtain s where short: "list_all short_line (Split raw ?nl)"
    and run: "run_lines (Split raw ?nl) wg_start = Some s" and fin: "finish_config (ws_cfg s) = Inr (cfg, rt, gw)"
    unfolding parse_iff by blast
  obtain s' where tr: "tracks t dns s ?q s'"
    and ne: "Table (Interface (ws_cfg s')) \<noteq> [] \<or> Interface (ws_cfg s') = new_interface"
    using sanitized_run [OF run t(1) blank] by blast
  have key: "PrivateKey (Interface (ws_cfg s)) \<noteq> []" using fin by (auto simp: finish_config_def split: if_splits)
  then have nonempty: "Table (Interface (ws_cfg s')) \<noteq> []"
    using ne tr by (auto simp: tracks_def same_interface_def new_interface_def)
  have trim: "TrimSpace (Table (Interface (ws_cfg s))) = Table (Interface (ws_cfg s))"
    by (rule run_table_trimmed [OF run]) (simp add: wg_start_def new_interface_def)
  have "Table (Interface (ws_cfg s')) = Table (Interface (ws_cfg s)) \<or> Table (Interface (ws_cfg s')) = Itoa t"
    using tr by (simp add: tracks_def table_tracked_def)
  then have fin': "finish_config (ws_cfg s') = Inr (ws_cfg s', t, gw)" and cfg: "cfg = ws_cfg s"
    using finish_config_tracked [OF fin tr] route_table_tracked [OF _ t _ nonempty trim] by blast+
  have plain: "list_all (\<lambda>l. ?nl \<notin> set l \<and> short_line l) (sn_out ?q)"
    using sanitized_out [of t dns raw] injected_short [OF t(1,2)] Split_lines_plain [of _ raw ?nl] short
    unfolding list_all_iff by blast
  have run': "run_lines (sn_out ?q) wg_start = Some s'" using tr by (simp add: tracks_def)
  have "sn_out ?q \<noteq> []"
  proof
    assume "sn_out ?q = []"
    with run' have "s' = wg_start" by simp
    with nonempty show False by (simp add: wg_start_def new_interface_def)
  qed
  then have "Split ?out ?nl \<in> {sn_out ?q, sn_out ?q @ [[]]}"
    using plain by (intro Split_final_newline) (auto simp: list_all_iff)
  then have "list_all short_line (Split ?out ?nl)" "run_lines (Split ?out ?nl) wg_start = Some s'"
    using plain run' by (auto simp: list_all_iff run_lines_append short_line_def)
  with fin' have out: "parseWireGuardConfig ?out = Inr (ws_cfg s', t, gw)" unfolding parse_iff by blast
  then have san: "sanitizeWireGuardConfig raw t dns = Inr (?out, sn_warnings ?q)"
    by (simp add: sanitizeWireGuardConfig_def ValidateWGConfig_def Let_def)
  have "ws_cfg s' = cfg\<lparr>Interface := (Interface cfg)\<lparr>Table := Table (Interface (ws_cfg s'))\<rparr>\<rparr>" if "sn_warnings ?q = []"
    using that tr cfg by (auto simp: tracks_def silent_same_def same_hooks_def same_interface_def same_frame_def)
  with san out tr cfg show ?thesis by (auto simp: tracks_def same_frame_def)
qed

section \<open>Properties\<close>


definition sample_wg :: string where
  "sample_wg = Join [''[Interface]'', ''PrivateKey = k'', ''Address = 10.0.0.2/32'', ''DNS = 10.0.0.1'', [], ''[Peer]'',
     ''PublicKey = p'', ''AllowedIPs = 0.0.0.0/0'', ''Endpoint = 192.0.2.1:51820''] [CHR 0x0A]"


text \<open>With a line that sets the table to the empty value the rewriting adds no table: the configuration is accepted, and
  wg-quick would choose the table itself.\<close>

definition blank_table_wg :: string where
  "blank_table_wg = Join [''[Interface]'', ''PrivateKey = k'', ''Address = 10.0.0.2/32'', ''Table ='', [], ''[Peer]'',
     ''PublicKey = p'', ''AllowedIPs = 0.0.0.0/0'', ''Endpoint = 192.0.2.1:51820'', []] [CHR 0x0A]"

lemma blank_table_kept: "sanitizeWireGuardConfig blank_table_wg 201 True = Inr (blank_table_wg, [])"
  by code_simp

end
