(* ===== verification/Vpn_Providers.thy ===== *)
theory Vpn_Providers
  imports Wireguard_Conf Vpn_Allocator
begin

text \<open>
  The three providers of VPN profiles: \<^verbatim>\<open>wireguard.go\<close>, \<^verbatim>\<open>openvpn.go\<close>, \<^verbatim>\<open>amneziawg.go\<close> and \<^verbatim>\<open>amneziawg_params.go\<close> of
  \<^verbatim>\<open>internal/vpn\<close>: parsing of configurations into a profile, the obfuscation parameters of AmneziaWG, the files an OpenVPN
  configuration refers to, and the systemd units. The junk packet parser of amneziawg-go is the parameter \<open>junk_ok\<close>. Go
  iterates over maps in an unspecified order; where an error ends such a loop, the order here is the one of the source text or of the
  file, and it decides only which of several errors is reported.
\<close>


section \<open>AmneziaWG parameters\<close>

record awg_params =
  Jc :: "int option"
  Jmin :: "int option"
  Jmax :: "int option"
  S1 :: "int option"
  S2 :: "int option"
  S3 :: "int option"
  S4 :: "int option"
  Headers :: "string list"
  I_junk :: "string list"
  J_junk :: "string list"
  ITime :: "int option"

text \<open>\<open>Headers\<close> are the fields H1 to H4, \<open>I_junk\<close> the fields I1 to I5 and \<open>J_junk\<close> the fields J1 to J3, empty where absent.\<close>

definition header_keys :: "string list" where "header_keys = [''h1'', ''h2'', ''h3'', ''h4'']"
definition i_keys :: "string list" where "i_keys = [''i1'', ''i2'', ''i3'', ''i4'', ''i5'']"
definition j_keys :: "string list" where "j_keys = [''j1'', ''j2'', ''j3'']"

definition awgParamKeys :: "string list" where
  "awgParamKeys = [''jc'', ''jmin'', ''jmax'', ''s1'', ''s2'', ''s3'', ''s4''] @ header_keys @ i_keys @ j_keys @ [''itime'']"

definition HasAmneziaWGKeys :: "wg_interface \<Rightarrow> bool" where
  "HasAmneziaWGKeys i = list_ex (\<lambda>k. lookup_all (if_Extras i) k \<noteq> []) awgParamKeys"

definition all_blank :: "string list \<Rightarrow> bool" where
  "all_blank = list_all (\<lambda>v. v = [])"

definition awg_IsEmpty :: "awg_params option \<Rightarrow> bool" where
  "awg_IsEmpty p =
     (case p of
        None \<Rightarrow> True
      | Some p \<Rightarrow> Jc p = None \<and> Jmin p = None \<and> Jmax p = None \<and> S1 p = None \<and> S2 p = None \<and> S3 p = None \<and> S4 p = None \<and>
          all_blank (Headers p) \<and> all_blank (I_junk p) \<and> all_blank (J_junk p) \<and> ITime p = None)"

definition UsesSpecialJunk :: "awg_params \<Rightarrow> bool" where
  "UsesSpecialJunk p \<longleftrightarrow> \<not> all_blank (I_junk p) \<or> \<not> all_blank (J_junk p) \<or> ITime p \<noteq> None"

definition UsesUserspaceOnlyJunk :: "awg_params \<Rightarrow> bool" where
  "UsesUserspaceOnlyJunk p \<longleftrightarrow> \<not> all_blank (J_junk p) \<or> ITime p \<noteq> None"

definition positive :: "int option \<Rightarrow> bool" where
  "positive v = (case v of None \<Rightarrow> False | Some n \<Rightarrow> n > 0)"

definition UsesExtendedPadding :: "awg_params \<Rightarrow> bool" where
  "UsesExtendedPadding p \<longleftrightarrow> positive (S3 p) \<or> positive (S4 p)"

definition UsesHeaderRanges :: "awg_params \<Rightarrow> bool" where
  "UsesHeaderRanges p = list_ex (\<lambda>raw. Contains raw ''-'') (Headers p)"

datatype awg_error = SpecifiedTwice string | NotInteger string string | OutOfRange string int | ITimeInvalid string
  | JminExceedsJmax | JcNeedsBounds | PaddingDistinguishable | HeaderInvalid string string | HeaderRangeReversed string string
  | HeadersOverlap string string | HeadersIncomplete | JunkInvalid string | NoEngine

definition singleExtra :: "wg_interface \<Rightarrow> string \<Rightarrow> awg_error + string" where
  "singleExtra i key =
     (case lookup_all (if_Extras i) key of
        [] \<Rightarrow> Inr []
      | [v] \<Rightarrow> Inr (TrimSpace v)
      | _ \<Rightarrow> Inl (SpecifiedTwice key))"

definition intField :: "wg_interface \<Rightarrow> string \<times> int \<Rightarrow> awg_error + int option" where
  "intField i f =
     (case f of (key, mx) \<Rightarrow>
       bindE (singleExtra i key) (\<lambda>raw.
         if raw = [] then Inr None
         else (case Atoi raw of
                 None \<Rightarrow> Inl (NotInteger key raw)
               | Some n \<Rightarrow> if n < 0 \<or> n > mx then Inl (OutOfRange key n) else Inr (Some n))))"

text \<open>A blank value and an absent one both leave the field empty.\<close>

definition stringFields :: "wg_interface \<Rightarrow> string list \<Rightarrow> awg_error + string list" where
  "stringFields i = traverse (singleExtra i)"

definition itime_field :: "wg_interface \<Rightarrow> awg_error + int option" where
  "itime_field i =
     bindE (singleExtra i ''itime'') (\<lambda>raw.
       if raw = [] then Inr None
       else (case Atoi raw of
               None \<Rightarrow> Inl (ITimeInvalid raw)
             | Some n \<Rightarrow> if n < 0 then Inl (ITimeInvalid raw) else Inr (Some n)))"

text \<open>Header ranges. \<^verbatim>\<open>strconv.ParseUint(s, 10, 32)\<close> accepts digits only.\<close>

definition parse_uint32_10 :: "string \<Rightarrow> nat option" where
  "parse_uint32_10 s = (if all_digits s \<and> read_digits s < 2 ^ 32 then Some (read_digits s) else None)"

record awg_range =
  rg_name :: string
  rg_start :: "32 word"
  rg_end :: "32 word"

definition parseAWGHeaderRange :: "string \<Rightarrow> string \<Rightarrow> awg_error + awg_range" where
  "parseAWGHeaderRange name raw =
     (case map (\<lambda>p. parse_uint32_10 (TrimSpace p)) (Split raw (CHR ''-'')) of
        [Some a] \<Rightarrow> Inr \<lparr>rg_name = name, rg_start = word_of_nat a, rg_end = word_of_nat a\<rparr>
      | [Some a, Some b] \<Rightarrow>
          if (word_of_nat a :: 32 word) > word_of_nat b then Inl (HeaderRangeReversed name raw)
          else Inr \<lparr>rg_name = name, rg_start = word_of_nat a, rg_end = word_of_nat b\<rparr>
      | _ \<Rightarrow> Inl (HeaderInvalid name raw))"

definition overlaps :: "awg_range \<Rightarrow> awg_range \<Rightarrow> bool" where
  "overlaps r x \<longleftrightarrow> rg_start r \<le> rg_end x \<and> rg_start x \<le> rg_end r"

fun header_loop :: "awg_range list \<Rightarrow> (string \<times> string) list \<Rightarrow> awg_error + awg_range list" where
  "header_loop rs [] = Inr rs"
| "header_loop rs ((name, raw) # hs) =
     (if raw = [] then header_loop rs hs
      else (case parseAWGHeaderRange name raw of
              Inl e \<Rightarrow> Inl e
            | Inr r \<Rightarrow> (case filter (overlaps r) rs of
                          x # _ \<Rightarrow> Inl (HeadersOverlap (rg_name x) name)
                        | [] \<Rightarrow> header_loop (rs @ [r]) hs)))"

definition validateHeaders :: "awg_params \<Rightarrow> awg_error option" where
  "validateHeaders p =
     (case header_loop [] (zip [''H1'', ''H2'', ''H3'', ''H4''] (Headers p)) of
        Inl e \<Rightarrow> Some e
      | Inr rs \<Rightarrow> if length rs > 0 \<and> length rs < 4 then Some HeadersIncomplete else None)"

fun check_junk :: "(string \<Rightarrow> string \<Rightarrow> bool) \<Rightarrow> (string \<times> string) list \<Rightarrow> awg_error option" where
  "check_junk junk_ok [] = None"
| "check_junk junk_ok ((key, v) # rest) =
     (if v = [] then check_junk junk_ok rest
      else if \<not> junk_ok key v then Some (JunkInvalid key)
      else check_junk junk_ok rest)"

definition awg_validate :: "(string \<Rightarrow> string \<Rightarrow> bool) \<Rightarrow> awg_params \<Rightarrow> awg_error option" where
  "awg_validate junk_ok p =
     (if (case (Jmin p, Jmax p) of (Some a, Some b) \<Rightarrow> a > b | _ \<Rightarrow> False) then Some JminExceedsJmax
      else if positive (Jc p) \<and> (Jmin p = None \<or> Jmax p = None) then Some JcNeedsBounds
      else if (case (S1 p, S2 p) of (Some a, Some b) \<Rightarrow> a + 56 = b | _ \<Rightarrow> False) then Some PaddingDistinguishable
      else (case validateHeaders p of
              Some e \<Rightarrow> Some e
            | None \<Rightarrow>
                (case check_junk junk_ok (zip (i_keys @ j_keys) (I_junk p @ J_junk p)) of
                   Some e \<Rightarrow> Some e
                 | None \<Rightarrow>
                     if UsesUserspaceOnlyJunk p \<and> (UsesExtendedPadding p \<or> UsesHeaderRanges p) then Some NoEngine
                     else None)))"

definition int_limits :: "(string \<times> int) list" where
  "int_limits = [(''jc'', 1280), (''jmin'', 1280), (''jmax'', 1280), (''s1'', 1132), (''s2'', 1188), (''s3'', 1188), (''s4'', 1188)]"

definition read_params :: "wg_interface \<Rightarrow> awg_error + awg_params" where
  "read_params i =
     bindE (traverse (intField i) int_limits) (\<lambda>ns.
     bindE (stringFields i header_keys) (\<lambda>hs.
     bindE (stringFields i i_keys) (\<lambda>is.
     bindE (stringFields i j_keys) (\<lambda>js.
     bindE (itime_field i) (\<lambda>it.
       Inr \<lparr>Jc = ns ! 0, Jmin = ns ! 1, Jmax = ns ! 2, S1 = ns ! 3, S2 = ns ! 4, S3 = ns ! 5, S4 = ns ! 6,
            Headers = hs, I_junk = is, J_junk = js, ITime = it\<rparr>)))))"

definition parseAmneziaWGParams :: "(string \<Rightarrow> string \<Rightarrow> bool) \<Rightarrow> wg_interface \<Rightarrow> awg_error + awg_params option" where
  "parseAmneziaWGParams junk_ok i =
     (if \<not> HasAmneziaWGKeys i then Inr None
      else bindE (read_params i) (\<lambda>p. case awg_validate junk_ok p of Some e \<Rightarrow> Inl e | None \<Rightarrow> Inr (Some p)))"


section \<open>Names of files\<close>

datatype file_name_error = FileNameRequired | FileNameNotBase string | FileNameInvalid string

definition configFilePattern :: "string \<Rightarrow> bool" where
  "configFilePattern s = (case s of [] \<Rightarrow> False | c # cs \<Rightarrow> is_alnum c \<and> length cs \<le> 127 \<and> list_all name_char cs)"

text \<open>
  \<^verbatim>\<open>filepath.Base(name) != name\<close> holds, for a non-empty name, exactly when the name has a slash and is not the single slash; both are
  rejected by the second test.
\<close>

definition has_separator :: "string \<Rightarrow> bool" where
  "has_separator s = list_ex (\<lambda>c. c = CHR ''/'' \<or> c = CHR 0x5C) s"

definition sanitizeSupportingFileName :: "string \<Rightarrow> file_name_error + string" where
  "sanitizeSupportingFileName raw =
     (let name = trim_quotes (TrimSpace raw) in
      if name = [] then Inl FileNameRequired
      else if has_separator name then Inl (FileNameNotBase raw)
      else if \<not> configFilePattern name then Inl (FileNameInvalid raw)
      else Inr name)"


section \<open>OpenVPN configurations\<close>

record ovpn_config =
  Directives :: multimap
  InlineBlocks :: "(string \<times> string) list"

record ovpn_state =
  os_cfg :: ovpn_config
  os_block :: string
  os_lines :: "string list"

datatype ovpn_line_error = UnexpectedClosing | InvalidBlockName

datatype ovpn_error = OvpnAtLine nat ovpn_line_error | OvpnScanError | UnclosedBlock string | ClientRequired | RemoteRequired
  | DevRequired | DevInvalid

definition ovpn_start :: ovpn_state where
  "ovpn_start = \<lparr>os_cfg = \<lparr>Directives = [], InlineBlocks = []\<rparr>, os_block = [], os_lines = []\<rparr>"

definition in_block :: "string \<Rightarrow> ovpn_state \<Rightarrow> ovpn_state" where
  "in_block rawLine s =
     (if EqualFold (TrimSpace rawLine) (''</'' @ os_block s @ ''>'')
      then s\<lparr>os_cfg := (os_cfg s)\<lparr>InlineBlocks := AList.update (os_block s) (Join (os_lines s) [CHR 0x0A]) (InlineBlocks (os_cfg s))\<rparr>,
             os_block := [], os_lines := []\<rparr>
      else s\<lparr>os_lines := os_lines s @ [rawLine]\<rparr>)"

definition add_directive :: "string \<Rightarrow> ovpn_state \<Rightarrow> ovpn_state" where
  "add_directive line s =
     (case Fields line of
        [] \<Rightarrow> s
      | f # fs \<Rightarrow>
          (let v = (if fs = [] then [] else TrimSpace (drop (length f) line))
           in s\<lparr>os_cfg := (os_cfg s)\<lparr>Directives := push (ToLower f) v (Directives (os_cfg s))\<rparr>\<rparr>))"

definition ovpn_line :: "string \<Rightarrow> ovpn_state \<Rightarrow> ovpn_line_error + ovpn_state" where
  "ovpn_line rawLine s =
     (let line = TrimSpace rawLine in
      if os_block s \<noteq> [] then Inr (in_block rawLine s)
      else if line = [] \<or> HasPrefix line ''#'' \<or> HasPrefix line '';'' then Inr s
      else if HasPrefix line ''</'' then Inl UnexpectedClosing
      else if HasPrefix line ''<'' \<and> HasSuffix line ''>''
      then (let name = ToLower (TrimSpace (butlast (tl line))) in
            if name = [] \<or> CHR '' '' \<in> set name then Inl InvalidBlockName
            else Inr (s\<lparr>os_block := name, os_lines := []\<rparr>))
      else Inr (add_directive line s))"

fun ovpn_lines :: "nat \<Rightarrow> string list \<Rightarrow> ovpn_state \<Rightarrow> ovpn_error + ovpn_state" where
  "ovpn_lines n [] s = Inr s"
| "ovpn_lines n (l # ls) s =
     (case ovpn_line l s of Inl e \<Rightarrow> Inl (OvpnAtLine (Suc n) e) | Inr s' \<Rightarrow> ovpn_lines (Suc n) ls s')"

definition firstToken :: "string \<Rightarrow> string" where
  "firstToken v = (case Fields v of [] \<Rightarrow> [] | f # _ \<Rightarrow> f)"

definition parseRemoteHost :: "string \<Rightarrow> string" where
  "parseRemoteHost v = firstToken (TrimSpace v)"

definition normalizeOpenVPNDevice :: "string \<Rightarrow> string" where
  "normalizeOpenVPNDevice dev =
     (let t = TrimSpace dev in if t = ''tun'' then ''tun0'' else if t = ''tap'' then ''tap0'' else t)"

definition finish_ovpn :: "ovpn_config \<Rightarrow> ovpn_error + ovpn_config \<times> string \<times> string" where
  "finish_ovpn cfg =
     (if map_of (Directives cfg) ''client'' = None then Inl ClientRequired
      else if lookup_all (Directives cfg) ''remote'' = [] then Inl RemoteRequired
      else if lookup_all (Directives cfg) ''dev'' = [] then Inl DevRequired
      else (let dev = normalizeOpenVPNDevice (firstToken (hd (lookup_all (Directives cfg) ''dev''))) in
            if dev = [] then Inl DevInvalid
            else Inr (cfg, dev, parseRemoteHost (hd (lookup_all (Directives cfg) ''remote'')))))"

definition parseOpenVPNConfig :: "string \<Rightarrow> ovpn_error + ovpn_config \<times> string \<times> string" where
  "parseOpenVPNConfig raw =
     (case scan_big_lines raw of (ls, tooLong) \<Rightarrow>
       bindE (ovpn_lines 0 ls ovpn_start) (\<lambda>s.
         if tooLong then Inl OvpnScanError
         else if os_block s \<noteq> [] then Inl (UnclosedBlock (os_block s))
         else finish_ovpn (os_cfg s)))"

definition needsFile :: "string list" where
  "needsFile = [''ca'', ''cert'', ''key'', ''pkcs12'', ''tls-auth'', ''tls-crypt'', ''tls-crypt-v2'', ''auth-user-pass'', ''secret'', ''crl-verify'']"

definition inlineBlock :: "string list" where
  "inlineBlock = [''ca'', ''cert'', ''key'', ''tls-auth'', ''tls-crypt'', ''tls-crypt-v2'', ''secret'']"

datatype required_error = DirectiveNeedsFile string | RequiredFileName file_name_error

definition required_value :: "string \<Rightarrow> string \<Rightarrow> required_error + string option" where
  "required_value key raw =
     (let token = trim_quotes (TrimSpace (firstToken raw)) in
      if key = ''auth-user-pass'' \<and> token = [] then Inr None
      else if token = [] then Inl (DirectiveNeedsFile key)
      else (case sanitizeSupportingFileName token of Inl e \<Rightarrow> Inl (RequiredFileName e) | Inr name \<Rightarrow> Inr (Some name)))"

definition directive_files :: "ovpn_config \<Rightarrow> string \<times> string list \<Rightarrow> required_error + string list" where
  "directive_files cfg d =
     (let key = ToLower (TrimSpace (fst d)) in
      if key \<notin> set needsFile then Inr []
      else if key \<in> set inlineBlock \<and> meta_get (InlineBlocks cfg) key \<noteq> [] then Inr []
      else norm_loop (required_value key) [] (snd d))"

definition requiredOpenVPNFiles :: "ovpn_config \<Rightarrow> required_error + string list" where
  "requiredOpenVPNFiles cfg =
     bindE (traverse (directive_files cfg) (Directives cfg)) (\<lambda>fs. Inr (sort_strings (dedup (concat fs))))"

section \<open>Providers\<close>

record profile =
  p_Name :: string
  p_Type :: string
  p_RawConfig :: string
  p_ConfigFile :: string
  p_SupportingFiles :: "string list"
  p_RouteTable :: int
  p_FWMark :: "32 word"
  p_InterfaceName :: string
  p_Gateway :: string
  p_BoundInterface :: string
  p_MSSClampV4 :: string
  p_MSSClampV6 :: string
  p_Meta :: vpn_meta
  p_Warnings :: "string list"
  p_WireGuard :: "wg_config option"
  p_OpenVPN :: "ovpn_config option"
  p_AmneziaWG :: "awg_params option"

definition empty_profile :: profile where
  "empty_profile = \<lparr>p_Name = [], p_Type = [], p_RawConfig = [], p_ConfigFile = [], p_SupportingFiles = [], p_RouteTable = 0,
     p_FWMark = 0, p_InterfaceName = [], p_Gateway = [], p_BoundInterface = [], p_MSSClampV4 = [], p_MSSClampV6 = [], p_Meta = [],
     p_Warnings = [], p_WireGuard = None, p_OpenVPN = None, p_AmneziaWG = None\<rparr>"

datatype provider_error = WGConfigError wg_error | AWGConfigError awg_error | OvpnConfigError ovpn_error

definition wireguard_ParseConfig :: "string \<Rightarrow> provider_error + profile" where
  "wireguard_ParseConfig raw =
     (case parseWireGuardConfig raw of
        Inl e \<Rightarrow> Inl (WGConfigError e)
      | Inr (cfg, table, gateway) \<Rightarrow>
          Inr (empty_profile\<lparr>p_Type := ''wireguard'', p_RawConfig := raw, p_RouteTable := table, p_Gateway := gateway, p_WireGuard := Some cfg\<rparr>))"

definition amneziawg_ParseConfig :: "(string \<Rightarrow> string \<Rightarrow> bool) \<Rightarrow> string \<Rightarrow> provider_error + profile" where
  "amneziawg_ParseConfig junk_ok raw =
     (case parseWireGuardConfig raw of
        Inl e \<Rightarrow> Inl (WGConfigError e)
      | Inr (cfg, table, gateway) \<Rightarrow>
          (case parseAmneziaWGParams junk_ok (Interface cfg) of
             Inl e \<Rightarrow> Inl (AWGConfigError e)
           | Inr params \<Rightarrow>
               Inr (empty_profile\<lparr>p_Type := ''amneziawg'', p_RawConfig := raw, p_RouteTable := table, p_Gateway := gateway,
                    p_WireGuard := Some cfg, p_AmneziaWG := params\<rparr>)))"

definition openvpn_ParseConfig :: "string \<Rightarrow> provider_error + profile" where
  "openvpn_ParseConfig raw =
     (case parseOpenVPNConfig raw of
        Inl e \<Rightarrow> Inl (OvpnConfigError e)
      | Inr (cfg, iface, gateway) \<Rightarrow>
          Inr (empty_profile\<lparr>p_Type := ''openvpn'', p_RawConfig := raw, p_InterfaceName := iface, p_Gateway := gateway, p_OpenVPN := Some cfg\<rparr>))"

text \<open>\<^verbatim>\<open>filepath.Join\<close> of a clean directory and names without separators.\<close>

definition path_join :: "string \<Rightarrow> string list \<Rightarrow> string" where
  "path_join dir names =
     (if dir = ''.'' then Join names ''/''
      else if dir = ''/'' then ''/'' @ Join names ''/''
      else dir @ ''/'' @ Join names ''/'')"

definition or_default :: "string \<Rightarrow> string \<Rightarrow> string" where
  "or_default v d = (if v = [] then d else v)"

definition unit_text :: "string list \<Rightarrow> string" where
  "unit_text ls = Join ls [CHR 0x0A] @ [CHR 0x0A]"

definition unit_head :: "string \<Rightarrow> string \<Rightarrow> string list" where
  "unit_head kind name =
     [''[Unit]'', ''Description=split-vpn-webui '' @ kind @ '' tunnel ('' @ name @ '')'', ''After=network-online.target'',
      ''Wants=network-online.target'', [], ''[Service]'']"

definition unit_tail :: "string list" where
  "unit_tail = [''CapabilityBoundingSet=CAP_NET_ADMIN CAP_NET_RAW'', ''AmbientCapabilities=CAP_NET_ADMIN CAP_NET_RAW'', [],
     ''[Install]'', ''WantedBy=multi-user.target'']"

definition wireguard_GenerateUnit :: "profile \<Rightarrow> string \<Rightarrow> string" where
  "wireguard_GenerateUnit p dataDir =
     (let name = or_default (p_Name p) ''vpn''; fileName = or_default (p_ConfigFile p) (name @ ''.wg'');
          configPath = path_join dataDir [''vpns'', name, fileName]
      in unit_text (unit_head ''WireGuard'' name @
           [''Type=oneshot'', ''RemainAfterExit=yes'', ''Environment=WG_ENDPOINT_RESOLUTION_RETRIES=infinity'',
            ''ExecStart=/usr/bin/wg-quick up '' @ configPath, ''ExecStop=/usr/bin/wg-quick down '' @ configPath,
            ''TimeoutStartSec=2min'', ''TimeoutStopSec=1min''] @ unit_tail))"

definition openvpn_GenerateUnit :: "profile \<Rightarrow> string \<Rightarrow> string" where
  "openvpn_GenerateUnit p dataDir =
     (let name = or_default (p_Name p) ''vpn''; fileName = or_default (p_ConfigFile p) (name @ ''.ovpn'');
          iface = or_default (p_InterfaceName p) ''tun0''; configPath = path_join dataDir [''vpns'', name, fileName]
      in unit_text (unit_head ''OpenVPN'' name @
           [''Type=simple'',
            ''ExecStart=/usr/sbin/openvpn --config '' @ configPath @ '' --dev '' @ iface @ '' --route-noexec --script-security 1'',
            ''Restart=on-failure'', ''RestartSec=5s''] @ unit_tail))"

definition amneziawg_GenerateUnit :: "profile \<Rightarrow> string \<Rightarrow> string" where
  "amneziawg_GenerateUnit p dataDir =
     (let name = or_default (p_Name p) ''vpn'' in
      unit_text (unit_head ''AmneziaWG'' name @
        [''Type=notify'', ''NotifyAccess=main'',
         ''ExecStart='' @ path_join dataDir [''split-vpn-webui''] @ '' tunnel run --name '' @ name @ '' --data-dir '' @ dataDir,
         ''Restart=on-failure'', ''RestartSec=5'', ''TimeoutStartSec=2min'', ''TimeoutStopSec=1min''] @ unit_tail))"

record provider =
  ParseConfig :: "string \<Rightarrow> provider_error + profile"
  GenerateUnit :: "profile \<Rightarrow> string \<Rightarrow> string"

definition providers :: "(string \<Rightarrow> string \<Rightarrow> bool) \<Rightarrow> string \<rightharpoonup> provider" where
  "providers junk_ok ty =
     (if ty = ''wireguard'' then Some \<lparr>ParseConfig = wireguard_ParseConfig, GenerateUnit = wireguard_GenerateUnit\<rparr>
      else if ty = ''openvpn'' then Some \<lparr>ParseConfig = openvpn_ParseConfig, GenerateUnit = openvpn_GenerateUnit\<rparr>
      else if ty = ''amneziawg'' then Some \<lparr>ParseConfig = amneziawg_ParseConfig junk_ok, GenerateUnit = amneziawg_GenerateUnit\<rparr>
      else None)"


section \<open>What accepted parameters satisfy\<close>

definition in_limit :: "int option \<Rightarrow> int \<Rightarrow> bool" where
  "in_limit v mx = (case v of None \<Rightarrow> True | Some n \<Rightarrow> 0 \<le> n \<and> n \<le> mx)"

lemma intField_limit: "intField i (k, mx) = Inr v \<Longrightarrow> in_limit v mx"
  by (auto simp: intField_def bindE_Inr in_limit_def split: if_splits option.splits)

lemma range_ordered: "parseAWGHeaderRange n raw = Inr r \<Longrightarrow> rg_start r \<le> rg_end r"
  by (auto simp: parseAWGHeaderRange_def not_less split: list.splits option.splits if_splits)

definition disjoint_ranges :: "awg_range list \<Rightarrow> bool" where
  "disjoint_ranges rs \<longleftrightarrow> list_all (\<lambda>r. rg_start r \<le> rg_end r) rs \<and>
     sorted_wrt (\<lambda>x y. {rg_start x..rg_end x} \<inter> {rg_start y..rg_end y} = {}) rs"

lemma disjoint_ranges_snoc:
  assumes "disjoint_ranges rs" "rg_start r \<le> rg_end r" "\<forall>x \<in> set rs. \<not> overlaps r x"
  shows "disjoint_ranges (rs @ [r])"
  using assms by (auto simp: disjoint_ranges_def sorted_wrt_append overlaps_def)

lemma header_loop_disjoint: "header_loop rs hs = Inr out \<Longrightarrow> disjoint_ranges rs \<Longrightarrow> disjoint_ranges out"
proof (induction rs hs rule: header_loop.induct)
  case (2 rs name raw hs)
  then show ?case
    by (auto simp: filter_empty_conv split: if_splits sum.splits list.splits
        intro!: disjoint_ranges_snoc dest: range_ordered)
qed simp

lemma header_loop_length:
  "header_loop rs hs = Inr out \<Longrightarrow> length out = length rs + length (filter (\<lambda>h. snd h \<noteq> []) hs)"
  by (induction rs hs rule: header_loop.induct) (auto split: if_splits sum.splits list.splits)

lemma validateHeaders_ok:
  assumes "validateHeaders p = None" "length (Headers p) = 4"
  shows "all_blank (Headers p) \<or>
    (\<exists>rs. header_loop [] (zip [''H1'', ''H2'', ''H3'', ''H4''] (Headers p)) = Inr rs \<and> length rs = 4 \<and> disjoint_ranges rs)"
proof -
  let ?hs = "zip [''H1'', ''H2'', ''H3'', ''H4''] (Headers p)"
  obtain rs where rs: "header_loop [] ?hs = Inr rs" "rs = [] \<or> length rs \<ge> 4"
    using assms(1) by (auto simp: validateHeaders_def not_less split: sum.splits if_splits)
  have len: "length rs = length (filter (\<lambda>h. snd h \<noteq> []) ?hs)" using header_loop_length [OF rs(1)] by simp
  then have le: "length rs \<le> 4" using length_filter_le [of "\<lambda>h. snd h \<noteq> []" ?hs] assms(2) by simp
  show ?thesis
  proof (cases rs)
    case Nil
    with len have "\<forall>h \<in> set ?hs. snd h = []" by (simp add: filter_empty_conv)
    moreover have "Headers p = map snd ?hs" using assms(2) by simp
    then have "set (Headers p) = snd ` set ?hs" by (metis list.set_map)
    ultimately have "all_blank (Headers p)" by (simp add: all_blank_def list_all_iff del: set_zip)
    then show ?thesis ..
  next
    case Cons
    with rs le have "length rs = 4" by auto
    moreover have "disjoint_ranges rs" by (rule header_loop_disjoint [OF rs(1)]) (simp add: disjoint_ranges_def)
    ultimately show ?thesis using rs(1) by blast
  qed
qed

lemma check_junk_None: "check_junk junk_ok kvs = None \<longleftrightarrow> list_all (\<lambda>(k, v). v = [] \<or> junk_ok k v) kvs"
  by (induction junk_ok kvs rule: check_junk.induct) auto

lemma traverse_length: "traverse f xs = Inr ys \<Longrightarrow> length ys = length xs"
  by (auto simp: traverse_Inr dest: list_all2_lengthD)

lemma traverse_nth: "traverse f xs = Inr ys \<Longrightarrow> n < length xs \<Longrightarrow> f (xs ! n) = Inr (ys ! n)"
  by (simp add: traverse_Inr list_all2_conv_all_nth)

lemma read_params_limits:
  assumes "read_params i = Inr p"
  shows "in_limit (Jc p) 1280 \<and> in_limit (Jmin p) 1280 \<and> in_limit (Jmax p) 1280 \<and> in_limit (S1 p) 1132 \<and> in_limit (S2 p) 1188 \<and>
    in_limit (S3 p) 1188 \<and> in_limit (S4 p) 1188 \<and> length (Headers p) = 4"
proof -
  obtain ns hs "is" js it where ns: "traverse (intField i) int_limits = Inr ns" and hs: "stringFields i header_keys = Inr hs"
    and p: "p = \<lparr>Jc = ns ! 0, Jmin = ns ! 1, Jmax = ns ! 2, S1 = ns ! 3, S2 = ns ! 4, S3 = ns ! 5, S4 = ns ! 6,
      Headers = hs, I_junk = is, J_junk = js, ITime = it\<rparr>"
    using assms by (auto simp: read_params_def bindE_Inr)
  have "in_limit (ns ! n) (snd (int_limits ! n))" if "n < 7" for n
    using traverse_nth [OF ns, of n] that intField_limit [of i "fst (int_limits ! n)" "snd (int_limits ! n)"]
    by (simp add: int_limits_def)
  from this [of 0] this [of 1] this [of 2] this [of 3] this [of 4] this [of 5] this [of 6]
  have "in_limit (ns ! 0) 1280" "in_limit (ns ! 1) 1280" "in_limit (ns ! 2) 1280" "in_limit (ns ! 3) 1132"
    "in_limit (ns ! 4) 1188" "in_limit (ns ! 5) 1188" "in_limit (ns ! 6) 1188" by (simp_all add: int_limits_def)
  moreover have "length hs = 4" using hs traverse_length [of "singleExtra i" header_keys hs] by (simp add: stringFields_def header_keys_def)
  ultimately show ?thesis by (simp add: p)
qed

lemma parseAmneziaWGParams_sound:
  assumes "parseAmneziaWGParams junk_ok i = Inr (Some p)"
  shows "in_limit (Jc p) 1280 \<and> in_limit (Jmin p) 1280 \<and> in_limit (Jmax p) 1280 \<and> in_limit (S1 p) 1132 \<and> in_limit (S2 p) 1188 \<and>
    in_limit (S3 p) 1188 \<and> in_limit (S4 p) 1188"
    and "positive (Jc p) \<Longrightarrow> \<exists>a b. Jmin p = Some a \<and> Jmax p = Some b \<and> a \<le> b"
    and "S1 p = Some a \<Longrightarrow> S2 p = Some b \<Longrightarrow> a + 56 \<noteq> b"
    and "all_blank (Headers p) \<or>
      (\<exists>rs. header_loop [] (zip [''H1'', ''H2'', ''H3'', ''H4''] (Headers p)) = Inr rs \<and> length rs = 4 \<and> disjoint_ranges rs)"
    and "\<not> (UsesUserspaceOnlyJunk p \<and> (UsesExtendedPadding p \<or> UsesHeaderRanges p))"
proof -
  have r: "read_params i = Inr p" and v: "awg_validate junk_ok p = None"
    using assms by (auto simp: parseAmneziaWGParams_def bindE_Inr split: if_splits option.splits)
  note limits = read_params_limits [OF r]
  then show "in_limit (Jc p) 1280 \<and> in_limit (Jmin p) 1280 \<and> in_limit (Jmax p) 1280 \<and> in_limit (S1 p) 1132 \<and> in_limit (S2 p) 1188 \<and>
    in_limit (S3 p) 1188 \<and> in_limit (S4 p) 1188" by simp
  show "positive (Jc p) \<Longrightarrow> \<exists>a b. Jmin p = Some a \<and> Jmax p = Some b \<and> a \<le> b"
    and "S1 p = Some a \<Longrightarrow> S2 p = Some b \<Longrightarrow> a + 56 \<noteq> b"
    and "\<not> (UsesUserspaceOnlyJunk p \<and> (UsesExtendedPadding p \<or> UsesHeaderRanges p))"
    using v by (auto simp: awg_validate_def split: if_splits option.splits)
  have "validateHeaders p = None" using v by (auto simp: awg_validate_def split: if_splits option.splits)
  then show "all_blank (Headers p) \<or>
      (\<exists>rs. header_loop [] (zip [''H1'', ''H2'', ''H3'', ''H4''] (Headers p)) = Inr rs \<and> length rs = 4 \<and> disjoint_ranges rs)"
    using validateHeaders_ok limits by blast
qed


section \<open>Properties\<close>

text \<open>C38: the AmneziaWG parameters of an accepted configuration are usable by an engine. Every number is inside its limits, junk
  packets come with ordered size bounds, the two handshake paddings cannot make the packets equal in size, the four headers are
  all absent or four ranges that are pairwise disjoint, and no setting that only the user space engine supports occurs
  together with one that only the kernel module supports.\<close>

theorem awg_params_sound:
  assumes "amneziawg_ParseConfig junk_ok raw = Inr prof" and "p_AmneziaWG prof = Some p"
  shows "in_limit (Jc p) 1280 \<and> in_limit (Jmin p) 1280 \<and> in_limit (Jmax p) 1280 \<and> in_limit (S1 p) 1132 \<and> in_limit (S2 p) 1188 \<and>
      in_limit (S3 p) 1188 \<and> in_limit (S4 p) 1188 \<and>
    (positive (Jc p) \<longrightarrow> (\<exists>a b. Jmin p = Some a \<and> Jmax p = Some b \<and> a \<le> b)) \<and>
    (\<forall>a b. S1 p = Some a \<and> S2 p = Some b \<longrightarrow> a + 56 \<noteq> b) \<and>
    (all_blank (Headers p) \<or>
      (\<exists>rs. header_loop [] (zip [''H1'', ''H2'', ''H3'', ''H4''] (Headers p)) = Inr rs \<and> length rs = 4 \<and> disjoint_ranges rs)) \<and>
    \<not> (UsesUserspaceOnlyJunk p \<and> (UsesExtendedPadding p \<or> UsesHeaderRanges p))"
proof -
  obtain i where "parseAmneziaWGParams junk_ok i = Inr (Some p)"
    using assms by (auto simp: amneziawg_ParseConfig_def empty_profile_def split: sum.splits prod.splits)
  note sound = parseAmneziaWGParams_sound [OF this]
  show ?thesis using sound(1,4,5) by (intro conjI allI impI sound(2,3)) blast+
qed

definition sample_awg :: string where
  "sample_awg = Join [''[Interface]'', ''PrivateKey = k'', ''Address = 10.0.0.2/32'', ''Jc = 4'', ''Jmin = 40'', ''Jmax = 70'',
     ''H1 = 5-9'', ''H2 = 10'', ''H3 = 11'', ''H4 = 12'', ''[Peer]'', ''PublicKey = p'', ''AllowedIPs = 0.0.0.0/0'',
     ''Endpoint = 192.0.2.1:51820''] [CHR 0x0A]"

theorem awg_params_sound_witness:
  "\<exists>prof p rs. amneziawg_ParseConfig (\<lambda>_ _. True) sample_awg = Inr prof \<and> p_AmneziaWG prof = Some p \<and> Jc p = Some 4 \<and>
     header_loop [] (zip [''H1'', ''H2'', ''H3'', ''H4''] (Headers p)) = Inr rs \<and> disjoint_ranges rs"
proof -
  have "case amneziawg_ParseConfig (\<lambda>_ _. True) sample_awg of Inl _ \<Rightarrow> False
      | Inr prof \<Rightarrow> (case p_AmneziaWG prof of None \<Rightarrow> False | Some p \<Rightarrow> Jc p = Some 4 \<and> \<not> all_blank (Headers p))" by code_simp
  then obtain prof p where h: "amneziawg_ParseConfig (\<lambda>_ _. True) sample_awg = Inr prof" "p_AmneziaWG prof = Some p"
    "Jc p = Some 4" "\<not> all_blank (Headers p)" by (auto split: sum.splits option.splits)
  from awg_params_sound [OF h(1,2)] h show ?thesis by blast
qed

end
