(* ===== verification/Vpn_Manager.thy ===== *)
theory Vpn_Manager
  imports Vpn_Providers Set_Names
begin

text \<open>
  The manager of VPN profiles: \<^verbatim>\<open>internal/vpn/manager.go\<close>, \<^verbatim>\<open>manager_prepare.go\<close>, \<^verbatim>\<open>manager_helpers.go\<close>, \<^verbatim>\<open>manager_storage.go\<close>,
  \<^verbatim>\<open>manager_supporting_files.go\<close> and \<^verbatim>\<open>manager_conflicts.go\<close>. The state is the tree below the directory of profiles (one
  directory of plain files per profile), the units handed to the unit manager, and the allocator. Each method holds the
  mutex, so it is one function of the state. What the method reads outside this tree, and which file operations fail, is
  the record \<open>vpn_env\<close>; a failed write may leave any text in the temporary file.
\<close>


section \<open>Requests and errors\<close>

record upload =
  up_Name :: string
  up_ContentBase64 :: string

record upsert_request =
  rq_Name :: string
  rq_Type :: string
  rq_Config :: string
  rq_ConfigFile :: string
  rq_SupportingFiles :: "upload list"
  rq_InterfaceName :: string
  rq_BoundInterface :: string
  rq_MSSClampV4 :: string
  rq_MSSClampV6 :: string

datatype iface_error = IfaceRequired | IfaceTooLong | IfaceInvalidChar

datatype invalid =
    BadName name_error | UnsupportedType string | EmptyConfig | BadMSS mss_error | BadConfig provider_error
  | IfaceMismatch string string | BadIface iface_error | IfaceUsedBy string string | IfaceOnSystem string
  | IfaceHasUnit string string | IfaceOfPeacey string string | BadConfigFileName | BadConfigFileExt | ObfuscationKeys
  | BadSanitized wg_error | BadRequired required_error | BadUploadName file_name_error | DuplicateUpload string
  | EmptyUpload string | UploadNotBase64 string | MissingSupportingFile string | RenameUnsupported | ConfigFileMissing

datatype vpn_error =
    ErrVPNNotFound string | ErrVPNAlreadyExists string | ErrVPNValidation invalid | ErrConf conf_error
  | ErrAlloc alloc_error | ErrAllocationConflict string | ErrIO | VPNsDirRequired

datatype fs_op =
    ReadVpnsDir | StatProfileDir | MakeDir | ChmodDir | RemoveAllDir | ReadProfileDir | ReadConf string | ReadConfig
  | MakeDirFor string | WriteTemp string | ChmodTemp string | RenameTemp string | RemoveFile string | StatFile string
  | WriteUnitOp | RemoveUnitOp

type_synonym profile_files = "(string \<times> string) list"

record vpn_env =
  ve_live :: live
  ve_interfaces :: "(vpn_error + string list) option"
  ve_systemd :: "string list file_read"
  ve_peacey :: "(string \<times> conf_entry) list file_read"
  ve_resolvconf :: bool
  ve_junk_ok :: "string \<Rightarrow> string \<Rightarrow> bool"
  ve_units :: bool
  ve_fails :: "fs_op \<Rightarrow> bool"
  ve_partial :: "string \<Rightarrow> string"

record vpn_manager =
  vm_dataDir :: string
  vm_dirs :: "(string \<times> profile_files) list"
  vm_units :: "(string \<times> string) list"
  vm_alloc :: allocator


section \<open>Names\<close>

definition validateCreateName :: "string \<Rightarrow> vpn_error + string" where
  "validateCreateName name =
     (let t = TrimSpace name in case ValidateName t of Some e \<Rightarrow> Inl (ErrVPNValidation (BadName e)) | None \<Rightarrow> Inr t)"

definition validateExistingName :: "string \<Rightarrow> vpn_error + string" where
  "validateExistingName name =
     (let t = TrimSpace name in case ValidateName t of Some e \<Rightarrow> Inl (ErrVPNValidation (BadName e)) | None \<Rightarrow> Inr t)"

definition normalizeVPNType :: "string \<Rightarrow> string" where
  "normalizeVPNType raw =
     (let t = ToLower (TrimSpace raw) in
      if t \<in> {''wireguard'', ''wg'', ''external''} then ''wireguard''
      else if t \<in> {''openvpn'', ''ovpn''} then ''openvpn''
      else if t \<in> {''amneziawg'', ''awg'', ''amnezia''} then ''amneziawg''
      else [])"

definition providerConfigValue :: "string \<Rightarrow> string" where
  "providerConfigValue ty = (if ty = ''wireguard'' then ''external'' else if ty = ''amneziawg'' then ''amneziawg'' else ''openvpn'')"

definition isWireGuardLike :: "string \<Rightarrow> bool" where
  "isWireGuardLike ty \<longleftrightarrow> ty = ''wireguard'' \<or> ty = ''amneziawg''"

definition validateInterfaceName :: "string \<Rightarrow> iface_error option" where
  "validateInterfaceName name =
     (let t = TrimSpace name in
      if t = [] then Some IfaceRequired
      else if length t > 15 then Some IfaceTooLong
      else if \<not> list_all name_char t then Some IfaceInvalidChar
      else None)"

definition shortHashHex :: "string \<Rightarrow> nat \<Rightarrow> string" where
  "shortHashHex input width = take width (hash_text input)"

definition iface_suffix :: "nat \<Rightarrow> string \<Rightarrow> string" where
  "iface_suffix maxSuffix sfx =
     (if length sfx > maxSuffix then take (maxSuffix - 3) sfx @ shortHashHex sfx 3 else sfx)"

definition inferInterfaceFromType :: "string \<Rightarrow> string \<Rightarrow> string" where
  "inferInterfaceFromType ty name =
     (let kept = filter is_alnum (ToLower name); clean = (if kept = [] then ''0'' else kept) in
      if ty = ''openvpn'' then ''tun'' @ take 3 clean
      else if ty = ''amneziawg'' then ''awg-sv-'' @ iface_suffix 8 clean
      else ''wg-sv-'' @ iface_suffix 9 clean)"

definition filepath_Ext :: "string \<Rightarrow> string" where
  "filepath_Ext name = (if CHR ''.'' \<in> set name then CHR ''.'' # after_last (CHR ''.'') name else [])"

definition resolveConfigFileName :: "string \<Rightarrow> profile option \<Rightarrow> string \<Rightarrow> string \<Rightarrow> string \<Rightarrow> vpn_error + string" where
  "resolveConfigFileName raw existing name ty interfaceName =
     (if isWireGuardLike ty
      then (let iface = TrimSpace interfaceName in
            case validateInterfaceName iface of
              Some e \<Rightarrow> Inl (ErrVPNValidation (BadIface e))
            | None \<Rightarrow> Inr (iface @ ''.conf''))
      else
        (let r0 = TrimSpace raw;
             r1 = (if r0 = [] then (case existing of None \<Rightarrow> [] | Some p \<Rightarrow> p_ConfigFile p) else r0);
             requested = (if r1 = [] then name @ ''.ovpn'' else r1);
             ext = ToLower (filepath_Ext requested)
         in if has_separator requested \<or> \<not> configFilePattern requested then Inl (ErrVPNValidation BadConfigFileName)
            else if ext = [] then Inr (requested @ ''.ovpn'')
            else if ext \<noteq> ''.ovpn'' then Inl (ErrVPNValidation BadConfigFileExt)
            else Inr requested))"

definition resolveInterfaceName :: "string \<Rightarrow> profile option \<Rightarrow> profile \<Rightarrow> string \<Rightarrow> vpn_error + string" where
  "resolveInterfaceName raw existing parsed name =
     (if isWireGuardLike (p_Type parsed)
      then (let iface = inferInterfaceFromType (p_Type parsed) name; requested = TrimSpace raw in
            if requested \<noteq> [] \<and> \<not> EqualFold requested iface then Inl (ErrVPNValidation (IfaceMismatch requested iface))
            else (case validateInterfaceName iface of
                    Some e \<Rightarrow> Inl (ErrVPNValidation (BadIface e)) | None \<Rightarrow> Inr iface))
      else
        (let i0 = TrimSpace raw;
             i1 = (if i0 = [] then (case existing of None \<Rightarrow> [] | Some p \<Rightarrow> TrimSpace (p_InterfaceName p)) else i0);
             i2 = (if i1 = [] then TrimSpace (p_InterfaceName parsed) else i1);
             iface = (if i2 = [] then inferInterfaceFromType (p_Type parsed) name else i2)
         in case validateInterfaceName iface of
              Some e \<Rightarrow> Inl (ErrVPNValidation (BadIface e)) | None \<Rightarrow> Inr iface))"

definition vpnServiceUnitName :: "string \<Rightarrow> string" where
  "vpnServiceUnitName name = ''svpn-'' @ name @ ''.service''"


section \<open>Files of a profile\<close>

definition dir_of :: "vpn_manager \<Rightarrow> string \<Rightarrow> profile_files option" where
  "dir_of m name = map_of (vm_dirs m) name"

definition file_of :: "vpn_manager \<Rightarrow> string \<Rightarrow> string \<Rightarrow> string option" where
  "file_of m name file = (case dir_of m name of None \<Rightarrow> None | Some fs \<Rightarrow> map_of fs file)"

definition entries_sorted :: "(string \<times> 'a) list \<Rightarrow> string list" where
  "entries_sorted d = sort_strings (dedup (map fst d))"

definition on_files :: "string \<Rightarrow> (profile_files \<Rightarrow> profile_files) \<Rightarrow> vpn_manager \<Rightarrow> vpn_manager" where
  "on_files name f m = m\<lparr>vm_dirs := AList.update name (f (case dir_of m name of None \<Rightarrow> [] | Some fs \<Rightarrow> fs)) (vm_dirs m)\<rparr>"

definition make_dir :: "string \<Rightarrow> vpn_manager \<Rightarrow> vpn_manager" where
  "make_dir name = on_files name (\<lambda>fs. fs)"

definition remove_dir :: "string \<Rightarrow> vpn_manager \<Rightarrow> vpn_manager" where
  "remove_dir name m = m\<lparr>vm_dirs := AList.delete name (vm_dirs m)\<rparr>"

definition io :: "vpn_env \<Rightarrow> fs_op \<Rightarrow> (vpn_manager \<Rightarrow> vpn_manager) \<Rightarrow> (vpn_error, vpn_manager) proc" where
  "io e opn f m = (if ve_fails e opn then (Some ErrIO, m) else (None, f m))"

definition remove_temp :: "vpn_env \<Rightarrow> string \<Rightarrow> string \<Rightarrow> vpn_error \<Rightarrow> (vpn_error, vpn_manager) proc" where
  "remove_temp e name tmp err =
     and_then (ignore_err (io e (RemoveFile tmp) (on_files name (AList.delete tmp)))) (fail_with err)"

definition write_temp :: "vpn_env \<Rightarrow> string \<Rightarrow> string \<Rightarrow> string \<Rightarrow> (vpn_error, vpn_manager) proc" where
  "write_temp e name tmp content m =
     (if ve_fails e (WriteTemp tmp) then (Some ErrIO, on_files name (AList.update tmp (ve_partial e tmp)) m)
      else (None, on_files name (AList.update tmp content) m))"

definition rename_temp :: "string \<Rightarrow> string \<Rightarrow> string \<Rightarrow> vpn_manager \<Rightarrow> vpn_manager" where
  "rename_temp name tmp file m =
     on_files name (\<lambda>fs. case map_of fs tmp of None \<Rightarrow> fs | Some c \<Rightarrow> AList.update file c (AList.delete tmp fs)) m"

definition writeFileAtomic :: "vpn_env \<Rightarrow> string \<Rightarrow> string \<Rightarrow> string \<Rightarrow> (vpn_error, vpn_manager) proc" where
  "writeFileAtomic e name file content =
     (let tmp = file @ ''.tmp'' in
      and_then (io e (MakeDirFor file) (make_dir name))
        (and_then (write_temp e name tmp content)
          (and_then (on_err (io e (ChmodTemp tmp) (\<lambda>m. m)) (remove_temp e name tmp))
            (on_err (io e (RenameTemp file) (rename_temp name tmp file)) (remove_temp e name tmp)))))"

definition read_conf :: "vpn_env \<Rightarrow> vpn_manager \<Rightarrow> string \<Rightarrow> conf_error + vpn_meta" where
  "read_conf e m name =
     parseVPNConf (case file_of m name ''vpn.conf'' of
         None \<Rightarrow> FileMissing
       | Some c \<Rightarrow> if ve_fails e (ReadConf name) then FileError else FileData c)"

definition detectConfigFile :: "vpn_env \<Rightarrow> vpn_manager \<Rightarrow> string \<Rightarrow> string \<Rightarrow> vpn_error + string" where
  "detectConfigFile e m name ty =
     (if ve_fails e ReadProfileDir then Inl ErrIO
      else (let allowed = (if ty = ''openvpn'' then [''.ovpn''] else [''.wg'', ''.conf'']);
                files = entries_sorted (case dir_of m name of None \<Rightarrow> [] | Some fs \<Rightarrow> fs)
            in case filter (\<lambda>f. f \<noteq> ''vpn.conf'' \<and> ToLower (filepath_Ext f) \<in> set allowed) files of
                 f # _ \<Rightarrow> Inr f
               | [] \<Rightarrow> Inl (ErrVPNValidation ConfigFileMissing)))"

definition listSupportingFiles :: "vpn_env \<Rightarrow> vpn_manager \<Rightarrow> string \<Rightarrow> string \<Rightarrow> vpn_error + string list" where
  "listSupportingFiles e m name configFileName =
     (if ve_fails e ReadProfileDir then Inl ErrIO
      else Inr (filter (\<lambda>f. f \<noteq> [] \<and> f \<noteq> ''vpn.conf'' \<and> f \<noteq> configFileName)
                  (entries_sorted (case dir_of m name of None \<Rightarrow> [] | Some fs \<Rightarrow> fs))))"

definition apply_meta :: "string \<Rightarrow> string \<Rightarrow> vpn_meta \<Rightarrow> profile \<Rightarrow> profile" where
  "apply_meta name ty vals p =
     (let get = (\<lambda>k. TrimSpace (meta_get vals k));
          dev = get ''DEV''; v4 = get ''VPN_ENDPOINT_IPV4''; v6 = get ''VPN_ENDPOINT_IPV6''
      in p\<lparr>p_InterfaceName := (if dev = [] then inferInterfaceFromType ty name else dev),
           p_RouteTable := (case Atoi (get ''ROUTE_TABLE'') of None \<Rightarrow> p_RouteTable p | Some t \<Rightarrow> t),
           p_FWMark := (case parseMarkToken (meta_get vals ''MARK'') of None \<Rightarrow> p_FWMark p | Some k \<Rightarrow> k),
           p_BoundInterface := get ''VPN_BOUND_IFACE'',
           p_MSSClampV4 := get ''MSS_CLAMPING_IPV4'',
           p_MSSClampV6 := get ''MSS_CLAMPING_IPV6'',
           p_Gateway := (if v4 \<noteq> [] then v4 else if v6 \<noteq> [] then v6 else p_Gateway p),
           p_Meta := vals\<rparr>)"

definition conf_type :: "vpn_meta \<Rightarrow> string" where
  "conf_type vals =
     (let t = normalizeVPNType (meta_get vals ''VPN_PROVIDER'') in
      if t = [] then normalizeVPNType (meta_get vals ''VPN_TYPE'') else t)"

definition read_config :: "vpn_env \<Rightarrow> vpn_manager \<Rightarrow> string \<Rightarrow> string \<Rightarrow> vpn_error + string" where
  "read_config e m name file =
     (case file_of m name file of None \<Rightarrow> Inl ErrIO | Some c \<Rightarrow> if ve_fails e ReadConfig then Inl ErrIO else Inr c)"

definition readProfileLocked :: "vpn_env \<Rightarrow> vpn_manager \<Rightarrow> string \<Rightarrow> vpn_error + profile" where
  "readProfileLocked e m name =
     (case read_conf e m name of
        Inl ConfNotExist \<Rightarrow> Inl (ErrVPNNotFound name)
      | Inl err \<Rightarrow> Inl (ErrConf err)
      | Inr vals \<Rightarrow>
          (let ty = conf_type vals; named = TrimSpace (meta_get vals ''CONFIG_FILE'') in
           case providers (ve_junk_ok e) ty of
             None \<Rightarrow> Inl (ErrVPNValidation (UnsupportedType ty))
           | Some prov \<Rightarrow>
               bindE (if named = [] then detectConfigFile e m name ty else Inr named) (\<lambda>file.
               bindE (read_config e m name file) (\<lambda>raw.
                 case ParseConfig prov raw of
                   Inl err \<Rightarrow> Inl (ErrVPNValidation (BadConfig err))
                 | Inr parsed \<Rightarrow>
                     bindE (listSupportingFiles e m name file) (\<lambda>files.
                       Inr (apply_meta name ty vals (parsed\<lparr>p_Name := name, p_Type := ty, p_ConfigFile := file,
                              p_RawConfig := raw, p_SupportingFiles := files\<rparr>)))))))"


section \<open>Supporting files\<close>

text \<open>Package encoding/base64: line ends are ignored; \<open>pad\<close> says whether the encoding is padded.\<close>

definition b64_val :: "char \<Rightarrow> nat option" where
  "b64_val c =
     (if is_upper c then Some (code c - 65)
      else if is_lower c then Some (code c - 97 + 26)
      else if is_digit c then Some (code c - 48 + 52)
      else if c = CHR ''+'' then Some 62
      else if c = CHR ''/'' then Some 63
      else None)"

definition b64_bytes :: "nat list \<Rightarrow> string" where
  "b64_bytes vs =
     (case vs of
        [a, b] \<Rightarrow> [char_of (a * 4 + b div 16)]
      | [a, b, c] \<Rightarrow> [char_of (a * 4 + b div 16), char_of (b mod 16 * 16 + c div 4)]
      | [a, b, c, d] \<Rightarrow> [char_of (a * 4 + b div 16), char_of (b mod 16 * 16 + c div 4), char_of (c mod 4 * 64 + d)]
      | _ \<Rightarrow> [])"

definition b64_group :: "string \<Rightarrow> string option" where
  "b64_group cs = (if list_all (\<lambda>c. b64_val c \<noteq> None) cs then Some (b64_bytes (map (\<lambda>c. the (b64_val c)) cs)) else None)"

fun b64_decode :: "bool \<Rightarrow> string \<Rightarrow> string option" where
  "b64_decode pad [] = Some []"
| "b64_decode pad [a] = None"
| "b64_decode pad [a, b] = (if pad then None else b64_group [a, b])"
| "b64_decode pad [a, b, c] = (if pad then None else b64_group [a, b, c])"
| "b64_decode pad (a # b # c # d # rest) =
     (if pad \<and> rest = [] \<and> c = CHR ''='' \<and> d = CHR ''='' then b64_group [a, b]
      else if pad \<and> rest = [] \<and> d = CHR ''='' then b64_group [a, b, c]
      else (case (b64_group [a, b, c, d], b64_decode pad rest) of
              (Some x, Some y) \<Rightarrow> Some (x @ y)
            | _ \<Rightarrow> None))"

definition DecodeString :: "bool \<Rightarrow> string \<Rightarrow> string option" where
  "DecodeString pad s = b64_decode pad (filter (\<lambda>c. c \<noteq> CHR 0x0A \<and> c \<noteq> CHR 0x0D) s)"

definition decode_upload :: "upload \<Rightarrow> vpn_error + string \<times> string" where
  "decode_upload item =
     (case sanitizeSupportingFileName (up_Name item) of
        Inl err \<Rightarrow> Inl (ErrVPNValidation (BadUploadName err))
      | Inr name \<Rightarrow>
          (let content = TrimSpace (up_ContentBase64 item) in
           if content = [] then Inl (ErrVPNValidation (EmptyUpload name))
           else (case (case DecodeString True content of None \<Rightarrow> DecodeString False content | d \<Rightarrow> d) of
                   None \<Rightarrow> Inl (ErrVPNValidation (UploadNotBase64 name))
                 | Some d \<Rightarrow> if d = [] then Inl (ErrVPNValidation (EmptyUpload name)) else Inr (name, d))))"

fun parse_uploads :: "(string \<times> string) list \<Rightarrow> upload list \<Rightarrow> vpn_error + (string \<times> string) list" where
  "parse_uploads acc [] = Inr acc"
| "parse_uploads acc (item # items) =
     (case sanitizeSupportingFileName (up_Name item) of
        Inl err \<Rightarrow> Inl (ErrVPNValidation (BadUploadName err))
      | Inr name \<Rightarrow>
          if name \<in> fst ` set acc then Inl (ErrVPNValidation (DuplicateUpload name))
          else (case decode_upload item of Inl err \<Rightarrow> Inl err | Inr f \<Rightarrow> parse_uploads (acc @ [f]) items))"

definition parseSupportingUploads :: "upload list \<Rightarrow> vpn_error + (string \<times> string) list" where
  "parseSupportingUploads = parse_uploads []"

fun validateRequiredSupportingFiles :: "(string \<Rightarrow> bool) \<Rightarrow> string list \<Rightarrow> (string \<times> string) list \<Rightarrow> vpn_error option" where
  "validateRequiredSupportingFiles present [] uploads = None"
| "validateRequiredSupportingFiles present (f # fs) uploads =
     (if f \<in> fst ` set uploads \<or> present f then validateRequiredSupportingFiles present fs uploads
      else Some (ErrVPNValidation (MissingSupportingFile f)))"

definition supportingFileExists :: "vpn_env \<Rightarrow> vpn_manager \<Rightarrow> string \<Rightarrow> string \<Rightarrow> bool" where
  "supportingFileExists e m name file \<longleftrightarrow> \<not> ve_fails e (StatFile file) \<and> file_of m name file \<noteq> None"

definition writeSupportingUploads :: "vpn_env \<Rightarrow> string \<Rightarrow> (string \<times> string) list \<Rightarrow> (vpn_error, vpn_manager) proc" where
  "writeSupportingUploads e name uploads =
     for_each (\<lambda>f. writeFileAtomic e name f (meta_get uploads f)) (sort_strings (map fst uploads))"

section \<open>Conflicts\<close>

record external_alloc =
  xa_name :: string
  xa_device :: string
  xa_routeTable :: int
  xa_mark :: "32 word"

definition external_of :: "string \<Rightarrow> vpn_meta \<Rightarrow> external_alloc" where
  "external_of name vals =
     \<lparr>xa_name = name, xa_device = TrimSpace (meta_get vals ''DEV''),
      xa_routeTable = (case Atoi (TrimSpace (meta_get vals ''ROUTE_TABLE'')) of None \<Rightarrow> 0 | Some t \<Rightarrow> if t > 0 then t else 0),
      xa_mark = (case parseMarkToken (meta_get vals ''MARK'') of None \<Rightarrow> 0 | Some k \<Rightarrow> k)\<rparr>"

fun peacey_entries :: "(string \<times> conf_entry) list \<Rightarrow> vpn_error + external_alloc list" where
  "peacey_entries [] = Inr []"
| "peacey_entries ((name, entry) # es) =
     (if \<not> entry_is_dir entry then peacey_entries es
      else (case parseVPNConf (entry_conf entry) of
              Inl ConfNotExist \<Rightarrow> peacey_entries es
            | Inl err \<Rightarrow> Inl (ErrConf err)
            | Inr vals \<Rightarrow>
                (let x = external_of name vals in
                 if xa_device x = [] \<and> xa_routeTable x = 0 \<and> xa_mark x = 0 then peacey_entries es
                 else bindE (peacey_entries es) (\<lambda>xs. Inr (x # xs)))))"

definition readPeaceyAllocationsLocked :: "vpn_env \<Rightarrow> vpn_error + external_alloc list" where
  "readPeaceyAllocationsLocked e =
     (case ve_peacey e of FileMissing \<Rightarrow> Inr [] | FileError \<Rightarrow> Inl ErrIO | FileData es \<Rightarrow> peacey_entries es)"

fun managed_conflict :: "vpn_env \<Rightarrow> vpn_manager \<Rightarrow> string \<Rightarrow> string \<Rightarrow> string list \<Rightarrow> vpn_error option" where
  "managed_conflict e m name iface [] = None"
| "managed_conflict e m name iface (d # ds) =
     (if d = name then managed_conflict e m name iface ds
      else (case read_conf e m d of
              Inl ConfNotExist \<Rightarrow> managed_conflict e m name iface ds
            | Inl err \<Rightarrow> Some (ErrConf err)
            | Inr vals \<Rightarrow>
                (let candidate = TrimSpace (meta_get vals ''DEV'') in
                 if candidate \<noteq> [] \<and> EqualFold candidate iface then Some (ErrVPNValidation (IfaceUsedBy iface d))
                 else managed_conflict e m name iface ds)))"

definition ensureInterfaceUniqueAmongManagedLocked :: "vpn_env \<Rightarrow> vpn_manager \<Rightarrow> string \<Rightarrow> string \<Rightarrow> vpn_error option" where
  "ensureInterfaceUniqueAmongManagedLocked e m name iface =
     (if ve_fails e ReadVpnsDir then Some ErrIO else managed_conflict e m name iface (entries_sorted (vm_dirs m)))"

definition ensureInterfaceUniqueAgainstSystemLocked :: "vpn_env \<Rightarrow> string \<Rightarrow> profile option \<Rightarrow> vpn_error option" where
  "ensureInterfaceUniqueAgainstSystemLocked e iface existing =
     (case ve_interfaces e of
        None \<Rightarrow> None
      | Some (Inl err) \<Rightarrow> Some err
      | Some (Inr names) \<Rightarrow>
          if \<not> list_ex (\<lambda>n. EqualFold n iface) names then None
          else if (case existing of None \<Rightarrow> False | Some p \<Rightarrow> EqualFold (TrimSpace (p_InterfaceName p)) iface) then None
          else Some (ErrVPNValidation (IfaceOnSystem iface)))"

definition unit_interface :: "string \<Rightarrow> string option" where
  "unit_interface unt =
     (if HasPrefix unt ''wg-quick@'' \<and> HasSuffix unt ''.service''
      then (let s = TrimPrefix unt ''wg-quick@'' in
            Some (if HasSuffix s ''.service'' then take (length s - 8) s else s))
      else None)"

definition ensureInterfaceNotReservedByWGQuickLocked :: "vpn_env \<Rightarrow> string \<Rightarrow> vpn_error option" where
  "ensureInterfaceNotReservedByWGQuickLocked e iface =
     (case ve_systemd e of
        FileMissing \<Rightarrow> None
      | FileError \<Rightarrow> Some ErrIO
      | FileData unts \<Rightarrow>
          (case filter (\<lambda>u. case unit_interface u of None \<Rightarrow> False | Some i \<Rightarrow> EqualFold (TrimSpace i) iface) unts of
             [] \<Rightarrow> None
           | u # _ \<Rightarrow> Some (ErrVPNValidation (IfaceHasUnit iface u))))"

definition peacey_interface :: "vpn_env \<Rightarrow> string \<Rightarrow> vpn_error option" where
  "peacey_interface e iface =
     (case readPeaceyAllocationsLocked e of
        Inl err \<Rightarrow> Some err
      | Inr xs \<Rightarrow> (case filter (\<lambda>x. EqualFold (xa_device x) iface) xs of
                     [] \<Rightarrow> None | x # _ \<Rightarrow> Some (ErrVPNValidation (IfaceOfPeacey iface (xa_name x)))))"

definition first_error :: "'e option \<Rightarrow> 'e option \<Rightarrow> 'e option" where
  "first_error a b = (case a of Some x \<Rightarrow> Some x | None \<Rightarrow> b)"

definition ensureInterfaceUniqueLocked :: "vpn_env \<Rightarrow> vpn_manager \<Rightarrow> string \<Rightarrow> string \<Rightarrow> profile option \<Rightarrow> vpn_error option" where
  "ensureInterfaceUniqueLocked e m name iface existing =
     first_error (ensureInterfaceUniqueAmongManagedLocked e m name iface)
       (first_error (ensureInterfaceUniqueAgainstSystemLocked e iface existing)
         (first_error (ensureInterfaceNotReservedByWGQuickLocked e iface) (peacey_interface e iface)))"

definition ensureAllocationNoPeaceyConflictLocked :: "vpn_env \<Rightarrow> int \<Rightarrow> 32 word \<Rightarrow> vpn_error option" where
  "ensureAllocationNoPeaceyConflictLocked e table mark =
     (if table \<le> 0 \<and> mark = 0 then None
      else (case readPeaceyAllocationsLocked e of
              Inl err \<Rightarrow> Some err
            | Inr xs \<Rightarrow>
                (case filter (\<lambda>x. table > 0 \<and> xa_routeTable x = table \<or> mark > 0 \<and> xa_mark x = mark) xs of
                   [] \<Rightarrow> None | x # _ \<Rightarrow> Some (ErrAllocationConflict (xa_name x)))))"


section \<open>Preparing a profile\<close>

record prepared =
  pr_meta :: vpn_meta
  pr_rawConfig :: string
  pr_configFileName :: string
  pr_warnings :: "string list"
  pr_required :: "string list"
  pr_tableReserved :: int
  pr_markReserved :: "32 word"
  pr_releaseTable :: int
  pr_releaseMark :: "32 word"
  pr_unitName :: string
  pr_unitContent :: string

definition resolveProvider :: "vpn_env \<Rightarrow> string \<Rightarrow> profile option \<Rightarrow> vpn_error + string \<times> provider" where
  "resolveProvider e rawType existing =
     (let t0 = normalizeVPNType rawType;
          ty = (if t0 = [] then (case existing of None \<Rightarrow> [] | Some p \<Rightarrow> normalizeVPNType (p_Type p)) else t0)
      in case providers (ve_junk_ok e) ty of
           None \<Rightarrow> Inl (ErrVPNValidation (UnsupportedType rawType)) | Some prov \<Rightarrow> Inr (ty, prov))"

text \<open>The table in use, the table newly reserved (0 if none) and the table to release after the update.\<close>

definition resolveRouteTableLocked :: "vpn_env \<Rightarrow> profile \<Rightarrow> profile option \<Rightarrow> allocator \<Rightarrow> (vpn_error + int \<times> int \<times> int) \<times> allocator" where
  "resolveRouteTableLocked e parsed existing a =
     (let old = (case existing of None \<Rightarrow> 0 | Some p \<Rightarrow> p_RouteTable p); new = p_RouteTable parsed in
      if new > 0 then
        (if existing \<noteq> None \<and> new = old then (Inr (new, 0, 0), a)
         else (case Reserve (ve_live e) new 0 a of
                 (Some err, a') \<Rightarrow> (Inl (ErrAlloc err), a')
               | (None, a') \<Rightarrow> (Inr (new, new, if old > 0 then old else 0), a')))
      else if old > 0 then (Inr (old, 0, 0), a)
      else (case AllocateTable (ve_live e) a of
              (Inl err, a') \<Rightarrow> (Inl (ErrAlloc err), a')
            | (Inr t, a') \<Rightarrow> (Inr (t, t, 0), a')))"

definition resolveMarkLocked :: "vpn_env \<Rightarrow> profile option \<Rightarrow> allocator \<Rightarrow> (vpn_error + (32 word) \<times> (32 word) \<times> (32 word)) \<times> allocator" where
  "resolveMarkLocked e existing a =
     (let old = (case existing of None \<Rightarrow> 0 | Some p \<Rightarrow> p_FWMark p) in
      if old \<ge> minFWMark then (Inr (old, 0, 0), a)
      else (case AllocateMark (ve_live e) a of
              (Inl err, a') \<Rightarrow> (Inl (ErrAlloc err), a')
            | (Inr k, a') \<Rightarrow> (Inr (k, k, 0), a')))"

definition validate_mss :: "string \<Rightarrow> vpn_error + string" where
  "validate_mss v = (case ValidateMSSClamp v of Inl err \<Rightarrow> Inl (ErrVPNValidation (BadMSS err)) | Inr r \<Rightarrow> Inr r)"

definition check :: "'e option \<Rightarrow> 'e + unit" where
  "check x = (case x of Some err \<Rightarrow> Inl err | None \<Rightarrow> Inr ())"

text \<open>The configuration of the type: the text to store, warnings, and the files it needs.\<close>

definition awg_warnings :: "awg_params option \<Rightarrow> string list" where
  "awg_warnings params =
     (if awg_IsEmpty params then [''No AmneziaWG obfuscation parameters set; the tunnel will behave like vanilla WireGuard''] else []) @
     (case params of
        None \<Rightarrow> []
      | Some p \<Rightarrow>
          if UsesExtendedPadding p \<or> UsesHeaderRanges p
          then [''S3/S4 padding or H1-H4 ranges require the amneziawg kernel module; the tunnel will fail to start until one is installed'']
          else [])"

definition stored_config :: "vpn_env \<Rightarrow> string \<Rightarrow> profile \<Rightarrow> string \<Rightarrow> int \<Rightarrow> vpn_error + string \<times> string list \<times> string list" where
  "stored_config e ty parsed rawConfig table =
     (if isWireGuardLike ty
      then (if ty = ''wireguard'' \<and> (case p_WireGuard parsed of None \<Rightarrow> False | Some w \<Rightarrow> HasAmneziaWGKeys (Interface w))
            then Inl (ErrVPNValidation ObfuscationKeys)
            else (case sanitizeWireGuardConfig rawConfig table (ve_resolvconf e) of
                    Inl err \<Rightarrow> Inl (ErrVPNValidation (BadSanitized err))
                  | Inr (text1, warnings) \<Rightarrow>
                      Inr (text1, warnings @ (if ty = ''amneziawg'' then awg_warnings (p_AmneziaWG parsed) else []), [])))
      else if ty = ''openvpn''
      then (case p_OpenVPN parsed of
              None \<Rightarrow> Inr (rawConfig, [], [])
            | Some cfg \<Rightarrow> (case requiredOpenVPNFiles cfg of
                              Inl err \<Rightarrow> Inl (ErrVPNValidation (BadRequired err))
                            | Inr files \<Rightarrow> Inr (rawConfig, [], files)))
      else Inr (rawConfig, [], []))"

definition mark_text :: "32 word \<Rightarrow> string" where
  "mark_text k = ''0x'' @ show_hex (unat k)"

definition if_set :: "string \<Rightarrow> string \<Rightarrow> vpn_meta" where
  "if_set key v = (if v = [] then [] else [(key, v)])"

definition meta_of :: "string \<Rightarrow> string \<Rightarrow> int \<Rightarrow> 32 word \<Rightarrow> string \<Rightarrow> string \<Rightarrow> string \<Rightarrow> string \<Rightarrow> string \<Rightarrow> vpn_meta" where
  "meta_of ty iface table mark configFile gateway bound mss4 mss6 =
     [(''VPN_PROVIDER'', providerConfigValue ty), (''DEV'', iface), (''ROUTE_TABLE'', Itoa table), (''MARK'', mark_text mark),
      (''FORCED_IPSETS'', []), (''CONFIG_FILE'', configFile)] @
     if_set (if CHR '':'' \<in> set gateway then ''VPN_ENDPOINT_IPV6'' else ''VPN_ENDPOINT_IPV4'') gateway @
     if_set ''VPN_BOUND_IFACE'' bound @ if_set ''MSS_CLAMPING_IPV4'' mss4 @ if_set ''MSS_CLAMPING_IPV6'' mss6"

record checked =
  ck_type :: string
  ck_provider :: provider
  ck_raw :: string
  ck_mss4 :: string
  ck_mss6 :: string
  ck_parsed :: profile
  ck_iface :: string
  ck_file :: string

text \<open>The part of the preparation before the allocator is used.\<close>

definition check_request :: "vpn_env \<Rightarrow> vpn_manager \<Rightarrow> string \<Rightarrow> upsert_request \<Rightarrow> profile option \<Rightarrow> vpn_error + checked" where
  "check_request e m name req existing =
     bindE (resolveProvider e (rq_Type req) existing) (\<lambda>(ty, prov).
     (let raw0 = TrimSpace (rq_Config req);
          raw = (if raw0 = [] then (case existing of None \<Rightarrow> [] | Some p \<Rightarrow> p_RawConfig p) else raw0)
      in if raw = [] then Inl (ErrVPNValidation EmptyConfig)
         else
           bindE (validate_mss (rq_MSSClampV4 req)) (\<lambda>mss4.
           bindE (validate_mss (rq_MSSClampV6 req)) (\<lambda>mss6.
             (case ParseConfig prov raw of
                Inl err \<Rightarrow> Inl (ErrVPNValidation (BadConfig err))
              | Inr parsed0 \<Rightarrow>
                  (let parsed = parsed0\<lparr>p_Name := name, p_Type := ty\<rparr> in
                   bindE (resolveInterfaceName (rq_InterfaceName req) existing parsed name) (\<lambda>iface.
                   bindE (check (ensureInterfaceUniqueLocked e m name iface existing)) (\<lambda>_.
                   bindE (resolveConfigFileName (rq_ConfigFile req) existing name ty iface) (\<lambda>file.
                     Inr \<lparr>ck_type = ty, ck_provider = prov, ck_raw = raw, ck_mss4 = mss4, ck_mss6 = mss6,
                          ck_parsed = parsed\<lparr>p_ConfigFile := file\<rparr>, ck_iface = iface, ck_file = file\<rparr>)))))))))"

definition bound_of :: "upsert_request \<Rightarrow> profile option \<Rightarrow> string" where
  "bound_of req existing =
     (let b = TrimSpace (rq_BoundInterface req) in
      if b = [] then (case existing of None \<Rightarrow> [] | Some p \<Rightarrow> p_BoundInterface p) else b)"

definition assemble :: "vpn_env \<Rightarrow> vpn_manager \<Rightarrow> string \<Rightarrow> upsert_request \<Rightarrow> profile option \<Rightarrow> checked \<Rightarrow>
    int \<times> int \<times> int \<Rightarrow> (32 word) \<times> (32 word) \<times> (32 word) \<Rightarrow> string \<times> string list \<times> string list \<Rightarrow> prepared" where
  "assemble e m name req existing c tabs marks cfg =
     (case (tabs, marks, cfg) of ((table, rt, relt), (mark, rm, relm), (text1, warnings, required)) \<Rightarrow>
       \<lparr>pr_meta = meta_of (ck_type c) (ck_iface c) table mark (ck_file c) (p_Gateway (ck_parsed c)) (bound_of req existing) (ck_mss4 c) (ck_mss6 c),
        pr_rawConfig = text1, pr_configFileName = ck_file c, pr_warnings = warnings, pr_required = required,
        pr_tableReserved = rt, pr_markReserved = rm, pr_releaseTable = relt, pr_releaseMark = relm,
        pr_unitName = vpnServiceUnitName name,
        pr_unitContent = GenerateUnit (ck_provider c)
          (empty_profile\<lparr>p_Name := name, p_Type := ck_type c, p_ConfigFile := ck_file c, p_InterfaceName := ck_iface c\<rparr>) (vm_dataDir m)\<rparr>)"

text \<open>\<^verbatim>\<open>prepareProfileLocked\<close>: every error after an allocation releases what was reserved.\<close>

definition prepareProfileLocked :: "vpn_env \<Rightarrow> vpn_manager \<Rightarrow> string \<Rightarrow> upsert_request \<Rightarrow> profile option \<Rightarrow> (vpn_error + prepared) \<times> allocator" where
  "prepareProfileLocked e m name req existing =
     (case check_request e m name req existing of
        Inl err \<Rightarrow> (Inl err, vm_alloc m)
      | Inr c \<Rightarrow>
          (case resolveRouteTableLocked e (ck_parsed c) existing (vm_alloc m) of
             (Inl err, a) \<Rightarrow> (Inl err, a)
           | (Inr (table, rt, relt), a) \<Rightarrow>
               (case resolveMarkLocked e existing a of
                  (Inl err, b) \<Rightarrow> (Inl err, Release rt 0 b)
                | (Inr (mark, rm, relm), b) \<Rightarrow>
                    (case ensureAllocationNoPeaceyConflictLocked e table mark of
                       Some err \<Rightarrow> (Inl err, Release rt rm b)
                     | None \<Rightarrow>
                         (case stored_config e (ck_type c) (ck_parsed c) (ck_raw c) table of
                            Inl err \<Rightarrow> (Inl err, Release rt rm b)
                          | Inr cfg \<Rightarrow> (Inr (assemble e m name req existing c (table, rt, relt) (mark, rm, relm) cfg), b))))))"

section \<open>Operations\<close>

definition with_alloc :: "(allocator \<Rightarrow> allocator) \<Rightarrow> vpn_manager \<Rightarrow> vpn_manager" where
  "with_alloc f m = m\<lparr>vm_alloc := f (vm_alloc m)\<rparr>"

definition give_back :: "prepared \<Rightarrow> vpn_manager \<Rightarrow> vpn_manager" where
  "give_back p = with_alloc (Release (pr_tableReserved p) (pr_markReserved p))"

text \<open>The error branches: release the reservation, and in \<^verbatim>\<open>Create\<close> also remove the directory.\<close>

definition or_release :: "prepared \<Rightarrow> (vpn_error, vpn_manager) proc \<Rightarrow> (vpn_error, vpn_manager) proc" where
  "or_release p act = on_err act (\<lambda>err m. (Some err, give_back p m))"

definition or_undo :: "vpn_env \<Rightarrow> string \<Rightarrow> prepared \<Rightarrow> (vpn_error, vpn_manager) proc \<Rightarrow> (vpn_error, vpn_manager) proc" where
  "or_undo e name p act =
     on_err act (\<lambda>err m. and_then (ignore_err (io e RemoveAllDir (remove_dir name))) (fail_with err) (give_back p m))"

definition write_unit :: "vpn_env \<Rightarrow> prepared \<Rightarrow> (vpn_error, vpn_manager) proc" where
  "write_unit e p =
     when_ok (ve_units e) (io e WriteUnitOp (\<lambda>m. m\<lparr>vm_units := AList.update (pr_unitName p) (pr_unitContent p) (vm_units m)\<rparr>))"

definition check_uploads :: "(string \<Rightarrow> bool) \<Rightarrow> prepared \<Rightarrow> upsert_request \<Rightarrow> vpn_error + (string \<times> string) list" where
  "check_uploads present p req =
     bindE (parseSupportingUploads (rq_SupportingFiles req)) (\<lambda>uploads.
     bindE (check (validateRequiredSupportingFiles present (pr_required p) uploads)) (\<lambda>_. Inr uploads))"

definition with_warnings :: "prepared \<Rightarrow> vpn_error + profile \<Rightarrow> vpn_error + profile" where
  "with_warnings p r = (case r of Inl err \<Rightarrow> Inl err | Inr prof \<Rightarrow> Inr (prof\<lparr>p_Warnings := p_Warnings prof @ pr_warnings p\<rparr>))"

definition finish_with :: "vpn_env \<Rightarrow> string \<Rightarrow> prepared \<Rightarrow> vpn_error option \<times> vpn_manager \<Rightarrow> (vpn_error + profile) \<times> vpn_manager" where
  "finish_with e name p r =
     (case r of (Some err, m) \<Rightarrow> (Inl err, m) | (None, m) \<Rightarrow> (with_warnings p (readProfileLocked e m name), m))"

definition create_files :: "vpn_env \<Rightarrow> string \<Rightarrow> prepared \<Rightarrow> (string \<times> string) list \<Rightarrow> (vpn_error, vpn_manager) proc" where
  "create_files e name p uploads =
     and_then (or_release p (io e MakeDir (make_dir name)))
       (and_then (or_undo e name p (io e ChmodDir (\<lambda>m. m)))
         (and_then (or_undo e name p (writeSupportingUploads e name uploads))
           (and_then (or_undo e name p (writeFileAtomic e name (pr_configFileName p) (pr_rawConfig p)))
             (and_then (or_undo e name p (writeFileAtomic e name ''vpn.conf'' (renderVPNConf (pr_meta p))))
               (or_undo e name p (write_unit e p))))))"

definition vpn_Create :: "vpn_env \<Rightarrow> upsert_request \<Rightarrow> vpn_manager \<Rightarrow> (vpn_error + profile) \<times> vpn_manager" where
  "vpn_Create e req m =
     (case validateCreateName (rq_Name req) of
        Inl err \<Rightarrow> (Inl err, m)
      | Inr name \<Rightarrow>
          if ve_fails e StatProfileDir then (Inl ErrIO, m)
          else if dir_of m name \<noteq> None then (Inl (ErrVPNAlreadyExists name), m)
          else (case prepareProfileLocked e m name req None of
                  (Inl err, a) \<Rightarrow> (Inl err, m\<lparr>vm_alloc := a\<rparr>)
                | (Inr p, a) \<Rightarrow>
                    (let m1 = m\<lparr>vm_alloc := a\<rparr> in
                     case check_uploads (\<lambda>_. False) p req of
                       Inl err \<Rightarrow> (Inl err, give_back p m1)
                     | Inr uploads \<Rightarrow> finish_with e name p (create_files e name p uploads m1))))"

definition drop_old_config :: "vpn_env \<Rightarrow> string \<Rightarrow> profile \<Rightarrow> prepared \<Rightarrow> (vpn_error, vpn_manager) proc" where
  "drop_old_config e name existing p =
     when_ok (p_ConfigFile existing \<noteq> [] \<and> p_ConfigFile existing \<noteq> pr_configFileName p)
       (ignore_err (io e (RemoveFile (p_ConfigFile existing)) (on_files name (AList.delete (p_ConfigFile existing)))))"

definition release_old :: "prepared \<Rightarrow> vpn_manager \<Rightarrow> vpn_manager" where
  "release_old p m =
     (if pr_releaseTable p > 0 \<or> pr_releaseMark p > 0 then with_alloc (Release (pr_releaseTable p) (pr_releaseMark p)) m else m)"

definition update_files :: "vpn_env \<Rightarrow> string \<Rightarrow> profile \<Rightarrow> prepared \<Rightarrow> (string \<times> string) list \<Rightarrow> (vpn_error, vpn_manager) proc" where
  "update_files e name existing p uploads =
     and_then (or_release p (writeSupportingUploads e name uploads))
       (and_then (or_release p (writeFileAtomic e name (pr_configFileName p) (pr_rawConfig p)))
         (and_then (or_release p (writeFileAtomic e name ''vpn.conf'' (renderVPNConf (pr_meta p))))
           (and_then (on_err (write_unit e p) (\<lambda>err m. (Some err, release_old p m)))
             (and_then (drop_old_config e name existing p) (\<lambda>m. (None, release_old p m))))))"

definition vpn_Update :: "vpn_env \<Rightarrow> string \<Rightarrow> upsert_request \<Rightarrow> vpn_manager \<Rightarrow> (vpn_error + profile) \<times> vpn_manager" where
  "vpn_Update e rawName req m =
     (case validateExistingName rawName of
        Inl err \<Rightarrow> (Inl err, m)
      | Inr name \<Rightarrow>
          if rq_Name req \<noteq> [] \<and> rq_Name req \<noteq> name then (Inl (ErrVPNValidation RenameUnsupported), m)
          else (case readProfileLocked e m name of
                  Inl err \<Rightarrow> (Inl err, m)
                | Inr existing \<Rightarrow>
                    (case prepareProfileLocked e m name req (Some existing) of
                       (Inl err, a) \<Rightarrow> (Inl err, m\<lparr>vm_alloc := a\<rparr>)
                     | (Inr p, a) \<Rightarrow>
                         (let m1 = m\<lparr>vm_alloc := a\<rparr> in
                          case check_uploads (supportingFileExists e m name) p req of
                            Inl err \<Rightarrow> (Inl err, give_back p m1)
                          | Inr uploads \<Rightarrow> finish_with e name p (update_files e name existing p uploads m1)))))"

definition vpn_Delete :: "vpn_env \<Rightarrow> string \<Rightarrow> (vpn_error, vpn_manager) proc" where
  "vpn_Delete e rawName m =
     (case validateExistingName rawName of
        Inl err \<Rightarrow> (Some err, m)
      | Inr name \<Rightarrow>
          (case readProfileLocked e m name of
             Inl err \<Rightarrow> (Some err, m)
           | Inr prof \<Rightarrow>
               and_then (when_ok (ve_units e)
                   (io e RemoveUnitOp (\<lambda>m. m\<lparr>vm_units := AList.delete (vpnServiceUnitName name) (vm_units m)\<rparr>)))
                 (and_then (io e RemoveAllDir (remove_dir name))
                   (\<lambda>m. (None, with_alloc (Release (p_RouteTable prof) (p_FWMark prof)) m))) m))"

definition vpn_Get :: "vpn_env \<Rightarrow> string \<Rightarrow> vpn_manager \<Rightarrow> vpn_error + profile" where
  "vpn_Get e name m = bindE (validateExistingName name) (readProfileLocked e m)"

definition vpn_List :: "vpn_env \<Rightarrow> vpn_manager \<Rightarrow> vpn_error + profile list" where
  "vpn_List e m =
     (if ve_fails e ReadVpnsDir then Inl ErrIO
      else bindE (traverse (readProfileLocked e m) (entries_sorted (vm_dirs m))) (\<lambda>ps. Inr (sort_key p_Name ps)))"

text \<open>\<^verbatim>\<open>filepath.Dir\<close> of a clean path.\<close>

definition clean_Dir :: "string \<Rightarrow> string" where
  "clean_Dir p = (if CHR ''/'' \<notin> set p then ''.'' else if before_last (CHR ''/'') p = [] then ''/'' else before_last (CHR ''/'') p)"

definition vpn_NewManager :: "vpn_env \<Rightarrow> string \<Rightarrow> allocator option \<Rightarrow> (string \<times> profile_files) list \<Rightarrow> (string \<times> string) list \<Rightarrow> vpn_error + vpn_manager" where
  "vpn_NewManager e root alloc dirs unts =
     (let t = TrimSpace root in
      if t = [] then Inl VPNsDirRequired
      else if ve_fails e MakeDir \<or> ve_fails e ChmodDir then Inl ErrIO
      else bindE (case alloc of
             Some a \<Rightarrow> Inr a
           | None \<Rightarrow> (case newAllocator t [''/data/split-vpn''] (ve_live e) of Inl err \<Rightarrow> Inl (ErrAlloc err) | Inr a \<Rightarrow> Inr a))
           (\<lambda>a. Inr \<lparr>vm_dataDir = clean_Dir t, vm_dirs = dirs, vm_units = unts, vm_alloc = a\<rparr>))"

end
