(* ===== verification/Vpn_Manager_Safety.thy ===== *)
theory Vpn_Manager_Safety
  imports Vpn_Manager
begin

text \<open>
  What the VPN manager guarantees. The abstraction of a manager state is \<open>conf_at\<close>: the readable \<^verbatim>\<open>vpn.conf\<close> of every
  profile. A file operation changes it at one name or not at all; the allocator covers the tables and marks it names. The
  invariant says that no two profiles share a table, a mark or an interface, and it is kept by every operation with any
  pattern of failing file operations except a failing removal of a directory.
\<close>


section \<open>Reading back a rendered file\<close>

definition read_back :: "string \<Rightarrow> string \<Rightarrow> string" where
  "read_back k v = (if raw_key k then trim_quotes (TrimSpace v) else trim_quotes (quote v))"

lemma quote_ends: "\<exists>u. quote v = CHR 0x22 # u \<and> last (quote v) = CHR 0x22"
  by (simp add: quote_def)

lemma quote_not_space: "\<not> is_space (last (CHR ''='' # quote v))" "TrimSpace (quote v) = quote v"
  by (auto simp: quote_def is_space_def trimmed_def intro!: TrimSpace_id)

lemma parse_rendered_line:
  assumes "key_ok k"
  shows "parse_conf_line (render_line k v) = Some (k, read_back k v)"
proof (cases "raw_key k")
  case True
  have "\<not> is_space (last (CHR ''='' # TrimSpace v))"
    using trimmed_TrimSpace [of v] by (cases "TrimSpace v = []") (auto simp: trimmed_def is_space_def simp del: trimmed_TrimSpace)
  from parse_key_value [OF assms refl this] True show ?thesis
    by (simp add: render_line_def read_back_def)
next
  case False
  from parse_key_value [OF assms refl quote_not_space(1) [of v]] False show ?thesis
    by (simp add: render_line_def read_back_def quote_not_space(2))
qed

lemma show_base_printable: "c \<in> set (show_base 16 n) \<Longrightarrow> 32 \<le> code c"
proof (induction "16::nat" n rule: show_base.induct)
  case (1 n)
  have "32 \<le> code (digit_char d)" if "d < 16" for d
    using that by (auto simp: digit_char_def)
  with 1 show ?case by (auto simp: show_base.simps [of 16 n] split: if_splits)
qed

lemma quote_char_printable: "c \<in> set (quote_char d) \<Longrightarrow> 32 \<le> code c"
  by (auto simp: quote_char_def hex2_def pad_zero_def show_hex_def show_base_printable split: if_splits)

definition printable_line :: "string \<Rightarrow> bool" where
  "printable_line l \<longleftrightarrow> l \<noteq> [] \<and> list_all (\<lambda>c. 32 \<le> code c) l"

definition entry_fine :: "string \<times> string \<Rightarrow> bool" where
  "entry_fine e \<longleftrightarrow> key_ok (fst e) \<and> (raw_key (fst e) \<longrightarrow> list_all (\<lambda>c. 32 \<le> code c) (snd e))"

lemma quote_printable: "list_all (\<lambda>c. 32 \<le> code c) (quote v)"
  using quote_char_printable by (fastforce simp: quote_def list_all_iff)

lemma key_printable: "key_ok k \<Longrightarrow> list_all (\<lambda>c. 32 \<le> code c) k"
  by (simp add: key_ok_def list_all_iff plain_char_def)

lemma TrimSpace_printable: "list_all (\<lambda>c. 32 \<le> code c) v \<Longrightarrow> list_all (\<lambda>c. 32 \<le> code c) (TrimSpace v)"
  using set_TrimSpace [of v] by (auto simp: list_all_iff)

lemma render_line_printable: "entry_fine (k, v) \<Longrightarrow> printable_line (render_line k v)"
  unfolding entry_fine_def printable_line_def render_line_def
  by (cases "raw_key k") (simp_all add: key_printable TrimSpace_printable quote_printable)

lemma printable_no_newline: "printable_line l \<Longrightarrow> CHR 0x0A \<notin> set l \<and> l \<noteq> [] \<and> drop_cr l = l"
proof -
  assume "printable_line l"
  then have l: "l \<noteq> []" "\<forall>c \<in> set l. 32 \<le> code c" by (auto simp: printable_line_def list_all_iff)
  have "32 \<le> code (last l)" using l last_in_set by blast
  then have "last l \<noteq> CHR 0x0D" by auto
  with l show ?thesis by (auto simp: drop_cr_def)
qed

lemma parse_rendered:
  assumes fine: "list_all entry_fine m" and ne: "m \<noteq> []" and d: "distinct (map fst m)"
    and ok: "parseVPNConf (FileData (renderVPNConf m)) = Inr vals" and e: "(k, v) \<in> set m"
  shows "map_of vals k = Some (read_back k v)"
proof -
  have get: "meta_get m k' = v'" if "(k', v') \<in> set m" for k' v'
    using that d by (simp add: meta_get_def)
  have entry: "entry_fine (k', meta_get m k')" if "k' \<in> set (render_keys m)" for k'
    using that fine get by (auto simp: set_render_keys list_all_iff)
  then have lines: "list_all printable_line (render_lines m)"
    by (auto simp: render_lines_def list_all_iff render_line_printable)
  moreover have "render_lines m \<noteq> []" using ne set_render_keys [of m] by (auto simp: render_lines_def)
  ultimately have "content_lines (renderVPNConf m) = render_lines m"
    using Split_lines [of "render_lines m"] printable_no_newline
    by (simp add: content_lines_def renderVPNConf_def list_all_iff)
  then have sc: "scan_lines (renderVPNConf m) =
      (map drop_cr (takeWhile (\<lambda>l. int (length l) < 65536) (render_lines m)),
       length (takeWhile (\<lambda>l. int (length l) < 65536) (render_lines m)) < length (render_lines m))"
    by (simp add: scan_lines_def Let_def)
  with ok have short: "list_all (\<lambda>l. int (length l) < 65536) (render_lines m)"
    by (auto simp: parseVPNConf_def takeWhile_shorter split: if_splits)
  then have "takeWhile (\<lambda>l. int (length l) < 65536) (render_lines m) = render_lines m"
    by (simp add: takeWhile_eq_all_conv list_all_iff)
  moreover have "map drop_cr (render_lines m) = render_lines m"
    using lines printable_no_newline by (intro map_idI) (auto simp: list_all_iff)
  ultimately have "scan_lines (renderVPNConf m) = (render_lines m, False)" using sc by (simp del: takeWhile_eq_all_conv)
  then have vals: "vals = parse_conf_lines [] (render_lines m)"
    using ok by (simp add: parseVPNConf_def)
  have "map_of vals k = (if k \<in> set (render_keys m) then Some (read_back k (meta_get m k)) else map_of [] k)"
    unfolding vals render_lines_def using entry
    by (intro parse_conf_lines_map) (auto simp: entry_fine_def parse_rendered_line)
  moreover have "k \<in> set (render_keys m)" using e by (force simp: set_render_keys)
  ultimately show ?thesis using get [OF e] by simp
qed

section \<open>The values of a written profile\<close>

lemma read_base_snoc:
  "read_base b (s @ [c]) = (case (read_base b s, digit_val c) of (Some n, Some d) \<Rightarrow> if d < b then Some (b * n + d) else None | _ \<Rightarrow> None)"
  by (simp add: read_base_def)

lemma digit_val_digit_char: "d < 16 \<Longrightarrow> digit_val (digit_char d) = Some d"
  by (auto simp: digit_val_def digit_char_def is_digit_def is_lower_def lower_char_def is_upper_def)

lemma read_base_show_base: "read_base 16 (show_base 16 n) = Some n"
proof (induction "16::nat" n rule: show_base.induct)
  case (1 n)
  show ?case
  proof (cases "n < 16")
    case True
    then show ?thesis using digit_val_digit_char [of n] by (simp add: show_base.simps [of 16 n] read_base_def)
  next
    case False
    then have "show_base 16 n = show_base 16 (n div 16) @ [digit_char (n mod 16)]" by (simp add: show_base.simps [of 16 n])
    with False 1 show ?thesis by (simp add: read_base_snoc digit_val_digit_char)
  qed
qed

lemma show_base_hex_char: "c \<in> set (show_base 16 n) \<Longrightarrow> \<exists>d < 16. c = digit_char d"
proof (induction "16::nat" n rule: show_base.induct)
  case (1 n)
  have "n mod 16 < 16" by simp
  with 1 show ?case by (fastforce simp: show_base.simps [of 16 n] split: if_splits)
qed

lemma digit_char_plain:
  assumes "d < 16"
  shows "plain_char (digit_char d) \<and> \<not> is_space (digit_char d) \<and> digit_char d \<noteq> CHR ''/'' \<and> digit_char d \<noteq> CHR ''_''"
proof -
  have "list_all (\<lambda>d. plain_char (digit_char d) \<and> \<not> is_space (digit_char d) \<and> digit_char d \<noteq> CHR ''/'' \<and> digit_char d \<noteq> CHR ''_'') [0..<16]"
    by code_simp
  with assms show ?thesis by (auto simp: list_all_iff)
qed

lemma mark_text_chars:
  assumes "c \<in> set (mark_text k)"
  shows "plain_char c \<and> \<not> is_space c \<and> c \<noteq> CHR ''/'' \<and> c \<noteq> CHR ''_''"
proof (cases "c \<in> set (show_base 16 (unat k))")
  case True
  then obtain d where "d < 16" "c = digit_char d" using show_base_hex_char by blast
  then show ?thesis using digit_char_plain by simp
next
  case False
  with assms have "c = CHR ''0'' \<or> c = CHR ''x''" by (auto simp: mark_text_def show_hex_def)
  then show ?thesis by (auto simp: plain_char_def is_quote_def is_space_def)
qed

lemma mark_text_trim: "TrimSpace (mark_text k) = mark_text k"
  using mark_text_chars by (intro TrimSpace_id no_space_trimmed) (simp add: list_all_iff)

lemma parseMarkToken_mark_text: "parseMarkToken (mark_text k) = Some k"
proof -
  have ne: "show_base 16 (unat k) \<noteq> []" by (subst show_base.simps) simp
  then have base: "uint_base (mark_text k) = (16, show_base 16 (unat k))"
    by (cases "show_base 16 (unat k)") (auto simp: uint_base_def mark_text_def show_hex_def HasPrefix_def lower_char_def is_upper_def)
  have no_: "CHR ''_'' \<notin> set (show_base 16 (unat k))"
    using mark_text_chars [of "CHR ''_''" k] by (auto simp: mark_text_def show_hex_def)
  then have "RemoveChar (CHR ''_'') (show_base 16 (unat k)) = show_base 16 (unat k)"
    by (auto simp: RemoveChar_def intro!: filter_True)
  moreover have "int (unat k) < 2 ^ 32" using unsigned_less [of k, where ?'a = int] by simp
  ultimately have "ParseUint32 (mark_text k) = Some (unat k)"
    using base no_ read_base_show_base [of "unat k"] by (simp add: ParseUint32_def mark_text_def)
  moreover have "CHR ''/'' \<notin> set (mark_text k)" using mark_text_chars by blast
  ultimately show ?thesis
    using mark_text_trim [of k] by (simp add: parseMarkToken_def Let_def) (simp add: mark_text_def)
qed

lemma read_back_plain: "list_all plain_char v \<Longrightarrow> TrimSpace v = v \<Longrightarrow> read_back k v = v"
  by (simp add: read_back_def quote_plain trim_quotes_plain)

lemma digit_plain: "is_digit c \<Longrightarrow> plain_char c"
  by (auto simp: is_digit_def plain_char_def is_quote_def)

lemma name_char_plain: "name_char c \<Longrightarrow> plain_char c"
  by (auto simp: name_char_def char_class_defs plain_char_def is_quote_def)

definition tab_of :: "vpn_meta \<Rightarrow> int option" where
  "tab_of v = Atoi (TrimSpace (meta_get v ''ROUTE_TABLE''))"

definition mark_of :: "vpn_meta \<Rightarrow> (32 word) option" where
  "mark_of v = parseMarkToken (meta_get v ''MARK'')"

definition dev_of :: "vpn_meta \<Rightarrow> string" where
  "dev_of v = TrimSpace (meta_get v ''DEV'')"

lemma plain_printable: "list_all plain_char v \<Longrightarrow> list_all (\<lambda>c. 32 \<le> code c) v"
  by (auto simp: list_all_iff plain_char_def)

lemma meta_of_fine:
  assumes "0 \<le> table"
  shows "list_all entry_fine (meta_of ty iface table mark file gw bound m4 m6) \<and>
    distinct (map fst (meta_of ty iface table mark file gw bound m4 m6)) \<and> meta_of ty iface table mark file gw bound m4 m6 \<noteq> []"
proof -
  have k: "key_ok ''VPN_PROVIDER''" "key_ok ''DEV''" "key_ok ''ROUTE_TABLE''" "key_ok ''MARK''" "key_ok ''FORCED_IPSETS''"
    "key_ok ''CONFIG_FILE''" "key_ok ''VPN_ENDPOINT_IPV6''" "key_ok ''VPN_ENDPOINT_IPV4''" "key_ok ''VPN_BOUND_IFACE''"
    "key_ok ''MSS_CLAMPING_IPV4''" "key_ok ''MSS_CLAMPING_IPV6''" by code_simp+
  have "list_all plain_char (Itoa table)" "list_all plain_char (mark_text mark)"
    using Itoa_nonneg_digits [OF assms] mark_text_chars [of _ mark] digit_plain
    by (auto simp: all_digits_def list_all_iff)
  then have r: "list_all (\<lambda>c. 32 \<le> code c) (Itoa table)" "list_all (\<lambda>c. 32 \<le> code c) (mark_text mark)"
    by (simp_all add: plain_printable)
  show ?thesis
    using k r by (simp add: meta_of_def if_set_def entry_fine_def raw_key_def)
qed

lemma written_conf:
  assumes t: "0 \<le> table" "int64_range table" and i: "list_all name_char iface"
    and ok: "parseVPNConf (FileData (renderVPNConf (meta_of ty iface table mark file gw bound m4 m6))) = Inr vals"
  shows "tab_of vals = Some table" "mark_of vals = Some mark" "dev_of vals = iface"
proof -
  let ?m = "meta_of ty iface table mark file gw bound m4 m6"
  note fine = meta_of_fine [OF t(1)]
  have look: "(k, v) \<in> set ?m \<Longrightarrow> meta_get vals k = read_back k v" for k v
    using parse_rendered [of ?m vals k v] fine ok by (simp add: meta_get_def)
  have ti: "TrimSpace iface = iface" using i by (intro TrimSpace_id no_space_trimmed) (auto simp: list_all_iff dest: name_char_not_space)
  have d: "all_digits (Itoa table)" by (rule Itoa_nonneg_digits [OF t(1)])
  have tt: "TrimSpace (Itoa table) = Itoa table" "list_all plain_char (Itoa table)"
    using d all_digits_trimmed digit_plain by (auto simp: all_digits_def list_all_iff)
  have mt: "list_all plain_char (mark_text mark)" using mark_text_chars by (simp add: list_all_iff)
  have "meta_get vals ''ROUTE_TABLE'' = Itoa table"
    using look [of "''ROUTE_TABLE''" "Itoa table"] tt by (simp add: meta_of_def read_back_plain)
  then show "tab_of vals = Some table" using tt t(2) by (simp add: tab_of_def Atoi_Itoa)
  have "meta_get vals ''MARK'' = mark_text mark"
    using look [of "''MARK''" "mark_text mark"] mt mark_text_trim by (simp add: meta_of_def read_back_plain)
  then show "mark_of vals = Some mark" by (simp add: mark_of_def parseMarkToken_mark_text)
  have "meta_get vals ''DEV'' = iface"
    using look [of "''DEV''" iface] ti i name_char_plain by (simp add: meta_of_def read_back_plain list_all_iff)
  then show "dev_of vals = iface" using ti by (simp add: dev_of_def)
qed

section \<open>The abstraction and the effect of file operations\<close>

definition conf_at :: "vpn_manager \<Rightarrow> string \<Rightarrow> vpn_meta option" where
  "conf_at m n =
     (case file_of m n ''vpn.conf'' of
        None \<Rightarrow> None
      | Some c \<Rightarrow> (case parseVPNConf (FileData c) of Inl _ \<Rightarrow> None | Inr v \<Rightarrow> Some v))"

lemma dir_of_on_files: "dir_of (on_files n f m) x = (if x = n then Some (f (case dir_of m n of None \<Rightarrow> [] | Some fs \<Rightarrow> fs)) else dir_of m x)"
  by (simp add: dir_of_def on_files_def update_conv')

lemma file_of_on_files:
  "file_of (on_files n f m) x g = (if x = n then map_of (f (case dir_of m n of None \<Rightarrow> [] | Some fs \<Rightarrow> fs)) g else file_of m x g)"
  by (simp add: file_of_def dir_of_on_files)

lemma file_of_default: "map_of (case dir_of m n of None \<Rightarrow> [] | Some fs \<Rightarrow> fs) g = file_of m n g"
  by (simp add: file_of_def split: option.splits)

lemma frame_on_files [simp]: "vm_alloc (on_files n f m) = vm_alloc m" "vm_units (on_files n f m) = vm_units m"
  by (simp_all add: on_files_def)

text \<open>What a file operation on the profile \<open>n\<close> may change: its files inside \<open>S\<close>.\<close>

definition touches :: "string \<Rightarrow> string set \<Rightarrow> vpn_manager \<Rightarrow> vpn_manager \<Rightarrow> bool" where
  "touches n S m m' \<longleftrightarrow> vm_alloc m' = vm_alloc m \<and> vm_units m' = vm_units m \<and>
     (\<forall>x. x \<noteq> n \<longrightarrow> dir_of m' x = dir_of m x) \<and> (\<forall>g. g \<notin> S \<longrightarrow> file_of m' n g = file_of m n g)"

lemma touches_refl [simp, intro!]: "touches n S m m"
  by (simp add: touches_def)

lemma touches_trans: "touches n S m m1 \<Longrightarrow> touches n T m1 m2 \<Longrightarrow> touches n (S \<union> T) m m2"
  by (auto simp: touches_def)

lemma touches_mono: "touches n S m m' \<Longrightarrow> S \<subseteq> T \<Longrightarrow> touches n T m m'"
  by (auto simp: touches_def)

lemma touches_on_files:
  "(\<And>fs g. g \<notin> S \<Longrightarrow> map_of (f fs) g = map_of fs g) \<Longrightarrow> touches n S m (on_files n f m)"
  by (auto simp: touches_def dir_of_on_files file_of_on_files file_of_default)

lemma io_touches: "touches n S m (f m) \<Longrightarrow> touches n S m (snd (io e opn f m))"
  by (simp add: io_def)

lemma remove_temp_touches: "touches n {tmp} m (snd (remove_temp e n tmp err m))"
  by (auto simp: remove_temp_def and_then_def ignore_err_def fail_with_def io_def delete_conv'
      intro!: touches_on_files split: prod.splits if_splits)

lemma rename_temp_file:
  assumes "file_of m n tmp = Some c" "tmp \<noteq> f"
  shows "file_of (rename_temp n tmp f m) n g = (if g = f then Some c else if g = tmp then None else file_of m n g)"
proof -
  have "map_of (case dir_of m n of None \<Rightarrow> [] | Some fs \<Rightarrow> fs) tmp = Some c" using assms by (simp add: file_of_default)
  then show ?thesis using assms(2) by (simp add: rename_temp_def file_of_on_files update_conv' delete_conv' file_of_default)
qed

lemma rename_temp_touches: "touches n {tmp, f} m (rename_temp n tmp f m)"
  unfolding rename_temp_def by (rule touches_on_files) (auto simp: update_conv' delete_conv' split: option.splits)

lemma on_err_cases:
  "on_err p h w = (case p w of (None, w') \<Rightarrow> (None, w') | (Some e, w') \<Rightarrow> h e w')"
  by (simp add: on_err_def split: prod.splits option.splits)

text \<open>An atomic write changes the file completely or not at all, and nothing else but the temporary file.\<close>

lemma tmp_neq [simp]: "f @ ''.tmp'' \<noteq> f" by simp

lemma writeFileAtomic_effect:
  assumes "writeFileAtomic e n f c m = (r, m')"
  shows "touches n {f, f @ ''.tmp''} m m' \<and> file_of m' n f = (if r = None then Some c else file_of m n f)"
proof -
  let ?tmp = "f @ ''.tmp''"
  let ?d = "make_dir n m"
  have d: "touches n {} m ?d" unfolding make_dir_def by (rule touches_on_files) simp
  define w where "w x = on_files n (AList.update ?tmp x) ?d" for x
  have w: "touches n {?tmp} m (w x)" for x
    using touches_trans [OF d touches_on_files [of "{?tmp}" "AList.update ?tmp x" n ?d]] by (auto simp: w_def update_conv')
  have wt: "file_of (w x) n ?tmp = Some x" for x by (simp add: w_def file_of_on_files update_conv')
  have undo: "touches n {?tmp} m m2" if "remove_temp e n ?tmp err (w x) = (r2, m2)" for err x r2 m2
    using touches_trans [OF w [of x] remove_temp_touches [of n ?tmp "w x" e err]] that by simp
  have undo_r: "r2 = Some err" if "remove_temp e n ?tmp err (w x) = (r2, m2)" for err x r2 m2
    using that by (auto simp: remove_temp_def and_then_def ignore_err_def fail_with_def split: prod.splits)
  have frame: "file_of m2 n f = file_of m n f" if "touches n {?tmp} m m2" for m2
    using that by (auto simp: touches_def)
  show ?thesis
  proof (cases "ve_fails e (MakeDirFor f) \<or> ve_fails e (WriteTemp ?tmp)")
    case True
    then consider "m' = m" "r = Some ErrIO" | x where "m' = w x" "r = Some ErrIO"
      using assms by (auto simp: writeFileAtomic_def Let_def and_then_def io_def write_temp_def w_def split: if_splits)
    then show ?thesis using touches_mono [OF w] frame [OF w] by cases auto
  next
    case ok: False
    then have "writeFileAtomic e n f c m =
        and_then (on_err (io e (ChmodTemp ?tmp) (\<lambda>m. m)) (remove_temp e n ?tmp))
          (on_err (io e (RenameTemp f) (rename_temp n ?tmp f)) (remove_temp e n ?tmp)) (w c)"
      by (simp add: writeFileAtomic_def Let_def and_then_def io_def write_temp_def w_def)
    with assms consider err where "remove_temp e n ?tmp err (w c) = (r, m')"
      | "r = None" "m' = rename_temp n ?tmp f (w c)"
      by (auto simp: and_then_def on_err_cases io_def split: if_splits prod.splits option.splits dest: undo_r)
    then show ?thesis
    proof cases
      case 1
      then show ?thesis using undo [OF 1] undo_r [OF 1] frame [OF undo [OF 1]] by (auto intro: touches_mono)
    next
      case 2
      have "touches n ({?tmp} \<union> {?tmp, f}) m m'" using touches_trans [OF w rename_temp_touches] 2 by blast
      then have "touches n {f, ?tmp} m m'" by (rule touches_mono) auto
      then show ?thesis using 2 rename_temp_file [OF wt tmp_neq, of c f] by simp
    qed
  qed
qed

lemma uploads_effect:
  "writeSupportingUploads e n uploads m = (r, m') \<Longrightarrow>
   touches n (fst ` set uploads \<union> (\<lambda>f. f @ ''.tmp'') ` fst ` set uploads) m m'"
proof -
  have gen: "for_each (\<lambda>f. writeFileAtomic e n f (c f)) fs m = (r, m') \<Longrightarrow>
      touches n (set fs \<union> (\<lambda>f. f @ ''.tmp'') ` set fs) m m'" for fs c
  proof (induction fs arbitrary: m)
    case (Cons f fs)
    obtain r1 m1 where w: "writeFileAtomic e n f (c f) m = (r1, m1)" by fastforce
    note t1 = conjunct1 [OF writeFileAtomic_effect [OF w]]
    show ?case
    proof (cases r1)
      case None
      then have "for_each (\<lambda>f. writeFileAtomic e n f (c f)) fs m1 = (r, m')" using Cons.prems w by (simp add: and_then_def)
      from touches_trans [OF t1 Cons.IH [OF this]] show ?thesis by (rule touches_mono) auto
    next
      case Some
      then have "m' = m1" using Cons.prems w by (simp add: and_then_def)
      with t1 show ?thesis by (auto intro: touches_mono)
    qed
  qed simp
  assume "writeSupportingUploads e n uploads m = (r, m')"
  from gen [OF this [unfolded writeSupportingUploads_def]] show ?thesis by simp
qed

lemma conf_at_touches:
  assumes "touches n S m m'" "x \<noteq> n \<or> ''vpn.conf'' \<notin> S"
  shows "conf_at m' x = conf_at m x"
proof -
  have "file_of m' x ''vpn.conf'' = file_of m x ''vpn.conf''"
    using assms by (cases "x = n") (auto simp: touches_def file_of_def)
  then show ?thesis by (simp add: conf_at_def)
qed

lemma tmp_not_conf [simp]: "f @ ''.tmp'' \<noteq> ''vpn.conf''"
proof
  assume "f @ ''.tmp'' = ''vpn.conf''"
  then have "last (f @ ''.tmp'') = last ''vpn.conf''" by simp
  then show False by simp
qed

lemma conf_at_write_other:
  assumes "writeFileAtomic e n f c m = (r, m')" "f \<noteq> ''vpn.conf''"
  shows "conf_at m' = conf_at m"
  using conf_at_touches [OF conjunct1 [OF writeFileAtomic_effect [OF assms(1)]]] assms(2) tmp_not_conf [of f] by fastforce

lemma conf_at_write_conf:
  assumes "writeFileAtomic e n ''vpn.conf'' c m = (r, m')"
  shows "conf_at m' = (if r = None then (conf_at m)(n := (case parseVPNConf (FileData c) of Inl _ \<Rightarrow> None | Inr v \<Rightarrow> Some v)) else conf_at m)"
proof
  fix x
  note w = writeFileAtomic_effect [OF assms]
  show "conf_at m' x = (if r = None then (conf_at m)(n := (case parseVPNConf (FileData c) of Inl _ \<Rightarrow> None | Inr v \<Rightarrow> Some v)) else conf_at m) x"
  proof (cases "x = n")
    case True
    then show ?thesis using w by (auto simp: conf_at_def)
  next
    case False
    then show ?thesis using conf_at_touches [OF conjunct1 [OF w], of x] by simp
  qed
qed

lemma conf_at_uploads:
  assumes "writeSupportingUploads e n uploads m = (r, m')" "''vpn.conf'' \<notin> fst ` set uploads"
  shows "conf_at m' = conf_at m"
proof
  fix x
  have "''vpn.conf'' \<notin> fst ` set uploads \<union> (\<lambda>f. f @ ''.tmp'') ` fst ` set uploads"
    using assms(2) tmp_not_conf by (auto simp: image_iff simp del: tmp_not_conf)
  then show "conf_at m' x = conf_at m x" using conf_at_touches [OF uploads_effect [OF assms(1)]] by blast
qed

lemma conf_at_alloc [simp]: "conf_at (m\<lparr>vm_alloc := a\<rparr>) = conf_at m" "conf_at (m\<lparr>vm_units := u\<rparr>) = conf_at m"
  by (simp_all add: fun_eq_iff conf_at_def file_of_def dir_of_def)

lemma conf_at_with_alloc [simp]: "conf_at (with_alloc f m) = conf_at m" "vm_alloc (with_alloc f m) = f (vm_alloc m)"
  by (simp_all add: with_alloc_def)

lemma conf_at_remove_dir: "conf_at (remove_dir n m) = (conf_at m)(n := None)"
  by (simp add: fun_eq_iff conf_at_def file_of_def dir_of_def remove_dir_def delete_conv')

lemma conf_at_delete_file: "conf_at (on_files n (AList.delete f) m) = (if f = ''vpn.conf'' then (conf_at m)(n := None) else conf_at m)"
  by (auto simp: fun_eq_iff conf_at_def file_of_on_files delete_conv' file_of_default)


section \<open>The invariant\<close>

definition apart :: "(string \<rightharpoonup> vpn_meta) \<Rightarrow> bool" where
  "apart C \<longleftrightarrow> (\<forall>n x v w. n \<noteq> x \<and> C n = Some v \<and> C x = Some w \<longrightarrow>
     tab_of v \<noteq> tab_of w \<and> mark_of v \<noteq> mark_of w \<and> \<not> EqualFold (dev_of v) (dev_of w))"

definition covered :: "(string \<rightharpoonup> vpn_meta) \<Rightarrow> allocator \<Rightarrow> bool" where
  "covered C a \<longleftrightarrow> (\<forall>n v. C n = Some v \<longrightarrow>
     (\<exists>t k. tab_of v = Some t \<and> mark_of v = Some k \<and> t \<in> usedTables a \<and> k \<in> usedMarks a \<and> dev_of v \<noteq> []))"

definition vm_inv :: "vpn_manager \<Rightarrow> bool" where
  "vm_inv m \<longleftrightarrow> alloc_inv (vm_alloc m) \<and> covered (conf_at m) (vm_alloc m) \<and> apart (conf_at m)"

text \<open>A table (mark) that no profile uses.\<close>

definition free_table :: "(string \<rightharpoonup> vpn_meta) \<Rightarrow> int \<Rightarrow> bool" where
  "free_table C t \<longleftrightarrow> (\<forall>n v. C n = Some v \<longrightarrow> tab_of v \<noteq> Some t)"

definition free_mark :: "(string \<rightharpoonup> vpn_meta) \<Rightarrow> 32 word \<Rightarrow> bool" where
  "free_mark C k \<longleftrightarrow> (\<forall>n v. C n = Some v \<longrightarrow> mark_of v \<noteq> Some k)"

lemma covered_more: "covered C a \<Longrightarrow> usedTables a \<subseteq> usedTables b \<Longrightarrow> usedMarks a \<subseteq> usedMarks b \<Longrightarrow> covered C b"
  unfolding covered_def by blast

lemma covered_drop: "covered C a \<Longrightarrow> covered (C(n := None)) a"
  unfolding covered_def by auto

lemma apart_drop: "apart C \<Longrightarrow> apart (C(n := None))"
  unfolding apart_def by auto

lemma covered_Release:
  assumes "covered C a" "t \<le> 0 \<or> free_table C t" "k = 0 \<or> free_mark C k"
  shows "covered C (Release t k a)"
  unfolding covered_def
proof (intro allI impI)
  fix n v assume v: "C n = Some v"
  then obtain t' k' where h: "tab_of v = Some t'" "mark_of v = Some k'" "t' \<in> usedTables a" "k' \<in> usedMarks a" "dev_of v \<noteq> []"
    using assms(1) unfolding covered_def by blast
  have "t' \<in> usedTables (Release t k a)" using h v assms(2) by (auto simp: Release_def Let_def free_table_def)
  moreover have "k' \<in> usedMarks (Release t k a)"
    using h v assms(3) by (auto simp: Release_def Let_def free_mark_def word_gt_0)
  ultimately show "\<exists>t' k'. tab_of v = Some t' \<and> mark_of v = Some k' \<and> t' \<in> usedTables (Release t k a) \<and> k' \<in> usedMarks (Release t k a) \<and> dev_of v \<noteq> []"
    using h by blast
qed

lemma covered_put:
  assumes "covered C a" "\<And>v. X = Some v \<Longrightarrow> tab_of v = Some t \<and> mark_of v = Some k \<and> dev_of v \<noteq> []" "t \<in> usedTables a" "k \<in> usedMarks a"
  shows "covered (C(n := X)) a"
  using assms unfolding covered_def by auto

lemma EqualFold_sym: "EqualFold a b \<longleftrightarrow> EqualFold b a"
  by (auto simp: EqualFold_def)

lemma apart_put:
  assumes "apart C" "\<And>v. X = Some v \<Longrightarrow> tab_of v = Some t \<and> mark_of v = Some k \<and> dev_of v = d"
    and "free_table (C(n := None)) t" "free_mark (C(n := None)) k"
    and "\<And>x v. x \<noteq> n \<Longrightarrow> C x = Some v \<Longrightarrow> \<not> EqualFold (dev_of v) d"
  shows "apart (C(n := X))"
  unfolding apart_def
proof (intro allI impI)
  fix n1 n2 v w assume h: "n1 \<noteq> n2 \<and> (C(n := X)) n1 = Some v \<and> (C(n := X)) n2 = Some w"
  show "tab_of v \<noteq> tab_of w \<and> mark_of v \<noteq> mark_of w \<and> \<not> EqualFold (dev_of v) (dev_of w)"
  proof (cases "n1 = n \<or> n2 = n")
    case False
    then have "C n1 = Some v" "C n2 = Some w" using h by auto
    with h assms(1) show ?thesis unfolding apart_def by blast
  next
    case True
    then show ?thesis
    proof
      assume n1: "n1 = n"
      then have v: "X = Some v" and w: "n2 \<noteq> n" "C n2 = Some w" using h by auto
      have "tab_of w \<noteq> Some t" "mark_of w \<noteq> Some k" "\<not> EqualFold (dev_of w) d"
        using w assms(3,4) assms(5) [OF w] by (auto simp: free_table_def free_mark_def dest!: spec [of _ n2])
      then show ?thesis using assms(2) [OF v] EqualFold_sym by auto
    next
      assume n2: "n2 = n"
      then have w: "X = Some w" and v: "n1 \<noteq> n" "C n1 = Some v" using h by auto
      have "tab_of v \<noteq> Some t" "mark_of v \<noteq> Some k" "\<not> EqualFold (dev_of v) d"
        using v assms(3,4) assms(5) [OF v] by (auto simp: free_table_def free_mark_def dest!: spec [of _ n1])
      then show ?thesis using assms(2) [OF w] by auto
    qed
  qed
qed

section \<open>Preparation\<close>

definition step_ok :: "allocator \<Rightarrow> allocator \<Rightarrow> bool" where
  "step_ok a b \<longleftrightarrow> alloc_inv b \<and> usedTables a \<subseteq> usedTables b \<and> usedMarks a \<subseteq> usedMarks b"

lemma step_ok_trans: "step_ok a b \<Longrightarrow> step_ok b c \<Longrightarrow> step_ok a c"
  by (auto simp: step_ok_def)

lemma step_ok_refresh: "alloc_inv a \<Longrightarrow> step_ok a (refreshLiveReservationsLocked env a)"
  using grows_refresh [of a env] by (simp add: grows_def step_ok_def)

lemma step_ok_AllocateTable:
  assumes "alloc_inv a" "AllocateTable env a = (r, b)"
  shows "step_ok a b" "r = Inr t \<Longrightarrow> minRouteTableID \<le> t \<and> t \<le> maxRouteTableID \<and> t \<in> usedTables b \<and> t \<notin> usedTables a"
proof -
  note st = step_ok_refresh [OF assms(1), of env]
  have inv: "alloc_inv b" using alloc_inv_AllocateTable [OF assms(1), of env] assms(2) by simp
  have "usedTables (refreshLiveReservationsLocked env a) \<subseteq> usedTables b \<and> usedMarks (refreshLiveReservationsLocked env a) \<subseteq> usedMarks b"
    using assms(2) by (auto simp: AllocateTable_def Let_def split: option.splits)
  with st inv show "step_ok a b" by (auto simp: step_ok_def)
  show "r = Inr t \<Longrightarrow> minRouteTableID \<le> t \<and> t \<le> maxRouteTableID \<and> t \<in> usedTables b \<and> t \<notin> usedTables a"
    using AllocateTable_Inr [of env a t b] assms(2) st by (auto simp: step_ok_def)
qed

lemma step_ok_AllocateMark:
  assumes "alloc_inv a" "AllocateMark env a = (r, b)"
  shows "step_ok a b" "r = Inr k \<Longrightarrow> minFWMark \<le> k \<and> k \<in> usedMarks b \<and> k \<notin> usedMarks a"
proof -
  note st = step_ok_refresh [OF assms(1), of env]
  have inv: "alloc_inv b" using alloc_inv_AllocateMark [OF assms(1), of env] assms(2) by simp
  have "usedTables (refreshLiveReservationsLocked env a) \<subseteq> usedTables b \<and> usedMarks (refreshLiveReservationsLocked env a) \<subseteq> usedMarks b"
    using assms(2) by (auto simp: AllocateMark_def Let_def split: option.splits)
  with st inv show "step_ok a b" by (auto simp: step_ok_def)
  show "r = Inr k \<Longrightarrow> minFWMark \<le> k \<and> k \<in> usedMarks b \<and> k \<notin> usedMarks a"
    using AllocateMark_Inr [of env a k b] assms(2) st by (auto simp: step_ok_def)
qed

lemma step_ok_Reserve:
  assumes "alloc_inv a" "Reserve env t 0 a = (r, b)" "0 < t"
  shows "step_ok a b" "r = None \<Longrightarrow> minRouteTableID \<le> t \<and> t \<in> usedTables b \<and> t \<notin> usedTables a"
proof -
  note st = step_ok_refresh [OF assms(1), of env]
  have inv: "alloc_inv b" using alloc_inv_Reserve [OF assms(1), of env t 0] assms(2) by simp
  have ok: "r = None \<Longrightarrow> minRouteTableID \<le> t \<and> t \<notin> usedTables (refreshLiveReservationsLocked env a) \<and>
      usedTables b = insert t (usedTables (refreshLiveReservationsLocked env a)) \<and>
      usedMarks b = usedMarks (refreshLiveReservationsLocked env a)"
    using Reserve_ok [of env t 0 a b] assms(2,3) by (auto simp: Let_def)
  have "b = refreshLiveReservationsLocked env a" if "r \<noteq> None" using that Reserve_failed assms(2) by fastforce
  with ok st inv show "step_ok a b" by (cases r) (auto simp: step_ok_def)
  show "r = None \<Longrightarrow> minRouteTableID \<le> t \<and> t \<in> usedTables b \<and> t \<notin> usedTables a" using ok st by (auto simp: step_ok_def)
qed

definition old_table :: "profile option \<Rightarrow> int" where
  "old_table existing = (case existing of None \<Rightarrow> 0 | Some p \<Rightarrow> p_RouteTable p)"

definition old_mark :: "profile option \<Rightarrow> 32 word" where
  "old_mark existing = (case existing of None \<Rightarrow> 0 | Some p \<Rightarrow> p_FWMark p)"

text \<open>The table is the old one and stays reserved, or it is new and nobody used it.\<close>

definition table_choice :: "profile option \<Rightarrow> allocator \<Rightarrow> int \<times> int \<times> int \<Rightarrow> bool" where
  "table_choice existing a c = (case c of (T, rt, relt) \<Rightarrow>
     existing \<noteq> None \<and> rt = 0 \<and> relt = 0 \<and> T = old_table existing \<or>
     rt = T \<and> T \<notin> usedTables a \<and> relt = old_table existing)"

definition mark_choice :: "profile option \<Rightarrow> allocator \<Rightarrow> (32 word) \<times> (32 word) \<times> (32 word) \<Rightarrow> bool" where
  "mark_choice existing a c = (case c of (K, rm, relm) \<Rightarrow>
     relm = 0 \<and> (existing \<noteq> None \<and> rm = 0 \<and> K = old_mark existing \<or> rm = K \<and> K \<notin> usedMarks a))"

definition known :: "profile option \<Rightarrow> allocator \<Rightarrow> bool" where
  "known existing a \<longleftrightarrow> (\<forall>p. existing = Some p \<longrightarrow>
     p_RouteTable p \<in> usedTables a \<and> p_FWMark p \<in> usedMarks a \<and> int64_range (p_RouteTable p))"

lemma resolveRouteTable_ok:
  assumes inv: "alloc_inv a" and known: "known existing a" and r: "int64_range (p_RouteTable parsed)"
    and run: "resolveRouteTableLocked e parsed existing a = (res, b)"
  shows "step_ok a b" "res = Inr (T, rt, relt) \<Longrightarrow>
    0 < T \<and> int64_range T \<and> T \<in> usedTables b \<and> table_choice existing a (T, rt, relt)"
proof -
  let ?new = "p_RouteTable parsed"
  have pos: "existing \<noteq> None \<Longrightarrow> 0 < old_table existing \<and> old_table existing \<in> usedTables a \<and> int64_range (old_table existing)"
    using known inv by (fastforce simp: known_def old_table_def alloc_inv_def minRouteTableID_def)
  have old0: "existing = None \<Longrightarrow> old_table existing = 0" by (simp add: old_table_def)
  have unf: "resolveRouteTableLocked e parsed existing a =
     (if ?new > 0 then (if existing \<noteq> None \<and> ?new = old_table existing then (Inr (?new, 0, 0), a)
        else (case Reserve (ve_live e) ?new 0 a of
                 (Some err, a') \<Rightarrow> (Inl (ErrAlloc err), a')
               | (None, a') \<Rightarrow> (Inr (?new, ?new, if old_table existing > 0 then old_table existing else 0), a')))
      else if old_table existing > 0 then (Inr (old_table existing, 0, 0), a)
      else (case AllocateTable (ve_live e) a of
              (Inl err, a') \<Rightarrow> (Inl (ErrAlloc err), a') | (Inr t, a') \<Rightarrow> (Inr (t, t, 0), a')))"
    unfolding resolveRouteTableLocked_def old_table_def Let_def by (rule refl)
  have self: "step_ok a a" using inv by (simp add: step_ok_def)
  consider (keep) "?new > 0" "existing \<noteq> None" "?new = old_table existing"
    | (new) "?new > 0" "\<not> (existing \<noteq> None \<and> ?new = old_table existing)"
    | (old) "\<not> ?new > 0" "existing \<noteq> None" | (fresh) "\<not> ?new > 0" "existing = None" by blast
  then have "step_ok a b \<and> (res = Inr (T, rt, relt) \<longrightarrow> 0 < T \<and> int64_range T \<and> T \<in> usedTables b \<and> table_choice existing a (T, rt, relt))"
  proof cases
    case keep
    then show ?thesis using run unf pos self by (auto simp: table_choice_def)
  next
    case old
    then show ?thesis using run unf pos self by (auto simp: table_choice_def)
  next
    case new
    obtain q c where R: "Reserve (ve_live e) ?new 0 a = (q, c)" by fastforce
    note S = step_ok_Reserve [OF inv R new(1)]
    have rel: "(if old_table existing > 0 then old_table existing else 0) = old_table existing" using pos old0 by (cases existing) auto
    show ?thesis using run unf new R S r rel by (cases q) (auto simp: table_choice_def minRouteTableID_def)
  next
    case fresh
    obtain q c where A: "AllocateTable (ve_live e) a = (q, c)" by fastforce
    note S = step_ok_AllocateTable [OF inv A]
    show ?thesis using run unf fresh A S old0
      by (cases q) (auto simp: table_choice_def minRouteTableID_def maxRouteTableID_def int64_range_def)
  qed
  then show "step_ok a b" "res = Inr (T, rt, relt) \<Longrightarrow>
    0 < T \<and> int64_range T \<and> T \<in> usedTables b \<and> table_choice existing a (T, rt, relt)" by blast+
qed

lemma resolveMark_ok:
  assumes inv: "alloc_inv a" and known: "\<forall>p. existing = Some p \<longrightarrow> p_FWMark p \<in> usedMarks a"
    and run: "resolveMarkLocked e existing a = (res, b)"
  shows "step_ok a b" "res = Inr (K, rm, relm) \<Longrightarrow> K \<in> usedMarks b \<and> mark_choice existing a (K, rm, relm)"
proof -
  have self: "step_ok a a" using inv by (simp add: step_ok_def)
  have "step_ok a b \<and> (res = Inr (K, rm, relm) \<longrightarrow> K \<in> usedMarks b \<and> mark_choice existing a (K, rm, relm))"
  proof (cases existing)
    case None
    obtain q c where A: "AllocateMark (ve_live e) a = (q, c)" by fastforce
    note S = step_ok_AllocateMark [OF inv A]
    have "\<not> minFWMark \<le> 0" by (simp add: minFWMark_def)
    then show ?thesis using run None A S by (cases q) (auto simp: resolveMarkLocked_def mark_choice_def)
  next
    case (Some p)
    then have "p_FWMark p \<in> usedMarks a" "minFWMark \<le> p_FWMark p" using known inv by (auto simp: alloc_inv_def)
    then show ?thesis using run Some self by (auto simp: resolveMarkLocked_def mark_choice_def old_mark_def)
  qed
  then show "step_ok a b" "res = Inr (K, rm, relm) \<Longrightarrow> K \<in> usedMarks b \<and> mark_choice existing a (K, rm, relm)" by blast+
qed

text \<open>What the checks of a request establish.\<close>

lemma zero_range: "int64_range 0" by (simp add: int64_range_def)

lemma wireguard_table_range: "parseWireGuardConfig raw = Inr (cfg, t, gw) \<Longrightarrow> int64_range t"
  by (auto simp: parse_iff finish_config_def bindE_Inr route_table_of_def Let_def
      split: if_splits option.splits dest: Atoi_range intro: zero_range)

lemma provider_table_range:
  assumes "providers junk ty = Some prov" "ParseConfig prov raw = Inr p"
  shows "int64_range (p_RouteTable p)"
  using assms wireguard_table_range zero_range
  by (auto simp: providers_def wireguard_ParseConfig_def amneziawg_ParseConfig_def openvpn_ParseConfig_def empty_profile_def
      split: if_splits sum.splits prod.splits)

lemma digit_char_name: "d < 16 \<Longrightarrow> name_char (digit_char d)"
proof -
  have "list_all (\<lambda>d. name_char (digit_char d)) [0..<16]" by code_simp
  then show "d < 16 \<Longrightarrow> name_char (digit_char d)" by (auto simp: list_all_iff)
qed

lemma hash_text_chars: "c \<in> set (hash_text s) \<Longrightarrow> name_char c"
  using show_base_hex_char [of c] digit_char_name
  by (auto simp: hash_text_def pad_zero_def show_hex_def name_char_def is_alnum_def is_digit_def)

lemma iface_suffix_chars: "list_all name_char s \<Longrightarrow> list_all name_char (iface_suffix k s)"
  using hash_text_chars by (auto simp: iface_suffix_def shortHashHex_def list_all_iff dest!: in_set_takeD)

lemma infer_chars: "list_all name_char (inferInterfaceFromType ty name)"
proof -
  let ?kept = "filter is_alnum (ToLower name)"
  let ?clean = "if ?kept = [] then ''0'' else ?kept"
  have c: "list_all name_char ?clean" by (auto simp: list_all_iff name_char_def is_alnum_def is_digit_def)
  have p: "list_all name_char ''tun''" "list_all name_char ''awg-sv-''" "list_all name_char ''wg-sv-''" by code_simp+
  have "list_all name_char (take 3 ?clean)" using c by (auto simp: list_all_iff dest: in_set_takeD)
  then show ?thesis
    using iface_suffix_chars [OF c] p by (auto simp: inferInterfaceFromType_def Let_def list_all_append simp del: append_Cons)
qed

lemma name_chars_trim: "list_all name_char s \<Longrightarrow> TrimSpace s = s"
  by (intro TrimSpace_id no_space_trimmed) (auto simp: list_all_iff dest: name_char_not_space)

lemma infer_trim: "TrimSpace (inferInterfaceFromType ty name) = inferInterfaceFromType ty name"
  by (rule name_chars_trim [OF infer_chars])

lemma validate_iface_ok: "validateInterfaceName i = None \<Longrightarrow> TrimSpace i = i \<Longrightarrow> list_all name_char i \<and> i \<noteq> []"
  by (auto simp: validateInterfaceName_def Let_def split: if_splits)

lemma resolveInterface_ok:
  assumes "resolveInterfaceName raw existing parsed name = Inr i"
  shows "list_all name_char i \<and> i \<noteq> [] \<and> (isWireGuardLike (p_Type parsed) \<longrightarrow> i = inferInterfaceFromType (p_Type parsed) name)"
proof -
  have "validateInterfaceName i = None" "TrimSpace i = i"
    using assms by (auto simp: resolveInterfaceName_def Let_def infer_trim split: if_splits option.splits)
  moreover have "isWireGuardLike (p_Type parsed) \<longrightarrow> i = inferInterfaceFromType (p_Type parsed) name"
    using assms by (auto simp: resolveInterfaceName_def Let_def split: if_splits option.splits)
  ultimately show ?thesis using validate_iface_ok by blast
qed

lemma last_ovpn: "x @ ''.ovpn'' \<noteq> ''vpn.conf''"
proof
  assume "x @ ''.ovpn'' = ''vpn.conf''"
  then have "last (x @ ''.ovpn'') = last ''vpn.conf''" by simp
  then show False by simp
qed

lemma resolveConfigFile_ok:
  assumes "resolveConfigFileName raw existing name ty i = Inr f"
    and "isWireGuardLike ty \<Longrightarrow> i = inferInterfaceFromType ty name"
  shows "f \<noteq> ''vpn.conf''"
proof (cases "isWireGuardLike ty")
  case True
  then obtain w where "i = CHR ''w'' # w \<or> i = CHR ''a'' # w"
    using assms(2) by (auto simp: inferInterfaceFromType_def isWireGuardLike_def Let_def)
  moreover have "f = TrimSpace i @ ''.conf''" using assms(1) True by (auto simp: resolveConfigFileName_def Let_def split: option.splits)
  moreover have "TrimSpace i = i" using assms(2) True infer_trim by simp
  ultimately show ?thesis by auto
next
  case False
  have "ToLower (filepath_Ext ''vpn.conf'') = ''.conf''" by code_simp
  with False assms(1) last_ovpn show ?thesis
    by (auto simp: resolveConfigFileName_def Let_def split: if_splits)
qed

lemma read_conf_at: "read_conf e m x = Inr v \<Longrightarrow> conf_at m x = Some v"
  by (auto simp: read_conf_def conf_at_def parseVPNConf_def split: option.splits if_splits)

lemma read_conf_missing: "read_conf e m x = Inl ConfNotExist \<Longrightarrow> conf_at m x = None"
  by (auto simp: read_conf_def conf_at_def parseVPNConf_def split: option.splits if_splits prod.splits)

lemma managed_conflict_None:
  "managed_conflict e m name iface ds = None \<Longrightarrow> d \<in> set ds \<Longrightarrow> d \<noteq> name \<Longrightarrow> conf_at m d = Some v \<Longrightarrow>
   dev_of v \<noteq> [] \<Longrightarrow> \<not> EqualFold (dev_of v) iface"
proof (induction e m name iface ds rule: managed_conflict.induct)
  case (2 e m name iface x ds)
  then show ?case
    by (auto simp: dev_of_def Let_def split: if_splits sum.splits conf_error.splits dest: read_conf_at read_conf_missing)
qed simp

lemma conf_at_entry: "conf_at m x = Some v \<Longrightarrow> x \<in> set (entries_sorted (vm_dirs m))"
  by (auto simp: conf_at_def file_of_def dir_of_def entries_sorted_def image_iff dest!: map_of_SomeD split: option.splits) force

lemma case_Inr_iff: "(case x of Inl e \<Rightarrow> Inl (f e) | Inr a \<Rightarrow> g a) = Inr b \<longleftrightarrow> (\<exists>a. x = Inr a \<and> g a = Inr b)"
  by (cases x) auto

lemma check_Inr_iff: "check x = Inr u \<longleftrightarrow> x = None"
  by (cases x) (auto simp: check_def)

definition request_ok :: "vpn_manager \<Rightarrow> string \<Rightarrow> checked \<Rightarrow> bool" where
  "request_ok m name c \<longleftrightarrow> list_all name_char (ck_iface c) \<and> ck_iface c \<noteq> [] \<and> ck_file c \<noteq> ''vpn.conf'' \<and>
     int64_range (p_RouteTable (ck_parsed c)) \<and>
     (\<forall>x v. x \<noteq> name \<and> conf_at m x = Some v \<and> dev_of v \<noteq> [] \<longrightarrow> \<not> EqualFold (dev_of v) (ck_iface c))"

lemma check_request_ok:
  assumes "check_request e m name req existing = Inr c"
  shows "request_ok m name c"
proof -
  obtain ty prov raw parsed0 iface fname where
    prov: "providers (ve_junk_ok e) ty = Some prov" and parse: "ParseConfig prov raw = Inr parsed0"
    and i: "resolveInterfaceName (rq_InterfaceName req) existing (parsed0\<lparr>p_Name := name, p_Type := ty\<rparr>) name = Inr iface"
    and u: "ensureInterfaceUniqueLocked e m name iface existing = None"
    and f: "resolveConfigFileName (rq_ConfigFile req) existing name ty iface = Inr fname"
    and c: "ck_iface c = iface" "ck_file c = fname" "p_RouteTable (ck_parsed c) = p_RouteTable parsed0"
    using assms unfolding check_request_def resolveProvider_def Let_def
    by (auto simp: bindE_Inr check_Inr_iff case_Inr_iff split: if_splits option.splits)
  have "ensureInterfaceUniqueAmongManagedLocked e m name iface = None"
    using u by (auto simp: ensureInterfaceUniqueLocked_def first_error_def split: option.splits)
  then have uniq: "managed_conflict e m name iface (entries_sorted (vm_dirs m)) = None"
    by (auto simp: ensureInterfaceUniqueAmongManagedLocked_def split: if_splits)
  show ?thesis
    unfolding request_ok_def c
    using resolveInterface_ok [OF i] resolveConfigFile_ok [OF f] provider_table_range [OF prov parse]
      managed_conflict_None [OF uniq conf_at_entry] by auto
qed

lemma readProfile_conf:
  assumes "readProfileLocked e m n = Inr p"
  shows "\<exists>v. conf_at m n = Some v \<and> (\<forall>t. tab_of v = Some t \<longrightarrow> p_RouteTable p = t) \<and> (\<forall>k. mark_of v = Some k \<longrightarrow> p_FWMark p = k)"
proof -
  obtain v where v: "read_conf e m n = Inr v"
    using assms by (auto simp: readProfileLocked_def split: sum.splits conf_error.splits)
  then obtain prov where prov: "providers (ve_junk_ok e) (conf_type v) = Some prov"
    using assms by (auto simp: readProfileLocked_def Let_def split: option.splits)
  have "\<exists>q. p = apply_meta n (conf_type v) v q"
    using assms v prov unfolding readProfileLocked_def Let_def by (auto simp: bindE_Inr case_Inr_iff)
  then obtain ty q where "p = apply_meta n ty v q" by blast
  then show ?thesis using read_conf_at [OF v] by (auto simp: apply_meta_def Let_def tab_of_def mark_of_def)
qed

lemma existing_known:
  assumes "vm_inv m" "readProfileLocked e m n = Inr p"
  shows "known (Some p) (vm_alloc m) \<and> (\<exists>v. conf_at m n = Some v \<and> tab_of v = Some (p_RouteTable p) \<and> mark_of v = Some (p_FWMark p))"
proof -
  obtain v where v: "conf_at m n = Some v" "\<And>t. tab_of v = Some t \<Longrightarrow> p_RouteTable p = t" "\<And>k. mark_of v = Some k \<Longrightarrow> p_FWMark p = k"
    using readProfile_conf [OF assms(2)] by blast
  moreover obtain t k where "tab_of v = Some t" "mark_of v = Some k" "t \<in> usedTables (vm_alloc m)" "k \<in> usedMarks (vm_alloc m)"
    using assms(1) v(1) unfolding vm_inv_def covered_def by blast
  moreover from this have "int64_range t" by (auto simp: tab_of_def dest: Atoi_range)
  ultimately show ?thesis by (auto simp: known_def)
qed

lemma unused_table_free: "covered C a \<Longrightarrow> t \<notin> usedTables a \<Longrightarrow> free_table C t"
  unfolding covered_def free_table_def by fastforce

lemma unused_mark_free: "covered C a \<Longrightarrow> k \<notin> usedMarks a \<Longrightarrow> free_mark C k"
  unfolding covered_def free_mark_def by fastforce

lemma reserved_free:
  assumes "covered C a"
  shows "table_choice existing a (T, rt, relt) \<Longrightarrow> rt \<le> 0 \<or> free_table C rt"
    and "mark_choice existing a (K, rm, relm) \<Longrightarrow> rm = 0 \<or> free_mark C rm"
  using unused_table_free [OF assms] unused_mark_free [OF assms] by (auto simp: table_choice_def mark_choice_def)

lemma mark_choice_mono: "mark_choice existing b c \<Longrightarrow> usedMarks a \<subseteq> usedMarks b \<Longrightarrow> mark_choice existing a c"
  by (auto simp: mark_choice_def)

definition prep_facts :: "vpn_manager \<Rightarrow> string \<Rightarrow> profile option \<Rightarrow> prepared \<Rightarrow> allocator \<Rightarrow> int \<Rightarrow> 32 word \<Rightarrow> string \<Rightarrow> bool" where
  "prep_facts m n existing p a T K D \<longleftrightarrow>
     step_ok (vm_alloc m) a \<and> 0 < T \<and> T \<in> usedTables a \<and> K \<in> usedMarks a \<and> D \<noteq> [] \<and>
     (\<forall>v. parseVPNConf (FileData (renderVPNConf (pr_meta p))) = Inr v \<longrightarrow> tab_of v = Some T \<and> mark_of v = Some K \<and> dev_of v = D) \<and>
     table_choice existing (vm_alloc m) (T, pr_tableReserved p, pr_releaseTable p) \<and>
     mark_choice existing (vm_alloc m) (K, pr_markReserved p, pr_releaseMark p) \<and>
     pr_configFileName p \<noteq> ''vpn.conf'' \<and>
     (\<forall>x v. x \<noteq> n \<and> conf_at m x = Some v \<longrightarrow> \<not> EqualFold (dev_of v) D)"

lemma prepare_outcome:
  assumes inv: "vm_inv m" and known: "known existing (vm_alloc m)"
    and run: "prepareProfileLocked e m n req existing = (res, a)"
  shows "(\<exists>err. res = Inl err) \<and> covered (conf_at m) a \<and> alloc_inv a \<or> (\<exists>p T K D. res = Inr p \<and> prep_facts m n existing p a T K D)"
proof (cases "check_request e m n req existing")
  case (Inl err)
  then have "res = Inl err" "a = vm_alloc m" using run by (simp_all add: prepareProfileLocked_def)
  then show ?thesis using inv by (simp add: vm_inv_def)
next
  case (Inr c)
  note rq = check_request_ok [OF Inr, unfolded request_ok_def]
  let ?a0 = "vm_alloc m"
  have cov: "covered (conf_at m) ?a0" and ai: "alloc_inv ?a0" using inv by (auto simp: vm_inv_def)
  obtain tr a1 where t: "resolveRouteTableLocked e (ck_parsed c) existing ?a0 = (tr, a1)" by fastforce
  have tr_range: "int64_range (p_RouteTable (ck_parsed c))" using rq by blast
  note tab = resolveRouteTable_ok [OF ai known tr_range t]
  have cov1: "covered (conf_at m) a1" using covered_more [OF cov] tab(1) by (simp add: step_ok_def)
  show ?thesis
  proof (cases tr)
    case (Inl err)
    then have "res = Inl err" "a = a1" using run Inr t by (simp_all add: prepareProfileLocked_def)
    then show ?thesis using cov1 tab(1) by (simp add: step_ok_def)
  next
    case T: (Inr trip)
    obtain T rt relt where trip: "trip = (T, rt, relt)" by (cases trip) auto
    note tabT = tab(2) [of T rt relt, unfolded T trip, OF refl]
    obtain mr b where mk: "resolveMarkLocked e existing a1 = (mr, b)" by fastforce
    have ai1: "alloc_inv a1" using tab(1) by (simp add: step_ok_def)
    have kn1: "\<forall>p. existing = Some p \<longrightarrow> p_FWMark p \<in> usedMarks a1" using known tab(1) by (auto simp: known_def step_ok_def)
    note mark = resolveMark_ok [OF ai1 kn1 mk]
    have st: "step_ok ?a0 b" using step_ok_trans [OF tab(1) mark(1)] .
    have covb: "covered (conf_at m) b" using covered_more [OF cov] st by (simp add: step_ok_def)
    have aib: "alloc_inv b" using st by (simp add: step_ok_def)
    have freeT: "rt \<le> 0 \<or> free_table (conf_at m) rt" using reserved_free(1) [OF cov] tabT by blast
    show ?thesis
    proof (cases mr)
      case (Inl err)
      then have "res = Inl err" "a = Release rt 0 b" using run Inr t T trip mk by (simp_all add: prepareProfileLocked_def)
      then show ?thesis using covered_Release [OF covb freeT, of 0] alloc_inv_Release [OF aib] by simp
    next
      case M: (Inr mtrip)
      obtain K rm relm where mtrip: "mtrip = (K, rm, relm)" by (cases mtrip) auto
      note markK = mark(2) [of K rm relm, unfolded M mtrip, OF refl]
      have mc: "mark_choice existing ?a0 (K, rm, relm)"
        using mark_choice_mono markK tab(1) by (auto simp: step_ok_def)
      have freeM: "rm = 0 \<or> free_mark (conf_at m) rm" by (rule reserved_free(2) [OF cov mc])
      have given: "covered (conf_at m) (Release rt rm b) \<and> alloc_inv (Release rt rm b)"
        using covered_Release [OF covb freeT freeM] alloc_inv_Release [OF aib] by blast
      show ?thesis
      proof (cases "ensureAllocationNoPeaceyConflictLocked e T K = None \<and> (\<exists>cfg. stored_config e (ck_type c) (ck_parsed c) (ck_raw c) T = Inr cfg)")
        case False
        then have "\<exists>err. res = Inl err" "a = Release rt rm b"
          using run Inr t T trip mk M mtrip by (auto simp: prepareProfileLocked_def split: option.splits sum.splits)
        then show ?thesis using given by blast
      next
        case True
        then obtain cfg where cfg: "stored_config e (ck_type c) (ck_parsed c) (ck_raw c) T = Inr cfg" by blast
        let ?p = "assemble e m n req existing c (T, rt, relt) (K, rm, relm) cfg"
        have res: "res = Inr ?p" "a = b"
          using run Inr t T trip mk M mtrip True cfg by (simp_all add: prepareProfileLocked_def)
        have meta: "\<exists>gw bound m4 m6. pr_meta ?p = meta_of (ck_type c) (ck_iface c) T K (ck_file c) gw bound m4 m6"
          by (auto simp: assemble_def split: prod.splits)
        have pr: "pr_tableReserved ?p = rt" "pr_releaseTable ?p = relt" "pr_markReserved ?p = rm" "pr_releaseMark ?p = relm"
          "pr_configFileName ?p = ck_file c" by (auto simp: assemble_def split: prod.splits)
        have w: "tab_of v = Some T \<and> mark_of v = Some K \<and> dev_of v = ck_iface c"
          if "parseVPNConf (FileData (renderVPNConf (pr_meta ?p))) = Inr v" for v
          using that meta written_conf [of T "ck_iface c"] tabT rq by fastforce
        have dev: "x \<noteq> n \<Longrightarrow> conf_at m x = Some v \<Longrightarrow> \<not> EqualFold (dev_of v) (ck_iface c)" for x v
          using rq cov unfolding covered_def by blast
        have used: "T \<in> usedTables b" using tabT mark(1) by (auto simp: step_ok_def)
        have "prep_facts m n existing ?p b T K (ck_iface c)"
          unfolding prep_facts_def pr using st tabT used markK mc w dev rq by (intro conjI) blast+
        then show ?thesis using res by blast
      qed
    qed
  qed
qed

section \<open>The operations keep the invariant\<close>

definition written :: "prepared \<Rightarrow> vpn_meta option" where
  "written p = (case parseVPNConf (FileData (renderVPNConf (pr_meta p))) of Inl _ \<Rightarrow> None | Inr v \<Rightarrow> Some v)"

text \<open>The profile that is replaced, as \<^verbatim>\<open>Update\<close> read it; none for \<^verbatim>\<open>Create\<close>.\<close>

definition replaces :: "vpn_manager \<Rightarrow> string \<Rightarrow> profile option \<Rightarrow> bool" where
  "replaces m n existing \<longleftrightarrow> (case existing of
       None \<Rightarrow> conf_at m n = None
     | Some q \<Rightarrow> \<exists>v. conf_at m n = Some v \<and> tab_of v = Some (p_RouteTable q) \<and> mark_of v = Some (p_FWMark q))"

lemma written_facts: "prep_facts m n existing p a T K D \<Longrightarrow> written p = Some v \<Longrightarrow> tab_of v = Some T \<and> mark_of v = Some K \<and> dev_of v = D"
  by (auto simp: prep_facts_def written_def split: sum.splits)

lemma old_free:
  assumes "apart (conf_at m)" "replaces m n existing" "existing \<noteq> None"
  shows "free_table ((conf_at m)(n := None)) (old_table existing)" "free_mark ((conf_at m)(n := None)) (old_mark existing)"
proof -
  obtain q v where q: "existing = Some q" "conf_at m n = Some v" "tab_of v = Some (p_RouteTable q)" "mark_of v = Some (p_FWMark q)"
    using assms(2,3) by (auto simp: replaces_def)
  have "tab_of w \<noteq> Some (old_table existing) \<and> mark_of w \<noteq> Some (old_mark existing)" if "x \<noteq> n" "conf_at m x = Some w" for x w
    using assms(1) that q unfolding apart_def old_table_def old_mark_def by (metis option.simps(5))
  then show "free_table ((conf_at m)(n := None)) (old_table existing)" "free_mark ((conf_at m)(n := None)) (old_mark existing)"
    by (auto simp: free_table_def free_mark_def)
qed

lemma free_table_drop: "free_table C t \<Longrightarrow> free_table (C(n := None)) t"
  and free_mark_drop: "free_mark C k \<Longrightarrow> free_mark (C(n := None)) k"
  by (auto simp: free_table_def free_mark_def)

lemma free_table_put:
  assumes "free_table (C(n := None)) t" "\<And>v. X = Some v \<Longrightarrow> tab_of v \<noteq> Some t"
  shows "free_table (C(n := X)) t"
  unfolding free_table_def
proof (intro allI impI)
  fix x v assume "(C(n := X)) x = Some v"
  then show "tab_of v \<noteq> Some t"
    using assms(2) assms(1) [unfolded free_table_def, rule_format, of x v] by (cases "x = n") auto
qed

lemma chosen_free:
  assumes inv: "vm_inv m" and rep: "replaces m n existing" and f: "prep_facts m n existing p a T K D"
  shows "free_table ((conf_at m)(n := None)) T" "free_mark ((conf_at m)(n := None)) K"
proof -
  have ap: "apart (conf_at m)" and cov: "covered (conf_at m) (vm_alloc m)" using inv by (auto simp: vm_inv_def)
  have tc: "table_choice existing (vm_alloc m) (T, pr_tableReserved p, pr_releaseTable p)"
    and mc: "mark_choice existing (vm_alloc m) (K, pr_markReserved p, pr_releaseMark p)" using f by (auto simp: prep_facts_def)
  show "free_table ((conf_at m)(n := None)) T"
    using tc old_free(1) [OF ap rep] free_table_drop [OF unused_table_free [OF cov]] by (auto simp: table_choice_def)
  show "free_mark ((conf_at m)(n := None)) K"
    using mc old_free(2) [OF ap rep] free_mark_drop [OF unused_mark_free [OF cov]] by (auto simp: mark_choice_def)
qed

lemma new_conf_ok:
  assumes inv: "vm_inv m" and rep: "replaces m n existing" and f: "prep_facts m n existing p a T K D"
  shows "covered ((conf_at m)(n := written p)) a" "apart ((conf_at m)(n := written p))"
    "covered ((conf_at m)(n := written p)) (Release (pr_releaseTable p) (pr_releaseMark p) a)"
proof -
  have ap: "apart (conf_at m)" and cov: "covered (conf_at m) (vm_alloc m)" using inv by (auto simp: vm_inv_def)
  have st: "step_ok (vm_alloc m) a" and used: "T \<in> usedTables a" "K \<in> usedMarks a" "D \<noteq> []"
    and tc: "table_choice existing (vm_alloc m) (T, pr_tableReserved p, pr_releaseTable p)"
    and mc: "mark_choice existing (vm_alloc m) (K, pr_markReserved p, pr_releaseMark p)"
    and dev: "\<And>x v. x \<noteq> n \<Longrightarrow> conf_at m x = Some v \<Longrightarrow> \<not> EqualFold (dev_of v) D" using f by (auto simp: prep_facts_def)
  note w = written_facts [OF f]
  show cov': "covered ((conf_at m)(n := written p)) a"
    using covered_put [OF covered_more [OF cov] _ used(1,2)] st w used(3) by (auto simp: step_ok_def)
  show "apart ((conf_at m)(n := written p))"
    by (rule apart_put [OF ap w chosen_free [OF inv rep f] dev])
  have relm: "pr_releaseMark p = 0" using mc by (simp add: mark_choice_def)
  have "pr_releaseTable p \<le> 0 \<or> free_table ((conf_at m)(n := written p)) (pr_releaseTable p)"
  proof (cases "existing \<noteq> None \<and> pr_releaseTable p = old_table existing")
    case True
    then obtain q v where q: "existing = Some q" "conf_at m n = Some v" "tab_of v = Some (p_RouteTable q)"
      using rep by (auto simp: replaces_def)
    then have "old_table existing \<in> usedTables (vm_alloc m)" using cov unfolding covered_def old_table_def by fastforce
    then have "T \<noteq> old_table existing \<or> pr_releaseTable p = 0" using tc by (auto simp: table_choice_def)
    moreover have "free_table ((conf_at m)(n := None)) (old_table existing)" using old_free(1) [OF ap rep] True by simp
    ultimately show ?thesis using True w free_table_put [of "conf_at m" n "pr_releaseTable p" "written p"] by fastforce
  next
    case False
    then show ?thesis using tc by (auto simp: table_choice_def old_table_def split: option.splits)
  qed
  then show "covered ((conf_at m)(n := written p)) (Release (pr_releaseTable p) (pr_releaseMark p) a)"
    using covered_Release [OF cov'] relm by blast
qed

lemma given_back:
  assumes inv: "vm_inv m" and f: "prep_facts m n existing p a T K D" and C: "C = conf_at m \<or> C = (conf_at m)(n := None)"
  shows "covered C (Release (pr_tableReserved p) (pr_markReserved p) a) \<and> alloc_inv (Release (pr_tableReserved p) (pr_markReserved p) a) \<and> apart C"
proof -
  have ap: "apart (conf_at m)" and cov: "covered (conf_at m) (vm_alloc m)" using inv by (auto simp: vm_inv_def)
  have tc: "table_choice existing (vm_alloc m) (T, pr_tableReserved p, pr_releaseTable p)"
    and mc: "mark_choice existing (vm_alloc m) (K, pr_markReserved p, pr_releaseMark p)"
    and st: "step_ok (vm_alloc m) a" using f by (auto simp: prep_facts_def)
  have "covered (conf_at m) a" using covered_more [OF cov] st by (simp add: step_ok_def)
  then have "covered (conf_at m) (Release (pr_tableReserved p) (pr_markReserved p) a)"
    using covered_Release reserved_free(1) [OF cov tc] reserved_free(2) [OF cov mc] by blast
  moreover have "alloc_inv a" using st by (simp add: step_ok_def)
  ultimately show ?thesis using C ap by (auto intro: covered_drop apart_drop alloc_inv_Release)
qed

definition near :: "string \<Rightarrow> vpn_manager \<Rightarrow> vpn_manager \<Rightarrow> bool" where
  "near n m m' \<longleftrightarrow> vm_alloc m' = vm_alloc m \<and> (conf_at m')(n := None) = (conf_at m)(n := None)"

lemma near_touches: "touches n S m m' \<Longrightarrow> near n m m'"
  using conf_at_touches [of n S m m'] by (auto simp: near_def touches_def fun_eq_iff)

lemma near_trans: "near n m m1 \<Longrightarrow> near n m1 m2 \<Longrightarrow> near n m m2"
  by (simp add: near_def)

lemma near_refl [simp]: "near n m m" by (simp add: near_def)

definition acts_near :: "string \<Rightarrow> (vpn_error, vpn_manager) proc \<Rightarrow> bool" where
  "acts_near n act \<longleftrightarrow> (\<forall>m. near n m (snd (act m)))"

lemma near_acts:
  "acts_near n (io e MakeDir (make_dir n))" "acts_near n (io e ChmodDir (\<lambda>m. m))"
  "acts_near n (writeSupportingUploads e n uploads)" "acts_near n (writeFileAtomic e n f c)" "acts_near n (write_unit e p)"
proof -
  show "acts_near n (io e MakeDir (make_dir n))"
    unfolding acts_near_def make_dir_def using near_touches [OF touches_on_files [of "{}" "\<lambda>fs. fs"]] by (simp add: io_def)
  show "acts_near n (io e ChmodDir (\<lambda>m. m))" by (simp add: acts_near_def io_def)
  show "acts_near n (writeSupportingUploads e n uploads)"
    unfolding acts_near_def using near_touches [OF uploads_effect] by (metis prod.collapse)
  show "acts_near n (writeFileAtomic e n f c)"
    unfolding acts_near_def using near_touches [OF conjunct1 [OF writeFileAtomic_effect]] by (metis prod.collapse)
  show "acts_near n (write_unit e p)"
    by (auto simp: acts_near_def write_unit_def when_ok_def io_def near_def skip_ok_def)
qed

lemma or_undo_outcome:
  assumes "or_undo e n p act m = (r, m2)" "acts_near n act" "\<not> ve_fails e RemoveAllDir"
  shows "r = None \<and> act m = (None, m2) \<or>
    r \<noteq> None \<and> conf_at m2 = (conf_at m)(n := None) \<and> vm_alloc m2 = Release (pr_tableReserved p) (pr_markReserved p) (vm_alloc m)"
proof -
  obtain q m1 where a: "act m = (q, m1)" by fastforce
  then have nr: "near n m m1" using assms(2) by (metis acts_near_def snd_conv)
  show ?thesis
  proof (cases q)
    case None
    then show ?thesis using a assms(1) by (simp add: or_undo_def on_err_def)
  next
    case (Some err)
    then have "r = Some err" "m2 = remove_dir n (give_back p m1)"
      using a assms(1,3) by (auto simp: or_undo_def on_err_def and_then_def ignore_err_def io_def fail_with_def)
    then show ?thesis using nr
      by (simp add: conf_at_remove_dir give_back_def near_def) (simp add: remove_dir_def with_alloc_def)
  qed
qed

lemma or_release_outcome:
  assumes "or_release p act m = (r, m2)" "acts_near n act"
  shows "\<exists>m1. act m = (r, m1) \<and> near n m m1 \<and> (if r = None then m2 = m1 else m2 = give_back p m1)"
proof -
  obtain q m1 where a: "act m = (q, m1)" by fastforce
  then have "near n m m1" using assms(2) by (metis acts_near_def snd_conv)
  then show ?thesis using a assms(1) by (cases q) (auto simp: or_release_def on_err_def)
qed

lemma near_cond: "near n m m1 \<Longrightarrow> (conf_at m1)(n := X) = (conf_at m)(n := X) \<and> vm_alloc m1 = vm_alloc m"
  by (simp add: near_def) (metis fun_upd_upd)

text \<open>
  \<open>all_or_undone\<close>: started near \<open>m\<close>, the procedure either succeeds with the profile written, or fails with the profile gone and
  the reservation given back. A step in front that undoes on failure keeps this.
\<close>

definition undone :: "string \<Rightarrow> prepared \<Rightarrow> vpn_manager \<Rightarrow> vpn_manager \<Rightarrow> bool" where
  "undone n p m m' \<longleftrightarrow> conf_at m' = (conf_at m)(n := None) \<and>
     vm_alloc m' = Release (pr_tableReserved p) (pr_markReserved p) (vm_alloc m)"

definition all_or_undone :: "string \<Rightarrow> prepared \<Rightarrow> vpn_manager \<Rightarrow> (vpn_error, vpn_manager) proc \<Rightarrow> bool" where
  "all_or_undone n p m act \<longleftrightarrow> (\<forall>m1 r m'. near n m m1 \<longrightarrow> act m1 = (r, m') \<longrightarrow>
     r = None \<and> conf_at m' = (conf_at m)(n := written p) \<and> vm_alloc m' = vm_alloc m \<or> r \<noteq> None \<and> undone n p m m')"

lemma or_undo_near:
  assumes "near n m m1" "or_undo e n p act m1 = (r, m2)" "acts_near n act" "\<not> ve_fails e RemoveAllDir"
  shows "r \<noteq> None \<and> undone n p m m2 \<or> r = None \<and> near n m m2 \<and> act m1 = (None, m2)"
proof (cases r)
  case None
  then have "act m1 = (None, m2)" using or_undo_outcome [OF assms(2-4)] by simp
  moreover from this have "near n m1 m2" using assms(3) by (metis acts_near_def snd_conv)
  ultimately show ?thesis using None near_trans [OF assms(1)] by blast
next
  case Some
  then show ?thesis
    using or_undo_outcome [OF assms(2-4)] near_cond [OF assms(1), of None] by (simp add: undone_def)
qed

lemma all_or_undone_seq:
  assumes "acts_near n act" "\<not> ve_fails e RemoveAllDir" "all_or_undone n p m rest"
  shows "all_or_undone n p m (and_then (or_undo e n p act) rest)"
  unfolding all_or_undone_def
proof (intro allI impI)
  fix m1 r m' assume h: "near n m m1" "and_then (or_undo e n p act) rest m1 = (r, m')"
  obtain q m2 where u: "or_undo e n p act m1 = (q, m2)" by fastforce
  show "r = None \<and> conf_at m' = (conf_at m)(n := written p) \<and> vm_alloc m' = vm_alloc m \<or> r \<noteq> None \<and> undone n p m m'"
  proof (cases q)
    case None
    then have "near n m m2" "rest m2 = (r, m')" using or_undo_near [OF h(1) u assms(1,2)] h(2) u by (simp_all add: and_then_def)
    then show ?thesis using assms(3) unfolding all_or_undone_def by blast
  next
    case Some
    then have "undone n p m m2" "r = q" "m' = m2" using or_undo_near [OF h(1) u assms(1,2)] h(2) u by (simp_all add: and_then_def)
    then show ?thesis using Some by simp
  qed
qed

lemma all_or_undone_conf:
  assumes rm: "\<not> ve_fails e RemoveAllDir"
  shows "all_or_undone n p m (and_then (or_undo e n p (writeFileAtomic e n ''vpn.conf'' (renderVPNConf (pr_meta p)))) (or_undo e n p (write_unit e p)))"
  unfolding all_or_undone_def
proof (intro allI impI)
  let ?w = "writeFileAtomic e n ''vpn.conf'' (renderVPNConf (pr_meta p))"
  fix m1 r m' assume h: "near n m m1" "and_then (or_undo e n p ?w) (or_undo e n p (write_unit e p)) m1 = (r, m')"
  obtain q m2 where u: "or_undo e n p ?w m1 = (q, m2)" by fastforce
  note w = or_undo_near [OF h(1) u near_acts(4) rm]
  show "r = None \<and> conf_at m' = (conf_at m)(n := written p) \<and> vm_alloc m' = vm_alloc m \<or> r \<noteq> None \<and> undone n p m m'"
  proof (cases q)
    case None
    then have n2: "near n m m2" and w2: "?w m1 = (None, m2)" and v: "or_undo e n p (write_unit e p) m2 = (r, m')"
      using w h(2) u by (simp_all add: and_then_def)
    have c: "conf_at m2 = (conf_at m)(n := written p)"
      using conf_at_write_conf [OF w2] near_cond [OF h(1)] by (simp add: written_def)
    have "write_unit e p m2 = (None, m') \<Longrightarrow> conf_at m' = conf_at m2"
      by (auto simp: write_unit_def when_ok_def io_def skip_ok_def split: if_splits)
    then show ?thesis using or_undo_near [OF n2 v near_acts(5) rm] c by (auto simp: near_def)
  next
    case Some
    then show ?thesis using w h(2) u by (auto simp: and_then_def)
  qed
qed

text \<open>Creating the files of a profile: all of them, or nothing is left.\<close>

lemma create_files_outcome:
  assumes run: "create_files e n p uploads m = (r, m')" and rm: "\<not> ve_fails e RemoveAllDir" and new: "conf_at m n = None"
  shows "r = None \<and> conf_at m' = (conf_at m)(n := written p) \<and> vm_alloc m' = vm_alloc m \<or> r \<noteq> None \<and> undone n p m m'"
proof -
  obtain r0 m0 where mk: "or_release p (io e MakeDir (make_dir n)) m = (r0, m0)" by fastforce
  obtain x0 where x0: "io e MakeDir (make_dir n) m = (r0, x0)" "near n m x0" "if r0 = None then m0 = x0 else m0 = give_back p x0"
    using or_release_outcome [OF mk near_acts(1)] by blast
  show ?thesis
  proof (cases r0)
    case (Some err)
    then have "r = r0" "m' = give_back p x0" using run mk x0 by (auto simp: create_files_def and_then_def)
    moreover have "conf_at x0 = conf_at m" using x0(1) Some by (auto simp: io_def split: if_splits)
    ultimately show ?thesis using Some near_cond [OF x0(2)] new by (auto simp: give_back_def undone_def fun_upd_idem)
  next
    case None
    let ?rest = "and_then (or_undo e n p (io e ChmodDir (\<lambda>m. m)))
         (and_then (or_undo e n p (writeSupportingUploads e n uploads))
           (and_then (or_undo e n p (writeFileAtomic e n (pr_configFileName p) (pr_rawConfig p)))
             (and_then (or_undo e n p (writeFileAtomic e n ''vpn.conf'' (renderVPNConf (pr_meta p)))) (or_undo e n p (write_unit e p)))))"
    have "all_or_undone n p m ?rest" by (intro all_or_undone_seq all_or_undone_conf near_acts rm)
    moreover have "?rest m0 = (r, m')" using run mk None by (simp add: create_files_def and_then_def)
    moreover have "near n m m0" using None x0 by simp
    ultimately show ?thesis unfolding all_or_undone_def by blast
  qed
qed

text \<open>Updating the files: the configuration is replaced or kept, and the allocator follows.\<close>

definition kept :: "prepared \<Rightarrow> vpn_manager \<Rightarrow> vpn_manager \<Rightarrow> bool" where
  "kept p m m' \<longleftrightarrow> conf_at m' = conf_at m \<and> vm_alloc m' = Release (pr_tableReserved p) (pr_markReserved p) (vm_alloc m)"

definition replaced :: "string \<Rightarrow> prepared \<Rightarrow> vpn_manager \<Rightarrow> vpn_manager \<Rightarrow> bool" where
  "replaced n p m m' \<longleftrightarrow> (conf_at m' = (conf_at m)(n := written p) \<or> conf_at m' = (conf_at m)(n := None)) \<and>
     (vm_alloc m' = vm_alloc m \<or> vm_alloc m' = Release (pr_releaseTable p) (pr_releaseMark p) (vm_alloc m))"

lemma or_release_same:
  assumes "or_release p act m = (r, m2)" "acts_near n act" "\<And>q m1. act m = (q, m1) \<Longrightarrow> conf_at m1 = conf_at m"
  shows "(r = None \<longrightarrow> conf_at m2 = conf_at m \<and> vm_alloc m2 = vm_alloc m) \<and> (r \<noteq> None \<longrightarrow> kept p m m2)"
proof -
  obtain m1 where m1: "act m = (r, m1)" "near n m m1" "if r = None then m2 = m1 else m2 = give_back p m1"
    using or_release_outcome [OF assms(1,2)] by blast
  then show ?thesis using assms(3) [OF m1(1)] by (cases r) (simp_all add: kept_def near_def give_back_def)
qed

lemma release_old_alloc:
  "vm_alloc (release_old p m) = Release (pr_releaseTable p) (pr_releaseMark p) (vm_alloc m) \<and> conf_at (release_old p m) = conf_at m"
  by (auto simp: release_old_def Release_def Let_def word_gt_0)

lemma finish_update:
  assumes "and_then (on_err (write_unit e p) (\<lambda>err m. (Some err, release_old p m)))
      (and_then (drop_old_config e n existing p) (\<lambda>m. (None, release_old p m))) m = (r, m')"
  shows "(conf_at m' = conf_at m \<or> conf_at m' = (conf_at m)(n := None)) \<and>
    vm_alloc m' = Release (pr_releaseTable p) (pr_releaseMark p) (vm_alloc m)"
  using assms release_old_alloc
  by (auto simp: and_then_def on_err_def write_unit_def when_ok_def io_def skip_ok_def drop_old_config_def ignore_err_def
      conf_at_delete_file split: if_splits)

lemma update_files_outcome:
  assumes run: "update_files e n existing p uploads m = (r, m')" and up: "''vpn.conf'' \<notin> fst ` set uploads"
    and cf: "pr_configFileName p \<noteq> ''vpn.conf''"
  shows "kept p m m' \<or> replaced n p m m'"
proof -
  let ?w = "writeFileAtomic e n ''vpn.conf'' (renderVPNConf (pr_meta p))"
  obtain r1 m1 where u1: "or_release p (writeSupportingUploads e n uploads) m = (r1, m1)" by fastforce
  note s1 = or_release_same [OF u1 near_acts(3) conf_at_uploads [OF _ up]]
  show ?thesis
  proof (cases r1)
    case Some
    then show ?thesis using run u1 s1 by (auto simp: update_files_def and_then_def)
  next
    case r1: None
    obtain r2 m2 where u2: "or_release p (writeFileAtomic e n (pr_configFileName p) (pr_rawConfig p)) m1 = (r2, m2)" by fastforce
    note s2 = or_release_same [OF u2 near_acts(4) conf_at_write_other [OF _ cf]]
    show ?thesis
    proof (cases r2)
      case Some
      then show ?thesis using run u1 u2 s1 s2 r1 by (auto simp: update_files_def and_then_def kept_def)
    next
      case r2: None
      obtain r3 m3 where u3: "or_release p ?w m2 = (r3, m3)" by fastforce
      obtain x3 where x3: "?w m2 = (r3, x3)" "near n m2 x3" "if r3 = None then m3 = x3 else m3 = give_back p x3"
        using or_release_outcome [OF u3 near_acts(4)] by blast
      show ?thesis
      proof (cases r3)
        case Some
        then have "kept p m m3" using x3 conf_at_write_conf [OF x3(1)] s1 s2 r1 r2 by (auto simp: kept_def near_def give_back_def)
        then show ?thesis using run u1 u2 u3 r1 r2 Some by (auto simp: update_files_def and_then_def)
      next
        case r3: None
        then have c3: "conf_at m3 = (conf_at m)(n := written p)" "vm_alloc m3 = vm_alloc m"
          using x3 conf_at_write_conf [OF x3(1)] s1 s2 r1 r2 by (auto simp: near_def written_def)
        have "and_then (on_err (write_unit e p) (\<lambda>err m. (Some err, release_old p m)))
            (and_then (drop_old_config e n existing p) (\<lambda>m. (None, release_old p m))) m3 = (r, m')"
          using run u1 u2 u3 r1 r2 r3 by (simp add: update_files_def and_then_def)
        from finish_update [OF this] show ?thesis using c3 by (auto simp: replaced_def)
      qed
    qed
  qed
qed

lemma vm_inv_alloc: "covered (conf_at m) a \<Longrightarrow> alloc_inv a \<Longrightarrow> apart (conf_at m) \<Longrightarrow> vm_inv (m\<lparr>vm_alloc := a\<rparr>)"
  by (simp add: vm_inv_def)

lemma prep_alloc_inv: "prep_facts m n existing p a T K D \<Longrightarrow> alloc_inv a"
  by (simp add: prep_facts_def step_ok_def)

lemma finish_with_state: "snd (finish_with e n p r) = snd r"
  by (auto simp: finish_with_def split: prod.splits option.splits)

lemma vm_inv_Create:
  assumes inv: "vm_inv m" and rm: "\<not> ve_fails e RemoveAllDir"
  shows "vm_inv (snd (vpn_Create e req m))"
proof (cases "validateCreateName (rq_Name req)")
  case (Inl err)
  then show ?thesis using inv by (simp add: vpn_Create_def)
next
  case (Inr n)
  show ?thesis
  proof (cases "ve_fails e StatProfileDir \<or> dir_of m n \<noteq> None")
    case True
    then show ?thesis using inv Inr by (auto simp: vpn_Create_def)
  next
    case False
    then have new: "conf_at m n = None" by (simp add: conf_at_def file_of_def)
    obtain res a where prep: "prepareProfileLocked e m n req None = (res, a)" by fastforce
    have "known None (vm_alloc m)" by (simp add: known_def)
    from prepare_outcome [OF inv this prep] show ?thesis
    proof (elim disjE conjE exE)
      fix err assume h: "res = Inl err" "covered (conf_at m) a" "alloc_inv a"
      then show ?thesis using Inr False prep inv by (simp add: vpn_Create_def vm_inv_def)
    next
      fix p T K D assume p: "res = Inr p" and f: "prep_facts m n None p a T K D"
      let ?m1 = "m\<lparr>vm_alloc := a\<rparr>"
      have rep: "replaces m n None" using new by (simp add: replaces_def)
      let ?R = "Release (pr_tableReserved p) (pr_markReserved p) a"
    have gb: "covered (conf_at m) ?R" "apart (conf_at m)" "covered ((conf_at m)(n := None)) ?R" "apart ((conf_at m)(n := None))"
      and ga: "alloc_inv ?R"
      using given_back [OF inv f, of "conf_at m"] given_back [OF inv f, of "(conf_at m)(n := None)"] by simp_all
      show ?thesis
      proof (cases "check_uploads (\<lambda>_. False) p req")
        case (Inl err)
        then have "snd (vpn_Create e req m) = give_back p ?m1" using Inr False prep p by (simp add: vpn_Create_def)
        then show ?thesis using gb ga by (simp add: vm_inv_def give_back_def)
      next
        case up: (Inr uploads)
        obtain r m' where c: "create_files e n p uploads ?m1 = (r, m')" by fastforce
        have "snd (vpn_Create e req m) = m'"
          using Inr False prep p up c finish_with_state [of e n p "(r, m')"] by (simp add: vpn_Create_def)
        moreover from create_files_outcome [OF c rm] new have "vm_inv m'"
          using new_conf_ok [OF inv rep f] gb ga prep_alloc_inv [OF f] by (auto simp: vm_inv_def undone_def)
        ultimately show ?thesis by simp
      qed
    qed
  qed
qed

definition no_conf_upload :: "upsert_request \<Rightarrow> bool" where
  "no_conf_upload req = (case parseSupportingUploads (rq_SupportingFiles req) of Inl _ \<Rightarrow> True | Inr us \<Rightarrow> ''vpn.conf'' \<notin> fst ` set us)"

lemma vm_inv_Update:
  assumes inv: "vm_inv m" and up: "no_conf_upload req"
  shows "vm_inv (snd (vpn_Update e raw req m))"
proof (cases "\<exists>n existing. validateExistingName raw = Inr n \<and> \<not> (rq_Name req \<noteq> [] \<and> rq_Name req \<noteq> n) \<and> readProfileLocked e m n = Inr existing")
  case False
  then have "snd (vpn_Update e raw req m) = m" by (auto simp: vpn_Update_def split: sum.splits)
  then show ?thesis using inv by simp
next
  case True
  then obtain n existing where n: "validateExistingName raw = Inr n" "\<not> (rq_Name req \<noteq> [] \<and> rq_Name req \<noteq> n)"
    "readProfileLocked e m n = Inr existing" by blast
  have kn: "known (Some existing) (vm_alloc m)" and rep: "replaces m n (Some existing)"
    using existing_known [OF inv n(3)] by (auto simp: replaces_def)
  obtain res a where prep: "prepareProfileLocked e m n req (Some existing) = (res, a)" by fastforce
  from prepare_outcome [OF inv kn prep] show ?thesis
  proof (elim disjE conjE exE)
    fix err assume h: "res = Inl err" "covered (conf_at m) a" "alloc_inv a"
    then have "snd (vpn_Update e raw req m) = m\<lparr>vm_alloc := a\<rparr>" using n prep by (auto simp: vpn_Update_def)
    then show ?thesis using h inv by (simp add: vm_inv_def)
  next
    fix p T K D assume p: "res = Inr p" and f: "prep_facts m n (Some existing) p a T K D"
    let ?m1 = "m\<lparr>vm_alloc := a\<rparr>"
    let ?R = "Release (pr_tableReserved p) (pr_markReserved p) a"
    have gb: "covered (conf_at m) ?R" "apart (conf_at m)" "covered ((conf_at m)(n := None)) ?R" "apart ((conf_at m)(n := None))"
      and ga: "alloc_inv ?R"
      using given_back [OF inv f, of "conf_at m"] given_back [OF inv f, of "(conf_at m)(n := None)"] by simp_all
    show ?thesis
    proof (cases "check_uploads (supportingFileExists e m n) p req")
      case (Inl err)
      then have "snd (vpn_Update e raw req m) = give_back p ?m1" using n prep p by (auto simp: vpn_Update_def)
      then show ?thesis using gb ga by (simp add: vm_inv_def give_back_def)
    next
      case us: (Inr uploads)
      obtain r m' where c: "update_files e n existing p uploads ?m1 = (r, m')" by fastforce
      have m': "snd (vpn_Update e raw req m) = m'"
        using n prep p us c finish_with_state [of e n p "(r, m')"] by (auto simp: vpn_Update_def)
      have "''vpn.conf'' \<notin> fst ` set uploads" using us up by (auto simp: check_uploads_def bindE_Inr no_conf_upload_def)
      moreover have "pr_configFileName p \<noteq> ''vpn.conf''" using f by (simp add: prep_facts_def)
      ultimately have "kept p ?m1 m' \<or> replaced n p ?m1 m'" by (rule update_files_outcome [OF c])
      then have "vm_inv m'"
        using new_conf_ok [OF inv rep f] gb ga prep_alloc_inv [OF f] covered_drop [of "(conf_at m)(n := written p)" _ n]
          apart_drop [of "(conf_at m)(n := written p)" n] alloc_inv_Release [OF prep_alloc_inv [OF f]]
        by (auto simp: vm_inv_def kept_def replaced_def)
      then show ?thesis by (simp add: m')
    qed
  qed
qed

lemma vm_inv_Delete:
  assumes inv: "vm_inv m"
  shows "vm_inv (snd (vpn_Delete e raw m))"
proof (cases "\<exists>n p. validateExistingName raw = Inr n \<and> readProfileLocked e m n = Inr p")
  case False
  then have "snd (vpn_Delete e raw m) = m" by (auto simp: vpn_Delete_def split: sum.splits)
  then show ?thesis using inv by simp
next
  case True
  then obtain n p where n: "validateExistingName raw = Inr n" "readProfileLocked e m n = Inr p" by blast
  have rep: "replaces m n (Some p)" using existing_known [OF inv n(2)] by (auto simp: replaces_def)
  have ap: "apart (conf_at m)" and cov: "covered (conf_at m) (vm_alloc m)" and ai: "alloc_inv (vm_alloc m)"
    using inv by (auto simp: vm_inv_def)
  have free: "free_table ((conf_at m)(n := None)) (p_RouteTable p)" "free_mark ((conf_at m)(n := None)) (p_FWMark p)"
    using old_free [OF ap rep] by (simp_all add: old_table_def old_mark_def)
  have done1: "covered ((conf_at m)(n := None)) (Release (p_RouteTable p) (p_FWMark p) (vm_alloc m))"
    using covered_Release [OF covered_drop [OF cov]] free by blast
  define us where "us = AList.delete (vpnServiceUnitName n) (vm_units m)"
  have "snd (vpn_Delete e raw m) = m \<or> snd (vpn_Delete e raw m) = m\<lparr>vm_units := us\<rparr> \<or>
      snd (vpn_Delete e raw m) = with_alloc (Release (p_RouteTable p) (p_FWMark p)) (remove_dir n m) \<or>
      snd (vpn_Delete e raw m) = with_alloc (Release (p_RouteTable p) (p_FWMark p)) (remove_dir n (m\<lparr>vm_units := us\<rparr>))"
    using n unfolding us_def
    by (cases "ve_units e"; cases "ve_fails e RemoveUnitOp"; cases "ve_fails e RemoveAllDir")
      (simp_all add: vpn_Delete_def and_then_def when_ok_def io_def skip_ok_def)
  then show ?thesis
    using inv done1 apart_drop [OF ap] alloc_inv_Release [OF ai]
    by (auto simp: vm_inv_def conf_at_remove_dir) (auto simp: remove_dir_def)
qed

section \<open>A restart covers what is on disk\<close>

definition disk_entries :: "vpn_manager \<Rightarrow> conf_entry list" where
  "disk_entries m = map (\<lambda>n. \<lparr>entry_is_dir = True,
     entry_conf = (case file_of m n ''vpn.conf'' of None \<Rightarrow> FileMissing | Some c \<Rightarrow> FileData c)\<rparr>) (entries_sorted (vm_dirs m))"

definition holds_values :: "vpn_meta \<Rightarrow> allocator \<Rightarrow> bool" where
  "holds_values v a \<longleftrightarrow> (\<forall>t. tab_of v = Some t \<and> minRouteTableID \<le> t \<longrightarrow> t \<in> usedTables a) \<and>
     (\<forall>k. mark_of v = Some k \<and> minFWMark \<le> k \<longrightarrow> k \<in> usedMarks a)"

lemma holds_grows: "holds_values v a \<Longrightarrow> grows a b \<Longrightarrow> holds_values v b"
  by (auto simp: holds_values_def grows_def)

lemma seed_conf_values_holds: "holds_values v (seed_conf_values s v a)"
proof -
  have "\<not> t \<le> 0" if "minRouteTableID \<le> t" for t using that by (simp add: minRouteTableID_def)
  moreover have "k \<noteq> 0" if "minFWMark \<le> k" for k using that by (auto simp: minFWMark_def)
  ultimately show ?thesis
    by (auto simp: holds_values_def seed_conf_values_def tab_of_def mark_of_def Let_def markTableUsed_def markMarkUsed_def
        split: option.splits)
qed

lemma seed_entries_holds:
  "seed_entries s es a = (None, b) \<Longrightarrow> en \<in> set es \<Longrightarrow> entry_is_dir en \<Longrightarrow> parseVPNConf (entry_conf en) = Inr v \<Longrightarrow> holds_values v b"
proof (induction s es a rule: seed_entries.induct)
  case (2 s x es a)
  show ?case
  proof (cases "en = x")
    case True
    then have "seed_entries s es (seed_conf_values s v a) = (None, b)" using 2 by simp
    then have "grows (seed_conf_values s v a) b" using grows_seed_entries [of "seed_conf_values s v a" s es] by simp
    then show ?thesis using seed_conf_values_holds holds_grows by blast
  next
    case False
    then show ?thesis using 2 by (auto split: if_splits sum.splits conf_error.splits)
  qed
qed simp

lemma seed_roots_holds:
  "seed_roots env rs a = (None, b) \<Longrightarrow> r \<in> set rs \<Longrightarrow> conf_root env r = FileData es \<Longrightarrow> en \<in> set es \<Longrightarrow> entry_is_dir en \<Longrightarrow>
   parseVPNConf (entry_conf en) = Inr v \<Longrightarrow> holds_values v b"
proof (induction env rs a rule: seed_roots.induct)
  case (2 env x rs a)
  show ?case
  proof (cases "r = x")
    case True
    then obtain a1 where a1: "seed_entries (x \<noteq> vpnsDir a) es a = (None, a1)" "seed_roots env rs a1 = (None, b)"
      using 2 by (auto simp: and_then_None)
    have "holds_values v a1" using seed_entries_holds [OF a1(1)] 2 by blast
    moreover have "grows a1 b" using grows_seed_roots [of a1 env rs] a1(2) by simp
    ultimately show ?thesis by (rule holds_grows)
  next
    case False
    then show ?thesis using 2 by (auto simp: and_then_None split: file_read.splits)
  qed
qed simp

lemma newAllocator_holds:
  assumes "newAllocator d roots env = Inr a" "conf_root env (TrimSpace d) = FileData es" "en \<in> set es" "entry_is_dir en"
    "parseVPNConf (entry_conf en) = Inr v"
  shows "holds_values v a"
proof -
  let ?a0 = "\<lparr>vpnsDir = TrimSpace d, configRoots = normalizeConfigRoots (TrimSpace d) roots, usedTables = {},
      usedMarks = {}, stickyTables = {}, stickyMarks = {}\<rparr>"
  have ne: "TrimSpace d \<noteq> []" and seed: "seedUsedValues env ?a0 = (None, a)"
    using assms(1) by (auto simp: newAllocator_def Let_def split: if_splits prod.splits option.splits)
  obtain b where b: "seedFromRouteTables env ?a0 = (None, b)" "seedFromPersistedConfigs env (seedFromIPRoutes env (seedFromIPRules env b)) = (None, a)"
    using seed by (auto simp: seedUsedValues_def and_then_None)
  let ?b = "seedFromIPRoutes env (seedFromIPRules env b)"
  have "grows ?a0 b" using grows_seedFromRouteTables [of ?a0 env] b(1) by simp
  then have "configRoots ?b = normalizeConfigRoots (TrimSpace d) roots"
    using grows_seedFromIPRules [of b env] grows_seedFromIPRoutes [of "seedFromIPRules env b" env] by (simp add: grows_def)
  moreover have "TrimSpace d \<in> set (normalizeConfigRoots (TrimSpace d) roots)" using ne by (simp add: normalizeConfigRoots_def set_dedup_loop)
  ultimately show ?thesis
    using seed_roots_holds [of env _ ?b a "TrimSpace d"] b(2) assms(2-5) by (simp add: seedFromPersistedConfigs_def)
qed

lemma vm_inv_restart:
  assumes inv: "vm_inv m" and disk: "conf_root (ve_live e) (TrimSpace root) = FileData (disk_entries m)"
    and new: "vpn_NewManager e root None (vm_dirs m) (vm_units m) = Inr m'"
  shows "vm_inv m'"
proof -
  obtain a where a: "newAllocator (TrimSpace root) [''/data/split-vpn''] (ve_live e) = Inr a" and m': "vm_alloc m' = a" "vm_dirs m' = vm_dirs m"
    using new by (auto simp: vpn_NewManager_def Let_def bindE_Inr split: if_splits sum.splits)
  have conf: "conf_at m' = conf_at m" by (simp add: fun_eq_iff conf_at_def file_of_def dir_of_def m')
  have "covered (conf_at m) a"
    unfolding covered_def
  proof (intro allI impI)
    fix n v assume v: "conf_at m n = Some v"
    then obtain t k where tk: "tab_of v = Some t" "mark_of v = Some k" "t \<in> usedTables (vm_alloc m)" "k \<in> usedMarks (vm_alloc m)" "dev_of v \<noteq> []"
      using inv unfolding vm_inv_def covered_def by blast
    then have min: "minRouteTableID \<le> t" "minFWMark \<le> k" using inv by (auto simp: vm_inv_def alloc_inv_def)
    obtain c where c: "file_of m n ''vpn.conf'' = Some c" "parseVPNConf (FileData c) = Inr v"
      using v by (auto simp: conf_at_def split: option.splits sum.splits)
    have "\<lparr>entry_is_dir = True, entry_conf = FileData c\<rparr> \<in> set (disk_entries m)"
      using conf_at_entry [OF v] c(1) by (force simp: disk_entries_def)
    then have "holds_values v a" using newAllocator_holds [OF a] disk c(2) by fastforce
    then show "\<exists>t k. tab_of v = Some t \<and> mark_of v = Some k \<and> t \<in> usedTables a \<and> k \<in> usedMarks a \<and> dev_of v \<noteq> []"
      using tk min by (auto simp: holds_values_def)
  qed
  then show ?thesis using inv alloc_inv_newAllocator [OF a] by (simp add: vm_inv_def conf m')
qed


section \<open>Runs of the manager\<close>

text \<open>
  Every operation may meet a different environment and different failures. The two conditions: the removal of a
  directory after a failed creation works, and no update uploads a supporting file under the name of the metadata file.
\<close>

inductive vm_step :: "vpn_manager \<Rightarrow> vpn_manager \<Rightarrow> bool" where
  create: "\<not> ve_fails e RemoveAllDir \<Longrightarrow> vm_step m (snd (vpn_Create e req m))"
| update: "no_conf_upload req \<Longrightarrow> vm_step m (snd (vpn_Update e name req m))"
| delete: "vm_step m (snd (vpn_Delete e name m))"
| restart: "conf_root (ve_live e) (TrimSpace root) = FileData (disk_entries m) \<Longrightarrow>
    vpn_NewManager e root None (vm_dirs m) (vm_units m) = Inr m' \<Longrightarrow> vm_step m m'"

inductive vm_reachable :: "vpn_manager \<Rightarrow> bool" where
  start: "vpn_NewManager e root None [] [] = Inr m \<Longrightarrow> vm_reachable m"
| step: "vm_reachable m \<Longrightarrow> vm_step m m' \<Longrightarrow> vm_reachable m'"

lemma vm_inv_start: "vpn_NewManager e root None [] [] = Inr m \<Longrightarrow> vm_inv m"
  by (auto simp: vpn_NewManager_def Let_def bindE_Inr vm_inv_def covered_def apart_def conf_at_def file_of_def dir_of_def
      alloc_inv_newAllocator split: if_splits sum.splits)

lemma vm_step_inv: "vm_step m m' \<Longrightarrow> vm_inv m \<Longrightarrow> vm_inv m'"
  by (induction rule: vm_step.induct) (auto intro: vm_inv_Create vm_inv_Update vm_inv_Delete vm_inv_restart)

lemma reachable_vm_inv: "vm_reachable m \<Longrightarrow> vm_inv m"
  by (induction rule: vm_reachable.induct) (auto intro: vm_inv_start vm_step_inv)

lemma readProfile_shape:
  assumes "readProfileLocked e m n = Inr p"
  shows "\<exists>v q. conf_at m n = Some v \<and> p = apply_meta n (conf_type v) v q \<and> p_Name q = n"
proof -
  obtain v where v: "read_conf e m n = Inr v"
    using assms by (auto simp: readProfileLocked_def split: sum.splits conf_error.splits)
  then obtain prov where prov: "providers (ve_junk_ok e) (conf_type v) = Some prov"
    using assms by (auto simp: readProfileLocked_def Let_def split: option.splits)
  have "\<exists>q. p = apply_meta n (conf_type v) v q \<and> p_Name q = n"
    using assms v prov unfolding readProfileLocked_def Let_def by (force simp: bindE_Inr case_Inr_iff)
  then show ?thesis using read_conf_at [OF v] by blast
qed

lemma profiles_apart:
  assumes "vm_inv m" "vpn_Get e1 a m = Inr p" "vpn_Get e2 b m = Inr q" "p_Name p \<noteq> p_Name q"
  shows "p_RouteTable p \<noteq> p_RouteTable q \<and> p_FWMark p \<noteq> p_FWMark q \<and> \<not> EqualFold (p_InterfaceName p) (p_InterfaceName q)"
proof -
  have shape: "\<exists>n v. conf_at m n = Some v \<and> p_Name x = n \<and> tab_of v = Some (p_RouteTable x) \<and> mark_of v = Some (p_FWMark x) \<and> p_InterfaceName x = dev_of v"
    if "vpn_Get e c m = Inr x" for e c x
  proof -
    obtain n where n: "readProfileLocked e m n = Inr x" using \<open>vpn_Get e c m = Inr x\<close> by (auto simp: vpn_Get_def bindE_Inr)
    obtain v y where v: "conf_at m n = Some v" "x = apply_meta n (conf_type v) v y" "p_Name y = n"
      using readProfile_shape [OF n] by blast
    obtain t k where "tab_of v = Some t" "mark_of v = Some k" "dev_of v \<noteq> []"
      using assms(1) v(1) unfolding vm_inv_def covered_def by blast
    then show ?thesis using v by (auto simp: apply_meta_def Let_def tab_of_def mark_of_def dev_of_def)
  qed
  obtain n v where p: "conf_at m n = Some v" "p_Name p = n" "tab_of v = Some (p_RouteTable p)" "mark_of v = Some (p_FWMark p)" "p_InterfaceName p = dev_of v"
    using shape [OF assms(2)] by blast
  obtain x w where q: "conf_at m x = Some w" "p_Name q = x" "tab_of w = Some (p_RouteTable q)" "mark_of w = Some (p_FWMark q)" "p_InterfaceName q = dev_of w"
    using shape [OF assms(3)] by blast
  have "tab_of v \<noteq> tab_of w \<and> mark_of v \<noteq> mark_of w \<and> \<not> EqualFold (dev_of v) (dev_of w)"
    using assms(1,4) p q unfolding vm_inv_def apart_def by blast
  then show ?thesis using p q by auto
qed


section \<open>Properties\<close>


definition quiet_env :: vpn_env where
  "quiet_env = \<lparr>ve_live = \<lparr>rt_tables = FileMissing, ip_output = (\<lambda>_. None), conf_root = (\<lambda>_. FileMissing)\<rparr>,
     ve_interfaces = None, ve_systemd = FileMissing, ve_peacey = FileMissing, ve_resolvconf = True, ve_junk_ok = (\<lambda>_ _. True),
     ve_units = False, ve_fails = (\<lambda>_. False), ve_partial = (\<lambda>_. [])\<rparr>"

definition sample_request :: "string \<Rightarrow> upsert_request" where
  "sample_request name = \<lparr>rq_Name = name, rq_Type = ''openvpn'', rq_Config = Join [''client'', ''remote h'', ''dev tun''] [CHR 0x0A],
     rq_ConfigFile = [], rq_SupportingFiles = [], rq_InterfaceName = name, rq_BoundInterface = [], rq_MSSClampV4 = [], rq_MSSClampV6 = []\<rparr>"

definition empty_manager :: vpn_manager where
  "empty_manager = \<lparr>vm_dataDir = ''/d'', vm_dirs = [], vm_units = [], vm_alloc = \<lparr>vpnsDir = ''/d/vpns'',
     configRoots = [''/d/vpns'', ''/data/split-vpn''], usedTables = {}, usedMarks = {}, stickyTables = {}, stickyMarks = {}\<rparr>\<rparr>"

definition sample_conf :: "string \<Rightarrow> string list \<Rightarrow> string" where
  "sample_conf name numbers = Join ([''VPN_PROVIDER=\"openvpn\"'', ''DEV=\"'' @ name @ ''\"''] @ numbers @
     [''FORCED_IPSETS=\"\"'', ''VPN_ENDPOINT_IPV4=\"h\"'', ''CONFIG_FILE=\"'' @ name @ ''.ovpn\"'', []]) [CHR 0x0A]"

definition sample_dir :: "string \<Rightarrow> string list \<Rightarrow> string \<times> (string \<times> string) list" where
  "sample_dir name numbers =
     (name, [(name @ ''.ovpn'', rq_Config (sample_request name)), (''vpn.conf'', sample_conf name numbers)])"

definition manager_a :: vpn_manager where
  "manager_a = empty_manager\<lparr>vm_dirs := [sample_dir ''a'' [''ROUTE_TABLE=200'', ''MARK=0xc8'']],
     vm_alloc := (vm_alloc empty_manager)\<lparr>usedTables := {200}, usedMarks := {200}\<rparr>\<rparr>"

definition manager_ab :: vpn_manager where
  "manager_ab = snd (vpn_Create quiet_env (sample_request ''b'') manager_a)"

definition two_profiles :: "vpn_manager \<Rightarrow> bool" where
  "two_profiles m = (case (vpn_Get quiet_env ''a'' m, vpn_Get quiet_env ''b'' m) of
     (Inr p, Inr q) \<Rightarrow> p_Name p \<noteq> p_Name q | _ \<Rightarrow> False)"

lemma start_empty: "vpn_NewManager quiet_env ''/d/vpns'' None [] [] = Inr empty_manager"
  by code_simp

lemma create_a: "snd (vpn_Create quiet_env (sample_request ''a'') empty_manager) = manager_a"
  by code_simp

lemma two_profiles_ab: "two_profiles manager_ab"
  by code_simp

lemma manager_ab_reachable: "vm_reachable manager_ab"
proof -
  have quiet: "\<not> ve_fails quiet_env RemoveAllDir" by (simp add: quiet_env_def)
  have "vm_reachable manager_a"
    using vm_reachable.step [OF vm_reachable.start [OF start_empty] vm_step.create [OF quiet]] create_a by metis
  then show ?thesis unfolding manager_ab_def by (rule vm_reachable.step [OF _ vm_step.create [OF quiet]])
qed


end
