(* ===== verification/Config_Manager.thy ===== *)
theory Config_Manager
  imports Vpn_Manager
begin

text \<open>
  The manager of configuration files: \<^verbatim>\<open>internal/config/config.go\<close>. It works on the same tree as the manager of profiles (one directory
  of plain files per profile), keeps a cache of the parsed \<^verbatim>\<open>vpn.conf\<close> files, and stores the autostart flag of a
  profile as a marker file in its directory. Absolute paths and symbolic links are resolved by parameters.
\<close>


section \<open>Paths\<close>

text \<open>\<^verbatim>\<open>filepath.Clean\<close> by components: \<open>up\<close> are the leading parents of a relative path.\<close>

fun clean_comps :: "bool \<Rightarrow> string list \<Rightarrow> string list \<Rightarrow> string list" where
  "clean_comps rooted acc [] = rev acc"
| "clean_comps rooted acc (c # cs) =
     (if c = [] \<or> c = ''.'' then clean_comps rooted acc cs
      else if c = ''..'' then
        (case acc of
           [] \<Rightarrow> clean_comps rooted (if rooted then [] else [c]) cs
         | a # rest \<Rightarrow> if a = ''..'' then clean_comps rooted (c # acc) cs else clean_comps rooted rest cs)
      else clean_comps rooted (c # acc) cs)"

definition comps :: "string \<Rightarrow> string list" where
  "comps p = clean_comps (HasPrefix p ''/'') [] (Split p (CHR ''/''))"

definition unsplit :: "bool \<Rightarrow> string list \<Rightarrow> string" where
  "unsplit rooted cs = (if rooted then ''/'' @ Join cs ''/'' else if cs = [] then ''.'' else Join cs ''/'')"

definition filepath_Clean :: "string \<Rightarrow> string" where
  "filepath_Clean p = unsplit (HasPrefix p ''/'') (comps p)"

text \<open>\<^verbatim>\<open>filepath.Rel\<close>: both paths rooted or both not, and no parent left in the base.\<close>

fun rel_comps :: "string list \<Rightarrow> string list \<Rightarrow> string list option" where
  "rel_comps [] ts = Some ts"
| "rel_comps (b # bs) [] = (if b = ''..'' then None else Some (map (\<lambda>_. ''..'') (b # bs)))"
| "rel_comps (b # bs) (t # ts) =
     (if b = t then rel_comps bs ts else if b = ''..'' then None else Some (map (\<lambda>_. ''..'') (b # bs) @ (t # ts)))"

definition filepath_Rel :: "string \<Rightarrow> string \<Rightarrow> string option" where
  "filepath_Rel base target =
     (if HasPrefix base ''/'' \<noteq> HasPrefix target ''/'' then None
      else map_option (unsplit False) (rel_comps (comps base) (comps target)))"


section \<open>State\<close>

definition configFileName :: string where "configFileName = ''vpn.conf''"
definition autostartMarkerName :: string where "autostartMarkerName = ''.split-vpn-webui-autostart''"

record vpn_config =
  cf_Name :: string
  cf_Path :: string
  cf_InterfaceName :: string
  cf_VPNType :: string
  cf_Gateway :: string
  cf_RawValues :: vpn_meta

datatype config_error = ConfigIO | ConfigScan | ConfigNotFound string | EscapesBase string string

datatype config_op =
    WalkTree | OpenConfig string | ReadConfigText | WriteConfigTmp | RenameConfigTmp | StatMarker string
  | OpenMarker string | RemoveMarker string

record config_env =
  ce_abs :: "string \<Rightarrow> string option"
  ce_eval :: "string \<Rightarrow> string file_read"
  ce_fails :: "config_op \<Rightarrow> bool"
  ce_partial :: "string \<Rightarrow> string"

record config_manager =
  cm_basePath :: string
  cm_configs :: "(string \<times> vpn_config) list"
  cm_dirs :: "(string \<times> profile_files) list"

definition config_NewManager :: "string \<Rightarrow> (string \<times> profile_files) list \<Rightarrow> config_manager" where
  "config_NewManager basePath dirs = \<lparr>cm_basePath = basePath, cm_configs = [], cm_dirs = dirs\<rparr>"

definition file_in :: "config_manager \<Rightarrow> string \<Rightarrow> string \<Rightarrow> string option" where
  "file_in m name f = (case map_of (cm_dirs m) name of None \<Rightarrow> None | Some fs \<Rightarrow> map_of fs f)"

definition on_dir :: "string \<Rightarrow> (profile_files \<Rightarrow> profile_files) \<Rightarrow> config_manager \<Rightarrow> config_manager" where
  "on_dir name f m =
     m\<lparr>cm_dirs := (case map_of (cm_dirs m) name of None \<Rightarrow> cm_dirs m | Some fs \<Rightarrow> AList.update name (f fs) (cm_dirs m))\<rparr>"

definition config_io :: "config_env \<Rightarrow> config_op \<Rightarrow> (config_manager \<Rightarrow> config_manager) \<Rightarrow> (config_error, config_manager) proc" where
  "config_io e opn f m = (if ce_fails e opn then (Some ConfigIO, m) else (None, f m))"


section \<open>Parsing\<close>

definition is_key_char :: "char \<Rightarrow> bool" where
  "is_key_char c \<longleftrightarrow> is_alnum c \<or> c = CHR ''_''"

definition keyValuePattern :: "string \<Rightarrow> (string \<times> string) option" where
  "keyValuePattern line =
     (let k = takeWhile is_key_char line in
      case dropWhile is_key_char line of
        c # v \<Rightarrow> if k \<noteq> [] \<and> c = CHR ''='' then Some (k, v) else None
      | [] \<Rightarrow> None)"

definition config_line :: "string \<Rightarrow> (string \<times> string) option" where
  "config_line text1 =
     (let line = TrimSpace text1 in
      if line = [] \<or> HasPrefix line ''#'' then None
      else (case keyValuePattern line of
              None \<Rightarrow> None
            | Some (k, v) \<Rightarrow> Some (TrimSpace k, trim_quotes (TrimSpace v))))"

fun config_lines :: "vpn_meta \<Rightarrow> string list \<Rightarrow> vpn_meta" where
  "config_lines m [] = m"
| "config_lines m (l # ls) =
     (case config_line l of None \<Rightarrow> config_lines m ls | Some (k, v) \<Rightarrow> config_lines (AList.update k v m) ls)"

definition config_type :: "vpn_meta \<Rightarrow> string" where
  "config_type vals =
     (let t0 = TrimSpace (meta_get vals ''VPN_PROVIDER''); t = (if t0 = [] then TrimSpace (meta_get vals ''VPN_TYPE'') else t0);
          l = ToLower t
      in if l \<in> {''external'', ''wireguard'', ''wg''} then ''wireguard''
         else if l = ''openvpn'' then ''openvpn''
         else if l \<in> {''amneziawg'', ''awg''} then ''amneziawg''
         else t)"

definition first_set :: "string list \<Rightarrow> string" where
  "first_set xs = (case filter (\<lambda>x. x \<noteq> []) xs of [] \<Rightarrow> [] | x # _ \<Rightarrow> x)"

definition parseConfig :: "string \<Rightarrow> string \<Rightarrow> string \<Rightarrow> config_error + vpn_config" where
  "parseConfig base name content =
     (case scan_lines content of (ls, err) \<Rightarrow>
        if err then Inl ConfigScan
        else (let vals = config_lines [] ls; get = (\<lambda>k. TrimSpace (meta_get vals k)) in
              Inr \<lparr>cf_Name = name, cf_Path = path_join base [name], cf_InterfaceName = get ''DEV'', cf_VPNType = config_type vals,
                   cf_Gateway = first_set [get ''VPN_ENDPOINT_IPV4'', get ''VPN_ENDPOINT_IPV6'', get ''VPN_GATEWAY''],
                   cf_RawValues = vals\<rparr>))"


section \<open>Operations\<close>

definition discovered :: "config_env \<Rightarrow> config_manager \<Rightarrow> string \<Rightarrow> config_error + vpn_config list" where
  "discovered e m name =
     (case file_in m name configFileName of
        None \<Rightarrow> Inr []
      | Some c \<Rightarrow> if ce_fails e (OpenConfig name) then Inl ConfigIO
                  else (case parseConfig (cm_basePath m) name c of Inl err \<Rightarrow> Inl err | Inr cfg \<Rightarrow> Inr [cfg]))"

definition Discover :: "config_env \<Rightarrow> (config_error, vpn_config list, config_manager) call" where
  "Discover e m =
     (if ce_fails e WalkTree then (Inl ConfigIO, m)
      else (case traverse (discovered e m) (entries_sorted (cm_dirs m)) of
              Inl err \<Rightarrow> (Inl err, m)
            | Inr css \<Rightarrow> (Inr (concat css), m\<lparr>cm_configs := map (\<lambda>c. (cf_Name c, c)) (concat css)\<rparr>)))"

definition config_List :: "config_env \<Rightarrow> (config_error, vpn_config list, config_manager) call" where
  "config_List e m =
     (if cm_configs m \<noteq> [] then (Inr (sort_key cf_Name (map snd (cm_configs m))), m) else Discover e m)"

definition config_Get :: "config_env \<Rightarrow> string \<Rightarrow> (config_error, vpn_config, config_manager) call" where
  "config_Get e name m =
     (case map_of (cm_configs m) name of
        Some cfg \<Rightarrow> (Inr cfg, m)
      | None \<Rightarrow> call_then (Discover e) (\<lambda>_ m'. (case map_of (cm_configs m') name of
                   None \<Rightarrow> (Inl (ConfigNotFound name), m') | Some cfg \<Rightarrow> (Inr cfg, m'))) m)"

definition evaluatePath :: "config_env \<Rightarrow> string \<Rightarrow> config_error + string" where
  "evaluatePath e path =
     (case ce_abs e path of
        None \<Rightarrow> Inl ConfigIO
      | Some p \<Rightarrow> (case ce_eval e p of
                      FileMissing \<Rightarrow> Inr (filepath_Clean p)
                    | FileError \<Rightarrow> Inl ConfigIO
                    | FileData q \<Rightarrow> Inr (filepath_Clean q)))"

definition ensureWithinBase :: "config_env \<Rightarrow> string \<Rightarrow> string \<Rightarrow> config_error + string" where
  "ensureWithinBase e basePath targetPath =
     bindE (evaluatePath e basePath) (\<lambda>base.
     bindE (evaluatePath e targetPath) (\<lambda>target.
       case filepath_Rel base target of
         None \<Rightarrow> Inl ConfigIO
       | Some rel \<Rightarrow> if rel = ''..'' \<or> HasPrefix rel ''../'' then Inl (EscapesBase target base) else Inr target))"

definition ConfigPath :: "config_env \<Rightarrow> string \<Rightarrow> (config_error, string, config_manager) call" where
  "ConfigPath e name =
     call_then (config_Get e name) (\<lambda>cfg m.
       (bindE (ensureWithinBase e (cm_basePath m) (cf_Path cfg)) (\<lambda>dir.
          ensureWithinBase e dir (path_join dir [configFileName])), m))"
definition ReadConfigFile :: "config_env \<Rightarrow> string \<Rightarrow> (config_error, string, config_manager) call" where
  "ReadConfigFile e name =
     call_then (ConfigPath e name) (\<lambda>_ m.
       (case file_in m name configFileName of
          None \<Rightarrow> Inl ConfigIO
        | Some c \<Rightarrow> if ce_fails e ReadConfigText then Inl ConfigIO else Inr c, m))"

text \<open>A failed write leaves some text in the temporary file, which is not removed.\<close>

definition WriteConfigFile :: "config_env \<Rightarrow> string \<Rightarrow> string \<Rightarrow> (config_error, unit, config_manager) call" where
  "WriteConfigFile e name contents =
     (let tmp = configFileName @ ''.tmp'' in
      call_then (ConfigPath e name) (\<lambda>_.
      call_then (lift_proc (\<lambda>m. if ce_fails e WriteConfigTmp
                              then (Some ConfigIO, on_dir name (AList.update tmp (ce_partial e contents)) m)
                              else (None, on_dir name (AList.update tmp contents) m))) (\<lambda>_.
      call_then (lift_proc (config_io e RenameConfigTmp (on_dir name (\<lambda>fs. AList.update configFileName contents (AList.delete tmp fs))))) (\<lambda>_.
      call_then (Discover e) (\<lambda>_. returns ())))))"

definition AutostartEnabled :: "config_env \<Rightarrow> string \<Rightarrow> (config_error, bool, config_manager) call" where
  "AutostartEnabled e name =
     call_then (config_Get e name) (\<lambda>cfg m.
       (if ce_fails e (StatMarker name) then Inl ConfigIO
        else Inr (file_in m (cf_Name cfg) autostartMarkerName \<noteq> None), m))"

definition keep_or_create :: "string \<Rightarrow> profile_files \<Rightarrow> profile_files" where
  "keep_or_create f fs = (if map_of fs f = None then AList.update f [] fs else fs)"

definition SetAutostart :: "config_env \<Rightarrow> string \<Rightarrow> bool \<Rightarrow> (config_error, unit, config_manager) call" where
  "SetAutostart e name enabled =
     call_then (config_Get e name) (\<lambda>cfg. lift_proc
       (if enabled then
          (\<lambda>m. if map_of (cm_dirs m) (cf_Name cfg) = None \<or> ce_fails e (OpenMarker name) then (Some ConfigIO, m)
               else (None, on_dir (cf_Name cfg) (keep_or_create autostartMarkerName) m))
        else
          (\<lambda>m. if file_in m (cf_Name cfg) autostartMarkerName = None then (None, m)
               else config_io e (RemoveMarker name) (on_dir (cf_Name cfg) (AList.delete autostartMarkerName)) m)))"

definition AllAutostart :: "config_env \<Rightarrow> (config_error, (string \<times> bool) list, config_manager) call" where
  "AllAutostart e =
     call_then (config_List e) (\<lambda>cfgs. call_each (\<lambda>cfg. call_then (AutostartEnabled e (cf_Name cfg)) (\<lambda>b. returns (cf_Name cfg, b))) cfgs)"

section \<open>Paths stay below the base\<close>

lemma rel_comps_cases: "rel_comps b t = Some r \<Longrightarrow> t = b @ r \<or> (\<exists>r'. r = ''..'' # r')"
  by (induction b t rule: rel_comps.induct) (auto split: if_splits)

lemma parent_text: "unsplit False (''..'' # r) = ''..'' \<or> HasPrefix (unsplit False (''..'' # r)) ''../''"
  by (cases r) (auto simp: unsplit_def HasPrefix_def)

text \<open>An accepted path lies in the evaluated base: its components begin with those of the base.\<close>

lemma ensureWithinBase_below:
  assumes "ensureWithinBase e basePath path = Inr p"
  obtains base where "evaluatePath e basePath = Inr base" "evaluatePath e path = Inr p" "take (length (comps base)) (comps p) = comps base"
proof -
  obtain base rel where b: "evaluatePath e basePath = Inr base" "evaluatePath e path = Inr p"
    "filepath_Rel base p = Some rel" "rel \<noteq> ''..''" "\<not> HasPrefix rel ''../''"
    using assms by (auto simp: ensureWithinBase_def bindE_Inr split: option.splits if_splits)
  then obtain r where r: "rel_comps (comps base) (comps p) = Some r" "rel = unsplit False r"
    by (auto simp: filepath_Rel_def split: if_splits)
  have "comps p = comps base @ r"
    using rel_comps_cases [OF r(1)] parent_text b(4,5) r(2) by blast
  then show thesis using b that by simp
qed

lemma config_Get_base: "config_Get e name m = (Inr cfg, m') \<Longrightarrow> cm_basePath m' = cm_basePath m"
  by (auto simp: config_Get_def proc_simps Discover_def split: option.splits if_splits sum.splits)

lemma ConfigPath_below:
  assumes "ConfigPath e name m = (Inr p, m')" and idem: "\<And>x y. evaluatePath e x = Inr y \<Longrightarrow> evaluatePath e y = Inr y"
  obtains base where "evaluatePath e (cm_basePath m) = Inr base" "take (length (comps base)) (comps p) = comps base"
proof -
  obtain cfg m1 dir where d: "config_Get e name m = (Inr cfg, m1)" "ensureWithinBase e (cm_basePath m1) (cf_Path cfg) = Inr dir"
    "ensureWithinBase e dir (path_join dir [configFileName]) = Inr p"
    using assms(1) by (auto simp: ConfigPath_def proc_simps bindE_Inr)
  obtain base where b: "evaluatePath e (cm_basePath m) = Inr base" "take (length (comps base)) (comps dir) = comps base" "evaluatePath e (cf_Path cfg) = Inr dir"
    using ensureWithinBase_below [OF d(2)] config_Get_base [OF d(1)] by metis
  have "take (length (comps dir)) (comps p) = comps dir"
    using ensureWithinBase_below [OF d(3)] idem [OF b(3)] by (metis Inr_inject)
  moreover have "length (comps base) \<le> length (comps dir)" using arg_cong [OF b(2), of length] by simp
  ultimately have "take (length (comps base)) (comps p) = comps base"
    using b(2) by (metis min.absorb1 take_take)
  then show thesis using b(1) that by blast
qed


section \<open>The two readers of \<^verbatim>\<open>vpn.conf\<close>\<close>

lemma key_chars: "is_key_char c \<Longrightarrow> \<not> is_space c \<and> c \<noteq> CHR ''='' \<and> c \<noteq> CHR ''#''"
  by (auto simp: is_key_char_def is_alnum_def is_lower_def is_upper_def is_digit_def is_space_def)

lemma trim_head_kept:
  assumes "k \<noteq> []" "list_all is_key_char k"
  obtains x' where "TrimSpace (k @ CHR ''='' # x) = k @ CHR ''='' # x'"
proof -
  obtain a b where ab: "k @ CHR ''='' # x = a @ TrimSpace (k @ CHR ''='' # x) @ b" "list_all is_space a" "list_all is_space b"
    using TrimSpace_split by metis
  have "a = []" using ab(1,2) assms key_chars by (cases a; cases k) auto
  then consider us where "k = TrimSpace (k @ CHR ''='' # x) @ us" "us @ CHR ''='' # x = b"
    | us where "k @ us = TrimSpace (k @ CHR ''='' # x)" "CHR ''='' # x = us @ b"
    using ab(1) by (auto simp: append_eq_append_conv2)
  then show thesis
  proof cases
    case (1 us)
    then have "is_space (CHR ''='')" using ab(3) by (auto simp: list_all_iff)
    then show thesis by (simp add: is_space_def)
  next
    case (2 us)
    have "us \<noteq> []" using 2(2) ab(3) by (auto simp: is_space_def)
    then obtain v where "us = CHR ''='' # v" using 2(2) by (cases us) auto
    then show thesis using 2(1) that [of v] by simp
  qed
qed

text \<open>On a line that begins with a key and an equals sign both readers see the same pair.\<close>

lemma readers_agree_line:
  assumes k: "k \<noteq> []" "list_all is_key_char k"
  shows "config_line (k @ CHR ''='' # x) = parse_conf_line (k @ CHR ''='' # x)"
proof -
  obtain x' where x': "TrimSpace (k @ CHR ''='' # x) = k @ CHR ''='' # x'" using trim_head_kept [OF k] by blast
  have kc: "\<forall>c \<in> set k. is_key_char c" "CHR ''='' \<notin> set k" "\<forall>c \<in> set k. \<not> is_space c"
    using k key_chars by (auto simp: list_all_iff)
  have no: "\<not> is_key_char (CHR ''='')" using key_chars by blast
  have tk: "TrimSpace k = k" using kc(3) by (auto intro!: TrimSpace_id no_space_trimmed simp: list_all_iff)
  have split: "takeWhile is_key_char (k @ CHR ''='' # x') = k" "dropWhile is_key_char (k @ CHR ''='' # x') = CHR ''='' # x'"
    using kc(1) no by (simp_all add: takeWhile_append2 dropWhile_append2)
  have ba: "before_char (CHR ''='') (k @ CHR ''='' # x') = k" "after_char (CHR ''='') (k @ CHR ''='' # x') = x'"
  proof -
    have ne: "\<And>c. c \<in> set k \<Longrightarrow> c \<noteq> CHR ''=''" using kc(2) by blast
    show "before_char (CHR ''='') (k @ CHR ''='' # x') = k"
      unfolding before_char_def by (subst takeWhile_append2) (auto dest: ne)
    show "after_char (CHR ''='') (k @ CHR ''='' # x') = x'"
      unfolding after_char_def by (subst dropWhile_append2) (auto dest: ne)
  qed
  have hd: "\<not> HasPrefix (k @ CHR ''='' # x') ''#''" "\<not> HasPrefix (k @ CHR ''='' # x') ''=''"
    using k key_chars by (cases k; auto simp: HasPrefix_def)+
  show ?thesis
    using hd k(1) by (simp add: config_line_def parse_conf_line_def Let_def x' keyValuePattern_def split ba tk)
qed

lemma readers_agree:
  assumes "\<And>l. l \<in> set ls \<Longrightarrow> config_line l = parse_conf_line l"
  shows "config_lines m ls = parse_conf_lines m ls"
  using assms by (induction ls arbitrary: m) (auto split: option.splits)

text \<open>On every file that the manager of profiles writes, both readers get the same values.\<close>

lemma readers_agree_on_profiles:
  assumes "list_all entry_ok meta" "meta \<noteq> []" "distinct (map fst meta)" "\<forall>k \<in> fst ` set meta. list_all is_key_char k"
    and "parseConfig base name (renderVPNConf meta) = Inr cfg"
  shows "parseVPNConf (FileData (renderVPNConf meta)) = Inr (cf_RawValues cfg)"
proof -
  have lines: "config_line l = parse_conf_line l" if l: "l \<in> set (render_lines meta)" for l
  proof -
    obtain k where k: "k \<in> fst ` set meta" "l = render_line k (meta_get meta k)"
      using l by (auto simp: render_lines_def set_render_keys)
    have "l = k @ CHR ''='' # (if raw_key k then TrimSpace (meta_get meta k) else quote (meta_get meta k))"
      using k(2) by (simp add: render_line_def)
    moreover have "k \<noteq> []" using k(1) assms(1) by (auto simp: list_all_iff entry_ok_def key_ok_def)
    ultimately show ?thesis using readers_agree_line assms(4) k(1) by blast
  qed
  then show ?thesis
    using assms(5) scan_rendered [OF assms(1-3)] readers_agree [of "render_lines meta" "[]"]
    by (auto simp: parseConfig_def parseVPNConf_def Let_def)
qed

end
