(* ===== verification/Backup.thy ===== *)
theory Backup
  imports Config_Manager Vpn_Manager_Safety App_Settings Routing_Normalize Desired_Sets
begin

text \<open>
  Export and import of the whole configuration: \<^verbatim>\<open>internal/backup/manager.go\<close> and \<^verbatim>\<open>types.go\<close>. The stores that the manager uses are Go
  interfaces, here the record \<open>backup_deps\<close> of calls over a world \<open>'w\<close>; \<open>backup_real\<close> puts the manager of profiles and the manager
  of configuration files in their place, over the tree they share. \<^verbatim>\<open>sort.Slice\<close> does not say how it orders equal
  keys; the model keeps their order.
\<close>


section \<open>Snapshots\<close>

definition FormatName :: string where "FormatName = ''split-vpn-webui-backup''"
definition CurrentVersion :: int where "CurrentVersion = 1"

record vpn_record =
  vr_Name :: string
  vr_Type :: string
  vr_Config :: string
  vr_ConfigFile :: string
  vr_InterfaceName :: string
  vr_BoundInterface :: string
  vr_SupportingFiles :: "upload list"
  vr_Autostart :: bool

record port_record =
  pt_Protocol :: string
  pt_Start :: int
  pt_End :: int

record rule_record =
  ru_Name :: string
  ru_SourceInterfaces :: "string list"
  ru_SourceCIDRs :: "string list"
  ru_SourceMACs :: "string list"
  ru_DestinationCIDRs :: "string list"
  ru_DestinationPorts :: "port_record list"
  ru_DestinationASNs :: "string list"
  ru_Domains :: "string list"
  ru_WildcardDomains :: "string list"

record group_record =
  gr_Name :: string
  gr_EgressVPN :: string
  gr_Rules :: "rule_record list"

record resolver_record =
  rr_Type :: string
  rr_Key :: string
  rr_V4 :: "string list"
  rr_V6 :: "string list"

record snapshot =
  sn_Format :: string
  sn_Version :: int
  sn_ExportedAt :: int
  sn_Settings :: settings
  sn_VPNs :: "vpn_record list"
  sn_Groups :: "group_record list"
  sn_Resolver :: "resolver_record list"

datatype snapshot_error =
    BadFormat string | BadVersion int | BadVPNName string name_error | DuplicateVPN string | BadVPNType string string
  | EmptyVPNConfig string | BadGroup string group_error | MissingEgress string string | ResolverKeyRequired | BadResolverType string

datatype 'e backup_error =
    ErrInvalidSnapshot snapshot_error | StoreFailed 'e
  | RolledBack "'e backup_error" | RollbackFailed "'e backup_error" "'e backup_error"


section \<open>Conversions\<close>

definition port_to_record :: "port_range \<Rightarrow> port_record" where
  "port_to_record p = \<lparr>pt_Protocol = Protocol p, pt_Start = Start p, pt_End = End p\<rparr>"

definition port_to_routing :: "port_record \<Rightarrow> port_range" where
  "port_to_routing p = \<lparr>Protocol = pt_Protocol p, Start = pt_Start p, End = pt_End p\<rparr>"

definition rule_to_record :: "routing_rule \<Rightarrow> rule_record" where
  "rule_to_record r =
     \<lparr>ru_Name = rule_Name r, ru_SourceInterfaces = SourceInterfaces r, ru_SourceCIDRs = SourceCIDRs r, ru_SourceMACs = SourceMACs r,
      ru_DestinationCIDRs = DestinationCIDRs r, ru_DestinationPorts = map port_to_record (DestinationPorts r),
      ru_DestinationASNs = DestinationASNs r, ru_Domains = Domains r, ru_WildcardDomains = WildcardDomains r\<rparr>"

definition rule_to_routing :: "rule_record \<Rightarrow> routing_rule" where
  "rule_to_routing r = empty_rule
     \<lparr>rule_Name := ru_Name r, SourceInterfaces := ru_SourceInterfaces r, SourceCIDRs := ru_SourceCIDRs r, SourceMACs := ru_SourceMACs r,
      DestinationCIDRs := ru_DestinationCIDRs r, DestinationPorts := map port_to_routing (ru_DestinationPorts r),
      DestinationASNs := ru_DestinationASNs r, Domains := ru_Domains r, WildcardDomains := ru_WildcardDomains r\<rparr>"

definition groupToRecord :: "domain_group \<Rightarrow> group_record" where
  "groupToRecord g = \<lparr>gr_Name = group_Name g, gr_EgressVPN = EgressVPN g, gr_Rules = map rule_to_record (Rules g)\<rparr>"

definition groupToRouting :: "group_record \<Rightarrow> domain_group" where
  "groupToRouting g =
     \<lparr>group_ID = 0, group_Name = gr_Name g, EgressVPN = gr_EgressVPN g, Rules = map rule_to_routing (gr_Rules g),
      group_Domains = [], CreatedAt = 0, UpdatedAt = 0\<rparr>"

definition dedupeSorted :: "string list \<Rightarrow> string list" where
  "dedupeSorted vals = sort_strings (dedup (filter (\<lambda>t. t \<noteq> []) (map TrimSpace vals)))"

definition resolver_key :: "resolver_record \<Rightarrow> string \<times> string" where
  "resolver_key r = (rr_Type r, rr_Key r)"

text \<open>The comparison of two records: by type, then by key.\<close>

fun insert_record :: "resolver_record \<Rightarrow> resolver_record list \<Rightarrow> resolver_record list" where
  "insert_record r [] = [r]"
| "insert_record r (x # xs) =
     (if rr_Type r < rr_Type x \<or> rr_Type r = rr_Type x \<and> rr_Key r \<le> rr_Key x then r # x # xs else x # insert_record r xs)"

definition sort_records :: "resolver_record list \<Rightarrow> resolver_record list" where
  "sort_records rs = foldr insert_record rs []"

definition resolverSnapshotToRecords :: "resolver_snapshot \<Rightarrow> resolver_record list" where
  "resolverSnapshotToRecords snap =
     map (\<lambda>(sel, vals). \<lparr>rr_Type = fst sel, rr_Key = snd sel, rr_V4 = dedupeSorted (V4 vals), rr_V6 = dedupeSorted (V6 vals)\<rparr>) snap"

fun resolverRecordsToSnapshot :: "resolver_record list \<Rightarrow> resolver_snapshot" where
  "resolverRecordsToSnapshot [] = []"
| "resolverRecordsToSnapshot (r # rs) =
     (let rest = resolverRecordsToSnapshot rs in
      if map_of rest (resolver_key r) \<noteq> None then rest else (resolver_key r, \<lparr>V4 = rr_V4 r, V6 = rr_V6 r\<rparr>) # rest)"


section \<open>Validation\<close>

definition trim_vpn :: "vpn_record \<Rightarrow> vpn_record" where
  "trim_vpn v = v\<lparr>vr_Name := TrimSpace (vr_Name v), vr_Type := ToLower (TrimSpace (vr_Type v)), vr_ConfigFile := TrimSpace (vr_ConfigFile v),
     vr_InterfaceName := TrimSpace (vr_InterfaceName v), vr_BoundInterface := TrimSpace (vr_BoundInterface v)\<rparr>"

definition vpn_types :: "string list" where "vpn_types = [''wireguard'', ''openvpn'', ''amneziawg'']"

fun normalize_vpns :: "string list \<Rightarrow> vpn_record list \<Rightarrow> snapshot_error + vpn_record list" where
  "normalize_vpns seen [] = Inr []"
| "normalize_vpns seen (raw # rest) =
     (let v = trim_vpn raw; name = vr_Name v in
      case ValidateName name of
        Some err \<Rightarrow> Inl (BadVPNName name err)
      | None \<Rightarrow>
          if name \<in> set seen then Inl (DuplicateVPN name)
          else if vr_Type v \<notin> set vpn_types then Inl (BadVPNType name (vr_Type v))
          else if TrimSpace (vr_Config v) = [] then Inl (EmptyVPNConfig name)
          else bindE (normalize_vpns (name # seen) rest) (\<lambda>vs.
                 Inr (v\<lparr>vr_SupportingFiles := sort_key up_Name (vr_SupportingFiles v)\<rparr> # vs)))"

definition normalize_group :: "string list \<Rightarrow> group_record \<Rightarrow> snapshot_error + group_record" where
  "normalize_group names raw =
     (let g = raw\<lparr>gr_Name := TrimSpace (gr_Name raw), gr_EgressVPN := TrimSpace (gr_EgressVPN raw)\<rparr> in
      case NormalizeAndValidate (groupToRouting g) of
        Inl err \<Rightarrow> Inl (BadGroup (gr_Name g) err)
      | Inr rg \<Rightarrow> if EgressVPN rg \<notin> set names then Inl (MissingEgress (group_Name rg) (EgressVPN rg)) else Inr (groupToRecord rg))"

definition normalize_resolver :: "resolver_record \<Rightarrow> snapshot_error + resolver_record" where
  "normalize_resolver raw =
     (let r = raw\<lparr>rr_Type := ToLower (TrimSpace (rr_Type raw)), rr_Key := TrimSpace (rr_Key raw)\<rparr> in
      if rr_Key r = [] then Inl ResolverKeyRequired
      else if rr_Type r \<notin> {''domain'', ''asn'', ''wildcard''} then Inl (BadResolverType (rr_Type r))
      else Inr (r\<lparr>rr_V4 := dedupeSorted (rr_V4 r), rr_V6 := dedupeSorted (rr_V6 r)\<rparr>))"

definition normalizeSnapshot :: "snapshot \<Rightarrow> snapshot_error + snapshot" where
  "normalizeSnapshot raw =
     (let fmt = (if TrimSpace (sn_Format raw) = [] then FormatName else sn_Format raw);
          ver = (if sn_Version raw \<le> 0 then CurrentVersion else sn_Version raw)
      in if fmt \<noteq> FormatName then Inl (BadFormat fmt)
         else if ver \<noteq> CurrentVersion then Inl (BadVersion ver)
         else bindE (normalize_vpns [] (sn_VPNs raw)) (\<lambda>vs.
              bindE (traverse (normalize_group (map vr_Name vs)) (sn_Groups raw)) (\<lambda>gs.
              bindE (traverse normalize_resolver (sn_Resolver raw)) (\<lambda>rs.
                Inr (raw\<lparr>sn_Format := fmt, sn_Version := ver, sn_VPNs := sort_key vr_Name vs,
                         sn_Groups := sort_key gr_Name gs, sn_Resolver := sort_records rs\<rparr>)))))"


section \<open>Export and import\<close>

record ('e, 'w) backup_deps =
  bk_AllAutostart :: "('e, (string \<times> bool) list, 'w) call"
  bk_SetAutostart :: "string \<Rightarrow> bool \<Rightarrow> ('e, unit, 'w) call"
  bk_GetSettings :: "('e, settings, 'w) call"
  bk_SaveSettings :: "settings \<Rightarrow> ('e, unit, 'w) call"
  bk_ListVPNs :: "('e, profile list, 'w) call"
  bk_CreateVPN :: "upsert_request \<Rightarrow> ('e, profile, 'w) call"
  bk_DeleteVPN :: "string \<Rightarrow> ('e, unit, 'w) call"
  bk_ListGroups :: "('e, domain_group list, 'w) call"
  bk_LoadResolver :: "('e, resolver_snapshot, 'w) call"
  bk_ReplaceState :: "domain_group list \<Rightarrow> resolver_snapshot \<Rightarrow> ('e, unit, 'w) call"
  bk_Stop :: "(string \<Rightarrow> ('e, 'w) proc) option"
  bk_ReadFile :: "string \<Rightarrow> string \<Rightarrow> ('e, string, 'w) call"
  bk_now :: "'w \<Rightarrow> int"

text \<open>\<^verbatim>\<open>base64.StdEncoding.EncodeToString\<close>.\<close>

definition b64_char :: "nat \<Rightarrow> char" where
  "b64_char n = (''ABCDEFGHIJKLMNOPQRSTUVWXYZabcdefghijklmnopqrstuvwxyz0123456789+/'' ! (n mod 64))"

fun EncodeToString :: "string \<Rightarrow> string" where
  "EncodeToString [] = []"
| "EncodeToString [a] = [b64_char (code a div 4), b64_char (code a * 16), CHR ''='', CHR ''='']"
| "EncodeToString [a, b] =
     [b64_char (code a div 4), b64_char (code a * 16 + code b div 16), b64_char (code b * 4), CHR ''='']"
| "EncodeToString (a # b # c # rest) =
     b64_char (code a div 4) # b64_char (code a * 16 + code b div 16) # b64_char (code b * 4 + code c div 64) # b64_char (code c) #
     EncodeToString rest"

definition profileToRecord :: "('e, 'w) backup_deps \<Rightarrow> bool \<Rightarrow> profile \<Rightarrow> ('e, vpn_record, 'w) call" where
  "profileToRecord d autostart p =
     call_then (call_each (\<lambda>f. call_then (bk_ReadFile d (p_Name p) f) (\<lambda>c. returns \<lparr>up_Name = f, up_ContentBase64 = EncodeToString c\<rparr>))
       (p_SupportingFiles p)) (\<lambda>uploads.
     returns \<lparr>vr_Name = p_Name p, vr_Type = p_Type p, vr_Config = p_RawConfig p, vr_ConfigFile = p_ConfigFile p,
       vr_InterfaceName = p_InterfaceName p, vr_BoundInterface = p_BoundInterface p,
       vr_SupportingFiles = sort_key up_Name uploads, vr_Autostart = autostart\<rparr>)"

definition autostart_of :: "(string \<times> bool) list \<Rightarrow> string \<Rightarrow> bool" where
  "autostart_of flags name = (map_of flags name = Some True)"

definition exportLocked :: "('e, 'w) backup_deps \<Rightarrow> ('e, snapshot, 'w) call" where
  "exportLocked d =
     call_then (bk_GetSettings d) (\<lambda>sets.
     call_then (bk_AllAutostart d) (\<lambda>flags.
     call_then (bk_ListVPNs d) (\<lambda>profiles.
     call_then (bk_ListGroups d) (\<lambda>groups.
     call_then (bk_LoadResolver d) (\<lambda>resolved.
     call_then (call_each (\<lambda>p. profileToRecord d (autostart_of flags (p_Name p)) p) profiles) (\<lambda>records w.
       (Inr \<lparr>sn_Format = FormatName, sn_Version = CurrentVersion, sn_ExportedAt = bk_now d w, sn_Settings = sets,
             sn_VPNs = sort_key vr_Name records, sn_Groups = sort_key gr_Name (map groupToRecord groups),
             sn_Resolver = sort_records (resolverSnapshotToRecords resolved)\<rparr>, w)))))))"

fun stop_all :: "('e, 'w) backup_deps \<Rightarrow> string list \<Rightarrow> 'w \<Rightarrow> (string \<times> 'e) list \<times> 'w" where
  "stop_all d [] w = ([], w)"
| "stop_all d (name # names) w =
     (case bk_Stop d of
        None \<Rightarrow> stop_all d names w
      | Some stop \<Rightarrow>
          (case stop (vpnServiceUnitName name) w of
             (r, w1) \<Rightarrow> (case stop_all d names w1 of (warns, w2) \<Rightarrow>
               ((case r of None \<Rightarrow> [] | Some err \<Rightarrow> [(vpnServiceUnitName name, err)]) @ warns, w2))))"

definition request_of :: "vpn_record \<Rightarrow> upsert_request" where
  "request_of v =
     \<lparr>rq_Name = vr_Name v, rq_Type = vr_Type v, rq_Config = vr_Config v, rq_ConfigFile = vr_ConfigFile v,
      rq_SupportingFiles = vr_SupportingFiles v, rq_InterfaceName = vr_InterfaceName v, rq_BoundInterface = vr_BoundInterface v,
      rq_MSSClampV4 = [], rq_MSSClampV6 = []\<rparr>"

text \<open>From the deletion of the old profiles to the end of a restore.\<close>

definition replace_all :: "('e, 'w) backup_deps \<Rightarrow> snapshot \<Rightarrow> profile list \<Rightarrow> ('e, unit, 'w) call" where
  "replace_all d t existing =
     call_then (call_each (\<lambda>p. bk_DeleteVPN d (p_Name p)) (sort_key p_Name existing)) (\<lambda>_.
     call_then (call_each (\<lambda>v. bk_CreateVPN d (request_of v)) (sn_VPNs t)) (\<lambda>_.
     call_then (call_each (\<lambda>v. bk_SetAutostart d (vr_Name v) (vr_Autostart v)) (sn_VPNs t)) (\<lambda>_.
     call_then (bk_ReplaceState d (map groupToRouting (sn_Groups t)) (resolverRecordsToSnapshot (sn_Resolver t))) (\<lambda>_.
       bk_SaveSettings d (sn_Settings t)))))"

type_synonym 'e import_result = "(string \<times> 'e) list \<times> 'e backup_error option"

definition outcome :: "(string \<times> 'e) list \<Rightarrow> ('e + 'a) \<times> 'w \<Rightarrow> 'e import_result \<times> 'w" where
  "outcome warns r = (case r of (Inl err, w) \<Rightarrow> ((warns, Some (StoreFailed err)), w) | (Inr _, w) \<Rightarrow> ((warns, None), w))"

definition restore_applyLocked :: "('e, 'w) backup_deps \<Rightarrow> snapshot \<Rightarrow> 'w \<Rightarrow> 'e import_result \<times> 'w" where
  "restore_applyLocked d s w =
     (case normalizeSnapshot s of
        Inl err \<Rightarrow> (([], Some (ErrInvalidSnapshot err)), w)
      | Inr t \<Rightarrow>
          (case call_then (bk_ReplaceState d [] []) (\<lambda>_. bk_ListVPNs d) w of
             (Inl err, w1) \<Rightarrow> (([], Some (StoreFailed err)), w1)
           | (Inr existing, w1) \<Rightarrow>
               (case stop_all d (map p_Name existing) w1 of (warns, w2) \<Rightarrow> outcome warns (replace_all d t existing w2))))"

definition Import :: "('e, 'w) backup_deps \<Rightarrow> snapshot \<Rightarrow> 'w \<Rightarrow> 'e import_result \<times> 'w" where
  "Import d s w =
     (case normalizeSnapshot s of
        Inl err \<Rightarrow> (([], Some (ErrInvalidSnapshot err)), w)
      | Inr t \<Rightarrow>
          (case exportLocked d w of
             (Inl err, w1) \<Rightarrow> (([], Some (StoreFailed err)), w1)
           | (Inr current, w1) \<Rightarrow>
               (case restore_applyLocked d t w1 of
                  ((warns, None), w2) \<Rightarrow> ((warns, None), w2)
                | ((warns, Some err), w2) \<Rightarrow>
                    (case restore_applyLocked d current w2 of
                       ((_, Some err2), w3) \<Rightarrow> ((warns, Some (RollbackFailed err err2)), w3)
                     | ((_, None), w3) \<Rightarrow> ((warns, Some (RolledBack err)), w3)))))"


section \<open>The managers behind the interfaces\<close>

text \<open>The world: the manager of profiles, the cache of the configuration manager, and the rest (routing, settings, systemd). What
  the operating system answers may change with the rest.\<close>

type_synonym 'r app = "vpn_manager \<times> (string \<times> vpn_config) list \<times> 'r"

datatype 'r app_error = OfVPN vpn_error | OfConfig config_error | OfRest 'r

record ('e, 'r) rest_deps =
  rd_vpn :: "'r \<Rightarrow> vpn_env"
  rd_config :: "'r \<Rightarrow> config_env"
  rd_base :: string
  rd_unreadable :: "'r \<Rightarrow> string \<Rightarrow> bool"
  rd_GetSettings :: "('e, settings, 'r) call"
  rd_SaveSettings :: "settings \<Rightarrow> ('e, unit, 'r) call"
  rd_ListGroups :: "('e, domain_group list, 'r) call"
  rd_LoadResolver :: "('e, resolver_snapshot, 'r) call"
  rd_ReplaceState :: "vpn_manager \<Rightarrow> domain_group list \<Rightarrow> resolver_snapshot \<Rightarrow> ('e, unit, 'r) call"
  rd_Stop :: "(string \<Rightarrow> ('e, 'r) proc) option"
  rd_now :: "'r \<Rightarrow> int"

definition on_config :: "('e, 'r) rest_deps \<Rightarrow> (config_env \<Rightarrow> (config_error, 'a, config_manager) call) \<Rightarrow> ('e app_error, 'a, 'r app) call" where
  "on_config d f w =
     (case w of (m, cache, r) \<Rightarrow>
       (case f (rd_config d r) \<lparr>cm_basePath = rd_base d, cm_configs = cache, cm_dirs = vm_dirs m\<rparr> of
          (res, c) \<Rightarrow> (map_sum OfConfig id res, m\<lparr>vm_dirs := cm_dirs c\<rparr>, cm_configs c, r)))"

definition on_vpn :: "('e, 'r) rest_deps \<Rightarrow> (vpn_env \<Rightarrow> (vpn_error, 'a, vpn_manager) call) \<Rightarrow> ('e app_error, 'a, 'r app) call" where
  "on_vpn d f w =
     (case w of (m, cache, r) \<Rightarrow> (case f (rd_vpn d r) m of (res, m') \<Rightarrow> (map_sum OfVPN id res, m', cache, r)))"

definition on_rest :: "('e, 'a, 'r) call \<Rightarrow> ('e app_error, 'a, 'r app) call" where
  "on_rest f w = (case w of (m, cache, r) \<Rightarrow> (case f r of (res, r') \<Rightarrow> (map_sum OfRest id res, m, cache, r')))"

definition stop_on_rest :: "('e, 'r) proc \<Rightarrow> ('e app_error, 'r app) proc" where
  "stop_on_rest p w = (case w of (m, cache, r) \<Rightarrow> (case p r of (res, r') \<Rightarrow> (map_option OfRest res, m, cache, r')))"

definition read_supporting :: "('e, 'r) rest_deps \<Rightarrow> string \<Rightarrow> string \<Rightarrow> ('e app_error, string, 'r app) call" where
  "read_supporting d name f w =
     (case w of (m, cache, r) \<Rightarrow>
       (case file_of m name f of
          Some c \<Rightarrow> if rd_unreadable d r f then Inl (OfConfig ConfigIO) else Inr c
        | None \<Rightarrow> Inl (OfConfig ConfigIO), w))"

definition backup_real :: "('e, 'r) rest_deps \<Rightarrow> ('e app_error, 'r app) backup_deps" where
  "backup_real d =
     \<lparr>bk_AllAutostart = on_config d AllAutostart,
      bk_SetAutostart = (\<lambda>name b. on_config d (\<lambda>e. SetAutostart e name b)),
      bk_GetSettings = on_rest (rd_GetSettings d),
      bk_SaveSettings = (\<lambda>s. on_rest (rd_SaveSettings d s)),
      bk_ListVPNs = on_vpn d (\<lambda>e m. (vpn_List e m, m)),
      bk_CreateVPN = (\<lambda>req. on_vpn d (\<lambda>e. vpn_Create e req)),
      bk_DeleteVPN = (\<lambda>name. on_vpn d (\<lambda>e. lift_proc (vpn_Delete e name))),
      bk_ListGroups = on_rest (rd_ListGroups d),
      bk_LoadResolver = on_rest (rd_LoadResolver d),
      bk_ReplaceState = (\<lambda>gs snap w. on_rest (rd_ReplaceState d (fst w) gs snap) w),
      bk_Stop = map_option (\<lambda>stop name. stop_on_rest (stop name)) (rd_Stop d),
      bk_ReadFile = read_supporting d,
      bk_now = (\<lambda>w. rd_now d (snd (snd w)))\<rparr>"

section \<open>The marker file is no supporting file\<close>

lemma marker_rejected: "sanitizeSupportingFileName autostartMarkerName = Inl (FileNameInvalid autostartMarkerName)"
  by code_simp

lemma marker_upload_rejected:
  "u \<in> set items \<Longrightarrow> up_Name u = autostartMarkerName \<Longrightarrow> \<exists>err. parse_uploads acc items = Inl err"
  using marker_rejected by (induction acc items rule: parse_uploads.induct) (auto split: sum.splits)

lemma Create_uploads: "vpn_Create e req m = (Inr p, m') \<Longrightarrow> \<exists>us. parseSupportingUploads (rq_SupportingFiles req) = Inr us"
  by (auto simp: vpn_Create_def check_uploads_def Let_def split: sum.splits if_splits prod.splits)
    (auto simp: bindE_def split: sum.splits)

lemma call_each_all:
  "call_each f xs w = (Inr ys, w') \<Longrightarrow> x \<in> set xs \<Longrightarrow> \<exists>v y v'. f x v = (Inr y, v') \<and> y \<in> set ys"
  by (induction xs arbitrary: w ys) (auto simp: proc_simps, blast+)

lemma call_each_still:
  assumes "\<And>x v y v'. f x v = (Inr y, v') \<Longrightarrow> v' = v"
  shows "call_each f xs w = (Inr ys, w') \<Longrightarrow> w' = w \<and> list_all2 (\<lambda>x y. f x w = (Inr y, w)) xs ys"
  using assms by (induction xs arbitrary: w ys) (fastforce simp: proc_simps)+

lemma normalize_vpns_files:
  "normalize_vpns seen vs = Inr ws \<Longrightarrow> v \<in> set vs \<Longrightarrow> \<exists>x \<in> set ws. set (vr_SupportingFiles x) = set (vr_SupportingFiles v)"
  by (induction vs arbitrary: seen ws) (auto simp: Let_def bindE_Inr trim_vpn_def split: option.splits if_splits)

text \<open>A snapshot with the marker among the supporting files of a profile cannot be restored.\<close>

lemma marker_not_restored:
  assumes "v \<in> set (sn_VPNs s)" "u \<in> set (vr_SupportingFiles v)" "up_Name u = autostartMarkerName"
  shows "snd (fst (restore_applyLocked (backup_real d) s w)) \<noteq> None"
proof
  assume ok: "snd (fst (restore_applyLocked (backup_real d) s w)) = None"
  then obtain t existing w2 w3 where t: "normalizeSnapshot s = Inr t" "replace_all (backup_real d) t existing w2 = (Inr (), w3)"
    by (auto simp: restore_applyLocked_def outcome_def split: sum.splits prod.splits)
  then obtain vs where vs: "normalize_vpns [] (sn_VPNs s) = Inr vs" "set (sn_VPNs t) = set vs"
    by (auto simp: normalizeSnapshot_def Let_def bindE_Inr split: if_splits)
  obtain x where x: "x \<in> set (sn_VPNs t)" "u \<in> set (vr_SupportingFiles x)"
    using normalize_vpns_files [OF vs(1) assms(1)] assms(2) vs(2) by auto
  obtain w4 p w5 where "bk_CreateVPN (backup_real d) (request_of x) w4 = (Inr p, w5)"
  proof -
    obtain w6 ps w7 where "call_each (\<lambda>v. bk_CreateVPN (backup_real d) (request_of v)) (sn_VPNs t) w6 = (Inr ps, w7)"
      using t(2) unfolding replace_all_def proc_simps by blast
    from call_each_all [OF this x(1)] show thesis using that by blast
  qed
  then obtain e m m' q where "vpn_Create e (request_of x) m = (Inr q, m')"
    by (auto simp: backup_real_def on_vpn_def map_sum_def split: prod.splits sum.splits)
  from Create_uploads [OF this] obtain us where "parse_uploads [] (vr_SupportingFiles x) = Inr us"
    by (auto simp: parseSupportingUploads_def request_of_def)
  then show False using marker_upload_rejected [OF x(2) assms(3), of "[]"] by simp
qed

lemma Discover_dirs: "cm_dirs (snd (Discover e c)) = cm_dirs c"
  by (auto simp: Discover_def split: sum.splits)

lemma config_Get_dirs: "cm_dirs (snd (config_Get e n c)) = cm_dirs c"
  using Discover_dirs [of e c] by (auto simp: config_Get_def call_then_def split: option.splits sum.splits prod.splits)

lemma config_List_dirs: "cm_dirs (snd (config_List e c)) = cm_dirs c"
  using Discover_dirs [of e c] by (auto simp: config_List_def)

lemma AutostartEnabled_dirs: "cm_dirs (snd (AutostartEnabled e n c)) = cm_dirs c"
  using config_Get_dirs [of e n c] by (auto simp: AutostartEnabled_def call_then_def split: sum.splits prod.splits)

lemma call_each_keeps:
  assumes "\<And>x w. g (snd (f x w)) = g w"
  shows "g (snd (call_each f xs w)) = g w"
proof (induction xs arbitrary: w)
  case (Cons x xs)
  show ?case using assms [of x w] Cons.IH by (auto simp: call_then_def returns_def split: prod.splits sum.splits) (metis snd_conv)+
qed (simp add: returns_def)

lemma AllAutostart_dirs: "cm_dirs (snd (AllAutostart e c)) = cm_dirs c"
proof -
  have "cm_dirs (snd (call_then (AutostartEnabled e n) (\<lambda>b. returns (n, b)) w)) = cm_dirs w" for n w
    using AutostartEnabled_dirs [of e n w] by (auto simp: call_then_def returns_def split: prod.splits sum.splits)
  then have "cm_dirs (snd (call_each (\<lambda>cfg. call_then (AutostartEnabled e (cf_Name cfg)) (\<lambda>b. returns (cf_Name cfg, b))) xs w)) = cm_dirs w" for xs :: "vpn_config list" and w
    by (rule call_each_keeps)
  then show ?thesis
    using config_List_dirs [of e c] by (auto simp: AllAutostart_def call_then_def [of "config_List e"] split: prod.splits sum.splits)
qed

text \<open>What an export records of a profile.\<close>

lemma backup_real_sel [simp]:
  "bk_AllAutostart (backup_real d) = on_config d AllAutostart"
  "bk_SetAutostart (backup_real d) name b = on_config d (\<lambda>e. SetAutostart e name b)"
  "bk_GetSettings (backup_real d) = on_rest (rd_GetSettings d)"
  "bk_SaveSettings (backup_real d) sets = on_rest (rd_SaveSettings d sets)"
  "bk_ListVPNs (backup_real d) = on_vpn d (\<lambda>e m. (vpn_List e m, m))"
  "bk_CreateVPN (backup_real d) req = on_vpn d (\<lambda>e. vpn_Create e req)"
  "bk_DeleteVPN (backup_real d) name = on_vpn d (\<lambda>e. lift_proc (vpn_Delete e name))"
  "bk_ListGroups (backup_real d) = on_rest (rd_ListGroups d)"
  "bk_LoadResolver (backup_real d) = on_rest (rd_LoadResolver d)"
  "bk_ReplaceState (backup_real d) gs snap w = on_rest (rd_ReplaceState d (fst w) gs snap) w"
  "bk_ReadFile (backup_real d) = read_supporting d"
  by (simp_all add: backup_real_def)

lemma on_rest_state: "on_rest f (m, c, r) = (res, w) \<Longrightarrow> \<exists>r'. w = (m, c, r')"
  by (auto simp: on_rest_def split: prod.splits)

lemma read_supporting_still: "read_supporting d n f w = (res, w') \<Longrightarrow> w' = w"
  by (auto simp: read_supporting_def split: prod.splits)

lemma profileToRecord_real:
  assumes "profileToRecord (backup_real d) b p w = (Inr v, w')"
  shows "w' = w \<and> vr_Name v = p_Name p \<and> set (map up_Name (vr_SupportingFiles v)) = set (p_SupportingFiles p)"
proof -
  let ?f = "\<lambda>f. call_then (bk_ReadFile (backup_real d) (p_Name p) f) (\<lambda>c. returns \<lparr>up_Name = f, up_ContentBase64 = EncodeToString c\<rparr>)"
  have f: "v' = v1 \<and> up_Name y = x" if "?f x v1 = (Inr y, v')" for x v1 y v'
    using that by (auto simp: proc_simps backup_real_def dest: read_supporting_still)
  obtain us w1 where us: "call_each ?f (p_SupportingFiles p) w = (Inr us, w1)" "w1 = w'" "vr_Name v = p_Name p" "vr_SupportingFiles v = sort_key up_Name us"
    using assms by (auto simp: profileToRecord_def proc_simps)
  have "w1 = w \<and> list_all2 (\<lambda>x y. ?f x w = (Inr y, w)) (p_SupportingFiles p) us"
    by (rule call_each_still [OF _ us(1)]) (use f in blast)
  moreover from this have "list_all2 (\<lambda>x y. up_Name y = x) (p_SupportingFiles p) us"
    by (elim conjE list_all2_mono) (simp only: f)
  then have "map up_Name us = p_SupportingFiles p" by (induction rule: list_all2_induct) auto
  ultimately show ?thesis using us by (metis set_map set_sort)
qed

lemma on_config_AllAutostart: "on_config d AllAutostart (m, c, r) = (res, w) \<Longrightarrow> \<exists>c'. w = (m, c', r)"
  using AllAutostart_dirs [of "rd_config d r" "\<lparr>cm_basePath = rd_base d, cm_configs = c, cm_dirs = vm_dirs m\<rparr>"]
  by (auto simp: on_config_def split: prod.splits)

lemma export_record:
  assumes "exportLocked (backup_real d) (m, c, r) = (Inr s, w1)"
  obtains e ps where "vpn_List e m = Inr ps"
    "\<And>p. p \<in> set ps \<Longrightarrow> \<exists>v \<in> set (sn_VPNs s). vr_Name v = p_Name p \<and> set (map up_Name (vr_SupportingFiles v)) = set (p_SupportingFiles p)"
proof -
  obtain sets w2 flags w3 ps w4 gs w5 snap w6 records w7 where x:
    "on_rest (rd_GetSettings d) (m, c, r) = (Inr sets, w2)" "on_config d AllAutostart w2 = (Inr flags, w3)"
    "on_vpn d (\<lambda>e m. (vpn_List e m, m)) w3 = (Inr ps, w4)"
    "call_each (\<lambda>p. profileToRecord (backup_real d) (autostart_of flags (p_Name p)) p) ps w6 = (Inr records, w7)"
    "sn_VPNs s = sort_key vr_Name records"
    using assms unfolding exportLocked_def proc_simps backup_real_sel
    by (elim exE conjE Pair_inject) (rule that, assumption+, drule Inr_inject, hypsubst, simp)
  obtain c' r' where w3: "w3 = (m, c', r')"
  proof -
    obtain r' where r': "w2 = (m, c, r')" using on_rest_state [OF x(1)] by (elim exE)
    obtain c' where "w3 = (m, c', r')" using on_config_AllAutostart [OF x(2) [unfolded r']] by (elim exE)
    then show thesis by (rule that)
  qed
  have "vpn_List (rd_vpn d r') m = Inr ps"
    using x(3) by (auto simp: w3 on_vpn_def map_sum_def split: sum.splits)
  moreover have "\<exists>v \<in> set (sn_VPNs s). vr_Name v = p_Name p \<and> set (map up_Name (vr_SupportingFiles v)) = set (p_SupportingFiles p)"
    if "p \<in> set ps" for p
    using call_each_all [OF x(4) that] x(5) profileToRecord_real by (metis set_sort)
  ultimately show thesis using that by blast
qed

text \<open>A directory with an empty marker file is a profile whose exported record holds the marker.\<close>

lemma empty_config_rejected:
  "providers junk ty = Some prov \<Longrightarrow> \<exists>err. ParseConfig prov [] = Inl err"
  by (auto simp: providers_def wireguard_ParseConfig_def amneziawg_ParseConfig_def openvpn_ParseConfig_def parseWireGuardConfig_def
      parseOpenVPNConfig_def scan_big_lines_def content_lines_def Split_def finish_config_def wg_start_def new_interface_def
      finish_ovpn_def ovpn_start_def Let_def split: if_splits)

lemma readProfile_marker:
  assumes "readProfileLocked e m n = Inr p" "file_of m n autostartMarkerName = Some []"
  shows "p_Name p = n" and "autostartMarkerName \<in> set (p_SupportingFiles p)"
proof -
  obtain vals prov f raw q files where x: "providers (ve_junk_ok e) (conf_type vals) = Some prov"
    "read_config e m n f = Inr raw" "ParseConfig prov raw = Inr q" "listSupportingFiles e m n f = Inr files"
    "p = apply_meta n (conf_type vals) vals (q\<lparr>p_Name := n, p_Type := conf_type vals, p_ConfigFile := f, p_RawConfig := raw, p_SupportingFiles := files\<rparr>)"
  proof -
    obtain vals where vals: "read_conf e m n = Inr vals"
      using assms(1) by (auto simp: readProfileLocked_def split: sum.splits conf_error.splits)
    then obtain prov where prov: "providers (ve_junk_ok e) (conf_type vals) = Some prov"
      using assms(1) by (auto simp: readProfileLocked_def Let_def split: option.splits)
    show thesis
      using assms(1) vals prov that [of vals prov] unfolding readProfileLocked_def Let_def by (force simp: bindE_Inr case_Inr_iff)
  qed
  have "f \<noteq> autostartMarkerName"
  proof
    assume "f = autostartMarkerName"
    then have "raw = []" using x(2) assms(2) by (auto simp: read_config_def split: if_splits)
    then show False using empty_config_rejected [OF x(1)] x(3) by auto
  qed
  moreover obtain fs where "dir_of m n = Some fs" "map_of fs autostartMarkerName = Some []"
    using assms(2) by (auto simp: file_of_def split: option.splits)
  ultimately have "autostartMarkerName \<in> set files"
    using x(4) by (auto simp: listSupportingFiles_def entries_sorted_def autostartMarkerName_def dest: map_of_SomeD split: if_splits) (force dest: map_of_SomeD)+
  then show "p_Name p = n" "autostartMarkerName \<in> set (p_SupportingFiles p)"
    using x(5) by (simp_all add: apply_meta_def Let_def)
qed

lemma exported_marker:
  assumes "file_of m n autostartMarkerName = Some []" "exportLocked (backup_real d) (m, c, r) = (Inr s, w1)"
  obtains v u where "v \<in> set (sn_VPNs s)" "u \<in> set (vr_SupportingFiles v)" "up_Name u = autostartMarkerName"
proof -
  obtain e ps where l: "vpn_List e m = Inr ps"
    "\<And>p. p \<in> set ps \<Longrightarrow> \<exists>v \<in> set (sn_VPNs s). vr_Name v = p_Name p \<and> set (map up_Name (vr_SupportingFiles v)) = set (p_SupportingFiles p)"
    using export_record [OF assms(2)] by blast
  have "n \<in> set (entries_sorted (vm_dirs m))"
    using assms(1) by (force simp: file_of_def dir_of_def entries_sorted_def split: option.splits dest: map_of_SomeD)
  then obtain p where "p \<in> set ps" "readProfileLocked e m n = Inr p"
  proof -
    obtain qs where qs: "list_all2 (\<lambda>x y. readProfileLocked e m x = Inr y) (entries_sorted (vm_dirs m)) qs" "set ps = set qs"
      using l(1) by (auto simp: vpn_List_def bindE_Inr traverse_Inr split: if_splits)
    obtain i where i: "i < length (entries_sorted (vm_dirs m))" "entries_sorted (vm_dirs m) ! i = n"
      using \<open>n \<in> _\<close> by (auto simp: in_set_conv_nth)
    have "readProfileLocked e m n = Inr (qs ! i)" "qs ! i \<in> set ps"
      using list_all2_nthD [OF qs(1) i(1)] list_all2_lengthD [OF qs(1)] i qs(2) by simp_all
    then show thesis using that by blast
  qed
  then show thesis using l(2) [of p] readProfile_marker [OF _ assms(1)] that by (metis in_set_conv_nth length_map nth_map)
qed

section \<open>Properties\<close>

text \<open>C40: a backup with an autostarted profile cannot be restored. SetAutostart leaves an empty marker file in the directory of the profile, the manager
  of profiles lists it as a supporting file, and its name and its empty content are refused when the profile is created
  again. So on every machine and in every state the restore of such a snapshot fails; and an import that
  fails for any reason while a profile is autostarted is never rolled back.\<close>

theorem autostart_backup_unrestorable:
  assumes "file_of m n autostartMarkerName = Some []" and "exportLocked (backup_real d) (m, c, r) = (Inr s, w1)"
  shows "snd (fst (restore_applyLocked (backup_real d') s w)) \<noteq> None \<and>
    (\<forall>t err. snd (fst (Import (backup_real d) t (m, c, r))) \<noteq> Some (RolledBack err))"
proof
  obtain v u where vu: "v \<in> set (sn_VPNs s)" "u \<in> set (vr_SupportingFiles v)" "up_Name u = autostartMarkerName"
    using exported_marker [OF assms] by blast
  show "snd (fst (restore_applyLocked (backup_real d') s w)) \<noteq> None" by (rule marker_not_restored [OF vu])
  have "\<exists>x err w3. restore_applyLocked (backup_real d) s w2 = ((x, Some err), w3)" for w2
    using marker_not_restored [OF vu, of d w2] by (metis not_None_eq prod.collapse)
  then show "\<forall>t err. snd (fst (Import (backup_real d) t (m, c, r))) \<noteq> Some (RolledBack err)"
    using assms(2) by (auto simp: Import_def split: sum.splits prod.splits option.splits) (metis Pair_inject option.distinct(1))+
qed

definition quiet_config :: config_env where
  "quiet_config = \<lparr>ce_abs = Some, ce_eval = (\<lambda>p. FileData p), ce_fails = (\<lambda>_. False), ce_partial = (\<lambda>_. [])\<rparr>"

definition quiet_rest :: "(unit, unit) rest_deps" where
  "quiet_rest = \<lparr>rd_vpn = (\<lambda>_. quiet_env), rd_config = (\<lambda>_. quiet_config), rd_base = ''/d/vpns'', rd_unreadable = (\<lambda>_ _. False),
     rd_GetSettings = returns empty_settings, rd_SaveSettings = (\<lambda>_. returns ()), rd_ListGroups = returns [], rd_LoadResolver = returns [],
     rd_ReplaceState = (\<lambda>_ _ _. returns ()), rd_Stop = None, rd_now = (\<lambda>_. 0)\<rparr>"

definition marked_app :: "unit app" where
  "marked_app = snd (bk_SetAutostart (backup_real quiet_rest) ''a'' True (manager_a, [], ()))"

definition marked_exports :: "unit app \<Rightarrow> bool" where
  "marked_exports w = (file_of (fst w) ''a'' autostartMarkerName = Some [] \<and>
     (case exportLocked (backup_real quiet_rest) w of (Inr s, _) \<Rightarrow> map vr_Autostart (sn_VPNs s) = [True] | _ \<Rightarrow> False))"

lemma marked_app_exports: "marked_exports marked_app"
  by code_simp

theorem autostart_backup_unrestorable_witness:
  "\<exists>m c s w1. marked_app = (m, c, ()) \<and> exportLocked (backup_real quiet_rest) marked_app = (Inr s, w1) \<and>
     snd (fst (restore_applyLocked (backup_real quiet_rest) s (empty_manager, [], ()))) \<noteq> None"
proof -
  obtain m c where w: "marked_app = (m, c, ())" by (metis prod_cases3 old.unit.exhaust)
  obtain res w1 where x: "exportLocked (backup_real quiet_rest) marked_app = (res, w1)" by (rule prod.exhaust)
  have "file_of (fst marked_app) ''a'' autostartMarkerName = Some [] \<and> (\<exists>s. res = Inr s)"
    using marked_app_exports unfolding marked_exports_def x by (cases res) simp_all
  then obtain s where s0: "res = Inr s" "file_of (fst marked_app) ''a'' autostartMarkerName = Some []" by blast
  have s: "exportLocked (backup_real quiet_rest) (m, c, ()) = (Inr s, w1)" "file_of m ''a'' autostartMarkerName = Some []"
    using x s0 by (simp_all only: w fst_conv)
  have "snd (fst (restore_applyLocked (backup_real quiet_rest) s (empty_manager, [], ()))) \<noteq> None"
    by (rule conjunct1 [OF autostart_backup_unrestorable [OF s(2,1)]])
  then show ?thesis unfolding w by (intro exI [of _ m] exI [of _ c] exI [of _ s] exI [of _ w1] conjI refl s(1))
qed

end
