(* ===== verification/Backup_Restore.thy ===== *)
theory Backup_Restore
  imports Backup
begin

text \<open>
  What a restore leaves behind: the deletions, creations and autostart markers of \<open>replace_all\<close> on the tree that the manager of
  profiles and the configuration manager share. Also what the record of a rule forgets.
\<close>


section \<open>What a record keeps of a rule\<close>

lemma ports_kept: "map (port_to_routing \<circ> port_to_record) ps = ps"
  by (induction ps) (simp_all add: port_to_routing_def port_to_record_def)

text \<open>A rule comes back from its record without its exclusions, its multicast flag and its selector lines.\<close>

lemma rule_roundtrip:
  "rule_to_routing (rule_to_record r) =
     r\<lparr>rule_ID := 0, ExcludedSourceCIDRs := [], ExcludedDestinationCIDRs := [], ExcludedDestinationPorts := [],
       ExcludedDestinationASNs := [], ExcludeMulticast := None, RawSelectors := None\<rparr>"
  by (cases r) (simp add: rule_to_routing_def rule_to_record_def empty_rule_def ports_kept)

lemma group_roundtrip:
  "groupToRouting (groupToRecord g) =
     g\<lparr>group_ID := 0, Rules := map (\<lambda>r. rule_to_routing (rule_to_record r)) (Rules g), group_Domains := [], CreatedAt := 0, UpdatedAt := 0\<rparr>"
  by (cases g) (simp add: groupToRouting_def groupToRecord_def)


section \<open>What a restore installs\<close>

lemma or_undo_None: "or_undo e n p act m = (None, m') \<longleftrightarrow> act m = (None, m')"
  by (auto simp: or_undo_def on_err_def and_then_def fail_with_def ignore_err_def io_def split: option.splits prod.splits)

lemma or_release_None: "or_release p act m = (None, m') \<longleftrightarrow> act m = (None, m')"
  by (auto simp: or_release_def on_err_def split: option.splits prod.splits)

lemma and_then_None_iff: "and_then p q m = (None, m') \<longleftrightarrow> (\<exists>m1. p m = (None, m1) \<and> q m1 = (None, m'))"
  by (auto simp: and_then_def split: option.splits prod.splits)

lemma create_files_near:
  assumes "create_files e n p us m = (None, m')"
  shows "near n m m'"
proof -
  obtain m1 m2 m3 m4 m5 where x: "io e MakeDir (make_dir n) m = (None, m1)" "io e ChmodDir (\<lambda>m. m) m1 = (None, m2)"
    "writeSupportingUploads e n us m2 = (None, m3)" "writeFileAtomic e n (pr_configFileName p) (pr_rawConfig p) m3 = (None, m4)"
    "writeFileAtomic e n ''vpn.conf'' (renderVPNConf (pr_meta p)) m4 = (None, m5)" "write_unit e p m5 = (None, m')"
    using assms unfolding create_files_def and_then_None_iff or_undo_None or_release_None by (elim exE conjE)
  have "near n m m1" "near n m1 m2" "near n m2 m3" "near n m3 m4" "near n m4 m5" "near n m5 m'"
    using x near_acts [of n] unfolding acts_near_def by (metis snd_conv)+
  then show ?thesis by (meson near_trans)
qed

lemma Create_installs:
  assumes "vpn_Create e req m = (Inr p, m')"
  obtains n where "validateCreateName (rq_Name req) = Inr n" "dom (conf_at m') = insert n (dom (conf_at m))"
proof -
  obtain n q a us where x: "validateCreateName (rq_Name req) = Inr n" "prepareProfileLocked e m n req None = (Inr q, a)"
    "finish_with e n q (create_files e n q us (m\<lparr>vm_alloc := a\<rparr>)) = (Inr p, m')"
    using assms by (auto simp: vpn_Create_def Let_def split: sum.splits if_splits prod.splits)
  then obtain p0 where y: "create_files e n q us (m\<lparr>vm_alloc := a\<rparr>) = (None, m')" "readProfileLocked e m' n = Inr p0"
    by (auto simp: finish_with_def with_warnings_def split: prod.splits option.splits sum.splits)
  have "(conf_at m')(n := None) = (conf_at m)(n := None)" using create_files_near [OF y(1)] by (simp add: near_def)
  moreover have "n \<in> dom (conf_at m')" using readProfile_shape [OF y(2)] by auto
  ultimately have "dom (conf_at m') = insert n (dom (conf_at m))"
    by (metis dom_fun_upd insert_Diff insert_Diff_single)
  then show thesis using x(1) that by blast
qed

lemma Delete_removes:
  assumes "vpn_Delete e n m = (None, m')"
  obtains k where "validateExistingName n = Inr k" "k \<in> dom (conf_at m)" "conf_at m' = (conf_at m)(k := None)"
proof -
  obtain k p where x: "validateExistingName n = Inr k" "readProfileLocked e m k = Inr p"
    using assms by (auto simp: vpn_Delete_def split: sum.splits)
  then have "conf_at m' = (conf_at m)(k := None)"
    using assms by (auto simp: vpn_Delete_def and_then_def when_ok_def io_def skip_ok_def conf_at_remove_dir split: if_splits prod.splits option.splits)
  moreover have "k \<in> dom (conf_at m)" using readProfile_shape [OF x(2)] by auto
  ultimately show thesis using x(1) that by blast
qed

lemma on_vpn_ok: "on_vpn d f (m, c, r) = (Inr x, w) \<longleftrightarrow> (\<exists>m'. f (rd_vpn d r) m = (Inr x, m') \<and> w = (m', c, r))"
  by (auto simp: on_vpn_def map_sum_def split: prod.splits sum.splits)

lemma on_rest_ok: "on_rest f (m, c, r) = (Inr x, w) \<longleftrightarrow> (\<exists>r'. f r = (Inr x, r') \<and> w = (m, c, r'))"
  by (auto simp: on_rest_def map_sum_def split: prod.splits sum.splits)

lemma on_config_ok:
  "on_config d f (m, c, r) = (Inr x, w) \<longleftrightarrow>
     (\<exists>k. f (rd_config d r) \<lparr>cm_basePath = rd_base d, cm_configs = c, cm_dirs = vm_dirs m\<rparr> = (Inr x, k) \<and> w = (m\<lparr>vm_dirs := cm_dirs k\<rparr>, cm_configs k, r))"
  by (auto simp: on_config_def map_sum_def split: prod.splits sum.splits)

lemmas on_ok = on_vpn_ok on_rest_ok on_config_ok

text \<open>Deleting profiles one after the other: every call removes another one.\<close>

lemma deletes_remove:
  assumes "call_each (\<lambda>p. bk_DeleteVPN (backup_real d) (p_Name p)) ps (m, c, r) = (Inr us, w)"
  obtains m' where "w = (m', c, r)" "distinct (map (\<lambda>p. TrimSpace (p_Name p)) ps)" "(\<lambda>p. TrimSpace (p_Name p)) ` set ps \<subseteq> dom (conf_at m)"
    "dom (conf_at m') = dom (conf_at m) - (\<lambda>p. TrimSpace (p_Name p)) ` set ps"
  using assms
proof (induction ps arbitrary: m us thesis)
  case (Cons p ps)
  obtain m1 ys where x: "vpn_Delete (rd_vpn d r) (p_Name p) m = (None, m1)"
    "call_each (\<lambda>p. bk_DeleteVPN (backup_real d) (p_Name p)) ps (m1, c, r) = (Inr ys, w)"
    using Cons.prems(2) by (auto simp: proc_simps on_ok)
  obtain m' where y: "w = (m', c, r)" "distinct (map (\<lambda>p. TrimSpace (p_Name p)) ps)" "(\<lambda>p. TrimSpace (p_Name p)) ` set ps \<subseteq> dom (conf_at m1)"
    "dom (conf_at m') = dom (conf_at m1) - (\<lambda>p. TrimSpace (p_Name p)) ` set ps"
    using Cons.IH [OF _ x(2)] by blast
  obtain k where k: "validateExistingName (p_Name p) = Inr k" "k \<in> dom (conf_at m)" "conf_at m1 = (conf_at m)(k := None)"
    using Delete_removes [OF x(1)] by blast
  have "k = TrimSpace (p_Name p)" using k(1) by (auto simp: validateExistingName_def Let_def split: option.splits)
  then show ?case using y k by (intro Cons.prems(1) [of m']) auto
qed (auto simp: returns_def)

lemma List_names:
  assumes "vpn_List e m = Inr ps"
  shows "distinct (map p_Name ps)" "p_Name ` set ps = dom (conf_at m)"
proof -
  obtain qs where qs: "list_all2 (\<lambda>n p. readProfileLocked e m n = Inr p) (entries_sorted (vm_dirs m)) qs" "ps = sort_key p_Name qs"
    using assms by (auto simp: vpn_List_def bindE_Inr traverse_Inr split: if_splits)
  have shape: "p_Name p = n \<and> n \<in> dom (conf_at m)" if "readProfileLocked e m n = Inr p" for n p
    using readProfile_shape [OF that] by (auto simp: apply_meta_def Let_def)
  have "map p_Name qs = entries_sorted (vm_dirs m) \<and> set (entries_sorted (vm_dirs m)) \<subseteq> dom (conf_at m)"
    using qs(1) by (induction rule: list_all2_induct) (auto dest: shape)
  moreover have "dom (conf_at m) \<subseteq> set (entries_sorted (vm_dirs m))" using conf_at_entry by blast
  moreover have "distinct (entries_sorted (vm_dirs m))" by (simp add: entries_sorted_def sort_strings_def)
  ultimately have "distinct (map p_Name qs)" "set (map p_Name qs) = dom (conf_at m)" by simp_all
  then show "p_Name ` set ps = dom (conf_at m)" "distinct (map p_Name ps)"
    unfolding qs(2) by (auto simp: distinct_map)
qed

lemma deletes_all:
  assumes "vpn_List e m = Inr ps" "call_each (\<lambda>p. bk_DeleteVPN (backup_real d) (p_Name p)) (sort_key p_Name ps) (m, c, r) = (Inr us, w)"
  obtains m' where "w = (m', c, r)" "conf_at m' = (\<lambda>_. None)"
proof -
  let ?t = "\<lambda>p. TrimSpace (p_Name p)"
  obtain m' where x: "w = (m', c, r)" "distinct (map ?t (sort_key p_Name ps))" "?t ` set ps \<subseteq> dom (conf_at m)"
    "dom (conf_at m') = dom (conf_at m) - ?t ` set ps"
    using deletes_remove [OF assms(2)] by auto
  have "card (p_Name ` set ps) = length ps" "card (?t ` set ps) = length ps"
    using distinct_card [OF List_names(1) [OF assms(1)]] distinct_card [OF x(2)] by simp_all
  then have "?t ` set ps = dom (conf_at m)"
    using x(3) List_names(2) [OF assms(1)] by (metis card_subset_eq finite_imageI List.finite_set)
  then show thesis using x(1,4) that by (metis Diff_cancel dom_eq_empty_conv)
qed

lemma creates_install:
  assumes "call_each (\<lambda>v. bk_CreateVPN (backup_real d) (request_of v)) vs (m, c, r) = (Inr ps, w)"
  obtains m' where "w = (m', c, r)" "dom (conf_at m') = dom (conf_at m) \<union> (\<lambda>v. TrimSpace (vr_Name v)) ` set vs"
  using assms
proof (induction vs arbitrary: m ps thesis)
  case (Cons v vs)
  obtain m1 ys p where x: "vpn_Create (rd_vpn d r) (request_of v) m = (Inr p, m1)"
    "call_each (\<lambda>v. bk_CreateVPN (backup_real d) (request_of v)) vs (m1, c, r) = (Inr ys, w)"
    using Cons.prems(2) by (auto simp: proc_simps on_ok)
  obtain n where n: "validateCreateName (rq_Name (request_of v)) = Inr n" "dom (conf_at m1) = insert n (dom (conf_at m))"
    using Create_installs [OF x(1)] by blast
  have "n = TrimSpace (vr_Name v)" using n(1) by (auto simp: validateCreateName_def request_of_def Let_def split: option.splits)
  then show ?case using Cons.IH [OF _ x(2)] n(2) Cons.prems(1) by fastforce
qed (auto simp: returns_def)

definition cache_ok :: "(string \<times> vpn_config) list \<Rightarrow> bool" where
  "cache_ok c \<longleftrightarrow> (\<forall>n x. map_of c n = Some x \<longrightarrow> cf_Name x = n)"

lemma cache_ok_named: "cache_ok (map (\<lambda>c. (cf_Name c, c)) cs)"
  by (auto simp: cache_ok_def dest!: map_of_SomeD)

lemma Discover_cache: "cache_ok (cm_configs k) \<Longrightarrow> cache_ok (cm_configs (snd (Discover e k)))"
  by (auto simp: Discover_def cache_ok_named split: sum.splits)

lemma Get_name:
  assumes "cache_ok (cm_configs k)" "config_Get e n k = (Inr cfg, k')"
  shows "cf_Name cfg = n \<and> cache_ok (cm_configs k') \<and> cm_dirs k' = cm_dirs k"
proof (cases "map_of (cm_configs k) n")
  case (Some x)
  then show ?thesis using assms by (auto simp: config_Get_def cache_ok_def)
next
  case None
  then obtain cs where "Discover e k = (Inr cs, k')" "map_of (cm_configs k') n = Some cfg"
    using assms(2) by (auto simp: config_Get_def proc_simps split: option.splits)
  then show ?thesis using Discover_cache [OF assms(1), of e] Discover_dirs [of e k] by (auto simp: cache_ok_def)
qed

lemma file_in_on_dir:
  "file_in (on_dir n f k) x g =
     (if x = n then (case map_of (cm_dirs k) n of None \<Rightarrow> None | Some fs \<Rightarrow> map_of (f fs) g) else file_in k x g)"
  by (auto simp: file_in_def on_dir_def update_conv' split: option.splits)

lemma SetAutostart_effect:
  assumes "cache_ok (cm_configs k)" "SetAutostart e n b k = (Inr (), k')"
  shows "cache_ok (cm_configs k') \<and> (\<forall>x g. x \<noteq> n \<or> g \<noteq> autostartMarkerName \<longrightarrow> file_in k' x g = file_in k x g) \<and>
    (file_in k' n autostartMarkerName \<noteq> None \<longleftrightarrow> b)"
proof -
  obtain cfg k1 where g: "config_Get e n k = (Inr cfg, k1)"
    and set: "(if b then
          (\<lambda>m. if map_of (cm_dirs m) (cf_Name cfg) = None \<or> ce_fails e (OpenMarker n) then (Some ConfigIO, m)
               else (None, on_dir (cf_Name cfg) (keep_or_create autostartMarkerName) m))
        else
          (\<lambda>m. if file_in m (cf_Name cfg) autostartMarkerName = None then (None, m)
               else config_io e (RemoveMarker n) (on_dir (cf_Name cfg) (AList.delete autostartMarkerName)) m)) k1 = (None, k')"
    using assms(2) by (auto simp: SetAutostart_def proc_simps)
  note n = Get_name [OF assms(1) g]
  have same: "file_in k1 x g' = file_in k x g'" for x g' using n by (simp add: file_in_def)
  show ?thesis
  proof (cases b)
    case True
    then have k': "k' = on_dir n (keep_or_create autostartMarkerName) k1" "map_of (cm_dirs k1) n \<noteq> None"
      using set n by (auto split: if_splits)
    then obtain fs where fs: "map_of (cm_dirs k1) n = Some fs" by blast
    have "map_of (keep_or_create autostartMarkerName fs) g =
        (if g = autostartMarkerName \<and> map_of fs g = None then Some [] else map_of fs g)" for g
      by (auto simp: keep_or_create_def update_conv')
    then have "file_in k' x g = (if x = n \<and> g = autostartMarkerName \<and> file_in k1 x g = None then Some [] else file_in k1 x g)" for x g
      unfolding k'(1) file_in_on_dir by (auto simp: fs file_in_def [of k1 n])
    moreover have "cm_configs k' = cm_configs k1" by (simp add: k'(1) on_dir_def)
    ultimately show ?thesis using True n same by auto
  next
    case False
    then have "k' = k1 \<and> file_in k1 n autostartMarkerName = None \<or> k' = on_dir n (AList.delete autostartMarkerName) k1"
      using set n by (auto simp: config_io_def split: if_splits)
    moreover have "file_in (on_dir n (AList.delete autostartMarkerName) k1) x g =
        (if x = n \<and> g = autostartMarkerName then None else file_in k1 x g)" for x g
      unfolding file_in_on_dir by (auto simp: delete_conv' file_in_def [of k1 n] split: option.splits)
    moreover have "cm_configs (on_dir n (AList.delete autostartMarkerName) k1) = cm_configs k1" by (simp add: on_dir_def)
    ultimately show ?thesis using False n same by auto
  qed
qed

lemma autostarts_set:
  assumes "call_each (\<lambda>v. bk_SetAutostart (backup_real d) (vr_Name v) (vr_Autostart v)) vs (m, c, r) = (Inr us, w)"
    and "cache_ok c" "distinct (map vr_Name vs)"
  obtains m' c' where "w = (m', c', r)" "conf_at m' = conf_at m"
    "\<And>x. x \<notin> vr_Name ` set vs \<Longrightarrow> file_of m' x autostartMarkerName = file_of m x autostartMarkerName"
    "\<And>v. v \<in> set vs \<Longrightarrow> file_of m' (vr_Name v) autostartMarkerName \<noteq> None \<longleftrightarrow> vr_Autostart v"
  using assms
proof (induction vs arbitrary: m c us thesis)
  case (Cons v vs)
  let ?k = "\<lparr>cm_basePath = rd_base d, cm_configs = c, cm_dirs = vm_dirs m\<rparr>"
  obtain k ys where x: "SetAutostart (rd_config d r) (vr_Name v) (vr_Autostart v) ?k = (Inr (), k)"
    "call_each (\<lambda>v. bk_SetAutostart (backup_real d) (vr_Name v) (vr_Autostart v)) vs (m\<lparr>vm_dirs := cm_dirs k\<rparr>, cm_configs k, r) = (Inr ys, w)"
    using Cons.prems(2) by (auto simp: proc_simps on_ok)
  let ?m = "m\<lparr>vm_dirs := cm_dirs k\<rparr>"
  have f: "file_of ?m x g = file_in k x g" "file_of m x g = file_in ?k x g" for x g
    by (simp_all add: file_of_def dir_of_def file_in_def)
  have e: "cache_ok (cm_configs k)" "\<And>x g. x \<noteq> vr_Name v \<or> g \<noteq> autostartMarkerName \<Longrightarrow> file_of ?m x g = file_of m x g"
    "file_of ?m (vr_Name v) autostartMarkerName \<noteq> None \<longleftrightarrow> vr_Autostart v"
    using SetAutostart_effect [OF _ x(1)] Cons.prems(3) unfolding f by auto
  obtain m' c' where y: "w = (m', c', r)" "conf_at m' = conf_at ?m"
    "\<And>x. x \<notin> vr_Name ` set vs \<Longrightarrow> file_of m' x autostartMarkerName = file_of ?m x autostartMarkerName"
    "\<And>v. v \<in> set vs \<Longrightarrow> file_of m' (vr_Name v) autostartMarkerName \<noteq> None \<longleftrightarrow> vr_Autostart v"
    using Cons.IH [OF _ x(2) e(1)] Cons.prems(4) by auto
  have "''vpn.conf'' \<noteq> autostartMarkerName" by (simp add: autostartMarkerName_def)
  then have "conf_at ?m = conf_at m" using e(2) by (auto simp: conf_at_def fun_eq_iff)
  then show ?case using y e Cons.prems(4) by (intro Cons.prems(1) [of m' c']) auto
qed (auto simp: returns_def)

lemma normalize_vpns_names:
  "normalize_vpns seen vs = Inr ws \<Longrightarrow>
     map vr_Name ws = map (\<lambda>v. TrimSpace (vr_Name v)) vs \<and> distinct (map vr_Name ws) \<and> set (map vr_Name ws) \<inter> set seen = {}"
proof (induction vs arbitrary: seen ws)
  case (Cons v vs)
  then obtain xs where xs: "normalize_vpns (TrimSpace (vr_Name v) # seen) vs = Inr xs" "TrimSpace (vr_Name v) \<notin> set seen"
    "map vr_Name ws = TrimSpace (vr_Name v) # map vr_Name xs"
    by (auto simp: Let_def bindE_Inr trim_vpn_def split: option.splits if_splits)
  note IH = Cons.IH [OF xs(1)]
  have "map vr_Name ws = map (\<lambda>v. TrimSpace (vr_Name v)) (v # vs)" using xs(3) IH by simp
  moreover have "distinct (map vr_Name ws)" "set (map vr_Name ws) \<inter> set seen = {}" unfolding xs(3) using conjunct2 [OF IH] xs(2) by auto
  ultimately show ?case by blast
qed simp

lemma normalizeSnapshot_vpns:
  assumes "normalizeSnapshot s = Inr t"
  shows "vr_Name ` set (sn_VPNs t) = (\<lambda>v. TrimSpace (vr_Name v)) ` set (sn_VPNs s)" "distinct (map vr_Name (sn_VPNs t))" "sn_Settings t = sn_Settings s"
proof -
  obtain vs where vs: "normalize_vpns [] (sn_VPNs s) = Inr vs" "sn_VPNs t = sort_key vr_Name vs" "sn_Settings t = sn_Settings s"
    using assms by (auto simp: normalizeSnapshot_def Let_def bindE_Inr split: if_splits)
  note n = normalize_vpns_names [OF vs(1)]
  have "set (map vr_Name vs) = set (map (\<lambda>v. TrimSpace (vr_Name v)) (sn_VPNs s))" using n by simp
  then show "vr_Name ` set (sn_VPNs t) = (\<lambda>v. TrimSpace (vr_Name v)) ` set (sn_VPNs s)" by (simp add: vs(2))
  show "distinct (map vr_Name (sn_VPNs t))" using n by (simp add: vs(2) distinct_map)
  show "sn_Settings t = sn_Settings s" by (rule vs(3))
qed

lemma stop_all_real: "stop_all (backup_real d) ns (m, c, r) = (warns, w) \<Longrightarrow> \<exists>r'. w = (m, c, r')"
proof (induction ns arbitrary: r warns)
  case (Cons n ns)
  show ?case
  proof (cases "rd_Stop d")
    case None
    then show ?thesis using Cons by (simp add: backup_real_def)
  next
    case (Some stop)
    then show ?thesis using Cons
      by (auto simp: backup_real_def stop_on_rest_def split: prod.splits)
  qed
qed auto

definition installed :: "('e, 'r) rest_deps \<Rightarrow> snapshot \<Rightarrow> vpn_manager \<Rightarrow> 'r \<Rightarrow> bool" where
  "installed d t m r \<longleftrightarrow>
     dom (conf_at m) = vr_Name ` set (sn_VPNs t) \<and>
     (\<forall>v \<in> set (sn_VPNs t). file_of m (vr_Name v) autostartMarkerName \<noteq> None \<longleftrightarrow> vr_Autostart v) \<and>
     (\<exists>r0 r1. rd_ReplaceState d m (map groupToRouting (sn_Groups t)) (resolverRecordsToSnapshot (sn_Resolver t)) r0 = (Inr (), r1) \<and>
       rd_SaveSettings d (sn_Settings t) r1 = (Inr (), r))"

lemma restore_installs:
  assumes "restore_applyLocked (backup_real d) s (m, c, r) = ((warns, None), (m', c', r'))" "cache_ok c"
  obtains t where "normalizeSnapshot s = Inr t" "installed d t m' r'"
proof -
  obtain t existing w1 w2 where a: "normalizeSnapshot s = Inr t"
    "call_then (bk_ReplaceState (backup_real d) [] []) (\<lambda>_. bk_ListVPNs (backup_real d)) (m, c, r) = (Inr existing, w1)"
    "stop_all (backup_real d) (map p_Name existing) w1 = (warns, w2)"
    "replace_all (backup_real d) t existing w2 = (Inr (), (m', c', r'))"
    using assms(1) by (auto simp: restore_applyLocked_def outcome_def split: sum.splits prod.splits)
  obtain r1 where l: "w1 = (m, c, r1)" "vpn_List (rd_vpn d r1) m = Inr existing"
    using a(2) by (auto simp: proc_simps on_ok)
  obtain r2 where w2: "w2 = (m, c, r2)" using stop_all_real [OF a(3) [unfolded l(1)]] by (elim exE)
  obtain us w3 ps w4 us2 w5 w6 where b:
    "call_each (\<lambda>p. bk_DeleteVPN (backup_real d) (p_Name p)) (sort_key p_Name existing) (m, c, r2) = (Inr us, w3)"
    "call_each (\<lambda>v. bk_CreateVPN (backup_real d) (request_of v)) (sn_VPNs t) w3 = (Inr ps, w4)"
    "call_each (\<lambda>v. bk_SetAutostart (backup_real d) (vr_Name v) (vr_Autostart v)) (sn_VPNs t) w4 = (Inr us2, w5)"
    "bk_ReplaceState (backup_real d) (map groupToRouting (sn_Groups t)) (resolverRecordsToSnapshot (sn_Resolver t)) w5 = (Inr (), w6)"
    "bk_SaveSettings (backup_real d) (sn_Settings t) w6 = (Inr (), (m', c', r'))"
    using a(4) unfolding replace_all_def proc_simps w2 by auto
  obtain m1 where m1: "w3 = (m1, c, r2)" "conf_at m1 = (\<lambda>_. None)" using deletes_all [OF l(2) b(1)] by blast
  obtain m2 where m2: "w4 = (m2, c, r2)" "dom (conf_at m2) = (\<lambda>v. TrimSpace (vr_Name v)) ` set (sn_VPNs t)"
    using creates_install [OF b(2) [unfolded m1(1)]] m1(2) by auto
  note names = normalizeSnapshot_vpns [OF a(1)]
  obtain m3 c3 where m3: "w5 = (m3, c3, r2)" "conf_at m3 = conf_at m2"
    "\<And>v. v \<in> set (sn_VPNs t) \<Longrightarrow> file_of m3 (vr_Name v) autostartMarkerName \<noteq> None \<longleftrightarrow> vr_Autostart v"
    using autostarts_set [OF b(3) [unfolded m2(1)] assms(2) names(2)] by blast
  have trimmed_names: "TrimSpace (vr_Name v) = vr_Name v" if "v \<in> set (sn_VPNs t)" for v
    using names(1) that by (metis (no_types, lifting) TrimSpace_idem imageE image_eqI)
  have "dom (conf_at m3) = vr_Name ` set (sn_VPNs t)"
    unfolding m3(2) m2(2) by (rule image_cong) (simp_all add: trimmed_names)
  moreover have "m' = m3" "\<exists>r4. rd_ReplaceState d m3 (map groupToRouting (sn_Groups t)) (resolverRecordsToSnapshot (sn_Resolver t)) r2 = (Inr (), r4) \<and>
      rd_SaveSettings d (sn_Settings t) r4 = (Inr (), r')"
    using b(4,5) by (auto simp: m3(1) on_ok)
  ultimately show thesis using a(1) m3(3) that unfolding installed_def by blast
qed

lemma call_each_inv:
  assumes "\<And>x w. P w \<Longrightarrow> P (snd (f x w))" "P w"
  shows "P (snd (call_each f xs w))"
  using assms(2)
proof (induction xs arbitrary: w)
  case (Cons x xs)
  obtain res w1 where f: "f x w = (res, w1)" by fastforce
  then have "P w1" using assms(1) [OF Cons.prems, of x] by simp
  then have "P (snd (call_each f xs w1))" by (rule Cons.IH)
  then show ?case using \<open>P w1\<close> by (auto simp: call_then_def returns_def f split: sum.splits prod.splits)
qed (simp add: returns_def)

lemma config_Get_cache: "cache_ok (cm_configs k) \<Longrightarrow> cache_ok (cm_configs (snd (config_Get e n k)))"
  using Discover_cache [of k e] by (auto simp: config_Get_def call_then_def split: option.splits sum.splits prod.splits)

lemma AllAutostart_cache: "cache_ok (cm_configs k) \<Longrightarrow> cache_ok (cm_configs (snd (AllAutostart e k)))"
proof -
  assume ok: "cache_ok (cm_configs k)"
  have step: "cache_ok (cm_configs w) \<Longrightarrow> cache_ok (cm_configs (snd (call_then (AutostartEnabled e n) (\<lambda>b. returns (n, b)) w)))" for n w
    using config_Get_cache [of w e n]
    by (auto simp: AutostartEnabled_def call_then_def returns_def split: sum.splits prod.splits if_splits)
  have loop: "cache_ok (cm_configs (snd (call_each (\<lambda>cfg. call_then (AutostartEnabled e (cf_Name cfg)) (\<lambda>b. returns (cf_Name cfg, b))) xs w)))"
    if "cache_ok (cm_configs w)" for xs :: "vpn_config list" and w
    by (rule call_each_inv [of "\<lambda>w. cache_ok (cm_configs w)", OF step that])
  have "cache_ok (cm_configs (snd (config_List e k)))" using ok Discover_cache [OF ok, of e] by (simp add: config_List_def)
  then show ?thesis using loop by (auto simp: AllAutostart_def call_then_def [of "config_List e"] split: prod.splits sum.splits)
qed

lemma on_config_cache: "on_config d AllAutostart (m, c, r) = (res, m', c', r') \<Longrightarrow> cache_ok c \<Longrightarrow> cache_ok c'"
  using AllAutostart_cache [of "\<lparr>cm_basePath = rd_base d, cm_configs = c, cm_dirs = vm_dirs m\<rparr>" "rd_config d r"]
  by (auto simp: on_config_def split: prod.splits)

lemma export_state:
  assumes "exportLocked (backup_real d) (m, c, r) = (Inr s, w1)" "cache_ok c"
  obtains c1 r1 where "w1 = (m, c1, r1)" "cache_ok c1"
proof -
  obtain sets w2 flags w3 ps w4 gs w5 snap w6 records where x:
    "on_rest (rd_GetSettings d) (m, c, r) = (Inr sets, w2)" "on_config d AllAutostart w2 = (Inr flags, w3)"
    "on_vpn d (\<lambda>e m. (vpn_List e m, m)) w3 = (Inr ps, w4)" "on_rest (rd_ListGroups d) w4 = (Inr gs, w5)"
    "on_rest (rd_LoadResolver d) w5 = (Inr snap, w6)"
    "call_each (\<lambda>p. profileToRecord (backup_real d) (autostart_of flags (p_Name p)) p) ps w6 = (Inr records, w1)"
    using assms(1) unfolding exportLocked_def proc_simps backup_real_sel
    by (elim exE conjE Pair_inject) (rule that, assumption+, hypsubst, assumption)
  obtain r2 where w2: "w2 = (m, c, r2)" using on_rest_state [OF x(1)] by (elim exE)
  obtain c3 where w3: "w3 = (m, c3, r2)" using on_config_AllAutostart [OF x(2) [unfolded w2]] by (elim exE)
  have "cache_ok c3" by (rule on_config_cache [OF x(2) [unfolded w2 w3] assms(2)])
  moreover have "w4 = (m, c3, r2)" using x(3) by (auto simp: w3 on_ok)
  then obtain r3 where "w6 = (m, c3, r3)" using x(4,5) by (auto simp: on_ok)
  moreover have "w1 = w6"
    by (rule conjunct1 [OF call_each_still [OF _ x(6)]]) (use profileToRecord_real in blast)
  ultimately show thesis using that by blast
qed


definition sample_snapshot :: snapshot where
  "sample_snapshot = \<lparr>sn_Format = FormatName, sn_Version = 1, sn_ExportedAt = 0, sn_Settings = empty_settings,
     sn_VPNs = [\<lparr>vr_Name = ''b'', vr_Type = ''openvpn'', vr_Config = rq_Config (sample_request ''b''), vr_ConfigFile = [], vr_InterfaceName = ''b'',
       vr_BoundInterface = [], vr_SupportingFiles = [], vr_Autostart = True\<rparr>], sn_Groups = [], sn_Resolver = []\<rparr>"

definition imports_ok :: "unit app \<Rightarrow> bool" where
  "imports_ok w = (case Import (backup_real quiet_rest) sample_snapshot w of ((_, None), _) \<Rightarrow> True | _ \<Rightarrow> False)"

lemma sample_imports: "imports_ok (manager_a, [], ())"
  by code_simp


end
