(* ===== verification/Spec2Isabelle.thy ===== *)
theory Spec2Isabelle
  imports Svpn_Prelude Go_Strings Vpn_Validate Vpn_Conf Vpn_Allocator Net_Addr Routing_Model Routing_Normalize Set_Names
    Executor IPSet Desired_Sets Iptables IP_Rules Rule_Safety Rule_Reconcile Mark_Rules Dnsmasq Routing_Manager Manager_Safety
    Addr_Text Device_Directory Routing_Inspector Flow_Match Flow_Agreement Flow_Session App_Settings Prewarm_Config Prewarm_Worker Prewarm_Scheduler Routing_Store Store_Refine Store_Cache Resolver Resolver_Scheduler
    Wireguard_Conf Vpn_Providers Vpn_Manager Vpn_Manager_Safety Config_Manager Backup Backup_Restore
begin

text \<open>
  \<^bold>\<open>split-vpn-webui, verified.\<close>

  The program is a web interface and daemon for routers: it manages VPN profiles and sends selected traffic through
  them. This development translates its Go sources (under \<^verbatim>\<open>src/internal\<close>) into executable functions and proves what
  they guarantee.

  \<^bold>\<open>The parts and how they interact.\<close> A user stores \<^emph>\<open>groups\<close> of \<^emph>\<open>rules\<close> (selectors: source interfaces, addresses, hardware
  addresses, destinations, ports, domains), each group with an egress VPN. The \<^emph>\<open>routing manager\<close> turns groups, VPN profiles
  and cached addresses into ipsets, a dnsmasq configuration, iptables chains and policy rules. The \<^emph>\<open>allocator\<close> gives every
  VPN a routing table and a firewall mark. The \<^emph>\<open>resolver\<close> and the \<^emph>\<open>pre-warmer\<close> fill the address caches. The
  \<^emph>\<open>inspectors\<close> show what the installed rules do to devices and connections. The \<^emph>\<open>VPN manager\<close>
  stores the profiles. Settings and credentials live in one file that the web interface reads and writes.

  \<^bold>\<open>Conventions.\<close> A function that changes the machine and returns an error is a procedure \<open>('e, 'w) proc\<close> over an arbitrary
  world \<open>'w\<close> (theory \<open>Svpn_Prelude\<close>); a function that returns a value or an error is a sum. A mutex that guards an entry
  point makes it one procedure; where code runs between two locked sections, or in several goroutines, the theory has one step
  per locked section. Strings are lists of bytes below 128 (the ASCII fragment of Go's UTF-8 functions); marks, hashes and
  byte counters are words of their width; other integers are \<open>int\<close> with the 64-bit bounds written where a parser checks
  them.

  \<^bold>\<open>Theories and sources.\<close>
  \<^item> \<open>Svpn_Prelude\<close>: procedures, their program logic \<open>preserves\<close>, de-duplication loops, traversals. \<open>Go_Strings\<close>: packages
    strings and strconv. \<open>Net_Addr\<close>, \<open>Addr_Text\<close>: packages net and net/netip; addresses, prefixes and hardware addresses are
    read back as they are printed.
  \<^item> \<open>Vpn_Validate\<close>, \<open>Vpn_Conf\<close>, \<open>Vpn_Allocator\<close>: \<^verbatim>\<open>vpn/validate.go\<close>, \<^verbatim>\<open>vpn/manager_storage.go\<close> (file format),
    \<^verbatim>\<open>vpn/allocator.go\<close>. Which inputs are accepted; the file format round trip; no two profiles share a table or mark in any run.
  \<^item> \<open>Routing_Model\<close>, \<open>Routing_Normalize\<close>: \<^verbatim>\<open>routing/model*.go\<close>. Normal forms and stability of normalisation.
  \<^item> \<open>Set_Names\<close>, \<open>Executor\<close>, \<open>IPSet\<close>, \<open>Desired_Sets\<close>: \<^verbatim>\<open>routing/manager_sets.go\<close>, \<^verbatim>\<open>executor.go\<close>, \<^verbatim>\<open>ipset.go\<close>,
    \<^verbatim>\<open>prefix_aggregate.go\<close>. Names fit the kernel's limit and are distinct; the ipset operator is a locale, interpreted on the
    command line manager and on the in-memory operator; replacing a set is atomic.
  \<^item> \<open>Iptables\<close>, \<open>IP_Rules\<close>, \<open>Rule_Safety\<close>, \<open>Rule_Reconcile\<close>, \<open>Mark_Rules\<close>: \<^verbatim>\<open>routing/iptables*.go\<close>. The chains in use are never
    touched while the next generation is built; policy rules are reconciled exactly; the mark chain means what the rule says.
  \<^item> \<open>Dnsmasq\<close>, \<open>Routing_Manager\<close>, \<open>Manager_Safety\<close>: \<^verbatim>\<open>routing/dnsmasq.go\<close>, \<^verbatim>\<open>routing/manager.go\<close>. The composition: after an
    apply every set a rule refers to exists with its planned contents.
  \<^item> \<open>Device_Directory\<close>, \<open>Routing_Inspector\<close>, \<open>Flow_Match\<close>, \<open>Flow_Agreement\<close>, \<open>Flow_Session\<close>: \<^verbatim>\<open>server/device_directory*.go\<close>,
    \<^verbatim>\<open>server/routing_sizes.go\<close>, \<^verbatim>\<open>server/handlers_routing_inspector*.go\<close>, \<^verbatim>\<open>server/flow_inspector*.go\<close>. The flow inspector agrees with
    the installed chains; its accounting of traffic is exact.
  \<^item> \<open>App_Settings\<close>: \<^verbatim>\<open>settings/settings.go\<close>, \<^verbatim>\<open>auth/*.go\<close>, \<^verbatim>\<open>server/handlers_auth.go\<close>. Persistence, who is served, token rotation.
  \<^item> \<open>Prewarm_Config\<close>: \<^verbatim>\<open>prewarm/config.go\<close>, \<^verbatim>\<open>doh.go\<close>, \<^verbatim>\<open>nameserver.go\<close>, \<^verbatim>\<open>wildcard.go\<close>,
    \<^verbatim>\<open>server/handlers_settings.go\<close>. Settings text, types of DNS answers, what the settings page can change.
  \<^item> \<open>Prewarm_Worker\<close>, \<open>Prewarm_Scheduler\<close>: \<^verbatim>\<open>prewarm/worker*.go\<close>, \<^verbatim>\<open>task*.go\<close>, \<^verbatim>\<open>scheduler.go\<close>, \<^verbatim>\<open>store.go\<close>. A run as locked
    sections in any order: its result does not depend on the order; at most one run; where Stop misses one.
  \<^item> \<open>Routing_Store\<close>, \<open>Store_Refine\<close>, \<open>Store_Cache\<close>: \<^verbatim>\<open>routing/store*.go\<close> and the tables of \<^verbatim>\<open>database/schema.go\<close>. The statements
    act on typed tables inside transactions that the driver may fail anywhere; the store refines a map of groups.
  \<^item> \<open>Resolver\<close>, \<open>Resolver_Scheduler\<close>: \<^verbatim>\<open>routing/resolver*.go\<close>, \<^verbatim>\<open>routing/asn_preview.go\<close>. The addresses of a run reach exactly the rules
    that asked for them.
  \<^item> \<open>Wireguard_Conf\<close>, \<open>Vpn_Providers\<close>: \<^verbatim>\<open>vpn/wireguard.go\<close>, \<^verbatim>\<open>vpn/manager_wireguard.go\<close>, \<^verbatim>\<open>vpn/amneziawg*.go\<close>, \<^verbatim>\<open>vpn/openvpn.go\<close>. What the
    parsers accept, and that the stored configuration means what the submitted one does.
  \<^item> \<open>Vpn_Manager\<close>, \<open>Vpn_Manager_Safety\<close>: \<^verbatim>\<open>vpn/manager*.go\<close>. Profiles as directories of files; no two profiles share a table, a mark or
    an interface in any run with failing file operations.
  \<^bold>\<open>Interfaces.\<close> Code outside the repository is a parameter with named laws: the command executor, package os
  (\<open>files_law\<close>), the JSON codec (\<open>json_law\<close>), bcrypt (\<open>bcrypt_law\<close>), the prefix aggregation of go4.org/netipx, the SQL driver,
  network requests, the clock, the random source, floating point rates. Every law is shown satisfiable by a concrete
  instance in a witness.

  \<^bold>\<open>Bounds and fuel.\<close> Derived set names are proved for rule indices below \<open>10 ^ 9 - 1\<close>, which is above the number of rules a group can hold in
  memory. The loop that deletes policy rules runs at most 64 times, as in the code. The scan for connection tuples in a line has one
  step per byte, and every step consumes a byte. A line scanner refuses
  lines above its buffer (64 KiB, or 1 MiB for VPN configurations), and the model has this branch. All other recursions are structural or have a proved measure.

  \<^bold>\<open>Not modelled.\<close> Process start and command line, HTML templates and static assets, HTTP routing and JSON
  encoding of responses, systemd and D-Bus calls, the wireguard kernel and user space backends,
  speed tests and statistics sampling: these are input and output around the logic above, or code of other packages.
\<close>

end
